(* ===== verification/Py_Prelude.thy ===== *)
theory Py_Prelude
  imports Main "HOL-Library.Char_ord" "HOL-Library.List_Lexorder"
begin

text \<open>
  Shared ground of the development: the exceptions the modelled Python raises, the result
  type of fallible code, text helpers of the Python standard library that the source relies
  on (\<open>str.strip\<close>, \<open>str.isalnum\<close>, \<open>str.replace\<close>, \<open>uuid.UUID\<close>, decimal rendering), and the
  contract that every stateful component satisfies: operations either raise and leave the
  state alone, or return the next state and keep the component's invariant.

  A \<open>char\<close> stands for a code point below 256; the character predicates agree with Python on
  all of these.  The class of an exception is kept, its message is not.
\<close>

named_theorems evidence_simps \<open>how recorded tool calls are read back as proof\<close>
named_theorems machine_defs \<open>unfolding of one component operation into its guards\<close>
named_theorems fact_simps \<open>closed vocabularies: values of enumerations and tables\<close>

section \<open>Exceptions and results\<close>

datatype py_exc =
    ValueError | TypeError | KeyError | IndexError | RuntimeError | AttributeError | AssertionError
  | TimeoutError | IntegrityError
  | StaleExecutionEpoch | CancellationRuntimeError
  | EndpointUnavailable | EndpointQueueFull | EndpointLeaseConflict
  | SequenceConflict | AdmissionConflict | TaskStateConflict | ArtifactIntegrityError
  | TaskReadModelError | EventContractError | ServiceClosed | SubscriptionGap
  | ToolError | BlockedError | ProtectedPathError | SandboxError | OSError | UnicodeDecodeError
  | DurableWriteFailed | CancelUnreconciled | DurableActivityError
  | WatchJobConflict | WatchJobNotFound | WatchRunConflict | WatchDisabled | WatchOverlap | WatchLifecycleError
  | DurableWatchError | DurableWatchAdmissionError | DurableWatchLifecycleError | ContextRefusal
  | WatchReadModelError

type_synonym 'a py = "py_exc + 'a"

definition py_bind :: "'a py \<Rightarrow> ('a \<Rightarrow> 'b py) \<Rightarrow> 'b py" where
  "py_bind m f = (case m of Inl e \<Rightarrow> Inl e | Inr a \<Rightarrow> f a)"

definition py_check :: "bool \<Rightarrow> py_exc \<Rightarrow> 'a py \<Rightarrow> 'a py" where
  \<comment> \<open>\<open>if bad: raise e\<close> followed by the rest of the function\<close>
  "py_check bad e rest = (if bad then Inl e else rest)"

lemma py_bind_simps [simp]:
  "py_bind (Inl e) f = Inl e"
  "py_bind (Inr a) f = f a"
  by (simp_all add: py_bind_def)

lemma py_bind_Inr_iff:
  "py_bind m f = Inr b \<longleftrightarrow> (\<exists>a. m = Inr a \<and> f a = Inr b)"
  by (cases m) auto

lemma py_check_simps [simp]:
  "py_check True e r = Inl e"
  "py_check False e r = r"
  by (simp_all add: py_check_def)

lemma py_check_Inr_iff [simp]: "py_check bad e r = Inr a \<longleftrightarrow> \<not> bad \<and> r = Inr a"
  by (simp add: py_check_def)

lemma py_check_Inl_iff: "py_check bad e r = Inl x \<longleftrightarrow> (bad \<and> x = e) \<or> (\<not> bad \<and> r = Inl x)"
  by (auto simp: py_check_def)

definition returns :: "('a \<Rightarrow> bool) \<Rightarrow> 'a py \<Rightarrow> bool" where
  \<comment> \<open>the computation returns a value with the property\<close>
  "returns P m = (case m of Inl _ \<Rightarrow> False | Inr a \<Rightarrow> P a)"

lemma returnsE: "returns P m \<Longrightarrow> (\<And>a. m = Inr a \<Longrightarrow> P a \<Longrightarrow> thesis) \<Longrightarrow> thesis"
  by (auto simp: returns_def split: sum.splits)

definition enum_of :: "('a \<Rightarrow> string) \<Rightarrow> 'a list \<Rightarrow> string \<Rightarrow> 'a py" where
  \<comment> \<open>\<open>Enum(value)\<close>: the member with that value, or ValueError\<close>
  "enum_of val members v = (case find (\<lambda>k. val k = v) members of None \<Rightarrow> Inl ValueError | Some k \<Rightarrow> Inr k)"

lemma enum_of_Inr: "enum_of val members v = Inr k \<Longrightarrow> val k = v \<and> k \<in> set members"
  by (auto simp: enum_of_def find_Some_iff split: option.splits)

lemma enum_of_Inl: "enum_of val members v = Inl e \<Longrightarrow> e = ValueError"
  by (auto simp: enum_of_def split: option.splits)

section \<open>Scripts of operations and their contract\<close>

text \<open>
  A script runs operations in order.  An operation that raises has changed nothing: in the
  source every guard precedes the first assignment (or the transaction is rolled back).
\<close>

definition after_op :: "('op \<Rightarrow> 's \<Rightarrow> 'e + 's) \<Rightarrow> 'op \<Rightarrow> 's \<Rightarrow> 's" where
  "after_op step x s = (case step x s of Inl e \<Rightarrow> s | Inr s' \<Rightarrow> s')"

fun run_ops :: "('op \<Rightarrow> 's \<Rightarrow> 'e + 's) \<Rightarrow> 'op list \<Rightarrow> 's \<Rightarrow> 's" where
  "run_ops step [] s = s"
| "run_ops step (x # xs) s = run_ops step xs (after_op step x s)"

lemma run_ops_append: "run_ops step (xs @ ys) s = run_ops step ys (run_ops step xs s)"
  by (induction xs arbitrary: s) auto

locale guarded_machine =
  fixes step :: "'op \<Rightarrow> 's \<Rightarrow> 'e + 's"
    and inv :: "'s \<Rightarrow> bool"
  assumes step_inv: "inv s \<Longrightarrow> step x s = Inr s' \<Longrightarrow> inv s'"
begin

lemma after_inv: "inv s \<Longrightarrow> inv (after_op step x s)"
  by (auto simp: after_op_def split: sum.splits intro: step_inv)

lemma run_inv: "inv s \<Longrightarrow> inv (run_ops step xs s)"
  by (induction xs arbitrary: s) (auto intro: after_inv)

end

text \<open>A machine with a preorder that every operation climbs: epochs, sequences, logs.\<close>

locale monotone_machine = guarded_machine step inv
  for step :: "'op \<Rightarrow> 's \<Rightarrow> 'e + 's" and inv :: "'s \<Rightarrow> bool" +
  fixes below :: "'s \<Rightarrow> 's \<Rightarrow> bool"
  assumes below_refl: "below s s"
    and below_trans: "below s t \<Longrightarrow> below t u \<Longrightarrow> below s u"
    and step_below: "inv s \<Longrightarrow> step x s = Inr s' \<Longrightarrow> below s s'"
begin

lemma after_below: "inv s \<Longrightarrow> below s (after_op step x s)"
  by (auto simp: after_op_def split: sum.splits intro: below_refl step_below)

lemma run_below: "inv s \<Longrightarrow> below s (run_ops step xs s)"
proof (induction xs arbitrary: s)
  case Nil
  show ?case by (simp add: below_refl)
next
  case (Cons x xs)
  from Cons.prems have "inv (after_op step x s)" by (rule after_inv)
  then have "below (after_op step x s) (run_ops step xs (after_op step x s))"
    by (rule Cons.IH)
  with after_below [OF Cons.prems] show ?case by (auto intro: below_trans)
qed

end

section \<open>Text\<close>

definition code :: "char \<Rightarrow> nat" where
  "code c = of_char c"

definition is_ws :: "char \<Rightarrow> bool" where
  \<comment> \<open>\<open>str.isspace\<close> on code points below 256\<close>
  "is_ws c \<longleftrightarrow> code c \<in> {9, 10, 11, 12, 13, 28, 29, 30, 31, 32, 133, 160}"

definition nl :: string where
  "nl = [char_of (10::nat)]"

definition py_strip :: "string \<Rightarrow> string" where
  "py_strip s = rev (dropWhile is_ws (rev (dropWhile is_ws s)))"

definition strip_chars :: "string \<Rightarrow> string \<Rightarrow> string" where
  "strip_chars cs s = rev (dropWhile (\<lambda>c. c \<in> set cs) (rev (dropWhile (\<lambda>c. c \<in> set cs) s)))"

definition is_alnum_char :: "char \<Rightarrow> bool" where
  \<comment> \<open>\<open>str.isalnum\<close> on one code point below 256 (letters, decimal and numeric characters)\<close>
  "is_alnum_char c \<longleftrightarrow>
     (let n = code c in
      (48 \<le> n \<and> n \<le> 57) \<or> (65 \<le> n \<and> n \<le> 90) \<or> (97 \<le> n \<and> n \<le> 122)
      \<or> n \<in> {170, 178, 179, 181, 185, 186, 188, 189, 190}
      \<or> (192 \<le> n \<and> n \<le> 214) \<or> (216 \<le> n \<and> n \<le> 246) \<or> (248 \<le> n \<and> n \<le> 255))"

definition py_isalnum :: "string \<Rightarrow> bool" where
  "py_isalnum s \<longleftrightarrow> s \<noteq> [] \<and> list_all is_alnum_char s"

definition remove_char :: "char \<Rightarrow> string \<Rightarrow> string" where
  "remove_char c s = filter (\<lambda>x. x \<noteq> c) s"

function remove_sub :: "string \<Rightarrow> string \<Rightarrow> string" where
  \<comment> \<open>\<open>s.replace(sub, "")\<close> for a nonempty \<open>sub\<close>: leftmost, non-overlapping\<close>
  "remove_sub sub s =
     (case s of [] \<Rightarrow> []
      | c # cs \<Rightarrow>
          if sub \<noteq> [] \<and> take (length sub) s = sub then remove_sub sub (drop (length sub) s)
          else c # remove_sub sub cs)"
  by pat_completeness auto
termination
  by (relation "measure (\<lambda>(sub, s). length s)") auto

declare remove_sub.simps [simp del]

definition is_lower_hex :: "char \<Rightarrow> bool" where
  "is_lower_hex c \<longleftrightarrow> c \<in> set ''0123456789abcdef''"

definition is_hex :: "char \<Rightarrow> bool" where
  "is_hex c \<longleftrightarrow> c \<in> set ''0123456789abcdefABCDEF''"

fun hexnum_tail :: "string \<Rightarrow> bool" where
  \<comment> \<open>hex digits with single underscores between them, after a first digit\<close>
  "hexnum_tail [] = True"
| "hexnum_tail [c] = is_hex c"
| "hexnum_tail (c # d # cs) =
     (if c = CHR ''_'' then is_hex d \<and> hexnum_tail cs else is_hex c \<and> hexnum_tail (d # cs))"

definition hexnum_ok :: "string \<Rightarrow> bool" where
  "hexnum_ok s = (case s of [] \<Rightarrow> False | c # cs \<Rightarrow> is_hex c \<and> hexnum_tail cs)"

definition int16_ok :: "string \<Rightarrow> bool" where
  \<comment> \<open>\<open>int(s, 16)\<close> returns, for a text without a minus sign\<close>
  "int16_ok s =
     (let t = py_strip s;
          u = (case t of [] \<Rightarrow> [] | c # cs \<Rightarrow> if c = CHR ''+'' then cs else t)
      in if take 2 u = ''0x'' \<or> take 2 u = ''0X''
         then (case drop 2 u of [] \<Rightarrow> False
               | c # cs \<Rightarrow> if c = CHR ''_'' then hexnum_ok cs else hexnum_ok (c # cs))
         else hexnum_ok u)"

definition uuid_ok :: "string \<Rightarrow> bool" where
  \<comment> \<open>\<open>uuid.UUID(s)\<close> returns instead of raising ValueError\<close>
  "uuid_ok s =
     (let h = remove_char (CHR ''-'')
                (strip_chars ''{}'' (remove_sub ''uuid:'' (remove_sub ''urn:'' s)))
      in length h = 32 \<and> int16_ok h)"

definition sha256_hex :: "string \<Rightarrow> bool" where
  "sha256_hex s \<longleftrightarrow> length s = 64 \<and> list_all is_lower_hex s"

subsection \<open>Decimal rendering\<close>

definition digit_char :: "nat \<Rightarrow> char" where
  "digit_char d = char_of (48 + d)"

fun nat_str :: "nat \<Rightarrow> string" where
  "nat_str n = (if n < 10 then [digit_char n] else nat_str (n div 10) @ [digit_char (n mod 10)])"

declare nat_str.simps [simp del]

definition int_str :: "int \<Rightarrow> string" where
  "int_str i = (if i < 0 then ''-'' @ nat_str (nat (- i)) else nat_str (nat i))"

lemma digit_char_inj: "a < 10 \<Longrightarrow> b < 10 \<Longrightarrow> digit_char a = digit_char b \<Longrightarrow> a = b"
proof -
  assume a: "a < 10" and b: "b < 10" and eq: "digit_char a = digit_char b"
  have "of_char (digit_char d) = 48 + d" if "d < 10" for d :: nat
    using that by (simp add: digit_char_def of_char_of take_bit_eq_mod)
  with a b eq show "a = b" by (metis add_left_cancel)
qed

lemma digit_char_ne_colon: "d < 10 \<Longrightarrow> digit_char d \<noteq> CHR '':''"
  by (auto simp: digit_char_def dest!: arg_cong [where f = "of_char :: char \<Rightarrow> nat"])

lemma nat_str_no_colon: "CHR '':'' \<notin> set (nat_str n)"
proof (induction n rule: nat_str.induct)
  case (1 n)
  show ?case
  proof (cases "n < 10")
    case True
    then show ?thesis
      by (subst nat_str.simps) (use digit_char_ne_colon [of n] in auto)
  next
    case False
    with 1 have "CHR '':'' \<notin> set (nat_str (n div 10))" by simp
    with False show ?thesis
      by (subst nat_str.simps) (use digit_char_ne_colon [of "n mod 10"] in auto)
  qed
qed

lemma nat_str_ne [simp]: "nat_str n \<noteq> []"
  by (subst nat_str.simps) simp

lemma nat_str_inj: "nat_str m = nat_str n \<Longrightarrow> m = n"
proof (induction m arbitrary: n rule: nat_str.induct)
  case (1 m)
  note eq = "1.prems"
  show ?case
  proof (cases "m < 10")
    case True
    note m = this
    then have ms: "nat_str m = [digit_char m]" by (simp add: nat_str.simps [of m])
    show ?thesis
    proof (cases "n < 10")
      case True
      with eq ms m show ?thesis by (auto simp: nat_str.simps [of n] intro: digit_char_inj)
    next
      case False
      with eq ms have "nat_str (n div 10) = []" by (simp add: nat_str.simps [of n])
      then show ?thesis by simp
    qed
  next
    case False
    note m = this
    show ?thesis
    proof (cases "n < 10")
      case True
      with eq m show ?thesis by (simp add: nat_str.simps [of m] nat_str.simps [of n])
    next
      case False
      with eq m have "nat_str (m div 10) = nat_str (n div 10)"
        and "digit_char (m mod 10) = digit_char (n mod 10)"
        by (simp_all add: nat_str.simps [of m] nat_str.simps [of n])
      then have "m div 10 = n div 10" "m mod 10 = n mod 10"
        using "1.IH" m by (auto intro: digit_char_inj)
      then show ?thesis by (metis div_mult_mod_eq)
    qed
  qed
qed

text \<open>Labels \<open>name:ordinal\<close> identify both parts: the last colon separates them.\<close>

lemma label_inj:
  assumes "a @ CHR '':'' # nat_str m = b @ CHR '':'' # nat_str n"
  shows "a = b \<and> m = n"
proof -
  have "takeWhile (\<lambda>c. c \<noteq> CHR '':'') (rev (x @ CHR '':'' # nat_str k)) = rev (nat_str k)" for x k
  proof -
    have "\<forall>c \<in> set (rev (nat_str k)). c \<noteq> CHR '':''"
      using nat_str_no_colon [of k] by auto
    then show ?thesis by (simp add: takeWhile_tail takeWhile_eq_all_conv)
  qed
  with assms have "rev (nat_str m) = rev (nat_str n)" by metis
  then have "nat_str m = nat_str n" by simp
  with assms show ?thesis by (auto dest: nat_str_inj)
qed

section \<open>Lists and lookup tables\<close>

lemma last_filter_mem: "filter P xs \<noteq> [] \<Longrightarrow> last (filter P xs) \<in> set xs \<and> P (last (filter P xs))"
  using last_in_set [of "filter P xs"] by auto

lemma filter_length_mono:
  "(\<And>x. P x \<Longrightarrow> Q x) \<Longrightarrow> length (filter P xs) \<le> length (filter Q xs)"
  by (induction xs) (auto intro: le_SucI)

lemma distinct_map_filterI [intro]: "distinct (map f xs) \<Longrightarrow> distinct (map f (filter P xs))"
  by (rule distinct_map_filter)

lemma map_of_SomeI: "distinct (map fst xs) \<Longrightarrow> (k, v) \<in> set xs \<Longrightarrow> map_of xs k = Some v"
  by simp

end
