(* ===== verification/Py_Value.thy ===== *)
theory Py_Value
  imports Py_Prelude
begin

text \<open>
  The untyped values that cross the program's boundaries (tool arguments, structured tool
  data, decoded JSON objects) with the operations the source uses on them: truth testing,
  \<open>dict.get\<close>, type tests and canonical JSON text; then the boundary validators of
  \<open>session/value_validation.py\<close> and the build-target test of \<open>build_arguments.py\<close>.
  Dictionaries keep their insertion order and look a key up with \<open>map_of\<close>; JSON numbers
  are integers here, since no modelled check distinguishes a float.
\<close>

datatype pyval =
    PNone | PBool bool | PInt int | PStr string
  | PList "pyval list" | PDict "(string \<times> pyval) list"

type_synonym pydict = "(string \<times> pyval) list"

fun truthy :: "pyval \<Rightarrow> bool" where
  "truthy PNone = False"
| "truthy (PBool b) = b"
| "truthy (PInt i) = (i \<noteq> 0)"
| "truthy (PStr s) = (s \<noteq> [])"
| "truthy (PList xs) = (xs \<noteq> [])"
| "truthy (PDict d) = (d \<noteq> [])"

definition py_get :: "pydict \<Rightarrow> string \<Rightarrow> pyval" where
  \<comment> \<open>\<open>d.get(key)\<close>\<close>
  "py_get d k = (case map_of d k of None \<Rightarrow> PNone | Some v \<Rightarrow> v)"

definition has_key :: "pydict \<Rightarrow> string \<Rightarrow> bool" where
  "has_key d k \<longleftrightarrow> k \<in> fst ` set d"

definition py_get_or :: "pydict \<Rightarrow> string \<Rightarrow> pyval \<Rightarrow> pyval" where
  \<comment> \<open>\<open>d.get(key, default)\<close>\<close>
  "py_get_or d k v = (if has_key d k then py_get d k else v)"

lemma py_get_absent: "\<not> has_key d k \<Longrightarrow> py_get d k = PNone"
  by (simp add: py_get_def has_key_def map_of_eq_None_iff [THEN iffD2])

lemma truthy_get_has_key: "truthy (py_get d k) \<Longrightarrow> has_key d k"
  by (rule ccontr) (simp add: py_get_absent)

section \<open>Canonical JSON text\<close>

definition hex_char :: "nat \<Rightarrow> char" where
  "hex_char d = ''0123456789abcdef'' ! d"

definition json_char :: "char \<Rightarrow> string" where
  \<comment> \<open>one character of a JSON string with \<open>ensure_ascii\<close>\<close>
  "json_char c =
     (let n = code c in
      if n = 34 then [CHR 0x5C, CHR 0x22]
      else if n = 92 then [CHR 0x5C, CHR 0x5C]
      else if n = 10 then [CHR 0x5C, CHR ''n'']
      else if n = 13 then [CHR 0x5C, CHR ''r'']
      else if n = 9 then [CHR 0x5C, CHR ''t'']
      else if n = 12 then [CHR 0x5C, CHR ''f'']
      else if n = 8 then [CHR 0x5C, CHR ''b'']
      else if 32 \<le> n \<and> n \<le> 126 then [c]
      else [CHR 0x5C] @ ''u00'' @ [hex_char (n div 16), hex_char (n mod 16)])"

text \<open>The same function by the bits of the character, for evaluation.\<close>

definition json_escape :: "char \<Rightarrow> string" where
  "json_escape c = json_char c"

lemma json_escape_code [code]:
  "json_escape c =
     (let n = code c in
      if n = 34 then [CHR 0x5C, CHR 0x22]
      else if n = 92 then [CHR 0x5C, CHR 0x5C]
      else if n = 10 then [CHR 0x5C, CHR ''n'']
      else if n = 13 then [CHR 0x5C, CHR ''r'']
      else if n = 9 then [CHR 0x5C, CHR ''t'']
      else if n = 12 then [CHR 0x5C, CHR ''f'']
      else if n = 8 then [CHR 0x5C, CHR ''b'']
      else if 32 \<le> n \<and> n \<le> 126 then [c]
      else [CHR 0x5C] @ ''u00'' @ [hex_char (n div 16), hex_char (n mod 16)])"
  by (simp add: json_escape_def json_char_def)

definition plain_char :: "char \<Rightarrow> bool" where
  "plain_char c \<longleftrightarrow> 32 \<le> code c \<and> code c \<le> 126 \<and> code c \<noteq> 34 \<and> code c \<noteq> 92"

lemma plain_char_code [code]:
  "plain_char (Char b0 b1 b2 b3 b4 b5 b6 b7) \<longleftrightarrow> \<not> b7 \<and> (b5 \<or> b6)
     \<and> Char b0 b1 b2 b3 b4 b5 b6 b7 \<noteq> CHR 0x22 \<and> Char b0 b1 b2 b3 b4 b5 b6 b7 \<noteq> CHR 0x5C
     \<and> Char b0 b1 b2 b3 b4 b5 b6 b7 \<noteq> CHR 0x7F"
  by (cases b0; cases b1; cases b2; cases b3; cases b4; cases b5; cases b6; cases b7) (simp_all add: plain_char_def code_def)

lemma json_char_code [code]: "json_char c = (if plain_char c then [c] else json_escape c)"
  by (simp add: json_escape_def plain_char_def json_char_def Let_def)

definition json_str :: "string \<Rightarrow> string" where
  "json_str s = CHR 0x22 # concat (map json_char s) @ [CHR 0x22]"

fun join :: "string \<Rightarrow> string list \<Rightarrow> string" where
  "join sep [] = []"
| "join sep [s] = s"
| "join sep (s # t # ss) = s @ sep @ join sep (t # ss)"

fun json_dumps :: "pyval \<Rightarrow> string" where
  \<comment> \<open>\<open>json.dumps(value, sort_keys=True)\<close> with the default separators\<close>
  "json_dumps PNone = ''null''"
| "json_dumps (PBool b) = (if b then ''true'' else ''false'')"
| "json_dumps (PInt i) = int_str i"
| "json_dumps (PStr s) = json_str s"
| "json_dumps (PList xs) = ''['' @ join '', '' (map json_dumps xs) @ '']''"
| "json_dumps (PDict d) =
     ''{'' @ join '', '' (map (\<lambda>kv. json_str (fst kv) @ '': '' @ snd kv)
                  (sort_key fst (map (\<lambda>kv. (fst kv, json_dumps (snd kv))) d))) @ ''}''"

section \<open>Python text of values (\<open>repr\<close>, \<open>str\<close>)\<close>

definition py_printable :: "char \<Rightarrow> bool" where
  \<comment> \<open>\<open>str.isprintable\<close> on code points below 256\<close>
  "py_printable c \<longleftrightarrow> (let n = code c in (32 \<le> n \<and> n \<le> 126) \<or> (161 \<le> n \<and> n \<noteq> 173))"

definition repr_char :: "char \<Rightarrow> char \<Rightarrow> string" where
  "repr_char q c =
     (let n = code c in
      if c = q \<or> n = 92 then [CHR 0x5C, c]
      else if n = 10 then [CHR 0x5C, CHR ''n'']
      else if n = 13 then [CHR 0x5C, CHR ''r'']
      else if n = 9 then [CHR 0x5C, CHR ''t'']
      else if py_printable c then [c]
      else [CHR 0x5C, CHR ''x'', hex_char (n div 16), hex_char (n mod 16)])"

definition repr_str :: "string \<Rightarrow> string" where
  "repr_str s =
     (let q = (if CHR 0x27 \<in> set s \<and> CHR 0x22 \<notin> set s then CHR 0x22 else CHR 0x27)
      in q # concat (map (repr_char q) s) @ [q])"

fun py_repr :: "pyval \<Rightarrow> string" where
  "py_repr PNone = ''None''"
| "py_repr (PBool b) = (if b then ''True'' else ''False'')"
| "py_repr (PInt i) = int_str i"
| "py_repr (PStr s) = repr_str s"
| "py_repr (PList xs) = ''['' @ join '', '' (map py_repr xs) @ '']''"
| "py_repr (PDict d) =
     ''{'' @ join '', '' (map (\<lambda>kv. repr_str (fst kv) @ '': '' @ snd kv)
                  (map (\<lambda>kv. (fst kv, py_repr (snd kv))) d)) @ ''}''"

definition py_str :: "pyval \<Rightarrow> string" where
  "py_str v = (case v of PStr s \<Rightarrow> s | _ \<Rightarrow> py_repr v)"

definition repr_list :: "string list \<Rightarrow> string" where
  "repr_list ss = ''['' @ join '', '' (map repr_str ss) @ '']''"

definition py_set :: "pydict \<Rightarrow> string \<Rightarrow> pyval \<Rightarrow> pydict" where
  \<comment> \<open>\<open>d[key] = value\<close>: an existing key keeps its place\<close>
  "py_set d k v =
     (if has_key d k then map (\<lambda>kv. if fst kv = k then (k, v) else kv) d else d @ [(k, v)])"

lemma py_get_set [simp]: "py_get (py_set d k v) k = v"
proof (cases "has_key d k")
  case True
  then have "map_of (map (\<lambda>kv. if fst kv = k then (k, v) else kv) d) k = Some v"
    by (induction d) (auto simp: has_key_def)
  with True show ?thesis by (simp add: py_get_def py_set_def)
next
  case False
  then have "map_of d k = None" by (simp add: has_key_def map_of_eq_None_iff)
  with False show ?thesis by (simp add: py_get_def py_set_def map_add_def)
qed

section \<open>Boundary validators (\<open>session/value_validation.py\<close>)\<close>

definition require_integer :: "pyval \<Rightarrow> int option \<Rightarrow> int py" where
  "require_integer v minimum =
     (case v of
        PInt i \<Rightarrow> (case minimum of
                    None \<Rightarrow> Inr i
                  | Some m \<Rightarrow> if i < m then Inl ValueError else Inr i)
      | _ \<Rightarrow> Inl ValueError)"

definition require_nonempty_string :: "pyval \<Rightarrow> string py" where
  "require_nonempty_string v =
     (case v of PStr s \<Rightarrow> if py_strip s = [] then Inl ValueError else Inr s
      | _ \<Rightarrow> Inl ValueError)"

definition require_sha256 :: "pyval \<Rightarrow> string py" where
  "require_sha256 v =
     (case v of PStr s \<Rightarrow> if length s \<noteq> 64 \<or> \<not> list_all is_lower_hex s then Inl ValueError
                          else Inr s
      | _ \<Rightarrow> Inl ValueError)"

fun string_items :: "pyval list \<Rightarrow> string list py" where
  "string_items [] = Inr []"
| "string_items (v # vs) =
     (case v of
        PStr s \<Rightarrow> if s = [] then Inl ValueError
                  else py_bind (string_items vs) (\<lambda>ss. Inr (s # ss))
      | _ \<Rightarrow> Inl ValueError)"

definition require_string_tuple :: "pyval \<Rightarrow> string list py" where
  \<comment> \<open>a bare string is refused; iterating a dictionary yields its keys\<close>
  "require_string_tuple v =
     (case v of
        PList vs \<Rightarrow> string_items vs
      | PDict d \<Rightarrow> string_items (map (\<lambda>kv. PStr (fst kv)) d)
      | _ \<Rightarrow> Inl ValueError)"

definition require_exact_keys :: "pyval \<Rightarrow> string list \<Rightarrow> pydict py" where
  "require_exact_keys v required =
     (case v of PDict d \<Rightarrow> if fst ` set d \<noteq> set required then Inl ValueError else Inr d
      | _ \<Rightarrow> Inl ValueError)"

lemma require_sha256_Inr: "require_sha256 v = Inr s \<longleftrightarrow> v = PStr s \<and> sha256_hex s"
  by (cases v) (auto simp: require_sha256_def sha256_hex_def)

lemma require_nonempty_string_Inr:
  "require_nonempty_string v = Inr s \<longleftrightarrow> v = PStr s \<and> py_strip s \<noteq> []"
  by (cases v) (auto simp: require_nonempty_string_def)

lemma require_integer_Inr:
  "require_integer v m = Inr i \<longleftrightarrow> v = PInt i \<and> (\<forall>b. m = Some b \<longrightarrow> b \<le> i)"
  by (cases v) (auto simp: require_integer_def split: option.splits)

lemma string_items_Inr:
  "string_items vs = Inr ss \<longleftrightarrow> vs = map PStr ss \<and> [] \<notin> set ss"
proof (induction vs arbitrary: ss)
  case Nil
  show ?case by auto
next
  case (Cons v vs)
  then show ?case
    by (cases v; cases ss) (auto simp: py_bind_Inr_iff)
qed

lemma string_items_Inl: "string_items vs = Inl e \<Longrightarrow> e = ValueError"
  by (induction vs) (auto simp: py_bind_def split: pyval.splits if_splits sum.splits)

lemma string_items_total: "[] \<notin> set ss \<Longrightarrow> string_items (map PStr ss) = Inr ss"
  by (simp add: string_items_Inr)

lemma require_exact_keys_Inr:
  "require_exact_keys v ks = Inr d \<longleftrightarrow> v = PDict d \<and> fst ` set d = set ks"
  by (cases v) (auto simp: require_exact_keys_def)

section \<open>Build targets (\<open>build_arguments.py\<close>)\<close>

definition is_valid_build_target :: "pyval \<Rightarrow> bool" where
  "is_valid_build_target v =
     (case v of
        PStr s \<Rightarrow> s \<noteq> [] \<and>
          py_isalnum (remove_char (CHR ''.'') (remove_char (CHR ''-'') (remove_char (CHR ''_'') s)))
      | _ \<Rightarrow> False)"

definition separator_char :: "char \<Rightarrow> bool" where
  "separator_char c \<longleftrightarrow> c \<in> set ''_-.''"

lemma py_isalnum_filter:
  "py_isalnum (filter P s) \<longleftrightarrow> (\<exists>c \<in> set s. P c) \<and> (\<forall>c \<in> set s. P c \<longrightarrow> is_alnum_char c)"
  by (auto simp: py_isalnum_def list_all_iff filter_empty_conv)

lemma valid_target_characters:
  "is_valid_build_target (PStr s) \<longleftrightarrow>
     (\<exists>c \<in> set s. \<not> separator_char c) \<and> (\<forall>c \<in> set s. separator_char c \<or> is_alnum_char c)"
proof -
  have "remove_char (CHR ''.'') (remove_char (CHR ''-'') (remove_char (CHR ''_'') s))
        = filter (\<lambda>c. \<not> separator_char c) s"
    unfolding remove_char_def filter_filter separator_char_def
    by (rule filter_cong) auto
  then show ?thesis
    by (simp only: is_valid_build_target_def pyval.case py_isalnum_filter) auto
qed

end
