(* ===== verification/Verification.thy ===== *)
theory Verification
  imports Py_Value
begin

text \<open>
  \<open>internal/local_agent/verification.py\<close>: the one classifier that says what a single tool
  call proves about the tree it ran against.  Tool names, execution and domain are the
  strings of the records; arguments and evidence are dictionaries.  The classifier raises
  only when \<open>evidence["totals"]\<close> is not an object (a membership test or a subscript on a
  value that has none).
\<close>

section \<open>Proof kinds\<close>

datatype proof_kind =
    FULL_BUILD_PASS | FULL_TEST_PASS | OBSERVED_BUILD_FAIL | OBSERVED_TEST_FAIL
  | TARGETED_BUILD_PASS | TARGETED_TEST_PASS | NO_CURRENT_PROOF

fun proof_kind_value :: "proof_kind \<Rightarrow> string" where
  "proof_kind_value FULL_BUILD_PASS = ''full_build_pass''"
| "proof_kind_value FULL_TEST_PASS = ''full_test_pass''"
| "proof_kind_value OBSERVED_BUILD_FAIL = ''observed_build_fail''"
| "proof_kind_value OBSERVED_TEST_FAIL = ''observed_test_fail''"
| "proof_kind_value TARGETED_BUILD_PASS = ''targeted_build_pass''"
| "proof_kind_value TARGETED_TEST_PASS = ''targeted_test_pass''"
| "proof_kind_value NO_CURRENT_PROOF = ''no_current_proof''"

definition all_proof_kinds :: "proof_kind list" where
  "all_proof_kinds = [FULL_BUILD_PASS, FULL_TEST_PASS, OBSERVED_BUILD_FAIL, OBSERVED_TEST_FAIL,
     TARGETED_BUILD_PASS, TARGETED_TEST_PASS, NO_CURRENT_PROOF]"

definition proof_kind_of :: "string \<Rightarrow> proof_kind py" where
  \<comment> \<open>\<open>ProofKind(value)\<close>: the member with that value, or ValueError\<close>
  "proof_kind_of v =
     (case find (\<lambda>k. proof_kind_value k = v) all_proof_kinds of
        None \<Rightarrow> Inl ValueError | Some k \<Rightarrow> Inr k)"

lemma proof_kind_of_value [simp]: "proof_kind_of (proof_kind_value k) = Inr k"
  by (cases k) (simp_all add: proof_kind_of_def all_proof_kinds_def)

definition VERIFYING_TOOLS :: "string list" where
  "VERIFYING_TOOLS = [''build_target'', ''run_test'']"

definition CURRENT_TREE_PROOFS :: "proof_kind set" where
  "CURRENT_TREE_PROOFS = {FULL_BUILD_PASS, FULL_TEST_PASS}"

definition CONTRADICTS_CURRENT_TREE :: "proof_kind set" where
  "CONTRADICTS_CURRENT_TREE = {OBSERVED_BUILD_FAIL, OBSERVED_TEST_FAIL}"

lemma proof_sets [evidence_simps]:
  "k \<in> CURRENT_TREE_PROOFS \<longleftrightarrow> k = FULL_BUILD_PASS \<or> k = FULL_TEST_PASS"
  "k \<in> CONTRADICTS_CURRENT_TREE \<longleftrightarrow> k = OBSERVED_BUILD_FAIL \<or> k = OBSERVED_TEST_FAIL"
  by (auto simp: CURRENT_TREE_PROOFS_def CONTRADICTS_CURRENT_TREE_def)

lemma proof_sets_disjoint: "k \<in> CURRENT_TREE_PROOFS \<Longrightarrow> k \<notin> CONTRADICTS_CURRENT_TREE"
  by (auto simp: evidence_simps)

section \<open>The classifier\<close>

definition INVALIDATING_EVIDENCE :: "string list" where
  "INVALIDATING_EVIDENCE =
     [''stale_sources'', ''profile_mismatch'', ''build_profile_mismatch'', ''no_build_record'']"

definition narrowed_test :: "pydict \<Rightarrow> bool" where
  "narrowed_test args \<longleftrightarrow>
     truthy (py_get args ''name_filter'') \<or> truthy (py_get args ''rerun_failed'')"

definition contains :: "string \<Rightarrow> string \<Rightarrow> bool" where
  \<comment> \<open>the substring test \<open>sub in s\<close>\<close>
  "contains sub s \<longleftrightarrow> list_ex (\<lambda>i. take (length sub) (drop i s) = sub) [0..<Suc (length s)]"

definition totals_ran_nothing :: "pyval \<Rightarrow> bool py" where
  \<comment> \<open>\<open>totals = ev.get("totals") or {}; "total" in totals and not totals["total"]\<close>\<close>
  "totals_ran_nothing t =
     (if \<not> truthy t then Inr False
      else case t of
        PDict d \<Rightarrow> Inr (has_key d ''total'' \<and> \<not> truthy (py_get d ''total''))
      | PList vs \<Rightarrow> if PStr ''total'' \<in> set vs then Inl TypeError else Inr False
      | PStr s \<Rightarrow> if contains ''total'' s then Inl TypeError else Inr False
      | _ \<Rightarrow> Inl TypeError)"

definition classify_proof ::
  "string \<Rightarrow> pydict \<Rightarrow> string \<Rightarrow> string \<Rightarrow> pydict \<Rightarrow> proof_kind py" where
  "classify_proof name args execution domain ev =
     (if name \<notin> set VERIFYING_TOOLS then Inr NO_CURRENT_PROOF
      else if execution \<noteq> ''ok'' then Inr NO_CURRENT_PROOF
      else if name = ''build_target'' then
        (if domain = ''fail'' then Inr OBSERVED_BUILD_FAIL
         else if domain \<noteq> ''pass'' then Inr NO_CURRENT_PROOF
         else if \<not> has_key args ''target'' then Inr FULL_BUILD_PASS
         else if is_valid_build_target (py_get args ''target'') then Inr TARGETED_BUILD_PASS
         else Inr NO_CURRENT_PROOF)
      else
        (if domain = ''fail'' then Inr OBSERVED_TEST_FAIL
         else if domain \<noteq> ''pass'' then Inr NO_CURRENT_PROOF
         else if list_ex (\<lambda>key. truthy (py_get ev key)) INVALIDATING_EVIDENCE
         then Inr NO_CURRENT_PROOF
         else py_bind (totals_ran_nothing (py_get ev ''totals'')) (\<lambda>nothing.
           if nothing then Inr NO_CURRENT_PROOF
           else if narrowed_test args then Inr TARGETED_TEST_PASS
           else Inr FULL_TEST_PASS)))"

section \<open>What the classifier promises\<close>

definition totals_object :: "pydict \<Rightarrow> bool" where
  \<comment> \<open>the tools' contract: \<open>totals\<close>, when present and not empty, is an object\<close>
  "totals_object ev \<longleftrightarrow>
     \<not> truthy (py_get ev ''totals'') \<or> (\<exists>d. py_get ev ''totals'' = PDict d)"

lemma totals_object_total:
  "totals_object ev \<Longrightarrow> \<exists>b. totals_ran_nothing (py_get ev ''totals'') = Inr b"
  by (auto simp: totals_object_def totals_ran_nothing_def)

lemma classify_total: "totals_object ev \<Longrightarrow> \<exists>k. classify_proof n a x d ev = Inr k"
  using totals_object_total [of ev] by (auto simp: classify_proof_def)

lemma classify_needs_verifying_tool:
  "classify_proof n a x d ev = Inr k \<Longrightarrow> k \<noteq> NO_CURRENT_PROOF \<Longrightarrow>
     n \<in> set VERIFYING_TOOLS \<and> x = ''ok'' \<and> (d = ''pass'' \<or> d = ''fail'')"
  by (auto simp: classify_proof_def split: if_splits)

lemma classify_current_tree:
  "classify_proof n a x d ev = Inr k \<Longrightarrow> k \<in> CURRENT_TREE_PROOFS \<Longrightarrow> d = ''pass'' \<and> x = ''ok''"
  by (auto simp: classify_proof_def evidence_simps py_bind_Inr_iff split: if_splits)

lemma classify_contradicts:
  "classify_proof n a x d ev = Inr k \<Longrightarrow> k \<in> CONTRADICTS_CURRENT_TREE \<Longrightarrow> d = ''fail'' \<and> x = ''ok''"
  by (auto simp: classify_proof_def evidence_simps py_bind_Inr_iff split: if_splits)

text \<open>
  Narrowing weakens a pass and never a failure: whatever arguments and evidence are given, a
  failing build or test that executed is an observed failure of the tree.
\<close>

lemma narrowing_keeps_failure:
  assumes "n \<in> set VERIFYING_TOOLS"
  shows "classify_proof n a ''ok'' ''fail'' ev =
    Inr (if n = ''build_target'' then OBSERVED_BUILD_FAIL else OBSERVED_TEST_FAIL)"
  using assms by (auto simp: classify_proof_def VERIFYING_TOOLS_def)

text \<open>
  Adding arguments or evidence to a call never makes it prove more: a call that proves the
  whole tree with them proves it without them.
\<close>

lemma has_key_append [simp]: "has_key (a @ b) k \<longleftrightarrow> has_key a k \<or> has_key b k"
  by (auto simp: has_key_def)

lemma py_get_append: "has_key a k \<Longrightarrow> py_get (a @ b) k = py_get a k"
  by (cases "map_of a k") (auto simp: py_get_def has_key_def map_of_eq_None_iff map_add_def)

lemma truthy_append: "truthy (py_get a k) \<Longrightarrow> truthy (py_get (a @ b) k)"
  by (metis py_get_append truthy_get_has_key)

lemma narrowed_append: "narrowed_test a \<Longrightarrow> narrowed_test (a @ b)"
  by (auto simp: narrowed_test_def intro: truthy_append)

lemma totals_append:
  "totals_ran_nothing (py_get (ev @ ev') ''totals'') = Inr False \<Longrightarrow>
     totals_ran_nothing (py_get ev ''totals'') = Inr False"
  by (cases "has_key ev ''totals''") (simp_all add: py_get_append py_get_absent totals_ran_nothing_def)

lemma invalidating_append:
  "list_ex (\<lambda>key. truthy (py_get ev key)) ks \<Longrightarrow> list_ex (\<lambda>key. truthy (py_get (ev @ ev') key)) ks"
  by (auto simp: list_ex_iff intro: truthy_append)

lemma more_arguments_never_prove_more:
  assumes full: "classify_proof n (a @ b) x d (ev @ ev') = Inr k" "k \<in> CURRENT_TREE_PROOFS"
  shows "classify_proof n a x d ev = Inr k"
proof -
  from full have "n = ''build_target'' \<or> n = ''run_test''" and x: "x = ''ok''" and d: "d = ''pass''"
    by (auto simp: classify_proof_def VERIFYING_TOOLS_def evidence_simps split: if_splits)
  then show ?thesis
  proof (elim disjE)
    assume n: "n = ''build_target''"
    with full x d show ?thesis
      by (auto simp: classify_proof_def VERIFYING_TOOLS_def evidence_simps split: if_splits)
  next
    assume n: "n = ''run_test''"
    with full x d have clean: "\<not> list_ex (\<lambda>key. truthy (py_get ev key)) INVALIDATING_EVIDENCE"
      and tot: "totals_ran_nothing (py_get ev ''totals'') = Inr False"
      and wide: "\<not> narrowed_test a" and k: "k = FULL_TEST_PASS"
      by (auto simp: classify_proof_def VERIFYING_TOOLS_def evidence_simps py_bind_Inr_iff
          dest: invalidating_append [of ev _ ev'] narrowed_append [of a b]
          intro: totals_append split: if_splits)
    from n x d clean tot wide k show ?thesis
      by (simp add: classify_proof_def VERIFYING_TOOLS_def)
  qed
qed

end
