(* ===== verification/Tool_Primitives.thy ===== *)
theory Tool_Primitives
  imports Verification
begin

text \<open>
  \<open>internal/local_agent/tools/tool_primitives.py\<close>: risks, the two status axes of a tool
  result, typed reasons with the locus each one belongs to, tool results, and the registry
  the orchestrator asks for a tool.  A handler is a function of the arguments and of the
  world it acts on; what it may raise is part of its outcome.
\<close>

datatype risk = READ | WRITE | EXECUTE | DANGEROUS | FORBIDDEN

datatype execution_status = EX_OK | EX_BLOCKED | EX_ERROR

fun execution_value :: "execution_status \<Rightarrow> string" where
  "execution_value EX_OK = ''ok''"
| "execution_value EX_BLOCKED = ''blocked''"
| "execution_value EX_ERROR = ''error''"

datatype domain_status = DOM_PASS | DOM_FAIL | DOM_UNKNOWN

fun domain_value :: "domain_status \<Rightarrow> string" where
  "domain_value DOM_PASS = ''pass''"
| "domain_value DOM_FAIL = ''fail''"
| "domain_value DOM_UNKNOWN = ''unknown''"

lemma execution_value_ok [simp]: "execution_value e = ''ok'' \<longleftrightarrow> e = EX_OK"
  by (cases e) simp_all

lemma domain_value_eq [simp]:
  "domain_value d = ''pass'' \<longleftrightarrow> d = DOM_PASS"
  "domain_value d = ''fail'' \<longleftrightarrow> d = DOM_FAIL"
  by (cases d; simp)+

datatype locus = L_MODEL | L_SERVER | L_TOOL | L_ENVIRONMENT | L_POLICY | L_USER

datatype reason =
    POLICY_DENIED | APPROVAL_DECLINED | MISSING_EXECUTABLE | SPAWN_FAILURE
  | ORCHESTRATOR_TIMEOUT | BAD_ARGUMENTS | INVALID_MODEL_RESPONSE | SANDBOX_VIOLATION
  | UNKNOWN_TOOL | TOOL_NOT_ALLOWED | NOT_FOUND | INTERNAL_ERROR | SERVER_UNAVAILABLE
  | SERVER_STALLED | STALE_BINARY | NO_BUILD_RECORD | PROFILE_MISMATCH | PROTECTED_PATH
  | COMMAND_CANCELLED | OUTPUT_LIMIT | CLEANUP_UNKNOWN

fun reason_value :: "reason \<Rightarrow> string" where
  "reason_value POLICY_DENIED = ''policy_denied''"
| "reason_value APPROVAL_DECLINED = ''approval_declined''"
| "reason_value MISSING_EXECUTABLE = ''missing_executable''"
| "reason_value SPAWN_FAILURE = ''spawn_failure''"
| "reason_value ORCHESTRATOR_TIMEOUT = ''orchestrator_timeout''"
| "reason_value BAD_ARGUMENTS = ''bad_arguments''"
| "reason_value INVALID_MODEL_RESPONSE = ''invalid_model_response''"
| "reason_value SANDBOX_VIOLATION = ''sandbox_violation''"
| "reason_value UNKNOWN_TOOL = ''unknown_tool''"
| "reason_value TOOL_NOT_ALLOWED = ''tool_not_allowed''"
| "reason_value NOT_FOUND = ''not_found''"
| "reason_value INTERNAL_ERROR = ''internal_error''"
| "reason_value SERVER_UNAVAILABLE = ''server_unavailable''"
| "reason_value SERVER_STALLED = ''server_stalled''"
| "reason_value STALE_BINARY = ''stale_binary''"
| "reason_value NO_BUILD_RECORD = ''no_build_record''"
| "reason_value PROFILE_MISMATCH = ''profile_mismatch''"
| "reason_value PROTECTED_PATH = ''protected_path''"
| "reason_value COMMAND_CANCELLED = ''command_cancelled''"
| "reason_value OUTPUT_LIMIT = ''output_limit''"
| "reason_value CLEANUP_UNKNOWN = ''cleanup_unknown''"

fun reason_locus :: "reason \<Rightarrow> locus" where
  "reason_locus BAD_ARGUMENTS = L_MODEL"
| "reason_locus INVALID_MODEL_RESPONSE = L_MODEL"
| "reason_locus UNKNOWN_TOOL = L_MODEL"
| "reason_locus TOOL_NOT_ALLOWED = L_MODEL"
| "reason_locus SERVER_UNAVAILABLE = L_SERVER"
| "reason_locus SERVER_STALLED = L_SERVER"
| "reason_locus SPAWN_FAILURE = L_TOOL"
| "reason_locus ORCHESTRATOR_TIMEOUT = L_TOOL"
| "reason_locus INTERNAL_ERROR = L_TOOL"
| "reason_locus MISSING_EXECUTABLE = L_ENVIRONMENT"
| "reason_locus SANDBOX_VIOLATION = L_ENVIRONMENT"
| "reason_locus NOT_FOUND = L_MODEL"
| "reason_locus POLICY_DENIED = L_POLICY"
| "reason_locus APPROVAL_DECLINED = L_USER"
| "reason_locus STALE_BINARY = L_MODEL"
| "reason_locus NO_BUILD_RECORD = L_MODEL"
| "reason_locus PROFILE_MISMATCH = L_MODEL"
| "reason_locus PROTECTED_PATH = L_MODEL"
| "reason_locus COMMAND_CANCELLED = L_USER"
| "reason_locus OUTPUT_LIMIT = L_TOOL"
| "reason_locus CLEANUP_UNKNOWN = L_TOOL"

section \<open>Tool results\<close>

record tool_result =
  tr_ok :: bool
  tr_summary :: string
  tr_data :: pydict
  tr_artifacts :: "string list"
  tr_exit_code :: "int option"
  tr_execution :: execution_status
  tr_domain :: domain_status
  tr_reason :: "reason option"

definition mk_tool_result ::
  "bool \<Rightarrow> string \<Rightarrow> pydict \<Rightarrow> string list \<Rightarrow> int option \<Rightarrow> execution_status
   \<Rightarrow> domain_status option \<Rightarrow> reason option \<Rightarrow> tool_result" where
  \<comment> \<open>construction with \<open>__post_init__\<close>: an unstated domain is inferred from \<open>ok\<close>\<close>
  "mk_tool_result ok summary data artifacts exit_code execution domain rs =
     \<lparr>tr_ok = ok, tr_summary = summary, tr_data = data, tr_artifacts = artifacts,
      tr_exit_code = exit_code, tr_execution = execution,
      tr_domain = (case domain of
          Some d \<Rightarrow> d
        | None \<Rightarrow> if execution = EX_OK then (if ok then DOM_PASS else DOM_FAIL) else DOM_UNKNOWN),
      tr_reason = rs\<rparr>"

definition tr_blocked :: "tool_result \<Rightarrow> bool" where
  "tr_blocked r \<longleftrightarrow> tr_execution r = EX_BLOCKED"

definition tr_observed :: "tool_result \<Rightarrow> bool" where
  "tr_observed r \<longleftrightarrow> tr_execution r = EX_OK \<and> tr_domain r \<in> {DOM_PASS, DOM_FAIL}"

definition blocked_by :: "reason \<Rightarrow> string \<Rightarrow> pydict \<Rightarrow> tool_result" where
  "blocked_by rs summary data =
     mk_tool_result False summary data [] None EX_BLOCKED (Some DOM_UNKNOWN) (Some rs)"

definition errored :: "reason \<Rightarrow> string \<Rightarrow> pydict \<Rightarrow> tool_result" where
  "errored rs summary data =
     mk_tool_result False summary data [] None EX_ERROR (Some DOM_UNKNOWN) (Some rs)"

lemma refusals_observe_nothing [simp]:
  "\<not> tr_observed (blocked_by rs s d)" "\<not> tr_observed (errored rs s d)"
  "tr_execution (blocked_by rs s d) = EX_BLOCKED" "tr_execution (errored rs s d) = EX_ERROR"
  "\<not> tr_ok (blocked_by rs s d)" "\<not> tr_ok (errored rs s d)"
  "tr_data (errored rs s d) = d"
  by (simp_all add: tr_observed_def blocked_by_def errored_def mk_tool_result_def)

text \<open>A result that did not execute cleanly proves nothing, whatever else it carries.\<close>

lemma unclean_proves_nothing:
  "tr_execution r \<noteq> EX_OK \<Longrightarrow>
     classify_proof n a (execution_value (tr_execution r)) d ev = Inr NO_CURRENT_PROOF"
  by (simp add: classify_proof_def)

section \<open>Tools and the registry\<close>

datatype handler_outcome =
    Returned tool_result
  | Raised_TypeError string
  | Raised_Blocked reason string
  | Raised_ToolError reason string
  | Raised_Other string string  \<comment> \<open>exception type name and text\<close>

record 'w tool =
  tool_name :: string
  tool_parameters :: pyval
  tool_risk :: risk
  tool_handler :: "pydict \<Rightarrow> 'w \<Rightarrow> handler_outcome \<times> 'w"

record call_name =
  cn_text :: string
  cn_validation_error :: "string option"  \<comment> \<open>set by the response parser on a malformed call\<close>

type_synonym 'w registry = "'w tool list"

definition registry_names :: "'w registry \<Rightarrow> string list" where
  "registry_names reg = sort (map tool_name reg)"

definition register :: "'w tool \<Rightarrow> 'w registry \<Rightarrow> 'w registry py" where
  "register t reg =
     (if tool_name t \<in> set (map tool_name reg) then Inl ValueError else Inr (reg @ [t]))"

definition registry_get :: "'w registry \<Rightarrow> call_name \<Rightarrow> (reason \<times> string) + 'w tool" where
  \<comment> \<open>\<open>Inl\<close>: reason and message of the ToolError it raises\<close>
  "registry_get reg name =
     (case (case cn_validation_error name of Some [] \<Rightarrow> None | e \<Rightarrow> e) of
        Some err \<Rightarrow>
          Inl (INVALID_MODEL_RESPONSE,
               ''invalid model response for tool '' @ repr_str (cn_text name) @ '': '' @ err)
      | None \<Rightarrow>
          (case find (\<lambda>t. tool_name t = cn_text name) reg of
             None \<Rightarrow> Inl (UNKNOWN_TOOL,
               ''unknown tool '' @ repr_str (cn_text name) @ ''; available: ''
               @ repr_list (registry_names reg))
           | Some t \<Rightarrow> Inr t))"

lemma registry_get_name: "registry_get reg name = Inr t \<Longrightarrow> tool_name t = cn_text name \<and> t \<in> set reg"
  by (auto simp: registry_get_def find_Some_iff split: if_splits option.splits list.splits)

lemma register_distinct:
  "register t reg = Inr reg' \<Longrightarrow> distinct (map tool_name reg) \<Longrightarrow> distinct (map tool_name reg')"
  by (auto simp: register_def split: if_splits)

end
