(* ===== verification/Agent_Policy.thy ===== *)
theory Agent_Policy
  imports Tool_Primitives
begin

text \<open>
  \<open>agent/policy.py\<close> with the policy record of \<open>config.py\<close>: which tool calls are allowed,
  which need the operator's approval and which are denied; and the outcome categories of
  \<open>agent/outcome.py\<close>.
\<close>

record policy =
  allow_build :: bool
  allow_test :: bool
  allow_patch :: bool
  allow_commit :: bool
  command_timeout_seconds :: int
  max_tool_calls :: int
  max_repeat_calls :: int
  max_tool_result_bytes :: int
  max_read_bytes :: int

definition default_policy :: policy where
  "default_policy = \<lparr>allow_build = True, allow_test = True, allow_patch = False,
     allow_commit = False, command_timeout_seconds = 900, max_tool_calls = 40,
     max_repeat_calls = 3, max_tool_result_bytes = 16000, max_read_bytes = 400000\<rparr>"

datatype verdict = ALLOW | APPROVE | DENY

fun verdict_value :: "verdict \<Rightarrow> string" where
  "verdict_value ALLOW = ''allow''"
| "verdict_value APPROVE = ''approve''"
| "verdict_value DENY = ''deny''"

record decision =
  d_verdict :: verdict
  d_reason :: string

definition mk_decision :: "verdict \<Rightarrow> string \<Rightarrow> decision" where
  "mk_decision v r = \<lparr>d_verdict = v, d_reason = r\<rparr>"

lemma mk_decision_simps [simp]:
  "d_verdict (mk_decision v r) = v" "d_reason (mk_decision v r) = r"
  by (simp_all add: mk_decision_def)

definition d_allowed :: "decision \<Rightarrow> bool" where
  "d_allowed d \<longleftrightarrow> d_verdict d \<noteq> DENY"

definition d_requires_approval :: "decision \<Rightarrow> bool" where
  "d_requires_approval d \<longleftrightarrow> d_verdict d = APPROVE"

definition HISTORY_MUTATING :: "string list" where
  "HISTORY_MUTATING = [''git_stage'', ''git_commit'']"

definition policy_check :: "policy \<Rightarrow> string \<Rightarrow> risk \<Rightarrow> bool \<Rightarrow> decision" where
  "policy_check p name r speculative =
     (if speculative \<and> name \<in> set HISTORY_MUTATING then
        mk_decision DENY (name @ '' is not permitted while this attempt can still be escalated and retried; staging and committing happen only once the run is final'')
      else if r = FORBIDDEN then mk_decision DENY (name @ '' is permanently disabled'')
      else if r = READ then mk_decision ALLOW ''read-only''
      else if r = EXECUTE then
        (if name \<in> set [''build_target'', ''configure_project''] \<and> \<not> allow_build p
         then mk_decision DENY ''policy.allow_build is false''
         else if name \<in> set [''run_test'', ''list_tests''] \<and> \<not> allow_test p
         then mk_decision DENY ''policy.allow_test is false''
         else mk_decision ALLOW ''configured command from the build profile'')
      else if r = WRITE then
        (if \<not> allow_patch p then mk_decision DENY ''policy.allow_patch is false''
         else mk_decision APPROVE ''modifies the worktree'')
      else if name = ''apply_patch'' \<and> \<not> allow_patch p
      then mk_decision DENY ''policy.allow_patch is false''
      else if name \<in> set [''git_stage'', ''git_commit''] \<and> \<not> allow_commit p
      then mk_decision DENY ''policy.allow_commit is false''
      else mk_decision APPROVE ''can change the working tree or history'')"

text \<open>Nothing that can change the tree or the history runs without the operator.\<close>

lemma unattended_is_harmless:
  "d_verdict (policy_check p n r s) = ALLOW \<Longrightarrow> r = READ \<or> r = EXECUTE"
  by (cases r) (auto simp: policy_check_def split: if_splits)

lemma mutating_needs_approval:
  "r = WRITE \<or> r = DANGEROUS \<Longrightarrow> d_verdict (policy_check p n r s) \<in> {APPROVE, DENY}"
  by (auto simp: policy_check_def)

lemma forbidden_denied: "d_verdict (policy_check p n FORBIDDEN s) = DENY"
  by (simp add: policy_check_def)

lemma speculative_history_denied:
  "n \<in> set HISTORY_MUTATING \<Longrightarrow> d_verdict (policy_check p n r True) = DENY"
  by (simp add: policy_check_def)

section \<open>Outcomes (\<open>agent/outcome.py\<close>)\<close>

datatype outcome = PASS | ESCALATED_PASS | ESCALATED_FAIL | FAIL | BLOCKED

definition outcome_succeeded :: "outcome \<Rightarrow> bool" where
  "outcome_succeeded o1 \<longleftrightarrow> o1 = PASS \<or> o1 = ESCALATED_PASS"

definition needed_the_strong_tier :: "outcome \<Rightarrow> bool" where
  "needed_the_strong_tier o1 \<longleftrightarrow> o1 = ESCALATED_PASS \<or> o1 = ESCALATED_FAIL"

definition outcome_classify :: "bool \<Rightarrow> bool \<Rightarrow> bool \<Rightarrow> string option \<Rightarrow> outcome" where
  \<comment> \<open>a blocked reason is an absent or possibly empty text\<close>
  "outcome_classify succeeded escalated escalation_available blocked_reason =
     (if blocked_reason \<noteq> None \<and> blocked_reason \<noteq> Some [] \<and> \<not> succeeded then BLOCKED
      else if escalated then (if succeeded then ESCALATED_PASS else ESCALATED_FAIL)
      else if succeeded then PASS
      else if \<not> escalation_available then FAIL else ESCALATED_FAIL)"

lemma outcome_succeeded_iff [simp]:
  "outcome_succeeded (outcome_classify s e a b) \<longleftrightarrow> s"
  by (simp add: outcome_succeeded_def outcome_classify_def)

end
