(* ===== verification/Agent_State.thy ===== *)
theory Agent_State
  imports Agent_Policy Complex_Main
begin

text \<open>
  \<open>agent/state.py\<close>: the structured record of one run, kept outside the model's context.
  Seconds and rates are rationals.  Task text and repository root, which no operation reads,
  are left out of the state record.
\<close>

datatype phase = UNDERSTAND | ROUTE | GATHER | ACT | VERIFY | REPORT | HALTED

datatype halt_cause =
    BUDGET_EXHAUSTED | REPEAT_LOOP | UNKNOWN_TOOLS | HC_SERVER_UNAVAILABLE
  | INFERENCE_STALLED | CONTEXT_BUDGET_EXHAUSTED | STOPPED

datatype validity =
    VALID | INVALID_SERVER_UNAVAILABLE | INVALID_SERVER_STALLED
  | INVALID_IDENTITY_MISMATCH | INVALID_FALLBACK | INVALID_STOPPED

section \<open>Tool call records\<close>

record tool_call_record =
  tc_name :: string
  tc_arguments :: pydict
  tc_verdict :: string
  tc_ok :: "bool option"
  tc_summary :: string
  tc_blocked :: bool
  tc_execution :: string
  tc_domain :: string
  tc_reason :: "string option"
  tc_exit_code :: "int option"
  tc_artifacts :: "string list"
  tc_evidence :: pydict
  tc_epoch :: nat
  tc_proof :: string

definition new_record :: "string \<Rightarrow> pydict \<Rightarrow> string \<Rightarrow> bool option \<Rightarrow> string \<Rightarrow> tool_call_record" where
  \<comment> \<open>\<open>ToolCallRecord(name, arguments, verdict, ok, summary)\<close> with the declared defaults\<close>
  "new_record name args vd ok summary =
     \<lparr>tc_name = name, tc_arguments = args, tc_verdict = vd, tc_ok = ok, tc_summary = summary,
      tc_blocked = False, tc_execution = ''ok'', tc_domain = ''unknown'', tc_reason = None,
      tc_exit_code = None, tc_artifacts = [], tc_evidence = [], tc_epoch = 0,
      tc_proof = ''no_current_proof''\<rparr>"

definition signature :: "tool_call_record \<Rightarrow> string" where
  "signature rec = tc_name rec @ ''|'' @ json_dumps (PDict (tc_arguments rec))"

definition classify_record :: "tool_call_record \<Rightarrow> proof_kind py" where
  \<comment> \<open>\<open>verification.classify_record\<close> on a live record\<close>
  "classify_record rec =
     classify_proof (tc_name rec) (tc_arguments rec) (tc_execution rec) (tc_domain rec) (tc_evidence rec)"

definition proves_current_tree :: "tool_call_record \<Rightarrow> nat option \<Rightarrow> bool py" where
  "proves_current_tree rec epoch =
     (if epoch \<noteq> None \<and> epoch \<noteq> Some (tc_epoch rec) then Inr False
      else py_bind (classify_record rec) (\<lambda>k. Inr (k \<in> CURRENT_TREE_PROOFS)))"

section \<open>Run metrics\<close>

record call_stats =
  cs_total_s :: rat
  cs_prompt_tokens :: int
  cs_completion_tokens :: int
  cs_cached_tokens :: "int option"
  cs_ttft_s :: "rat option"
  cs_prefill_tok_s :: "rat option"
  cs_decode_tok_s :: "rat option"
  cs_thinking_requested :: "bool option"
  cs_thinking_control_accepted :: "bool option"
  cs_thinking_effective :: string
  cs_system_fingerprint :: "string option"
  cs_server_prompt_ms :: "rat option"
  cs_server_predicted_ms :: "rat option"

record run_metrics =
  llm_calls :: nat
  plan_steps :: nat
  llm_seconds :: rat
  tool_seconds :: rat
  wall_seconds :: rat
  prompt_tokens :: int
  completion_tokens :: int
  cached_prompt_tokens :: "int option"
  ttft_samples :: "rat list"
  prefill_tok_s_samples :: "rat list"
  decode_tok_s_samples :: "rat list"
  compactions :: nat
  context_peak_tokens :: int
  thinking_requested :: "bool option"
  thinking_control_accepted :: "bool option"
  thinking_observed :: "string list"
  expected_runtime_version :: "string option"
  fingerprints_observed :: "string list"
  identity_mismatch :: bool
  server_prompt_ms_total :: "rat option"
  server_predicted_ms_total :: "rat option"

definition new_metrics :: run_metrics where
  "new_metrics = \<lparr>llm_calls = 0, plan_steps = 0, llm_seconds = 0, tool_seconds = 0,
     wall_seconds = 0, prompt_tokens = 0, completion_tokens = 0, cached_prompt_tokens = None,
     ttft_samples = [], prefill_tok_s_samples = [], decode_tok_s_samples = [], compactions = 0,
     context_peak_tokens = 0, thinking_requested = None, thinking_control_accepted = None,
     thinking_observed = [], expected_runtime_version = None, fingerprints_observed = [],
     identity_mismatch = False, server_prompt_ms_total = None, server_predicted_ms_total = None\<rparr>"

definition add_opt :: "('a::{plus,zero}) option \<Rightarrow> 'a option \<Rightarrow> 'a option" where
  \<comment> \<open>\<open>if x is not None: acc = (acc or 0) + x\<close>\<close>
  "add_opt acc x = (case x of None \<Rightarrow> acc
     | Some v \<Rightarrow> Some ((case acc of None \<Rightarrow> 0 | Some t \<Rightarrow> t) + v))"

definition opt_list :: "'a option \<Rightarrow> 'a list" where
  "opt_list x = (case x of None \<Rightarrow> [] | Some v \<Rightarrow> [v])"

definition known_text :: "string option \<Rightarrow> bool" where
  "known_text x \<longleftrightarrow> x \<noteq> None \<and> x \<noteq> Some []"

definition observe_call :: "call_stats \<Rightarrow> run_metrics \<Rightarrow> run_metrics" where
  "observe_call s m =
     m\<lparr>llm_calls := llm_calls m + 1,
       llm_seconds := llm_seconds m + cs_total_s s,
       prompt_tokens := prompt_tokens m + cs_prompt_tokens s,
       completion_tokens := completion_tokens m + cs_completion_tokens s,
       cached_prompt_tokens := add_opt (cached_prompt_tokens m) (cs_cached_tokens s),
       ttft_samples := ttft_samples m @ opt_list (cs_ttft_s s),
       prefill_tok_s_samples := prefill_tok_s_samples m @ opt_list (cs_prefill_tok_s s),
       decode_tok_s_samples := decode_tok_s_samples m @ opt_list (cs_decode_tok_s s),
       thinking_requested :=
         (case cs_thinking_requested s of None \<Rightarrow> thinking_requested m | r \<Rightarrow> r),
       thinking_control_accepted :=
         (if cs_thinking_control_accepted s = Some False then Some False
          else if cs_thinking_control_accepted s = Some True \<and> thinking_control_accepted m = None
          then Some True else thinking_control_accepted m),
       thinking_observed := thinking_observed m @ [cs_thinking_effective s],
       fingerprints_observed := fingerprints_observed m @
         (if known_text (cs_system_fingerprint s) then opt_list (cs_system_fingerprint s) else []),
       identity_mismatch := identity_mismatch m \<or>
         (known_text (cs_system_fingerprint s) \<and> known_text (expected_runtime_version m)
          \<and> expected_runtime_version m \<noteq> Some ''not recorded''
          \<and> cs_system_fingerprint s \<noteq> expected_runtime_version m),
       server_prompt_ms_total := add_opt (server_prompt_ms_total m) (cs_server_prompt_ms s),
       server_predicted_ms_total :=
         add_opt (server_predicted_ms_total m) (cs_server_predicted_ms s)\<rparr>"

definition observe_plan_step :: "run_metrics \<Rightarrow> run_metrics" where
  "observe_plan_step m = m\<lparr>plan_steps := plan_steps m + 1\<rparr>"

definition thinking_effective :: "run_metrics \<Rightarrow> string" where
  "thinking_effective m =
     (if ''on'' \<in> set (thinking_observed m) then ''on''
      else if thinking_observed m \<noteq> [] \<and> list_all (\<lambda>v. v = ''off'') (thinking_observed m)
      then ''off'' else ''unknown'')"

definition thinking_policy_honoured :: "run_metrics \<Rightarrow> bool option" where
  "thinking_policy_honoured m =
     (case thinking_requested m of
        None \<Rightarrow> None
      | Some requested \<Rightarrow>
          (if thinking_effective m = ''unknown'' then None
           else Some (thinking_effective m = (if requested then ''on'' else ''off''))))"

definition overhead_seconds :: "run_metrics \<Rightarrow> rat" where
  "overhead_seconds m = max 0 (wall_seconds m - llm_seconds m - tool_seconds m)"

section \<open>Agent state\<close>

record agent_state =
  st_active_skill :: "string option"
  st_phase :: phase
  st_tool_calls :: nat
  st_history :: "tool_call_record list"
  st_metrics :: run_metrics
  st_changed_files :: "string list"
  st_evidence :: "string list"
  st_warnings :: "string list"
  st_errors :: "string list"
  st_verified :: bool
  st_verification_attempted :: bool
  st_halt_reason :: "string option"
  st_halt_cause :: "halt_cause option"
  st_llm_error :: "string option"
  st_claim :: "string option"
  st_cited_evidence :: "string list"
  st_cited_correctly :: "bool option"
  st_cited_unknown :: "string list"
  st_mutation_epoch :: nat
  st_toolset :: "string list"
  st_citation_schemes :: "(string \<times> pyval) list"
  st_narrowed_by :: "string option"

definition new_state :: agent_state where
  "new_state = \<lparr>st_active_skill = None, st_phase = UNDERSTAND, st_tool_calls = 0, st_history = [],
     st_metrics = new_metrics, st_changed_files = [], st_evidence = [], st_warnings = [],
     st_errors = [], st_verified = False, st_verification_attempted = False,
     st_halt_reason = None, st_halt_cause = None, st_llm_error = None, st_claim = None,
     st_cited_evidence = [], st_cited_correctly = None, st_cited_unknown = [],
     st_mutation_epoch = 0, st_toolset = [], st_citation_schemes = [], st_narrowed_by = None\<rparr>"

definition record_call :: "tool_call_record \<Rightarrow> agent_state \<Rightarrow> agent_state" where
  "record_call rec st =
     st\<lparr>st_history := st_history st @ [rec], st_tool_calls := st_tool_calls st + 1\<rparr>"

definition halt :: "halt_cause \<Rightarrow> string \<Rightarrow> agent_state \<Rightarrow> agent_state" where
  "halt cause why st =
     st\<lparr>st_halt_cause := Some cause, st_halt_reason := Some why, st_phase := HALTED\<rparr>"

definition state_validity :: "agent_state \<Rightarrow> validity" where
  "state_validity st =
     (if st_halt_cause st = Some HC_SERVER_UNAVAILABLE then INVALID_SERVER_UNAVAILABLE
      else if st_halt_cause st = Some INFERENCE_STALLED then INVALID_SERVER_STALLED
      else if st_halt_cause st = Some STOPPED then INVALID_STOPPED
      else if identity_mismatch (st_metrics st) then INVALID_IDENTITY_MISMATCH
      else if thinking_control_accepted (st_metrics st) = Some False then INVALID_FALLBACK
      else VALID)"

definition repeat_count :: "tool_call_record \<Rightarrow> agent_state \<Rightarrow> nat" where
  "repeat_count rec st =
     length (filter (\<lambda>h. signature h = signature rec \<and> tc_epoch h = tc_epoch rec) (st_history st))"

definition note_mutation :: "agent_state \<Rightarrow> agent_state" where
  "note_mutation st = st\<lparr>st_mutation_epoch := st_mutation_epoch st + 1, st_verified := False\<rparr>"

definition note_evidence :: "string \<Rightarrow> agent_state \<Rightarrow> agent_state" where
  "note_evidence t st =
     (if t \<noteq> [] \<and> t \<notin> set (st_evidence st) then st\<lparr>st_evidence := st_evidence st @ [t]\<rparr> else st)"

lemma note_evidence_frame [simp]:
  "st_history (note_evidence t st) = st_history st"
  "st_verified (note_evidence t st) = st_verified st"
  "st_mutation_epoch (note_evidence t st) = st_mutation_epoch st"
  "st_tool_calls (note_evidence t st) = st_tool_calls st"
  "st_verification_attempted (note_evidence t st) = st_verification_attempted st"
  "st_changed_files (note_evidence t st) = st_changed_files st"
  "st_toolset (note_evidence t st) = st_toolset st"
  "st_halt_reason (note_evidence t st) = st_halt_reason st"
  "st_halt_cause (note_evidence t st) = st_halt_cause st"
  "st_errors (note_evidence t st) = st_errors st"
  by (simp_all add: note_evidence_def)

lemma note_evidence_distinct:
  "distinct (st_evidence st) \<Longrightarrow> distinct (st_evidence (note_evidence t st))"
  by (auto simp: note_evidence_def)

text \<open>One rejected thinking control taints the run for good, and so does one foreign build.\<close>

lemma rejection_is_sticky:
  "thinking_control_accepted m = Some False \<Longrightarrow>
     thinking_control_accepted (observe_call s m) = Some False"
  by (simp add: observe_call_def)

lemma mismatch_is_sticky: "identity_mismatch m \<Longrightarrow> identity_mismatch (observe_call s m)"
  by (simp add: observe_call_def)

end
