(* ===== verification/Orchestrator.thy ===== *)
theory Orchestrator
  imports Agent_State
begin

text \<open>
  \<open>agent/orchestrator.py\<close> and the contract layer of \<open>agent/contracts.py\<close>: execution of one
  tool call with every guard (registry, toolset, repeat guard, policy, approval), the update
  of the run record from the typed result, acceptance of an answer with its citations, and
  the typed decisions about blocked runs and escalation.  The world a handler acts on is a
  type parameter; the observer's callbacks are the list \<open>r_events\<close>.
\<close>

section \<open>Configuration, calls and run state\<close>

record tool_call =
  call_id :: string
  call_name :: call_name
  call_arguments :: pydict

record 'w orch =
  o_policy :: policy
  o_registry :: "'w registry"
  o_skill_names :: "string list"
  o_approval :: "'w tool \<Rightarrow> pydict \<Rightarrow> decision \<Rightarrow> bool"
  o_clock :: "'w \<Rightarrow> rat"  \<comment> \<open>\<open>time.monotonic()\<close> as the world goes on\<close>

record 'w run =
  r_state :: agent_state
  r_world :: 'w
  r_events :: "(string \<times> pydict) list"

definition observe :: "string \<Rightarrow> pydict \<Rightarrow> 'w run \<Rightarrow> 'w run" where
  "observe ev payload r = r\<lparr>r_events := r_events r @ [(ev, payload)]\<rparr>"

definition upd_state :: "(agent_state \<Rightarrow> agent_state) \<Rightarrow> 'w run \<Rightarrow> 'w run" where
  "upd_state f r = r\<lparr>r_state := f (r_state r)\<rparr>"

lemma run_frames [simp]:
  "r_state (observe e p r) = r_state r" "r_world (observe e p r) = r_world r"
  "r_state (upd_state f r) = f (r_state r)" "r_world (upd_state f r) = r_world r"
  by (simp_all add: observe_def upd_state_def)

section \<open>Execution of one tool call (\<open>Orchestrator._execute\<close>)\<close>

definition too_many_unknown :: "agent_state \<Rightarrow> bool" where
  "too_many_unknown st \<longleftrightarrow>
     length (filter (\<lambda>h. tc_verdict h = ''unknown'') (st_history st)) \<ge> 3"

definition lookup_tool :: "'w orch \<Rightarrow> tool_call \<Rightarrow> agent_state \<Rightarrow> (reason \<times> string) + 'w tool" where
  \<comment> \<open>registry first, then the active skill's toolset\<close>
  "lookup_tool c call st =
     (case registry_get (o_registry c) (call_name call) of
        Inl e \<Rightarrow> Inl e
      | Inr t \<Rightarrow>
          if st_toolset st \<noteq> [] \<and> cn_text (call_name call) \<notin> set (st_toolset st)
          then Inl (TOOL_NOT_ALLOWED,
                 repr_str (cn_text (call_name call))
                 @ '' is not available to the active skill; available: ''
                 @ repr_list (sort (st_toolset st)))
          else Inr t)"

definition refusal_message :: "'w orch \<Rightarrow> tool_call \<Rightarrow> agent_state \<Rightarrow> reason \<times> string \<Rightarrow> string" where
  "refusal_message c call st e =
     (if fst e = UNKNOWN_TOOL then
        ''unknown tool '' @ repr_str (cn_text (call_name call)) @ ''. ''
        @ (if cn_text (call_name call) \<in> set (o_skill_names c)
           then repr_str (cn_text (call_name call)) @ '' is a skill, not a tool. '' else '''')
        @ ''Call one of: ''
        @ repr_list (if st_toolset st \<noteq> [] then sort (st_toolset st)
                     else registry_names (o_registry c))
      else snd e)"

definition refusal_record :: "tool_call \<Rightarrow> reason \<Rightarrow> string \<Rightarrow> tool_result \<Rightarrow> tool_call_record" where
  \<comment> \<open>the record of a refused call carries no epoch: it keeps the default 0\<close>
  "refusal_record call rs message result =
     (new_record (cn_text (call_name call)) (call_arguments call) ''unknown'' (Some False) message)
       \<lparr>tc_execution := execution_value (tr_execution result),
        tc_domain := domain_value (tr_domain result),
        tc_reason := Some (reason_value rs)\<rparr>"

definition refuse_call ::
  "'w orch \<Rightarrow> tool_call \<Rightarrow> reason \<times> string \<Rightarrow> 'w run \<Rightarrow> (tool_result \<times> bool) \<times> 'w run" where
  "refuse_call c call e r =
     (let message = refusal_message c call (r_state r) e;
          result = errored (fst e) message [];
          r1 = observe ''tool_rejected''
                 [(''name'', PStr (cn_text (call_name call))),
                  (''reason'', PStr (reason_value (fst e))), (''detail'', PStr message)] r;
          r2 = upd_state (\<lambda>st. (record_call (refusal_record call (fst e) message result) st)
                                 \<lparr>st_errors := st_errors st @ [message]\<rparr>) r1
      in if too_many_unknown (r_state r2)
         then ((result, True),
               upd_state (halt UNKNOWN_TOOLS ''model repeatedly called tools it could not use'') r2)
         else ((result, False), r2))"

definition pending_record :: "tool_call \<Rightarrow> agent_state \<Rightarrow> tool_call_record" where
  "pending_record call st =
     (new_record (cn_text (call_name call)) (call_arguments call) ''pending'' None '''')
       \<lparr>tc_epoch := st_mutation_epoch st\<rparr>"

definition stop_repeat ::
  "tool_call \<Rightarrow> tool_call_record \<Rightarrow> nat \<Rightarrow> 'w run \<Rightarrow> (tool_result \<times> bool) \<times> 'w run" where
  "stop_repeat call rec repeats r =
     (let why = cn_text (call_name call) @ '' called with identical arguments ''
                @ nat_str (repeats + 1) @ '' times; stopping the loop''
      in ((mk_tool_result False why [] [] None EX_OK None None, True),
          upd_state (record_call rec \<circ> halt REPEAT_LOOP why) r))"

definition process_started_fact :: "'w tool \<Rightarrow> pyval" where
  "process_started_fact t = (if tool_risk t = EXECUTE then PBool False else PNone)"

definition block_call ::
  "tool_call \<Rightarrow> 'w tool \<Rightarrow> tool_call_record \<Rightarrow> string \<Rightarrow> reason \<Rightarrow> string \<Rightarrow> string \<Rightarrow> string
   \<Rightarrow> 'w run \<Rightarrow> (tool_result \<times> bool) \<times> 'w run" where
  \<comment> \<open>a policy denial or a declined approval: recorded as blocked, the run goes on\<close>
  "block_call call t rec vd rs detail summary remedy r =
     (let rec' = rec\<lparr>tc_verdict := vd, tc_ok := Some False, tc_blocked := True,
                     tc_execution := ''blocked'', tc_reason := Some (reason_value rs),
                     tc_summary := detail\<rparr>;
          r1 = observe ''tool_rejected''
                 [(''name'', PStr (cn_text (call_name call))), (''reason'', PStr (reason_value rs)),
                  (''detail'', PStr detail), (''execution'', PStr ''blocked''),
                  (''process_started'', process_started_fact t)] r
      in ((blocked_by rs summary [(''remedy'', PStr remedy)], False),
          upd_state (record_call rec') r1))"

definition handler_result :: "'w tool \<Rightarrow> string \<Rightarrow> handler_outcome \<Rightarrow> tool_result" where
  "handler_result t name out =
     (case out of
        Returned res \<Rightarrow> res
      | Raised_TypeError msg \<Rightarrow>
          errored BAD_ARGUMENTS (''invalid arguments for '' @ name @ '': '' @ msg)
            [(''schema'', tool_parameters t)]
      | Raised_Blocked rs msg \<Rightarrow> blocked_by rs msg []
      | Raised_ToolError rs msg \<Rightarrow> errored rs msg []
      | Raised_Other ty msg \<Rightarrow>
          errored INTERNAL_ERROR (name @ '' raised '' @ ty @ '': '' @ msg) [])"

definition fill_record :: "tool_call_record \<Rightarrow> tool_result \<Rightarrow> proof_kind \<Rightarrow> tool_call_record" where
  "fill_record rec res k =
     rec\<lparr>tc_ok := Some (tr_ok res), tc_summary := tr_summary res, tc_blocked := tr_blocked res,
         tc_execution := execution_value (tr_execution res),
         tc_domain := domain_value (tr_domain res),
         tc_reason := map_option reason_value (tr_reason res),
         tc_exit_code := tr_exit_code res, tc_artifacts := tr_artifacts res,
         tc_evidence := tr_data res, tc_proof := proof_kind_value k\<rparr>"

definition result_path :: "tool_result \<Rightarrow> string" where
  \<comment> \<open>\<open>str(result.data.get("path", ""))\<close>\<close>
  "result_path res =
     (if has_key (tr_data res) ''path'' then py_str (py_get (tr_data res) ''path'') else '''')"

definition note_verifying :: "string \<Rightarrow> tool_result \<Rightarrow> agent_state \<Rightarrow> agent_state" where
  "note_verifying name res st =
     (if name \<in> set VERIFYING_TOOLS \<and> tr_observed res
      then st\<lparr>st_verification_attempted := True\<rparr> else st)"

definition note_proof :: "string \<Rightarrow> tool_result \<Rightarrow> proof_kind \<Rightarrow> agent_state \<Rightarrow> agent_state" where
  "note_proof name res k st =
     (let line = name @ '': '' @ tr_summary res;
          st1 = (if k \<in> CURRENT_TREE_PROOFS
                 then note_evidence line (st\<lparr>st_verified := True\<rparr>) else st);
          st2 = (if k \<in> CONTRADICTS_CURRENT_TREE
                 then note_evidence line (st1\<lparr>st_verified := False\<rparr>) else st1)
      in if \<not> tr_ok res then note_evidence line st2 else st2)"

definition note_change :: "string \<Rightarrow> risk \<Rightarrow> tool_result \<Rightarrow> agent_state \<Rightarrow> agent_state" where
  "note_change name rk res st =
     (let st1 = (if name = ''apply_patch'' \<and> tr_ok res \<and> result_path res \<noteq> []
                    \<and> result_path res \<notin> set (st_changed_files st)
                 then st\<lparr>st_changed_files := st_changed_files st @ [result_path res]\<rparr> else st)
      in if tr_ok res \<and> (rk = WRITE \<or> rk = DANGEROUS) then note_mutation st1 else st1)"

definition settle ::
  "string \<Rightarrow> pydict \<Rightarrow> risk \<Rightarrow> tool_call_record \<Rightarrow> tool_result \<Rightarrow> agent_state \<Rightarrow> agent_state py" where
  \<comment> \<open>from the typed result to the run record\<close>
  "settle name args rk rec res st =
     py_bind (classify_proof name args (execution_value (tr_execution res))
                (domain_value (tr_domain res)) (tr_data res))
       (\<lambda>k. Inr (note_change name rk res
                  (note_proof name res k
                    (note_verifying name res
                      (record_call (fill_record rec res k) st)))))"

definition add_tool_seconds :: "rat \<Rightarrow> agent_state \<Rightarrow> agent_state" where
  "add_tool_seconds d st =
     st\<lparr>st_metrics := (st_metrics st)\<lparr>tool_seconds := tool_seconds (st_metrics st) + d\<rparr>\<rparr>"

definition run_handler ::
  "'w orch \<Rightarrow> tool_call \<Rightarrow> 'w tool \<Rightarrow> tool_call_record \<Rightarrow> 'w run
   \<Rightarrow> ((tool_result \<times> bool) \<times> 'w run) py" where
  "run_handler c call t rec r =
     (let name = cn_text (call_name call);
          r1 = observe ''tool''
                 [(''name'', PStr name), (''arguments'', PDict (call_arguments call))] r;
          (out, w) = tool_handler t (call_arguments call) (r_world r1);
          res = handler_result t name out;
          st1 = add_tool_seconds (o_clock c w - o_clock c (r_world r1)) (r_state r1)
      in py_bind (settle name (call_arguments call) (tool_risk t) rec res st1)
           (\<lambda>st2. Inr ((res, False),
              observe ''observe'' [(''name'', PStr name), (''ok'', PBool (tr_ok res)),
                                   (''summary'', PStr (tr_summary res))]
                (r1\<lparr>r_state := st2, r_world := w\<rparr>))))"

definition execute_base ::
  "'w orch \<Rightarrow> bool \<Rightarrow> tool_call \<Rightarrow> 'w run \<Rightarrow> ((tool_result \<times> bool) \<times> 'w run) py" where
  "execute_base c speculative call r =
     (let name = cn_text (call_name call) in
      case lookup_tool c call (r_state r) of
        Inl e \<Rightarrow> Inr (refuse_call c call e r)
      | Inr t \<Rightarrow>
          (let rec = pending_record call (r_state r);
               repeats = repeat_count rec (r_state r);
               dec = policy_check (o_policy c) (tool_name t) (tool_risk t) speculative;
               r1 = observe ''policy''
                      [(''tool'', PStr name), (''verdict'', PStr (verdict_value (d_verdict dec))),
                       (''reason'', PStr (d_reason dec))] r
           in if int repeats \<ge> max_repeat_calls (o_policy c)
              then Inr (stop_repeat call rec repeats r)
              else if d_verdict dec = DENY
              then Inr (block_call call t rec ''denied'' POLICY_DENIED (d_reason dec)
                     (name @ '' denied: '' @ d_reason dec)
                     ''Propose the change instead, or ask the operator to enable it in .local-agent.toml.'' r1)
              else if d_requires_approval dec
              then (if \<not> o_approval c t (call_arguments call) dec
                    then Inr (block_call call t rec ''not-approved'' APPROVAL_DECLINED
                           ''operator declined'' (name @ '' was not approved by the operator'')
                           ''Continue without it and report what you would have done.'' r1)
                    else run_handler c call t (rec\<lparr>tc_verdict := ''approved''\<rparr>) r1)
              else run_handler c call t (rec\<lparr>tc_verdict := ''auto''\<rparr>) r1))"

definition evidence_id :: "string \<Rightarrow> nat \<Rightarrow> string" where
  "evidence_id name i = name @ CHR '':'' # nat_str i"

definition execute ::
  "'w orch \<Rightarrow> bool \<Rightarrow> tool_call \<Rightarrow> 'w run \<Rightarrow> ((tool_result \<times> bool) \<times> 'w run) py" where
  \<comment> \<open>the contract layer puts the canonical evidence id into the payload the model sees\<close>
  "execute c speculative call r =
     py_bind (execute_base c speculative call r) (\<lambda>((res, stop), r').
       let hist = st_history (r_state r') in
       if hist \<noteq> [] \<and> tc_name (last hist) = cn_text (call_name call)
       then Inr ((res\<lparr>tr_data := py_set (tr_data res) ''evidence_id''
                       (PStr (evidence_id (tc_name (last hist)) (length hist - 1)))\<rparr>, stop), r')
       else Inr ((res, stop), r'))"

text \<open>A batch of calls runs until one of them stops the loop or raises.\<close>

fun execute_all :: "'w orch \<Rightarrow> bool \<Rightarrow> tool_call list \<Rightarrow> 'w run \<Rightarrow> 'w run py" where
  "execute_all c speculative [] r = Inr r"
| "execute_all c speculative (x # xs) r =
     (case execute c speculative x r of
        Inl e \<Rightarrow> Inl e
      | Inr ((res, stop), r') \<Rightarrow> if stop then Inr r' else execute_all c speculative xs r')"

end
