(* ===== verification/Run_Invariants.thy ===== *)
theory Run_Invariants
  imports Orchestrator
begin

text \<open>
  What every run of the orchestrator keeps true of its record.  The specification side is a
  reading of the recorded calls alone: \<open>proven_now\<close> looks for the last decisive call of the
  current mutation epoch.  The flag \<open>verified\<close> the code maintains step by step always agrees
  with that reading.
\<close>

section \<open>Reading a history as proof\<close>

definition record_kind :: "tool_call_record \<Rightarrow> proof_kind" where
  "record_kind h = (case proof_kind_of (tc_proof h) of Inr k \<Rightarrow> k | Inl _ \<Rightarrow> NO_CURRENT_PROOF)"

definition decisive :: "nat \<Rightarrow> tool_call_record \<Rightarrow> bool" where
  "decisive e h \<longleftrightarrow> tc_epoch h = e \<and>
     (record_kind h \<in> CURRENT_TREE_PROOFS \<or> record_kind h \<in> CONTRADICTS_CURRENT_TREE)"

definition proven_now :: "tool_call_record list \<Rightarrow> nat \<Rightarrow> bool" where
  "proven_now hist e \<longleftrightarrow>
     (let ds = filter (decisive e) hist
      in ds \<noteq> [] \<and> record_kind (last ds) \<in> CURRENT_TREE_PROOFS)"

lemma record_kind_fill [simp]: "record_kind (fill_record rec res k) = k"
  by (simp add: record_kind_def fill_record_def)

lemma record_kind_undecided: "tc_proof h = ''no_current_proof'' \<Longrightarrow> record_kind h = NO_CURRENT_PROOF"
  by (simp add: record_kind_def proof_kind_of_def all_proof_kinds_def)

lemma proven_now_snoc:
  "proven_now (hist @ [h]) e \<longleftrightarrow>
     (if decisive e h then record_kind h \<in> CURRENT_TREE_PROOFS else proven_now hist e)"
  by (simp add: proven_now_def Let_def)

lemma proven_now_new_epoch: "(\<forall>h \<in> set hist. tc_epoch h \<le> e) \<Longrightarrow> \<not> proven_now hist (Suc e)"
  by (auto simp: proven_now_def Let_def decisive_def filter_empty_conv)

lemma proven_now_Nil [simp]: "\<not> proven_now [] e"
  by (simp add: proven_now_def)

definition observed_check :: "tool_call_record \<Rightarrow> bool" where
  \<comment> \<open>a build or test that executed and returned a pass or a fail\<close>
  "observed_check h \<longleftrightarrow>
     tc_name h \<in> set VERIFYING_TOOLS \<and> tc_execution h = ''ok''
     \<and> (tc_domain h = ''pass'' \<or> tc_domain h = ''fail'')"

lemma observed_check_fill [simp]:
  "observed_check (fill_record rec res k) \<longleftrightarrow> tc_name rec \<in> set VERIFYING_TOOLS \<and> tr_observed res"
  by (auto simp: observed_check_def fill_record_def tr_observed_def)

section \<open>The invariant\<close>

definition run_ok :: "agent_state \<Rightarrow> bool" where
  "run_ok st \<longleftrightarrow>
     st_tool_calls st = length (st_history st)
     \<and> (\<forall>h \<in> set (st_history st).
          tc_epoch h \<le> st_mutation_epoch st \<and> tc_proof h \<in> range proof_kind_value)
     \<and> (st_verified st \<longleftrightarrow> proven_now (st_history st) (st_mutation_epoch st))
     \<and> (st_verification_attempted st \<longleftrightarrow> list_ex observed_check (st_history st))"

lemma run_ok_new [simp]: "run_ok new_state"
  by (simp add: run_ok_def new_state_def)

lemma run_ok_cong:
  "st_tool_calls st' = st_tool_calls st \<Longrightarrow> st_history st' = st_history st \<Longrightarrow>
   st_mutation_epoch st' = st_mutation_epoch st \<Longrightarrow> st_verified st' = st_verified st \<Longrightarrow>
   st_verification_attempted st' = st_verification_attempted st \<Longrightarrow> run_ok st' \<longleftrightarrow> run_ok st"
  by (simp add: run_ok_def)

subsection \<open>Frames of the record updates\<close>

lemma note_verifying_frame [simp]:
  "st_history (note_verifying n res st) = st_history st"
  "st_tool_calls (note_verifying n res st) = st_tool_calls st"
  "st_mutation_epoch (note_verifying n res st) = st_mutation_epoch st"
  "st_verified (note_verifying n res st) = st_verified st"
  "st_verification_attempted (note_verifying n res st) \<longleftrightarrow>
     st_verification_attempted st \<or> (n \<in> set VERIFYING_TOOLS \<and> tr_observed res)"
  by (auto simp: note_verifying_def)

lemma note_proof_frame [simp]:
  "st_history (note_proof n res k st) = st_history st"
  "st_tool_calls (note_proof n res k st) = st_tool_calls st"
  "st_mutation_epoch (note_proof n res k st) = st_mutation_epoch st"
  "st_verification_attempted (note_proof n res k st) = st_verification_attempted st"
  by (simp_all add: note_proof_def Let_def)

lemma note_proof_verified [simp]:
  "st_verified (note_proof n res k st) \<longleftrightarrow>
     (if k \<in> CURRENT_TREE_PROOFS then True
      else if k \<in> CONTRADICTS_CURRENT_TREE then False else st_verified st)"
  using proof_sets_disjoint [of k] by (auto simp: note_proof_def Let_def)

lemma record_call_frame [simp]:
  "st_history (record_call rec st) = st_history st @ [rec]"
  "st_tool_calls (record_call rec st) = Suc (st_tool_calls st)"
  "st_mutation_epoch (record_call rec st) = st_mutation_epoch st"
  "st_verified (record_call rec st) = st_verified st"
  "st_verification_attempted (record_call rec st) = st_verification_attempted st"
  "st_toolset (record_call rec st) = st_toolset st"
  by (simp_all add: record_call_def)

lemma halt_frame [simp]:
  "st_history (halt hc w st) = st_history st"
  "st_tool_calls (halt hc w st) = st_tool_calls st"
  "st_mutation_epoch (halt hc w st) = st_mutation_epoch st"
  "st_verified (halt hc w st) = st_verified st"
  "st_verification_attempted (halt hc w st) = st_verification_attempted st"
  by (simp_all add: halt_def)

lemma add_tool_seconds_frame [simp]:
  "st_history (add_tool_seconds d st) = st_history st"
  "st_tool_calls (add_tool_seconds d st) = st_tool_calls st"
  "st_mutation_epoch (add_tool_seconds d st) = st_mutation_epoch st"
  "st_verified (add_tool_seconds d st) = st_verified st"
  "st_verification_attempted (add_tool_seconds d st) = st_verification_attempted st"
  by (simp_all add: add_tool_seconds_def)

lemma fill_record_frame [simp]:
  "tc_epoch (fill_record rec res k) = tc_epoch rec"
  "tc_name (fill_record rec res k) = tc_name rec"
  "tc_arguments (fill_record rec res k) = tc_arguments rec"
  "tc_verdict (fill_record rec res k) = tc_verdict rec"
  "tc_proof (fill_record rec res k) = proof_kind_value k"
  by (simp_all add: fill_record_def)

subsection \<open>Preservation\<close>

lemma note_mutation_ok: "run_ok st \<Longrightarrow> run_ok (note_mutation st)"
  by (auto simp: run_ok_def note_mutation_def proven_now_new_epoch intro: le_SucI)

lemma run_ok_changed [simp]: "run_ok (st\<lparr>st_changed_files := xs\<rparr>) \<longleftrightarrow> run_ok st"
  by (simp add: run_ok_def)

lemma note_change_ok: "run_ok st \<Longrightarrow> run_ok (note_change n rk res st)"
  by (simp add: note_change_def Let_def note_mutation_ok)

lemma settle_ok:
  assumes ok: "run_ok st" and e: "tc_epoch rec = st_mutation_epoch st"
    and nm: "tc_name rec = n" and s: "settle n args rk rec res st = Inr st'"
  shows "run_ok st'"
proof -
  from s obtain k where
    st': "st' = note_change n rk res (note_proof n res k (note_verifying n res
             (record_call (fill_record rec res k) st)))"
    by (auto simp: settle_def py_bind_Inr_iff)
  have "run_ok (note_proof n res k (note_verifying n res (record_call (fill_record rec res k) st)))"
    using ok e nm proof_sets_disjoint [of k]
    by (auto simp: run_ok_def proven_now_snoc decisive_def)
  with st' show ?thesis by (simp add: note_change_ok)
qed

lemma pending_epoch [simp]:
  "tc_epoch (pending_record call st) = st_mutation_epoch st"
  "tc_name (pending_record call st) = cn_text (call_name call)"
  "tc_proof (pending_record call st) = ''no_current_proof''"
  "tc_arguments (pending_record call st) = call_arguments call"
  "tc_verdict (pending_record call st) = ''pending''"
  by (simp_all add: pending_record_def new_record_def)

text \<open>
  A call that does not reach its handler appends one undecided record and touches neither the
  world nor the proof state.
\<close>

definition appended :: "tool_call_record \<Rightarrow> 'w run \<Rightarrow> 'w run \<Rightarrow> bool" where
  "appended rec r r' \<longleftrightarrow>
     st_history (r_state r') = st_history (r_state r) @ [rec]
     \<and> st_tool_calls (r_state r') = Suc (st_tool_calls (r_state r))
     \<and> st_mutation_epoch (r_state r') = st_mutation_epoch (r_state r)
     \<and> st_verified (r_state r') = st_verified (r_state r)
     \<and> st_verification_attempted (r_state r') = st_verification_attempted (r_state r)
     \<and> r_world r' = r_world r
     \<and> \<not> observed_check rec \<and> tc_proof rec = ''no_current_proof'' \<and> tc_epoch rec \<le> st_mutation_epoch (r_state r)"

lemma refusal_record_simps [simp]:
  "tc_epoch (refusal_record call rs m res) = 0"
  "tc_proof (refusal_record call rs m res) = ''no_current_proof''"
  "tc_name (refusal_record call rs m res) = cn_text (call_name call)"
  "tc_verdict (refusal_record call rs m res) = ''unknown''"
  "observed_check (refusal_record call rs m res) \<longleftrightarrow>
     cn_text (call_name call) \<in> set VERIFYING_TOOLS \<and> tr_observed res"
  by (auto simp: refusal_record_def new_record_def observed_check_def tr_observed_def)

lemma pending_unobserved [simp]: "\<not> observed_check (pending_record call st)"
  by (simp add: pending_record_def new_record_def observed_check_def)

lemma refuse_call_appends:
  "refuse_call c call e r = (x, r') \<Longrightarrow>
     appended (refusal_record call (fst e) (refusal_message c call (r_state r) e)
       (errored (fst e) (refusal_message c call (r_state r) e) [])) r r'"
  by (auto simp: refuse_call_def Let_def appended_def split: if_splits)

lemma stop_repeat_appends:
  "stop_repeat call rec n r = (x, r') \<Longrightarrow> \<not> observed_check rec \<Longrightarrow> tc_proof rec = ''no_current_proof'' \<Longrightarrow>
     tc_epoch rec \<le> st_mutation_epoch (r_state r) \<Longrightarrow> appended rec r r'"
  by (auto simp: stop_repeat_def Let_def appended_def)

lemma block_call_appends:
  "block_call call t rec v rs d s rem r = (x, r') \<Longrightarrow> tc_proof rec = ''no_current_proof'' \<Longrightarrow>
     tc_epoch rec \<le> st_mutation_epoch (r_state r) \<Longrightarrow>
     \<exists>rec'. appended rec' r r' \<and> tc_verdict rec' = v \<and> tc_name rec' = tc_name rec"
  by (auto simp: block_call_def Let_def appended_def observed_check_def)

lemma appended_ok:
  assumes "appended rec r r'" and "run_ok (r_state r)"
  shows "run_ok (r_state r')"
proof -
  have "\<not> decisive e rec" for e
    using assms(1) by (simp add: appended_def decisive_def record_kind_undecided evidence_simps)
  moreover have "''no_current_proof'' \<in> range proof_kind_value"
    by (rule range_eqI [of _ _ NO_CURRENT_PROOF]) simp
  ultimately show ?thesis
    using assms by (auto simp: run_ok_def appended_def proven_now_snoc)
qed

lemma appended_observe [simp]: "appended rec (observe e p r) r' \<longleftrightarrow> appended rec r r'"
  by (simp add: appended_def)

text \<open>The two ways a call can go: undecided, or through the handler with every guard passed.\<close>

definition cleared_call ::
  "'w orch \<Rightarrow> bool \<Rightarrow> tool_call \<Rightarrow> 'w run \<Rightarrow> 'w tool \<Rightarrow> string \<Rightarrow> bool" where
  "cleared_call c sp call r t vd \<longleftrightarrow>
     lookup_tool c call (r_state r) = Inr t
     \<and> int (repeat_count (pending_record call (r_state r)) (r_state r)) < max_repeat_calls (o_policy c)
     \<and> (let d = policy_check (o_policy c) (tool_name t) (tool_risk t) sp
        in d_verdict d \<noteq> DENY
           \<and> (if d_requires_approval d
              then vd = ''approved'' \<and> o_approval c t (call_arguments call) d
              else vd = ''auto''))"

lemma execute_base_cases:
  assumes ex: "execute_base c sp call r = Inr (x, r')"
  obtains (undecided) rec where "appended rec r r'" "tc_name rec = cn_text (call_name call)"
      "tc_verdict rec \<notin> {''auto'', ''approved''}"
      "tc_verdict rec = ''unknown'' \<longleftrightarrow> (\<exists>e. lookup_tool c call (r_state r) = Inl e)"
  | (ran) t vd r1 where "cleared_call c sp call r t vd"
      "run_handler c call t ((pending_record call (r_state r))\<lparr>tc_verdict := vd\<rparr>) r1 = Inr (x, r')"
      "r_state r1 = r_state r" "r_world r1 = r_world r"
proof (cases "lookup_tool c call (r_state r)")
  case (Inl e)
  with ex have "refuse_call c call e r = (x, r')" by (simp add: execute_base_def Let_def)
  from refuse_call_appends [OF this] show ?thesis by (rule undecided) (simp_all add: Inl)
next
  case (Inr t)
  let ?rec = "pending_record call (r_state r)"
  let ?d = "policy_check (o_policy c) (tool_name t) (tool_risk t) sp"
  note unfolded = ex [unfolded execute_base_def Let_def Inr sum.case]
  consider (rep) "max_repeat_calls (o_policy c) \<le> int (repeat_count ?rec (r_state r))"
    | (go) "int (repeat_count ?rec (r_state r)) < max_repeat_calls (o_policy c)"
    by linarith
  then show ?thesis
  proof cases
    case rep
    with unfolded have "stop_repeat call ?rec (repeat_count ?rec (r_state r)) r = (x, r')" by simp
    from stop_repeat_appends [OF this] show ?thesis by (rule undecided) (simp_all add: Inr)
  next
    case go
    note unfolded = unfolded [unfolded if_not_P [OF go [unfolded not_le [symmetric]]]]
    show ?thesis
    proof (cases "d_verdict ?d = DENY \<or> (d_requires_approval ?d \<and> \<not> o_approval c t (call_arguments call) ?d)")
      case True
      with unfolded obtain v rs d s rem ev p where
        "block_call call t ?rec v rs d s rem (observe ev p r) = (x, r')"
        and "v = ''denied'' \<or> v = ''not-approved''"
        by (auto split: if_splits)
      with block_call_appends [OF this(1)] obtain rec' where "appended rec' r r'"
        and "tc_verdict rec' = v" and "tc_name rec' = cn_text (call_name call)" by fastforce
      with \<open>v = ''denied'' \<or> v = ''not-approved''\<close> show ?thesis
        by (intro undecided [of rec']) (auto simp: Inr)
    next
      case False
      define vd where "vd = (if d_requires_approval ?d then ''approved'' else ''auto'')"
      from False unfolded have
        "run_handler c call t (?rec\<lparr>tc_verdict := vd\<rparr>)
           (observe ''policy'' [(''tool'', PStr (cn_text (call_name call))),
              (''verdict'', PStr (verdict_value (d_verdict ?d))), (''reason'', PStr (d_reason ?d))] r)
         = Inr (x, r')"
        by (auto simp: vd_def split: if_splits)
      moreover have "cleared_call c sp call r t vd"
        using Inr go False by (simp add: cleared_call_def vd_def Let_def)
      ultimately show ?thesis using ran by (metis run_frames(1,2))
    qed
  qed
qed

lemma run_handler_ok:
  assumes "run_ok (r_state r)" and "tc_epoch rec = st_mutation_epoch (r_state r)"
    and "tc_name rec = cn_text (call_name call)" and "run_handler c call t rec r = Inr (x, r')"
  shows "run_ok (r_state r')"
proof -
  have "run_ok (add_tool_seconds d (r_state r))" for d
    using assms(1) by (subst run_ok_cong) simp_all
  then show ?thesis
    using assms(2-4) by (auto simp: run_handler_def Let_def py_bind_Inr_iff split: prod.splits
        intro: settle_ok [rotated 2])
qed

lemma execute_base_ok:
  assumes "run_ok (r_state r)" and "execute_base c sp call r = Inr (x, r')"
  shows "run_ok (r_state r')"
  using assms(2)
proof (cases rule: execute_base_cases)
  case (undecided rec)
  with assms(1) show ?thesis by (blast intro: appended_ok)
next
  case (ran t vd r1)
  with assms(1) show ?thesis by (auto intro: run_handler_ok [OF _ _ _ ran(2)])
qed

lemma execute_frame:
  "execute c sp call r = Inr (x, r') \<Longrightarrow> \<exists>y. execute_base c sp call r = Inr (y, r')"
  by (auto simp: execute_def py_bind_Inr_iff Let_def split: if_splits)

section \<open>Runs as a guarded machine\<close>

definition work :: "'w orch \<Rightarrow> bool \<Rightarrow> tool_call \<Rightarrow> 'w run \<Rightarrow> 'w run py" where
  "work c sp call r = py_bind (execute c sp call r) (\<lambda>(_, r'). Inr r')"

lemma workE:
  assumes "work c sp call r = Inr r'"
  obtains y where "execute_base c sp call r = Inr (y, r')"
  using assms by (auto simp: work_def py_bind_Inr_iff dest: execute_frame)

lemma execute_all_run_ops:
  "execute_all c sp calls r = Inr r' \<Longrightarrow> \<exists>done. r' = run_ops (work c sp) done r"
proof (induction calls arbitrary: r)
  case Nil
  then have "r' = run_ops (work c sp) [] r" by simp
  then show ?case by blast
next
  case (Cons x xs)
  then obtain res stop r1 where x: "execute c sp x r = Inr ((res, stop), r1)"
    and rest: "if stop then r' = r1 else execute_all c sp xs r1 = Inr r'"
    by (auto split: sum.splits prod.splits if_splits)
  from x have step: "after_op (work c sp) x r = r1" by (simp add: after_op_def work_def)
  show ?case
  proof (cases stop)
    case True
    with rest step have "r' = run_ops (work c sp) [x] r" by simp
    then show ?thesis by blast
  next
    case False
    with rest Cons.IH obtain ds where "r' = run_ops (work c sp) ds r1" by auto
    with step have "r' = run_ops (work c sp) (x # ds) r" by simp
    then show ?thesis by blast
  qed
qed

interpretation proof_run: guarded_machine "work c sp" "\<lambda>r. run_ok (r_state r)" for c sp
  by unfold_locales (auto elim!: workE intro: execute_base_ok)

lemma execute_all_ok:
  "run_ok (r_state r) \<Longrightarrow> execute_all c sp calls r = Inr r' \<Longrightarrow> run_ok (r_state r')"
  by (metis execute_all_run_ops proof_run.run_inv)

subsection \<open>What one handler run leaves behind\<close>

lemma settle_appends:
  "settle n args rk rec res st = Inr st' \<Longrightarrow> \<exists>k.
     classify_proof n args (execution_value (tr_execution res)) (domain_value (tr_domain res)) (tr_data res) = Inr k
     \<and> st_history st' = st_history st @ [fill_record rec res k]
     \<and> st_mutation_epoch st' = st_mutation_epoch st + of_bool (tr_ok res \<and> (rk = WRITE \<or> rk = DANGEROUS))"
  by (auto simp: settle_def py_bind_Inr_iff note_change_def Let_def note_mutation_def)

lemma run_handler_appends:
  assumes "run_handler c call t rec r = Inr (x, r')"
  obtains res k where "st_history (r_state r') = st_history (r_state r) @ [fill_record rec res k]"
    and "st_mutation_epoch (r_state r) \<le> st_mutation_epoch (r_state r')"
    and "r_world r' = snd (tool_handler t (call_arguments call) (r_world r))"
    and "x = (res, False)"
    and "tr_ok res \<Longrightarrow> tool_risk t = WRITE \<or> tool_risk t = DANGEROUS \<Longrightarrow>
           st_mutation_epoch (r_state r') = Suc (st_mutation_epoch (r_state r))"
  using assms
  by (auto simp: run_handler_def Let_def py_bind_Inr_iff dest!: settle_appends split: prod.splits)

text \<open>Every call leaves exactly one record, and no operation rewrites an earlier one.\<close>

lemma execute_base_extends:
  assumes "execute_base c sp call r = Inr (x, r')"
  shows "\<exists>rec. st_history (r_state r') = st_history (r_state r) @ [rec] \<and> tc_name rec = cn_text (call_name call)"
  using assms
proof (cases rule: execute_base_cases)
  case (undecided rec)
  then show ?thesis by (auto simp: appended_def)
next
  case (ran t vd r1)
  from ran(2) obtain res k where
    "st_history (r_state r') = st_history (r_state r1)
       @ [fill_record ((pending_record call (r_state r))\<lparr>tc_verdict := vd\<rparr>) res k]"
    by (rule run_handler_appends)
  with ran(3) show ?thesis by simp
qed

definition extends :: "'w run \<Rightarrow> 'w run \<Rightarrow> bool" where
  "extends r r' \<longleftrightarrow>
     (\<exists>new. st_history (r_state r') = st_history (r_state r) @ new)
     \<and> st_mutation_epoch (r_state r) \<le> st_mutation_epoch (r_state r')"

lemma execute_base_epoch:
  assumes "execute_base c sp call r = Inr (x, r')"
  shows "st_mutation_epoch (r_state r) \<le> st_mutation_epoch (r_state r')"
  using assms
proof (cases rule: execute_base_cases)
  case (undecided rec)
  then show ?thesis by (simp add: appended_def)
next
  case (ran t vd r1)
  from ran(2) show ?thesis by (rule run_handler_appends) (use ran(3) in simp)
qed

interpretation growing_run: monotone_machine "work c sp" "\<lambda>r. run_ok (r_state r)" extends for c sp
  by unfold_locales
    (auto elim!: workE simp: extends_def dest: execute_base_extends execute_base_epoch)

lemma execute_all_extends:
  "run_ok (r_state r) \<Longrightarrow> execute_all c sp calls r = Inr r' \<Longrightarrow> extends r r'"
  by (metis execute_all_run_ops growing_run.run_below)

subsection \<open>The repeat guard and the limit on unusable calls\<close>

definition times_run :: "string \<Rightarrow> nat \<Rightarrow> tool_call_record list \<Rightarrow> nat" where
  "times_run sig e hist =
     length (filter (\<lambda>h. signature h = sig \<and> tc_epoch h = e \<and> tc_verdict h \<in> {''auto'', ''approved''}) hist)"

definition repeats_bounded :: "'w orch \<Rightarrow> 'w run \<Rightarrow> bool" where
  "repeats_bounded c r \<longleftrightarrow>
     (\<forall>sig e. int (times_run sig e (st_history (r_state r))) \<le> max 0 (max_repeat_calls (o_policy c)))"

lemma times_run_le: "times_run (signature rec) (tc_epoch rec) (st_history st) \<le> repeat_count rec st"
  by (auto simp: times_run_def repeat_count_def intro: filter_length_mono)

lemma signature_fill [simp]:
  "signature (fill_record rec res k) = signature rec"
  "signature (rec\<lparr>tc_verdict := vd\<rparr>) = signature rec"
  by (simp_all add: signature_def fill_record_def)

lemma execute_base_repeats:
  assumes "repeats_bounded c r" and "execute_base c sp call r = Inr (x, r')"
  shows "repeats_bounded c r'"
  using assms(2)
proof (cases rule: execute_base_cases)
  case (undecided rec)
  with assms(1) show ?thesis by (simp add: repeats_bounded_def appended_def times_run_def)
next
  case (ran t vd r1)
  let ?rec = "(pending_record call (r_state r))\<lparr>tc_verdict := vd\<rparr>"
  from ran(2) obtain res k where
    h: "st_history (r_state r') = st_history (r_state r) @ [fill_record ?rec res k]"
    by (rule run_handler_appends) (simp add: ran(3))
  have below: "int (times_run (signature ?rec) (tc_epoch ?rec) (st_history (r_state r)))
                 < max_repeat_calls (o_policy c)"
    using ran(1) times_run_le [of "pending_record call (r_state r)" "r_state r"]
    by (simp add: cleared_call_def)
  have "int (times_run sig e (st_history (r_state r'))) \<le> max 0 (max_repeat_calls (o_policy c))" for sig e
  proof (cases "sig = signature ?rec \<and> e = tc_epoch ?rec")
    case True
    with below show ?thesis by (simp add: h times_run_def)
  next
    case False
    then have "times_run sig e (st_history (r_state r')) = times_run sig e (st_history (r_state r))"
      by (auto simp: h times_run_def)
    with assms(1) show ?thesis by (simp add: repeats_bounded_def)
  qed
  then show ?thesis by (simp add: repeats_bounded_def)
qed

interpretation bounded_run: guarded_machine "work c sp" "repeats_bounded c" for c sp
  by unfold_locales (auto elim!: workE intro: execute_base_repeats)

end
