(* ===== verification/Answers.thy ===== *)
theory Answers
  imports Run_Invariants
begin

text \<open>
  How a run ends: acceptance of an answer with its cited evidence (the contract layer of
  \<open>agent/contracts.py\<close> and the older citation schemes of \<open>agent/orchestrator.py\<close>), the one
  reminder about an edit that was never applied, and the typed decisions about blocked runs
  and escalation.
\<close>

section \<open>Reading the history\<close>

definition SEARCH_TOOLS :: "string list" where
  "SEARCH_TOOLS = [''search_text'', ''find_definition'']"

definition PROPOSING_TOOLS :: "string list" where
  "PROPOSING_TOOLS = [''propose_patch'', ''propose_file'']"

definition search_streak :: "tool_call_record list \<Rightarrow> nat" where
  "search_streak hist = length (takeWhile (\<lambda>h. tc_name h \<in> set SEARCH_TOOLS) (rev hist))"

definition applies_patch :: "string \<Rightarrow> tool_call_record \<Rightarrow> bool" where
  "applies_patch patch_id h \<longleftrightarrow>
     tc_name h = ''apply_patch'' \<and> tc_ok h = Some True
     \<and> py_get (tc_arguments h) ''patch_id'' = PStr patch_id"

fun unapplied_from :: "tool_call_record list \<Rightarrow> tool_call_record list \<Rightarrow> string option" where
  \<comment> \<open>newest record first; the second argument holds the records after it\<close>
  "unapplied_from [] later = None"
| "unapplied_from (h # hs) later =
     (if tc_name h \<notin> set PROPOSING_TOOLS \<or> tc_ok h \<noteq> Some True then unapplied_from hs (h # later)
      else case py_get (tc_evidence h) ''patch_id'' of
        PStr patch_id \<Rightarrow>
          (if patch_id = [] then None
           else if list_ex (applies_patch patch_id) later then None else Some patch_id)
      | _ \<Rightarrow> None)"

definition unapplied_proposal :: "tool_call_record list \<Rightarrow> string option" where
  "unapplied_proposal hist = unapplied_from (rev hist) []"

definition unapplied_proposal_message :: "string \<Rightarrow> string" where
  "unapplied_proposal_message patch_id =
     ''You proposed patch '' @ patch_id @ '' but never applied it, so nothing has changed. ''
     @ ''Call apply_patch with patch_id '' @ repr_str patch_id
     @ '' and then verify, or say in submit_answer why it should not be applied.''"

definition NO_EDIT_CLAIMS :: "string list" where
  "NO_EDIT_CLAIMS = [''failure'', ''diagnosis'', ''needs_action'']"

definition UNCHANGED_MESSAGE :: string where
  "UNCHANGED_MESSAGE = ''No file has been changed yet, so there is nothing to verify. Propose the edit with propose_patch (or propose_file), apply it with apply_patch and verify it; or call submit_answer with claim 'failure' and say what blocks you.''"

definition edit_reminder :: "agent_state \<Rightarrow> string option \<Rightarrow> (string \<times> string) option" where
  "edit_reminder st claim =
     (if st_toolset st \<noteq> [] \<and> ''apply_patch'' \<notin> set (st_toolset st) then None
      else case unapplied_proposal (st_history st) of
        Some pending \<Rightarrow>
          Some (''patch '' @ pending @ '' unapplied'', unapplied_proposal_message pending)
      | None \<Rightarrow>
          if st_toolset st \<noteq> [] \<and> st_mutation_epoch st = 0
             \<and> (\<forall>c. claim = Some c \<longrightarrow> c \<notin> set NO_EDIT_CLAIMS)
          then Some (''no file changed'', UNCHANGED_MESSAGE) else None)"

definition satisfies_verification ::
  "string \<Rightarrow> pydict \<Rightarrow> string \<Rightarrow> string \<Rightarrow> pydict \<Rightarrow> bool py" where
  "satisfies_verification name arguments execution domain evidence =
     py_bind (classify_proof name arguments execution domain evidence)
       (\<lambda>k. Inr (k \<in> CURRENT_TREE_PROOFS))"

section \<open>Accepting an answer (\<open>Orchestrator._accept_answer\<close>)\<close>

definition text_items :: "pyval \<Rightarrow> string list py" where
  \<comment> \<open>\<open>[str(x) for x in (value or [])]\<close>: a number or True cannot be iterated\<close>
  "text_items v =
     (if \<not> truthy v then Inr []
      else case v of
        PList xs \<Rightarrow> Inr (map py_str xs)
      | PStr s \<Rightarrow> Inr (map (\<lambda>c. [c]) s)
      | PDict d \<Rightarrow> Inr (remdups (map fst d))
      | _ \<Rightarrow> Inl TypeError)"

definition PASSING_KINDS :: "proof_kind set" where
  "PASSING_KINDS = {FULL_BUILD_PASS, FULL_TEST_PASS, TARGETED_BUILD_PASS, TARGETED_TEST_PASS}"

fun passing_records :: "tool_call_record list \<Rightarrow> tool_call_record list py" where
  \<comment> \<open>\<open>ProofKind(h.proof)\<close> raises on a text that names no kind\<close>
  "passing_records [] = Inr []"
| "passing_records (h # hs) =
     py_bind (proof_kind_of (tc_proof h)) (\<lambda>k.
     py_bind (passing_records hs) (\<lambda>rest.
       Inr (if k \<in> PASSING_KINDS then h # rest else rest)))"

definition citation_table :: "tool_call_record list \<Rightarrow> (string \<times> tool_call_record) list" where
  "citation_table hist = map (\<lambda>(i, h). (evidence_id (tc_name h) i, h)) (enumerate 0 hist)"

definition cite :: "tool_call_record list \<Rightarrow> string \<Rightarrow> tool_call_record option" where
  \<comment> \<open>a dictionary keeps the last value written under a key\<close>
  "cite hist token = map_of (rev (citation_table hist)) token"

definition finish_answer ::
  "string \<Rightarrow> string list \<Rightarrow> string list \<Rightarrow> (string \<times> pyval) list \<Rightarrow> bool \<Rightarrow> agent_state \<Rightarrow> agent_state" where
  "finish_answer claim cited unknown schemes backed st =
     (let st1 = st\<lparr>st_claim := Some claim, st_cited_evidence := cited, st_cited_unknown := unknown,
                   st_citation_schemes := schemes,
                   st_cited_correctly :=
                     Some (unknown = [] \<and> (claim \<noteq> ''success'' \<or> backed))\<rparr>;
          st2 = (if claim = ''success'' \<and> \<not> backed
                 then st1\<lparr>st_warnings := st_warnings st1
                        @ [''claim of success cited no passing build or test call'']\<rparr> else st1)
      in if unknown \<noteq> []
         then st2\<lparr>st_warnings := st_warnings st2
                @ [''cited evidence ids that do not exist in this run: '' @ join '', '' unknown]\<rparr>
         else st2)"

definition answer_event :: "string \<Rightarrow> string list \<Rightarrow> bool \<Rightarrow> string \<times> pydict" where
  "answer_event claim cited ver =
     (''answer'', [(''claim'', PStr claim), (''cited'', PList (map PStr cited)),
                   (''verified'', PBool ver)])"

definition accept_answer :: "tool_call \<Rightarrow> 'w run \<Rightarrow> ((string \<times> bool) \<times> 'w run) py" where
  \<comment> \<open>the contract layer's override: canonical history indices only\<close>
  "accept_answer call r =
     (let args = call_arguments call;
          st = r_state r;
          claim = py_str (py_get_or args ''claim'' (PStr ''diagnosis''));
          summary = py_strip (py_str (py_get_or args ''summary'' (PStr '''')))
      in py_bind (text_items (py_get args ''evidence_ids'')) (\<lambda>cited.
         let resolved = List.map_filter (cite (st_history st)) cited;
             unknown = filter (\<lambda>t. cite (st_history st) t = None) cited
         in py_bind (passing_records resolved) (\<lambda>passing.
            let schemes = [(''canonical'', PInt (int (length resolved))),
                           (''unknown'', PInt (int (length unknown))),
                           (''chosen'', PStr ''canonical'')];
                st' = finish_answer claim cited unknown schemes (passing \<noteq> []) st;
                ev = answer_event claim cited (st_verified st')
            in Inr ((summary, True), observe (fst ev) (snd ev) (r\<lparr>r_state := st'\<rparr>)))))"

section \<open>The older citation schemes (\<open>_resolve_citations\<close>)\<close>

fun ordinal_table ::
  "(string \<Rightarrow> nat) \<Rightarrow> nat \<Rightarrow> tool_call_record list \<Rightarrow> (string \<times> nat) list" where
  \<comment> \<open>keys \<open>name:k\<close> and \<open>name#k\<close> for the k-th call of that name, in insertion order\<close>
  "ordinal_table seen i [] = []"
| "ordinal_table seen i (h # hs) =
     (let k = seen (tc_name h) + 1
      in (tc_name h @ '':'' @ nat_str k, i) # (tc_name h @ ''#'' @ nat_str k, i)
         # ordinal_table (seen(tc_name h := k)) (i + 1) hs)"

definition by_ordinal :: "tool_call_record list \<Rightarrow> string \<Rightarrow> nat option" where
  "by_ordinal hist token = map_of (rev (ordinal_table (\<lambda>_. 0) 0 hist)) token"

definition by_index :: "tool_call_record list \<Rightarrow> string \<Rightarrow> nat option" where
  "by_index hist token =
     map_of (rev (map (\<lambda>(i, h). (evidence_id (tc_name h) i, i)) (enumerate 0 hist))) token"

definition resolve_citations ::
  "string list \<Rightarrow> tool_call_record list
   \<Rightarrow> tool_call_record list \<times> string list \<times> (string \<times> pyval) list" where
  "resolve_citations cited hist =
     (let index_hits = filter (\<lambda>t. by_index hist t \<noteq> None) cited;
          ordinal_hits = filter (\<lambda>t. by_ordinal hist t \<noteq> None) cited;
          agreed = (\<lambda>t. if t \<in> set index_hits \<and> by_ordinal hist t = by_index hist t
                         then by_index hist t else None);
          agreed_keys = remdups (filter (\<lambda>t. agreed t \<noteq> None) index_hits);
          (table, chosen, ambiguous) =
            (if length ordinal_hits > length index_hits then (by_ordinal hist, ''ordinal'', 0)
             else if length index_hits > length ordinal_hits then (by_index hist, ''index'', 0)
             else (agreed, if agreed_keys \<noteq> [] then ''agreed'' else ''none'',
                   int (length (remdups (index_hits @ ordinal_hits))) - int (length agreed_keys)));
          resolved = map (\<lambda>i. hist ! i) (List.map_filter table cited);
          unknown = filter (\<lambda>t. table t = None) cited
      in (resolved, unknown,
          [(''index'', PInt (int (length index_hits))),
           (''ordinal'', PInt (int (length ordinal_hits))),
           (''ambiguous'', PInt ambiguous),
           (''unknown'', PInt (int (length unknown) - ambiguous)),
           (''chosen'', PStr chosen)]))"

definition accept_answer_base :: "tool_call \<Rightarrow> 'w run \<Rightarrow> ((string \<times> bool) \<times> 'w run) py" where
  "accept_answer_base call r =
     (let args = call_arguments call;
          st = r_state r;
          claim = py_str (py_get_or args ''claim'' (PStr ''diagnosis''));
          summary = py_strip (py_str (py_get_or args ''summary'' (PStr '''')))
      in py_bind (text_items (py_get args ''evidence_ids'')) (\<lambda>cited.
         let (resolved, unknown, schemes) = resolve_citations cited (st_history st)
         in py_bind (passing_records resolved) (\<lambda>passing.
            let st' = finish_answer claim cited unknown schemes (passing \<noteq> []) st;
                ev = answer_event claim cited (st_verified st')
            in Inr ((summary, True), observe (fst ev) (snd ev) (r\<lparr>r_state := st'\<rparr>)))))"

section \<open>Blocked runs and escalation\<close>

definition blocked_reason :: "agent_state \<Rightarrow> bool \<Rightarrow> string option" where
  "blocked_reason st verification_required =
     (if st_halt_cause st = Some HC_SERVER_UNAVAILABLE
      then Some (''inference server unavailable ('' @ reason_value SERVER_UNAVAILABLE @ '')'')
      else if st_halt_cause st = Some INFERENCE_STALLED
      then Some (''inference stalled ('' @ reason_value SERVER_STALLED @ '')'')
      else if st_halt_cause st = Some STOPPED then Some ''stopped by the user''
      else case filter tc_blocked (st_history st) of
        [] \<Rightarrow> None
      | first # _ \<Rightarrow>
          if verification_required \<and> \<not> st_verification_attempted st
          then Some (tc_name first @ '' could not run (''
                     @ (if known_text (tc_reason first) then the (tc_reason first) else ''environment'')
                     @ '')'')
          else None)"

definition escalation_reason :: "string \<Rightarrow> agent_state \<Rightarrow> bool \<Rightarrow> string option" where
  "escalation_reason answer st verification_required =
     (if known_text (st_halt_reason st) then st_halt_reason st
      else if py_strip answer = [] then Some ''no answer was produced''
      else if verification_required \<and> st_claim st = Some ''success'' \<and> \<not> st_verified st
      then Some ''success was claimed without a passing build or test to back it''
      else if verification_required \<and> \<not> st_verification_attempted st
      then Some ''the skill requires a tool-backed result and no tool was run''
      else None)"

definition first_outcome :: "string \<Rightarrow> agent_state \<Rightarrow> bool \<Rightarrow> bool \<Rightarrow> outcome option" where
  \<comment> \<open>how \<open>run\<close> judges its first attempt; \<open>None\<close>: retry on the strong tier\<close>
  "first_outcome answer st verification_required escalation_available =
     (if blocked_reason st verification_required \<noteq> None then Some BLOCKED
      else if escalation_available \<and> escalation_reason answer st verification_required \<noteq> None
      then None
      else Some (outcome_classify (escalation_reason answer st verification_required = None)
                   False escalation_available None))"

definition retry_outcome :: "string \<Rightarrow> agent_state \<Rightarrow> bool \<Rightarrow> outcome" where
  "retry_outcome answer st verification_required =
     (if blocked_reason st verification_required \<noteq> None then BLOCKED
      else outcome_classify (escalation_reason answer st verification_required = None)
             True True None)"

section \<open>Toolsets (\<open>Orchestrator._toolset_for\<close>)\<close>

record skill =
  sk_name :: string
  sk_description :: string
  sk_body :: string
  sk_tools :: "string list"
  sk_tier :: "string option"
  sk_escalation :: string
  sk_verification_required :: bool
  sk_references :: "string list"
  sk_scripts :: "string list"

definition REFERENCE_TOOL :: string where
  "REFERENCE_TOOL = ''read_skill_reference''"

definition UNIVERSAL_TOOLS :: "string list" where
  "UNIVERSAL_TOOLS = [''submit_answer'']"

definition TOOLSETS :: "(string \<times> string list) list" where
  "TOOLSETS =
     [(''repo-navigation'',
       [''repo_info'', ''list_files'', ''read_file'', ''search_text'', ''find_definition'']),
      (''git-review'',
       [''git_status'', ''git_diff'', ''git_log'', ''git_show'', ''git_branch_info'',
        ''read_file'', ''search_text'']),
      (''prepare-commit'',
       [''git_status'', ''git_diff'', ''git_branch_info'', ''read_file'',
        ''git_stage'', ''git_commit'']),
      (''build-and-test'',
       [''repo_info'', ''configure_project'', ''build_target'', ''list_tests'', ''run_test'',
        ''read_file'', ''read_log_chunk'']),
      (''diagnose-build-failure'',
       [''build_target'', ''read_log_chunk'', ''read_file'', ''search_text'',
        ''find_definition'', ''propose_patch'', ''apply_patch'']),
      (''diagnose-test-failure'',
       [''run_test'', ''read_log_chunk'', ''read_file'', ''search_text'',
        ''find_definition'', ''git_diff'', ''propose_patch'', ''apply_patch'']),
      (''_default'',
       [''repo_info'', ''list_files'', ''read_file'', ''search_text'', ''git_status''])]"

definition default_toolset :: "string option \<Rightarrow> string list" where
  "default_toolset name =
     (let key = (case name of None \<Rightarrow> '''' | Some n \<Rightarrow> n)
      in case map_of TOOLSETS key of Some ts \<Rightarrow> ts | None \<Rightarrow> the (map_of TOOLSETS ''_default''))"

definition add_universal :: "string list \<Rightarrow> string list \<Rightarrow> string list" where
  "add_universal registered chosen =
     fold (\<lambda>extra acc. if extra \<in> set registered \<and> extra \<notin> set acc then acc @ [extra] else acc)
       UNIVERSAL_TOOLS chosen"

definition toolset_for ::
  "string list \<Rightarrow> string option \<Rightarrow> skill option \<Rightarrow> bool \<Rightarrow> string list py" where
  "toolset_for registered name sk no_skill =
     (if no_skill then Inr (sort (filter (\<lambda>n. n \<noteq> REFERENCE_TOOL) registered))
      else case sk of
        Some s \<Rightarrow>
          (if \<exists>t \<in> set (sk_tools s). t \<notin> set registered then Inl ValueError
           else Inr (add_universal registered
                  (if sk_references s \<noteq> [] \<and> REFERENCE_TOOL \<notin> set (sk_tools s)
                   then sk_tools s @ [REFERENCE_TOOL] else sk_tools s)))
      | None \<Rightarrow> Inr (add_universal registered (default_toolset name)))"

end
