(* ===== verification/Run_Properties.thy ===== *)
theory Run_Properties
  imports Answers
begin

text \<open>
  The properties of one agent run: what its proof flag means, what may touch the world, the
  bounds on repeated and unusable calls, and what cited evidence and outcomes say.  The
  witnesses run a small worker whose world counts applied patches.
\<close>

section \<open>A concrete worker\<close>

definition fresh_run :: "string list \<Rightarrow> 'w \<Rightarrow> 'w run" where
  \<comment> \<open>the state \<open>_run_once\<close> starts its loop with\<close>
  "fresh_run ts w = \<lparr>r_state = new_state\<lparr>st_toolset := ts\<rparr>, r_world = w, r_events = []\<rparr>"

definition demo_tool :: "string \<Rightarrow> risk \<Rightarrow> nat tool" where
  "demo_tool n rk = \<lparr>tool_name = n, tool_parameters = PDict [], tool_risk = rk,
     tool_handler = (\<lambda>args w.
       (Returned (mk_tool_result True ''done'' [(''path'', PStr ''a.cpp'')] [] (Some 0) EX_OK None None),
        if rk = EXECUTE then w else Suc w))\<rparr>"

definition demo_orch :: "nat orch" where
  "demo_orch = \<lparr>o_policy = default_policy\<lparr>allow_patch := True\<rparr>,
     o_registry = [demo_tool ''run_test'' EXECUTE, demo_tool ''apply_patch'' WRITE],
     o_skill_names = [], o_approval = (\<lambda>_ _ _. True), o_clock = (\<lambda>_. 0)\<rparr>"

definition demo_call :: "string \<Rightarrow> pydict \<Rightarrow> tool_call" where
  "demo_call n args = \<lparr>call_id = ''1'', call_name = \<lparr>cn_text = n, cn_validation_error = None\<rparr>,
     call_arguments = args\<rparr>"

abbreviation demo_batch :: "tool_call list" where
  "demo_batch \<equiv> [demo_call ''apply_patch'' [], demo_call ''run_test'' []]"

lemma run_ok_fresh [simp]: "run_ok (r_state (fresh_run ts w))"
  by (simp add: fresh_run_def run_ok_def new_state_def)

lemma repeats_fresh [simp]: "repeats_bounded c (fresh_run ts w)"
  by (simp add: fresh_run_def repeats_bounded_def times_run_def new_state_def)

section \<open>Proof of the tree\<close>

text \<open>C1: after any batch of tool calls the orchestrator's \<open>verified\<close> flag is true exactly
  when the last decisive call of the current mutation epoch (a build or test that passed over
  the whole project, or was observed to fail) is a pass: a later failure retracts it, a
  mutation retracts it, and nothing else does.\<close>

theorem verified_is_last_decisive_result:
  assumes "execute_all c sp calls (fresh_run ts w) = Inr r'"
  shows "st_verified (r_state r') \<longleftrightarrow>
           proven_now (st_history (r_state r')) (st_mutation_epoch (r_state r'))"
  using execute_all_ok [OF run_ok_fresh assms] by (simp add: run_ok_def)

theorem verified_is_last_decisive_result_witness:
  "\<exists>r'. execute_all demo_orch False demo_batch (fresh_run [] 0) = Inr r'
        \<and> st_verified (r_state r') \<and> proven_now (st_history (r_state r')) (st_mutation_epoch (r_state r'))"
proof -
  have "returns (\<lambda>r. st_verified (r_state r)) (execute_all demo_orch False demo_batch (fresh_run [] 0))"
    by code_simp
  then obtain r' where "execute_all demo_orch False demo_batch (fresh_run [] 0) = Inr r'"
    and "st_verified (r_state r')" by (rule returnsE)
  then show ?thesis
    using verified_is_last_decisive_result [of demo_orch False demo_batch "[]" 0 r'] by blast
qed

section \<open>Authority\<close>

text \<open>C2: a tool call changes the world only through the handler of a registered tool with that
  very name, offered by the active toolset, not forbidden, with fewer than the permitted number
  of identical calls behind it; when the tool can modify the worktree or the history the
  operator approved this call with these arguments, and while the attempt may still be
  discarded no staging or commit takes effect.\<close>

theorem effects_are_authorised:
  assumes ex: "execute c sp call r = Inr (x, r')" and changed: "r_world r' \<noteq> r_world r"
  shows "\<exists>t \<in> set (o_registry c). tool_name t = cn_text (call_name call)
    \<and> (st_toolset (r_state r) = [] \<or> cn_text (call_name call) \<in> set (st_toolset (r_state r)))
    \<and> tool_risk t \<noteq> FORBIDDEN
    \<and> (tool_risk t \<in> {WRITE, DANGEROUS} \<longrightarrow>
         o_approval c t (call_arguments call) (policy_check (o_policy c) (tool_name t) (tool_risk t) sp))
    \<and> (sp \<longrightarrow> tool_name t \<notin> set HISTORY_MUTATING)
    \<and> int (repeat_count (pending_record call (r_state r)) (r_state r)) < max_repeat_calls (o_policy c)
    \<and> r_world r' = snd (tool_handler t (call_arguments call) (r_world r))"
proof -
  from ex obtain y where "execute_base c sp call r = Inr (y, r')" by (blast dest: execute_frame)
  then show ?thesis
  proof (cases rule: execute_base_cases)
    case (undecided rec)
    with changed show ?thesis by (simp add: appended_def)
  next
    case (ran t vd r1)
    let ?d = "policy_check (o_policy c) (tool_name t) (tool_risk t) sp"
    from ran(2) have world: "r_world r' = snd (tool_handler t (call_arguments call) (r_world r))"
      by (rule run_handler_appends) (simp add: ran(4))
    from ran(1) have "lookup_tool c call (r_state r) = Inr t" and nd: "d_verdict ?d \<noteq> DENY"
      and app: "d_verdict ?d = APPROVE \<longrightarrow> o_approval c t (call_arguments call) ?d"
      and rep: "int (repeat_count (pending_record call (r_state r)) (r_state r)) < max_repeat_calls (o_policy c)"
      by (auto simp: cleared_call_def Let_def d_requires_approval_def)
    then have "t \<in> set (o_registry c)" "tool_name t = cn_text (call_name call)"
      "st_toolset (r_state r) = [] \<or> cn_text (call_name call) \<in> set (st_toolset (r_state r))"
      by (auto simp: lookup_tool_def dest: registry_get_name split: sum.splits if_splits)
    moreover have "tool_risk t \<in> {WRITE, DANGEROUS} \<longrightarrow> o_approval c t (call_arguments call) ?d"
      using nd app mutating_needs_approval [of "tool_risk t" "o_policy c" "tool_name t" sp] by auto
    moreover have "sp \<longrightarrow> tool_name t \<notin> set HISTORY_MUTATING"
      using nd speculative_history_denied [of "tool_name t"] by auto
    moreover have "tool_risk t \<noteq> FORBIDDEN"
      using nd forbidden_denied [of "o_policy c" "tool_name t" sp] by auto
    ultimately show ?thesis using world rep by blast
  qed
qed

theorem effects_are_authorised_witness:
  "\<exists>x r'. execute demo_orch True (demo_call ''apply_patch'' []) (fresh_run [] 0) = Inr (x, r')
     \<and> r_world r' = Suc 0 \<and> (\<exists>t \<in> set (o_registry demo_orch). tool_name t = ''apply_patch'')"
proof -
  have "returns (\<lambda>p. r_world (snd p) = Suc 0)
          (execute demo_orch True (demo_call ''apply_patch'' []) (fresh_run [] 0))"
    by code_simp
  then obtain x r' where ex: "execute demo_orch True (demo_call ''apply_patch'' []) (fresh_run [] 0) = Inr (x, r')"
    and w: "r_world r' = Suc 0" by (auto elim!: returnsE)
  have "\<exists>t \<in> set (o_registry demo_orch). tool_name t = ''apply_patch''"
    using effects_are_authorised [OF ex] w by (auto simp: fresh_run_def demo_call_def)
  with ex w show ?thesis by blast
qed

section \<open>Bounds\<close>

text \<open>C3: whatever the model asks for, no call (same tool, same arguments up to key order) reaches
  its handler more often than \<open>max_repeat_calls\<close> within one mutation epoch.\<close>

theorem identical_calls_bounded:
  assumes "execute_all c sp calls (fresh_run ts w) = Inr r'"
  shows "int (times_run sig e (st_history (r_state r'))) \<le> max 0 (max_repeat_calls (o_policy c))"
proof -
  from execute_all_run_ops [OF assms] obtain ds where "r' = run_ops (work c sp) ds (fresh_run ts w)"
    by blast
  then have "repeats_bounded c r'"
    by (simp add: bounded_run.run_inv)
  then show ?thesis by (simp only: repeats_bounded_def)
qed

definition demo_garbled :: tool_call where
  "demo_garbled = (demo_call ''x'' [])\<lparr>call_name := \<lparr>cn_text = ''x'', cn_validation_error = Some ''bad''\<rparr>\<rparr>"

abbreviation demo_loop :: "tool_call list" where
  "demo_loop \<equiv> replicate 5 (demo_call ''run_test'' [])"

theorem identical_calls_bounded_witness:
  "\<exists>r'. execute_all demo_orch False demo_loop (fresh_run [] 0) = Inr r'
        \<and> times_run ''run_test|{}'' 0 (st_history (r_state r')) = 3
        \<and> int (times_run ''run_test|{}'' 0 (st_history (r_state r'))) \<le> 3"
proof -
  have "returns (\<lambda>r. times_run ''run_test|{}'' 0 (st_history (r_state r)) = 3)
          (execute_all demo_orch False demo_loop (fresh_run [] 0))"
    by code_simp
  then obtain r' where r: "execute_all demo_orch False demo_loop (fresh_run [] 0) = Inr r'"
    and n: "times_run ''run_test|{}'' 0 (st_history (r_state r')) = 3" by (rule returnsE)
  have "max 0 (max_repeat_calls (o_policy demo_orch)) = 3"
    by (simp add: demo_orch_def default_policy_def)
  with identical_calls_bounded [OF r, of "''run_test|{}''" 0] n r show ?thesis by auto
qed

definition honest_tool :: "'w tool \<Rightarrow> bool" where
  "honest_tool t \<longleftrightarrow> (\<forall>args w res w'. tool_handler t args w = (Returned res, w') \<longrightarrow> totals_object (tr_data res))"

lemma handler_result_totals:
  assumes "honest_tool t" and "tool_handler t args w = (out, w')"
  shows "totals_object (tr_data (handler_result t n out))"
proof (cases out)
  case (Returned res)
  with assms have "totals_object (tr_data res)" unfolding honest_tool_def by blast
  with Returned show ?thesis by (simp add: handler_result_def)
qed (simp_all add: handler_result_def errored_def blocked_by_def mk_tool_result_def
    totals_object_def py_get_def)

lemma run_handler_total:
  assumes "honest_tool t"
  shows "\<exists>x r'. run_handler c call t rec r = Inr (x, r')"
proof -
  obtain out w where hw: "tool_handler t (call_arguments call) (r_world r) = (out, w)"
    by (cases "tool_handler t (call_arguments call) (r_world r)")
  let ?res = "handler_result t (cn_text (call_name call)) out"
  from handler_result_totals [OF assms hw] obtain k where
    "classify_proof (cn_text (call_name call)) (call_arguments call) (execution_value (tr_execution ?res))
       (domain_value (tr_domain ?res)) (tr_data ?res) = Inr k"
    using classify_total by blast
  then show ?thesis
    by (auto simp: run_handler_def Let_def hw settle_def intro: exI [of _ False])
qed

lemma execute_total:
  assumes "\<forall>t \<in> set (o_registry c). honest_tool t"
  shows "\<exists>res stop r'. execute c sp call r = Inr ((res, stop), r')"
proof -
  have "\<exists>y r'. execute_base c sp call r = Inr (y, r')"
  proof (cases "lookup_tool c call (r_state r)")
    case (Inl e)
    then show ?thesis
      by (cases "refuse_call c call e r") (simp add: execute_base_def)
  next
    case (Inr t)
    then have "honest_tool t"
      using assms by (auto simp: lookup_tool_def dest: registry_get_name split: sum.splits if_splits)
    from run_handler_total [OF this] Inr show ?thesis
      by (auto simp: execute_base_def Let_def stop_repeat_def block_call_def)
  qed
  then show ?thesis by (auto simp: execute_def Let_def)
qed

text \<open>C4: a batch never ends in an exception when the registered handlers keep the tools' contract
  that \<open>totals\<close>, when present in the data of a result, is an object: unknown tools, refusals,
  denials, declined approvals and raising handlers are all turned into typed results.\<close>

theorem batch_never_raises:
  assumes "\<forall>t \<in> set (o_registry c). honest_tool t"
  shows "\<exists>r'. execute_all c sp calls r = Inr r'"
proof (induction calls arbitrary: r)
  case Nil
  show ?case by simp
next
  case (Cons x xs)
  from execute_total [OF assms, of sp x r] obtain res stop r1
    where "execute c sp x r = Inr ((res, stop), r1)" by blast
  with Cons.IH [of r1] show ?case by auto
qed

theorem batch_never_raises_witness:
  "\<exists>r'. execute_all demo_orch False [demo_call ''no_such_tool'' []] (fresh_run [] 0) = Inr r'"
proof (rule batch_never_raises)
  have "py_get [(''path'', PStr ''a.cpp'')] ''totals'' = PNone" by (simp add: py_get_def)
  then show "\<forall>t \<in> set (o_registry demo_orch). honest_tool t"
    by (simp add: demo_orch_def demo_tool_def honest_tool_def mk_tool_result_def totals_object_def)
qed

definition unusable :: "'w run \<Rightarrow> nat" where
  "unusable r = length (filter (\<lambda>h. tc_verdict h = ''unknown'') (st_history (r_state r)))"

lemma unusable_appended: "appended rec r r' \<Longrightarrow> unusable r' = unusable r + of_bool (tc_verdict rec = ''unknown'')"
  by (simp add: unusable_def appended_def)

lemma refuse_call_limit:
  assumes "refuse_call c call e r = ((res, stop), r')"
  shows "unusable r' = Suc (unusable r)" and "stop \<longleftrightarrow> 3 \<le> unusable r'"
    and "stop \<Longrightarrow> st_halt_cause (r_state r') = Some UNKNOWN_TOOLS"
  using assms
  by (auto simp: refuse_call_def Let_def unusable_def too_many_unknown_def halt_def record_call_def
      refusal_record_def new_record_def split: if_splits)

lemma execute_stop:
  assumes "execute c sp call r = Inr ((res, stop), r')"
  shows "(unusable r' = Suc (unusable r) \<and> (stop \<longleftrightarrow> 3 \<le> unusable r')
            \<and> (stop \<longrightarrow> st_halt_cause (r_state r') = Some UNKNOWN_TOOLS))
         \<or> unusable r' = unusable r"
proof -
  from assms obtain res1 where base: "execute_base c sp call r = Inr ((res1, stop), r')"
    by (auto simp: execute_def py_bind_Inr_iff Let_def split: if_splits)
  show ?thesis
  proof (cases "lookup_tool c call (r_state r)")
    case (Inl e)
    with base have "refuse_call c call e r = ((res1, stop), r')" by (simp add: execute_base_def)
    from refuse_call_limit [OF this] show ?thesis by blast
  next
    case (Inr t)
    have "unusable r' = unusable r"
      using base
    proof (cases rule: execute_base_cases)
      case (undecided rec)
      with Inr show ?thesis by (simp add: unusable_appended)
    next
      case (ran t vd r1)
      from ran(1) have vd: "vd = ''auto'' \<or> vd = ''approved''"
        by (auto simp: cleared_call_def Let_def split: if_splits)
      from ran(2) obtain rs k where "st_history (r_state r') =
          st_history (r_state r) @ [fill_record ((pending_record call (r_state r))\<lparr>tc_verdict := vd\<rparr>) rs k]"
        by (rule run_handler_appends) (simp add: ran(3))
      with vd show ?thesis by (auto simp: unusable_def)
    qed
    then show ?thesis by blast
  qed
qed

text \<open>unusable calls end the run: a batch records at most three calls of tools that do not
  exist or are not offered, and when it records the third the run has halted with the typed
  cause \<open>UNKNOWN_TOOLS\<close>.\<close>

theorem unusable_calls_halt:
  assumes "execute_all c sp calls (fresh_run ts w) = Inr r'"
  shows "unusable r' \<le> 3 \<and> (unusable r' = 3 \<longrightarrow> st_halt_cause (r_state r') = Some UNKNOWN_TOOLS)"
proof -
  have "unusable r \<le> 2 \<Longrightarrow> execute_all c sp calls r = Inr r' \<Longrightarrow>
      unusable r' \<le> 3 \<and> (unusable r' = 3 \<longrightarrow> st_halt_cause (r_state r') = Some UNKNOWN_TOOLS)" for r
  proof (induction calls arbitrary: r)
    case Nil
    then show ?case by auto
  next
    case (Cons x xs)
    then obtain res stop r1 where x: "execute c sp x r = Inr ((res, stop), r1)"
      and rest: "if stop then r' = r1 else execute_all c sp xs r1 = Inr r'"
      by (auto split: sum.splits prod.splits if_splits)
    from execute_stop [OF x] Cons.prems(1)
    have "(stop \<longrightarrow> unusable r1 \<le> 3 \<and> (unusable r1 = 3 \<longrightarrow> st_halt_cause (r_state r1) = Some UNKNOWN_TOOLS))
        \<and> (\<not> stop \<longrightarrow> unusable r1 \<le> 2)" by auto
    with rest Cons.IH [of r1] show ?case by (cases stop) auto
  qed
  moreover have "unusable (fresh_run ts w) \<le> 2"
    by (simp add: unusable_def fresh_run_def new_state_def)
  ultimately show ?thesis using assms by blast
qed

theorem unusable_calls_halt_witness:
  "\<exists>r'. execute_all demo_orch False (replicate 4 demo_garbled) (fresh_run [] 0) = Inr r'
        \<and> unusable r' = 3 \<and> st_halt_cause (r_state r') = Some UNKNOWN_TOOLS"
proof -
  have "returns (\<lambda>r. unusable r = 3)
          (execute_all demo_orch False (replicate 4 demo_garbled) (fresh_run [] 0))"
    by code_simp
  then obtain r' where "execute_all demo_orch False (replicate 4 demo_garbled) (fresh_run [] 0) = Inr r'"
    and "unusable r' = 3" by (rule returnsE)
  with unusable_calls_halt [of demo_orch False _ "[]" 0 r'] show ?thesis by blast
qed

end
