(* ===== verification/Answer_Properties.thy ===== *)
theory Answer_Properties
  imports Run_Properties
begin

text \<open>
  What an accepted answer and the outcome of a run say about the recorded calls: canonical
  citations are exact and stable, grounding is decided by the records alone and never moves
  the proof flag, and a pass under a verification contract rests on an observed check.
\<close>

section \<open>Citations\<close>

lemma citation_table_nth:
  "(t, h) \<in> set (citation_table hist) \<longleftrightarrow>
     (\<exists>i < length hist. t = evidence_id (tc_name (hist ! i)) i \<and> h = hist ! i)"
  by (auto simp: citation_table_def in_set_enumerate_eq image_iff Bex_def)

lemma evidence_id_inj: "evidence_id a i = evidence_id b j \<longleftrightarrow> a = b \<and> i = j"
  unfolding evidence_id_def using label_inj [of a i b j] by auto

lemma citation_table_keys: "distinct (map fst (citation_table hist))"
  by (auto simp: distinct_conv_nth citation_table_def nth_enumerate_eq evidence_id_inj)

lemma cite_iff:
  "cite hist t = Some h \<longleftrightarrow> (\<exists>i < length hist. t = evidence_id (tc_name (hist ! i)) i \<and> h = hist ! i)"
proof -
  have "distinct (map fst (rev (citation_table hist)))"
    using citation_table_keys [of hist] by (simp add: rev_map [symmetric])
  then have "cite hist t = Some h \<longleftrightarrow> (t, h) \<in> set (citation_table hist)"
    by (simp add: cite_def)
  then show ?thesis by (simp only: citation_table_nth)
qed

lemma cite_None_iff:
  "cite hist t = None \<longleftrightarrow> (\<forall>i < length hist. t \<noteq> evidence_id (tc_name (hist ! i)) i)"
  using cite_iff [of hist t] by (cases "cite hist t") auto

lemma cite_append: "cite hist t = Some h \<Longrightarrow> cite (hist @ new) t = Some h"
  by (auto simp: cite_iff nth_append)

text \<open>the \<open>evidence_id\<close> the model is shown with the result of a call is a citation of exactly
  that call's record, and it still resolves to the same record after any further batch.\<close>

theorem evidence_ids_stay_valid:
  assumes ok: "run_ok (r_state r)"
    and ex: "execute c sp call r = Inr ((res, stop), r1)"
    and later: "execute_all c sp calls r1 = Inr r2"
  shows "\<exists>rec. st_history (r_state r1) = st_history (r_state r) @ [rec]
    \<and> py_get (tr_data res) ''evidence_id'' = PStr (evidence_id (tc_name rec) (length (st_history (r_state r))))
    \<and> cite (st_history (r_state r2)) (evidence_id (tc_name rec) (length (st_history (r_state r)))) = Some rec"
proof -
  from ex obtain res1 where base: "execute_base c sp call r = Inr ((res1, stop), r1)"
    by (auto simp: execute_def py_bind_Inr_iff Let_def split: if_splits)
  from execute_base_extends [OF base] obtain rec where
    h: "st_history (r_state r1) = st_history (r_state r) @ [rec]" and n: "tc_name rec = cn_text (call_name call)"
    by blast
  from ex base h n have "res = res1\<lparr>tr_data := py_set (tr_data res1) ''evidence_id''
      (PStr (evidence_id (tc_name rec) (length (st_history (r_state r)))))\<rparr>"
    by (simp add: execute_def)
  moreover from execute_base_ok [OF ok base] later obtain new where
    new: "st_history (r_state r2) = st_history (r_state r1) @ new"
    by (metis execute_all_extends extends_def)
  moreover have "cite (st_history (r_state r1)) (evidence_id (tc_name rec) (length (st_history (r_state r)))) = Some rec"
    unfolding cite_iff by (rule exI [of _ "length (st_history (r_state r))"]) (simp add: h)
  then have "cite (st_history (r_state r2)) (evidence_id (tc_name rec) (length (st_history (r_state r)))) = Some rec"
    unfolding new by (rule cite_append)
  ultimately show ?thesis using h by (intro exI [of _ rec]) simp
qed

theorem evidence_ids_stay_valid_witness:
  "\<exists>res stop r1 r2 rec.
     execute demo_orch False (demo_call ''apply_patch'' []) (fresh_run [] 0) = Inr ((res, stop), r1)
     \<and> execute_all demo_orch False [demo_call ''run_test'' []] r1 = Inr r2
     \<and> py_get (tr_data res) ''evidence_id'' = PStr (evidence_id (tc_name rec) 0)
     \<and> cite (st_history (r_state r2)) (evidence_id (tc_name rec) 0) = Some rec"
proof -
  have "returns (\<lambda>p. returns (\<lambda>_. True) (execute_all demo_orch False [demo_call ''run_test'' []] (snd p)))
     (execute demo_orch False (demo_call ''apply_patch'' []) (fresh_run [] 0))"
    by code_simp
  then obtain res stop r1 r2 where
    e: "execute demo_orch False (demo_call ''apply_patch'' []) (fresh_run [] 0) = Inr ((res, stop), r1)"
    and l: "execute_all demo_orch False [demo_call ''run_test'' []] r1 = Inr r2"
    by (auto elim!: returnsE)
  from evidence_ids_stay_valid [OF run_ok_fresh e l] e l show ?thesis
    by (auto simp: fresh_run_def new_state_def)
qed

section \<open>Grounding of an answer\<close>

lemma passing_records_Inr:
  "(\<forall>h \<in> set hs. tc_proof h \<in> range proof_kind_value) \<Longrightarrow>
     passing_records hs = Inr (filter (\<lambda>h. record_kind h \<in> PASSING_KINDS) hs)"
  by (induction hs) (auto simp: record_kind_def)

lemma set_map_filter: "set (List.map_filter f xs) = {y. \<exists>x \<in> set xs. f x = Some y}"
  by (induction xs) (auto simp: List.map_filter_simps split: option.splits)

lemma finish_answer_frame [simp]:
  "st_history (finish_answer cl ci un sc b st) = st_history st"
  "st_verified (finish_answer cl ci un sc b st) = st_verified st"
  "st_mutation_epoch (finish_answer cl ci un sc b st) = st_mutation_epoch st"
  "st_tool_calls (finish_answer cl ci un sc b st) = st_tool_calls st"
  "st_verification_attempted (finish_answer cl ci un sc b st) = st_verification_attempted st"
  "st_claim (finish_answer cl ci un sc b st) = Some cl"
  "st_cited_correctly (finish_answer cl ci un sc b st) = Some (un = [] \<and> (cl \<noteq> ''success'' \<or> b))"
  "st_cited_unknown (finish_answer cl ci un sc b st) = un"
  by (simp_all add: finish_answer_def Let_def)

text \<open>an answer with a list of citations is always accepted; it is called correctly cited
  exactly when every id names a recorded call and, for a claim of success, one of them names a
  build or test that passed; the proof flag, the history and the epoch do not move.\<close>

theorem answers_are_grounded:
  assumes ok: "run_ok (r_state r)" and cited: "text_items (py_get (call_arguments call) ''evidence_ids'') = Inr cited"
  defines "hist \<equiv> st_history (r_state r)"
  shows "\<exists>summary r'. accept_answer call r = Inr ((summary, True), r') \<and> run_ok (r_state r')
    \<and> st_history (r_state r') = hist \<and> st_verified (r_state r') = st_verified (r_state r)
    \<and> st_cited_unknown (r_state r') = filter (\<lambda>t. cite hist t = None) cited
    \<and> st_cited_correctly (r_state r') = Some
        ((\<forall>t \<in> set cited. cite hist t \<noteq> None)
         \<and> (st_claim (r_state r') = Some ''success'' \<longrightarrow>
              (\<exists>t \<in> set cited. \<exists>h. cite hist t = Some h \<and> record_kind h \<in> PASSING_KINDS)))"
proof -
  let ?resolved = "List.map_filter (cite hist) cited"
  have "h \<in> set hist" if "cite hist t = Some h" for t h
    using that by (auto simp: cite_iff)
  with ok have "\<forall>h \<in> set ?resolved. tc_proof h \<in> range proof_kind_value"
    by (auto simp: set_map_filter run_ok_def hist_def)
  note passing = passing_records_Inr [OF this]
  have ne: "filter (\<lambda>h. record_kind h \<in> PASSING_KINDS) ?resolved \<noteq> [] \<longleftrightarrow>
      (\<exists>t \<in> set cited. \<exists>h. cite hist t = Some h \<and> record_kind h \<in> PASSING_KINDS)"
    by (auto simp: filter_empty_conv set_map_filter)
  have un: "filter (\<lambda>t. cite hist t = None) cited = [] \<longleftrightarrow> (\<forall>t \<in> set cited. cite hist t \<noteq> None)"
    by (auto simp: filter_empty_conv)
  have okc: "run_ok (finish_answer cl cited u sc b (r_state r))" for cl u sc b
    using ok by (subst run_ok_cong) simp_all
  define cl where "cl = py_str (py_get_or (call_arguments call) ''claim'' (PStr ''diagnosis''))"
  let ?un = "filter (\<lambda>t. cite hist t = None) cited"
  let ?backed = "filter (\<lambda>h. record_kind h \<in> PASSING_KINDS) ?resolved \<noteq> []"
  obtain summary sc ev where acc: "accept_answer call r = Inr ((summary, True),
      observe (fst ev) (snd ev) (r\<lparr>r_state := finish_answer cl cited ?un sc ?backed (r_state r)\<rparr>))"
    (is "_ = Inr (_, ?r')")
    using passing by (simp add: accept_answer_def Let_def cited hist_def cl_def)
  have st: "r_state ?r' = finish_answer cl cited ?un sc ?backed (r_state r)" by simp
  have "run_ok (r_state ?r')" using okc by simp
  moreover have corr: "st_claim (r_state ?r') = Some cl"
    "st_cited_correctly (r_state ?r') = Some (?un = [] \<and> (cl \<noteq> ''success'' \<or> ?backed))"
    unfolding st by (simp_all only: finish_answer_frame)
  have "st_cited_correctly (r_state ?r') = Some
        ((\<forall>t \<in> set cited. cite hist t \<noteq> None)
         \<and> (st_claim (r_state ?r') = Some ''success'' \<longrightarrow>
              (\<exists>t \<in> set cited. \<exists>h. cite hist t = Some h \<and> record_kind h \<in> PASSING_KINDS)))"
    using corr by (simp only: un ne option.inject) blast
  moreover have "st_history (r_state ?r') = hist" "st_verified (r_state ?r') = st_verified (r_state r)"
    "st_cited_unknown (r_state ?r') = ?un"
    unfolding st finish_answer_frame hist_def by simp_all
  ultimately show ?thesis using acc by blast
qed

definition demo_answer :: tool_call where
  "demo_answer = demo_call ''submit_answer''
     [(''claim'', PStr ''success''), (''evidence_ids'', PList [PStr ''run_test:1''])]"

theorem answers_are_grounded_witness:
  "\<exists>r summary r'. execute_all demo_orch False demo_batch (fresh_run [] 0) = Inr r
     \<and> accept_answer demo_answer r = Inr ((summary, True), r') \<and> run_ok (r_state r')"
proof -
  have "returns (\<lambda>r. True) (execute_all demo_orch False demo_batch (fresh_run [] 0))"
    by code_simp
  then obtain r where r: "execute_all demo_orch False demo_batch (fresh_run [] 0) = Inr r"
    by (rule returnsE)
  have "text_items (py_get (call_arguments demo_answer) ''evidence_ids'') = Inr [''run_test:1'']"
    by (simp add: demo_answer_def demo_call_def py_get_def text_items_def py_str_def)
  from answers_are_grounded [OF execute_all_ok [OF run_ok_fresh r] this] r show ?thesis by blast
qed

section \<open>Outcomes\<close>

text \<open>C5: under a verification contract, the first attempt of a run is a PASS, and a retry on the strong
  tier an escalated pass, exactly when the attempt is not blocked, did not halt, produced an answer,
  recorded a build or test that really ran to a verdict (a passing or a failing one), and, if success
  was claimed, the last decisive check of the current tree passed. Without a claim of success the
  code asks for no passing check.\<close>

theorem pass_needs_observed_check:
  assumes "run_ok st"
  shows "(first_outcome answer st True avail = Some PASS
      \<longleftrightarrow> blocked_reason st True = None \<and> \<not> known_text (st_halt_reason st) \<and> py_strip answer \<noteq> []
        \<and> (\<exists>h \<in> set (st_history st). observed_check h)
        \<and> (st_claim st = Some ''success'' \<longrightarrow> proven_now (st_history st) (st_mutation_epoch st)))
    \<and> (retry_outcome answer st True = ESCALATED_PASS
      \<longleftrightarrow> first_outcome answer st True avail = Some PASS)"
proof -
  have "escalation_reason answer st True = None \<longleftrightarrow>
      \<not> known_text (st_halt_reason st) \<and> py_strip answer \<noteq> []
      \<and> (\<exists>h \<in> set (st_history st). observed_check h)
      \<and> (st_claim st = Some ''success'' \<longrightarrow> proven_now (st_history st) (st_mutation_epoch st))"
    using assms by (auto simp: escalation_reason_def run_ok_def list_ex_iff known_text_def)
  then show ?thesis
    by (auto simp: first_outcome_def retry_outcome_def outcome_classify_def)
qed

theorem pass_needs_observed_check_witness:
  "\<exists>r a r'. execute_all demo_orch False demo_batch (fresh_run [] 0) = Inr r
     \<and> accept_answer demo_answer r = Inr (a, r')
     \<and> st_claim (r_state r') = Some ''success''
     \<and> first_outcome ''done'' (r_state r') True True = Some PASS
     \<and> retry_outcome ''done'' (r_state r') True = ESCALATED_PASS
     \<and> proven_now (st_history (r_state r')) (st_mutation_epoch (r_state r'))"
proof -
  have "returns (\<lambda>r. returns (\<lambda>q. st_claim (r_state (snd q)) = Some ''success''
            \<and> first_outcome ''done'' (r_state (snd q)) True True = Some PASS) (accept_answer demo_answer r))
          (execute_all demo_orch False demo_batch (fresh_run [] 0))"
    by code_simp
  then obtain r where r: "execute_all demo_orch False demo_batch (fresh_run [] 0) = Inr r"
    and "returns (\<lambda>q. st_claim (r_state (snd q)) = Some ''success''
            \<and> first_outcome ''done'' (r_state (snd q)) True True = Some PASS) (accept_answer demo_answer r)"
    by (rule returnsE)
  from this(2) obtain q where q: "accept_answer demo_answer r = Inr q"
    and p: "st_claim (r_state (snd q)) = Some ''success''"
      "first_outcome ''done'' (r_state (snd q)) True True = Some PASS" by (elim returnsE conjE)
  have "text_items (py_get (call_arguments demo_answer) ''evidence_ids'') = Inr [''run_test:1'']"
    by (simp add: demo_answer_def demo_call_def py_get_def text_items_def py_str_def)
  from answers_are_grounded [OF execute_all_ok [OF run_ok_fresh r] this] q
  have "run_ok (r_state (snd q))" by (cases q) auto
  from pass_needs_observed_check [OF this, of "''done''" True] r q p show ?thesis by (cases q) auto
qed

section \<open>Proposals\<close>

definition proposes :: "tool_call_record \<Rightarrow> bool" where
  "proposes h \<longleftrightarrow> tc_name h \<in> set PROPOSING_TOOLS \<and> tc_ok h = Some True"

lemma unapplied_from_Some:
  "unapplied_from hs later = Some p \<longleftrightarrow>
     (\<exists>newer h older. hs = newer @ h # older \<and> (\<forall>g \<in> set newer. \<not> proposes g) \<and> proposes h
        \<and> py_get (tc_evidence h) ''patch_id'' = PStr p \<and> p \<noteq> []
        \<and> (\<forall>g \<in> set newer \<union> set later. \<not> applies_patch p g))"
proof (induction hs arbitrary: later)
  case Nil
  show ?case by simp
next
  case (Cons h hs)
  show ?case
  proof (cases "proposes h")
    case True
    then have "unapplied_from (h # hs) later = Some p \<longleftrightarrow>
        py_get (tc_evidence h) ''patch_id'' = PStr p \<and> p \<noteq> [] \<and> (\<forall>g \<in> set later. \<not> applies_patch p g)"
      by (auto simp: proposes_def list_ex_iff split: pyval.splits)
    moreover have "newer = [] \<and> g = h \<and> older = hs"
      if "h # hs = newer @ g # older" "\<forall>k \<in> set newer. \<not> proposes k" for newer g older
      using that True by (cases newer) auto
    ultimately show ?thesis
      using True by (metis append_Nil empty_iff list.set(1) Un_iff)
  next
    case False
    then have "unapplied_from (h # hs) later = unapplied_from hs (h # later)"
      by (auto simp: proposes_def)
    then have lhs: "unapplied_from (h # hs) later = Some p \<longleftrightarrow> (\<exists>newer k older. hs = newer @ k # older
        \<and> (\<forall>g \<in> set newer. \<not> proposes g) \<and> proposes k
        \<and> py_get (tc_evidence k) ''patch_id'' = PStr p \<and> p \<noteq> []
        \<and> (\<forall>g \<in> set newer \<union> set (h # later). \<not> applies_patch p g))" (is "_ \<longleftrightarrow> ?short")
      by (simp only: Cons.IH)
    have "?short \<longleftrightarrow> (\<exists>newer k older. h # hs = newer @ k # older
        \<and> (\<forall>g \<in> set newer. \<not> proposes g) \<and> proposes k
        \<and> py_get (tc_evidence k) ''patch_id'' = PStr p \<and> p \<noteq> []
        \<and> (\<forall>g \<in> set newer \<union> set later. \<not> applies_patch p g))" (is "_ \<longleftrightarrow> ?long")
    proof
      assume ?short
      then obtain newer k older where "h # hs = (h # newer) @ k # older"
        and "\<forall>g \<in> set (h # newer). \<not> proposes g" and "proposes k"
        and "py_get (tc_evidence k) ''patch_id'' = PStr p" "p \<noteq> []"
        and "\<forall>g \<in> set (h # newer) \<union> set later. \<not> applies_patch p g"
        using False by auto
      then show ?long by blast
    next
      assume ?long
      then obtain newer k older where split: "h # hs = newer @ k # older"
        and rest: "\<forall>g \<in> set newer. \<not> proposes g" "proposes k"
          "py_get (tc_evidence k) ''patch_id'' = PStr p" "p \<noteq> []"
          "\<forall>g \<in> set newer \<union> set later. \<not> applies_patch p g" by blast
      from split rest(2) False obtain newer' where "newer = h # newer'" by (cases newer) auto
      with split rest show ?short by auto
    qed
    with lhs show ?thesis by (simp only:)
  qed
qed

text \<open>the reminder names a patch exactly when the latest successful proposal of the run has
  that id and no later successful \<open>apply_patch\<close> call applied it.\<close>

theorem unapplied_proposal_iff:
  "unapplied_proposal hist = Some p \<longleftrightarrow>
     (\<exists>older h newer. hist = older @ h # newer \<and> (\<forall>g \<in> set newer. \<not> proposes g) \<and> proposes h
        \<and> py_get (tc_evidence h) ''patch_id'' = PStr p \<and> p \<noteq> []
        \<and> (\<forall>g \<in> set newer. \<not> applies_patch p g))"
  (is "?l \<longleftrightarrow> ?r")
proof -
  have "?l \<longleftrightarrow> (\<exists>newer h older. rev hist = newer @ h # older \<and> (\<forall>g \<in> set newer. \<not> proposes g)
      \<and> proposes h \<and> py_get (tc_evidence h) ''patch_id'' = PStr p \<and> p \<noteq> []
      \<and> (\<forall>g \<in> set newer. \<not> applies_patch p g))"
    by (simp add: unapplied_proposal_def unapplied_from_Some)
  also have "\<dots> \<longleftrightarrow> ?r"
  proof
    assume "\<exists>newer h older. rev hist = newer @ h # older \<and> (\<forall>g \<in> set newer. \<not> proposes g)
      \<and> proposes h \<and> py_get (tc_evidence h) ''patch_id'' = PStr p \<and> p \<noteq> []
      \<and> (\<forall>g \<in> set newer. \<not> applies_patch p g)"
    then obtain newer h older where "hist = rev older @ h # rev newer"
      and "\<forall>g \<in> set newer. \<not> proposes g" "proposes h" "py_get (tc_evidence h) ''patch_id'' = PStr p"
      "p \<noteq> []" "\<forall>g \<in> set newer. \<not> applies_patch p g"
      by (auto simp: rev_swap)
    then show ?r by (intro exI [of _ "rev older"] exI [of _ h] exI [of _ "rev newer"]) simp
  next
    assume ?r
    then obtain older h newer where "rev hist = rev newer @ h # rev older"
      and "\<forall>g \<in> set newer. \<not> proposes g" "proposes h" "py_get (tc_evidence h) ''patch_id'' = PStr p"
      "p \<noteq> []" "\<forall>g \<in> set newer. \<not> applies_patch p g" by auto
    then show "\<exists>newer h older. rev hist = newer @ h # older \<and> (\<forall>g \<in> set newer. \<not> proposes g)
      \<and> proposes h \<and> py_get (tc_evidence h) ''patch_id'' = PStr p \<and> p \<noteq> []
      \<and> (\<forall>g \<in> set newer. \<not> applies_patch p g)"
      by (intro exI [of _ "rev newer"] exI [of _ h] exI [of _ "rev older"]) simp
  qed
  finally show ?thesis .
qed

text \<open>A proposed patch that a failed \<open>apply_patch\<close> left unapplied.\<close>

theorem unapplied_proposal_iff_witness:
  "unapplied_proposal
     [(new_record ''propose_patch'' [] ''allow'' (Some True) [])\<lparr>tc_evidence := [(''patch_id'', PStr ''p1'')]\<rparr>,
      new_record ''apply_patch'' [(''patch_id'', PStr ''p1'')] ''allow'' (Some False) []] = Some ''p1''"
  unfolding unapplied_proposal_iff
  by (rule exI [of _ "[]"])
    (simp add: proposes_def PROPOSING_TOOLS_def new_record_def applies_patch_def py_get_def)

end
