(* ===== verification/Contracts.thy ===== *)
theory Contracts
  imports Answers
begin

text \<open>
  \<open>session/contracts.py\<close>: the closed vocabularies of the session layer (route sources, task
  outcomes, terminal states, verdicts), the projection of an outcome into the durable
  lifecycle, and the task result with the checks of its constructor.
\<close>

section \<open>Vocabularies\<close>

definition MAX_MESSAGE_CHARS :: nat where "MAX_MESSAGE_CHARS = 8000"

datatype route_source = RULE | MODEL_PROPOSAL | USER_DIRECT

fun route_source_value :: "route_source \<Rightarrow> string" where
  "route_source_value RULE = ''rule''"
| "route_source_value MODEL_PROPOSAL = ''model_proposal''"
| "route_source_value USER_DIRECT = ''user_direct''"

definition route_source_of :: "string \<Rightarrow> route_source py" where
  "route_source_of = enum_of route_source_value [RULE, MODEL_PROPOSAL, USER_DIRECT]"

datatype task_outcome =
    O_PASS | O_ANSWERED | O_ESCALATED_PASS | O_ESCALATED_FAIL | O_FAIL | O_BLOCKED | O_NO_VERDICT

fun task_outcome_value :: "task_outcome \<Rightarrow> string" where
  "task_outcome_value O_PASS = ''pass''"
| "task_outcome_value O_ANSWERED = ''answered''"
| "task_outcome_value O_ESCALATED_PASS = ''escalated_pass''"
| "task_outcome_value O_ESCALATED_FAIL = ''escalated_fail''"
| "task_outcome_value O_FAIL = ''fail''"
| "task_outcome_value O_BLOCKED = ''blocked''"
| "task_outcome_value O_NO_VERDICT = ''no_verdict''"

definition all_task_outcomes :: "task_outcome list" where
  "all_task_outcomes = [O_PASS, O_ANSWERED, O_ESCALATED_PASS, O_ESCALATED_FAIL, O_FAIL, O_BLOCKED,
     O_NO_VERDICT]"

definition task_outcome_of :: "pyval \<Rightarrow> task_outcome py" where
  "task_outcome_of v =
     (case v of PStr s \<Rightarrow> enum_of task_outcome_value all_task_outcomes s | _ \<Rightarrow> Inl ValueError)"

definition task_succeeded :: "task_outcome \<Rightarrow> bool" where
  "task_succeeded o1 \<longleftrightarrow> o1 = O_PASS \<or> o1 = O_ESCALATED_PASS"

datatype terminal_state =
    T_COMPLETED | T_FAILED | T_BLOCKED | T_CANCELLED | T_TIMED_OUT | T_INTERRUPTED | T_UNKNOWN

fun terminal_state_value :: "terminal_state \<Rightarrow> string" where
  "terminal_state_value T_COMPLETED = ''completed''"
| "terminal_state_value T_FAILED = ''failed''"
| "terminal_state_value T_BLOCKED = ''blocked''"
| "terminal_state_value T_CANCELLED = ''cancelled''"
| "terminal_state_value T_TIMED_OUT = ''timed_out''"
| "terminal_state_value T_INTERRUPTED = ''interrupted''"
| "terminal_state_value T_UNKNOWN = ''unknown''"

definition all_terminal_states :: "terminal_state list" where
  "all_terminal_states = [T_COMPLETED, T_FAILED, T_BLOCKED, T_CANCELLED, T_TIMED_OUT,
     T_INTERRUPTED, T_UNKNOWN]"

datatype task_verdict = V_VERIFIED | V_FAILED | V_REFUSED | V_NO_VERDICT | V_NOT_REQUIRED

fun task_verdict_value :: "task_verdict \<Rightarrow> string" where
  "task_verdict_value V_VERIFIED = ''VERIFIED''"
| "task_verdict_value V_FAILED = ''FAILED''"
| "task_verdict_value V_REFUSED = ''REFUSED''"
| "task_verdict_value V_NO_VERDICT = ''NO_VERDICT''"
| "task_verdict_value V_NOT_REQUIRED = ''NOT_REQUIRED''"

definition all_task_verdicts :: "task_verdict list" where
  "all_task_verdicts = [V_VERIFIED, V_FAILED, V_REFUSED, V_NO_VERDICT, V_NOT_REQUIRED]"

lemma task_outcome_of_value [simp]: "task_outcome_of (PStr (task_outcome_value o1)) = Inr o1"
  by (cases o1) (simp_all add: task_outcome_of_def enum_of_def all_task_outcomes_def)

lemma task_outcome_of_Inr: "task_outcome_of v = Inr o1 \<longleftrightarrow> v = PStr (task_outcome_value o1)"
  by (auto simp: task_outcome_of_def dest!: enum_of_Inr split: pyval.splits)
     (metis task_outcome_of_def task_outcome_of_value pyval.case(4))

section \<open>Projection into the durable lifecycle\<close>

record projection =
  pj_state :: terminal_state
  pj_verdict :: task_verdict

fun project_outcome :: "task_outcome \<Rightarrow> projection" where
  \<comment> \<open>\<open>TASK_OUTCOME_PROJECTIONS\<close>\<close>
  "project_outcome O_PASS = \<lparr>pj_state = T_COMPLETED, pj_verdict = V_VERIFIED\<rparr>"
| "project_outcome O_ANSWERED = \<lparr>pj_state = T_COMPLETED, pj_verdict = V_NOT_REQUIRED\<rparr>"
| "project_outcome O_ESCALATED_PASS = \<lparr>pj_state = T_COMPLETED, pj_verdict = V_VERIFIED\<rparr>"
| "project_outcome O_ESCALATED_FAIL = \<lparr>pj_state = T_FAILED, pj_verdict = V_FAILED\<rparr>"
| "project_outcome O_FAIL = \<lparr>pj_state = T_FAILED, pj_verdict = V_FAILED\<rparr>"
| "project_outcome O_BLOCKED = \<lparr>pj_state = T_BLOCKED, pj_verdict = V_REFUSED\<rparr>"
| "project_outcome O_NO_VERDICT = \<lparr>pj_state = T_UNKNOWN, pj_verdict = V_NO_VERDICT\<rparr>"

definition UNREACHABLE_TERMINAL_STATES :: "terminal_state set" where
  "UNREACHABLE_TERMINAL_STATES = {T_CANCELLED, T_TIMED_OUT, T_INTERRUPTED}"

definition task_exit_code :: "task_outcome \<Rightarrow> nat" where
  "task_exit_code v =
     (if task_succeeded v \<or> v = O_ANSWERED then 0
      else if v = O_FAIL \<or> v = O_ESCALATED_FAIL then 1 else 2)"

text \<open>Only a verified outcome succeeds, and the declared-only states are never projected.\<close>

lemma projection_verified: "pj_verdict (project_outcome o1) = V_VERIFIED \<longleftrightarrow> task_succeeded o1"
  by (cases o1) (simp_all add: task_succeeded_def)

lemma projection_reachable:
  "pj_state (project_outcome o1) \<notin> UNREACHABLE_TERMINAL_STATES"
  by (cases o1) (simp_all add: UNREACHABLE_TERMINAL_STATES_def)

lemma exit_code_of_state:
  "task_exit_code o1 =
     (case pj_state (project_outcome o1) of T_COMPLETED \<Rightarrow> 0 | T_FAILED \<Rightarrow> 1 | _ \<Rightarrow> 2)"
  by (cases o1) (simp_all add: task_exit_code_def task_succeeded_def)

section \<open>Task results\<close>

record task_result =
  rs_task_id :: string
  rs_outcome :: task_outcome
  rs_answer :: string
  rs_verified :: bool
  rs_evidence :: "string list"
  rs_metrics :: pydict
  rs_ran :: bool
  rs_reason :: "string option"

definition mk_task_result ::
  "string \<Rightarrow> pyval \<Rightarrow> string \<Rightarrow> bool \<Rightarrow> string list \<Rightarrow> pydict \<Rightarrow> bool option \<Rightarrow> string option
   \<Rightarrow> task_result py" where
  "mk_task_result task_id raw answer verified evidence metrics verification_ran reason_code =
     py_bind (task_outcome_of raw) (\<lambda>o1.
       let ran = (case verification_ran of None \<Rightarrow> verified | Some b \<Rightarrow> b) in
       py_bind (case reason_code of
                  None \<Rightarrow> Inr None
                | Some rc \<Rightarrow> py_bind (require_nonempty_string (PStr rc)) (\<lambda>t. Inr (Some (py_strip t))))
         (\<lambda>reason.
           py_check (verified \<and> \<not> ran) ValueError (
           py_check (task_succeeded o1 \<noteq> verified) ValueError (
             Inr \<lparr>rs_task_id = task_id, rs_outcome = o1, rs_answer = answer, rs_verified = verified,
                  rs_evidence = evidence, rs_metrics = metrics, rs_ran = ran, rs_reason = reason\<rparr>))))"

definition result_ok :: "task_result \<Rightarrow> bool" where
  \<comment> \<open>what the constructor guarantees of every task result\<close>
  "result_ok r \<longleftrightarrow>
     (rs_verified r \<longleftrightarrow> task_succeeded (rs_outcome r)) \<and> (rs_verified r \<longrightarrow> rs_ran r)"

lemma mk_task_result_ok:
  "mk_task_result i v a ver ev ms vr rc = Inr r \<Longrightarrow>
     result_ok r \<and> v = PStr (task_outcome_value (rs_outcome r)) \<and> rs_task_id r = i
     \<and> rs_answer r = a \<and> rs_verified r = ver \<and> rs_evidence r = ev \<and> rs_metrics r = ms
     \<and> (vr = Some b \<longrightarrow> rs_ran r = b)"
  by (auto simp: mk_task_result_def py_bind_Inr_iff result_ok_def task_outcome_of_Inr Let_def)

lemma mk_task_result_Inr:
  assumes "ver \<longleftrightarrow> task_succeeded o1" and "ver \<longrightarrow> vr"
  shows "mk_task_result i (PStr (task_outcome_value o1)) a ver ev ms (Some vr) None =
    Inr \<lparr>rs_task_id = i, rs_outcome = o1, rs_answer = a, rs_verified = ver, rs_evidence = ev,
         rs_metrics = ms, rs_ran = vr, rs_reason = None\<rparr>"
  using assms by (simp add: mk_task_result_def)

record evidence_ref =
  er_task_id :: string
  er_evidence_id :: string

definition evidence_refs :: "task_result \<Rightarrow> evidence_ref list" where
  "evidence_refs r = map (\<lambda>i. \<lparr>er_task_id = rs_task_id r, er_evidence_id = i\<rparr>) (rs_evidence r)"

definition result_projection :: "task_result \<Rightarrow> projection" where
  "result_projection r = project_outcome (rs_outcome r)"

end
