(* ===== verification/Proof_Binding.thy ===== *)
theory Proof_Binding
  imports Contracts Run_Properties
begin

text \<open>
  \<open>session/proof_binding.py\<close>: the typed answer to what request was proved, by what kind of
  check and for which repository tree; how the answer is projected from a run, put into a
  task result and read back.  SHA-256 and the tree's git data are parameters.
\<close>

section \<open>Scopes\<close>

datatype proof_scope =
    SC_NONE | SC_FULL_BUILD | SC_FULL_TEST | SC_TARGETED_BUILD | SC_TARGETED_TEST
  | SC_OBSERVED_BUILD_FAILURE | SC_OBSERVED_TEST_FAILURE

fun proof_scope_value :: "proof_scope \<Rightarrow> string" where
  "proof_scope_value SC_NONE = ''none''"
| "proof_scope_value SC_FULL_BUILD = ''full_build''"
| "proof_scope_value SC_FULL_TEST = ''full_test''"
| "proof_scope_value SC_TARGETED_BUILD = ''targeted_build''"
| "proof_scope_value SC_TARGETED_TEST = ''targeted_test''"
| "proof_scope_value SC_OBSERVED_BUILD_FAILURE = ''observed_build_failure''"
| "proof_scope_value SC_OBSERVED_TEST_FAILURE = ''observed_test_failure''"

definition all_proof_scopes :: "proof_scope list" where
  "all_proof_scopes = [SC_NONE, SC_FULL_BUILD, SC_FULL_TEST, SC_TARGETED_BUILD, SC_TARGETED_TEST,
     SC_OBSERVED_BUILD_FAILURE, SC_OBSERVED_TEST_FAILURE]"

definition proof_scope_of :: "pyval \<Rightarrow> proof_scope py" where
  "proof_scope_of v =
     (case v of PStr s \<Rightarrow> enum_of proof_scope_value all_proof_scopes s | _ \<Rightarrow> Inl ValueError)"

lemma proof_scope_of_value [simp]: "proof_scope_of (PStr (proof_scope_value s)) = Inr s"
  by (cases s) (simp_all add: proof_scope_of_def enum_of_def all_proof_scopes_def)

fun scope_of_kind :: "proof_kind \<Rightarrow> proof_scope" where
  "scope_of_kind FULL_BUILD_PASS = SC_FULL_BUILD"
| "scope_of_kind FULL_TEST_PASS = SC_FULL_TEST"
| "scope_of_kind TARGETED_BUILD_PASS = SC_TARGETED_BUILD"
| "scope_of_kind TARGETED_TEST_PASS = SC_TARGETED_TEST"
| "scope_of_kind OBSERVED_BUILD_FAIL = SC_OBSERVED_BUILD_FAILURE"
| "scope_of_kind OBSERVED_TEST_FAIL = SC_OBSERVED_TEST_FAILURE"
| "scope_of_kind NO_CURRENT_PROOF = SC_NONE"

definition FULL_SCOPES :: "proof_scope set" where
  "FULL_SCOPES = {SC_FULL_BUILD, SC_FULL_TEST}"

lemma scope_of_kind_full [simp]: "scope_of_kind k \<in> FULL_SCOPES \<longleftrightarrow> k \<in> CURRENT_TREE_PROOFS"
  by (cases k) (simp_all add: FULL_SCOPES_def evidence_simps)

section \<open>The tree digest\<close>

datatype tree_entry = ENTRY_DELETED | ENTRY_FILE string | ENTRY_OTHER

fun tree_chunks :: "(string \<Rightarrow> tree_entry py) \<Rightarrow> string list \<Rightarrow> string py" where
  "tree_chunks entry [] = Inr []"
| "tree_chunks entry (name # names) =
     py_bind (entry name) (\<lambda>e.
       case e of
         ENTRY_OTHER \<Rightarrow> Inl ValueError
       | ENTRY_DELETED \<Rightarrow>
           py_bind (tree_chunks entry names) (\<lambda>rest. Inr (name @ [char_of (0::nat)] @ ''deleted'' @ [char_of (0::nat)] @ rest))
       | ENTRY_FILE content \<Rightarrow>
           py_bind (tree_chunks entry names) (\<lambda>rest. Inr (name @ [char_of (0::nat)] @ content @ [char_of (0::nat)] @ rest)))"

definition repository_tree_sha256 ::
  "(string \<Rightarrow> string) \<Rightarrow> string \<Rightarrow> string \<Rightarrow> string list \<Rightarrow> (string \<Rightarrow> tree_entry py) \<Rightarrow> string py" where
  \<comment> \<open>\<open>head\<close>, \<open>staged\<close> and the listed names are git's output; \<open>entry\<close> reads a path of the worktree\<close>
  "repository_tree_sha256 sha head staged names entry =
     py_bind (tree_chunks entry (sort (remdups (filter (\<lambda>n. n \<noteq> []) names))))
       (\<lambda>chunks. Inr (sha (head @ staged @ chunks)))"

section \<open>Bindings\<close>

record proof_binding =
  pb_request :: string
  pb_scope :: proof_scope
  pb_tree :: string
  pb_evidence :: "string list"

definition mk_proof_binding :: "pyval \<Rightarrow> pyval \<Rightarrow> pyval \<Rightarrow> pyval list \<Rightarrow> proof_binding py" where
  "mk_proof_binding request scope tree evidence =
     py_bind (require_sha256 request) (\<lambda>rq.
     py_bind (require_sha256 tree) (\<lambda>tr.
     py_bind (proof_scope_of scope) (\<lambda>sc.
     py_bind (require_string_tuple (PList evidence)) (\<lambda>ids.
       Inr \<lparr>pb_request = rq, pb_scope = sc, pb_tree = tr, pb_evidence = ids\<rparr>))))"

definition binding_dict :: "proof_binding \<Rightarrow> pydict" where
  "binding_dict b =
     [(''request_sha256'', PStr (pb_request b)), (''scope'', PStr (proof_scope_value (pb_scope b))),
      (''tree_sha256'', PStr (pb_tree b)), (''evidence_ids'', PList (map PStr (pb_evidence b)))]"

definition kind_or_none :: "tool_call_record \<Rightarrow> proof_kind" where
  \<comment> \<open>\<open>ProofKind(record.proof)\<close> with ValueError read as no proof\<close>
  "kind_or_none h = (case proof_kind_of (tc_proof h) of Inl e \<Rightarrow> NO_CURRENT_PROOF | Inr k \<Rightarrow> k)"

definition proof_candidates :: "agent_state \<Rightarrow> (nat \<times> proof_kind) list" where
  "proof_candidates st =
     map (\<lambda>(i, h). (i, kind_or_none h))
       (filter (\<lambda>(i, h). tc_epoch h = st_mutation_epoch st \<and> kind_or_none h \<noteq> NO_CURRENT_PROOF)
          (enumerate 0 (st_history st)))"

definition chosen_proof :: "agent_state \<Rightarrow> (nat \<times> proof_kind) option py" where
  "chosen_proof st =
     (let cs = proof_candidates st;
          full = filter (\<lambda>c. snd c \<in> CURRENT_TREE_PROOFS) cs
      in if st_verified st
         then (if full = [] then Inl RuntimeError else Inr (Some (last full)))
         else if cs \<noteq> [] then Inr (Some (last cs)) else Inr None)"

definition binding_from_run ::
  "(string \<Rightarrow> string) \<Rightarrow> string py \<Rightarrow> string \<Rightarrow> agent_state \<Rightarrow> nat \<Rightarrow> proof_binding py" where
  \<comment> \<open>\<open>sha\<close> is the hexadecimal digest; \<open>tree\<close> the outcome of \<open>repository_tree_sha256\<close>\<close>
  "binding_from_run sha tree task st evidence_offset =
     py_bind (chosen_proof st) (\<lambda>c.
     py_bind tree (\<lambda>t.
       mk_proof_binding (PStr (sha task))
         (PStr (proof_scope_value (case c of None \<Rightarrow> SC_NONE | Some (i, k) \<Rightarrow> scope_of_kind k)))
         (PStr t)
         (case c of None \<Rightarrow> []
          | Some (i, k) \<Rightarrow> [PStr (evidence_id (tc_name (st_history st ! i)) (evidence_offset + i))])))"

definition proof_binding_from_result :: "task_result \<Rightarrow> proof_binding option py" where
  "proof_binding_from_result r =
     (case py_get (rs_metrics r) ''proof_binding'' of
        PNone \<Rightarrow> Inr None
      | PDict d \<Rightarrow>
          if fst ` set d \<noteq> {''request_sha256'', ''scope'', ''tree_sha256'', ''evidence_ids''}
          then Inl ValueError
          else (case py_get d ''evidence_ids'' of
            PList ids \<Rightarrow>
              py_bind (proof_scope_of (py_get d ''scope'')) (\<lambda>sc.
              py_bind (mk_proof_binding (py_get d ''request_sha256'') (PStr (proof_scope_value sc))
                         (py_get d ''tree_sha256'') ids) (\<lambda>b.
                if \<exists>e \<in> set (pb_evidence b). e \<notin> set (rs_evidence r) then Inl ValueError
                else if rs_verified r \<and> pb_scope b \<notin> FULL_SCOPES then Inl ValueError
                else Inr (Some b)))
          | _ \<Rightarrow> Inl ValueError)
      | _ \<Rightarrow> Inl ValueError)"

section \<open>Rendering a result on the conversation surface (\<open>TaskResult.render\<close>)\<close>

definition render_result :: "task_result \<Rightarrow> string py" where
  "render_result r =
     (let proof = (if rs_verified r then ''passed at task completion''
                   else if rs_ran r then ''ran, did not establish success'' else ''not established'');
          reason = (case rs_reason r of Some (c # cs) \<Rightarrow> ''; reason: '' @ c # cs | _ \<Rightarrow> '''');
          detail = (if rs_verified r then ''Task detail:''
                    else if rs_outcome r = O_ANSWERED
                    then ''Read-only answer (not a verified engineering outcome):''
                    else ''Unverified task detail (not proof of a completed change):'')
      in py_bind
           (if has_key (rs_metrics r) ''proof_binding'' then
              py_bind (proof_binding_from_result r) (\<lambda>b. case b of
                 None \<Rightarrow> Inl ValueError
               | Some b \<Rightarrow> Inr (nl @ ''Proof scope: '' @ proof_scope_value (pb_scope b)
                            @ nl @ ''Request SHA-256: '' @ pb_request b
                            @ nl @ ''Tree SHA-256: '' @ pb_tree b))
            else Inr '''')
           (\<lambda>binding_lines.
              Inr (''[Controller: '' @ task_outcome_value (rs_outcome r) @ ''; verification: '' @ proof
                   @ reason @ ''; evidence: '' @ nat_str (length (rs_evidence r)) @ '' item(s); task: ''
                   @ rs_task_id r @ '']'' @ binding_lines @ nl @ ''Evidence IDs: ''
                   @ (if rs_evidence r = [] \<or> join '', '' (rs_evidence r) = [] then ''none''
                      else join '', '' (rs_evidence r))
                   @ nl @ nl @ detail @ nl @ rs_answer r)))"

section \<open>Lemmas\<close>

lemma mk_proof_binding_Inr:
  "mk_proof_binding rq sc tr ev = Inr b \<longleftrightarrow>
     rq = PStr (pb_request b) \<and> sha256_hex (pb_request b) \<and> tr = PStr (pb_tree b) \<and> sha256_hex (pb_tree b)
     \<and> proof_scope_of sc = Inr (pb_scope b) \<and> ev = map PStr (pb_evidence b) \<and> [] \<notin> set (pb_evidence b)"
  by (cases b) (auto simp: mk_proof_binding_def py_bind_Inr_iff require_sha256_Inr
      require_string_tuple_def string_items_Inr)

lemma binding_dict_get [simp]:
  "py_get (binding_dict b) ''request_sha256'' = PStr (pb_request b)"
  "py_get (binding_dict b) ''scope'' = PStr (proof_scope_value (pb_scope b))"
  "py_get (binding_dict b) ''tree_sha256'' = PStr (pb_tree b)"
  "py_get (binding_dict b) ''evidence_ids'' = PList (map PStr (pb_evidence b))"
  "fst ` set (binding_dict b) = {''request_sha256'', ''scope'', ''tree_sha256'', ''evidence_ids''}"
  by (simp_all add: binding_dict_def py_get_def)

lemma kind_or_none_record: "kind_or_none h = record_kind h"
  by (simp add: kind_or_none_def record_kind_def split: sum.splits)

lemma map_snd_enumerate_filter:
  "map (f \<circ> snd) (filter (\<lambda>p. P (snd p)) (enumerate n xs)) = map f (filter P xs)"
  by (induction xs arbitrary: n) auto

lemma candidate_kinds:
  "map snd (proof_candidates st) =
     map record_kind (filter (\<lambda>h. tc_epoch h = st_mutation_epoch st \<and> record_kind h \<noteq> NO_CURRENT_PROOF) (st_history st))"
proof -
  have "map snd (proof_candidates st) = map (record_kind \<circ> snd)
      (filter (\<lambda>p. tc_epoch (snd p) = st_mutation_epoch st \<and> record_kind (snd p) \<noteq> NO_CURRENT_PROOF)
        (enumerate 0 (st_history st)))"
    by (simp add: proof_candidates_def kind_or_none_record case_prod_beta' comp_def)
  then show ?thesis
    using map_snd_enumerate_filter [of record_kind
        "\<lambda>h. tc_epoch h = st_mutation_epoch st \<and> record_kind h \<noteq> NO_CURRENT_PROOF" 0 "st_history st"]
    by simp
qed

lemma candidate_index:
  assumes "(i, k) \<in> set (proof_candidates st)"
  shows "i < length (st_history st) \<and> k = record_kind (st_history st ! i)
    \<and> tc_epoch (st_history st ! i) = st_mutation_epoch st \<and> k \<noteq> NO_CURRENT_PROOF"
  using assms by (auto simp: proof_candidates_def kind_or_none_record in_set_enumerate_eq)

lemma last_filter_restrict:
  assumes "\<And>x. Q x \<Longrightarrow> P x" and "filter P xs \<noteq> []" and "Q (last (filter P xs))"
  shows "filter Q xs \<noteq> [] \<and> last (filter Q xs) = last (filter P xs)"
  using assms(2,3)
proof (induction xs rule: rev_induct)
  case (snoc x xs)
  then show ?case using assms(1)
    by (cases "P x") auto
qed simp

definition current_proofs :: "agent_state \<Rightarrow> tool_call_record list" where
  "current_proofs st =
     filter (\<lambda>h. tc_epoch h = st_mutation_epoch st \<and> record_kind h \<noteq> NO_CURRENT_PROOF) (st_history st)"

lemma last_candidate:
  assumes "proof_candidates st \<noteq> []"
  shows "snd (last (proof_candidates st)) = record_kind (last (current_proofs st)) \<and> current_proofs st \<noteq> []"
  using assms candidate_kinds [of st] by (metis current_proofs_def last_map map_is_Nil_conv)

lemma decisive_candidate:
  "record_kind h \<in> CURRENT_TREE_PROOFS \<Longrightarrow> tc_epoch h = e \<Longrightarrow> decisive e h"
  "decisive e h \<Longrightarrow> tc_epoch h = e \<and> record_kind h \<noteq> NO_CURRENT_PROOF"
  by (auto simp: decisive_def evidence_simps)

lemma last_full_candidate_verified:
  assumes "run_ok st" and "proof_candidates st \<noteq> []"
    and "snd (last (proof_candidates st)) \<in> CURRENT_TREE_PROOFS"
  shows "st_verified st"
proof -
  let ?e = "st_mutation_epoch st"
  from last_candidate [OF assms(2)] assms(3) have ne: "current_proofs st \<noteq> []"
    and k: "record_kind (last (current_proofs st)) \<in> CURRENT_TREE_PROOFS" by auto
  from last_filter_mem [OF ne [unfolded current_proofs_def]]
  have "tc_epoch (last (current_proofs st)) = ?e" by (simp add: current_proofs_def)
  with k have "decisive ?e (last (current_proofs st))" by (rule decisive_candidate)
  from last_filter_restrict [where Q = "decisive ?e" and xs = "st_history st"
      and P = "\<lambda>h. tc_epoch h = ?e \<and> record_kind h \<noteq> NO_CURRENT_PROOF",
      OF _ ne [unfolded current_proofs_def] this [unfolded current_proofs_def]]
  have "filter (decisive ?e) (st_history st) \<noteq> []
      \<and> last (filter (decisive ?e) (st_history st)) = last (current_proofs st)"
    using decisive_candidate(2) by (auto simp: current_proofs_def)
  with k have "proven_now (st_history st) ?e" by (simp add: proven_now_def Let_def)
  with assms(1) show ?thesis by (simp add: run_ok_def)
qed

lemma verified_has_full_candidate:
  assumes "run_ok st" and "st_verified st"
  shows "filter (\<lambda>c. snd c \<in> CURRENT_TREE_PROOFS) (proof_candidates st) \<noteq> []"
proof -
  let ?ds = "filter (decisive (st_mutation_epoch st)) (st_history st)"
  from assms have "?ds \<noteq> []" and k: "record_kind (last ?ds) \<in> CURRENT_TREE_PROOFS"
    by (auto simp: run_ok_def proven_now_def Let_def)
  from last_filter_mem [OF this(1)] have "last ?ds \<in> set (st_history st)"
    and "tc_epoch (last ?ds) = st_mutation_epoch st" by (auto simp: decisive_def)
  with k have "record_kind (last ?ds) \<in> set (map snd (proof_candidates st))"
    unfolding candidate_kinds by (auto simp: evidence_simps)
  with k show ?thesis by (auto simp: filter_empty_conv intro: bexI [rotated])
qed

lemma chosen_proof_cases:
  assumes "run_ok st"
  shows "\<exists>c. chosen_proof st = Inr c \<and>
    (case c of None \<Rightarrow> \<not> st_verified st
     | Some (i, k) \<Rightarrow> (i, k) \<in> set (proof_candidates st) \<and> (k \<in> CURRENT_TREE_PROOFS \<longleftrightarrow> st_verified st))"
proof (cases "st_verified st")
  case True
  let ?full = "filter (\<lambda>c. snd c \<in> CURRENT_TREE_PROOFS) (proof_candidates st)"
  from verified_has_full_candidate [OF assms True] have ne: "?full \<noteq> []" .
  from last_filter_mem [OF ne] have "last ?full \<in> set (proof_candidates st)"
    and "snd (last ?full) \<in> CURRENT_TREE_PROOFS" by auto
  with ne True show ?thesis
    by (auto simp: chosen_proof_def Let_def split: prod.splits)
next
  case False
  then show ?thesis
    using last_full_candidate_verified [OF assms] last_in_set [of "proof_candidates st"]
    by (cases "last (proof_candidates st)") (auto simp: chosen_proof_def Let_def)
qed

definition binding_ok :: "proof_binding \<Rightarrow> bool" where
  "binding_ok b \<longleftrightarrow> sha256_hex (pb_request b) \<and> sha256_hex (pb_tree b) \<and> [] \<notin> set (pb_evidence b)"

lemma evidence_id_ne [simp]: "evidence_id n i \<noteq> []"
  by (simp add: evidence_id_def)

section \<open>Properties\<close>

lemma binding_of_hashed_tree:
  assumes "run_ok st" and "sha256_hex (sha task)" and "sha256_hex t"
  shows "\<exists>b. binding_from_run sha (Inr t) task st off = Inr b \<and> binding_ok b
    \<and> pb_request b = sha task \<and> pb_tree b = t
    \<and> (pb_scope b \<in> FULL_SCOPES \<longleftrightarrow> st_verified st)
    \<and> (pb_evidence b = [] \<longleftrightarrow> pb_scope b = SC_NONE)
    \<and> (\<forall>x \<in> set (pb_evidence b). \<exists>i < length (st_history st). x = evidence_id (tc_name (st_history st ! i)) (off + i)
         \<and> tc_epoch (st_history st ! i) = st_mutation_epoch st
         \<and> scope_of_kind (record_kind (st_history st ! i)) = pb_scope b)"
proof -
  from chosen_proof_cases [OF assms(1)] obtain c where c: "chosen_proof st = Inr c"
    and cc: "case c of None \<Rightarrow> \<not> st_verified st
     | Some (i, k) \<Rightarrow> (i, k) \<in> set (proof_candidates st) \<and> (k \<in> CURRENT_TREE_PROOFS \<longleftrightarrow> st_verified st)" by blast
  show ?thesis
  proof (cases c)
    case None
    then have "binding_from_run sha (Inr t) task st off =
        Inr \<lparr>pb_request = sha task, pb_scope = SC_NONE, pb_tree = t, pb_evidence = []\<rparr>"
      using assms(2,3) proof_scope_of_value [of SC_NONE]
      by (simp add: binding_from_run_def c mk_proof_binding_Inr)
    with None cc assms(2,3) show ?thesis by (simp add: FULL_SCOPES_def binding_ok_def)
  next
    case (Some p)
    then obtain i k where p: "c = Some (i, k)" by (cases p) auto
    with cc candidate_index [of i k st] have i: "i < length (st_history st)"
      and k: "k = record_kind (st_history st ! i)" "tc_epoch (st_history st ! i) = st_mutation_epoch st"
        "k \<noteq> NO_CURRENT_PROOF" "k \<in> CURRENT_TREE_PROOFS \<longleftrightarrow> st_verified st" by auto
    have "binding_from_run sha (Inr t) task st off =
        Inr \<lparr>pb_request = sha task, pb_scope = scope_of_kind k, pb_tree = t,
             pb_evidence = [evidence_id (tc_name (st_history st ! i)) (off + i)]\<rparr>"
      using assms(2,3) p by (simp add: binding_from_run_def c mk_proof_binding_Inr not_sym [OF evidence_id_ne])
    moreover have "scope_of_kind k \<noteq> SC_NONE" using k(3) by (cases k) auto
    ultimately show ?thesis
      using i k assms(2,3) by (auto simp: binding_ok_def not_sym [OF evidence_id_ne])
  qed
qed

text \<open>C6: projecting the proof of a run the orchestrator left behind fails only where the repository
  tree cannot be hashed, and then with the error of hashing it. When the tree has a digest the binding
  names the request and that digest, its scope is a full one exactly when the run is verified, and
  the evidence it cites is a recorded call of the current epoch whose kind is the scope. The request's
  digest and the tree's are 64 lower-case hexadecimal digits, as SHA-256 gives them.\<close>

theorem run_binding_matches_verification:
  assumes ok: "run_ok st" and request: "sha256_hex (sha task)"
    and digest: "\<And>t. tree = Inr t \<Longrightarrow> sha256_hex t"
  shows "case tree of Inl e \<Rightarrow> binding_from_run sha tree task st off = Inl e
    | Inr t \<Rightarrow> \<exists>b. binding_from_run sha tree task st off = Inr b \<and> binding_ok b
      \<and> pb_request b = sha task \<and> pb_tree b = t
      \<and> (pb_scope b \<in> FULL_SCOPES \<longleftrightarrow> st_verified st)
      \<and> (pb_evidence b = [] \<longleftrightarrow> pb_scope b = SC_NONE)
      \<and> (\<forall>x \<in> set (pb_evidence b). \<exists>i < length (st_history st). x = evidence_id (tc_name (st_history st ! i)) (off + i)
           \<and> tc_epoch (st_history st ! i) = st_mutation_epoch st
           \<and> scope_of_kind (record_kind (st_history st ! i)) = pb_scope b)"
proof (cases tree)
  case (Inl e)
  from chosen_proof_cases [OF ok] Inl show ?thesis by (auto simp: binding_from_run_def)
next
  case (Inr t)
  from digest [OF Inr] binding_of_hashed_tree [where sha = sha and task = task and t = t and off = off, OF ok request] Inr show ?thesis by simp
qed

definition demo_sha :: "string \<Rightarrow> string" where
  "demo_sha s = replicate 64 (CHR ''a'')"

lemma demo_sha_hex [simp]: "sha256_hex (demo_sha s)"
  by (simp add: demo_sha_def sha256_hex_def list_all_iff is_lower_hex_def)

theorem run_binding_matches_verification_witness:
  "\<exists>r b. execute_all demo_orch False demo_batch (fresh_run [] 0) = Inr r
     \<and> binding_from_run demo_sha (Inr (demo_sha [])) ''fix it'' (r_state r) 0 = Inr b
     \<and> st_verified (r_state r) \<and> pb_scope b \<in> FULL_SCOPES"
proof -
  have "returns (\<lambda>r. st_verified (r_state r)) (execute_all demo_orch False demo_batch (fresh_run [] 0))"
    by code_simp
  then obtain r where r: "execute_all demo_orch False demo_batch (fresh_run [] 0) = Inr r"
    and v: "st_verified (r_state r)" by (rule returnsE)
  have "sha256_hex t" if "Inr (demo_sha []) = (Inr t :: string py)" for t
    using that demo_sha_hex [of "[]"] by simp
  from run_binding_matches_verification [where sha = demo_sha and task = "''fix it''" and off = 0
      and tree = "Inr (demo_sha [])", OF execute_all_ok [OF run_ok_fresh r] demo_sha_hex this] v
  obtain b where "binding_from_run demo_sha (Inr (demo_sha [])) ''fix it'' (r_state r) 0 = Inr b"
    "pb_scope b \<in> FULL_SCOPES" by auto
  with r v show ?thesis by blast
qed

text \<open>a binding written into a task result is read back as the same binding exactly when it
  is well formed, cites only evidence the result lists, and, for a verified result, has a full
  scope; every other combination is refused with ValueError.\<close>

theorem binding_read_back:
  "proof_binding_from_result (r\<lparr>rs_metrics := py_set ms ''proof_binding'' (PDict (binding_dict b))\<rparr>) =
     (if binding_ok b \<and> set (pb_evidence b) \<subseteq> set (rs_evidence r) \<and> (rs_verified r \<longrightarrow> pb_scope b \<in> FULL_SCOPES)
      then Inr (Some b) else Inl ValueError)"
proof -
  let ?m = "mk_proof_binding (PStr (pb_request b)) (PStr (proof_scope_value (pb_scope b)))
      (PStr (pb_tree b)) (map PStr (pb_evidence b))"
  have m: "?m = (if binding_ok b then Inr b else Inl ValueError)"
  proof (cases "binding_ok b")
    case True
    then show ?thesis by (simp add: mk_proof_binding_Inr binding_ok_def)
  next
    case False
    have "?m \<noteq> Inr b'" for b'
      using False by (auto simp: mk_proof_binding_Inr binding_ok_def inj_def dest!: map_injective)
    moreover have "e = ValueError" if "?m = Inl e" for e
      using that by (auto simp: mk_proof_binding_def py_bind_def require_sha256_def require_string_tuple_def
          split: sum.splits if_splits dest: string_items_Inl)
    ultimately show ?thesis using False by (cases ?m) auto
  qed
  then show ?thesis
    by (auto simp: proof_binding_from_result_def)
qed

text \<open>A verified result that claims a full proof it has evidence for, and one whose binding claims none.\<close>

definition demo_verified :: task_result where
  "demo_verified = \<lparr>rs_task_id = ''t'', rs_outcome = O_PASS, rs_answer = ''ok'', rs_verified = True,
     rs_evidence = [''e1''], rs_metrics = [], rs_ran = True, rs_reason = None\<rparr>"

theorem binding_read_back_witness:
  "proof_binding_from_result (demo_verified\<lparr>rs_metrics := py_set [] ''proof_binding'' (PDict (binding_dict
       \<lparr>pb_request = demo_sha [], pb_scope = SC_NONE, pb_tree = demo_sha [], pb_evidence = []\<rparr>))\<rparr>)
     = Inl ValueError"
  by (subst binding_read_back) (simp add: demo_verified_def FULL_SCOPES_def)

end
