(* ===== verification/Results.thy ===== *)
theory Results
  imports Proof_Binding "HOL-Library.Sublist"
begin

text \<open>
  \<open>session/results.py\<close>: the deterministic verdict block rendered from a typed task result,
  with its closed reasons, its size limits and the packing of evidence ids into lines.
\<close>

section \<open>Limits and reasons\<close>

definition MAX_SCOPE_CHARS :: nat where "MAX_SCOPE_CHARS = 512"
definition MAX_EVIDENCE_IDS :: nat where "MAX_EVIDENCE_IDS = 128"
definition MAX_EVIDENCE_ID_CHARS :: nat where "MAX_EVIDENCE_ID_CHARS = 256"
definition MAX_RENDERED_LINES :: nat where "MAX_RENDERED_LINES = 12"
definition MAX_RENDERED_LINE_CHARS :: nat where "MAX_RENDERED_LINE_CHARS = 2048"

lemmas limits =
  MAX_SCOPE_CHARS_def MAX_EVIDENCE_IDS_def MAX_EVIDENCE_ID_CHARS_def MAX_RENDERED_LINES_def
  MAX_RENDERED_LINE_CHARS_def

datatype verdict_reason =
    VR_NONE | VR_REQUESTED | VR_COMPLETED | VR_POLICY_DENIED | VR_USER_DENIED | VR_MISSING_DEPENDENCY
  | VR_INVALID_INPUT | VR_UNAVAILABLE_CAPABILITY | VR_ROUTING_UNCERTAIN | VR_ENDPOINT_UNAVAILABLE
  | VR_INFERENCE_TIMEOUT | VR_TOOL_TIMEOUT | VR_TASK_TIMEOUT | VR_CANCELLED | VR_CLEANUP_UNKNOWN
  | VR_CONTROLLER_RESTARTED | VR_CONTROLLER_FAULT | VR_DURABLE_WRITE_FAILED | VR_CANCEL_UNRECONCILED
  | VR_CONTROLLER_CRASH | VR_VERIFICATION_FAILED | VR_VERIFICATION_PASSED
  | VR_VERIFICATION_NOT_REQUIRED | VR_MISSING_EVIDENCE | VR_STALE_EVIDENCE | VR_STORAGE_ERROR
  | VR_PROTOCOL_MISMATCH | VR_SCOPE_CHANGED | VR_QUEUE_FULL | VR_WATCH_OVERLAP | VR_MISSED_SCHEDULE
  | VR_NO_PREVIOUS_RUN | VR_CONTRACT_CHANGED

fun verdict_reason_value :: "verdict_reason \<Rightarrow> string" where
  "verdict_reason_value VR_NONE = ''none''"
| "verdict_reason_value VR_REQUESTED = ''requested''"
| "verdict_reason_value VR_COMPLETED = ''completed''"
| "verdict_reason_value VR_POLICY_DENIED = ''policy_denied''"
| "verdict_reason_value VR_USER_DENIED = ''user_denied''"
| "verdict_reason_value VR_MISSING_DEPENDENCY = ''missing_dependency''"
| "verdict_reason_value VR_INVALID_INPUT = ''invalid_input''"
| "verdict_reason_value VR_UNAVAILABLE_CAPABILITY = ''unavailable_capability''"
| "verdict_reason_value VR_ROUTING_UNCERTAIN = ''routing_uncertain''"
| "verdict_reason_value VR_ENDPOINT_UNAVAILABLE = ''endpoint_unavailable''"
| "verdict_reason_value VR_INFERENCE_TIMEOUT = ''inference_timeout''"
| "verdict_reason_value VR_TOOL_TIMEOUT = ''tool_timeout''"
| "verdict_reason_value VR_TASK_TIMEOUT = ''task_timeout''"
| "verdict_reason_value VR_CANCELLED = ''cancelled''"
| "verdict_reason_value VR_CLEANUP_UNKNOWN = ''cleanup_unknown''"
| "verdict_reason_value VR_CONTROLLER_RESTARTED = ''controller_restarted''"
| "verdict_reason_value VR_CONTROLLER_FAULT = ''controller_fault''"
| "verdict_reason_value VR_DURABLE_WRITE_FAILED = ''durable_write_failed''"
| "verdict_reason_value VR_CANCEL_UNRECONCILED = ''cancel_unreconciled''"
| "verdict_reason_value VR_CONTROLLER_CRASH = ''controller_crash''"
| "verdict_reason_value VR_VERIFICATION_FAILED = ''verification_failed''"
| "verdict_reason_value VR_VERIFICATION_PASSED = ''verification_passed''"
| "verdict_reason_value VR_VERIFICATION_NOT_REQUIRED = ''verification_not_required''"
| "verdict_reason_value VR_MISSING_EVIDENCE = ''missing_evidence''"
| "verdict_reason_value VR_STALE_EVIDENCE = ''stale_evidence''"
| "verdict_reason_value VR_STORAGE_ERROR = ''storage_error''"
| "verdict_reason_value VR_PROTOCOL_MISMATCH = ''protocol_mismatch''"
| "verdict_reason_value VR_SCOPE_CHANGED = ''scope_changed''"
| "verdict_reason_value VR_QUEUE_FULL = ''queue_full''"
| "verdict_reason_value VR_WATCH_OVERLAP = ''watch_overlap''"
| "verdict_reason_value VR_MISSED_SCHEDULE = ''missed_schedule''"
| "verdict_reason_value VR_NO_PREVIOUS_RUN = ''no_previous_run''"
| "verdict_reason_value VR_CONTRACT_CHANGED = ''contract_changed''"

definition all_verdict_reasons :: "verdict_reason list" where
  "all_verdict_reasons =
     [VR_NONE, VR_REQUESTED, VR_COMPLETED, VR_POLICY_DENIED, VR_USER_DENIED, VR_MISSING_DEPENDENCY,
      VR_INVALID_INPUT, VR_UNAVAILABLE_CAPABILITY, VR_ROUTING_UNCERTAIN, VR_ENDPOINT_UNAVAILABLE,
      VR_INFERENCE_TIMEOUT, VR_TOOL_TIMEOUT, VR_TASK_TIMEOUT, VR_CANCELLED, VR_CLEANUP_UNKNOWN,
      VR_CONTROLLER_RESTARTED, VR_CONTROLLER_FAULT, VR_DURABLE_WRITE_FAILED, VR_CANCEL_UNRECONCILED,
      VR_CONTROLLER_CRASH, VR_VERIFICATION_FAILED, VR_VERIFICATION_PASSED,
      VR_VERIFICATION_NOT_REQUIRED, VR_MISSING_EVIDENCE, VR_STALE_EVIDENCE, VR_STORAGE_ERROR,
      VR_PROTOCOL_MISMATCH, VR_SCOPE_CHANGED, VR_QUEUE_FULL, VR_WATCH_OVERLAP, VR_MISSED_SCHEDULE,
      VR_NO_PREVIOUS_RUN, VR_CONTRACT_CHANGED]"

definition verdict_reason_of :: "string \<Rightarrow> verdict_reason py" where
  "verdict_reason_of = enum_of verdict_reason_value all_verdict_reasons"

fun current_reason :: "task_verdict \<Rightarrow> verdict_reason" where
  \<comment> \<open>\<open>_CURRENT_REASON_BY_VERDICT\<close>\<close>
  "current_reason V_VERIFIED = VR_VERIFICATION_PASSED"
| "current_reason V_FAILED = VR_VERIFICATION_FAILED"
| "current_reason V_REFUSED = VR_POLICY_DENIED"
| "current_reason V_NO_VERDICT = VR_CLEANUP_UNKNOWN"
| "current_reason V_NOT_REQUIRED = VR_VERIFICATION_NOT_REQUIRED"

fun allowed_reasons :: "task_verdict \<Rightarrow> verdict_reason list" where
  \<comment> \<open>\<open>_ALLOWED_REASONS_BY_VERDICT\<close>\<close>
  "allowed_reasons V_VERIFIED = [VR_VERIFICATION_PASSED]"
| "allowed_reasons V_FAILED =
     [VR_VERIFICATION_FAILED, VR_MISSING_EVIDENCE, VR_STALE_EVIDENCE, VR_PROTOCOL_MISMATCH,
      VR_SCOPE_CHANGED]"
| "allowed_reasons V_REFUSED =
     [VR_POLICY_DENIED, VR_USER_DENIED, VR_MISSING_DEPENDENCY, VR_INVALID_INPUT,
      VR_UNAVAILABLE_CAPABILITY, VR_ROUTING_UNCERTAIN, VR_TOOL_TIMEOUT, VR_TASK_TIMEOUT,
      VR_CANCELLED, VR_QUEUE_FULL]"
| "allowed_reasons V_NO_VERDICT =
     [VR_CLEANUP_UNKNOWN, VR_CONTROLLER_RESTARTED, VR_CONTROLLER_FAULT, VR_DURABLE_WRITE_FAILED,
      VR_CANCEL_UNRECONCILED, VR_CANCELLED, VR_CONTROLLER_CRASH, VR_ENDPOINT_UNAVAILABLE,
      VR_INFERENCE_TIMEOUT, VR_TOOL_TIMEOUT, VR_TASK_TIMEOUT, VR_MISSING_EVIDENCE,
      VR_PROTOCOL_MISMATCH, VR_STORAGE_ERROR, VR_CONTRACT_CHANGED]"
| "allowed_reasons V_NOT_REQUIRED = [VR_VERIFICATION_NOT_REQUIRED]"

lemma current_reason_allowed: "current_reason v \<in> set (allowed_reasons v)"
  by (cases v) simp_all

section \<open>Checks and lines\<close>

definition tree_sha256_of :: "pyval \<Rightarrow> string option py" where
  \<comment> \<open>\<open>_tree_sha256\<close>\<close>
  "tree_sha256_of v =
     (case v of PNone \<Rightarrow> Inr None
      | PStr s \<Rightarrow> if sha256_hex s then Inr (Some s) else Inl ValueError
      | _ \<Rightarrow> Inl ValueError)"

definition verification_line :: "bool \<Rightarrow> bool \<Rightarrow> task_verdict \<Rightarrow> string" where
  "verification_line verified vran verdict =
     (if verdict = V_NOT_REQUIRED then ''Verification: not required by controller contract.''
      else if verified then ''Verification: passed at task completion.''
      else if vran then ''Verification: ran but did not establish success.''
      else ''Verification: not established.'')"

definition check_evidence_ids :: "string list \<Rightarrow> string list py" where
  "check_evidence_ids ids =
     py_check (length ids > MAX_EVIDENCE_IDS) ValueError (
     py_bind (string_items (map PStr ids)) (\<lambda>ss.
     py_check (\<exists>s \<in> set ss. length s > MAX_EVIDENCE_ID_CHARS) ValueError (Inr ss)))"

definition fresh_line :: "string \<Rightarrow> bool" where
  \<comment> \<open>\<open>current.endswith(": ")\<close>\<close>
  "fresh_line s \<longleftrightarrow> take 2 (rev s) = '' :''"

fun pack_evidence :: "nat \<Rightarrow> string list \<Rightarrow> string list \<Rightarrow> string \<Rightarrow> string list py" where
  \<comment> \<open>the loop of \<open>_evidence_lines\<close>: finished lines and the line under construction\<close>
  "pack_evidence avail [] lines current =
     (if length (lines @ [current]) > avail then Inl ValueError else Inr (lines @ [current]))"
| "pack_evidence avail (i # ids) lines current =
     (let candidate = current @ (if fresh_line current then '''' else '', '') @ i
      in if length candidate \<le> MAX_RENDERED_LINE_CHARS then pack_evidence avail ids lines candidate
         else if fresh_line current then Inl ValueError
         else if length (lines @ [current]) \<ge> avail then Inl ValueError
         else if length (''Evidence (cont.): '' @ i) > MAX_RENDERED_LINE_CHARS then Inl ValueError
         else pack_evidence avail ids (lines @ [current]) (''Evidence (cont.): '' @ i))"

definition evidence_lines :: "string list \<Rightarrow> int \<Rightarrow> string list py" where
  "evidence_lines ids available =
     (if available < 1 then Inl ValueError
      else if ids = [] then Inr [''Evidence: none.'']
      else pack_evidence (nat available) ids [] ''Evidence: '')"

section \<open>Verdict blocks\<close>

record verdict_block =
  vb_verdict :: task_verdict
  vb_reason :: verdict_reason
  vb_scope :: string
  vb_evidence :: "string list"
  vb_tree :: "string option"
  vb_lines :: "string list"

definition line_ok :: "string \<Rightarrow> bool" where
  "line_ok s \<longleftrightarrow> s \<noteq> [] \<and> length s \<le> MAX_RENDERED_LINE_CHARS
     \<and> char_of (10::nat) \<notin> set s \<and> char_of (13::nat) \<notin> set s"

definition mk_verdict_block ::
  "task_verdict \<Rightarrow> verdict_reason \<Rightarrow> string \<Rightarrow> string list \<Rightarrow> string option \<Rightarrow> string list
   \<Rightarrow> verdict_block py" where
  "mk_verdict_block verdict reason scope ids tree lines =
     py_bind (require_nonempty_string (PStr scope)) (\<lambda>sc.
     py_check (length sc > MAX_SCOPE_CHARS) ValueError (
     py_bind (check_evidence_ids ids) (\<lambda>ids'.
     py_bind (tree_sha256_of (case tree of None \<Rightarrow> PNone | Some t \<Rightarrow> PStr t)) (\<lambda>tr.
     py_check (lines = [] \<or> length lines > MAX_RENDERED_LINES) ValueError (
     py_check (\<exists>l \<in> set lines. \<not> line_ok l) ValueError (
       Inr \<lparr>vb_verdict = verdict, vb_reason = reason, vb_scope = sc, vb_evidence = ids',
            vb_tree = tr, vb_lines = lines\<rparr>))))))"

definition block_payload :: "verdict_block \<Rightarrow> pydict" where
  "block_payload b =
     [(''verdict'', PStr (task_verdict_value (vb_verdict b))),
      (''reason_code'', PStr (verdict_reason_value (vb_reason b))),
      (''scope'', PStr (vb_scope b)),
      (''evidence_ids'', PList (map PStr (vb_evidence b))),
      (''tree_sha256'', (case vb_tree b of None \<Rightarrow> PNone | Some t \<Rightarrow> PStr t)),
      (''rendered_lines'', PList (map PStr (vb_lines b)))]"

definition UNBOUND_RESULT_SCOPE :: string where
  "UNBOUND_RESULT_SCOPE = ''controller task result at durable completion''"

definition block_reason :: "task_result \<Rightarrow> verdict_reason py" where
  "block_reason r =
     (let verdict = pj_verdict (result_projection r) in
      case rs_reason r of
        None \<Rightarrow> Inr (current_reason verdict)
      | Some rc \<Rightarrow>
          py_bind (verdict_reason_of rc) (\<lambda>reason.
            py_check (reason \<notin> set (allowed_reasons verdict)) ValueError (Inr reason)))"

definition head_lines ::
  "task_result \<Rightarrow> verdict_reason \<Rightarrow> string option \<Rightarrow> proof_binding option \<Rightarrow> string list" where
  "head_lines r reason tree binding =
     (let verdict = pj_verdict (result_projection r) in
      [task_verdict_value verdict @ '': '' @ task_outcome_value (rs_outcome r) @ ''.'',
       ''Reason: '' @ verdict_reason_value reason @ ''.'',
       verification_line (rs_verified r) (rs_ran r) verdict,
       ''Tree SHA-256: '' @ (case tree of None \<Rightarrow> ''none'' | Some t \<Rightarrow> t) @ ''.'']
      @ (case binding of None \<Rightarrow> []
         | Some b \<Rightarrow> [''Proof scope: '' @ proof_scope_value (pb_scope b) @ ''; request: '' @ pb_request b @ ''.'']))"

definition verdict_block_from_task_result :: "task_result \<Rightarrow> string \<Rightarrow> verdict_block py" where
  "verdict_block_from_task_result r default_scope =
     py_bind (block_reason r) (\<lambda>reason.
     py_bind (check_evidence_ids (rs_evidence r)) (\<lambda>ids.
     py_bind (proof_binding_from_result r) (\<lambda>binding.
     py_bind (case binding of
                Some b \<Rightarrow> Inr (Some (pb_tree b),
                            proof_scope_value (pb_scope b) @ ''; request_sha256='' @ pb_request b)
              | None \<Rightarrow> py_bind (tree_sha256_of (py_get (rs_metrics r) ''tree_sha256''))
                          (\<lambda>t. Inr (t, default_scope))) (\<lambda>(tree, scope).
     let lines = head_lines r reason tree binding in
     py_bind (evidence_lines ids (int MAX_RENDERED_LINES - int (length lines))) (\<lambda>more.
       mk_verdict_block (pj_verdict (result_projection r)) reason scope ids tree (lines @ more))))))"

section \<open>What the packing and the block guarantee\<close>

lemma pack_evidence_bounds:
  "pack_evidence avail ids lines current = Inr out \<Longrightarrow>
     (\<forall>l \<in> set lines. length l \<le> MAX_RENDERED_LINE_CHARS) \<Longrightarrow> length current \<le> MAX_RENDERED_LINE_CHARS \<Longrightarrow>
     length out \<le> avail \<and> (\<forall>l \<in> set out. length l \<le> MAX_RENDERED_LINE_CHARS) \<and> out \<noteq> []"
  by (induction avail ids lines current arbitrary: out rule: pack_evidence.induct)
     (auto simp: Let_def split: if_splits)

lemma pack_evidence_Inl: "pack_evidence avail ids lines current = Inl e \<Longrightarrow> e = ValueError"
  by (induction avail ids lines current rule: pack_evidence.induct) (auto simp: Let_def split: if_splits)

lemma evidence_lines_bounds:
  assumes "evidence_lines ids available = Inr out"
  shows "int (length out) \<le> available \<and> (\<forall>l \<in> set out. length l \<le> MAX_RENDERED_LINE_CHARS) \<and> out \<noteq> []"
  using assms
  by (auto simp: evidence_lines_def limits dest!: pack_evidence_bounds split: if_splits)

definition block_ok :: "verdict_block \<Rightarrow> bool" where
  "block_ok b \<longleftrightarrow>
     vb_lines b \<noteq> [] \<and> length (vb_lines b) \<le> MAX_RENDERED_LINES \<and> (\<forall>l \<in> set (vb_lines b). line_ok l)
     \<and> py_strip (vb_scope b) \<noteq> [] \<and> length (vb_scope b) \<le> MAX_SCOPE_CHARS
     \<and> length (vb_evidence b) \<le> MAX_EVIDENCE_IDS
     \<and> (\<forall>i \<in> set (vb_evidence b). i \<noteq> [] \<and> length i \<le> MAX_EVIDENCE_ID_CHARS)
     \<and> (\<forall>t. vb_tree b = Some t \<longrightarrow> sha256_hex t)"

lemma check_evidence_ids_Inr:
  "check_evidence_ids ids = Inr ss \<longleftrightarrow>
     ss = ids \<and> length ids \<le> MAX_EVIDENCE_IDS \<and> (\<forall>i \<in> set ids. i \<noteq> [] \<and> length i \<le> MAX_EVIDENCE_ID_CHARS)"
  by (auto simp: check_evidence_ids_def py_bind_Inr_iff string_items_Inr inj_def dest!: map_injective)

lemma tree_sha256_of_Inr:
  "tree_sha256_of v = Inr t \<longleftrightarrow> (v = PNone \<and> t = None) \<or> (\<exists>s. v = PStr s \<and> t = Some s \<and> sha256_hex s)"
  by (auto simp: tree_sha256_of_def split: pyval.splits)

lemma mk_verdict_block_Inr:
  "mk_verdict_block v rs sc ids tr ls = Inr b \<Longrightarrow>
     block_ok b \<and> b = \<lparr>vb_verdict = v, vb_reason = rs, vb_scope = sc, vb_evidence = ids, vb_tree = tr, vb_lines = ls\<rparr>"
  by (auto simp: mk_verdict_block_def py_bind_Inr_iff require_nonempty_string_Inr check_evidence_ids_Inr
      tree_sha256_of_Inr block_ok_def split: option.splits)

subsection \<open>The evidence lines list the ids in order\<close>

lemma join_snoc: "g \<noteq> [] \<Longrightarrow> join sep (g @ [i]) = join sep g @ sep @ i"
  by (induction sep g rule: join.induct) auto

lemma fresh_join:
  assumes "i \<noteq> []" "\<not> fresh_line i" and "take 1 (rev lab) = '' ''"
  shows "\<not> fresh_line (lab @ i)"
proof (cases i rule: rev_cases)
  case (snoc ys y)
  then show ?thesis
    using assms by (cases ys rule: rev_cases; cases lab rule: rev_cases) (auto simp: fresh_line_def)
qed (use assms in simp)

definition evidence_line :: "bool \<Rightarrow> string list \<Rightarrow> string" where
  "evidence_line first g = (if first then ''Evidence: '' else ''Evidence (cont.): '') @ join '', '' g"

definition labelled :: "bool \<Rightarrow> string list list \<Rightarrow> string list" where
  \<comment> \<open>the lines of the given groups of ids; only the first line of a block is not a continuation\<close>
  "labelled first gs = (case gs of [] \<Rightarrow> [] | g # rest \<Rightarrow> evidence_line first g # map (evidence_line False) rest)"

definition plain_id :: "string \<Rightarrow> bool" where
  \<comment> \<open>a nonempty id that does not end in \<open>": "\<close>\<close>
  "plain_id j \<longleftrightarrow> j \<noteq> [] \<and> \<not> fresh_line j"

lemma evidence_line_not_fresh:
  assumes "g \<noteq> []" "\<forall>j \<in> set g. plain_id j"
  shows "\<not> fresh_line (evidence_line first g)"
proof (cases g rule: rev_cases)
  case (snoc ys y)
  define lab where "lab = (if first then ''Evidence: '' else ''Evidence (cont.): '')
      @ (if ys = [] then [] else join '', '' ys @ '', '')"
  have "evidence_line first g = lab @ y"
    by (simp add: evidence_line_def lab_def snoc join_snoc)
  moreover have "take 1 (rev lab) = '' ''" by (simp add: lab_def)
  ultimately show ?thesis
    using assms(2) snoc fresh_join [of y lab] by (simp add: plain_id_def)
qed (use assms in simp)

lemma evidence_line_snoc:
  assumes "\<forall>j \<in> set (g @ [i]). plain_id j" and "g \<noteq> [] \<or> first"
  shows "evidence_line first g @ (if fresh_line (evidence_line first g) then [] else '', '') @ i
           = evidence_line first (g @ [i])"
proof (cases "g = []")
  case True
  with assms(2) show ?thesis by (simp add: evidence_line_def fresh_line_def)
next
  case False
  with evidence_line_not_fresh [of g first] assms(1) show ?thesis
    by (simp add: evidence_line_def join_snoc)
qed

lemma pack_evidence_groups:
  assumes "pack_evidence avail ids lines (evidence_line first g) = Inr out"
    and "\<forall>j \<in> set (g @ ids). plain_id j" and "g \<noteq> [] \<or> first"
  shows "\<exists>g' gs. out = lines @ labelled first (g' # gs) \<and> concat (g' # gs) = g @ ids"
  using assms
proof (induction ids arbitrary: lines first g)
  case Nil
  then have "out = lines @ labelled first (g # []) \<and> concat (g # []) = g @ []"
    by (auto simp: labelled_def split: if_splits)
  then show ?case by blast
next
  case (Cons i ids)
  have valid: "\<forall>j \<in> set (g @ [i]). plain_id j" using Cons.prems(2) by auto
  note line = evidence_line_snoc [OF valid Cons.prems(3)]
  have cont: "''Evidence (cont.): '' @ i = evidence_line False [i]" by (simp add: evidence_line_def)
  note step = Cons.prems(1) [unfolded pack_evidence.simps(2) Let_def line cont]
  show ?case
  proof (cases "length (evidence_line first (g @ [i])) \<le> MAX_RENDERED_LINE_CHARS")
    case True
    with step have "pack_evidence avail ids lines (evidence_line first (g @ [i])) = Inr out" by simp
    from Cons.IH [OF this] Cons.prems(2) show ?thesis by auto
  next
    case False
    with step have
      "pack_evidence avail ids (lines @ [evidence_line first g]) (evidence_line False [i]) = Inr out"
      by (simp split: if_splits)
    from Cons.IH [OF this] Cons.prems(2) obtain g' gs where
      "out = (lines @ [evidence_line first g]) @ labelled False (g' # gs)" and "concat (g' # gs) = [i] @ ids"
      by auto
    then have "out = lines @ labelled first (g # g' # gs) \<and> concat (g # g' # gs) = g @ i # ids"
      by (simp add: labelled_def)
    then show ?thesis by blast
  qed
qed

section \<open>Properties\<close>

text \<open>The lines rendered for the evidence of a verdict list every id of the result, each
  exactly once and in order, separated by commas and broken into at most the available number
  of lines of at most 2048 characters.\<close>
lemma evidence_lines_list_all_ids:
  assumes "evidence_lines ids available = Inr out" and "ids \<noteq> []" and "\<forall>j \<in> set ids. plain_id j"
  shows "\<exists>gs. out = labelled True gs \<and> concat gs = ids \<and> int (length out) \<le> available
    \<and> (\<forall>l \<in> set out. length l \<le> MAX_RENDERED_LINE_CHARS)"
proof -
  from assms(1,2) have "pack_evidence (nat available) ids [] (evidence_line True []) = Inr out"
    by (simp add: evidence_lines_def evidence_line_def split: if_splits)
  from pack_evidence_groups [OF this] assms(3) obtain g' gs
    where "out = labelled True (g' # gs)" "concat (g' # gs) = ids" by auto
  with evidence_lines_bounds [OF assms(1)] show ?thesis by blast
qed

lemma evidence_lines_list_all_ids_witness:
  "\<exists>out gs. evidence_lines [''build_target:0'', ''run_test:1''] 7 = Inr out \<and> out = labelled True gs
     \<and> concat gs = [''build_target:0'', ''run_test:1'']"
proof -
  have "evidence_lines [''build_target:0'', ''run_test:1''] 7 =
      Inr [''Evidence: build_target:0, run_test:1'']" by code_simp
  moreover have "\<forall>j \<in> set [''build_target:0'', ''run_test:1'']. plain_id j" by code_simp
  ultimately show ?thesis
    using evidence_lines_list_all_ids [of "[''build_target:0'', ''run_test:1'']" 7] by blast
qed

lemma pack_evidence_label:
  "pack_evidence avail ids lines current = Inr out \<Longrightarrow>
     (\<forall>l \<in> set (lines @ [current]). prefix ''Evidence'' l) \<Longrightarrow> \<forall>l \<in> set out. prefix ''Evidence'' l"
proof (induction ids arbitrary: lines current)
  case Nil
  then show ?case by (auto split: if_splits)
next
  case (Cons i ids)
  have cur: "prefix ''Evidence'' (current @ x)" for x
    using Cons.prems(2) by (auto intro: prefix_prefix)
  have cont: "prefix ''Evidence'' (''Evidence (cont.): '' @ i)" by simp
  define cand where "cand = current @ (if fresh_line current then [] else '', '') @ i"
  note step = Cons.prems(1) [unfolded pack_evidence.simps(2) Let_def, folded cand_def]
  show ?case
  proof (cases "length cand \<le> MAX_RENDERED_LINE_CHARS")
    case True
    with step have "pack_evidence avail ids lines cand = Inr out" by simp
    from Cons.IH [OF this] Cons.prems(2) show ?thesis using cur by (simp add: cand_def)
  next
    case False
    with step have "pack_evidence avail ids (lines @ [current]) (''Evidence (cont.): '' @ i) = Inr out"
      by (simp only: split: if_splits) auto
    from Cons.IH [OF this] Cons.prems(2) show ?thesis using cont by simp
  qed
qed

lemma evidence_lines_label: "evidence_lines ids n = Inr out \<Longrightarrow> l \<in> set out \<Longrightarrow> prefix ''Evidence'' l"
  using pack_evidence_label [of "nat n" ids "[]" "''Evidence: ''" out]
  by (auto simp: evidence_lines_def split: if_splits)

definition verification_lines :: "string list \<Rightarrow> string list" where
  "verification_lines ls = filter (\<lambda>l. prefix ''Verification:'' l) ls"

lemma verdict_value_prefix [simp]:
  "\<not> prefix ''Verification:'' (task_verdict_value v @ CHR '':'' # x)"
  by (cases v) simp_all

lemma verification_line_prefix [simp]: "prefix ''Verification:'' (verification_line a b v)"
  by (simp add: verification_line_def)

lemma evidence_not_verification: "prefix ''Evidence'' l \<Longrightarrow> \<not> prefix ''Verification:'' l"
  by (auto simp: prefix_def)

lemma head_lines_verification:
  "verification_lines (head_lines r reason tree b @ extra) =
     verification_line (rs_verified r) (rs_ran r) (pj_verdict (result_projection r)) # verification_lines extra"
  by (simp add: verification_lines_def head_lines_def Let_def split: option.split)

lemma block_facts:
  assumes ok: "result_ok r" and blk: "verdict_block_from_task_result r sc = Inr b"
  shows "block_ok b
    \<and> vb_verdict b = pj_verdict (result_projection r) \<and> (vb_verdict b = V_VERIFIED \<longleftrightarrow> rs_verified r)
    \<and> vb_reason b \<in> set (allowed_reasons (vb_verdict b))
    \<and> (\<forall>rc. rs_reason r = Some rc \<longrightarrow> verdict_reason_value (vb_reason b) = rc)
    \<and> vb_evidence b = rs_evidence r
    \<and> prefix (task_verdict_value (vb_verdict b) @ '':'') (hd (vb_lines b))
    \<and> verification_lines (vb_lines b) = [verification_line (rs_verified r) (rs_ran r) (vb_verdict b)]"
proof -
  from blk obtain reason binding tree scope extra where
    reason: "block_reason r = Inr reason" and ids: "check_evidence_ids (rs_evidence r) = Inr (rs_evidence r)"
    and extra: "evidence_lines (rs_evidence r)
        (int MAX_RENDERED_LINES - int (length (head_lines r reason tree binding))) = Inr extra"
    and b: "mk_verdict_block (pj_verdict (result_projection r)) reason scope (rs_evidence r) tree
        (head_lines r reason tree binding @ extra) = Inr b"
    by (auto simp: verdict_block_from_task_result_def py_bind_Inr_iff Let_def check_evidence_ids_Inr)
  from mk_verdict_block_Inr [OF b] have block: "block_ok b"
    and fields: "vb_verdict b = pj_verdict (result_projection r)" "vb_reason b = reason"
      "vb_evidence b = rs_evidence r" "vb_lines b = head_lines r reason tree binding @ extra" by auto
  have "verification_lines extra = []"
    using evidence_lines_label [OF extra] evidence_not_verification
    by (auto simp: verification_lines_def filter_empty_conv)
  then have "verification_lines (vb_lines b) = [verification_line (rs_verified r) (rs_ran r) (vb_verdict b)]"
    by (simp add: fields head_lines_verification)
  moreover have "reason \<in> set (allowed_reasons (pj_verdict (result_projection r)))
      \<and> (\<forall>rc. rs_reason r = Some rc \<longrightarrow> verdict_reason_value reason = rc)"
    using reason by (auto simp: block_reason_def Let_def py_bind_Inr_iff current_reason_allowed
        verdict_reason_of_def dest: enum_of_Inr split: option.splits)
  moreover have "prefix (task_verdict_value (vb_verdict b) @ '':'') (hd (vb_lines b))"
    by (simp add: fields head_lines_def Let_def)
  moreover have "vb_verdict b = V_VERIFIED \<longleftrightarrow> rs_verified r"
    using ok by (simp add: fields result_projection_def projection_verified result_ok_def)
  ultimately show ?thesis using block fields by auto
qed

text \<open>a rendered block says what the typed result says: it carries the projected verdict
  (VERIFIED exactly for a verified result), a reason allowed for that verdict and equal to the
  result's own when it has one, the result's evidence ids, a first line opening with the verdict
  and exactly one verification line, the one of the retained facts; and it keeps all limits.\<close>

theorem block_reports_result:
  assumes ok: "result_ok r" and blk: "verdict_block_from_task_result r sc = Inr b"
  shows "block_ok b
    \<and> vb_verdict b = pj_verdict (result_projection r) \<and> (vb_verdict b = V_VERIFIED \<longleftrightarrow> rs_verified r)
    \<and> vb_reason b \<in> set (allowed_reasons (vb_verdict b))
    \<and> (\<forall>rc. rs_reason r = Some rc \<longrightarrow> verdict_reason_value (vb_reason b) = rc)
    \<and> vb_evidence b = rs_evidence r
    \<and> prefix (task_verdict_value (vb_verdict b) @ '':'') (hd (vb_lines b))
    \<and> verification_lines (vb_lines b) = [verification_line (rs_verified r) (rs_ran r) (vb_verdict b)]"
  using block_facts [OF ok blk] .

definition demo_result :: task_result where
  "demo_result = \<lparr>rs_task_id = ''t'', rs_outcome = O_PASS, rs_answer = ''done'', rs_verified = True,
     rs_evidence = [''run_test:1''], rs_metrics = [], rs_ran = True, rs_reason = None\<rparr>"

theorem block_reports_result_witness:
  "\<exists>b. verdict_block_from_task_result demo_result UNBOUND_RESULT_SCOPE = Inr b \<and> block_ok b
     \<and> vb_verdict b = V_VERIFIED"
proof -
  have "returns (\<lambda>b. True) (verdict_block_from_task_result demo_result UNBOUND_RESULT_SCOPE)"
    by code_simp
  then obtain b where "verdict_block_from_task_result demo_result UNBOUND_RESULT_SCOPE = Inr b"
    by (rule returnsE)
  moreover have "result_ok demo_result" by (simp add: result_ok_def demo_result_def task_succeeded_def)
  ultimately show ?thesis
    using block_reports_result [of demo_result UNBOUND_RESULT_SCOPE b]
    by (auto simp: demo_result_def)
qed

end
