(* ===== verification/Cancel_Runtime.thy ===== *)
theory Cancel_Runtime
  imports Contracts
begin

text \<open>
  \<open>session/cancellation.py\<close> and \<open>session/cancellation_runtime.py\<close>: the execution-epoch fence, the
  idempotent cancellation token, owned processes and what their containment can prove, the
  plan of every cancellation site, and the runtime registry that revokes a task's epoch when
  it is cancelled and says which cleanup evidence is still missing.  Every operation is one
  atomic step: the source holds the registry lock throughout.
\<close>

section \<open>Vocabularies\<close>

datatype cancel_source = BY_USER | BY_CONTROLLER | BY_WATCHDOG | BY_SHUTDOWN

fun cancel_source_value :: "cancel_source \<Rightarrow> string" where
  "cancel_source_value BY_USER = ''user''"
| "cancel_source_value BY_CONTROLLER = ''controller''"
| "cancel_source_value BY_WATCHDOG = ''watchdog''"
| "cancel_source_value BY_SHUTDOWN = ''shutdown''"

definition cancel_source_of :: "string \<Rightarrow> cancel_source py" where
  "cancel_source_of = enum_of cancel_source_value [BY_USER, BY_CONTROLLER, BY_WATCHDOG, BY_SHUTDOWN]"

datatype cancel_site = QUEUED | WAITING_INFERENCE | SUBPROCESS | MUTATION | FINALISING

fun cancel_site_value :: "cancel_site \<Rightarrow> string" where
  "cancel_site_value QUEUED = ''queued''"
| "cancel_site_value WAITING_INFERENCE = ''waiting_inference''"
| "cancel_site_value SUBPROCESS = ''subprocess''"
| "cancel_site_value MUTATION = ''mutation''"
| "cancel_site_value FINALISING = ''finalising''"

definition cancel_site_of :: "string \<Rightarrow> cancel_site py" where
  "cancel_site_of = enum_of cancel_site_value [QUEUED, WAITING_INFERENCE, SUBPROCESS, MUTATION, FINALISING]"

datatype containment = C_UNKNOWN | DIRECT_CHILD | POSIX_PROCESS_GROUP | WINDOWS_JOB

fun containment_value :: "containment \<Rightarrow> string" where
  "containment_value C_UNKNOWN = ''unknown''"
| "containment_value DIRECT_CHILD = ''direct_child''"
| "containment_value POSIX_PROCESS_GROUP = ''posix_process_group''"
| "containment_value WINDOWS_JOB = ''windows_job''"

definition containment_of :: "string \<Rightarrow> containment py" where
  "containment_of = enum_of containment_value [C_UNKNOWN, DIRECT_CHILD, POSIX_PROCESS_GROUP, WINDOWS_JOB]"

section \<open>The epoch fence (\<open>EpochFence\<close>)\<close>

record epoch_fence =
  fence_epoch :: int

definition mk_fence :: "int \<Rightarrow> epoch_fence py" where
  "mk_fence e = py_check (e < 0) ValueError (Inr \<lparr>fence_epoch = e\<rparr>)"

definition fence_advance :: "epoch_fence \<Rightarrow> int \<times> epoch_fence" where
  "fence_advance f = (fence_epoch f + 1, f\<lparr>fence_epoch := fence_epoch f + 1\<rparr>)"

definition fence_accepts :: "epoch_fence \<Rightarrow> int \<Rightarrow> bool py" where
  "fence_accepts f e = py_check (e < 0) ValueError (Inr (e = fence_epoch f))"

definition require_current :: "epoch_fence \<Rightarrow> int \<Rightarrow> unit py" where
  "require_current f e =
     py_bind (fence_accepts f e) (\<lambda>ok. py_check (\<not> ok) StaleExecutionEpoch (Inr ()))"

section \<open>Requests and tokens\<close>

record cancel_request =
  cq_id :: string
  cq_task :: string
  cq_epoch :: int
  cq_source :: cancel_source
  cq_reason :: string

definition mk_cancel_request :: "string \<Rightarrow> string \<Rightarrow> int \<Rightarrow> string \<Rightarrow> string \<Rightarrow> cancel_request py" where
  "mk_cancel_request rid task e source reason =
     py_check (\<not> uuid_ok rid \<or> \<not> uuid_ok task) ValueError (
     py_check (e < 0) ValueError (
     py_bind (cancel_source_of source) (\<lambda>src.
     py_bind (require_nonempty_string (PStr reason)) (\<lambda>rc.
     py_check (length rc > 128) ValueError (
       Inr \<lparr>cq_id = rid, cq_task = task, cq_epoch = e, cq_source = src, cq_reason = rc\<rparr>)))))"

record cancel_token =
  tk_task :: string
  tk_epoch :: int
  tk_request :: "cancel_request option"

definition mk_token :: "string \<Rightarrow> int \<Rightarrow> cancel_token py" where
  "mk_token task e =
     py_check (\<not> uuid_ok task) ValueError (
     py_check (e < 0) ValueError (Inr \<lparr>tk_task = task, tk_epoch = e, tk_request = None\<rparr>))"

definition token_requested :: "cancel_token \<Rightarrow> bool" where
  "token_requested t \<longleftrightarrow> tk_request t \<noteq> None"

definition token_request ::
  "string \<Rightarrow> string \<Rightarrow> string \<Rightarrow> string option \<Rightarrow> cancel_token \<Rightarrow> (cancel_request \<times> cancel_token) py" where
  \<comment> \<open>\<open>fresh\<close> is the \<open>uuid4\<close> drawn when the caller gives no request id; the first request stands\<close>
  "token_request fresh source reason rid t =
     py_bind (mk_cancel_request (case rid of Some (c # cs) \<Rightarrow> c # cs | _ \<Rightarrow> fresh) (tk_task t) (tk_epoch t)
                source reason) (\<lambda>candidate.
       case tk_request t of
         None \<Rightarrow> Inr (candidate, t\<lparr>tk_request := Some candidate\<rparr>)
       | Some first \<Rightarrow> Inr (first, t))"

section \<open>Owned processes\<close>

record owned_process =
  ow_task :: string
  ow_epoch :: int
  ow_pid :: int
  ow_birth :: string
  ow_containment :: containment
  ow_container :: pyval

definition mk_owned_process ::
  "string \<Rightarrow> int \<Rightarrow> int \<Rightarrow> string \<Rightarrow> string \<Rightarrow> pyval \<Rightarrow> owned_process py" where
  "mk_owned_process task e pid birth cont cid =
     py_check (\<not> uuid_ok task) ValueError (
     py_check (e < 0) ValueError (
     py_check (pid < 1) ValueError (
     py_bind (require_nonempty_string (PStr birth)) (\<lambda>b.
     py_check (length b > 256) ValueError (
     py_bind (containment_of cont) (\<lambda>c.
     py_check
       (if c = POSIX_PROCESS_GROUP then (case cid of PInt i \<Rightarrow> i < 1 | _ \<Rightarrow> True)
        else if c = WINDOWS_JOB then (case cid of PStr s \<Rightarrow> py_strip s = [] | _ \<Rightarrow> True)
        else cid \<noteq> PNone) ValueError (
       Inr \<lparr>ow_task = task, ow_epoch = e, ow_pid = pid, ow_birth = b, ow_containment = c,
            ow_container = cid\<rparr>)))))))"

definition has_tree_container :: "owned_process \<Rightarrow> bool" where
  "has_tree_container h \<longleftrightarrow> ow_containment h = WINDOWS_JOB"

definition cleanup_proof_scope :: "owned_process \<Rightarrow> string" where
  "cleanup_proof_scope h =
     (if ow_containment h = WINDOWS_JOB then ''whole_tree''
      else if ow_containment h = POSIX_PROCESS_GROUP then ''process_group''
      else if ow_containment h = DIRECT_CHILD then ''direct_child'' else ''unknown'')"

section \<open>Plans\<close>

record cancel_plan =
  pl_site :: cancel_site
  pl_revoke :: bool
  pl_remove_queued :: bool
  pl_quarantine :: bool
  pl_terminate :: bool
  pl_reconcile_mutation :: bool
  pl_commit_race :: bool
  pl_requires :: bool
  pl_state :: "terminal_state option"
  pl_verdict :: "task_verdict option"

definition mk_plan ::
  "cancel_site \<Rightarrow> bool \<Rightarrow> bool \<Rightarrow> bool \<Rightarrow> bool \<Rightarrow> bool \<Rightarrow> bool \<Rightarrow> bool \<Rightarrow> terminal_state option
   \<Rightarrow> task_verdict option \<Rightarrow> cancel_plan py" where
  "mk_plan site revoke removeq quarantine terminate mutation race requires ts v =
     py_check (\<not> revoke) ValueError (
     py_check ((ts = None) \<noteq> (v = None)) ValueError (
     py_check (requires \<and> ts \<noteq> None) ValueError (
       Inr \<lparr>pl_site = site, pl_revoke = revoke, pl_remove_queued = removeq, pl_quarantine = quarantine,
            pl_terminate = terminate, pl_reconcile_mutation = mutation, pl_commit_race = race,
            pl_requires = requires, pl_state = ts, pl_verdict = v\<rparr>)))"

fun cancellation_plan :: "cancel_site \<Rightarrow> cancel_plan py" where
  "cancellation_plan QUEUED =
     mk_plan QUEUED True True False False False False False (Some T_CANCELLED) (Some V_NO_VERDICT)"
| "cancellation_plan WAITING_INFERENCE =
     mk_plan WAITING_INFERENCE True False True False False False True None None"
| "cancellation_plan SUBPROCESS =
     mk_plan SUBPROCESS True False False True False False True None None"
| "cancellation_plan MUTATION =
     mk_plan MUTATION True False False False True False True None None"
| "cancellation_plan FINALISING =
     mk_plan FINALISING True False False False False True True None None"

definition plan_of :: "cancel_site \<Rightarrow> cancel_plan" where
  "plan_of site = projr (cancellation_plan site)"

lemma cancellation_plan_total [simp]: "cancellation_plan site = Inr (plan_of site)"
  by (cases site) (simp_all add: plan_of_def mk_plan_def)

section \<open>The runtime registry (\<open>CancellationRuntime\<close>)\<close>

record cancel_decision =
  cd_request :: cancel_request
  cd_plan :: cancel_plan
  cd_revoked :: int
  cd_current :: int
  cd_process :: "owned_process option"

record task_cancel =
  tc_fence :: epoch_fence
  tc_token :: cancel_token
  tc_site :: cancel_site
  tc_process :: "owned_process option"
  tc_decision :: "cancel_decision option"

type_synonym cancel_runtime = "string \<Rightarrow> task_cancel option"

definition register_task ::
  "string \<Rightarrow> int \<Rightarrow> string \<Rightarrow> cancel_runtime \<Rightarrow> (cancel_token \<times> cancel_runtime) py" where
  "register_task task e site rt =
     py_bind (mk_fence e) (\<lambda>f.
     py_bind (mk_token task e) (\<lambda>t.
     py_bind (cancel_site_of site) (\<lambda>s.
       case rt task of
         Some existing \<Rightarrow>
           (if tk_epoch (tc_token existing) \<noteq> e then Inl CancellationRuntimeError
            else Inr (tc_token existing, rt))
       | None \<Rightarrow>
           Inr (t, rt(task \<mapsto> \<lparr>tc_fence = f, tc_token = t, tc_site = s, tc_process = None,
                            tc_decision = None\<rparr>)))))"

definition task_state :: "string \<Rightarrow> cancel_runtime \<Rightarrow> task_cancel py" where
  "task_state task rt = (case rt task of None \<Rightarrow> Inl CancellationRuntimeError | Some s \<Rightarrow> Inr s)"

definition get_token :: "string \<Rightarrow> int \<Rightarrow> cancel_runtime \<Rightarrow> cancel_token py" where
  "get_token task e rt =
     py_bind (task_state task rt) (\<lambda>s.
       py_check (tk_epoch (tc_token s) \<noteq> e) StaleExecutionEpoch (Inr (tc_token s)))"

definition current_epoch :: "string \<Rightarrow> cancel_runtime \<Rightarrow> int py" where
  "current_epoch task rt = py_bind (task_state task rt) (\<lambda>s. Inr (fence_epoch (tc_fence s)))"

definition dispatch_authority :: "string \<Rightarrow> int \<Rightarrow> cancel_runtime \<Rightarrow> unit py" where
  "dispatch_authority task e rt =
     py_bind (task_state task rt) (\<lambda>s. require_current (tc_fence s) e)"

definition set_site :: "string \<Rightarrow> int \<Rightarrow> string \<Rightarrow> cancel_runtime \<Rightarrow> cancel_runtime py" where
  "set_site task e site rt =
     py_bind (task_state task rt) (\<lambda>s.
     py_check (token_requested (tc_token s)) StaleExecutionEpoch (
     py_bind (require_current (tc_fence s) e) (\<lambda>_.
     py_bind (cancel_site_of site) (\<lambda>st.
       Inr (rt(task \<mapsto> s\<lparr>tc_site := st\<rparr>))))))"

definition attach_process :: "owned_process \<Rightarrow> cancel_runtime \<Rightarrow> cancel_runtime py" where
  "attach_process h rt =
     py_bind (task_state (ow_task h) rt) (\<lambda>s.
     py_check (token_requested (tc_token s)) StaleExecutionEpoch (
     py_bind (require_current (tc_fence s) (ow_epoch h)) (\<lambda>_.
       Inr (rt(ow_task h \<mapsto> s\<lparr>tc_process := Some h, tc_site := SUBPROCESS\<rparr>)))))"

definition request_cancel ::
  "string \<Rightarrow> string \<Rightarrow> int \<Rightarrow> string \<Rightarrow> string \<Rightarrow> string option \<Rightarrow> cancel_runtime
   \<Rightarrow> (cancel_decision \<times> cancel_runtime) py" where
  "request_cancel fresh task e source reason rid rt =
     py_bind (task_state task rt) (\<lambda>s.
       case tc_decision s of
         Some d \<Rightarrow> py_check (e \<noteq> tk_epoch (tc_token s)) StaleExecutionEpoch (Inr (d, rt))
       | None \<Rightarrow>
           py_bind (require_current (tc_fence s) e) (\<lambda>_.
           py_bind (token_request fresh source reason rid (tc_token s)) (\<lambda>(q, t).
           py_bind (cancellation_plan (tc_site s)) (\<lambda>plan.
             let (current, f) = fence_advance (tc_fence s);
                 d = \<lparr>cd_request = q, cd_plan = plan, cd_revoked = fence_epoch (tc_fence s),
                      cd_current = current, cd_process = tc_process s\<rparr>
             in Inr (d, rt(task \<mapsto> s\<lparr>tc_fence := f, tc_token := t, tc_decision := Some d\<rparr>))))))"

definition request_on_token ::
  "string \<Rightarrow> string \<Rightarrow> int \<Rightarrow> string \<Rightarrow> string \<Rightarrow> string option \<Rightarrow> cancel_runtime \<Rightarrow> cancel_runtime py" where
  \<comment> \<open>the holder of a handed-out token requests cancellation on it directly\<close>
  "request_on_token fresh task e source reason rid rt =
     py_bind (get_token task e rt) (\<lambda>t.
     py_bind (token_request fresh source reason rid t) (\<lambda>(q, t').
     py_bind (task_state task rt) (\<lambda>s. Inr (rt(task \<mapsto> s\<lparr>tc_token := t'\<rparr>)))))"

record cleanup_facts =
  cf_queue_removed :: "bool option"
  cf_endpoint_stopped :: "bool option"
  cf_tree_stopped :: "bool option"
  cf_mutation_reconciled :: "bool option"
  cf_commit_resolved :: "bool option"

definition missing_evidence :: "cancel_decision \<Rightarrow> cleanup_facts \<Rightarrow> string list" where
  "missing_evidence d fs =
     (let p = cd_plan d in
      (if pl_remove_queued p \<and> cf_queue_removed fs \<noteq> Some True then [''queue_removal_unproven''] else [])
      @ (if pl_quarantine p \<and> cf_endpoint_stopped fs \<noteq> Some True then [''endpoint_stop_unproven''] else [])
      @ (if pl_terminate p
         then (case cd_process d of
                 None \<Rightarrow> [''owned_process_identity_missing'']
               | Some h \<Rightarrow>
                   (if \<not> has_tree_container h then [''process_tree_containment_unproven'']
                    else if cf_tree_stopped fs \<noteq> Some True then [''process_tree_stop_unproven''] else []))
         else [])
      @ (if pl_reconcile_mutation p \<and> cf_mutation_reconciled fs \<noteq> Some True
         then [''mutation_reconciliation_unproven''] else [])
      @ (if pl_commit_race p \<and> cf_commit_resolved fs \<noteq> Some True
         then [''terminal_commit_race_unresolved''] else []))"

definition reconcile :: "string \<Rightarrow> cleanup_facts \<Rightarrow> cancel_runtime \<Rightarrow> (bool \<times> string list) py" where
  "reconcile task fs rt =
     py_bind (task_state task rt) (\<lambda>s.
       case tc_decision s of
         None \<Rightarrow> Inl CancellationRuntimeError
       | Some d \<Rightarrow> Inr (missing_evidence d fs = [], missing_evidence d fs))"

definition unregister_task :: "string \<Rightarrow> int \<Rightarrow> cancel_runtime \<Rightarrow> cancel_runtime py" where
  "unregister_task task e rt =
     py_bind (task_state task rt) (\<lambda>s.
     py_bind (require_current (tc_fence s) e) (\<lambda>_. Inr (rt(task := None))))"

end
