(* ===== verification/Cancel_Invariants.thy ===== *)
theory Cancel_Invariants
  imports Cancel_Runtime
begin

text \<open>
  The cancellation registry as a guarded, monotone machine: what holds of every registered
  task, that epochs only grow, that a revoked epoch never regains authority and that a
  cancellation decision, once taken, is the one every retry gets.
\<close>

section \<open>Operations and the invariant\<close>

datatype live_op =
    Register string int string
  | Set_Site string int string
  | Attach owned_process
  | Cancel string string int string string "string option"
  | Token_Request string string int string string "string option"

datatype cancel_op = Live live_op | Unregister string int

fun live_step :: "live_op \<Rightarrow> cancel_runtime \<Rightarrow> cancel_runtime py" where
  "live_step (Register task e site) rt = py_bind (register_task task e site rt) (Inr \<circ> snd)"
| "live_step (Set_Site task e site) rt = set_site task e site rt"
| "live_step (Attach h) rt = attach_process h rt"
| "live_step (Cancel fresh task e source reason rid) rt =
     py_bind (request_cancel fresh task e source reason rid rt) (Inr \<circ> snd)"
| "live_step (Token_Request fresh task e source reason rid) rt =
     request_on_token fresh task e source reason rid rt"

fun cancel_step :: "cancel_op \<Rightarrow> cancel_runtime \<Rightarrow> cancel_runtime py" where
  "cancel_step (Live x) rt = live_step x rt"
| "cancel_step (Unregister task e) rt = unregister_task task e rt"

definition decision_ok :: "task_cancel \<Rightarrow> cancel_decision \<Rightarrow> bool" where
  "decision_ok s d \<longleftrightarrow>
     cd_revoked d = tk_epoch (tc_token s) \<and> cd_current d = cd_revoked d + 1
     \<and> fence_epoch (tc_fence s) = cd_current d
     \<and> tk_request (tc_token s) = Some (cd_request d)
     \<and> cd_plan d = plan_of (tc_site s) \<and> cd_process d = tc_process s"

definition entry_ok :: "string \<Rightarrow> task_cancel \<Rightarrow> bool" where
  "entry_ok task s \<longleftrightarrow>
     tk_task (tc_token s) = task \<and> uuid_ok task \<and> 0 \<le> tk_epoch (tc_token s)
     \<and> (\<forall>q. tk_request (tc_token s) = Some q \<longrightarrow> cq_task q = task \<and> cq_epoch q = tk_epoch (tc_token s))
     \<and> (\<forall>h. tc_process s = Some h \<longrightarrow> ow_task h = task \<and> ow_epoch h = tk_epoch (tc_token s))
     \<and> (case tc_decision s of
          None \<Rightarrow> fence_epoch (tc_fence s) = tk_epoch (tc_token s)
        | Some d \<Rightarrow> decision_ok s d)"

definition registry_ok :: "cancel_runtime \<Rightarrow> bool" where
  "registry_ok rt \<longleftrightarrow> (\<forall>task s. rt task = Some s \<longrightarrow> entry_ok task s)"

definition entry_settled :: "task_cancel \<Rightarrow> task_cancel \<Rightarrow> bool" where
  "entry_settled s s' \<longleftrightarrow>
     tk_epoch (tc_token s') = tk_epoch (tc_token s)
     \<and> fence_epoch (tc_fence s) \<le> fence_epoch (tc_fence s')
     \<and> (\<forall>d. tc_decision s = Some d \<longrightarrow> tc_decision s' = Some d)
     \<and> (\<forall>q. tk_request (tc_token s) = Some q \<longrightarrow> tk_request (tc_token s') = Some q)"

definition settled :: "cancel_runtime \<Rightarrow> cancel_runtime \<Rightarrow> bool" where
  \<comment> \<open>entries stay, their epochs only grow, and a decision or a first request stands\<close>
  "settled rt rt' \<longleftrightarrow> (\<forall>task s. rt task = Some s \<longrightarrow> (\<exists>s'. rt' task = Some s' \<and> entry_settled s s'))"

lemma entry_settled_refl [simp]: "entry_settled s s"
  by (simp add: entry_settled_def)

lemma entry_settled_trans: "entry_settled s t \<Longrightarrow> entry_settled t u \<Longrightarrow> entry_settled s u"
  by (simp add: entry_settled_def)

lemma settled_refl: "settled rt rt"
  by (simp add: settled_def)

lemma settled_trans: "settled a b \<Longrightarrow> settled b c \<Longrightarrow> settled a c"
  unfolding settled_def by (meson entry_settled_trans)

lemma settled_upd: "rt task = Some s \<Longrightarrow> entry_settled s s' \<Longrightarrow> settled rt (rt(task \<mapsto> s'))"
  by (auto simp: settled_def)

subsection \<open>Operations unfolded into their guards\<close>

lemma task_state_Inr [simp]: "task_state task rt = Inr s \<longleftrightarrow> rt task = Some s"
  by (simp add: task_state_def split: option.splits)

lemma require_current_Inr [simp]: "require_current f e = Inr u \<longleftrightarrow> 0 \<le> e \<and> e = fence_epoch f"
  by (auto simp: require_current_def fence_accepts_def py_bind_Inr_iff)

lemma require_current_stale: "0 \<le> e \<Longrightarrow> e \<noteq> fence_epoch f \<Longrightarrow> require_current f e = Inl StaleExecutionEpoch"
  by (simp add: require_current_def fence_accepts_def)

lemma mk_cancel_request_Inr:
  "mk_cancel_request rid task e source reason = Inr q \<Longrightarrow> cq_task q = task \<and> cq_epoch q = e"
  by (auto simp: mk_cancel_request_def py_bind_Inr_iff)

lemma token_request_Inr:
  "token_request fresh source reason rid t = Inr (q, t') \<Longrightarrow>
     tk_task t' = tk_task t \<and> tk_epoch t' = tk_epoch t \<and> tk_request t' = Some q
     \<and> (tk_request t = None \<longrightarrow> cq_task q = tk_task t \<and> cq_epoch q = tk_epoch t)
     \<and> (\<forall>q0. tk_request t = Some q0 \<longrightarrow> q = q0)"
  by (auto simp: token_request_def py_bind_Inr_iff dest: mk_cancel_request_Inr split: option.splits)

lemma register_task_Inr:
  assumes "register_task task e site rt = Inr (t, rt')"
  obtains (known) s where "rt task = Some s" "rt' = rt"
  | (new) s where "rt task = None" "uuid_ok task" "0 \<le> e" "rt' = rt(task \<mapsto> s)"
      "fence_epoch (tc_fence s) = e" "tk_task (tc_token s) = task" "tk_epoch (tc_token s) = e"
      "tk_request (tc_token s) = None" "tc_process s = None" "tc_decision s = None"
proof (cases "rt task")
  case None
  with assms show ?thesis
    by (auto simp: register_task_def py_bind_Inr_iff mk_fence_def mk_token_def intro!: new)
next
  case (Some s)
  with assms show ?thesis
    by (auto simp: register_task_def py_bind_Inr_iff split: if_splits intro: known)
qed

lemma request_cancel_Inr:
  assumes "request_cancel fresh task e source reason rid rt = Inr (d, rt')"
  obtains (retry) s where "rt task = Some s" "tc_decision s = Some d" "e = tk_epoch (tc_token s)" "rt' = rt"
  | (first) s q t where "rt task = Some s" "tc_decision s = None" "0 \<le> e" "e = fence_epoch (tc_fence s)"
      "token_request fresh source reason rid (tc_token s) = Inr (q, t)"
      "d = \<lparr>cd_request = q, cd_plan = plan_of (tc_site s), cd_revoked = fence_epoch (tc_fence s),
            cd_current = fence_epoch (tc_fence s) + 1, cd_process = tc_process s\<rparr>"
      "rt' = rt(task \<mapsto> s\<lparr>tc_fence := (tc_fence s)\<lparr>fence_epoch := fence_epoch (tc_fence s) + 1\<rparr>,
                          tc_token := t, tc_decision := Some d\<rparr>)"
proof -
  from assms obtain s where s: "rt task = Some s"
    by (auto simp: request_cancel_def py_bind_Inr_iff)
  show ?thesis
  proof (cases "tc_decision s")
    case (Some d0)
    with assms s have "e = tk_epoch (tc_token s)" "d0 = d" "rt' = rt"
      by (simp_all add: request_cancel_def task_state_def)
    with s Some show ?thesis by (intro retry) simp_all
  next
    case None
    note unfolded = assms [unfolded request_cancel_def task_state_def s option.case py_bind_simps None]
    from unfolded obtain q t where cur: "0 \<le> e" "e = fence_epoch (tc_fence s)"
      and tok: "token_request fresh source reason rid (tc_token s) = Inr (q, t)"
      by (auto simp: py_bind_Inr_iff simp del: cancellation_plan_total split: prod.splits)
    from cur have "require_current (tc_fence s) e = Inr ()" by simp
    with unfolded tok have "d = \<lparr>cd_request = q, cd_plan = plan_of (tc_site s), cd_revoked = fence_epoch (tc_fence s),
            cd_current = fence_epoch (tc_fence s) + 1, cd_process = tc_process s\<rparr>
        \<and> rt' = rt(task \<mapsto> s\<lparr>tc_fence := (tc_fence s)\<lparr>fence_epoch := fence_epoch (tc_fence s) + 1\<rparr>,
                          tc_token := t, tc_decision := Some d\<rparr>)"
      by (simp add: fence_advance_def Let_def del: require_current_Inr) blast
    with first [OF s None cur tok] show ?thesis by blast
  qed
qed

subsection \<open>Preservation\<close>

lemma registry_ok_upd: "registry_ok rt \<Longrightarrow> entry_ok task s \<Longrightarrow> registry_ok (rt(task \<mapsto> s))"
  by (simp add: registry_ok_def)

lemma registry_okD: "registry_ok rt \<Longrightarrow> rt task = Some s \<Longrightarrow> entry_ok task s"
  by (simp add: registry_ok_def)

lemma live_step_ok:
  assumes ok: "registry_ok rt" and step: "live_step x rt = Inr rt'"
  shows "registry_ok rt'"
proof (cases x)
  case (Register task e site)
  with step obtain t where "register_task task e site rt = Inr (t, rt')"
    by (auto simp: py_bind_Inr_iff)
  then show ?thesis
  proof (cases rule: register_task_Inr)
    case known
    with ok show ?thesis by simp
  next
    case (new s)
    then show ?thesis by (simp add: entry_ok_def registry_ok_upd [OF ok])
  qed
next
  case (Set_Site task e site)
  with step obtain s st where s: "rt task = Some s" "tk_request (tc_token s) = None"
    and rt': "rt' = rt(task \<mapsto> s\<lparr>tc_site := st\<rparr>)"
    by (auto simp: set_site_def py_bind_Inr_iff token_requested_def)
  from registry_okD [OF ok s(1)] s(2) show ?thesis
    unfolding rt' by (intro registry_ok_upd [OF ok]) (auto simp: entry_ok_def decision_ok_def split: option.splits)
next
  case (Attach h)
  with step obtain s where s: "rt (ow_task h) = Some s" "tk_request (tc_token s) = None"
      "ow_epoch h = fence_epoch (tc_fence s)"
    and rt': "rt' = rt(ow_task h \<mapsto> s\<lparr>tc_process := Some h, tc_site := SUBPROCESS\<rparr>)"
    by (auto simp: attach_process_def py_bind_Inr_iff token_requested_def)
  from registry_okD [OF ok s(1)] s(2,3) show ?thesis
    unfolding rt' by (intro registry_ok_upd [OF ok]) (auto simp: entry_ok_def decision_ok_def split: option.splits)
next
  case (Cancel fresh task e source reason rid)
  with step obtain d where "request_cancel fresh task e source reason rid rt = Inr (d, rt')"
    by (auto simp: py_bind_Inr_iff)
  then show ?thesis
  proof (cases rule: request_cancel_Inr)
    case (retry s)
    with ok show ?thesis by simp
  next
    case (first s q t)
    from registry_okD [OF ok first(1)] token_request_Inr [OF first(5)] first(2,6) show ?thesis
      unfolding first(7) by (intro registry_ok_upd [OF ok]) (auto simp: entry_ok_def decision_ok_def)
  qed
next
  case (Token_Request fresh task e source reason rid)
  with step obtain s q t where s: "rt task = Some s"
    and t: "token_request fresh source reason rid (tc_token s) = Inr (q, t)"
    and rt': "rt' = rt(task \<mapsto> s\<lparr>tc_token := t\<rparr>)"
    by (auto simp: request_on_token_def get_token_def py_bind_Inr_iff)
  from registry_okD [OF ok s] token_request_Inr [OF t] show ?thesis
    unfolding rt'
    by (intro registry_ok_upd [OF ok]) (auto simp: entry_ok_def decision_ok_def split: option.splits)
qed

lemma live_step_settled:
  assumes step: "live_step x rt = Inr rt'"
  shows "settled rt rt'"
proof (cases x)
  case (Register task e site)
  with step obtain t where "register_task task e site rt = Inr (t, rt')"
    by (auto simp: py_bind_Inr_iff)
  then show ?thesis
    by (cases rule: register_task_Inr) (auto simp: settled_def)
next
  case (Set_Site task e site)
  with step show ?thesis
    by (auto simp: set_site_def py_bind_Inr_iff entry_settled_def intro: settled_upd)
next
  case (Attach h)
  with step show ?thesis
    by (auto simp: attach_process_def py_bind_Inr_iff entry_settled_def intro: settled_upd)
next
  case (Cancel fresh task e source reason rid)
  with step obtain d where "request_cancel fresh task e source reason rid rt = Inr (d, rt')"
    by (auto simp: py_bind_Inr_iff)
  then show ?thesis
  proof (cases rule: request_cancel_Inr)
    case (retry s)
    then show ?thesis by (simp add: settled_refl)
  next
    case (first s q t)
    with token_request_Inr [OF first(5)] show ?thesis
      by (auto simp: entry_settled_def intro: settled_upd)
  qed
next
  case (Token_Request fresh task e source reason rid)
  with step obtain s q t where s: "rt task = Some s"
    and t: "token_request fresh source reason rid (tc_token s) = Inr (q, t)"
    and rt': "rt' = rt(task \<mapsto> s\<lparr>tc_token := t\<rparr>)"
    by (auto simp: request_on_token_def get_token_def py_bind_Inr_iff)
  from token_request_Inr [OF t] show ?thesis
    unfolding rt' using s by (intro settled_upd [of rt task s]) (simp_all add: entry_settled_def)
qed

lemma unregister_ok:
  "registry_ok rt \<Longrightarrow> unregister_task task e rt = Inr rt' \<Longrightarrow> registry_ok rt'"
  by (auto simp: unregister_task_def py_bind_Inr_iff registry_ok_def split: if_splits)

lemma cancel_step_ok: "registry_ok rt \<Longrightarrow> cancel_step x rt = Inr rt' \<Longrightarrow> registry_ok rt'"
  by (cases x) (auto intro: live_step_ok unregister_ok)

interpretation registry: guarded_machine cancel_step registry_ok
  by unfold_locales (rule cancel_step_ok)

interpretation fenced: monotone_machine live_step registry_ok settled
  by unfold_locales (auto intro: settled_refl settled_trans live_step_ok live_step_settled)

section \<open>Properties\<close>

lemma cancelled_entry:
  assumes ok: "registry_ok rt" and c: "request_cancel fresh task e source reason rid rt = Inr (d, rt1)"
  obtains s where "rt1 task = Some s" "tc_decision s = Some d" "tk_epoch (tc_token s) = e" "0 \<le> e"
proof -
  from c have step: "live_step (Cancel fresh task e source reason rid) rt = Inr rt1" by simp
  from c show ?thesis
  proof (cases rule: request_cancel_Inr)
    case (retry s)
    with registry_okD [OF ok retry(1)] show ?thesis by (intro that [of s]) (auto simp: entry_ok_def)
  next
    case (first s q t)
    with registry_okD [OF ok first(1)] token_request_Inr [OF first(5)] show ?thesis
      by (intro that [of "the (rt1 task)"]) (auto simp: entry_ok_def)
  qed
qed

definition revoked_entry :: "string \<Rightarrow> cancel_decision \<Rightarrow> int \<Rightarrow> cancel_runtime \<Rightarrow> bool" where
  \<comment> \<open>the task is registered and its execution \<open>e\<close> was cancelled with the decision \<open>d\<close>\<close>
  "revoked_entry task d e rt \<longleftrightarrow> registry_ok rt
     \<and> (\<exists>s. rt task = Some s \<and> tc_decision s = Some d \<and> tk_epoch (tc_token s) = e)"

lemma revoked_entryE:
  assumes "revoked_entry task d e rt"
  obtains s where "registry_ok rt" "rt task = Some s" "tc_decision s = Some d" "tk_epoch (tc_token s) = e"
    "fence_epoch (tc_fence s) = e + 1" "tk_request (tc_token s) = Some (cd_request d)"
proof -
  from assms obtain s where "registry_ok rt" "rt task = Some s" "tc_decision s = Some d" "tk_epoch (tc_token s) = e"
    by (auto simp: revoked_entry_def)
  with registry_okD [of rt task s] show ?thesis
    by (intro that [of s]) (auto simp: entry_ok_def decision_ok_def)
qed

lemma revoked_entry_step:
  assumes r: "revoked_entry task d e rt" and x: "x \<noteq> Unregister task (e + 1)"
    and step: "cancel_step x rt = Inr rt'"
  shows "revoked_entry task d e rt'"
proof -
  from r obtain s where ok: "registry_ok rt" and s: "rt task = Some s" "tc_decision s = Some d"
    "tk_epoch (tc_token s) = e" "fence_epoch (tc_fence s) = e + 1" by (rule revoked_entryE)
  from ok step have ok': "registry_ok rt'" by (rule cancel_step_ok)
  show ?thesis
  proof (cases x)
    case (Live y)
    with step live_step_settled [of y rt rt'] s obtain s' where "rt' task = Some s'" "entry_settled s s'"
      by (auto simp: settled_def)
    with s ok' show ?thesis by (auto simp: revoked_entry_def entry_settled_def)
  next
    case (Unregister task' e')
    with step x s have "rt' task = rt task"
      by (auto simp: unregister_task_def py_bind_Inr_iff)
    with s ok' show ?thesis by (auto simp: revoked_entry_def)
  qed
qed

lemma revoked_entry_run:
  "revoked_entry task d e rt \<Longrightarrow> Unregister task (e + 1) \<notin> set ops \<Longrightarrow>
   revoked_entry task d e (run_ops cancel_step ops rt)"
proof (induction ops arbitrary: rt)
  case (Cons x ops)
  then have "x \<noteq> Unregister task (e + 1)" by auto
  with Cons.prems(1) have "revoked_entry task d e (after_op cancel_step x rt)"
    by (auto simp: after_op_def split: sum.splits intro: revoked_entry_step)
  with Cons show ?case by simp
qed simp

text \<open>C7: once the execution of a task has been cancelled, no later sequence of registry
  operations gives the revoked epoch authority again, as long as the task is not released from the
  registry: dispatch is refused as stale, the site cannot move, no process can be attached, and every
  retry of the cancellation returns the first decision and changes nothing. Releases of other tasks,
  and releases of this task under the revoked epoch or any epoch but the one that followed it, are
  among the operations.\<close>

theorem revoked_epoch_stays_revoked:
  assumes ok: "registry_ok rt" and c: "request_cancel fresh task e source reason rid rt = Inr (d, rt1)"
    and kept: "Unregister task (e + 1) \<notin> set ops"
    and later: "rt2 = run_ops cancel_step ops rt1"
  shows "dispatch_authority task e rt2 = Inl StaleExecutionEpoch
    \<and> set_site task e site rt2 = Inl StaleExecutionEpoch
    \<and> (ow_task h = task \<longrightarrow> attach_process h rt2 = Inl StaleExecutionEpoch)
    \<and> request_cancel fresh' task e source' reason' rid' rt2 = Inr (d, rt2)"
proof -
  from c have "live_step (Cancel fresh task e source reason rid) rt = Inr rt1" by simp
  with ok have ok1: "registry_ok rt1" by (rule live_step_ok)
  from cancelled_entry [OF ok c] obtain s1 where s1: "rt1 task = Some s1" "tc_decision s1 = Some d"
    "tk_epoch (tc_token s1) = e" "0 \<le> e" .
  from s1 ok1 have "revoked_entry task d e rt1" by (auto simp: revoked_entry_def)
  from revoked_entry_run [OF this kept] later have "revoked_entry task d e rt2" by simp
  then obtain s where s: "rt2 task = Some s" "tc_decision s = Some d" "tk_epoch (tc_token s) = e"
    "fence_epoch (tc_fence s) = e + 1" "tk_request (tc_token s) = Some (cd_request d)"
    by (rule revoked_entryE)
  have "dispatch_authority task e rt2 = Inl StaleExecutionEpoch"
    using s s1(4) by (simp add: dispatch_authority_def task_state_def require_current_stale)
  moreover have "set_site task e site rt2 = Inl StaleExecutionEpoch"
    "ow_task h = task \<longrightarrow> attach_process h rt2 = Inl StaleExecutionEpoch"
    using s by (simp_all add: set_site_def attach_process_def task_state_def token_requested_def)
  moreover have "request_cancel fresh' task e source' reason' rid' rt2 = Inr (d, rt2)"
    using s by (simp add: request_cancel_def task_state_def)
  ultimately show ?thesis by blast
qed

lemma released_task_registers_afresh:
  \<comment> \<open>the registry keeps no memory of a released task: registered again at the revoked epoch, it has authority\<close>
  assumes ok: "registry_ok rt" and c: "request_cancel fresh task e source reason rid rt = Inr (d, rt1)"
    and gone: "unregister_task task (e + 1) rt1 = Inr rt2" and again: "register_task task e site rt2 = Inr (t, rt3)"
  shows "dispatch_authority task e rt3 = Inr ()"
proof -
  from gone have "rt2 task = None" by (auto simp: unregister_task_def py_bind_Inr_iff)
  with again show ?thesis
    by (cases rule: register_task_Inr)
      (auto simp: dispatch_authority_def task_state_def token_requested_def)
qed

definition demo_uuid :: string where
  "demo_uuid = ''123e4567-e89b-12d3-a456-426614174000''"

definition demo_registry :: cancel_runtime where
  "demo_registry = run_ops cancel_step [Live (Register demo_uuid 0 ''queued'')] (\<lambda>_. None)"

lemma demo_registry_ok: "registry_ok demo_registry"
  unfolding demo_registry_def by (rule registry.run_inv) (simp add: registry_ok_def)

theorem revoked_epoch_stays_revoked_witness:
  "\<exists>d rt1. request_cancel demo_uuid demo_uuid 0 ''user'' ''requested'' None demo_registry = Inr (d, rt1)
     \<and> dispatch_authority demo_uuid 0
         (run_ops cancel_step [Unregister demo_uuid 0, Live (Register demo_uuid 0 ''queued'')] rt1)
         = Inl StaleExecutionEpoch"
proof -
  have "returns (\<lambda>_. True) (request_cancel demo_uuid demo_uuid 0 ''user'' ''requested'' None demo_registry)"
    by code_simp
  then obtain d rt1 where
    c: "request_cancel demo_uuid demo_uuid 0 ''user'' ''requested'' None demo_registry = Inr (d, rt1)"
    by (auto elim!: returnsE)
  from revoked_epoch_stays_revoked [OF demo_registry_ok c _ refl,
      of "[Unregister demo_uuid 0, Live (Register demo_uuid 0 ''queued'')]"] c
  show ?thesis by simp
qed

lemma plan_fields [simp]:
  "pl_remove_queued (plan_of site) \<longleftrightarrow> site = QUEUED"
  "pl_quarantine (plan_of site) \<longleftrightarrow> site = WAITING_INFERENCE"
  "pl_terminate (plan_of site) \<longleftrightarrow> site = SUBPROCESS"
  "pl_reconcile_mutation (plan_of site) \<longleftrightarrow> site = MUTATION"
  "pl_commit_race (plan_of site) \<longleftrightarrow> site = FINALISING"
  by (cases site; simp add: plan_of_def mk_plan_def del: cancellation_plan_total)+

lemma missing_evidence_iff:
  "cd_plan d = plan_of QUEUED \<Longrightarrow> missing_evidence d fs = [] \<longleftrightarrow> cf_queue_removed fs = Some True"
  "cd_plan d = plan_of WAITING_INFERENCE \<Longrightarrow> missing_evidence d fs = [] \<longleftrightarrow> cf_endpoint_stopped fs = Some True"
  "cd_plan d = plan_of SUBPROCESS \<Longrightarrow> missing_evidence d fs = [] \<longleftrightarrow>
     (\<exists>h. cd_process d = Some h \<and> ow_containment h = WINDOWS_JOB) \<and> cf_tree_stopped fs = Some True"
  "cd_plan d = plan_of MUTATION \<Longrightarrow> missing_evidence d fs = [] \<longleftrightarrow> cf_mutation_reconciled fs = Some True"
  "cd_plan d = plan_of FINALISING \<Longrightarrow> missing_evidence d fs = [] \<longleftrightarrow> cf_commit_resolved fs = Some True"
  by (simp_all add: missing_evidence_def Let_def has_tree_container_def split: option.split)

text \<open>cleanup of a cancelled task is complete exactly when the owner of its cancellation
  site has proved the one fact that site needs: removal from the queue, a stopped endpoint, a
  reconciled mutation, a resolved commit race, or, for a subprocess, a stopped tree of a process
  that was owned through a whole-tree container.  A direct child or a process group never
  suffices, and only a queued task may be closed as cancelled without reconciliation.\<close>

theorem cleanup_needs_its_proof:
  assumes ok: "registry_ok rt" and s: "rt task = Some s" and d: "tc_decision s = Some d"
  shows "\<exists>missing. reconcile task fs rt = Inr (missing = [], missing)
    \<and> (missing = [] \<longleftrightarrow>
        (case tc_site s of
           QUEUED \<Rightarrow> cf_queue_removed fs = Some True
         | WAITING_INFERENCE \<Rightarrow> cf_endpoint_stopped fs = Some True
         | SUBPROCESS \<Rightarrow> (\<exists>h. tc_process s = Some h \<and> ow_containment h = WINDOWS_JOB)
                          \<and> cf_tree_stopped fs = Some True
         | MUTATION \<Rightarrow> cf_mutation_reconciled fs = Some True
         | FINALISING \<Rightarrow> cf_commit_resolved fs = Some True))
    \<and> pl_revoke (cd_plan d) \<and> (pl_requires (cd_plan d) \<longleftrightarrow> tc_site s \<noteq> QUEUED)
    \<and> (pl_state (cd_plan d) = Some T_CANCELLED \<longleftrightarrow> tc_site s = QUEUED)"
proof -
  from registry_okD [OF ok s] d have p: "cd_plan d = plan_of (tc_site s)" "cd_process d = tc_process s"
    by (simp_all add: entry_ok_def decision_ok_def)
  have "reconcile task fs rt = Inr (missing_evidence d fs = [], missing_evidence d fs)"
    using s d by (simp add: reconcile_def task_state_def)
  moreover have "missing_evidence d fs = [] \<longleftrightarrow>
        (case tc_site s of
           QUEUED \<Rightarrow> cf_queue_removed fs = Some True
         | WAITING_INFERENCE \<Rightarrow> cf_endpoint_stopped fs = Some True
         | SUBPROCESS \<Rightarrow> (\<exists>h. tc_process s = Some h \<and> ow_containment h = WINDOWS_JOB)
                          \<and> cf_tree_stopped fs = Some True
         | MUTATION \<Rightarrow> cf_mutation_reconciled fs = Some True
         | FINALISING \<Rightarrow> cf_commit_resolved fs = Some True)"
    using missing_evidence_iff [of d] p by (cases "tc_site s") simp_all
  moreover have "pl_revoke (cd_plan d) \<and> (pl_requires (cd_plan d) \<longleftrightarrow> tc_site s \<noteq> QUEUED)
    \<and> (pl_state (cd_plan d) = Some T_CANCELLED \<longleftrightarrow> tc_site s = QUEUED)"
    by (cases "tc_site s") (simp_all add: p plan_of_def mk_plan_def del: cancellation_plan_total)
  ultimately show ?thesis by blast
qed

theorem cleanup_needs_its_proof_witness:
  "\<exists>d rt1 s. request_cancel demo_uuid demo_uuid 0 ''user'' ''requested'' None demo_registry = Inr (d, rt1)
     \<and> rt1 demo_uuid = Some s \<and> pl_revoke (cd_plan d)"
proof -
  have "returns (\<lambda>_. True) (request_cancel demo_uuid demo_uuid 0 ''user'' ''requested'' None demo_registry)"
    by code_simp
  then obtain d rt1 where
    c: "request_cancel demo_uuid demo_uuid 0 ''user'' ''requested'' None demo_registry = Inr (d, rt1)"
    by (auto elim!: returnsE)
  then have "live_step (Cancel demo_uuid demo_uuid 0 ''user'' ''requested'' None) demo_registry = Inr rt1"
    by simp
  with demo_registry_ok have ok1: "registry_ok rt1" by (rule live_step_ok)
  from cancelled_entry [OF demo_registry_ok c] obtain s where "rt1 demo_uuid = Some s" "tc_decision s = Some d" .
  with cleanup_needs_its_proof [OF ok1 this] c show ?thesis by blast
qed

end
