(* ===== verification/Endpoint_Lease.thy ===== *)
theory Endpoint_Lease
  imports Py_Value
begin

text \<open>
  \<open>session/endpoint_lease.py\<close>: the arbiter of one physical inference endpoint.  Two bounded FIFO
  queues (conversation turns per session, worker calls), at most one lease, alternation
  between the classes, and a quarantine that only an explicit reconciliation clears.  Every
  operation is one atomic step under the arbiter's lock; the \<open>uuid4\<close> of a new lease is an
  argument.
\<close>

section \<open>Requests and leases\<close>

datatype endpoint_role = CONVERSATION | WORKER | STRONG

fun endpoint_role_value :: "endpoint_role \<Rightarrow> string" where
  "endpoint_role_value CONVERSATION = ''conversation''"
| "endpoint_role_value WORKER = ''worker''"
| "endpoint_role_value STRONG = ''strong''"

definition endpoint_role_of :: "string \<Rightarrow> endpoint_role py" where
  "endpoint_role_of = enum_of endpoint_role_value [CONVERSATION, WORKER, STRONG]"

datatype queue_class = CHAT | WORK

fun other_class :: "queue_class \<Rightarrow> queue_class" where
  "other_class CHAT = WORK"
| "other_class WORK = CHAT"

record endpoint_request =
  rq_id :: string
  rq_endpoint :: string
  rq_role :: endpoint_role
  rq_session :: "string option"
  rq_task :: "string option"
  rq_epoch :: "int option"

definition mk_endpoint_request ::
  "string \<Rightarrow> string \<Rightarrow> string \<Rightarrow> string option \<Rightarrow> string option \<Rightarrow> int option \<Rightarrow> endpoint_request py" where
  "mk_endpoint_request rid eid role session task e =
     py_check (\<not> uuid_ok rid) ValueError (
     py_bind (require_nonempty_string (PStr eid)) (\<lambda>_.
     py_bind (endpoint_role_of role) (\<lambda>ro.
       let made = Inr \<lparr>rq_id = rid, rq_endpoint = eid, rq_role = ro, rq_session = session,
                       rq_task = task, rq_epoch = e\<rparr>
       in if ro = CONVERSATION then
            py_check (case session of None \<Rightarrow> True | Some s \<Rightarrow> py_strip s = []) ValueError (
            py_check (task \<noteq> None \<or> e \<noteq> None) ValueError made)
          else
            py_check (case session of None \<Rightarrow> False | Some s \<Rightarrow> py_strip s = []) ValueError (
            py_check (case task of None \<Rightarrow> True | Some t \<Rightarrow> \<not> uuid_ok t) ValueError (
            py_check (case e of None \<Rightarrow> True | Some n \<Rightarrow> n < 0) ValueError made)))))"

definition rq_class :: "endpoint_request \<Rightarrow> queue_class" where
  "rq_class r = (if rq_role r = CONVERSATION then CHAT else WORK)"

record endpoint_lease =
  le_id :: string
  le_endpoint :: string
  le_request :: endpoint_request

definition mk_lease :: "string \<Rightarrow> string \<Rightarrow> endpoint_request \<Rightarrow> endpoint_lease py" where
  "mk_lease lid eid r =
     py_check (\<not> uuid_ok lid) ValueError (
     py_check (eid \<noteq> rq_endpoint r) ValueError (
       Inr \<lparr>le_id = lid, le_endpoint = eid, le_request = r\<rparr>))"

record pending_position =
  pp_class :: queue_class
  pp_position :: nat

section \<open>The arbiter\<close>

record arbiter =
  ar_endpoint :: string
  ar_chat_limit :: int
  ar_work_limit :: int
  ar_chat :: "endpoint_request list"
  ar_work :: "endpoint_request list"
  ar_active :: "endpoint_lease option"
  ar_quarantine :: "string option"
  ar_next :: queue_class

definition mk_arbiter :: "string \<Rightarrow> int \<Rightarrow> int \<Rightarrow> arbiter py" where
  "mk_arbiter eid chat_limit work_limit =
     py_bind (require_nonempty_string (PStr eid)) (\<lambda>_.
     py_check (chat_limit < 1 \<or> work_limit < 1) ValueError (
       Inr \<lparr>ar_endpoint = eid, ar_chat_limit = chat_limit, ar_work_limit = work_limit, ar_chat = [],
            ar_work = [], ar_active = None, ar_quarantine = None, ar_next = CHAT\<rparr>))"

definition all_request_ids :: "arbiter \<Rightarrow> string list" where
  "all_request_ids a =
     map rq_id (ar_chat a) @ map rq_id (ar_work a)
     @ (case ar_active a of None \<Rightarrow> [] | Some l \<Rightarrow> [rq_id (le_request l)])"

definition session_pending :: "string option \<Rightarrow> endpoint_request list \<Rightarrow> nat" where
  "session_pending s q = length (filter (\<lambda>r. rq_session r = s) q)"

definition enqueue :: "endpoint_request \<Rightarrow> arbiter \<Rightarrow> (pending_position \<times> arbiter) py" where
  "enqueue r a =
     py_check (rq_endpoint r \<noteq> ar_endpoint a) ValueError (
     py_check (ar_quarantine a \<noteq> None) EndpointUnavailable (
     py_check (rq_id r \<in> set (all_request_ids a)) EndpointLeaseConflict (
       if rq_class r = CHAT then
         py_check (rq_session r = None) ValueError (
         py_check (int (session_pending (rq_session r) (ar_chat a)) \<ge> ar_chat_limit a) EndpointQueueFull (
           Inr (\<lparr>pp_class = CHAT, pp_position = length (ar_chat a)\<rparr>,
                a\<lparr>ar_chat := ar_chat a @ [r]\<rparr>)))
       else
         py_check (int (length (ar_work a)) \<ge> ar_work_limit a) EndpointQueueFull (
           Inr (\<lparr>pp_class = WORK, pp_position = length (ar_work a)\<rparr>,
                a\<lparr>ar_work := ar_work a @ [r]\<rparr>)))))"

definition pick_queue :: "arbiter \<Rightarrow> queue_class option" where
  \<comment> \<open>the class whose queue is served next, when there is one\<close>
  "pick_queue a =
     (if ar_next a = CHAT
      then (if ar_chat a \<noteq> [] then Some CHAT else if ar_work a \<noteq> [] then Some WORK else None)
      else (if ar_work a \<noteq> [] then Some WORK else if ar_chat a \<noteq> [] then Some CHAT else None))"

definition remove_queued_execution ::
  "string \<Rightarrow> int \<Rightarrow> arbiter \<Rightarrow> (endpoint_request list \<times> arbiter) py" where
  "remove_queued_execution task e a =
     py_check (\<not> uuid_ok task) ValueError (
     py_check (e < 0) ValueError (
       let removed = filter (\<lambda>r. rq_task r = Some task \<and> rq_epoch r = Some e) (ar_work a)
       in if removed = [] then Inr ([], a)
          else Inr (removed,
                 a\<lparr>ar_work := filter (\<lambda>r. rq_id r \<notin> set (map rq_id removed)) (ar_work a)\<rparr>)))"

definition acquire_next :: "string \<Rightarrow> arbiter \<Rightarrow> (endpoint_lease option \<times> arbiter) py" where
  "acquire_next fresh a =
     py_check (ar_quarantine a \<noteq> None) EndpointUnavailable (
       if ar_active a \<noteq> None then Inr (None, a)
       else case pick_queue a of
         None \<Rightarrow> Inr (None, a)
       | Some CHAT \<Rightarrow>
           py_bind (mk_lease fresh (ar_endpoint a) (hd (ar_chat a))) (\<lambda>l.
             Inr (Some l, a\<lparr>ar_chat := tl (ar_chat a), ar_active := Some l\<rparr>))
       | Some WORK \<Rightarrow>
           py_bind (mk_lease fresh (ar_endpoint a) (hd (ar_work a))) (\<lambda>l.
             Inr (Some l, a\<lparr>ar_work := tl (ar_work a), ar_active := Some l\<rparr>)))"

definition finish_active :: "arbiter \<Rightarrow> (endpoint_lease \<times> arbiter) py" where
  "finish_active a =
     (case ar_active a of
        None \<Rightarrow> Inl EndpointLeaseConflict
      | Some l \<Rightarrow> Inr (l, a\<lparr>ar_active := None, ar_next := other_class (rq_class (le_request l))\<rparr>))"

definition active_is :: "string \<Rightarrow> arbiter \<Rightarrow> bool" where
  "active_is lid a \<longleftrightarrow> (\<exists>l. ar_active a = Some l \<and> le_id l = lid)"

lemma active_is_code [code]:
  "active_is lid a = (case ar_active a of None \<Rightarrow> False | Some l \<Rightarrow> le_id l = lid)"
  by (simp add: active_is_def split: option.split)

definition release :: "string \<Rightarrow> arbiter \<Rightarrow> (endpoint_lease \<times> arbiter) py" where
  "release lid a =
     py_check (\<not> uuid_ok lid) ValueError (
     py_check (\<not> active_is lid a) EndpointLeaseConflict (
     py_check (ar_quarantine a \<noteq> None) EndpointLeaseConflict (finish_active a)))"

definition lease_named :: "string option \<Rightarrow> arbiter \<Rightarrow> bool" where
  \<comment> \<open>an active lease must be named exactly, and no lease may be named when none is active\<close>
  "lease_named lid a =
     (case ar_active a of None \<Rightarrow> lid = None | Some l \<Rightarrow> lid = Some (le_id l))"

definition quarantine :: "string \<Rightarrow> string option \<Rightarrow> arbiter \<Rightarrow> arbiter py" where
  "quarantine why lid a =
     py_bind (require_nonempty_string (PStr why)) (\<lambda>_.
     py_check (length why > 256) ValueError (
     py_check (case lid of None \<Rightarrow> False | Some i \<Rightarrow> \<not> uuid_ok i) ValueError (
     py_check (\<not> lease_named lid a) EndpointLeaseConflict (
     py_check (ar_quarantine a \<noteq> None \<and> ar_quarantine a \<noteq> Some why) EndpointLeaseConflict (
       Inr (a\<lparr>ar_quarantine := Some why\<rparr>))))))"

definition reconcile_quarantine :: "bool \<Rightarrow> string option \<Rightarrow> arbiter \<Rightarrow> (bool \<times> arbiter) py" where
  "reconcile_quarantine known_stopped lid a =
     py_check (case lid of None \<Rightarrow> False | Some i \<Rightarrow> \<not> uuid_ok i) ValueError (
     py_check (ar_quarantine a = None) EndpointLeaseConflict (
     py_check (\<not> lease_named lid a) EndpointLeaseConflict (
       if \<not> known_stopped then Inr (False, a)
       else py_bind (if ar_active a \<noteq> None then py_bind (finish_active a) (\<lambda>(_, b). Inr b) else Inr a)
              (\<lambda>b. Inr (True, b\<lparr>ar_quarantine := None\<rparr>)))))"

fun delete_first :: "string \<Rightarrow> endpoint_request list \<Rightarrow> (endpoint_request \<times> endpoint_request list) option" where
  "delete_first rid [] = None"
| "delete_first rid (r # rs) =
     (if rq_id r = rid then Some (r, rs)
      else map_option (\<lambda>(x, q). (x, r # q)) (delete_first rid rs))"

definition remove_queued :: "string \<Rightarrow> arbiter \<Rightarrow> (endpoint_request option \<times> arbiter) py" where
  "remove_queued rid a =
     py_check (\<not> uuid_ok rid) ValueError (
       case delete_first rid (ar_chat a) of
         Some (r, q) \<Rightarrow> Inr (Some r, a\<lparr>ar_chat := q\<rparr>)
       | None \<Rightarrow>
           (case delete_first rid (ar_work a) of
              Some (r, q) \<Rightarrow> Inr (Some r, a\<lparr>ar_work := q\<rparr>)
            | None \<Rightarrow> Inr (None, a)))"

fun index_of :: "string \<Rightarrow> endpoint_request list \<Rightarrow> nat option" where
  "index_of rid [] = None"
| "index_of rid (r # rs) = (if rq_id r = rid then Some 0 else map_option Suc (index_of rid rs))"

definition pending_position_of :: "string \<Rightarrow> arbiter \<Rightarrow> pending_position option py" where
  "pending_position_of rid a =
     py_check (\<not> uuid_ok rid) ValueError (
       case index_of rid (ar_chat a) of
         Some i \<Rightarrow> Inr (Some \<lparr>pp_class = CHAT, pp_position = i\<rparr>)
       | None \<Rightarrow>
           (case index_of rid (ar_work a) of
              Some i \<Rightarrow> Inr (Some \<lparr>pp_class = WORK, pp_position = i\<rparr>)
            | None \<Rightarrow> Inr None))"

section \<open>The arbiter as a machine\<close>

datatype arbiter_op =
    Enqueue endpoint_request
  | Remove_Execution string int
  | Acquire string
  | Release string
  | Quarantine string "string option"
  | Reconcile bool "string option"
  | Remove string

fun arbiter_step :: "arbiter_op \<Rightarrow> arbiter \<Rightarrow> arbiter py" where
  "arbiter_step (Enqueue r) a = py_bind (enqueue r a) (Inr \<circ> snd)"
| "arbiter_step (Remove_Execution task e) a = py_bind (remove_queued_execution task e a) (Inr \<circ> snd)"
| "arbiter_step (Acquire fresh) a = py_bind (acquire_next fresh a) (Inr \<circ> snd)"
| "arbiter_step (Release lid) a = py_bind (release lid a) (Inr \<circ> snd)"
| "arbiter_step (Quarantine why lid) a = quarantine why lid a"
| "arbiter_step (Reconcile stopped lid) a = py_bind (reconcile_quarantine stopped lid a) (Inr \<circ> snd)"
| "arbiter_step (Remove rid) a = py_bind (remove_queued rid a) (Inr \<circ> snd)"

definition arbiter_ok :: "arbiter \<Rightarrow> bool" where
  "arbiter_ok a \<longleftrightarrow>
     distinct (all_request_ids a)
     \<and> (\<forall>r \<in> set (ar_chat a). rq_class r = CHAT \<and> rq_session r \<noteq> None \<and> rq_endpoint r = ar_endpoint a)
     \<and> (\<forall>r \<in> set (ar_work a). rq_class r = WORK \<and> rq_endpoint r = ar_endpoint a)
     \<and> (\<forall>s. int (session_pending (Some s) (ar_chat a)) \<le> ar_chat_limit a)
     \<and> int (length (ar_work a)) \<le> ar_work_limit a
     \<and> (\<forall>l. ar_active a = Some l \<longrightarrow> le_endpoint l = ar_endpoint a \<and> uuid_ok (le_id l)
            \<and> rq_endpoint (le_request l) = ar_endpoint a)
     \<and> 1 \<le> ar_chat_limit a \<and> 1 \<le> ar_work_limit a"

end
