(* ===== verification/Endpoint_Invariants.thy ===== *)
theory Endpoint_Invariants
  imports Endpoint_Lease
begin

text \<open>
  What the endpoint arbiter guarantees: bounded queues of distinct requests and a single
  lease under every script of operations; bounded waiting by alternation and FIFO order; a
  quarantine that only a confirmed reconciliation lifts.
\<close>

section \<open>Queues\<close>

lemma session_pending_simps [simp]:
  "session_pending s [] = 0"
  "session_pending s (q @ [r]) = session_pending s q + of_bool (rq_session r = s)"
  by (simp_all add: session_pending_def)

lemma session_pending_filter: "session_pending s (filter P q) \<le> session_pending s q"
  by (auto simp: session_pending_def intro!: filter_length_mono)

lemma session_pending_tl: "session_pending s (tl q) \<le> session_pending s q"
  by (cases q) (auto simp: session_pending_def)

lemma delete_first_Some:
  "delete_first rid q = Some (r, q') \<Longrightarrow>
     \<exists>xs ys. q = xs @ r # ys \<and> q' = xs @ ys \<and> rq_id r = rid"
proof (induction q arbitrary: q')
  case (Cons x q)
  show ?case
  proof (cases "rq_id x = rid")
    case True
    with Cons.prems show ?thesis by (intro exI [of _ "[]"] exI [of _ q']) simp
  next
    case False
    with Cons.prems obtain q0 where "delete_first rid q = Some (r, q0)" and q': "q' = x # q0" by auto
    from Cons.IH [OF this(1)] obtain xs ys where "q = xs @ r # ys" "q0 = xs @ ys" "rq_id r = rid" by blast
    with q' show ?thesis by (intro exI [of _ "x # xs"] exI [of _ ys]) simp
  qed
qed simp

lemma delete_first_facts:
  assumes "delete_first rid q = Some (r, q')"
  shows "set q' \<subseteq> set q" "length q' \<le> length q" "session_pending s q' \<le> session_pending s q"
    "distinct (map rq_id q) \<Longrightarrow> distinct (map rq_id q')"
  using delete_first_Some [OF assms] by (auto simp: session_pending_def)

section \<open>The invariant is kept\<close>

lemma chat_bound: "arbiter_ok a \<Longrightarrow> int (session_pending (Some s) (ar_chat a)) \<le> ar_chat_limit a"
  by (simp add: arbiter_ok_def)

text \<open>Shrinking the queues keeps the invariant; the lease and the rest of the state stand.\<close>

lemma arbiter_ok_shrink:
  assumes ok: "arbiter_ok a"
    and chat: "set chat \<subseteq> set (ar_chat a)" "distinct (map rq_id chat)"
      "\<And>s. session_pending s chat \<le> session_pending s (ar_chat a)"
    and work: "set work \<subseteq> set (ar_work a)" "distinct (map rq_id work)" "length work \<le> length (ar_work a)"
  shows "arbiter_ok (a\<lparr>ar_chat := chat, ar_work := work\<rparr>)"
proof -
  from image_mono [OF chat(1), of rq_id] image_mono [OF work(1), of rq_id]
  have sub: "rq_id ` set chat \<subseteq> rq_id ` set (ar_chat a)" "rq_id ` set work \<subseteq> rq_id ` set (ar_work a)" .
  from ok have d: "distinct (all_request_ids a)" by (simp add: arbiter_ok_def)
  then have "rq_id ` set (ar_chat a) \<inter> rq_id ` set (ar_work a) = {}"
    by (auto simp: all_request_ids_def)
  with sub have dis: "rq_id ` set chat \<inter> rq_id ` set work = {}" by blast
  have ids: "distinct (all_request_ids (a\<lparr>ar_chat := chat, ar_work := work\<rparr>))"
    using d sub dis chat(2) work(2)
    by (cases "ar_active a") (auto simp: all_request_ids_def simp del: image_iff)
  have "int (session_pending (Some s) chat) \<le> ar_chat_limit a" for s
    using chat_bound [OF ok, of s] chat(3) [of "Some s"] by linarith
  with ids ok chat(1) work(1,3) show ?thesis by (auto simp: arbiter_ok_def)
qed

lemma arbiter_ok_distinct:
  "arbiter_ok a \<Longrightarrow> distinct (map rq_id (ar_chat a)) \<and> distinct (map rq_id (ar_work a))"
  by (simp add: arbiter_ok_def all_request_ids_def)

lemma arbiter_ok_misc:
  "arbiter_ok (a\<lparr>ar_quarantine := q\<rparr>) \<longleftrightarrow> arbiter_ok a"
  "arbiter_ok (a\<lparr>ar_next := c\<rparr>) \<longleftrightarrow> arbiter_ok a"
  "arbiter_ok a \<Longrightarrow> arbiter_ok (a\<lparr>ar_active := None\<rparr>)"
  by (auto simp: arbiter_ok_def all_request_ids_def split: option.splits)

lemma arbiter_ok_chat:
  assumes "arbiter_ok a" and "rq_id r \<notin> set (all_request_ids a)" and "rq_class r = CHAT"
    and "rq_session r \<noteq> None" "rq_endpoint r = ar_endpoint a"
    and "int (session_pending (rq_session r) (ar_chat a)) < ar_chat_limit a"
  shows "arbiter_ok (a\<lparr>ar_chat := ar_chat a @ [r]\<rparr>)"
proof -
  have "int (session_pending (Some s) (ar_chat a @ [r])) \<le> ar_chat_limit a" for s
    using assms(1,6) by (cases "rq_session r = Some s") (simp_all add: arbiter_ok_def)
  moreover have "distinct (all_request_ids (a\<lparr>ar_chat := ar_chat a @ [r]\<rparr>))"
    using assms(1,2) by (auto simp: arbiter_ok_def all_request_ids_def split: option.splits)
  ultimately show ?thesis using assms(1,3-5) by (auto simp: arbiter_ok_def)
qed

lemma arbiter_ok_work:
  assumes "arbiter_ok a" and "rq_id r \<notin> set (all_request_ids a)" and "rq_class r = WORK"
    and "rq_endpoint r = ar_endpoint a" and "int (length (ar_work a)) < ar_work_limit a"
  shows "arbiter_ok (a\<lparr>ar_work := ar_work a @ [r]\<rparr>)"
proof -
  have "distinct (all_request_ids (a\<lparr>ar_work := ar_work a @ [r]\<rparr>))"
    using assms(1,2) by (auto simp: arbiter_ok_def all_request_ids_def split: option.splits)
  then show ?thesis using assms by (auto simp: arbiter_ok_def)
qed

lemma enqueue_cases:
  assumes "enqueue r a = Inr (p, a')"
  obtains (chat) "rq_class r = CHAT" "rq_session r \<noteq> None" "a' = a\<lparr>ar_chat := ar_chat a @ [r]\<rparr>"
      "int (session_pending (rq_session r) (ar_chat a)) < ar_chat_limit a"
  | (work) "rq_class r = WORK" "a' = a\<lparr>ar_work := ar_work a @ [r]\<rparr>"
      "int (length (ar_work a)) < ar_work_limit a"
  using assms by (cases "rq_class r") (auto simp: enqueue_def)

lemma enqueue_guards:
  "enqueue r a = Inr out \<Longrightarrow>
     rq_endpoint r = ar_endpoint a \<and> ar_quarantine a = None \<and> rq_id r \<notin> set (all_request_ids a)"
  by (auto simp: enqueue_def)

lemma enqueue_ok:
  assumes "arbiter_ok a" and e: "enqueue r a = Inr (p, a')"
  shows "arbiter_ok a'"
  using e
proof (cases rule: enqueue_cases)
  case chat
  then show ?thesis using enqueue_guards [OF e] assms(1) by (simp only:) (rule arbiter_ok_chat; simp)
next
  case work
  then show ?thesis using enqueue_guards [OF e] assms(1) by (simp only:) (rule arbiter_ok_work; simp)
qed

lemma mk_lease_Inr:
  "mk_lease lid eid r = Inr l \<longleftrightarrow>
     uuid_ok lid \<and> eid = rq_endpoint r \<and> l = \<lparr>le_id = lid, le_endpoint = eid, le_request = r\<rparr>"
  by (auto simp: mk_lease_def)

lemma acquire_cases:
  assumes "acquire_next fresh a = Inr (out, a')"
  obtains (nothing) "out = None" "a' = a"
  | (chat) r q l where "ar_active a = None" "ar_quarantine a = None" "pick_queue a = Some CHAT"
      "ar_chat a = r # q" "mk_lease fresh (ar_endpoint a) r = Inr l" "out = Some l"
      "a' = a\<lparr>ar_chat := q, ar_active := Some l\<rparr>"
  | (work) r q l where "ar_active a = None" "ar_quarantine a = None" "pick_queue a = Some WORK"
      "ar_work a = r # q" "mk_lease fresh (ar_endpoint a) r = Inr l" "out = Some l"
      "a' = a\<lparr>ar_work := q, ar_active := Some l\<rparr>"
proof -
  from assms have q: "ar_quarantine a = None" by (simp add: acquire_next_def)
  show ?thesis
  proof (cases "ar_active a = None")
    case False
    with assms q have "out = None" "a' = a" by (auto simp: acquire_next_def)
    then show ?thesis by (rule nothing)
  next
    case act: True
    show ?thesis
    proof (cases "pick_queue a")
      case None
      with assms q act have "out = None" "a' = a" by (auto simp: acquire_next_def)
      then show ?thesis by (rule nothing)
    next
      case (Some c)
      show ?thesis
      proof (cases c)
        case CHAT
        with Some obtain r q' where "ar_chat a = r # q'"
          by (cases "ar_chat a") (auto simp: pick_queue_def split: if_splits)
        with assms q act Some CHAT obtain l where "mk_lease fresh (ar_endpoint a) r = Inr l"
            "out = Some l" "a' = a\<lparr>ar_chat := q', ar_active := Some l\<rparr>"
          by (auto simp: acquire_next_def py_bind_Inr_iff)
        with chat [of r q' l] q act Some CHAT \<open>ar_chat a = r # q'\<close> show ?thesis by blast
      next
        case WORK
        with Some obtain r q' where "ar_work a = r # q'"
          by (cases "ar_work a") (auto simp: pick_queue_def split: if_splits)
        with assms q act Some WORK obtain l where "mk_lease fresh (ar_endpoint a) r = Inr l"
            "out = Some l" "a' = a\<lparr>ar_work := q', ar_active := Some l\<rparr>"
          by (auto simp: acquire_next_def py_bind_Inr_iff)
        with work [of r q' l] q act Some WORK \<open>ar_work a = r # q'\<close> show ?thesis by blast
      qed
    qed
  qed
qed

lemma acquire_ok:
  assumes "arbiter_ok a" and "acquire_next fresh a = Inr (out, a')"
  shows "arbiter_ok a'"
  using assms(2)
proof (cases rule: acquire_cases)
  case nothing
  with assms(1) show ?thesis by simp
next
  case (chat r q l)
  have "int (session_pending (Some s) q) \<le> ar_chat_limit a" for s
    using chat_bound [OF assms(1), of s] session_pending_tl [of "Some s" "ar_chat a"] chat(4) by simp
  with assms(1) chat show ?thesis
    by (auto simp: arbiter_ok_def all_request_ids_def mk_lease_Inr)
next
  case (work r q l)
  with assms(1) show ?thesis
    by (auto simp: arbiter_ok_def all_request_ids_def mk_lease_Inr)
qed

lemma finish_active_ok: "arbiter_ok a \<Longrightarrow> finish_active a = Inr (l, a') \<Longrightarrow> arbiter_ok a'"
  using arbiter_ok_misc(2) [where a = "a\<lparr>ar_active := None\<rparr>"] arbiter_ok_misc(3) [of a]
  by (auto simp: finish_active_def split: option.splits)

lemma remove_execution_ok:
  assumes ok: "arbiter_ok a" and r: "remove_queued_execution task e a = Inr (out, a')"
  shows "arbiter_ok a'"
proof -
  from r consider "a' = a" | P where "a' = a\<lparr>ar_chat := ar_chat a, ar_work := filter P (ar_work a)\<rparr>"
    by (auto simp: remove_queued_execution_def Let_def split: if_splits)
  then show ?thesis
  proof cases
    case (2 P)
    then show ?thesis
      using arbiter_ok_distinct [OF ok] by (simp only:) (rule arbiter_ok_shrink [OF ok]; auto)
  qed (use ok in simp)
qed

lemma remove_queued_ok:
  assumes ok: "arbiter_ok a" and r: "remove_queued rid a = Inr (out, a')"
  shows "arbiter_ok a'"
proof -
  note d = arbiter_ok_distinct [OF ok]
  from r consider "a' = a"
    | x q where "delete_first rid (ar_chat a) = Some (x, q)" "a' = a\<lparr>ar_chat := q, ar_work := ar_work a\<rparr>"
    | x q where "delete_first rid (ar_work a) = Some (x, q)" "a' = a\<lparr>ar_chat := ar_chat a, ar_work := q\<rparr>"
    by (auto simp: remove_queued_def split: option.splits)
  then show ?thesis
  proof cases
    case (2 x q)
    from delete_first_facts [OF 2(1)] d show ?thesis
      unfolding 2(2) by (intro arbiter_ok_shrink [OF ok]) auto
  next
    case (3 x q)
    from delete_first_facts [OF 3(1)] d show ?thesis
      unfolding 3(2) by (intro arbiter_ok_shrink [OF ok]) auto
  qed (use ok in simp)
qed

lemma reconcile_ok:
  "arbiter_ok a \<Longrightarrow> reconcile_quarantine stopped lid a = Inr (out, a') \<Longrightarrow> arbiter_ok a'"
  by (auto simp: reconcile_quarantine_def py_bind_Inr_iff arbiter_ok_misc dest: finish_active_ok split: if_splits)

lemma arbiter_step_ok: "arbiter_ok a \<Longrightarrow> arbiter_step x a = Inr a' \<Longrightarrow> arbiter_ok a'"
  by (cases x)
     (auto simp: py_bind_Inr_iff release_def quarantine_def arbiter_ok_misc
       intro: enqueue_ok remove_execution_ok acquire_ok finish_active_ok reconcile_ok remove_queued_ok)

text \<open>The identity and the limits of an arbiter are fixed when it is made.\<close>

definition same_limits :: "arbiter \<Rightarrow> arbiter \<Rightarrow> bool" where
  "same_limits a b \<longleftrightarrow> ar_endpoint b = ar_endpoint a \<and> ar_chat_limit b = ar_chat_limit a
     \<and> ar_work_limit b = ar_work_limit a"

lemma finish_active_limits: "finish_active a = Inr (l, b) \<Longrightarrow> same_limits a b"
  by (auto simp: finish_active_def same_limits_def split: option.splits)

lemma acquire_limits: "acquire_next fresh a = Inr (l, b) \<Longrightarrow> same_limits a b"
  by (erule acquire_cases) (auto simp: same_limits_def)

lemma reconcile_limits: "reconcile_quarantine stopped lid a = Inr (l, b) \<Longrightarrow> same_limits a b"
  by (auto simp: reconcile_quarantine_def py_bind_Inr_iff split: if_splits dest!: finish_active_limits)
    (auto simp: same_limits_def)

lemma enqueue_limits: "enqueue r a = Inr (p, b) \<Longrightarrow> same_limits a b"
  by (erule enqueue_cases) (auto simp: same_limits_def)

lemma arbiter_step_limits: "arbiter_step x a = Inr b \<Longrightarrow> same_limits a b"
proof (cases x)
  case (Remove_Execution task e)
  then show "arbiter_step x a = Inr b \<Longrightarrow> same_limits a b"
    by (auto simp: py_bind_Inr_iff remove_queued_execution_def Let_def same_limits_def split: if_splits)
next
  case (Remove rid)
  then show "arbiter_step x a = Inr b \<Longrightarrow> same_limits a b"
    by (auto simp: py_bind_Inr_iff remove_queued_def same_limits_def split: option.splits)
next
  case (Release lid)
  then show "arbiter_step x a = Inr b \<Longrightarrow> same_limits a b"
    by (auto simp: py_bind_Inr_iff release_def intro: finish_active_limits)
next
  case (Quarantine why lid)
  then show "arbiter_step x a = Inr b \<Longrightarrow> same_limits a b"
    by (auto simp: py_bind_Inr_iff quarantine_def same_limits_def)
qed (auto simp: py_bind_Inr_iff intro: acquire_limits reconcile_limits enqueue_limits)

interpretation endpoint: monotone_machine arbiter_step arbiter_ok same_limits
proof unfold_locales
  show "same_limits s t \<Longrightarrow> same_limits t u \<Longrightarrow> same_limits s u" for s t u
    by (simp add: same_limits_def)
  show "same_limits s s" for s by (simp add: same_limits_def)
  show "arbiter_step x s = Inr t \<Longrightarrow> same_limits s t" for x s t by (rule arbiter_step_limits)
qed (rule arbiter_step_ok)

lemma mk_arbiter_ok: "mk_arbiter eid c w = Inr a \<Longrightarrow> arbiter_ok a"
  by (auto simp: mk_arbiter_def py_bind_Inr_iff arbiter_ok_def all_request_ids_def)

section \<open>Bounded waiting\<close>

definition queue_position :: "string \<Rightarrow> endpoint_request list \<Rightarrow> nat" where
  "queue_position rid q = length (takeWhile (\<lambda>r. rq_id r \<noteq> rid) q)"

definition waiting_chat :: "string \<Rightarrow> arbiter \<Rightarrow> bool" where
  "waiting_chat rid a \<longleftrightarrow> rid \<in> rq_id ` set (ar_chat a)"

definition waiting_work :: "string \<Rightarrow> arbiter \<Rightarrow> bool" where
  "waiting_work rid a \<longleftrightarrow> rid \<in> rq_id ` set (ar_work a)"

definition waiting :: "string \<Rightarrow> arbiter \<Rightarrow> bool" where
  "waiting rid a \<longleftrightarrow> waiting_chat rid a \<or> waiting_work rid a"

definition next_turn :: "arbiter \<Rightarrow> queue_class" where
  \<comment> \<open>the class preferred once the active lease is over\<close>
  "next_turn a =
     (case ar_active a of None \<Rightarrow> ar_next a | Some l \<Rightarrow> other_class (rq_class (le_request l)))"

definition grants_ahead :: "string \<Rightarrow> arbiter \<Rightarrow> nat" where
  \<comment> \<open>how many leases others can still get before the queued request is served\<close>
  "grants_ahead rid a =
     (if waiting_chat rid a then 2 * queue_position rid (ar_chat a) + of_bool (next_turn a \<noteq> CHAT)
      else 2 * queue_position rid (ar_work a) + of_bool (next_turn a \<noteq> WORK))"

fun is_grant :: "arbiter_op \<Rightarrow> arbiter \<Rightarrow> bool" where
  "is_grant (Acquire fresh) a = returns (\<lambda>(l, _). l \<noteq> None) (acquire_next fresh a)"
| "is_grant _ a = False"

fun grants_while_waiting :: "string \<Rightarrow> arbiter_op list \<Rightarrow> arbiter \<Rightarrow> nat" where
  \<comment> \<open>the leases granted from a state on, up to the one that takes the request off its queue\<close>
  "grants_while_waiting rid [] a = 0"
| "grants_while_waiting rid (x # xs) a =
     (if waiting rid a then of_bool (is_grant x a) + grants_while_waiting rid xs (after_op arbiter_step x a)
      else 0)"

lemma queue_position_append:
  "rid \<in> rq_id ` set q \<Longrightarrow> queue_position rid (q @ q') = queue_position rid q"
  by (auto simp: queue_position_def takeWhile_append1)

lemma queue_position_filter:
  "distinct (map rq_id q) \<Longrightarrow> rid \<in> rq_id ` set (filter P q) \<Longrightarrow>
     queue_position rid (filter P q) \<le> queue_position rid q"
  by (induction q) (force simp: queue_position_def)+

lemma queue_position_delete:
  "distinct (map rq_id q) \<Longrightarrow> delete_first x q = Some (r, q') \<Longrightarrow> rid \<in> rq_id ` set q' \<Longrightarrow>
     queue_position rid q' \<le> queue_position rid q"
  by (induction q arbitrary: q') (force simp: queue_position_def split: if_splits)+

lemma queue_position_Cons:
  "rq_id r \<noteq> rid \<Longrightarrow> queue_position rid (r # q) = Suc (queue_position rid q)"
  by (simp add: queue_position_def)

lemma acquire_is_grant:
  assumes ok: "arbiter_ok a" and w: "waiting rid a" "waiting rid a'"
    and acq: "acquire_next fresh a = Inr (Some l, a')"
  shows "grants_ahead rid a' < grants_ahead rid a"
  using acq
proof (cases rule: acquire_cases)
  case (chat r q l')
  have ne: "rq_id r \<notin> rq_id ` set q" "rq_id r \<notin> rq_id ` set (ar_work a)" and cl: "rq_class r = CHAT"
    using ok chat(4) by (auto simp: arbiter_ok_def all_request_ids_def)
  have turn: "next_turn a' = WORK" using cl chat(5,7) by (simp add: next_turn_def mk_lease_Inr)
  show ?thesis
  proof (cases "rid \<in> rq_id ` set q")
    case True
    with ne have "rq_id r \<noteq> rid" by auto
    with True show ?thesis
      using chat(4,7) turn by (auto simp: grants_ahead_def waiting_chat_def queue_position_Cons)
  next
    case False
    with w chat(7) have wk: "waiting_work rid a" "\<not> waiting_chat rid a'"
      by (auto simp: waiting_def waiting_chat_def waiting_work_def)
    have "rid \<noteq> rq_id r" using ne(2) wk(1) by (metis waiting_work_def)
    with wk have "ar_work a \<noteq> []" "\<not> waiting_chat rid a"
      using False chat(4) by (auto simp: waiting_chat_def waiting_work_def)
    moreover from this(1) chat(3) have "ar_next a = CHAT" by (auto simp: pick_queue_def split: if_splits)
    ultimately show ?thesis using wk turn chat(1,7) by (simp add: grants_ahead_def next_turn_def)
  qed
next
  case (work r q l')
  have ne: "rq_id r \<notin> rq_id ` set q" "rq_id r \<notin> rq_id ` set (ar_chat a)" and cl: "rq_class r = WORK"
    using ok work(4) by (auto simp: arbiter_ok_def all_request_ids_def)
  have turn: "next_turn a' = CHAT" using cl work(5,7) by (simp add: next_turn_def mk_lease_Inr)
  show ?thesis
  proof (cases "waiting_chat rid a")
    case True
    then have "ar_chat a \<noteq> []" by (auto simp: waiting_chat_def)
    with work(3) have "ar_next a = WORK"
      by (cases "ar_next a") (auto simp: pick_queue_def split: if_splits)
    with True turn work(1,7) show ?thesis
      by (simp add: grants_ahead_def next_turn_def waiting_chat_def)
  next
    case False
    with w work(4,7) ne have "rid \<in> rq_id ` set q" "\<not> waiting_chat rid a'"
      by (auto simp: waiting_def waiting_chat_def waiting_work_def)
    moreover from this(1) ne have "rq_id r \<noteq> rid" by auto
    ultimately show ?thesis
      using False ne work(4,7) turn by (auto simp: grants_ahead_def queue_position_Cons)
  qed
qed simp

lemma next_turn_frame [simp]:
  "next_turn (a\<lparr>ar_quarantine := q\<rparr>) = next_turn a"
  "next_turn (a\<lparr>ar_chat := c\<rparr>) = next_turn a"
  "next_turn (a\<lparr>ar_work := c\<rparr>) = next_turn a"
  by (simp_all add: next_turn_def split: option.split)

lemma grants_ahead_mono:
  assumes w: "waiting rid a" "waiting rid a'"
    and turn: "next_turn a' = next_turn a"
    and chat: "waiting_chat rid a' \<longleftrightarrow> waiting_chat rid a"
      "waiting_chat rid a \<Longrightarrow> queue_position rid (ar_chat a') \<le> queue_position rid (ar_chat a)"
    and work: "waiting_work rid a \<Longrightarrow> waiting_work rid a' \<Longrightarrow>
      queue_position rid (ar_work a') \<le> queue_position rid (ar_work a)"
  shows "grants_ahead rid a' \<le> grants_ahead rid a"
proof (cases "waiting_chat rid a")
  case True
  with chat turn show ?thesis by (simp add: grants_ahead_def)
next
  case False
  with w chat(1) have "waiting_work rid a" "waiting_work rid a'" by (auto simp: waiting_def)
  from work [OF this] False chat(1) turn show ?thesis by (simp add: grants_ahead_def)
qed

lemma not_both_queues: "arbiter_ok a \<Longrightarrow> waiting_chat rid a \<Longrightarrow> \<not> waiting_work rid a"
  by (auto simp: arbiter_ok_def all_request_ids_def waiting_chat_def waiting_work_def)

lemma other_class_other [simp]: "other_class (other_class c) = c"
  by (cases c) auto

lemma waiting_id: "waiting rid a \<Longrightarrow> rid \<in> set (all_request_ids a)"
  by (auto simp: waiting_def waiting_chat_def waiting_work_def all_request_ids_def)

lemma enqueue_waits:
  assumes ok: "arbiter_ok a" and w: "waiting rid a" and e: "enqueue r a = Inr (p, a')"
  shows "grants_ahead rid a' \<le> grants_ahead rid a"
proof -
  from enqueue_guards [OF e] waiting_id [OF w] have ne: "rq_id r \<noteq> rid" by auto
  from e have "ar_chat a' = ar_chat a \<and> ar_work a' = ar_work a @ [r] \<and> next_turn a' = next_turn a
      \<or> ar_chat a' = ar_chat a @ [r] \<and> ar_work a' = ar_work a \<and> next_turn a' = next_turn a"
    by (cases rule: enqueue_cases) auto
  then show ?thesis
    using ne w by (auto simp: grants_ahead_def waiting_def waiting_chat_def waiting_work_def queue_position_append)
qed

lemma remove_execution_waits:
  assumes ok: "arbiter_ok a" and w: "waiting rid a" "waiting rid a'"
    and r: "remove_queued_execution task e a = Inr (out, a')"
  shows "grants_ahead rid a' \<le> grants_ahead rid a"
proof -
  from r consider "a' = a" | P where "a' = a\<lparr>ar_work := filter P (ar_work a)\<rparr>"
    by (auto simp: remove_queued_execution_def Let_def split: if_splits)
  then show ?thesis
  proof cases
    case (2 P)
    show ?thesis
      using arbiter_ok_distinct [OF ok]
      by (intro grants_ahead_mono [OF w])
        (auto simp: 2 waiting_chat_def waiting_work_def intro!: queue_position_filter)
  qed simp
qed

lemma delete_first_keeps:
  "delete_first x q = Some (r, q') \<Longrightarrow> rid \<in> rq_id ` set q \<Longrightarrow> rid \<noteq> x \<Longrightarrow> rid \<in> rq_id ` set q'"
  using delete_first_Some by fastforce

lemma remove_queued_waits:
  assumes ok: "arbiter_ok a" and w: "waiting rid a" "waiting rid a'"
    and r: "remove_queued x a = Inr (out, a')"
  shows "grants_ahead rid a' \<le> grants_ahead rid a"
proof -
  note d = arbiter_ok_distinct [OF ok]
  from r consider "a' = a"
    | y q where "delete_first x (ar_chat a) = Some (y, q)" "a' = a\<lparr>ar_chat := q\<rparr>"
    | y q where "delete_first x (ar_work a) = Some (y, q)" "a' = a\<lparr>ar_work := q\<rparr>"
    by (auto simp: remove_queued_def split: option.splits)
  then show ?thesis
  proof cases
    case (2 y q)
    from delete_first_facts(1) [OF 2(1)] have "waiting_chat rid a' \<Longrightarrow> waiting_chat rid a"
      by (auto simp: 2(2) waiting_chat_def)
    moreover have "waiting_chat rid a \<Longrightarrow> waiting_chat rid a'"
      using w(2) not_both_queues [OF ok, of rid] by (auto simp: waiting_def waiting_work_def 2(2))
    ultimately show ?thesis
      using d queue_position_delete [OF _ 2(1)]
      by (intro grants_ahead_mono [OF w]) (auto simp: 2(2) waiting_chat_def)
  next
    case (3 y q)
    show ?thesis
      using d queue_position_delete [OF _ 3(1)]
      by (intro grants_ahead_mono [OF w]) (auto simp: 3(2) waiting_chat_def waiting_work_def)
  qed simp
qed

lemma finish_active_waits:
  "finish_active a = Inr (l, a') \<Longrightarrow>
     next_turn a' = next_turn a \<and> ar_chat a' = ar_chat a \<and> ar_work a' = ar_work a
     \<and> ar_active a' = None \<and> ar_quarantine a' = ar_quarantine a"
  by (auto simp: finish_active_def next_turn_def split: option.splits)

lemma same_queues_wait:
  "next_turn a' = next_turn a \<Longrightarrow> ar_chat a' = ar_chat a \<Longrightarrow> ar_work a' = ar_work a \<Longrightarrow>
     grants_ahead rid a' = grants_ahead rid a"
  by (simp add: grants_ahead_def waiting_chat_def)

lemma arbiter_step_waits:
  assumes ok: "arbiter_ok a" and w: "waiting rid a" "waiting rid a'" and s: "arbiter_step x a = Inr a'"
  shows "of_bool (is_grant x a) + grants_ahead rid a' \<le> grants_ahead rid a"
proof (cases x)
  case (Enqueue r)
  with s enqueue_waits [OF ok w(1)] show ?thesis by (auto simp: py_bind_Inr_iff)
next
  case (Remove_Execution task e)
  with s remove_execution_waits [OF ok w] show ?thesis by (auto simp: py_bind_Inr_iff)
next
  case (Acquire fresh)
  with s obtain out where acq: "acquire_next fresh a = Inr (out, a')" by (auto simp: py_bind_Inr_iff)
  show ?thesis
  proof (cases out)
    case None
    with acq have "a' = a" by (auto elim: acquire_cases)
    with None acq Acquire show ?thesis by (simp add: returns_def)
  next
    case (Some l)
    with acquire_is_grant [OF ok w] acq Acquire show ?thesis by (auto simp: returns_def Suc_le_eq)
  qed
next
  case (Release lid)
  with s have "\<exists>l. finish_active a = Inr (l, a')" by (auto simp: py_bind_Inr_iff release_def)
  then obtain l where "finish_active a = Inr (l, a')" by blast
  from same_queues_wait [of a' a rid] finish_active_waits [OF this] Release show ?thesis by simp
next
  case (Quarantine why lid)
  with s have "a' = a\<lparr>ar_quarantine := Some why\<rparr>" by (auto simp: quarantine_def py_bind_Inr_iff)
  with same_queues_wait [of a' a rid] Quarantine show ?thesis by simp
next
  case (Reconcile stopped lid)
  with s have "next_turn a' = next_turn a \<and> ar_chat a' = ar_chat a \<and> ar_work a' = ar_work a"
    by (auto simp: reconcile_quarantine_def py_bind_Inr_iff split: if_splits dest!: finish_active_waits)
  with same_queues_wait [of a' a rid] Reconcile show ?thesis by simp
next
  case (Remove y)
  with s remove_queued_waits [OF ok w] show ?thesis by (auto simp: py_bind_Inr_iff)
qed

lemma waits_run:
  assumes "arbiter_ok a" and "waiting rid a"
  shows "grants_while_waiting rid ops a \<le> Suc (grants_ahead rid a)"
  using assms
proof (induction ops arbitrary: a)
  case (Cons x ops)
  let ?b = "after_op arbiter_step x a"
  from Cons.prems(1) have ok: "arbiter_ok ?b" by (rule endpoint.after_inv)
  show ?case
  proof (cases "waiting rid ?b")
    case True
    from Cons.IH [OF ok True] have rest: "grants_while_waiting rid ops ?b \<le> Suc (grants_ahead rid ?b)" .
    show ?thesis
    proof (cases "arbiter_step x a")
      case (Inl e)
      then have "\<not> is_grant x a" "?b = a"
        by (cases x; auto simp: after_op_def returns_def py_bind_def split: sum.splits)+
      with rest Cons.prems(2) show ?thesis by simp
    next
      case (Inr b)
      then have "?b = b" by (simp add: after_op_def)
      with arbiter_step_waits [OF Cons.prems _ Inr] True rest Cons.prems(2) show ?thesis by simp
    qed
  next
    case False
    then have "grants_while_waiting rid ops ?b = 0" by (cases ops) simp_all
    with Cons.prems(2) show ?thesis by simp
  qed
qed simp

text \<open>A free arbiter with work queued grants: nothing stops the queue but a lease or a quarantine.\<close>

lemma acquire_progress:
  assumes ok: "arbiter_ok a" and w: "waiting rid a" and free: "ar_active a = None" "ar_quarantine a = None"
    and fresh: "uuid_ok fresh"
  shows "returns (\<lambda>(l, _). l \<noteq> None) (acquire_next fresh a)"
proof -
  from w have ne: "ar_chat a \<noteq> [] \<or> ar_work a \<noteq> []"
    by (auto simp: waiting_def waiting_chat_def waiting_work_def)
  have lease: "\<exists>l. mk_lease fresh (ar_endpoint a) (hd q) = Inr l"
    if "q = ar_chat a \<or> q = ar_work a" "q \<noteq> []" for q
    using that ok fresh hd_in_set [of q] by (auto simp: mk_lease_Inr arbiter_ok_def)
  consider "pick_queue a = Some CHAT" "ar_chat a \<noteq> []" | "pick_queue a = Some WORK" "ar_work a \<noteq> []"
    using ne by (cases "ar_next a"; cases "ar_chat a = []"; cases "ar_work a = []") (auto simp: pick_queue_def)
  then show ?thesis
    using lease [of "ar_chat a"] lease [of "ar_work a"] free
    by cases (auto simp: acquire_next_def returns_def)
qed

section \<open>Quarantine\<close>

definition sealed :: "string \<Rightarrow> endpoint_lease option \<Rightarrow> arbiter \<Rightarrow> bool" where
  "sealed why l a \<longleftrightarrow> ar_quarantine a = Some why \<and> ar_active a = l"

lemma sealed_step:
  assumes "sealed why l a" and "x \<noteq> Reconcile True (map_option le_id l)"
  shows "sealed why l (after_op arbiter_step x a)"
proof (cases "arbiter_step x a")
  case (Inr b)
  have "sealed why l b"
  proof (cases x)
    case (Enqueue r)
    with Inr assms(1) show ?thesis by (auto simp: py_bind_Inr_iff sealed_def dest: enqueue_guards)
  next
    case (Quarantine why' lid)
    with Inr assms(1) show ?thesis by (auto simp: quarantine_def py_bind_Inr_iff sealed_def)
  next
    case (Reconcile stopped lid)
    with Inr assms show ?thesis
      by (auto simp: reconcile_quarantine_def py_bind_Inr_iff sealed_def lease_named_def
        split: if_splits option.splits)
  next
    case (Remove_Execution task e)
    with Inr assms(1) show ?thesis
      by (auto simp: py_bind_Inr_iff sealed_def remove_queued_execution_def Let_def split: if_splits)
  next
    case (Acquire fresh)
    with Inr assms(1) show ?thesis by (auto simp: py_bind_Inr_iff sealed_def acquire_next_def)
  next
    case (Release lid)
    with Inr assms(1) show ?thesis by (auto simp: py_bind_Inr_iff sealed_def release_def)
  next
    case (Remove rid)
    with Inr assms(1) show ?thesis
      by (auto simp: py_bind_Inr_iff sealed_def remove_queued_def split: option.splits)
  qed
  with Inr show ?thesis by (simp add: after_op_def)
qed (use assms in \<open>simp add: after_op_def\<close>)

lemma sealed_run:
  "sealed why l a \<Longrightarrow> Reconcile True (map_option le_id l) \<notin> set ops \<Longrightarrow> sealed why l (run_ops arbiter_step ops a)"
proof (induction ops arbitrary: a)
  case (Cons x ops)
  then have "sealed why l (after_op arbiter_step x a)" by (intro sealed_step) auto
  with Cons.IH Cons.prems(2) show ?case by simp
qed simp

lemma enqueue_sealed: "ar_quarantine a \<noteq> None \<Longrightarrow> \<not> returns P (enqueue r a)"
  by (auto simp: returns_def enqueue_def py_check_def)

section \<open>The properties\<close>

definition demo_id :: "char \<Rightarrow> string" where
  "demo_id c = c # ''23e4567-e89b-12d3-a456-426614174000''"

definition demo_chat :: "char \<Rightarrow> endpoint_request" where
  "demo_chat c = \<lparr>rq_id = demo_id c, rq_endpoint = ''e'', rq_role = CONVERSATION, rq_session = Some ''s'',
     rq_task = None, rq_epoch = None\<rparr>"

definition demo_work :: "char \<Rightarrow> endpoint_request" where
  "demo_work c = \<lparr>rq_id = demo_id c, rq_endpoint = ''e'', rq_role = WORKER, rq_session = None,
     rq_task = Some (demo_id (CHR ''f'')), rq_epoch = Some 0\<rparr>"

definition demo_arbiter :: arbiter where
  "demo_arbiter = \<lparr>ar_endpoint = ''e'', ar_chat_limit = 2, ar_work_limit = 2, ar_chat = [], ar_work = [],
     ar_active = None, ar_quarantine = None, ar_next = CHAT\<rparr>"

definition demo_queue :: "arbiter_op list" where
  "demo_queue = [Enqueue (demo_chat (CHR ''1'')), Enqueue (demo_chat (CHR ''2'')),
     Enqueue (demo_work (CHR ''3'')), Enqueue (demo_work (CHR ''4''))]"

lemma demo_arbiter_made: "mk_arbiter ''e'' 2 2 = Inr demo_arbiter"
  by code_simp

text \<open>The endpoint arbiter is bounded under every script of operations: from a new arbiter,
  no request is queued twice or queued while it is being served, each session has at most its
  limit of conversation requests waiting, the worker queue stays within its limit, each queue
  holds only its own class and its own endpoint, and the one active lease is for this
  endpoint.\<close>
theorem endpoint_queues_bounded:
  assumes "mk_arbiter eid chat_limit work_limit = Inr a"
    and "b = run_ops arbiter_step ops a"
  shows "distinct (all_request_ids b)
    \<and> int (session_pending (Some s) (ar_chat b)) \<le> chat_limit
    \<and> int (length (ar_work b)) \<le> work_limit
    \<and> (\<forall>r \<in> set (ar_chat b). rq_class r = CHAT \<and> rq_endpoint r = eid)
    \<and> (\<forall>r \<in> set (ar_work b). rq_class r = WORK \<and> rq_endpoint r = eid)
    \<and> (ar_active b = Some l \<longrightarrow> le_endpoint l = eid \<and> uuid_ok (le_id l))"
proof -
  from assms(1) have a: "arbiter_ok a" "ar_endpoint a = eid" "ar_chat_limit a = chat_limit"
    "ar_work_limit a = work_limit"
    by (auto simp: mk_arbiter_ok) (auto simp: mk_arbiter_def py_bind_Inr_iff)
  have "arbiter_ok b" and "same_limits a b"
    unfolding assms(2) by (rule endpoint.run_inv endpoint.run_below; fact a)+
  with a show ?thesis by (auto simp: arbiter_ok_def same_limits_def)
qed

text \<open>Three chat requests against a limit of two: the third is refused, and the queue holds two.\<close>

lemma endpoint_queues_bounded_witness:
  "length (ar_chat (run_ops arbiter_step (demo_queue @ [Enqueue (demo_chat (CHR ''5''))]) demo_arbiter)) = 2
   \<and> enqueue (demo_chat (CHR ''5'')) (run_ops arbiter_step demo_queue demo_arbiter) = Inl EndpointQueueFull
   \<and> int (session_pending (Some ''s'')
        (ar_chat (run_ops arbiter_step (demo_queue @ [Enqueue (demo_chat (CHR ''5''))]) demo_arbiter))) \<le> 2"
proof (intro conjI)
  show "length (ar_chat (run_ops arbiter_step (demo_queue @ [Enqueue (demo_chat (CHR ''5''))]) demo_arbiter)) = 2"
    by code_simp
  show "enqueue (demo_chat (CHR ''5'')) (run_ops arbiter_step demo_queue demo_arbiter) = Inl EndpointQueueFull"
    by code_simp
qed (use endpoint_queues_bounded [OF demo_arbiter_made refl] in blast)

text \<open>C8: Waiting for the endpoint is bounded.  Once a request is queued, whatever operations
  follow, no more leases are granted before it leaves its queue than twice its position plus at
  most one for the other class's turn, plus its own; and the arbiter never idles: free and not
  quarantined, it grants a lease.\<close>
theorem waiting_is_bounded:
  assumes "mk_arbiter eid chat_limit work_limit = Inr a0" and "a = run_ops arbiter_step before a0"
    and "waiting rid a"
  shows "grants_while_waiting rid ops a \<le> Suc (grants_ahead rid a)
    \<and> grants_ahead rid a \<le> 2 * (length (ar_chat a) + length (ar_work a))
    \<and> (ar_active a = None \<and> ar_quarantine a = None \<and> uuid_ok fresh \<longrightarrow>
           returns (\<lambda>(l, _). l \<noteq> None) (acquire_next fresh a))"
proof -
  have ok: "arbiter_ok a"
    unfolding assms(2) by (rule endpoint.run_inv) (rule mk_arbiter_ok [OF assms(1)])
  have pos: "queue_position rid q < length q" if "rid \<in> rq_id ` set q" for q
    using that by (induction q) (auto simp: queue_position_def)
  have "grants_ahead rid a \<le> 2 * (length (ar_chat a) + length (ar_work a))"
    using pos [of "ar_chat a"] pos [of "ar_work a"] assms(3)
    by (auto simp: grants_ahead_def waiting_def waiting_chat_def waiting_work_def of_bool_def)
  with waits_run [OF ok assms(3)] acquire_progress [OF ok assms(3)] show ?thesis by blast
qed

text \<open>The second worker call waits behind three grants (chat, work, chat) and is the fourth.\<close>

definition demo_turns :: "arbiter_op list" where
  "demo_turns = concat (map (\<lambda>c. [Acquire (demo_id c), Release (demo_id c)]) ''abcdef'')"

lemma waiting_is_bounded_witness:
  "grants_while_waiting (demo_id (CHR ''4'')) demo_turns (run_ops arbiter_step demo_queue demo_arbiter) = 4
   \<and> grants_while_waiting (demo_id (CHR ''4'')) demo_turns (run_ops arbiter_step demo_queue demo_arbiter)
       \<le> Suc (grants_ahead (demo_id (CHR ''4'')) (run_ops arbiter_step demo_queue demo_arbiter))"
proof
  show "grants_while_waiting (demo_id (CHR ''4'')) demo_turns (run_ops arbiter_step demo_queue demo_arbiter) = 4"
    by code_simp
  have "waiting (demo_id (CHR ''4'')) (run_ops arbiter_step demo_queue demo_arbiter)" by code_simp
  then show "grants_while_waiting (demo_id (CHR ''4'')) demo_turns (run_ops arbiter_step demo_queue demo_arbiter)
      \<le> Suc (grants_ahead (demo_id (CHR ''4'')) (run_ops arbiter_step demo_queue demo_arbiter))"
    using waiting_is_bounded [OF demo_arbiter_made refl] by blast
qed

text \<open>A quarantined endpoint stays shut.  Until the exact lease that was active is
  reconciled as known stopped, no sequence of operations lifts the quarantine or moves the
  lease: nothing more is granted and nothing more is queued.\<close>
theorem quarantine_holds:
  assumes "ar_quarantine a = Some why"
    and "Reconcile True (map_option le_id (ar_active a)) \<notin> set ops"
    and "b = run_ops arbiter_step ops a"
  shows "ar_quarantine b = Some why \<and> ar_active b = ar_active a
    \<and> acquire_next fresh b = Inl EndpointUnavailable \<and> \<not> returns P (enqueue r b)"
proof -
  have "sealed why (ar_active a) b"
    unfolding assms(3) using assms(1,2) by (intro sealed_run) (simp_all add: sealed_def)
  then show ?thesis by (auto simp: sealed_def acquire_next_def enqueue_sealed)
qed

definition demo_shut :: arbiter where
  "demo_shut = run_ops arbiter_step [Acquire (demo_id (CHR ''a'')), Quarantine ''lost'' (Some (demo_id (CHR ''a'')))]
     (run_ops arbiter_step demo_queue demo_arbiter)"

lemma quarantine_holds_witness:
  "ar_quarantine (run_ops arbiter_step [Release (demo_id (CHR ''a'')), Reconcile True None,
      Reconcile False (Some (demo_id (CHR ''a'')))] demo_shut) = Some ''lost''
   \<and> ar_quarantine (after_op arbiter_step (Reconcile True (Some (demo_id (CHR ''a'')))) demo_shut) = None"
proof
  show "ar_quarantine (run_ops arbiter_step [Release (demo_id (CHR ''a'')), Reconcile True None,
      Reconcile False (Some (demo_id (CHR ''a'')))] demo_shut) = Some ''lost''"
  proof (rule quarantine_holds [THEN conjunct1, OF _ _ refl])
    show "ar_quarantine demo_shut = Some ''lost''" by code_simp
    show "Reconcile True (map_option le_id (ar_active demo_shut))
        \<notin> set [Release (demo_id (CHR ''a'')), Reconcile True None, Reconcile False (Some (demo_id (CHR ''a'')))]"
      by code_simp
  qed
  show "ar_quarantine (after_op arbiter_step (Reconcile True (Some (demo_id (CHR ''a'')))) demo_shut) = None"
    by code_simp
qed

end
