(* ===== verification/Json_Codec.thy ===== *)
theory Json_Codec
  imports Py_Value
begin

text \<open>
  The part of the standard library's \<open>json\<close> that the durable stores rest on: the compact
  canonical writer \<open>json.dumps(value, sort_keys=True, separators=(",", ":"))\<close> and the reader
  \<open>json.loads\<close>, with the proof that reading back what was written gives the value with its
  keys sorted.  Numbers with a fraction or an exponent and characters above 255 are outside
  the model's values; the reader refuses them.
\<close>

section \<open>Writing\<close>

fun json_compact :: "pyval \<Rightarrow> string" where
  "json_compact PNone = ''null''"
| "json_compact (PBool b) = (if b then ''true'' else ''false'')"
| "json_compact (PInt i) = int_str i"
| "json_compact (PStr s) = json_str s"
| "json_compact (PList xs) = ''['' @ join '','' (map json_compact xs) @ '']''"
| "json_compact (PDict d) =
     ''{'' @ join '','' (map (\<lambda>kv. json_str (fst kv) @ '':'' @ snd kv)
                  (sort_key fst (map (\<lambda>kv. (fst kv, json_compact (snd kv))) d))) @ ''}''"

text \<open>
  The writers of the program differ in three ways: how a character is escaped, the space after a
  separator, and whether the keys of an object are sorted.
\<close>

record json_style =
  js_char :: "char \<Rightarrow> string"
  js_gap :: string
  js_sorted :: bool

definition quoted :: "(char \<Rightarrow> string) \<Rightarrow> string \<Rightarrow> string" where
  "quoted esc s = CHR 0x22 # concat (map esc s) @ [CHR 0x22]"

definition arranged :: "bool \<Rightarrow> (string \<times> 'a) list \<Rightarrow> (string \<times> 'a) list" where
  "arranged b xs = (if b then sort_key fst xs else xs)"

fun json_text :: "json_style \<Rightarrow> pyval \<Rightarrow> string" where
  "json_text st PNone = ''null''"
| "json_text st (PBool b) = (if b then ''true'' else ''false'')"
| "json_text st (PInt i) = int_str i"
| "json_text st (PStr s) = quoted (js_char st) s"
| "json_text st (PList xs) = ''['' @ join (CHR '','' # js_gap st) (map (json_text st) xs) @ '']''"
| "json_text st (PDict d) =
     ''{'' @ join (CHR '','' # js_gap st) (map (\<lambda>kv. quoted (js_char st) (fst kv) @ CHR '':'' # js_gap st @ snd kv)
                  (arranged (js_sorted st) (map (\<lambda>kv. (fst kv, json_text st (snd kv))) d))) @ ''}''"

definition compact_style :: json_style where
  "compact_style = \<lparr>js_char = json_char, js_gap = [], js_sorted = True\<rparr>"

definition json_char_raw :: "char \<Rightarrow> string" where
  \<comment> \<open>one character of a JSON string without \<open>ensure_ascii\<close>: only controls are escaped\<close>
  "json_char_raw c = (if code c < 127 then json_char c else [c])"

definition raw_style :: json_style where
  \<comment> \<open>\<open>json.dumps(value, sort_keys=True, separators=(",", ":"), ensure_ascii=False)\<close>\<close>
  "raw_style = \<lparr>js_char = json_char_raw, js_gap = [], js_sorted = True\<rparr>"

definition plain_style :: json_style where
  \<comment> \<open>\<open>json.dumps(value)\<close>\<close>
  "plain_style = \<lparr>js_char = json_char, js_gap = '' '', js_sorted = False\<rparr>"

section \<open>Reading\<close>

definition json_ws :: "char \<Rightarrow> bool" where
  "json_ws c \<longleftrightarrow> code c \<in> {9, 10, 13, 32}"

definition skip_ws :: "string \<Rightarrow> string" where
  "skip_ws s = dropWhile json_ws s"

definition hex_value :: "char \<Rightarrow> nat option" where
  "hex_value c =
     (let n = code c in
      if 48 \<le> n \<and> n \<le> 57 then Some (n - 48)
      else if 97 \<le> n \<and> n \<le> 102 then Some (n - 87)
      else if 65 \<le> n \<and> n \<le> 70 then Some (n - 55) else None)"

fun hex4 :: "string \<Rightarrow> (nat \<times> string) option" where
  "hex4 (a # b # c # d # s) =
     (case (hex_value a, hex_value b, hex_value c, hex_value d) of
        (Some w, Some x, Some y, Some z) \<Rightarrow> Some (((w * 16 + x) * 16 + y) * 16 + z, s)
      | _ \<Rightarrow> None)"
| "hex4 _ = None"

definition escape_value :: "char \<Rightarrow> char option" where
  "escape_value c =
     map_of [(CHR 0x22, CHR 0x22), (CHR 0x5C, CHR 0x5C), (CHR ''/'', CHR ''/''), (CHR ''b'', CHR 0x08),
       (CHR ''f'', CHR 0x0C), (CHR ''n'', CHR 0x0A), (CHR ''r'', CHR 0x0D), (CHR ''t'', CHR 0x09)] c"

definition push_char :: "char \<Rightarrow> (string \<times> string) py \<Rightarrow> (string \<times> string) py" where
  "push_char c m = py_bind m (\<lambda>(s, r). Inr (c # s, r))"

lemma hex4_shorter: "hex4 s = Some (n, r) \<Longrightarrow> length r < length s"
  by (induction s rule: hex4.induct) (auto split: option.splits)

function parse_chars :: "string \<Rightarrow> (string \<times> string) py" where
  \<comment> \<open>the rest of a string literal after its opening quote\<close>
  "parse_chars s =
     (case s of
        [] \<Rightarrow> Inl ValueError
      | c # cs \<Rightarrow>
          if c = CHR 0x22 then Inr ([], cs)
          else if c = CHR 0x5C then
            (case cs of
               [] \<Rightarrow> Inl ValueError
             | e # ds \<Rightarrow>
                 if e = CHR ''u'' then
                   (case hex4 ds of
                      None \<Rightarrow> Inl ValueError
                    | Some (n, es) \<Rightarrow>
                        if n < 256 then push_char (char_of n) (parse_chars es) else Inl ValueError)
                 else
                   (case escape_value e of
                      None \<Rightarrow> Inl ValueError
                    | Some x \<Rightarrow> push_char x (parse_chars ds)))
          else if code c < 32 then Inl ValueError
          else push_char c (parse_chars cs))"
  by pat_completeness auto
termination
  by (relation "measure length") (auto dest: hex4_shorter)

declare parse_chars.simps [simp del]

definition is_digit :: "char \<Rightarrow> bool" where
  "is_digit c \<longleftrightarrow> 48 \<le> code c \<and> code c \<le> 57"

definition decimal_value :: "string \<Rightarrow> nat" where
  "decimal_value s = foldl (\<lambda>n c. 10 * n + (code c - 48)) 0 s"

definition parse_nat :: "string \<Rightarrow> (nat \<times> string) py" where
  \<comment> \<open>\<open>0\<close> or a numeral without a leading zero; a fraction or an exponent is not an integer\<close>
  "parse_nat s =
     (let ds = takeWhile is_digit s;
          num = (if ds \<noteq> [] \<and> hd ds = CHR ''0'' then ''0'' else ds);
          r = drop (length num) s
      in if num = [] \<or> (r \<noteq> [] \<and> (hd r = CHR ''.'' \<or> hd r = CHR ''e'' \<or> hd r = CHR ''E''))
         then Inl ValueError else Inr (decimal_value num, r))"

definition parse_int :: "string \<Rightarrow> (pyval \<times> string) py" where
  "parse_int s =
     (case s of
        [] \<Rightarrow> Inl ValueError
      | c # cs \<Rightarrow>
          if c = CHR ''-'' then py_bind (parse_nat cs) (\<lambda>(n, r). Inr (PInt (- int n), r))
          else py_bind (parse_nat s) (\<lambda>(n, r). Inr (PInt (int n), r)))"

definition literal :: "string \<Rightarrow> string \<Rightarrow> bool" where
  "literal w s \<longleftrightarrow> take (length w) s = w"

fun parse_value :: "nat \<Rightarrow> string \<Rightarrow> (pyval \<times> string) py"
and parse_items :: "nat \<Rightarrow> string \<Rightarrow> (pyval list \<times> string) py"
and parse_pairs :: "nat \<Rightarrow> pydict \<Rightarrow> string \<Rightarrow> (pydict \<times> string) py" where
  "parse_value 0 s = Inl ValueError"
| "parse_value (Suc f) s =
     (case s of
        [] \<Rightarrow> Inl ValueError
      | c # cs \<Rightarrow>
          if c = CHR 0x22 then py_bind (parse_chars cs) (\<lambda>(t, r). Inr (PStr t, r))
          else if c = CHR ''['' then
            (case skip_ws cs of
               [] \<Rightarrow> Inl ValueError
             | d # ds \<Rightarrow>
                 if d = CHR '']'' then Inr (PList [], ds)
                 else py_bind (parse_items f (d # ds)) (\<lambda>(vs, r). Inr (PList vs, r)))
          else if c = CHR ''{'' then
            (case skip_ws cs of
               [] \<Rightarrow> Inl ValueError
             | d # ds \<Rightarrow>
                 if d = CHR ''}'' then Inr (PDict [], ds)
                 else py_bind (parse_pairs f [] (d # ds)) (\<lambda>(kvs, r). Inr (PDict kvs, r)))
          else if literal ''null'' s then Inr (PNone, drop 4 s)
          else if literal ''true'' s then Inr (PBool True, drop 4 s)
          else if literal ''false'' s then Inr (PBool False, drop 5 s)
          else parse_int s)"
| "parse_items 0 s = Inl ValueError"
| "parse_items (Suc f) s =
     py_bind (parse_value f s) (\<lambda>(v, r).
       case skip_ws r of
         [] \<Rightarrow> Inl ValueError
       | c # cs \<Rightarrow>
           if c = CHR '']'' then Inr ([v], cs)
           else if c = CHR '','' then
             py_bind (parse_items f (skip_ws cs)) (\<lambda>(vs, q). Inr (v # vs, q))
           else Inl ValueError)"
| "parse_pairs 0 acc s = Inl ValueError"
| "parse_pairs (Suc f) acc s =
     (case s of
        [] \<Rightarrow> Inl ValueError
      | c # cs \<Rightarrow>
          py_check (c \<noteq> CHR 0x22) ValueError (
          py_bind (parse_chars cs) (\<lambda>(k, r).
            case skip_ws r of
              [] \<Rightarrow> Inl ValueError
            | d # ds \<Rightarrow>
                py_check (d \<noteq> CHR '':'') ValueError (
                py_bind (parse_value f (skip_ws ds)) (\<lambda>(v, q).
                  case skip_ws q of
                    [] \<Rightarrow> Inl ValueError
                  | e # es \<Rightarrow>
                      if e = CHR ''}'' then Inr (py_set acc k v, es)
                      else if e = CHR '','' then parse_pairs f (py_set acc k v) (skip_ws es)
                      else Inl ValueError)))))"

definition json_loads :: "string \<Rightarrow> pyval py" where
  "json_loads s =
     py_bind (parse_value (length s) (skip_ws s)) (\<lambda>(v, r).
       if skip_ws r = [] then Inr v else Inl ValueError)"

section \<open>Subscripts and conversions\<close>

definition py_item :: "pyval \<Rightarrow> string \<Rightarrow> pyval py" where
  \<comment> \<open>\<open>v[key]\<close>\<close>
  "py_item v k =
     (case v of PDict d \<Rightarrow> (case map_of d k of None \<Rightarrow> Inl KeyError | Some w \<Rightarrow> Inr w)
      | _ \<Rightarrow> Inl TypeError)"

definition py_obj :: "pyval \<Rightarrow> pydict py" where
  \<comment> \<open>the receiver of \<open>v.get(...)\<close>\<close>
  "py_obj v = (case v of PDict d \<Rightarrow> Inr d | _ \<Rightarrow> Inl AttributeError)"

definition int_of_text :: "string \<Rightarrow> int py" where
  \<comment> \<open>\<open>int(text)\<close> for an optional sign and plain digits\<close>
  "int_of_text s =
     (let t = py_strip s;
          neg = (t \<noteq> [] \<and> hd t = CHR ''-'');
          u = (if t \<noteq> [] \<and> (hd t = CHR ''-'' \<or> hd t = CHR ''+'') then tl t else t)
      in if u = [] \<or> \<not> list_all is_digit u then Inl ValueError
         else Inr (if neg then - int (decimal_value u) else int (decimal_value u)))"

definition py_int :: "pyval \<Rightarrow> int py" where
  "py_int v =
     (case v of PInt i \<Rightarrow> Inr i | PBool b \<Rightarrow> Inr (of_bool b) | PStr s \<Rightarrow> int_of_text s
      | _ \<Rightarrow> Inl TypeError)"

definition member_of :: "string list \<Rightarrow> pyval \<Rightarrow> bool py" where
  \<comment> \<open>membership in a set of texts; an unhashable value is a TypeError\<close>
  "member_of xs v =
     (case v of PStr s \<Rightarrow> Inr (s \<in> set xs) | PList _ \<Rightarrow> Inl TypeError | PDict _ \<Rightarrow> Inl TypeError | _ \<Rightarrow> Inr False)"

definition iterate :: "pyval \<Rightarrow> pyval list py" where
  \<comment> \<open>\<open>for item in v\<close>\<close>
  "iterate v =
     (case v of PList xs \<Rightarrow> Inr xs | PStr s \<Rightarrow> Inr (map (\<lambda>c. PStr [c]) s)
      | PDict d \<Rightarrow> Inr (map (\<lambda>kv. PStr (fst kv)) d) | _ \<Rightarrow> Inl TypeError)"

section \<open>Canonical values\<close>

fun canon :: "pyval \<Rightarrow> pyval" where
  \<comment> \<open>the value with the keys of every object in order\<close>
  "canon (PList xs) = PList (map canon xs)"
| "canon (PDict d) = PDict (sort_key fst (map (\<lambda>kv. (fst kv, canon (snd kv))) d))"
| "canon v = v"

fun styled :: "bool \<Rightarrow> pyval \<Rightarrow> pyval" where
  \<comment> \<open>the value as the text has it: keys in order when they were sorted\<close>
  "styled b (PList xs) = PList (map (styled b) xs)"
| "styled b (PDict d) = PDict (arranged b (map (\<lambda>kv. (fst kv, styled b (snd kv))) d))"
| "styled b v = v"

fun eq_form :: "pyval \<Rightarrow> pyval" where
  \<comment> \<open>what \<open>==\<close> compares: objects without order, booleans as numbers\<close>
  "eq_form (PBool b) = PInt (of_bool b)"
| "eq_form (PList xs) = PList (map eq_form xs)"
| "eq_form (PDict d) = PDict (sort_key fst (map (\<lambda>kv. (fst kv, eq_form (snd kv))) d))"
| "eq_form v = v"

definition py_eq :: "pyval \<Rightarrow> pyval \<Rightarrow> bool" where
  "py_eq v w \<longleftrightarrow> eq_form v = eq_form w"

fun keys_distinct :: "pyval \<Rightarrow> bool" where
  "keys_distinct (PList xs) \<longleftrightarrow> (\<forall>x \<in> set xs. keys_distinct x)"
| "keys_distinct (PDict d) \<longleftrightarrow> distinct (map fst d) \<and> (\<forall>kv \<in> set d. keys_distinct (snd kv))"
| "keys_distinct v \<longleftrightarrow> True"

section \<open>Strings are read back\<close>

lemma code_char [simp]: "char_of (code c) = c"
  by (simp add: code_def)

lemma code_less [simp]: "code c < 256"
proof -
  have "code c = of_char (char_of (of_char c :: nat))" by (simp add: code_def)
  then show ?thesis by (simp only: of_char_of)
qed

lemma code_inj: "code c = code d \<longleftrightarrow> c = d"
  by (metis code_char)

lemma hex_value_char: "d < 16 \<Longrightarrow> hex_value (hex_char d) = Some d"
proof -
  have "\<forall>d \<in> set [0..<16]. hex_value (hex_char d) = Some d" by code_simp
  then show "d < 16 \<Longrightarrow> hex_value (hex_char d) = Some d" by simp
qed

lemma parse_chars_quote [simp]: "parse_chars (CHR 0x22 # cs) = Inr ([], cs)"
  by (subst parse_chars.simps) simp

lemma parse_chars_escape:
  "escape_value e = Some x \<Longrightarrow> parse_chars (CHR 0x5C # e # s) = push_char x (parse_chars s)"
  by (subst parse_chars.simps) (auto simp: escape_value_def split: if_splits)

lemma parse_chars_plain:
  "c \<noteq> CHR 0x22 \<Longrightarrow> c \<noteq> CHR 0x5C \<Longrightarrow> 32 \<le> code c \<Longrightarrow> parse_chars (c # s) = push_char c (parse_chars s)"
  by (subst parse_chars.simps) simp

lemma parse_chars_unicode:
  "parse_chars (CHR 0x5C # CHR ''u'' # ''00'' @ hex_char (code c div 16) # hex_char (code c mod 16) # s)
     = push_char c (parse_chars s)"
proof -
  have "code c div 16 < 16" using code_less [of c] by (simp add: less_mult_imp_div_less)
  moreover have "hex_value (CHR ''0'') = Some 0" by code_simp
  ultimately have "hex4 (''00'' @ hex_char (code c div 16) # hex_char (code c mod 16) # s) = Some (code c, s)"
    by (simp add: hex_value_char)
  then show ?thesis by (subst parse_chars.simps) simp
qed

lemma parse_json_char: "parse_chars (json_char c @ s) = push_char c (parse_chars s)"
proof -
  have q: "code c = 34 \<longleftrightarrow> c = CHR 0x22" "code c = 92 \<longleftrightarrow> c = CHR 0x5C" "code c = 10 \<longleftrightarrow> c = CHR 0x0A"
    "code c = 13 \<longleftrightarrow> c = CHR 0x0D" "code c = 9 \<longleftrightarrow> c = CHR 0x09" "code c = 12 \<longleftrightarrow> c = CHR 0x0C"
    "code c = 8 \<longleftrightarrow> c = CHR 0x08"
    by (simp_all add: code_inj [symmetric]) (simp_all add: code_def)
  consider "c \<in> {CHR 0x22, CHR 0x5C, CHR 0x0A, CHR 0x0D, CHR 0x09, CHR 0x0C, CHR 0x08}"
    | "c \<notin> {CHR 0x22, CHR 0x5C, CHR 0x0A, CHR 0x0D, CHR 0x09, CHR 0x0C, CHR 0x08}" by blast
  then show ?thesis
  proof cases
    case 1
    then show ?thesis
      by (auto simp: json_char_def Let_def q parse_chars_escape escape_value_def)
  next
    case 2
    then show ?thesis
      using parse_chars_unicode [of c s] by (simp add: json_char_def Let_def q parse_chars_plain)
  qed
qed

lemma parse_json_text: "parse_chars (concat (map json_char s) @ CHR 0x22 # r) = Inr (s, r)"
  by (induction s) (simp_all add: parse_json_char push_char_def)

section \<open>Numbers are read back\<close>

lemma code_digit: "d < 10 \<Longrightarrow> code (digit_char d) = 48 + d"
  by (simp add: code_def digit_char_def of_char_of take_bit_eq_mod)

lemma nat_str_digits: "\<forall>c \<in> set (nat_str n). is_digit c"
proof (induction n rule: nat_str.induct)
  case (1 n)
  then show ?case
    by (subst nat_str.simps) (auto simp: is_digit_def code_digit)
qed

lemma decimal_snoc: "decimal_value (s @ [c]) = 10 * decimal_value s + (code c - 48)"
  by (simp add: decimal_value_def)

lemma decimal_nat_str: "decimal_value (nat_str n) = n"
proof (induction n rule: nat_str.induct)
  case (1 n)
  show ?case
  proof (cases "n < 10")
    case True
    then show ?thesis by (subst nat_str.simps) (simp add: decimal_value_def code_digit)
  next
    case False
    with 1 have "decimal_value (nat_str (n div 10)) = n div 10" by simp
    with False show ?thesis by (subst nat_str.simps) (simp add: decimal_snoc code_digit)
  qed
qed

lemma nat_str_zero: "hd (nat_str n) = CHR ''0'' \<Longrightarrow> nat_str n = ''0''"
proof (induction n rule: nat_str.induct)
  case (1 n)
  show ?case
  proof (cases "n < 10")
    case True
    with "1.prems" show ?thesis by (simp add: nat_str.simps)
  next
    case False
    with "1.prems" have "hd (nat_str (n div 10)) = CHR ''0''" by (simp add: nat_str.simps [of n])
    with 1 False have "nat_str (n div 10) = ''0''" by simp
    then have "n div 10 = 0" using decimal_nat_str [of "n div 10"] by (simp add: decimal_value_def code_def)
    with False show ?thesis by simp
  qed
qed

definition closes :: "string \<Rightarrow> bool" where
  \<comment> \<open>what follows a value in written text\<close>
  "closes r \<longleftrightarrow> r = [] \<or> hd r \<in> {CHR '','', CHR '']'', CHR ''}''} \<or> json_ws (hd r)"

lemma closes_simps [simp]:
  "closes []" "closes (CHR '','' # r)" "closes (CHR '']'' # r)" "closes (CHR ''}'' # r)"
  by (simp_all add: closes_def)

lemma closes_not_digit: "closes r \<Longrightarrow> takeWhile is_digit r = []"
  by (cases r) (auto simp: closes_def is_digit_def json_ws_def code_def)

lemma parse_nat_str: "closes r \<Longrightarrow> parse_nat (nat_str n @ r) = Inr (n, r)"
proof -
  assume r: "closes r"
  then have "takeWhile is_digit (nat_str n @ r) = nat_str n"
    using nat_str_digits [of n] by (simp add: takeWhile_append2 closes_not_digit)
  moreover have "\<not> (r \<noteq> [] \<and> (hd r = CHR ''.'' \<or> hd r = CHR ''e'' \<or> hd r = CHR ''E''))"
    using r by (auto simp: closes_def json_ws_def code_def)
  ultimately show ?thesis
    using nat_str_zero [of n] decimal_nat_str [of n] by (auto simp: parse_nat_def Let_def)
qed

lemma parse_int_str: "closes r \<Longrightarrow> parse_int (int_str i @ r) = Inr (PInt i, r)"
proof -
  assume r: "closes r"
  obtain c cs where n: "nat_str (nat i) = c # cs" by (cases "nat_str (nat i)") auto
  with nat_str_digits [of "nat i"] have "c \<noteq> CHR ''-''" by (auto simp: is_digit_def code_def)
  with n parse_nat_str [OF r, of "nat i"] parse_nat_str [OF r, of "nat (- i)"] show ?thesis
    by (auto simp: parse_int_def int_str_def)
qed

section \<open>Values are read back\<close>

lemma skip_ws_Cons: "\<not> json_ws c \<Longrightarrow> skip_ws (c # s) = c # s"
  by (simp add: skip_ws_def)

lemma json_punctuation [simp]:
  "skip_ws (CHR 0x22 # s) = CHR 0x22 # s" "skip_ws (CHR ''['' # s) = CHR ''['' # s"
  "skip_ws (CHR ''{'' # s) = CHR ''{'' # s" "skip_ws (CHR '']'' # s) = CHR '']'' # s"
  "skip_ws (CHR ''}'' # s) = CHR ''}'' # s" "skip_ws (CHR '','' # s) = CHR '','' # s"
  "skip_ws (CHR '':'' # s) = CHR '':'' # s" "skip_ws [] = []"
  by (simp_all add: skip_ws_def json_ws_def code_def)

definition starts_value :: "string \<Rightarrow> bool" where
  \<comment> \<open>the text begins like a value: no whitespace, no closing bracket\<close>
  "starts_value s \<longleftrightarrow> s \<noteq> [] \<and> \<not> json_ws (hd s) \<and> hd s \<noteq> CHR '']'' \<and> hd s \<noteq> CHR ''}''"

lemma starts_value_append: "starts_value s \<Longrightarrow> starts_value (s @ r)"
  by (simp add: starts_value_def)

lemma starts_value_ws: "starts_value s \<Longrightarrow> skip_ws (s @ r) = s @ r"
  by (cases s) (auto simp: starts_value_def skip_ws_Cons)

lemma int_str_hd:
  obtains c cs where "int_str i = c # cs" "c = CHR ''-'' \<or> is_digit c"
proof -
  obtain c cs where n: "nat_str (nat i) = c # cs" by (cases "nat_str (nat i)") auto
  with nat_str_digits [of "nat i"] have "is_digit c" by simp
  with n show thesis by (cases "i < 0") (auto simp: int_str_def intro: that)
qed

lemma parse_value_int:
  assumes "closes r"
  shows "parse_value (Suc f) (int_str i @ r) = Inr (PInt i, r)"
proof -
  obtain c cs where i: "int_str i = c # cs" and c: "c = CHR ''-'' \<or> is_digit c" by (rule int_str_hd)
  have "c \<notin> {CHR 0x22, CHR ''['', CHR ''{'', CHR ''n'', CHR ''t'', CHR ''f''}"
    using c by (auto simp: is_digit_def code_def)
  with i parse_int_str [OF assms, of i] show ?thesis by (simp add: literal_def)
qed

lemma parse_char_raw: "parse_chars (json_char_raw c @ s) = push_char c (parse_chars s)"
proof (cases "code c < 127")
  case False
  then have "c \<noteq> CHR 0x22" "c \<noteq> CHR 0x5C" by (auto simp: code_def)
  with False show ?thesis by (simp add: json_char_raw_def parse_chars_plain)
qed (simp add: json_char_raw_def parse_json_char)

definition pair_text :: "json_style \<Rightarrow> string \<times> pyval \<Rightarrow> string" where
  "pair_text st kv = quoted (js_char st) (fst kv) @ CHR '':'' # js_gap st @ json_text st (snd kv)"

definition styled_pair :: "bool \<Rightarrow> string \<times> pyval \<Rightarrow> string \<times> pyval" where
  "styled_pair b kv = (fst kv, styled b (snd kv))"

lemma py_set_new: "k \<notin> fst ` set d \<Longrightarrow> py_set d k v = d @ [(k, v)]"
  by (simp add: py_set_def has_key_def)

lemma sort_key_map_fst:
  "sort_key fst (map (\<lambda>kv. (fst kv, g (snd kv))) d) = map (\<lambda>kv. (fst kv, g (snd kv))) (sort_key fst d)"
proof -
  have ins: "insort_key fst (fst kv, g (snd kv)) (map (\<lambda>kv. (fst kv, g (snd kv))) xs) =
      map (\<lambda>kv. (fst kv, g (snd kv))) (insort_key fst kv xs)" for kv xs
    by (induction xs) auto
  show ?thesis by (induction d) (simp_all add: ins)
qed

lemma arranged_map: "arranged b (map (\<lambda>kv. (fst kv, g (snd kv))) d) = map (\<lambda>kv. (fst kv, g (snd kv))) (arranged b d)"
  by (simp add: arranged_def sort_key_map_fst del: sort_key_simps)

lemma arranged_set [simp]: "set (arranged b d) = set d"
  by (simp add: arranged_def)

lemma arranged_distinct [simp]: "distinct (map fst (arranged b d)) = distinct (map fst d)"
  by (simp add: arranged_def distinct_map)

lemma arranged_Nil [simp]: "arranged b d = [] \<longleftrightarrow> d = []"
  by (metis arranged_set set_empty)

lemma arranged_empty [simp]: "arranged b [] = []"
  by (simp add: arranged_def)

lemma json_text_dict:
  "json_text st (PDict d) = CHR ''{'' # join (CHR '','' # js_gap st) (map (pair_text st) (arranged (js_sorted st) d)) @ ''}''"
  by (simp add: arranged_map pair_text_def [abs_def] comp_def)

lemma styled_dict: "styled b (PDict d) = PDict (map (styled_pair b) (arranged b d))"
  by (simp add: arranged_map styled_pair_def [abs_def])

lemma json_text_starts: "starts_value (json_text st v)"
proof (cases v)
  case (PInt i)
  obtain c cs where "int_str i = c # cs" "c = CHR ''-'' \<or> is_digit c" by (rule int_str_hd)
  with PInt show ?thesis by (auto simp: starts_value_def json_ws_def is_digit_def code_def)
qed (auto simp: starts_value_def json_ws_def code_def quoted_def)

lemma pair_text_starts: "starts_value (pair_text st kv)"
  by (simp add: pair_text_def quoted_def starts_value_def json_ws_def code_def)

lemma join_first: "xs \<noteq> [] \<Longrightarrow> starts_value (hd xs) \<Longrightarrow> starts_value (join sep xs @ r)"
  by (cases xs; cases "tl xs") (auto simp: starts_value_append)

lemma join_more: "ys \<noteq> [] \<Longrightarrow> join sep (x # ys) = x @ sep @ join sep ys"
  by (cases ys) simp_all

text \<open>The reader takes any text of a writer whose escapes it undoes and whose gaps are spaces.\<close>

locale json_writer =
  fixes st :: json_style
  assumes chars: "parse_chars (js_char st c @ s) = push_char c (parse_chars s)"
    and gap: "list_all json_ws (js_gap st)"
begin

lemma skip_gap: "skip_ws (js_gap st @ s) = skip_ws s"
  using gap by (simp add: skip_ws_def list_all_iff dropWhile_append2)

lemma quoted_text: "parse_chars (concat (map (js_char st) t) @ CHR 0x22 # r) = Inr (t, r)"
  by (induction t) (simp_all add: chars push_char_def)

text \<open>An array whose elements are read back, and an object whose values are.\<close>

lemma items_text:
  assumes "\<And>v f r. v \<in> set vs \<Longrightarrow> length (json_text st v) \<le> f \<Longrightarrow> closes r \<Longrightarrow>
      parse_value f (json_text st v @ r) = Inr (h v, r)"
    and "vs \<noteq> []" and "length (join (CHR '','' # js_gap st) (map (json_text st) vs)) < f"
  shows "parse_items f (join (CHR '','' # js_gap st) (map (json_text st) vs) @ CHR '']'' # r) = Inr (map h vs, r)"
  using assms
proof (induction vs arbitrary: f)
  case (Cons v vs)
  from Cons.prems(3) obtain g where f: "f = Suc g" by (cases f) auto
  show ?case
  proof (cases "vs = []")
    case True
    with Cons.prems(3) f have "length (json_text st v) \<le> g" by simp
    from Cons.prems(1) [OF _ this, of "CHR '']'' # r"] True f show ?thesis by simp
  next
    case False
    let ?rest = "join (CHR '','' # js_gap st) (map (json_text st) vs)"
    have j: "join (CHR '','' # js_gap st) (map (json_text st) (v # vs)) = json_text st v @ CHR '','' # js_gap st @ ?rest"
      using False by (simp add: join_more)
    from Cons.prems(3) j f have le: "length (json_text st v) \<le> g" "length ?rest < g" by simp_all
    have rest: "parse_items g (?rest @ CHR '']'' # r) = Inr (map h vs, r)"
      using Cons.prems(1) le(2) False by (intro Cons.IH) auto
    have "starts_value (?rest @ CHR '']'' # r)" using False json_text_starts by (intro join_first) (auto simp: hd_map)
    then have ws: "skip_ws (js_gap st @ ?rest @ CHR '']'' # r) = ?rest @ CHR '']'' # r"
      using starts_value_ws [of _ "[]"] by (simp add: skip_gap)
    from Cons.prems(1) [OF _ le(1), of "CHR '','' # js_gap st @ ?rest @ CHR '']'' # r"] rest ws f
    show ?thesis by (simp only: j) simp
  qed
qed simp

lemma pairs_step:
  assumes "parse_value f (json_text st v @ e # s) = Inr (v', e # s)" and "\<not> json_ws e"
  shows "parse_pairs (Suc f) acc (pair_text st (k, v) @ e # s) =
    (if e = CHR ''}'' then Inr (py_set acc k v', s)
     else if e = CHR '','' then parse_pairs f (py_set acc k v') (skip_ws s) else Inl ValueError)"
  using assms starts_value_ws [OF json_text_starts, of st v "e # s"]
  by (simp add: pair_text_def quoted_def quoted_text skip_gap skip_ws_Cons [OF assms(2)])

lemma pairs_text:
  assumes "\<And>kv f r. kv \<in> set d \<Longrightarrow> length (json_text st (snd kv)) \<le> f \<Longrightarrow> closes r \<Longrightarrow>
      parse_value f (json_text st (snd kv) @ r) = Inr (h (snd kv), r)"
    and "d \<noteq> []" and "length (join (CHR '','' # js_gap st) (map (pair_text st) d)) < f"
    and "distinct (map fst (acc @ d))"
  shows "parse_pairs f acc (join (CHR '','' # js_gap st) (map (pair_text st) d) @ CHR ''}'' # r)
    = Inr (acc @ map (\<lambda>kv. (fst kv, h (snd kv))) d, r)"
  using assms
proof (induction d arbitrary: f acc)
  case (Cons kv d)
  obtain k v where kv: "kv = (k, v)" by (cases kv)
  from Cons.prems(3) obtain g where f: "f = Suc g" by (cases f) auto
  from Cons.prems(4) kv have set: "py_set acc k w = acc @ [(k, w)]" for w by (intro py_set_new) auto
  have le: "length (json_text st v) \<le> g"
    using Cons.prems(3) kv f by (cases d) (simp_all add: pair_text_def)
  note step = Cons.prems(1) [of kv g, OF _ _, simplified kv snd_conv, OF _ le]
  show ?case
  proof (cases "d = []")
    case True
    from step [of "CHR ''}'' # r"] have "parse_value g (json_text st v @ CHR ''}'' # r) = Inr (h v, CHR ''}'' # r)"
      using kv by simp
    from pairs_step [OF this, of acc k] True f kv set show ?thesis
      by (simp add: json_ws_def code_def)
  next
    case False
    let ?rest = "join (CHR '','' # js_gap st) (map (pair_text st) d)"
    have j: "join (CHR '','' # js_gap st) (map (pair_text st) (kv # d)) = pair_text st (k, v) @ CHR '','' # js_gap st @ ?rest"
      using False kv by (simp add: join_more)
    from Cons.prems(3) j f have lr: "length ?rest < g" by simp
    have rest: "parse_pairs g (acc @ [(k, h v)]) (?rest @ CHR ''}'' # r)
        = Inr ((acc @ [(k, h v)]) @ map (\<lambda>kv. (fst kv, h (snd kv))) d, r)"
      using Cons.prems(1,4) lr False kv by (intro Cons.IH) auto
    have "starts_value (?rest @ CHR ''}'' # r)" using False pair_text_starts by (intro join_first) (auto simp: hd_map)
    then have ws: "skip_ws (js_gap st @ ?rest @ CHR ''}'' # r) = ?rest @ CHR ''}'' # r"
      using starts_value_ws [of _ "[]"] by (simp add: skip_gap)
    have "parse_value g (json_text st v @ CHR '','' # js_gap st @ ?rest @ CHR ''}'' # r)
        = Inr (h v, CHR '','' # js_gap st @ ?rest @ CHR ''}'' # r)"
      using step kv by simp
    from pairs_step [OF this, of acc k] rest ws f set
    have "parse_pairs f acc (pair_text st (k, v) @ CHR '','' # js_gap st @ ?rest @ CHR ''}'' # r)
        = Inr (acc @ map (\<lambda>kv. (fst kv, h (snd kv))) (kv # d), r)"
      using kv by (simp add: json_ws_def code_def del: parse_pairs.simps)
    then show ?thesis by (simp only: j append_assoc append_Cons)
  qed
qed simp

lemma text_read:
  "keys_distinct v \<Longrightarrow> length (json_text st v) \<le> f \<Longrightarrow> closes r \<Longrightarrow>
     parse_value f (json_text st v @ r) = Inr (styled (js_sorted st) v, r)"
proof (induction v arbitrary: f r)
  case (PList vs)
  then obtain g where f: "f = Suc g" by (cases f) auto
  show ?case
  proof (cases "vs = []")
    case False
    let ?t = "join (CHR '','' # js_gap st) (map (json_text st) vs) @ CHR '']'' # r"
    have "starts_value ?t" using False json_text_starts by (intro join_first) (auto simp: hd_map)
    then obtain d ds where t: "?t = d # ds" "d \<noteq> CHR '']''" "skip_ws ?t = ?t"
      by (cases ?t) (auto simp: starts_value_def skip_ws_Cons)
    have "parse_items g ?t = Inr (map (styled (js_sorted st)) vs, r)"
      using PList f False by (intro items_text) auto
    with t f show ?thesis by (auto simp: literal_def)
  qed (use f in \<open>simp add: literal_def\<close>)
next
  case (PDict d)
  then obtain g where f: "f = Suc g" by (cases f) auto
  show ?case
  proof (cases "d = []")
    case False
    let ?d = "arranged (js_sorted st) d"
    let ?t = "join (CHR '','' # js_gap st) (map (pair_text st) ?d) @ CHR ''}'' # r"
    have "starts_value ?t" using False pair_text_starts by (intro join_first) (auto simp: hd_map)
    then obtain c cs where t: "?t = c # cs" "c \<noteq> CHR ''}''" "skip_ws ?t = ?t"
      by (cases ?t) (auto simp: starts_value_def skip_ws_Cons)
    have "parse_pairs g [] ?t = Inr ([] @ map (\<lambda>kv. (fst kv, styled (js_sorted st) (snd kv))) ?d, r)"
      using PDict f False json_text_dict [of st d] by (intro pairs_text) (auto simp: snds.simps)
    with t f show ?thesis
      by (simp only: json_text_dict styled_dict) (auto simp: literal_def styled_pair_def [abs_def])
  qed (use f in \<open>simp add: literal_def\<close>)
next
  case (PInt i)
  obtain c cs where "int_str i = c # cs" by (rule int_str_hd)
  with PInt obtain g where "f = Suc g" by (cases f) auto
  with PInt.prems(3) parse_value_int [of r g i] show ?case by (simp del: parse_value.simps)
next
  case (PStr s)
  then show ?case by (cases f) (simp_all add: quoted_text quoted_def)
next
  case (PBool b)
  then show ?case by (cases f; cases b) (simp_all add: literal_def)
next
  case PNone
  then show ?case by (cases f) (simp_all add: literal_def)
qed

lemma text_round_trip: "keys_distinct v \<Longrightarrow> json_loads (json_text st v) = Inr (styled (js_sorted st) v)"
  using starts_value_ws [OF json_text_starts, of st v "[]"] text_read [of v "length (json_text st v)" "[]"]
  by (simp add: json_loads_def)

end

interpretation compact_writer: json_writer compact_style
  by unfold_locales (simp_all add: compact_style_def parse_json_char)

interpretation raw_writer: json_writer raw_style
  by unfold_locales (simp_all add: raw_style_def parse_char_raw)

interpretation plain_writer: json_writer plain_style
  by unfold_locales (simp_all add: plain_style_def parse_json_char json_ws_def code_def)

text \<open>The canonical writer is the compact style.\<close>

definition canon_pair :: "string \<times> pyval \<Rightarrow> string \<times> pyval" where
  "canon_pair kv = (fst kv, canon (snd kv))"

lemma canon_dict: "canon (PDict d) = PDict (map canon_pair (sort_key fst d))"
  by (simp add: sort_key_map_fst canon_pair_def [abs_def])

lemma canon_styled: "canon v = styled True v"
proof (induction v)
  case (PDict d)
  then have eq: "map (\<lambda>kv. (fst kv, canon (snd kv))) d = map (\<lambda>kv. (fst kv, styled True (snd kv))) d"
    by (auto simp: snds.simps)
  show ?case by (simp only: canon.simps styled.simps arranged_def if_True eq)
qed simp_all

lemma json_compact_text: "json_compact v = json_text compact_style v"
proof (induction v)
  case (PList vs)
  then have eq: "map json_compact vs = map (json_text compact_style) vs" by simp
  show ?case by (simp only: json_compact.simps json_text.simps eq) (simp add: compact_style_def)
next
  case (PDict d)
  then have eq: "map (\<lambda>kv. (fst kv, json_compact (snd kv))) d = map (\<lambda>kv. (fst kv, json_text compact_style (snd kv))) d"
    by (auto simp: snds.simps)
  have "js_sorted compact_style = True" "js_gap compact_style = []" "quoted (js_char compact_style) = json_str"
    by (simp_all add: compact_style_def quoted_def [abs_def] json_str_def [abs_def])
  then show ?case by (simp only: json_compact.simps json_text.simps arranged_def if_True eq) simp
qed (simp_all add: compact_style_def quoted_def json_str_def)

theorem json_round_trip: "keys_distinct v \<Longrightarrow> json_loads (json_compact v) = Inr (canon v)"
  using compact_writer.text_round_trip [of v] by (simp add: json_compact_text canon_styled compact_style_def)

section \<open>What is read has distinct keys\<close>

lemma keys_distinct_put:
  assumes "keys_distinct (PDict d)" "keys_distinct v"
  shows "keys_distinct (PDict (py_set d k v))"
proof (cases "has_key d k")
  case True
  have "map (fst \<circ> (\<lambda>kv. if fst kv = k then (k, v) else kv)) d = map fst d" by (induction d) auto
  with True assms show ?thesis by (auto simp: py_set_def simp del: map_eq_conv)
next
  case False
  with assms show ?thesis by (auto simp: py_set_def has_key_def)
qed

lemma keys_distinct_empty: "keys_distinct (PDict [])"
  by simp

lemma parsed_distinct:
  "parse_value f s = Inr (v, r) \<Longrightarrow> keys_distinct v"
  "parse_items f s = Inr (vs, r) \<Longrightarrow> list_all keys_distinct vs"
  "parse_pairs f acc s = Inr (d, r) \<Longrightarrow> keys_distinct (PDict acc) \<Longrightarrow> keys_distinct (PDict d)"
proof (induction f s and f s and f acc s arbitrary: v r and vs r and d r rule: parse_value_parse_items_parse_pairs.induct)
  case (2 f s)
  obtain c cs where s: "s = c # cs" using "2.prems" by (cases s) auto
  show ?case
  proof (cases "c = CHR ''[''")
    case True
    with "2.prems" "2.IH"(1) [OF s] s show ?thesis
      by (cases "skip_ws cs") (auto simp: py_bind_Inr_iff list_all_iff split: if_splits)
  next
    case nl: False
    show ?thesis
    proof (cases "c = CHR ''{''")
      case True
      with "2.prems" "2.IH"(2) [OF s] s show ?thesis
        by (cases "skip_ws cs")
          (auto simp: py_bind_Inr_iff keys_distinct_empty simp del: keys_distinct.simps(2) split: if_splits)
    next
      case False
      with "2.prems" nl s show ?thesis by (auto simp: py_bind_Inr_iff parse_int_def split: if_splits)
    qed
  qed
next
  case (4 f s)
  from "4.prems" obtain x r1 where x: "parse_value f s = Inr (x, r1)" by (auto simp: py_bind_Inr_iff)
  from "4.IH"(1) [OF x] have "keys_distinct x" .
  moreover obtain c cs where "skip_ws r1 = c # cs" using "4.prems" x by (cases "skip_ws r1") auto
  ultimately show ?case using "4.prems" x "4.IH"(2)
    by (auto simp: py_bind_Inr_iff split: if_splits)
next
  case (6 f acc s)
  obtain c cs where s: "s = c # cs" using "6.prems" by (cases s) auto
  from "6.prems"(1) s obtain k r1 where k: "c = CHR 0x22" "parse_chars cs = Inr (k, r1)" by (auto simp: py_bind_Inr_iff)
  obtain x xs where r1: "skip_ws r1 = x # xs" using "6.prems"(1) s k by (cases "skip_ws r1") auto
  from "6.prems"(1) s k r1 obtain w q where w: "x = CHR '':''" "parse_value f (skip_ws xs) = Inr (w, q)" by (auto simp: py_bind_Inr_iff)
  obtain y ys where q: "skip_ws q = y # ys" using "6.prems"(1) s k r1 w by (cases "skip_ws q") auto
  have "keys_distinct w" using "6.IH"(1) s k r1 w by blast
  then have put: "keys_distinct (PDict (py_set acc k w))" using "6.prems"(2) by (rule keys_distinct_put [rotated])
  show ?case
  proof (cases "y = CHR ''}''")
    case True
    with "6.prems"(1) s k r1 w q put show ?thesis by (simp del: keys_distinct.simps)
  next
    case False
    with "6.prems"(1) s k r1 w q have "parse_pairs f (py_set acc k w) (skip_ws ys) = Inr (d, r)" "y = CHR '',''"
      by (auto split: if_splits)
    with False put show ?thesis using "6.IH"(2) s k r1 w q by blast
  qed
qed simp_all

lemma json_loads_distinct: "json_loads s = Inr v \<Longrightarrow> keys_distinct v"
  by (auto simp: json_loads_def py_bind_Inr_iff split: if_splits dest: parsed_distinct(1))

end
