(* ===== verification/Session_Store.thy ===== *)
theory Session_Store
  imports Json_Codec
begin

text \<open>
  \<open>session/event_contract.py\<close> and \<open>session/session_store.py\<close>: durable event envelopes, the five
  SQLite tables and the operations on them.  Every operation is one transaction: an
  exception leaves the tables as they were, so it is a value without a store.  The JSON
  schema check is the parameter \<open>valid\<close>, SHA-256 the parameter \<open>sha\<close>; \<open>uuid4\<close> and the clock
  are arguments.
\<close>

section \<open>Envelopes\<close>

record envelope =
  ev_id :: string
  ev_stream :: string
  ev_sequence :: int
  ev_producer :: string
  ev_session :: "string option"
  ev_task :: "string option"
  ev_utc :: string
  ev_kind :: string
  ev_payload :: pydict

definition opt_str :: "string option \<Rightarrow> pyval" where
  "opt_str s = (case s of None \<Rightarrow> PNone | Some t \<Rightarrow> PStr t)"

definition envelope_dict :: "envelope \<Rightarrow> pydict" where
  "envelope_dict e =
     [(''schema_id'', PStr ''lca.session.events''), (''schema_version'', PInt 1), (''event_id'', PStr (ev_id e)),
      (''stream_id'', PStr (ev_stream e)), (''stream_kind'', PStr ''durable''),
      (''sequence'', PInt (ev_sequence e)), (''producer_epoch'', PStr (ev_producer e)),
      (''session_id'', opt_str (ev_session e)), (''task_id'', opt_str (ev_task e)),
      (''occurred_utc'', PStr (ev_utc e)), (''kind'', PStr (ev_kind e)), (''payload'', PDict (ev_payload e))]"

definition validate_event :: "(pyval \<Rightarrow> bool) \<Rightarrow> pyval \<Rightarrow> unit py" where
  "validate_event valid v = py_check (\<not> valid v) EventContractError (Inr ())"

definition bad_uuid :: "string option \<Rightarrow> bool" where
  "bad_uuid s = (case s of None \<Rightarrow> False | Some t \<Rightarrow> \<not> uuid_ok t)"

definition build_event ::
  "(pyval \<Rightarrow> bool) \<Rightarrow> string \<Rightarrow> string \<Rightarrow> string \<Rightarrow> int \<Rightarrow> string \<Rightarrow> string \<Rightarrow> pydict \<Rightarrow> string option
   \<Rightarrow> string option \<Rightarrow> string option \<Rightarrow> string option \<Rightarrow> envelope py" where
  "build_event valid fresh now stream seq producer kind payload session task eid utc =
     py_check (\<not> uuid_ok stream \<or> \<not> uuid_ok producer) EventContractError (
     py_check (bad_uuid session \<or> bad_uuid task \<or> bad_uuid eid) EventContractError (
     py_check (seq < 1) EventContractError (
       let e = \<lparr>ev_id = (case eid of None \<Rightarrow> fresh | Some i \<Rightarrow> i), ev_stream = stream, ev_sequence = seq,
                ev_producer = producer, ev_session = session, ev_task = task,
                ev_utc = (case utc of None \<Rightarrow> now | Some u \<Rightarrow> if u = [] then now else u),
                ev_kind = kind, ev_payload = payload\<rparr>
       in py_bind (validate_event valid (PDict (envelope_dict e))) (\<lambda>_. Inr e))))"

section \<open>Tables\<close>

record event_row =
  er_stream :: string
  er_sequence :: int
  er_id :: string
  er_task :: "string option"
  er_kind :: string
  er_json :: string

record task_row =
  tw_task :: string
  tw_session :: "string option"
  tw_request :: string
  tw_sha :: string
  tw_stream :: string
  tw_admitted :: int
  tw_epoch :: int
  tw_state :: string
  tw_terminal :: bool
  tw_verdict :: "int option"
  tw_closed :: "int option"
  tw_result :: "string option"

record artifact_row =
  aw_id :: string
  aw_task :: string
  aw_sha :: string
  aw_media :: string
  aw_size :: int
  aw_payload :: string

record turn_row =
  nw_conversation :: string
  nw_index :: int
  nw_sha :: string
  nw_task :: string

record store =
  so_streams :: "string \<Rightarrow> int option"
  so_events :: "event_row list"
  so_tasks :: "task_row list"
  so_artifacts :: "artifact_row list"
  so_turns :: "turn_row list"

definition empty_store :: store where
  "empty_store = \<lparr>so_streams = (\<lambda>_. None), so_events = [], so_tasks = [], so_artifacts = [], so_turns = []\<rparr>"

definition TERMINAL_TASK_STATES :: "string list" where
  "TERMINAL_TASK_STATES =
     [''completed'', ''failed'', ''blocked'', ''cancelled'', ''timed_out'', ''interrupted'', ''unknown'']"

section \<open>Statements\<close>

definition encoded :: "envelope \<Rightarrow> string" where
  "encoded e = json_compact (PDict (envelope_dict e))"

definition next_sequence :: "store \<Rightarrow> string \<Rightarrow> int" where
  "next_sequence s stream = (case so_streams s stream of None \<Rightarrow> 1 | Some n \<Rightarrow> n)"

definition advance_sequence :: "string \<Rightarrow> int \<Rightarrow> store \<Rightarrow> store" where
  "advance_sequence stream seq s = s\<lparr>so_streams := (so_streams s)(stream \<mapsto> seq + 1)\<rparr>"

definition event_clash :: "envelope \<Rightarrow> store \<Rightarrow> bool" where
  \<comment> \<open>the CHECK, PRIMARY KEY and UNIQUE constraints of the events table\<close>
  "event_clash e s \<longleftrightarrow> ev_sequence e < 1 \<or>
     (\<exists>r \<in> set (so_events s). er_stream r = ev_stream e \<and> er_sequence r = ev_sequence e \<or> er_id r = ev_id e)"

definition insert_event :: "envelope \<Rightarrow> store \<Rightarrow> store py" where
  "insert_event e s =
     py_check (event_clash e s) IntegrityError (
       Inr (advance_sequence (ev_stream e) (ev_sequence e)
         (s\<lparr>so_events := so_events s @ [\<lparr>er_stream = ev_stream e, er_sequence = ev_sequence e, er_id = ev_id e,
              er_task = ev_task e, er_kind = ev_kind e, er_json = encoded e\<rparr>]\<rparr>)))"

definition task_row_of :: "store \<Rightarrow> string \<Rightarrow> task_row option" where
  "task_row_of s task = find (\<lambda>t. tw_task t = task) (so_tasks s)"

definition set_task_rows :: "string \<Rightarrow> (task_row \<Rightarrow> task_row) \<Rightarrow> store \<Rightarrow> store" where
  \<comment> \<open>\<open>UPDATE tasks SET ... WHERE task_id = ?\<close>\<close>
  "set_task_rows task f s = s\<lparr>so_tasks := map (\<lambda>t. if tw_task t = task then f t else t) (so_tasks s)\<rparr>"

definition artifact_row_for_bytes ::
  "(string \<Rightarrow> string) \<Rightarrow> pydict \<Rightarrow> string option \<Rightarrow> string option
   \<Rightarrow> (string \<times> string \<times> string \<times> int \<times> string) option py" where
  "artifact_row_for_bytes sha ref payload payload_sha =
     (if py_get ref ''availability'' \<noteq> PStr ''retained'' then
        py_check (payload \<noteq> None) ArtifactIntegrityError (Inr None)
      else
        (case payload of
           None \<Rightarrow> Inl ArtifactIntegrityError
         | Some bytes \<Rightarrow>
             py_check (py_get ref ''sha256'' \<noteq> PStr (sha bytes)) ArtifactIntegrityError (
             py_bind (py_int (case map_of ref ''size_bytes'' of None \<Rightarrow> PInt (-1) | Some v \<Rightarrow> v)) (\<lambda>n.
             py_check (n \<noteq> int (length bytes)) ArtifactIntegrityError (
             py_check (payload_sha \<noteq> None \<and> payload_sha \<noteq> Some (sha bytes)) ArtifactIntegrityError (
             py_bind (py_item (PDict ref) ''artifact_id'') (\<lambda>i.
             py_bind (py_item (PDict ref) ''media_type'') (\<lambda>m.
               Inr (Some (py_str i, sha bytes, py_str m, int (length bytes), bytes))))))))))"

definition insert_artifact ::
  "(string \<Rightarrow> string) \<Rightarrow> string \<Rightarrow> pydict \<Rightarrow> string option \<Rightarrow> string option \<Rightarrow> store \<Rightarrow> store py" where
  "insert_artifact sha task ref payload payload_sha s =
     py_bind (artifact_row_for_bytes sha ref payload payload_sha) (\<lambda>row.
       case row of
         None \<Rightarrow> Inr s
       | Some (i, digest, media, n, bytes) \<Rightarrow>
           py_check (i \<in> aw_id ` set (so_artifacts s) \<or> task \<notin> tw_task ` set (so_tasks s)) IntegrityError (
             Inr (s\<lparr>so_artifacts := so_artifacts s @ [\<lparr>aw_id = i, aw_task = task, aw_sha = digest,
                      aw_media = media, aw_size = n, aw_payload = bytes\<rparr>]\<rparr>)))"

definition origin_turn_ref :: "pyval \<Rightarrow> pyval py" where
  "origin_turn_ref env =
     py_bind (py_item env ''payload'') (\<lambda>p.
     py_bind (py_item p ''origin'') (\<lambda>origin.
     py_bind (py_item origin ''kind'') (\<lambda>k.
       if k = PStr ''watch'' then Inr PNone else py_item origin ''turn_ref'')))"

definition turn_of_ref :: "pyval \<Rightarrow> (string \<times> int \<times> string) py" where
  "turn_of_ref ref =
     py_bind (py_item ref ''conversation_id'') (\<lambda>c.
     py_bind (py_item ref ''turn_index'') (\<lambda>i.
     py_bind (py_int i) (\<lambda>n.
     py_bind (py_item ref ''turn_sha256'') (\<lambda>h. Inr (py_str c, n, py_str h)))))"

definition insert_turn_association :: "string \<Rightarrow> envelope \<Rightarrow> store \<Rightarrow> store py" where
  "insert_turn_association task e s =
     py_bind (origin_turn_ref (PDict (envelope_dict e))) (\<lambda>ref.
       if ref = PNone then Inr s
       else py_bind (turn_of_ref ref) (\<lambda>(c, n, h).
         py_check (n < 0 \<or> task \<in> nw_task ` set (so_turns s) \<or> task \<notin> tw_task ` set (so_tasks s))
           IntegrityError (
           Inr (s\<lparr>so_turns := so_turns s @ [\<lparr>nw_conversation = c, nw_index = n, nw_sha = h, nw_task = task\<rparr>]\<rparr>))))"

definition has_execution_epoch :: "envelope \<Rightarrow> bool" where
  "has_execution_epoch e \<longleftrightarrow> has_key (ev_payload e) ''execution_epoch''"

definition validate_epoch_scoped :: "envelope \<Rightarrow> store \<Rightarrow> task_row option py" where
  "validate_epoch_scoped e s =
     (case ev_task e of
        None \<Rightarrow> Inr None
      | Some task \<Rightarrow>
          if task = [] \<or> \<not> has_execution_epoch e then Inr None
          else
            (case task_row_of s task of
               None \<Rightarrow> Inl TaskStateConflict
             | Some row \<Rightarrow>
                 py_check (tw_terminal row) TaskStateConflict (
                 py_check (tw_stream row \<noteq> ev_stream e) TaskStateConflict (
                 py_check (tw_session row \<noteq> ev_session e) TaskStateConflict (
                 py_bind (py_int (py_get (ev_payload e) ''execution_epoch'')) (\<lambda>n.
                 py_check (n \<noteq> tw_epoch row) TaskStateConflict (Inr (Some row))))))))"

section \<open>Appending\<close>

definition result_ref_of :: "envelope \<Rightarrow> pyval" where
  "result_ref_of e =
     (if ev_kind e = ''tool.finished'' then py_get (ev_payload e) ''result_ref'' else PNone)"

definition task_text :: "envelope \<Rightarrow> string" where
  \<comment> \<open>\<open>str(envelope["task_id"])\<close>\<close>
  "task_text e = (case ev_task e of None \<Rightarrow> ''None'' | Some t \<Rightarrow> t)"

definition check_transition :: "envelope \<Rightarrow> task_row option \<Rightarrow> (string \<times> string) option py" where
  \<comment> \<open>the guards of a \<open>task.state_changed\<close> event; the row and the state it moves to\<close>
  "check_transition e row =
     (if ev_kind e \<noteq> ''task.state_changed'' then Inr None
      else case row of
        None \<Rightarrow> Inl TaskStateConflict
      | Some r \<Rightarrow>
          py_bind (py_item (PDict (ev_payload e)) ''previous'') (\<lambda>p.
          py_bind (py_item (PDict (ev_payload e)) ''current'') (\<lambda>c.
          py_check (py_str p \<noteq> tw_state r) TaskStateConflict (
          py_check (py_str c = py_str p) TaskStateConflict (
          py_check (py_str c \<in> set TERMINAL_TASK_STATES) TaskStateConflict (
            Inr (Some (task_text e, py_str c))))))))"

definition append_event ::
  "(pyval \<Rightarrow> bool) \<Rightarrow> (string \<Rightarrow> string) \<Rightarrow> envelope \<Rightarrow> int \<Rightarrow> string option \<Rightarrow> store \<Rightarrow> store py" where
  "append_event valid sha e expected bytes s =
     py_bind (validate_event valid (PDict (envelope_dict e))) (\<lambda>_.
     py_check (ev_kind e \<in> {''task.verdict'', ''task.closed''}) ValueError (
     py_check (result_ref_of e = PNone \<and> bytes \<noteq> None) ArtifactIntegrityError (
     py_bind (if result_ref_of e = PNone then Inr None
              else py_bind (py_obj (result_ref_of e)) (\<lambda>ref. Inr (Some ref))) (\<lambda>ref.
     py_bind (case ref of None \<Rightarrow> Inr None | Some r \<Rightarrow> artifact_row_for_bytes sha r bytes None) (\<lambda>_.
     py_check (ev_sequence e \<noteq> expected) SequenceConflict (
     py_check (next_sequence s (ev_stream e) \<noteq> expected) SequenceConflict (
     py_bind (validate_epoch_scoped e s) (\<lambda>row.
     py_bind (check_transition e row) (\<lambda>move.
     py_bind (case ref of None \<Rightarrow> Inr s | Some r \<Rightarrow> insert_artifact sha (task_text e) r bytes None s) (\<lambda>s1.
     py_bind (insert_event e s1) (\<lambda>s2.
       Inr (case move of None \<Rightarrow> s2
            | Some (task, current) \<Rightarrow> set_task_rows task (\<lambda>t. t\<lparr>tw_state := current\<rparr>) s2))))))))))))"

section \<open>Admission\<close>

definition no_task :: "envelope \<Rightarrow> bool" where
  \<comment> \<open>\<open>not envelope.get("task_id")\<close>\<close>
  "no_task e \<longleftrightarrow> ev_task e = None \<or> ev_task e = Some []"

definition request_row_of :: "store \<Rightarrow> string \<Rightarrow> task_row option" where
  "request_row_of s request = find (\<lambda>t. tw_request t = request) (so_tasks s)"

definition insert_task :: "task_row \<Rightarrow> store \<Rightarrow> store py" where
  "insert_task t s =
     py_check (tw_task t \<in> tw_task ` set (so_tasks s) \<or> tw_request t \<in> tw_request ` set (so_tasks s))
       IntegrityError (Inr (s\<lparr>so_tasks := so_tasks s @ [t]\<rparr>))"

definition admission_guards ::
  "(pyval \<Rightarrow> bool) \<Rightarrow> (string \<Rightarrow> string) \<Rightarrow> string \<Rightarrow> envelope \<Rightarrow> int \<Rightarrow> string option \<Rightarrow> (int \<times> pydict) py" where
  \<comment> \<open>what is checked before the transaction; the epoch and the request reference\<close>
  "admission_guards valid sha payload_sha e expected bytes =
     py_bind (validate_event valid (PDict (envelope_dict e))) (\<lambda>_.
     py_check (ev_kind e \<noteq> ''task.admitted'' \<or> no_task e) ValueError (
     py_check (ev_sequence e \<noteq> expected) SequenceConflict (
     py_bind (py_item (PDict (ev_payload e)) ''execution_epoch'') (\<lambda>x.
     py_bind (py_int x) (\<lambda>epoch.
     py_bind (py_item (PDict (ev_payload e)) ''request_ref'') (\<lambda>rr.
     py_bind (py_obj rr) (\<lambda>ref.
     py_bind (artifact_row_for_bytes sha ref bytes (if bytes = None then None else Some payload_sha))
       (\<lambda>_. Inr (epoch, ref)))))))))"

definition admit ::
  "(pyval \<Rightarrow> bool) \<Rightarrow> (string \<Rightarrow> string) \<Rightarrow> string \<Rightarrow> string \<Rightarrow> envelope \<Rightarrow> int \<Rightarrow> string option \<Rightarrow> store
   \<Rightarrow> ((string \<times> bool) \<times> store) py" where
  "admit valid sha request payload_sha e expected bytes s =
     py_bind (admission_guards valid sha payload_sha e expected bytes) (\<lambda>(epoch, ref).
       case request_row_of s request of
         Some existing \<Rightarrow>
           py_check (tw_sha existing \<noteq> payload_sha) AdmissionConflict (
             Inr ((tw_task existing, False), s))
       | None \<Rightarrow>
           py_check (next_sequence s (ev_stream e) \<noteq> expected) SequenceConflict (
           py_bind (insert_task \<lparr>tw_task = task_text e, tw_session = ev_session e, tw_request = request,
               tw_sha = payload_sha, tw_stream = ev_stream e, tw_admitted = expected, tw_epoch = epoch,
               tw_state = ''admitted'', tw_terminal = False, tw_verdict = None, tw_closed = None,
               tw_result = None\<rparr> s) (\<lambda>s1.
           py_bind (insert_artifact sha (task_text e) ref bytes (Some payload_sha) s1) (\<lambda>s2.
           py_bind (insert_turn_association (task_text e) e s2) (\<lambda>s3.
           py_bind (insert_event e s3) (\<lambda>s4. Inr ((task_text e, True), s4)))))))"

section \<open>Finalization\<close>

definition terminal_event_kinds :: "string list" where
  "terminal_event_kinds = [''task.verdict'', ''task.closed'']"

definition has_terminal_event :: "string \<Rightarrow> store \<Rightarrow> bool" where
  "has_terminal_event task s \<longleftrightarrow>
     (\<exists>r \<in> set (so_events s). er_task r = Some task \<and> er_kind r \<in> set terminal_event_kinds)"

definition check_bundle :: "envelope \<Rightarrow> envelope \<Rightarrow> int \<Rightarrow> (string \<times> pydict \<times> pyval) py" where
  \<comment> \<open>what both envelopes must agree on: the task, the retained reference and the status\<close>
  "check_bundle v c expected =
     py_check (ev_kind v \<noteq> ''task.verdict'') ValueError (
     py_check (ev_kind c \<noteq> ''task.closed'') ValueError (
     py_check (no_task v \<or> ev_task c \<noteq> ev_task v) ValueError (
     py_check (ev_stream c \<noteq> ev_stream v) ValueError (
     py_check (ev_sequence v \<noteq> expected) SequenceConflict (
     py_check (ev_sequence c \<noteq> expected + 1) SequenceConflict (
     py_bind (py_item (PDict (ev_payload v)) ''completion'') (\<lambda>completion.
     py_bind (py_item completion ''task_id'') (\<lambda>task.
     py_check (task \<noteq> PStr (task_text v)) ValueError (
     py_bind (py_item completion ''status'') (\<lambda>st1.
     py_bind (py_item (PDict (ev_payload c)) ''status'') (\<lambda>st2.
     py_check (\<not> py_eq st1 st2) ValueError (
     py_bind (py_item completion ''result_ref'') (\<lambda>r1.
     py_bind (py_item (PDict (ev_payload c)) ''result_ref'') (\<lambda>r2.
     py_check (\<not> py_eq r1 r2) ValueError (
     py_bind (py_obj r1) (\<lambda>ref. Inr (task_text v, ref, st2)))))))))))))))))"

definition check_open_task :: "string \<Rightarrow> envelope \<Rightarrow> envelope \<Rightarrow> store \<Rightarrow> unit py" where
  "check_open_task task v c s =
     (case task_row_of s task of
        None \<Rightarrow> Inl TaskStateConflict
      | Some row \<Rightarrow>
          py_check (tw_terminal row) TaskStateConflict (
          py_check (tw_state row \<in> set TERMINAL_TASK_STATES) TaskStateConflict (
          py_check (tw_stream row \<noteq> ev_stream v) TaskStateConflict (
          py_check (tw_session row \<noteq> ev_session v \<or> tw_session row \<noteq> ev_session c) TaskStateConflict (
          py_check (has_terminal_event task s) TaskStateConflict (Inr ()))))))"

definition finalize_task ::
  "(pyval \<Rightarrow> bool) \<Rightarrow> (string \<Rightarrow> string) \<Rightarrow> envelope \<Rightarrow> envelope \<Rightarrow> int \<Rightarrow> string option \<Rightarrow> store \<Rightarrow> store py" where
  "finalize_task valid sha v c expected bytes s =
     py_bind (validate_event valid (PDict (envelope_dict v))) (\<lambda>_.
     py_bind (validate_event valid (PDict (envelope_dict c))) (\<lambda>_.
     py_bind (check_bundle v c expected) (\<lambda>(task, ref, status).
     py_bind (artifact_row_for_bytes sha ref bytes None) (\<lambda>_.
     py_bind (check_open_task task v c s) (\<lambda>_.
     py_check (next_sequence s (ev_stream v) \<noteq> expected) SequenceConflict (
     py_bind (insert_artifact sha task ref bytes None s) (\<lambda>s1.
     py_bind (insert_event v s1) (\<lambda>s2.
     py_bind (insert_event c s2) (\<lambda>s3.
       Inr (set_task_rows task (\<lambda>t. t\<lparr>tw_state := py_str status, tw_terminal := True,
              tw_verdict := Some expected, tw_closed := Some (expected + 1),
              tw_result := Some (json_compact (PDict ref))\<rparr>) s3))))))))))"

section \<open>Queries\<close>

fun load_events :: "(pyval \<Rightarrow> bool) \<Rightarrow> string list \<Rightarrow> pyval list py" where
  "load_events valid [] = Inr []"
| "load_events valid (t # ts) =
     py_bind (json_loads t) (\<lambda>v. py_bind (load_events valid ts) (\<lambda>vs. Inr (v # vs)))"

fun validate_all :: "(pyval \<Rightarrow> bool) \<Rightarrow> pyval list \<Rightarrow> unit py" where
  "validate_all valid [] = Inr ()"
| "validate_all valid (v # vs) = py_bind (validate_event valid v) (\<lambda>_. validate_all valid vs)"

definition events_after :: "store \<Rightarrow> string \<Rightarrow> int \<Rightarrow> event_row list" where
  "events_after s stream after =
     sort_key er_sequence (filter (\<lambda>r. er_stream r = stream \<and> er_sequence r > after) (so_events s))"

definition replay :: "(pyval \<Rightarrow> bool) \<Rightarrow> store \<Rightarrow> string \<Rightarrow> int \<Rightarrow> int \<Rightarrow> pyval list py" where
  "replay valid s stream after limit =
     py_check (after < 0) ValueError (
     py_check (limit < 1 \<or> limit > 10000) ValueError (
     py_bind (load_events valid (map er_json (take (nat limit) (events_after s stream after)))) (\<lambda>vs.
     py_bind (validate_all valid vs) (\<lambda>_. Inr vs))))"

definition opt_int :: "int option \<Rightarrow> pyval" where
  "opt_int n = (case n of None \<Rightarrow> PNone | Some i \<Rightarrow> PInt i)"

definition loaded_ref :: "string option \<Rightarrow> pyval py" where
  "loaded_ref t = (case t of None \<Rightarrow> Inr PNone | Some x \<Rightarrow> json_loads x)"

definition task_record :: "store \<Rightarrow> string \<Rightarrow> pydict option py" where
  "task_record s task =
     (case task_row_of s task of
        None \<Rightarrow> Inr None
      | Some r \<Rightarrow>
          py_bind (loaded_ref (tw_result r)) (\<lambda>ref.
            Inr (Some [(''task_id'', PStr (tw_task r)), (''session_id'', opt_str (tw_session r)),
              (''request_id'', PStr (tw_request r)), (''payload_sha256'', PStr (tw_sha r)),
              (''stream_id'', PStr (tw_stream r)), (''admitted_sequence'', PInt (tw_admitted r)),
              (''execution_epoch'', PInt (tw_epoch r)), (''state'', PStr (tw_state r)),
              (''terminal'', PBool (tw_terminal r)), (''verdict_sequence'', opt_int (tw_verdict r)),
              (''closed_sequence'', opt_int (tw_closed r)), (''result_ref'', ref)])))"

definition joined_turns :: "store \<Rightarrow> (turn_row \<times> task_row) list" where
  "joined_turns s =
     concat (map (\<lambda>n. map (\<lambda>t. (n, t)) (filter (\<lambda>t. tw_task t = nw_task n) (so_tasks s))) (so_turns s))"

definition task_ids_for_turn :: "store \<Rightarrow> pyval \<Rightarrow> string list py" where
  "task_ids_for_turn s ref =
     py_bind (turn_of_ref ref) (\<lambda>(c, n, h).
       Inr (map (nw_task \<circ> fst) (sort_key (tw_admitted \<circ> snd)
         (filter (\<lambda>(r, t). nw_conversation r = c \<and> nw_index r = n \<and> nw_sha r = h) (joined_turns s)))))"

definition latest_terminal_task :: "store \<Rightarrow> string \<Rightarrow> pydict option py" where
  \<comment> \<open>\<open>latest_terminal_task_for_conversation\<close>\<close>
  "latest_terminal_task s conversation =
     (let rows = sort_key (nw_index \<circ> fst) (sort_key (tw_admitted \<circ> snd)
          (filter (\<lambda>(r, t). nw_conversation r = conversation \<and> tw_terminal t) (joined_turns s)))
      in if rows = [] then Inr None
         else let (r, t) = last rows in
           py_bind (loaded_ref (tw_result t)) (\<lambda>ref.
             Inr (Some [(''task_id'', PStr (tw_task t)), (''state'', PStr (tw_state t)),
               (''turn_ref'', PDict [(''conversation_id'', PStr conversation), (''turn_index'', PInt (nw_index r)),
                  (''turn_sha256'', PStr (nw_sha r))]), (''result_ref'', ref)])))"

definition artifact_bytes :: "(string \<Rightarrow> string) \<Rightarrow> store \<Rightarrow> pydict \<Rightarrow> string py" where
  "artifact_bytes sha s ref =
     py_check (py_get ref ''availability'' \<noteq> PStr ''retained'') ArtifactIntegrityError (
     py_bind (py_item (PDict ref) ''artifact_id'') (\<lambda>i.
       case find (\<lambda>a. aw_id a = py_str i) (so_artifacts s) of
         None \<Rightarrow> Inl ArtifactIntegrityError
       | Some a \<Rightarrow>
           py_bind (py_item (PDict ref) ''sha256'') (\<lambda>h.
           py_check (aw_sha a \<noteq> py_str h) ArtifactIntegrityError (
           py_bind (py_item (PDict ref) ''media_type'') (\<lambda>m.
           py_check (aw_media a \<noteq> py_str m) ArtifactIntegrityError (
           py_bind (py_item (PDict ref) ''size_bytes'') (\<lambda>z.
           py_bind (py_int z) (\<lambda>n.
           py_check (aw_size a \<noteq> n) ArtifactIntegrityError (
           py_check (int (length (aw_payload a)) \<noteq> n) ArtifactIntegrityError (
           py_check (sha (aw_payload a) \<noteq> py_str h) ArtifactIntegrityError (
             Inr (aw_payload a))))))))))))"

definition unterminated_tasks :: "store \<Rightarrow> string \<Rightarrow> task_row list" where
  "unterminated_tasks s stream =
     sort_key tw_admitted (filter (\<lambda>t. \<not> tw_terminal t \<and> tw_stream t = stream) (so_tasks s))"

section \<open>Opening the database\<close>

text \<open>
  \<open>_initialise\<close> rebuilds the turn index from the admitted events: a row that the constraints
  reject is skipped, an association with an unknown task breaks the foreign key.
\<close>

definition rebuild_row :: "event_row \<Rightarrow> store \<Rightarrow> store py" where
  "rebuild_row r s =
     py_bind (json_loads (er_json r)) (\<lambda>env.
     py_bind (origin_turn_ref env) (\<lambda>ref.
       if ref = PNone then Inr s
       else py_bind (turn_of_ref ref) (\<lambda>(c, n, h).
         let task = (case er_task r of None \<Rightarrow> ''None'' | Some t \<Rightarrow> t) in
         if n < 0 \<or> task \<in> nw_task ` set (so_turns s) then Inr s
         else py_check (task \<notin> tw_task ` set (so_tasks s)) IntegrityError (
           Inr (s\<lparr>so_turns := so_turns s @ [\<lparr>nw_conversation = c, nw_index = n, nw_sha = h, nw_task = task\<rparr>]\<rparr>)))))"

fun rebuild_rows :: "event_row list \<Rightarrow> store \<Rightarrow> store py" where
  "rebuild_rows [] s = Inr s"
| "rebuild_rows (r # rs) s = py_bind (rebuild_row r s) (rebuild_rows rs)"

definition initialise :: "store \<Rightarrow> store py" where
  "initialise s =
     rebuild_rows (sort_key er_stream (sort_key er_sequence
       (filter (\<lambda>r. er_kind r = ''task.admitted'') (so_events s)))) s"

section \<open>The store as a machine\<close>

datatype store_op =
    Append envelope int "string option"
  | Admit string string envelope int "string option"
  | Finalize envelope envelope int "string option"
  | Reopen

fun store_step :: "(pyval \<Rightarrow> bool) \<Rightarrow> (string \<Rightarrow> string) \<Rightarrow> store_op \<Rightarrow> store \<Rightarrow> store py" where
  "store_step valid sha (Append e n bytes) s = append_event valid sha e n bytes s"
| "store_step valid sha (Admit request h e n bytes) s =
     py_bind (admit valid sha request h e n bytes s) (Inr \<circ> snd)"
| "store_step valid sha (Finalize v c n bytes) s = finalize_task valid sha v c n bytes s"
| "store_step valid sha Reopen s = initialise s"

end
