(* ===== verification/Session_Invariants.thy ===== *)
theory Session_Invariants
  imports Session_Store "HOL-Library.Sublist"
begin

text \<open>
  What the durable store keeps under every script of transactions: contiguous streams of
  valid envelopes, unique tasks and requests, one verdict and one closure for exactly the
  terminal tasks, artifacts whose bytes match their digest.  And what only grows: events,
  artifacts, turn associations and the task rows, whose terminal rows are final.
\<close>

section \<open>Tables\<close>

definition event_row_of :: "envelope \<Rightarrow> event_row" where
  "event_row_of e =
     \<lparr>er_stream = ev_stream e, er_sequence = ev_sequence e, er_id = ev_id e, er_task = ev_task e,
      er_kind = ev_kind e, er_json = encoded e\<rparr>"

lemma event_row_of_sel [simp]:
  "er_stream (event_row_of e) = ev_stream e" "er_sequence (event_row_of e) = ev_sequence e"
  "er_id (event_row_of e) = ev_id e" "er_task (event_row_of e) = ev_task e"
  "er_kind (event_row_of e) = ev_kind e" "er_json (event_row_of e) = encoded e"
  by (simp_all add: event_row_of_def)

definition stream_rows :: "store \<Rightarrow> string \<Rightarrow> event_row list" where
  "stream_rows s stream = filter (\<lambda>r. er_stream r = stream) (so_events s)"

definition terminal_rows :: "store \<Rightarrow> string \<Rightarrow> event_row list" where
  "terminal_rows s task =
     filter (\<lambda>r. er_task r = Some task \<and> er_kind r \<in> set terminal_event_kinds) (so_events s)"

definition contiguous :: "event_row list \<Rightarrow> bool" where
  "contiguous rs \<longleftrightarrow> map er_sequence rs = map int [1..<Suc (length rs)]"

definition events_ok :: "(pyval \<Rightarrow> bool) \<Rightarrow> store \<Rightarrow> bool" where
  "events_ok valid s \<longleftrightarrow>
     (\<forall>stream. contiguous (stream_rows s stream)
        \<and> next_sequence s stream = int (Suc (length (stream_rows s stream))))
     \<and> distinct (map er_id (so_events s))
     \<and> (\<forall>r \<in> set (so_events s). \<exists>e. r = event_row_of e \<and> valid (PDict (envelope_dict e)))"

definition tasks_ok :: "store \<Rightarrow> bool" where
  "tasks_ok s \<longleftrightarrow> distinct (map tw_task (so_tasks s)) \<and> distinct (map tw_request (so_tasks s))"

definition closed_row :: "store \<Rightarrow> task_row \<Rightarrow> bool" where
  \<comment> \<open>a terminal task has one verdict and one closure, next to each other on its stream\<close>
  "closed_row s t \<longleftrightarrow>
     (\<exists>v r1 r2. tw_verdict t = Some v \<and> tw_closed t = Some (v + 1) \<and> terminal_rows s (tw_task t) = [r1, r2]
        \<and> er_kind r1 = ''task.verdict'' \<and> er_kind r2 = ''task.closed''
        \<and> er_stream r1 = tw_stream t \<and> er_stream r2 = tw_stream t
        \<and> er_sequence r1 = v \<and> er_sequence r2 = v + 1)"

definition open_row :: "store \<Rightarrow> task_row \<Rightarrow> bool" where
  "open_row s t \<longleftrightarrow>
     tw_state t \<notin> set TERMINAL_TASK_STATES \<and> tw_verdict t = None \<and> tw_closed t = None
     \<and> tw_result t = None \<and> terminal_rows s (tw_task t) = []"

definition closures_ok :: "store \<Rightarrow> bool" where
  "closures_ok s \<longleftrightarrow>
     (\<forall>t \<in> set (so_tasks s). if tw_terminal t then closed_row s t else open_row s t)
     \<and> (\<forall>r \<in> set (so_events s). er_kind r \<in> set terminal_event_kinds \<longrightarrow>
          (\<exists>t \<in> set (so_tasks s). er_task r = Some (tw_task t)))"

definition admitted_row :: "store \<Rightarrow> task_row \<Rightarrow> bool" where
  "admitted_row s t \<longleftrightarrow>
     (\<exists>r \<in> set (so_events s). er_task r = Some (tw_task t) \<and> er_kind r = ''task.admitted''
        \<and> er_stream r = tw_stream t \<and> er_sequence r = tw_admitted t)"

definition admissions_ok :: "store \<Rightarrow> bool" where
  "admissions_ok s \<longleftrightarrow> (\<forall>t \<in> set (so_tasks s). admitted_row s t)"

definition artifacts_ok :: "(string \<Rightarrow> string) \<Rightarrow> store \<Rightarrow> bool" where
  "artifacts_ok sha s \<longleftrightarrow> distinct (map aw_id (so_artifacts s))
     \<and> (\<forall>a \<in> set (so_artifacts s). aw_sha a = sha (aw_payload a)
          \<and> aw_size a = int (length (aw_payload a)) \<and> aw_task a \<in> tw_task ` set (so_tasks s))"

definition turns_ok :: "store \<Rightarrow> bool" where
  "turns_ok s \<longleftrightarrow> distinct (map nw_task (so_turns s))
     \<and> (\<forall>n \<in> set (so_turns s). 0 \<le> nw_index n \<and> nw_task n \<in> tw_task ` set (so_tasks s))"

definition store_ok :: "(pyval \<Rightarrow> bool) \<Rightarrow> (string \<Rightarrow> string) \<Rightarrow> store \<Rightarrow> bool" where
  "store_ok valid sha s \<longleftrightarrow> events_ok valid s \<and> tasks_ok s \<and> closures_ok s \<and> admissions_ok s
     \<and> artifacts_ok sha s \<and> turns_ok s"

lemmas store_parts = store_ok_def events_ok_def tasks_ok_def closures_ok_def admissions_ok_def
  artifacts_ok_def turns_ok_def

lemma empty_store_ok: "store_ok valid sha empty_store"
  by (simp add: store_parts empty_store_def contiguous_def stream_rows_def next_sequence_def)

section \<open>Statements\<close>

text \<open>The statements of a transaction, each as what it leaves and what it adds.\<close>

definition stored_as :: "(string \<Rightarrow> string) \<Rightarrow> pydict \<Rightarrow> string \<Rightarrow> artifact_row \<Rightarrow> bool" where
  \<comment> \<open>the row holds the bytes that the retained reference names\<close>
  "stored_as sha ref bytes a \<longleftrightarrow>
     py_get ref ''availability'' = PStr ''retained'' \<and> py_get ref ''sha256'' = PStr (sha bytes)
     \<and> (\<exists>z. map_of ref ''size_bytes'' = Some z \<and> py_int z = Inr (int (length bytes)))
     \<and> (\<exists>i. py_item (PDict ref) ''artifact_id'' = Inr i \<and> aw_id a = py_str i)
     \<and> (\<exists>m. py_item (PDict ref) ''media_type'' = Inr m \<and> aw_media a = py_str m)
     \<and> aw_sha a = sha bytes \<and> aw_size a = int (length bytes) \<and> aw_payload a = bytes"

definition add_artifact :: "artifact_row \<Rightarrow> store \<Rightarrow> store" where
  "add_artifact a s = s\<lparr>so_artifacts := so_artifacts s @ [a]\<rparr>"

definition add_turn :: "turn_row \<Rightarrow> store \<Rightarrow> store" where
  "add_turn n s = s\<lparr>so_turns := so_turns s @ [n]\<rparr>"

definition add_task :: "task_row \<Rightarrow> store \<Rightarrow> store" where
  "add_task t s = s\<lparr>so_tasks := so_tasks s @ [t]\<rparr>"

definition add_event :: "envelope \<Rightarrow> store \<Rightarrow> store" where
  "add_event e s = advance_sequence (ev_stream e) (ev_sequence e)
     (s\<lparr>so_events := so_events s @ [event_row_of e]\<rparr>)"

lemma frames [simp]:
  "so_streams (add_artifact a s) = so_streams s" "so_events (add_artifact a s) = so_events s"
  "so_tasks (add_artifact a s) = so_tasks s" "so_turns (add_artifact a s) = so_turns s"
  "so_artifacts (add_artifact a s) = so_artifacts s @ [a]"
  "so_streams (add_turn n s) = so_streams s" "so_events (add_turn n s) = so_events s"
  "so_tasks (add_turn n s) = so_tasks s" "so_turns (add_turn n s) = so_turns s @ [n]"
  "so_artifacts (add_turn n s) = so_artifacts s"
  "so_streams (add_task t s) = so_streams s" "so_events (add_task t s) = so_events s"
  "so_tasks (add_task t s) = so_tasks s @ [t]" "so_turns (add_task t s) = so_turns s"
  "so_artifacts (add_task t s) = so_artifacts s"
  "so_streams (add_event e s) = (so_streams s)(ev_stream e \<mapsto> ev_sequence e + 1)"
  "so_events (add_event e s) = so_events s @ [event_row_of e]"
  "so_tasks (add_event e s) = so_tasks s" "so_turns (add_event e s) = so_turns s"
  "so_artifacts (add_event e s) = so_artifacts s"
  "so_streams (set_task_rows task f s) = so_streams s" "so_events (set_task_rows task f s) = so_events s"
  "so_turns (set_task_rows task f s) = so_turns s" "so_artifacts (set_task_rows task f s) = so_artifacts s"
  by (simp_all add: add_artifact_def add_turn_def add_task_def add_event_def advance_sequence_def
      set_task_rows_def)

lemma artifact_row_Inr:
  assumes "artifact_row_for_bytes sha ref payload h = Inr (Some (i, d, m, n, bytes))"
  shows "payload = Some bytes \<and> d = sha bytes \<and> n = int (length bytes)
    \<and> stored_as sha ref bytes \<lparr>aw_id = i, aw_task = task, aw_sha = d, aw_media = m, aw_size = n, aw_payload = bytes\<rparr>"
  using assms
  by (auto simp: artifact_row_for_bytes_def stored_as_def py_bind_Inr_iff py_int_def split: if_splits option.splits)

lemma insert_artifact_cases:
  assumes "insert_artifact sha task ref payload h s = Inr s'"
  obtains (none) "s' = s" "payload = None" "py_get ref ''availability'' \<noteq> PStr ''retained''"
  | (new) a bytes where "payload = Some bytes" "stored_as sha ref bytes a" "aw_task a = task"
      "aw_id a \<notin> aw_id ` set (so_artifacts s)" "task \<in> tw_task ` set (so_tasks s)" "s' = add_artifact a s"
proof (cases "artifact_row_for_bytes sha ref payload h")
  case (Inr row)
  show ?thesis
  proof (cases row)
    case None
    with assms Inr show ?thesis
      by (intro none) (auto simp: insert_artifact_def artifact_row_for_bytes_def py_bind_Inr_iff
          split: if_splits option.splits)
  next
    case (Some r)
    obtain i d m n bytes where r: "r = (i, d, m, n, bytes)" by (cases r)
    let ?a = "\<lparr>aw_id = i, aw_task = task, aw_sha = d, aw_media = m, aw_size = n, aw_payload = bytes\<rparr>"
    from artifact_row_Inr [of sha ref payload h i d m n bytes task] Inr Some r assms
    show ?thesis by (intro new [of bytes ?a]) (auto simp: insert_artifact_def add_artifact_def)
  qed
qed (use assms in \<open>simp add: insert_artifact_def\<close>)

lemma insert_event_Inr:
  "insert_event e s = Inr s' \<longleftrightarrow> \<not> event_clash e s \<and> s' = add_event e s"
  by (auto simp: insert_event_def add_event_def event_row_of_def)

lemma insert_turn_cases:
  assumes "insert_turn_association task e s = Inr s'"
  obtains (none) "s' = s"
  | (new) n where "nw_task n = task" "0 \<le> nw_index n" "task \<notin> nw_task ` set (so_turns s)"
      "task \<in> tw_task ` set (so_tasks s)" "s' = add_turn n s"
proof (cases "origin_turn_ref (PDict (envelope_dict e))")
  case (Inr ref)
  show ?thesis
  proof (cases "ref = PNone")
    case True
    with assms Inr show ?thesis by (intro none) (simp add: insert_turn_association_def)
  next
    case False
    with assms Inr obtain c n h where "turn_of_ref ref = Inr (c, n, h)"
      by (auto simp: insert_turn_association_def py_bind_Inr_iff)
    with assms Inr False show ?thesis
      by (intro new [of "\<lparr>nw_conversation = c, nw_index = n, nw_sha = h, nw_task = task\<rparr>"])
        (auto simp: insert_turn_association_def add_turn_def)
  qed
qed (use assms in \<open>simp add: insert_turn_association_def\<close>)

lemma insert_task_Inr:
  "insert_task t s = Inr s' \<longleftrightarrow> tw_task t \<notin> tw_task ` set (so_tasks s)
     \<and> tw_request t \<notin> tw_request ` set (so_tasks s) \<and> s' = add_task t s"
  by (auto simp: insert_task_def add_task_def)

section \<open>Effects on the invariant\<close>

lemma rows_frames [simp]:
  "stream_rows (add_artifact a s) st = stream_rows s st" "stream_rows (add_turn n s) st = stream_rows s st"
  "stream_rows (add_task t s) st = stream_rows s st" "stream_rows (set_task_rows task f s) st = stream_rows s st"
  "terminal_rows (add_artifact a s) x = terminal_rows s x" "terminal_rows (add_turn n s) x = terminal_rows s x"
  "terminal_rows (add_task t s) x = terminal_rows s x" "terminal_rows (set_task_rows task f s) x = terminal_rows s x"
  "next_sequence (add_artifact a s) st = next_sequence s st" "next_sequence (add_turn n s) st = next_sequence s st"
  "next_sequence (add_task t s) st = next_sequence s st" "next_sequence (set_task_rows task f s) st = next_sequence s st"
  by (simp_all add: stream_rows_def terminal_rows_def next_sequence_def)

lemma rows_add_event [simp]:
  "stream_rows (add_event e s) st = stream_rows s st @ (if ev_stream e = st then [event_row_of e] else [])"
  "next_sequence (add_event e s) st = (if ev_stream e = st then ev_sequence e + 1 else next_sequence s st)"
  "terminal_rows (add_event e s) x = terminal_rows s x
     @ (if ev_task e = Some x \<and> ev_kind e \<in> set terminal_event_kinds then [event_row_of e] else [])"
  by (simp_all add: stream_rows_def terminal_rows_def next_sequence_def)

lemma contiguous_snoc:
  "contiguous rs \<Longrightarrow> er_sequence r = int (Suc (length rs)) \<Longrightarrow> contiguous (rs @ [r])"
  by (simp add: contiguous_def)

lemma events_ok_add_event:
  assumes ok: "events_ok valid s" and seq: "ev_sequence e = next_sequence s (ev_stream e)"
    and "\<not> event_clash e s" and "valid (PDict (envelope_dict e))"
  shows "events_ok valid (add_event e s)"
proof -
  have "contiguous (stream_rows (add_event e s) st)
      \<and> next_sequence (add_event e s) st = int (Suc (length (stream_rows (add_event e s) st)))" for st
    using ok seq by (auto simp: events_ok_def intro!: contiguous_snoc)
  moreover have "distinct (map er_id (so_events (add_event e s)))"
    using ok assms(3) by (auto simp: events_ok_def event_clash_def)
  ultimately show ?thesis using ok assms(4) by (auto simp: events_ok_def)
qed

lemma frame_ok:
  "events_ok valid (add_artifact a s) = events_ok valid s" "events_ok valid (add_turn n s) = events_ok valid s"
  "events_ok valid (add_task t s) = events_ok valid s" "events_ok valid (set_task_rows task f s) = events_ok valid s"
  "tasks_ok (add_artifact a s) = tasks_ok s" "tasks_ok (add_turn n s) = tasks_ok s"
  "tasks_ok (add_event e s) = tasks_ok s"
  "closures_ok (add_artifact a s) = closures_ok s" "closures_ok (add_turn n s) = closures_ok s"
  "admissions_ok (add_artifact a s) = admissions_ok s" "admissions_ok (add_turn n s) = admissions_ok s"
  "artifacts_ok sha (add_turn n s) = artifacts_ok sha s" "artifacts_ok sha (add_event e s) = artifacts_ok sha s"
  "turns_ok (add_artifact a s) = turns_ok s" "turns_ok (add_event e s) = turns_ok s"
  by (simp_all add: events_ok_def tasks_ok_def closures_ok_def admissions_ok_def artifacts_ok_def turns_ok_def
      closed_row_def open_row_def admitted_row_def)

lemma closures_ok_add_event:
  "closures_ok s \<Longrightarrow> ev_kind e \<notin> set terminal_event_kinds \<Longrightarrow> closures_ok (add_event e s)"
  by (auto simp: closures_ok_def closed_row_def open_row_def)

lemma admissions_ok_add_event: "admissions_ok s \<Longrightarrow> admissions_ok (add_event e s)"
  by (auto simp: admissions_ok_def admitted_row_def)

lemma artifacts_ok_add:
  assumes "artifacts_ok sha s" and "stored_as sha ref bytes a" and "aw_id a \<notin> aw_id ` set (so_artifacts s)"
    and "aw_task a \<in> tw_task ` set (so_tasks s)"
  shows "artifacts_ok sha (add_artifact a s)"
  using assms by (auto simp: artifacts_ok_def stored_as_def)

lemma turns_ok_add:
  "turns_ok s \<Longrightarrow> 0 \<le> nw_index n \<Longrightarrow> nw_task n \<notin> nw_task ` set (so_turns s) \<Longrightarrow>
     nw_task n \<in> tw_task ` set (so_tasks s) \<Longrightarrow> turns_ok (add_turn n s)"
  by (auto simp: turns_ok_def)

text \<open>A task update that keeps the identity columns.\<close>

lemma so_tasks_set:
  "so_tasks (set_task_rows task f s) = map (\<lambda>t. if tw_task t = task then f t else t) (so_tasks s)"
  by (simp add: set_task_rows_def)

lemma set_task_rows_quantified [simp]:
  "(\<forall>t \<in> set (so_tasks (set_task_rows task f s)). P t) \<longleftrightarrow>
     (\<forall>t \<in> set (so_tasks s). P (if tw_task t = task then f t else t))"
  "(\<exists>t \<in> set (so_tasks (set_task_rows task f s)). P t) \<longleftrightarrow>
     (\<exists>t \<in> set (so_tasks s). P (if tw_task t = task then f t else t))"
  by (simp_all only: so_tasks_set set_map ball_simps(9) bex_simps(7))

definition keeps_identity :: "(task_row \<Rightarrow> task_row) \<Rightarrow> bool" where
  "keeps_identity f \<longleftrightarrow> (\<forall>t. tw_task (f t) = tw_task t \<and> tw_session (f t) = tw_session t
     \<and> tw_request (f t) = tw_request t \<and> tw_sha (f t) = tw_sha t \<and> tw_stream (f t) = tw_stream t
     \<and> tw_admitted (f t) = tw_admitted t \<and> tw_epoch (f t) = tw_epoch t)"

lemma set_task_rows_ids:
  assumes "keeps_identity f"
  shows "map tw_task (so_tasks (set_task_rows task f s)) = map tw_task (so_tasks s)"
    and "map tw_request (so_tasks (set_task_rows task f s)) = map tw_request (so_tasks s)"
    and "tw_task ` set (so_tasks (set_task_rows task f s)) = tw_task ` set (so_tasks s)"
proof -
  show 1: "map tw_task (so_tasks (set_task_rows task f s)) = map tw_task (so_tasks s)"
    "map tw_request (so_tasks (set_task_rows task f s)) = map tw_request (so_tasks s)"
    using assms by (simp_all add: keeps_identity_def so_tasks_set)
  from 1(1) [THEN arg_cong, of set] show "tw_task ` set (so_tasks (set_task_rows task f s)) = tw_task ` set (so_tasks s)"
    by simp
qed

lemma set_task_rows_ok:
  assumes "keeps_identity f"
  shows "tasks_ok (set_task_rows task f s) = tasks_ok s"
    and "artifacts_ok sha (set_task_rows task f s) = artifacts_ok sha s"
    and "turns_ok (set_task_rows task f s) = turns_ok s"
    and "admissions_ok (set_task_rows task f s) = admissions_ok s"
proof -
  note ids = set_task_rows_ids [OF assms]
  show "tasks_ok (set_task_rows task f s) = tasks_ok s" by (simp only: tasks_ok_def ids)
  show "artifacts_ok sha (set_task_rows task f s) = artifacts_ok sha s"
    by (simp only: artifacts_ok_def ids) simp
  show "turns_ok (set_task_rows task f s) = turns_ok s" by (simp only: turns_ok_def ids) simp
  have "admitted_row (set_task_rows task f s) (if tw_task t = task then f t else t) = admitted_row s t" for t
    using assms by (simp add: admitted_row_def keeps_identity_def)
  then show "admissions_ok (set_task_rows task f s) = admissions_ok s"
    by (simp add: admissions_ok_def)
qed

lemma closures_ok_state:
  assumes "closures_ok s" and "\<And>t. t \<in> set (so_tasks s) \<Longrightarrow> tw_task t = task \<Longrightarrow> \<not> tw_terminal t"
    and "c \<notin> set TERMINAL_TASK_STATES"
  shows "closures_ok (set_task_rows task (\<lambda>t. t\<lparr>tw_state := c\<rparr>) s)"
proof -
  let ?s = "set_task_rows task (\<lambda>t. t\<lparr>tw_state := c\<rparr>) s"
  have "(if tw_terminal t' then closed_row ?s t' else open_row ?s t')"
    if "t \<in> set (so_tasks s)" "t' = (if tw_task t = task then t\<lparr>tw_state := c\<rparr> else t)" for t t'
    using assms that by (auto simp: closures_ok_def closed_row_def open_row_def)
  moreover have "\<exists>t \<in> set (so_tasks ?s). er_task r = Some (tw_task t)"
    if "r \<in> set (so_events ?s)" "er_kind r \<in> set terminal_event_kinds" for r
    using assms(1) that by (auto simp: closures_ok_def)
  ultimately show ?thesis unfolding closures_ok_def by simp
qed

lemma closures_ok_new_task:
  assumes "closures_ok s" and "tw_task t \<notin> tw_task ` set (so_tasks s)"
    and "\<not> tw_terminal t" "tw_state t \<notin> set TERMINAL_TASK_STATES"
    and "tw_verdict t = None" "tw_closed t = None" "tw_result t = None"
  shows "closures_ok (add_task t s)"
proof -
  have "terminal_rows s (tw_task t) = []"
    using assms(1,2) by (simp add: terminal_rows_def filter_empty_conv closures_ok_def) (metis image_eqI option.inject)
  with assms show ?thesis by (auto simp: closures_ok_def closed_row_def open_row_def)
qed

lemma closures_ok_finalize:
  assumes ok: "closures_ok s" and tasks: "tasks_ok s"
    and t: "t0 \<in> set (so_tasks s)" "tw_task t0 = task" "\<not> tw_terminal t0"
    and v: "ev_kind v = ''task.verdict''" "ev_task v = Some task" "ev_stream v = tw_stream t0"
      "ev_sequence v = n"
    and c: "ev_kind c = ''task.closed''" "ev_task c = Some task" "ev_stream c = tw_stream t0"
      "ev_sequence c = n + 1"
  shows "closures_ok (set_task_rows task (\<lambda>t. t\<lparr>tw_state := st, tw_terminal := True, tw_verdict := Some n,
      tw_closed := Some (n + 1), tw_result := r\<rparr>) (add_event c (add_event v s)))"
    (is "closures_ok (set_task_rows task ?f ?s)")
proof -
  have kinds: "set terminal_event_kinds = {''task.verdict'', ''task.closed''}"
    by (simp add: terminal_event_kinds_def)
  have id: "tw_task (if tw_task t = task then ?f t else t) = tw_task t" for t by simp
  have same: "t = t0" if "t \<in> set (so_tasks s)" "tw_task t = task" for t
    using that t tasks by (auto simp: tasks_ok_def distinct_map dest: inj_onD)
  have "terminal_rows s task = []" using ok t by (auto simp: closures_ok_def open_row_def)
  then have "closed_row (set_task_rows task ?f ?s) (?f t0)"
    using t v c by (simp add: closed_row_def kinds)
  moreover have "if tw_terminal t then closed_row (set_task_rows task ?f ?s) t
      else open_row (set_task_rows task ?f ?s) t" if "t \<in> set (so_tasks s)" "tw_task t \<noteq> task" for t
    using ok that v(2) c(2) by (auto simp: closures_ok_def closed_row_def open_row_def)
  moreover have "\<exists>t \<in> set (so_tasks (set_task_rows task ?f ?s)). er_task r = Some (tw_task t)"
    if "r \<in> set (so_events ?s)" "er_kind r \<in> set terminal_event_kinds" for r
  proof -
    have "\<exists>t \<in> set (so_tasks s). er_task r = Some (tw_task t)"
      using that ok t v(2) c(2) by (auto simp: closures_ok_def)
    then show ?thesis by (simp only: set_task_rows_quantified frames id)
  qed
  moreover have "if tw_terminal t' then closed_row (set_task_rows task ?f ?s) t'
      else open_row (set_task_rows task ?f ?s) t'"
    if "t \<in> set (so_tasks s)" "t' = (if tw_task t = task then ?f t else t)" for t t'
    using calculation(1,2) same [of t] that by (cases "tw_task t = task") simp_all
  ultimately show ?thesis unfolding closures_ok_def set_task_rows_quantified frames by blast
qed

section \<open>The transactions\<close>

lemma task_row_of_Some: "task_row_of s task = Some t \<Longrightarrow> t \<in> set (so_tasks s) \<and> tw_task t = task"
  by (auto simp: task_row_of_def find_Some_iff)

lemma find_unique: "distinct (map f xs) \<Longrightarrow> x \<in> set xs \<Longrightarrow> find (\<lambda>y. f y = f x) xs = Some x"
  by (induction xs) (auto simp: image_iff)

lemma task_row_unique: "tasks_ok s \<Longrightarrow> t \<in> set (so_tasks s) \<Longrightarrow> task_row_of s (tw_task t) = Some t"
  by (simp add: task_row_of_def tasks_ok_def find_unique)

lemma validate_epoch_scoped_Some:
  "validate_epoch_scoped e s = Inr (Some row) \<Longrightarrow>
     \<exists>task. ev_task e = Some task \<and> task_row_of s task = Some row \<and> \<not> tw_terminal row"
  by (auto simp: validate_epoch_scoped_def py_bind_Inr_iff split: option.splits if_splits)

lemma check_transition_Some:
  assumes "check_transition e row = Inr (Some (task, c))"
  shows "task = task_text e \<and> c \<notin> set TERMINAL_TASK_STATES \<and> (\<exists>r. row = Some r \<and> c \<noteq> tw_state r)"
  using assms by (auto simp: check_transition_def py_bind_Inr_iff split: if_splits option.splits)

lemma append_event_cases:
  assumes "append_event valid sha e n bytes s = Inr s'"
  obtains s1 s2 where "valid (PDict (envelope_dict e))" "ev_kind e \<notin> set terminal_event_kinds"
    "ev_sequence e = next_sequence s (ev_stream e)"
    "s1 = s \<or> (\<exists>ref. result_ref_of e = PDict ref \<and> insert_artifact sha (task_text e) ref bytes None s = Inr s1)"
    "\<not> event_clash e s1" "s2 = add_event e s1"
    "s' = s2 \<or> (\<exists>row c. task_row_of s (task_text e) = Some row \<and> \<not> tw_terminal row
        \<and> c \<notin> set TERMINAL_TASK_STATES \<and> s' = set_task_rows (task_text e) (\<lambda>t. t\<lparr>tw_state := c\<rparr>) s2)"
proof -
  from assms obtain ref row move s1 s2 where
    v: "valid (PDict (envelope_dict e))" "ev_kind e \<notin> {''task.verdict'', ''task.closed''}"
    and ref: "(if result_ref_of e = PNone then Inr None
       else py_bind (py_obj (result_ref_of e)) (\<lambda>ref. Inr (Some ref))) = Inr ref"
    and seq: "ev_sequence e = n" "next_sequence s (ev_stream e) = n"
    and row: "validate_epoch_scoped e s = Inr row" and move: "check_transition e row = Inr move"
    and s1: "(case ref of None \<Rightarrow> Inr s | Some r \<Rightarrow> insert_artifact sha (task_text e) r bytes None s) = Inr s1"
    and s2: "insert_event e s1 = Inr s2"
    and s': "s' = (case move of None \<Rightarrow> s2
            | Some (task, current) \<Rightarrow> set_task_rows task (\<lambda>t. t\<lparr>tw_state := current\<rparr>) s2)"
    by (auto simp: append_event_def validate_event_def py_bind_Inr_iff)
  have "s' = s2 \<or> (\<exists>row c. task_row_of s (task_text e) = Some row \<and> \<not> tw_terminal row
        \<and> c \<notin> set TERMINAL_TASK_STATES \<and> s' = set_task_rows (task_text e) (\<lambda>t. t\<lparr>tw_state := c\<rparr>) s2)"
  proof (cases move)
    case (Some m)
    obtain task c where m: "m = (task, c)" by (cases m)
    from check_transition_Some [OF move [unfolded Some m]] obtain r where
      r: "task = task_text e" "c \<notin> set TERMINAL_TASK_STATES" "row = Some r" by blast
    from validate_epoch_scoped_Some [OF row [unfolded r(3)]] have "task_row_of s (task_text e) = Some r \<and> \<not> tw_terminal r"
      by (auto simp: task_text_def)
    with r m Some s' show ?thesis by auto
  qed (use s' in simp)
  moreover have "s1 = s \<or> (\<exists>ref. result_ref_of e = PDict ref \<and> insert_artifact sha (task_text e) ref bytes None s = Inr s1)"
    using ref s1 by (auto simp: py_bind_Inr_iff py_obj_def split: if_splits pyval.splits)
  ultimately show thesis
    using v seq s2 by (intro that [of s1 s2]) (auto simp: insert_event_Inr terminal_event_kinds_def)
qed

lemma insert_artifact_ok:
  assumes "store_ok valid sha s" and "insert_artifact sha task ref payload h s = Inr s'"
  shows "store_ok valid sha s'"
  using assms(2)
proof (cases rule: insert_artifact_cases)
  case (new a bytes)
  with assms(1) show ?thesis by (auto simp: store_ok_def frame_ok intro: artifacts_ok_add)
qed (use assms(1) in simp)

lemma insert_artifact_frame:
  "insert_artifact sha task ref payload h s = Inr s' \<Longrightarrow>
     so_streams s' = so_streams s \<and> so_events s' = so_events s \<and> so_tasks s' = so_tasks s \<and> so_turns s' = so_turns s
     \<and> next_sequence s' st = next_sequence s st"
  by (erule insert_artifact_cases) simp_all

lemma append_event_ok:
  assumes ok: "store_ok valid sha s" and step: "append_event valid sha e n bytes s = Inr s'"
  shows "store_ok valid sha s'"
  using step
proof (cases rule: append_event_cases)
  case (1 s1 s2)
  have ok1: "store_ok valid sha s1" and frame: "so_tasks s1 = so_tasks s" "next_sequence s1 (ev_stream e) = next_sequence s (ev_stream e)"
    using 1(4) ok insert_artifact_ok insert_artifact_frame by (blast, (metis insert_artifact_frame)+)
  have ok2: "store_ok valid sha s2"
    using ok1 1 frame by (auto simp: store_ok_def frame_ok intro: events_ok_add_event closures_ok_add_event
        admissions_ok_add_event)
  from 1(7) show ?thesis
  proof
    assume "\<exists>row c. task_row_of s (task_text e) = Some row \<and> \<not> tw_terminal row
        \<and> c \<notin> set TERMINAL_TASK_STATES \<and> s' = set_task_rows (task_text e) (\<lambda>t. t\<lparr>tw_state := c\<rparr>) s2"
    then obtain row c where row: "task_row_of s (task_text e) = Some row" "\<not> tw_terminal row"
      and c: "c \<notin> set TERMINAL_TASK_STATES" "s' = set_task_rows (task_text e) (\<lambda>t. t\<lparr>tw_state := c\<rparr>) s2" by blast
    have tasks: "so_tasks s2 = so_tasks s" using 1(6) frame by simp
    have "\<not> tw_terminal t" if "t \<in> set (so_tasks s2)" "tw_task t = task_text e" for t
      using task_row_unique [of s t] that row ok tasks by (auto simp: store_ok_def)
    then have "closures_ok s'" unfolding c(2) using ok2 c(1) by (intro closures_ok_state) (auto simp: store_ok_def)
    moreover have "keeps_identity (\<lambda>t. t\<lparr>tw_state := c\<rparr>)" by (simp add: keeps_identity_def)
    ultimately show ?thesis using ok2 c(2) by (simp add: store_ok_def frame_ok set_task_rows_ok)
  qed (use ok2 in simp)
qed

lemma py_obj_Inr: "py_obj v = Inr d \<longleftrightarrow> v = PDict d"
  by (cases v) (auto simp: py_obj_def)

lemma find_None: "find P xs = None \<longleftrightarrow> (\<forall>x \<in> set xs. \<not> P x)"
  by (auto simp: find_None_iff)

lemma admit_cases:
  assumes "admit valid sha request h e n bytes s = Inr ((task, fresh), s')"
  obtains (known) t where "request_row_of s request = Some t" "tw_sha t = h" "task = tw_task t" "\<not> fresh" "s' = s"
  | (new) t ref s2 s3 where "request_row_of s request = None" "fresh" "task = task_text e"
      "ev_task e = Some task" "valid (PDict (envelope_dict e))" "ev_kind e = ''task.admitted''"
      "ev_sequence e = n" "ev_sequence e = next_sequence s (ev_stream e)"
      "tw_task t = task" "tw_request t = request" "tw_sha t = h" "tw_stream t = ev_stream e"
      "tw_session t = ev_session e" "tw_admitted t = n" "tw_state t = ''admitted''"
      "\<not> tw_terminal t" "tw_verdict t = None" "tw_closed t = None" "tw_result t = None"
      "task \<notin> tw_task ` set (so_tasks s)"
      "py_get (ev_payload e) ''request_ref'' = PDict ref"
      "insert_artifact sha task ref bytes (Some h) (add_task t s) = Inr s2"
      "insert_turn_association task e s2 = Inr s3" "\<not> event_clash e s3" "s' = add_event e s3"
proof (cases "request_row_of s request")
  case (Some t)
  with assms show ?thesis
    by (intro known [of t]) (auto simp: admit_def admission_guards_def validate_event_def py_bind_Inr_iff)
next
  case None
  from assms None obtain x epoch ref s1 s2 s3 where
    *: "valid (PDict (envelope_dict e))" "ev_kind e = ''task.admitted''" "\<not> no_task e" "ev_sequence e = n"
      "next_sequence s (ev_stream e) = n"
      "py_item (PDict (ev_payload e)) ''request_ref'' = Inr (PDict ref)"
      "insert_task \<lparr>tw_task = task_text e, tw_session = ev_session e, tw_request = request,
               tw_sha = h, tw_stream = ev_stream e, tw_admitted = n, tw_epoch = epoch,
               tw_state = ''admitted'', tw_terminal = False, tw_verdict = None, tw_closed = None,
               tw_result = None\<rparr> s = Inr s1"
      "insert_artifact sha (task_text e) ref bytes (Some h) s1 = Inr s2"
      "insert_turn_association (task_text e) e s2 = Inr s3" "insert_event e s3 = Inr s'"
      "task = task_text e" "fresh"
    by (auto simp: admit_def admission_guards_def validate_event_def py_bind_Inr_iff py_obj_Inr)
  from *(3) have "ev_task e = Some (task_text e)" by (auto simp: no_task_def task_text_def split: option.splits)
  moreover from *(6) have "py_get (ev_payload e) ''request_ref'' = PDict ref"
    by (simp add: py_item_def py_get_def split: option.splits)
  ultimately show ?thesis
    using * None by (intro new) (auto simp: insert_task_Inr insert_event_Inr)
qed

lemma insert_turn_ok:
  assumes "turns_ok s" and "insert_turn_association task e s = Inr s'"
  shows "turns_ok s'"
  using assms(2) by (cases rule: insert_turn_cases) (use assms(1) in \<open>auto intro: turns_ok_add\<close>)

lemma insert_turn_frame:
  "insert_turn_association task e s = Inr s' \<Longrightarrow>
     so_streams s' = so_streams s \<and> so_events s' = so_events s \<and> so_tasks s' = so_tasks s
     \<and> so_artifacts s' = so_artifacts s \<and> next_sequence s' st = next_sequence s st"
  by (erule insert_turn_cases) simp_all

lemma same_events_tasks:
  assumes "so_streams s' = so_streams s" "so_events s' = so_events s" "so_tasks s' = so_tasks s"
  shows "events_ok valid s' = events_ok valid s" "tasks_ok s' = tasks_ok s" "closures_ok s' = closures_ok s"
    "admissions_ok s' = admissions_ok s"
  using assms by (simp_all add: events_ok_def tasks_ok_def closures_ok_def admissions_ok_def stream_rows_def
      terminal_rows_def next_sequence_def closed_row_def open_row_def admitted_row_def)

lemma insert_artifact_part_ok:
  assumes "artifacts_ok sha s" and "insert_artifact sha task ref payload h s = Inr s'"
  shows "artifacts_ok sha s'"
  using assms(2) by (cases rule: insert_artifact_cases) (use assms(1) in \<open>auto intro: artifacts_ok_add\<close>)

lemma admit_ok:
  assumes ok: "store_ok valid sha s" and step: "admit valid sha request h e n bytes s = Inr (out, s')"
  shows "store_ok valid sha s'"
proof -
  obtain task fresh where out: "out = (task, fresh)" by (cases out)
  from step [unfolded out] show ?thesis
  proof (cases rule: admit_cases)
    case (new t ref s2 s3)
    let ?s1 = "add_task t s"
    have s1: "tasks_ok ?s1" "events_ok valid ?s1" "closures_ok ?s1" "artifacts_ok sha ?s1" "turns_ok ?s1"
    proof -
      show "tasks_ok ?s1"
        using ok new by (auto simp: store_ok_def tasks_ok_def request_row_of_def find_None)
      show "closures_ok ?s1"
        using ok new by (intro closures_ok_new_task) (auto simp: store_ok_def TERMINAL_TASK_STATES_def)
    qed (use ok in \<open>auto simp: store_ok_def frame_ok artifacts_ok_def turns_ok_def\<close>)
    note fr2 = insert_artifact_frame [OF new(22)] and fr3 = insert_turn_frame [OF new(23)]
    have s3: "events_ok valid s3" "tasks_ok s3" "closures_ok s3"
      using same_events_tasks [of s3 ?s1] fr2 fr3 s1 by metis+
    have a3: "artifacts_ok sha s3"
    proof -
      have "artifacts_ok sha s2" by (rule insert_artifact_part_ok [OF s1(4) new(22)])
      with fr3 show ?thesis by (simp add: artifacts_ok_def)
    qed
    have t3: "turns_ok s3"
    proof -
      have "turns_ok s2" using s1(5) fr2 by (simp add: turns_ok_def)
      from insert_turn_ok [OF this new(23)] show ?thesis .
    qed
    have seq: "ev_sequence e = next_sequence s3 (ev_stream e)"
      using new(8) fr2 fr3 by (metis rows_frames(11))
    have "events_ok valid s'" using events_ok_add_event [OF s3(1) seq new(24) new(5)] new(25) by simp
    moreover have "closures_ok s'"
      using closures_ok_add_event [OF s3(3)] new(6,25) by (simp add: terminal_event_kinds_def)
    moreover have "admissions_ok s'"
      using ok new fr2 fr3 by (auto simp: store_ok_def admissions_ok_def admitted_row_def)
    ultimately show ?thesis using s3 a3 t3 new(25) by (simp add: store_ok_def frame_ok)
  qed (use ok in simp)
qed

lemma check_bundle_Inr:
  assumes "check_bundle v c n = Inr (task, ref, status)"
  shows "ev_kind v = ''task.verdict'' \<and> ev_kind c = ''task.closed'' \<and> ev_task v = Some task \<and> ev_task c = Some task
    \<and> task = task_text v \<and> ev_stream c = ev_stream v \<and> ev_sequence v = n \<and> ev_sequence c = n + 1
    \<and> (\<exists>completion. py_item (PDict (ev_payload v)) ''completion'' = Inr completion
         \<and> py_item completion ''result_ref'' = Inr (PDict ref))"
proof -
  from assms have "\<not> no_task v" "ev_task c = ev_task v" "task = task_text v"
    by (auto simp: check_bundle_def py_bind_Inr_iff)
  then have "ev_task v = Some task" "ev_task c = Some task"
    by (auto simp: no_task_def task_text_def split: option.splits)
  with assms show ?thesis by (auto simp: check_bundle_def py_bind_Inr_iff py_obj_Inr)
qed

lemma finalize_cases:
  assumes "finalize_task valid sha v c n bytes s = Inr s'"
  obtains task ref status row s1 where "valid (PDict (envelope_dict v))" "valid (PDict (envelope_dict c))"
    "check_bundle v c n = Inr (task, ref, status)"
    "task_row_of s task = Some row" "\<not> tw_terminal row" "tw_stream row = ev_stream v"
    "n = next_sequence s (ev_stream v)"
    "insert_artifact sha task ref bytes None s = Inr s1"
    "\<not> event_clash v s1" "\<not> event_clash c (add_event v s1)"
    "s' = set_task_rows task (\<lambda>t. t\<lparr>tw_state := py_str status, tw_terminal := True, tw_verdict := Some n,
        tw_closed := Some (n + 1), tw_result := Some (json_compact (PDict ref))\<rparr>) (add_event c (add_event v s1))"
proof -
  from assms obtain task ref status s1 where
    *: "valid (PDict (envelope_dict v))" "valid (PDict (envelope_dict c))"
    "check_bundle v c n = Inr (task, ref, status)" "check_open_task task v c s = Inr ()"
    "next_sequence s (ev_stream v) = n" "insert_artifact sha task ref bytes None s = Inr s1"
    "\<not> event_clash v s1" "\<not> event_clash c (add_event v s1)"
    "s' = set_task_rows task (\<lambda>t. t\<lparr>tw_state := py_str status, tw_terminal := True, tw_verdict := Some n,
        tw_closed := Some (n + 1), tw_result := Some (json_compact (PDict ref))\<rparr>) (add_event c (add_event v s1))"
    by (auto simp: finalize_task_def validate_event_def py_bind_Inr_iff insert_event_Inr)
  from *(4) obtain row where "task_row_of s task = Some row" "\<not> tw_terminal row" "tw_stream row = ev_stream v"
    by (auto simp: check_open_task_def split: option.splits)
  with * show thesis by (intro that [of task ref status row s1]) auto
qed

lemma finalize_ok:
  assumes ok: "store_ok valid sha s" and step: "finalize_task valid sha v c n bytes s = Inr s'"
  shows "store_ok valid sha s'"
  using step
proof (cases rule: finalize_cases)
  case (1 task ref status row s1)
  note b = check_bundle_Inr [OF 1(3)]
  have ok1: "store_ok valid sha s1" by (rule insert_artifact_ok [OF ok 1(8)])
  note fr = insert_artifact_frame [OF 1(8)]
  let ?s3 = "add_event c (add_event v s1)"
  have row: "row \<in> set (so_tasks s1)" "tw_task row = task"
    using task_row_of_Some [OF 1(4)] fr by auto
  have "events_ok valid (add_event v s1)"
    using ok1 1 b fr by (intro events_ok_add_event) (auto simp: store_ok_def)
  from events_ok_add_event [OF this _ 1(10) 1(2)] have e3: "events_ok valid ?s3" using b by simp
  have cl: "closures_ok s'"
    unfolding 1(11) using ok1 row 1(5,6) b by (intro closures_ok_finalize) (auto simp: store_ok_def)
  have keep: "keeps_identity (\<lambda>t. t\<lparr>tw_state := py_str status, tw_terminal := True, tw_verdict := Some n,
        tw_closed := Some (n + 1), tw_result := Some (json_compact (PDict ref))\<rparr>)"
    by (simp add: keeps_identity_def)
  have "admissions_ok ?s3" using ok1 by (intro admissions_ok_add_event) (simp add: store_ok_def)
  with ok1 e3 cl show ?thesis
    unfolding 1(11) by (simp add: store_ok_def frame_ok set_task_rows_ok [OF keep] del: json_compact.simps)
qed

lemma rebuild_row_cases:
  assumes "rebuild_row r s = Inr s'"
  obtains (none) "s' = s"
  | (new) n where "0 \<le> nw_index n" "nw_task n \<notin> nw_task ` set (so_turns s)"
      "nw_task n \<in> tw_task ` set (so_tasks s)" "s' = add_turn n s"
proof (cases "s' = s")
  case False
  let ?task = "case er_task r of None \<Rightarrow> ''None'' | Some t \<Rightarrow> t"
  from False assms obtain env ref c n h where "turn_of_ref ref = Inr (c, n, h)" "origin_turn_ref env = Inr ref"
    "json_loads (er_json r) = Inr env" "ref \<noteq> PNone"
    by (auto simp: rebuild_row_def py_bind_Inr_iff split: if_splits)
  with assms False show ?thesis
    by (intro new [of "\<lparr>nw_conversation = c, nw_index = n, nw_sha = h, nw_task = ?task\<rparr>"])
      (auto simp: rebuild_row_def Let_def add_turn_def split: if_splits)
qed (rule none)

lemma rebuild_rows_ok:
  "store_ok valid sha s \<Longrightarrow> rebuild_rows rs s = Inr s' \<Longrightarrow> store_ok valid sha s'"
proof (induction rs arbitrary: s)
  case (Cons r rs)
  then obtain s1 where s1: "rebuild_row r s = Inr s1" "rebuild_rows rs s1 = Inr s'"
    by (auto simp: py_bind_Inr_iff)
  have "store_ok valid sha s1"
    using s1(1) by (cases rule: rebuild_row_cases)
      (use Cons.prems(1) in \<open>auto simp: store_ok_def frame_ok intro: turns_ok_add\<close>)
  with Cons.IH s1(2) show ?case by blast
qed simp

lemma store_step_ok: "store_ok valid sha s \<Longrightarrow> store_step valid sha x s = Inr s' \<Longrightarrow> store_ok valid sha s'"
  by (cases x) (auto simp: py_bind_Inr_iff initialise_def
    intro: append_event_ok admit_ok finalize_ok rebuild_rows_ok)

section \<open>What only grows\<close>

definition same_task :: "task_row \<Rightarrow> task_row \<Rightarrow> bool" where
  "same_task t u \<longleftrightarrow> tw_task u = tw_task t \<and> tw_session u = tw_session t \<and> tw_request u = tw_request t
     \<and> tw_sha u = tw_sha t \<and> tw_stream u = tw_stream t \<and> tw_admitted u = tw_admitted t
     \<and> tw_epoch u = tw_epoch t \<and> (tw_terminal t \<longrightarrow> u = t)"

definition tasks_grow :: "store \<Rightarrow> store \<Rightarrow> bool" where
  "tasks_grow s s' \<longleftrightarrow> (\<forall>t \<in> set (so_tasks s). \<exists>u \<in> set (so_tasks s'). same_task t u)"

definition store_grows :: "store \<Rightarrow> store \<Rightarrow> bool" where
  "store_grows s s' \<longleftrightarrow> prefix (so_events s) (so_events s') \<and> prefix (so_artifacts s) (so_artifacts s')
     \<and> prefix (so_turns s) (so_turns s') \<and> tasks_grow s s'"

lemma same_task_refl [simp]: "same_task t t"
  by (simp add: same_task_def)

lemma same_task_trans: "same_task t u \<Longrightarrow> same_task u w \<Longrightarrow> same_task t w"
  by (auto simp: same_task_def)

lemma tasks_grow_trans: "tasks_grow s t \<Longrightarrow> tasks_grow t u \<Longrightarrow> tasks_grow s u"
  unfolding tasks_grow_def by (blast intro: same_task_trans)

lemma store_grows_refl [simp]: "store_grows s s"
  by (auto simp: store_grows_def tasks_grow_def intro: same_task_refl)

lemma store_grows_trans [trans]: "store_grows s t \<Longrightarrow> store_grows t u \<Longrightarrow> store_grows s u"
  unfolding store_grows_def by (blast intro: prefix_order.trans tasks_grow_trans)

lemma grows_effects [simp]:
  "store_grows s (add_artifact a s)" "store_grows s (add_turn n s)" "store_grows s (add_task t s)"
  "store_grows s (add_event e s)"
  by (auto simp: store_grows_def tasks_grow_def intro: same_task_refl)

lemma grows_update:
  assumes "keeps_identity f" and "\<And>t. t \<in> set (so_tasks s) \<Longrightarrow> tw_task t = task \<Longrightarrow> \<not> tw_terminal t"
  shows "store_grows s (set_task_rows task f s)"
proof -
  have "same_task t (if tw_task t = task then f t else t)" if "t \<in> set (so_tasks s)" for t
    using assms that by (simp add: same_task_def keeps_identity_def)
  then have "tasks_grow s (set_task_rows task f s)"
    unfolding tasks_grow_def set_task_rows_quantified by blast
  then show ?thesis by (simp add: store_grows_def)
qed

lemma insert_artifact_grows: "insert_artifact sha task ref payload h s = Inr s' \<Longrightarrow> store_grows s s'"
  by (erule insert_artifact_cases) auto

lemma insert_turn_grows: "insert_turn_association task e s = Inr s' \<Longrightarrow> store_grows s s'"
  by (erule insert_turn_cases) auto

lemma rebuild_rows_grows: "rebuild_rows rs s = Inr s' \<Longrightarrow> store_grows s s'"
proof (induction rs arbitrary: s)
  case (Cons r rs)
  then obtain s1 where "rebuild_row r s = Inr s1" "rebuild_rows rs s1 = Inr s'" by (auto simp: py_bind_Inr_iff)
  moreover from this(1) have "store_grows s s1" by (cases rule: rebuild_row_cases) auto
  ultimately show ?case using Cons.IH by (blast intro: store_grows_trans)
qed simp

lemma update_open_rows:
  assumes "tasks_ok s" and "task_row_of s task = Some row" and "\<not> tw_terminal row"
    and "t \<in> set (so_tasks s)" and "tw_task t = task"
  shows "\<not> tw_terminal t"
  using task_row_unique [OF assms(1,4)] assms by simp

lemma append_event_grows:
  assumes ok: "store_ok valid sha s" and step: "append_event valid sha e n bytes s = Inr s'"
  shows "store_grows s s'"
  using step
proof (cases rule: append_event_cases)
  case (1 s1 s2)
  have g1: "store_grows s s1" and fr: "so_tasks s1 = so_tasks s"
    using 1(4) insert_artifact_grows insert_artifact_frame by auto
  then have g2: "store_grows s s2" using 1(6) by (auto intro: store_grows_trans)
  from 1(7) show ?thesis
  proof
    assume "\<exists>row c. task_row_of s (task_text e) = Some row \<and> \<not> tw_terminal row
        \<and> c \<notin> set TERMINAL_TASK_STATES \<and> s' = set_task_rows (task_text e) (\<lambda>t. t\<lparr>tw_state := c\<rparr>) s2"
    then obtain row c where row: "task_row_of s (task_text e) = Some row" "\<not> tw_terminal row"
      and s': "s' = set_task_rows (task_text e) (\<lambda>t. t\<lparr>tw_state := c\<rparr>) s2" by blast
    have "store_grows s2 s'"
      unfolding s' using update_open_rows [OF _ row] ok fr 1(6)
      by (intro grows_update) (auto simp: keeps_identity_def store_ok_def)
    with g2 show ?thesis by (rule store_grows_trans)
  qed (use g2 in simp)
qed

lemma admit_grows:
  assumes "admit valid sha request h e n bytes s = Inr (out, s')"
  shows "store_grows s s'"
proof -
  obtain task fresh where out: "out = (task, fresh)" by (cases out)
  from assms [unfolded out] show ?thesis
  proof (cases rule: admit_cases)
    case (new t ref s2 s3)
    have "store_grows s (add_task t s)" by simp
    also note insert_artifact_grows [OF new(22)]
    also note insert_turn_grows [OF new(23)]
    also have "store_grows s3 s'" using new(25) by simp
    finally show ?thesis .
  qed simp
qed

lemma finalize_grows:
  assumes ok: "store_ok valid sha s" and step: "finalize_task valid sha v c n bytes s = Inr s'"
  shows "store_grows s s'"
  using step
proof (cases rule: finalize_cases)
  case (1 task ref status row s1)
  note fr = insert_artifact_frame [OF 1(8)]
  have "store_grows s s1" by (rule insert_artifact_grows [OF 1(8)])
  also have "store_grows s1 (add_event v s1)" by simp
  also have "store_grows (add_event v s1) (add_event c (add_event v s1))" by simp
  also have "store_grows (add_event c (add_event v s1)) s'"
    unfolding 1(11) using update_open_rows [OF _ 1(4,5)] ok fr
    by (intro grows_update) (auto simp: keeps_identity_def store_ok_def)
  finally show ?thesis .
qed

lemma store_step_grows:
  "store_ok valid sha s \<Longrightarrow> store_step valid sha x s = Inr s' \<Longrightarrow> store_grows s s'"
  by (cases x) (auto simp: py_bind_Inr_iff initialise_def
    intro: append_event_grows admit_grows finalize_grows rebuild_rows_grows)

interpretation durable: monotone_machine "store_step valid sha" "store_ok valid sha" store_grows
  for valid sha
proof unfold_locales
  show "store_ok valid sha s \<Longrightarrow> store_step valid sha x s = Inr t \<Longrightarrow> store_ok valid sha t" for s x t
    by (rule store_step_ok)
  show "store_ok valid sha s \<Longrightarrow> store_step valid sha x s = Inr t \<Longrightarrow> store_grows s t" for s x t
    by (rule store_step_grows)
  show "store_grows s s" for s by simp
  show "store_grows s t \<Longrightarrow> store_grows t u \<Longrightarrow> store_grows s u" for s t u by (rule store_grows_trans)
qed

end
