(* ===== verification/Session_Properties.thy ===== *)
theory Session_Properties
  imports Session_Invariants
begin

text \<open>
  The durable store's promises to its readers: what was appended is what is replayed, a
  terminal task never changes, a request is admitted once, retained bytes come back exactly,
  and a task stays findable from its conversation turn.
\<close>

declare json_compact.simps(6) [simp del] and canon.simps(2) [simp del] and keys_distinct.simps(2) [simp del]

section \<open>Replaying\<close>

definition validator_ok :: "(pyval \<Rightarrow> bool) \<Rightarrow> bool" where
  \<comment> \<open>JSON Schema: only values with distinct keys are objects, and key order does not matter\<close>
  "validator_ok valid \<longleftrightarrow> (\<forall>v. valid v \<longrightarrow> keys_distinct v \<and> valid (canon v))"

lemma filter_contiguous:
  assumes "map er_sequence rs = map int [Suc k..<Suc (k + length rs)]"
  shows "filter (\<lambda>r. er_sequence r > int (k + d)) rs = drop d rs"
  using assms
proof (induction rs arbitrary: k d)
  case (Cons r rs)
  from Cons.prems have r: "er_sequence r = int (Suc k)"
    and rs: "map er_sequence rs = map int [Suc (Suc k)..<Suc (Suc k + length rs)]"
    by (simp_all add: upt_rec [of "Suc k"] del: upt_Suc)
  show ?case
  proof (cases d)
    case 0
    with Cons.IH [OF rs, of 0] r
    have "\<forall>x \<in> set rs. er_sequence x > int (Suc k)" by (metis add_0_right drop0 filter_id_conv)
    with 0 r show ?thesis by (auto simp: filter_id_conv)
  next
    case (Suc e)
    with Cons.IH [OF rs, of e] r show ?thesis by simp
  qed
qed simp

lemma contiguous_sorted: "contiguous rs \<Longrightarrow> sorted (map er_sequence rs)"
proof -
  assume "contiguous rs"
  then have "map er_sequence rs = map int [1..<Suc (length rs)]" by (simp add: contiguous_def)
  moreover have "sorted (map int [1..<Suc (length rs)])"
    by (simp add: sorted_wrt_map del: upt_Suc)
  ultimately show ?thesis by simp
qed

lemma events_after_drop:
  assumes "events_ok valid s" and "0 \<le> after"
  shows "events_after s stream after = drop (nat after) (stream_rows s stream)"
proof -
  have c: "contiguous (stream_rows s stream)" using assms(1) by (simp add: events_ok_def)
  have "filter (\<lambda>r. er_stream r = stream \<and> er_sequence r > after) (so_events s)
      = filter (\<lambda>r. er_sequence r > after) (stream_rows s stream)"
    by (simp add: stream_rows_def conj_commute)
  also have "\<dots> = drop (nat after) (stream_rows s stream)"
    using filter_contiguous [of "stream_rows s stream" 0 "nat after"] c assms(2)
    by (simp add: contiguous_def)
  finally have f: "filter (\<lambda>r. er_stream r = stream \<and> er_sequence r > after) (so_events s)
      = drop (nat after) (stream_rows s stream)" .
  have "sorted (map er_sequence (drop (nat after) (stream_rows s stream)))"
    using contiguous_sorted [OF c] by (simp add: drop_map [symmetric] sorted_wrt_drop)
  then show ?thesis by (simp add: events_after_def f sort_key_id_if_sorted)
qed

lemma load_encoded:
  assumes "\<And>e. e \<in> set es \<Longrightarrow> keys_distinct (PDict (envelope_dict e))"
  shows "load_events valid (map encoded es) = Inr (map (\<lambda>e. canon (PDict (envelope_dict e))) es)"
  using assms
proof (induction es)
  case (Cons e es)
  then have "json_loads (encoded e) = Inr (canon (PDict (envelope_dict e)))"
    unfolding encoded_def by (intro json_round_trip) simp
  with Cons show ?case by simp
qed simp

lemma validate_all_ok: "(\<And>v. v \<in> set vs \<Longrightarrow> valid v) \<Longrightarrow> validate_all valid vs = Inr ()"
  by (induction vs) (simp_all add: validate_event_def)

lemma rows_envelopes:
  assumes "\<forall>r \<in> set rs. \<exists>e. r = event_row_of e \<and> valid (PDict (envelope_dict e))"
  shows "\<exists>es. rs = map event_row_of es \<and> (\<forall>e \<in> set es. valid (PDict (envelope_dict e)))"
  using assms
proof (induction rs)
  case (Cons r rs)
  then obtain es e where "rs = map event_row_of es" "\<forall>e \<in> set es. valid (PDict (envelope_dict e))"
    "r = event_row_of e" "valid (PDict (envelope_dict e))" by auto
  then show ?case by (intro exI [of _ "e # es"]) simp
qed simp

lemma replay_ok:
  assumes ok: "events_ok valid s" and valid: "validator_ok valid"
    and bounds: "0 \<le> after" "1 \<le> limit" "limit \<le> 10000"
  shows "\<exists>es. replay valid s stream after limit = Inr (map (\<lambda>e. canon (PDict (envelope_dict e))) es)
    \<and> map event_row_of es = take (nat limit) (drop (nat after) (stream_rows s stream))
    \<and> (\<forall>e \<in> set es. valid (PDict (envelope_dict e)))"
proof -
  let ?rs = "take (nat limit) (drop (nat after) (stream_rows s stream))"
  have "set ?rs \<subseteq> set (so_events s)"
    using set_take_subset set_drop_subset by (fastforce simp: stream_rows_def)
  with ok have "\<forall>r \<in> set ?rs. \<exists>e. r = event_row_of e \<and> valid (PDict (envelope_dict e))"
    by (auto simp: events_ok_def)
  from rows_envelopes [OF this] obtain es where es: "?rs = map event_row_of es"
    and v: "\<forall>e \<in> set es. valid (PDict (envelope_dict e))" by blast
  have "load_events valid (map encoded es) = Inr (map (\<lambda>e. canon (PDict (envelope_dict e))) es)"
    using v valid by (intro load_encoded) (auto simp: validator_ok_def)
  moreover have "validate_all valid (map (\<lambda>e. canon (PDict (envelope_dict e))) es) = Inr ()"
    using v valid by (intro validate_all_ok) (auto simp: validator_ok_def)
  ultimately show ?thesis
    using bounds es v by (intro exI [of _ es]) (simp add: replay_def events_after_drop [OF ok] comp_def)
qed

lemma take_upt_min: "take m [i..<n] = [i..<min (i + m) n]"
  by (cases "i + m \<le> n") (auto simp: take_upt min_def simp del: upt_Suc)

lemma contiguous_slice:
  assumes "contiguous rs"
  shows "map er_sequence (take m (drop k rs)) = map int [Suc k..<Suc (min (k + m) (length rs))]"
proof -
  have "map er_sequence (take m (drop k rs)) = take m (drop k (map er_sequence rs))"
    by (simp add: take_map drop_map)
  also have "\<dots> = map int (take m (drop k [1..<Suc (length rs)]))"
    using assms by (simp add: contiguous_def take_map drop_map)
  also have "take m (drop k [1..<Suc (length rs)]) = [Suc k..<Suc (min (k + m) (length rs))]"
    by (simp add: take_upt_min min_Suc_Suc [symmetric] del: upt_Suc min_Suc_Suc)
  finally show ?thesis .
qed

section \<open>A sample script\<close>

definition demo_digest :: "string \<Rightarrow> string" where
  "demo_digest s = take 8 (s @ ''00000000'')"

definition demo_valid :: "pyval \<Rightarrow> bool" where
  "demo_valid v = keys_distinct v"

lemma canon_keys: "keys_distinct v \<Longrightarrow> keys_distinct (canon v)"
proof (induction v)
  case (PDict d)
  then have "distinct (map fst (sort_key fst d))" by (simp add: keys_distinct.simps distinct_map)
  moreover have "map fst (map canon_pair (sort_key fst d)) = map fst (sort_key fst d)"
    by (simp add: canon_pair_def)
  ultimately have "distinct (map fst (map canon_pair (sort_key fst d)))" by metis
  then show ?case
    using PDict by (auto simp: canon_dict keys_distinct.simps canon_pair_def snds.simps simp del: map_map)
qed simp_all

lemma demo_validator: "validator_ok demo_valid"
  by (simp add: validator_ok_def demo_valid_def canon_keys)

definition demo_ref :: "string \<Rightarrow> string \<Rightarrow> pydict" where
  "demo_ref i bytes = [(''artifact_id'', PStr i), (''sha256'', PStr (demo_digest bytes)),
     (''media_type'', PStr ''text''), (''size_bytes'', PInt (int (length bytes))), (''availability'', PStr ''retained'')]"

definition demo_turn :: pydict where
  "demo_turn = [(''conversation_id'', PStr ''c''), (''turn_index'', PInt 3), (''turn_sha256'', PStr ''h'')]"

definition demo_event :: "string \<Rightarrow> int \<Rightarrow> string \<Rightarrow> pydict \<Rightarrow> envelope" where
  "demo_event i n kind payload = \<lparr>ev_id = i, ev_stream = ''s'', ev_sequence = n, ev_producer = ''p'',
     ev_session = None, ev_task = Some ''t1'', ev_utc = ''now'', ev_kind = kind, ev_payload = payload\<rparr>"

definition demo_admitted :: envelope where
  "demo_admitted = demo_event ''e1'' 1 ''task.admitted''
     [(''execution_epoch'', PInt 0), (''request_ref'', PDict (demo_ref ''a1'' ''fix it'')),
      (''origin'', PDict [(''kind'', PStr ''conversation''), (''turn_ref'', PDict demo_turn)])]"

definition demo_verdict :: envelope where
  "demo_verdict = demo_event ''e2'' 2 ''task.verdict''
     [(''completion'', PDict [(''task_id'', PStr ''t1''), (''status'', PStr ''completed''),
        (''result_ref'', PDict (demo_ref ''a2'' ''done''))])]"

definition demo_closed :: envelope where
  "demo_closed = demo_event ''e3'' 3 ''task.closed''
     [(''status'', PStr ''completed''), (''result_ref'', PDict (demo_ref ''a2'' ''done''))]"

definition demo_script :: "store_op list" where
  "demo_script = [Admit ''r1'' (demo_digest ''fix it'') demo_admitted 1 (Some ''fix it''),
     Finalize demo_verdict demo_closed 2 (Some ''done'')]"

abbreviation demo_run :: "store_op list \<Rightarrow> store" where
  "demo_run ops \<equiv> run_ops (store_step demo_valid demo_digest) ops empty_store"

section \<open>The properties\<close>

text \<open>C9: What is appended is what is replayed.  After any script of transactions on a new
  store, replaying a stream from a cursor never fails: it returns, in order and without gaps,
  the next \<open>limit\<close> envelopes that were accepted on that stream, each the accepted envelope
  itself up to the order of its keys.\<close>
theorem replay_returns_the_log:
  assumes "validator_ok valid" and "s = run_ops (store_step valid sha) ops empty_store"
    and "0 \<le> after" and "1 \<le> limit" and "limit \<le> 10000"
  shows "\<exists>es. replay valid s stream after limit = Inr (map (\<lambda>e. canon (PDict (envelope_dict e))) es)
    \<and> list_all (\<lambda>e. ev_stream e = stream \<and> valid (PDict (envelope_dict e)) \<and> event_row_of e \<in> set (so_events s)) es
    \<and> map ev_sequence es = map int [nat after + 1..<min (nat after + nat limit + 1) (nat (next_sequence s stream))]"
proof -
  have ok: "events_ok valid s"
    using durable.run_inv [OF empty_store_ok, of valid sha ops] assms(2) by (simp add: store_ok_def)
  then have c: "contiguous (stream_rows s stream)"
    and n: "next_sequence s stream = int (Suc (length (stream_rows s stream)))" by (auto simp: events_ok_def)
  from n have n': "nat (next_sequence s stream) = Suc (length (stream_rows s stream))" by (simp only: nat_int)
  from replay_ok [OF ok assms(1,3-5), of stream] obtain es where
    r: "replay valid s stream after limit = Inr (map (\<lambda>e. canon (PDict (envelope_dict e))) es)"
    and rows: "map event_row_of es = take (nat limit) (drop (nat after) (stream_rows s stream))"
    and v: "\<forall>e \<in> set es. valid (PDict (envelope_dict e))" by blast
  have mem: "event_row_of e \<in> set (stream_rows s stream)" if "e \<in> set es" for e
    using that rows by (metis in_set_dropD in_set_takeD image_eqI set_map)
  have dist: "ev_stream e = stream \<and> valid (PDict (envelope_dict e)) \<and> event_row_of e \<in> set (so_events s)"
    if "e \<in> set es" for e
    using mem [OF that] v that by (auto simp: stream_rows_def)
  have "map ev_sequence es = map er_sequence (map event_row_of es)" by simp
  also have "\<dots> = map int [nat after + 1..<min (nat after + nat limit + 1) (nat (next_sequence s stream))]"
    unfolding rows contiguous_slice [OF c] n' by (simp add: min_Suc_Suc [symmetric] del: upt_Suc min_Suc_Suc)
  finally show ?thesis using r dist by (intro exI [of _ es]) (simp add: list_all_iff)
qed

theorem replay_returns_the_log_witness:
  "\<exists>es. replay demo_valid (demo_run demo_script) ''s'' 1 10
      = Inr (map (\<lambda>e. canon (PDict (envelope_dict e))) es)
    \<and> map ev_sequence es = map int [2..<4]"
proof -
  have n: "next_sequence (demo_run demo_script) ''s'' = 4" by code_simp
  obtain es where "replay demo_valid (demo_run demo_script) ''s'' 1 10
      = Inr (map (\<lambda>e. canon (PDict (envelope_dict e))) es)"
    and "map ev_sequence es
      = map int [nat 1 + 1..<min (nat 1 + nat 10 + 1) (nat (next_sequence (demo_run demo_script) ''s''))]"
    using replay_returns_the_log [OF demo_validator refl, where ops = demo_script and sha = demo_digest
        and stream = "''s''" and after = 1 and limit = 10] by auto
  then show ?thesis using n by (intro exI [of _ es]) (simp add: upt_rec)
qed

text \<open>C10: A terminal task is final.  Once a task's row is terminal, no script of transactions
  changes its record or gives it another terminal event: exactly one verdict and the closure
  that follows it stay on its stream, and every further attempt to finalize it is refused.\<close>
theorem terminal_task_is_final:
  assumes "s = run_ops (store_step valid sha) ops empty_store"
    and "task_row_of s task = Some t" and "tw_terminal t"
    and "s' = run_ops (store_step valid sha) more_ops s"
  shows "task_record s' task = task_record s task \<and> closed_row s' t
    \<and> (ev_task v = Some task \<longrightarrow> \<not> returns P (finalize_task valid sha v c n bytes s'))"
proof -
  have ok: "store_ok valid sha s" unfolding assms(1) by (rule durable.run_inv [OF empty_store_ok])
  then have ok': "store_ok valid sha s'" and "store_grows s s'"
    unfolding assms(4) by (rule durable.run_inv durable.run_below)+
  from task_row_of_Some [OF assms(2)] have t: "t \<in> set (so_tasks s)" "tw_task t = task" by auto
  with \<open>store_grows s s'\<close> assms(3) have mem: "t \<in> set (so_tasks s')"
    by (auto simp: store_grows_def tasks_grow_def same_task_def)
  with ok' t(2) have row: "task_row_of s' task = Some t"
    using task_row_unique [of s' t] by (simp add: store_ok_def)
  have "closed_row s' t" using ok' mem assms(3) by (auto simp: store_ok_def closures_ok_def)
  moreover have "\<not> returns P (finalize_task valid sha v c n bytes s')" if "ev_task v = Some task"
  proof
    assume "returns P (finalize_task valid sha v c n bytes s')"
    then obtain u where "finalize_task valid sha v c n bytes s' = Inr u" by (rule returnsE)
    then show False
    proof (cases rule: finalize_cases)
      case (1 x ref status r s1)
      with check_bundle_Inr [OF 1(3)] that row assms(3) show False by auto
    qed
  qed
  ultimately show ?thesis using row assms(2) by (simp add: task_record_def)
qed

theorem terminal_task_is_final_witness:
  "\<exists>t. task_row_of (demo_run demo_script) ''t1'' = Some t \<and> tw_terminal t
    \<and> task_record (run_ops (store_step demo_valid demo_digest) demo_script (demo_run demo_script)) ''t1''
      = task_record (demo_run demo_script) ''t1''"
proof -
  have "(case task_row_of (demo_run demo_script) ''t1'' of None \<Rightarrow> False | Some t \<Rightarrow> tw_terminal t)"
    by code_simp
  then obtain t where t: "task_row_of (demo_run demo_script) ''t1'' = Some t" "tw_terminal t"
    by (auto split: option.splits)
  from terminal_task_is_final [OF refl t refl] t show ?thesis by blast
qed

text \<open>C11: A request is admitted once.  After a request id was admitted, whatever happened in
  between: repeating the same call returns the same task, not as new, and changes nothing; and
  any admission under that id that succeeds is for the same payload digest, names the same
  task and changes nothing.\<close>
theorem admission_is_idempotent:
  assumes "s = run_ops (store_step valid sha) ops empty_store"
    and "admit valid sha request h e n bytes s = Inr ((task, fresh), s1)"
    and "s2 = run_ops (store_step valid sha) more_ops s1"
  shows "admit valid sha request h e n bytes s2 = Inr ((task, False), s2)
    \<and> (\<forall>h' e' n' bytes' out s3. admit valid sha request h' e' n' bytes' s2 = Inr (out, s3) \<longrightarrow>
         h' = h \<and> out = (task, False) \<and> s3 = s2)"
proof -
  have ok: "store_ok valid sha s" unfolding assms(1) by (rule durable.run_inv [OF empty_store_ok])
  then have ok1: "store_ok valid sha s1" using assms(2) by (rule admit_ok)
  have ok2: "store_ok valid sha s2" and grows: "store_grows s1 s2"
    unfolding assms(3) using ok1 by (rule durable.run_inv durable.run_below)+
  have "\<exists>t \<in> set (so_tasks s1). tw_request t = request \<and> tw_sha t = h \<and> tw_task t = task"
    using assms(2)
  proof (cases rule: admit_cases)
    case (known t)
    then show ?thesis by (auto simp: request_row_of_def find_Some_iff)
  next
    case (new t ref sa sb)
    then have "t \<in> set (so_tasks s1)" using insert_artifact_frame [OF new(22)] insert_turn_frame [OF new(23)] by simp
    with new show ?thesis by blast
  qed
  with grows obtain u where u: "u \<in> set (so_tasks s2)" "tw_request u = request" "tw_sha u = h" "tw_task u = task"
    by (auto simp: store_grows_def tasks_grow_def same_task_def)
  with ok2 have row: "request_row_of s2 request = Some u"
    unfolding request_row_of_def by (auto simp: store_ok_def tasks_ok_def dest: find_unique [where f = tw_request])
  have same: "admit valid sha request h e n bytes s2 = Inr ((task, False), s2)"
  proof -
    from assms(2) obtain g where "admission_guards valid sha h e n bytes = Inr g"
      by (auto simp: admit_def py_bind_Inr_iff)
    with u row show ?thesis by (simp add: admit_def split: prod.split)
  qed
  moreover have "h' = h \<and> out = (task, False) \<and> s3 = s2"
    if "admit valid sha request h' e' n' bytes' s2 = Inr (out, s3)" for h' e' n' bytes' out s3
    using that u row by (auto simp: admit_def py_bind_Inr_iff)
  ultimately show ?thesis by blast
qed

theorem admission_is_idempotent_witness:
  "admit demo_valid demo_digest ''r1'' (demo_digest ''fix it'') demo_admitted 1 (Some ''fix it'')
     (demo_run demo_script) = Inr ((''t1'', False), demo_run demo_script)"
proof -
  have "returns (\<lambda>(out, s1). out = (''t1'', True))
     (admit demo_valid demo_digest ''r1'' (demo_digest ''fix it'') demo_admitted 1 (Some ''fix it'') empty_store)"
    by code_simp
  then obtain s1 where s1: "admit demo_valid demo_digest ''r1'' (demo_digest ''fix it'') demo_admitted 1
      (Some ''fix it'') empty_store = Inr ((''t1'', True), s1)"
    by (auto elim!: returnsE)
  have empty_run: "empty_store = run_ops (store_step demo_valid demo_digest) [] empty_store" by simp
  from s1 have "demo_run demo_script
      = run_ops (store_step demo_valid demo_digest) [Finalize demo_verdict demo_closed 2 (Some ''done'')] s1"
    by (simp add: demo_script_def after_op_def)
  from admission_is_idempotent [OF empty_run s1 this] show ?thesis by blast
qed

section \<open>Artifacts and turns\<close>

text \<open>The reference and the bytes that an operation commits with its event.\<close>

fun committed_ref :: "store_op \<Rightarrow> store \<Rightarrow> pyval" where
  "committed_ref (Append e n bytes) s = result_ref_of e"
| "committed_ref (Admit request h e n bytes) s =
     (if request_row_of s request = None then py_get (ev_payload e) ''request_ref'' else PNone)"
| "committed_ref (Finalize v c n bytes) s =
     (case py_item (PDict (ev_payload v)) ''completion'' of
        Inl _ \<Rightarrow> PNone | Inr completion \<Rightarrow> (case py_item completion ''result_ref'' of Inl _ \<Rightarrow> PNone | Inr r \<Rightarrow> r))"
| "committed_ref Reopen s = PNone"

fun committed_bytes :: "store_op \<Rightarrow> string option" where
  "committed_bytes (Append e n bytes) = bytes"
| "committed_bytes (Admit request h e n bytes) = bytes"
| "committed_bytes (Finalize v c n bytes) = bytes"
| "committed_bytes Reopen = None"

definition holds_bytes :: "(string \<Rightarrow> string) \<Rightarrow> pydict \<Rightarrow> string option \<Rightarrow> store \<Rightarrow> bool" where
  "holds_bytes sha ref bytes s \<longleftrightarrow>
     (\<exists>a \<in> set (so_artifacts s). \<exists>b. bytes = Some b \<and> stored_as sha ref b a)"

lemma insert_artifact_holds:
  "insert_artifact sha task ref bytes h s = Inr s' \<Longrightarrow> py_get ref ''availability'' = PStr ''retained'' \<Longrightarrow>
     holds_bytes sha ref bytes s'"
  by (erule insert_artifact_cases) (auto simp: holds_bytes_def)

lemma step_holds_bytes:
  assumes "store_step valid sha x s = Inr s'" and "committed_ref x s = PDict ref"
    and ret: "py_get ref ''availability'' = PStr ''retained''"
  shows "holds_bytes sha ref (committed_bytes x) s'"
proof (cases x)
  case (Append e n bytes)
  with assms have "append_event valid sha e n bytes s = Inr s'" and r: "result_ref_of e = PDict ref" by simp_all
  then obtain s1 s2 where s1: "insert_artifact sha (task_text e) ref bytes None s = Inr s1"
    and "insert_event e s1 = Inr s2" "so_artifacts s' = so_artifacts s2"
    by (auto simp: append_event_def py_bind_Inr_iff py_obj_Inr split: option.splits)
  then have "so_artifacts s' = so_artifacts s1" by (simp add: insert_event_Inr)
  with insert_artifact_holds [OF s1 ret] Append show ?thesis by (simp add: holds_bytes_def)
next
  case (Admit request h e n bytes)
  from assms(1) Admit obtain out where "admit valid sha request h e n bytes s = Inr (out, s')"
    by (auto simp: py_bind_Inr_iff)
  then obtain task fresh where "admit valid sha request h e n bytes s = Inr ((task, fresh), s')" by (cases out) auto
  then show ?thesis
  proof (cases rule: admit_cases)
    case (known t)
    with assms(2) Admit show ?thesis by simp
  next
    case (new t ref' s2 s3)
    with assms(2) Admit have "ref' = ref" by simp
    with new insert_artifact_holds [OF _ ret] have "holds_bytes sha ref bytes s2" by simp
    then have "holds_bytes sha ref bytes s'"
      using insert_turn_frame [OF new(23)] new(25) by (simp add: holds_bytes_def)
    with Admit show ?thesis by simp
  qed
next
  case (Finalize v c n bytes)
  with assms(1) have "finalize_task valid sha v c n bytes s = Inr s'" by simp
  then show ?thesis
  proof (cases rule: finalize_cases)
    case (1 task ref' status row s1)
    from check_bundle_Inr [OF 1(3)] assms(2) Finalize have "ref' = ref" by auto
    with 1 insert_artifact_holds [OF _ ret] have "holds_bytes sha ref bytes s1" by simp
    with 1(11) Finalize show ?thesis by (simp add: holds_bytes_def)
  qed
qed (use assms in simp)

lemma artifact_bytes_held:
  assumes ok: "store_ok valid sha s" and held: "holds_bytes sha ref (Some b) s"
  shows "artifact_bytes sha s ref = Inr b"
proof -
  from held obtain a where a: "a \<in> set (so_artifacts s)" and st: "stored_as sha ref b a"
    by (auto simp: holds_bytes_def)
  have f: "find (\<lambda>y. aw_id y = aw_id a) (so_artifacts s) = Some a"
    using ok a by (intro find_unique) (auto simp: store_ok_def artifacts_ok_def)
  from st have "py_item (PDict ref) ''sha256'' = Inr (PStr (sha b))"
    by (auto simp: stored_as_def py_get_def py_item_def split: option.splits)
  with st f show ?thesis by (auto simp: artifact_bytes_def stored_as_def py_item_def py_str_def)
qed

text \<open>C12: Retained bytes come back exactly.  When an operation succeeds and commits a retained
  reference (a new admission, a tool result, a final result), reading that reference back after
  any later script of transactions returns the very bytes that were committed.\<close>
theorem artifacts_read_back:
  assumes "s = run_ops (store_step valid sha) ops empty_store"
    and "store_step valid sha x s = Inr s1" and "committed_ref x s = PDict ref"
    and "py_get ref ''availability'' = PStr ''retained''"
    and "s2 = run_ops (store_step valid sha) more_ops s1"
  shows "\<exists>bytes. committed_bytes x = Some bytes \<and> artifact_bytes sha s2 ref = Inr bytes"
proof -
  have "store_ok valid sha s" unfolding assms(1) by (rule durable.run_inv [OF empty_store_ok])
  then have ok1: "store_ok valid sha s1" using assms(2) by (rule store_step_ok)
  have ok2: "store_ok valid sha s2" and grows: "store_grows s1 s2"
    unfolding assms(5) using ok1 by (rule durable.run_inv durable.run_below)+
  from step_holds_bytes [OF assms(2,3,4)] obtain b where b: "committed_bytes x = Some b"
    and "holds_bytes sha ref (Some b) s1" by (auto simp: holds_bytes_def)
  with grows have "holds_bytes sha ref (Some b) s2"
    using set_mono_prefix by (fastforce simp: holds_bytes_def store_grows_def)
  with artifact_bytes_held [OF ok2] b show ?thesis by blast
qed

theorem artifacts_read_back_witness:
  "artifact_bytes demo_digest (demo_run demo_script) (demo_ref ''a1'' ''fix it'') = Inr ''fix it''"
proof -
  let ?x = "Admit ''r1'' (demo_digest ''fix it'') demo_admitted 1 (Some ''fix it'')"
  have "returns (\<lambda>_. True) (store_step demo_valid demo_digest ?x empty_store)" by code_simp
  then obtain s1 where s1: "store_step demo_valid demo_digest ?x empty_store = Inr s1" by (auto elim: returnsE)
  then have run: "demo_run demo_script
      = run_ops (store_step demo_valid demo_digest) [Finalize demo_verdict demo_closed 2 (Some ''done'')] s1"
    by (simp add: demo_script_def after_op_def del: store_step.simps)
  have e: "empty_store = run_ops (store_step demo_valid demo_digest) [] empty_store" by simp
  have r: "committed_ref ?x empty_store = PDict (demo_ref ''a1'' ''fix it'')"
    "py_get (demo_ref ''a1'' ''fix it'') ''availability'' = PStr ''retained''" by code_simp+
  from artifacts_read_back [OF e s1 r run] show ?thesis by simp
qed

text \<open>A task stays findable from its conversation turn.  Once an admission with a turn
  reference has succeeded, the task is among the tasks of that turn after every later script,
  including reopening the database.\<close>
theorem turn_finds_its_task:
  assumes "s = run_ops (store_step valid sha) ops empty_store"
    and "admit valid sha request h e n bytes s = Inr ((task, True), s1)"
    and "origin_turn_ref (PDict (envelope_dict e)) = Inr ref" and "ref \<noteq> PNone"
    and "s2 = run_ops (store_step valid sha) more_ops s1"
  shows "returns (\<lambda>tasks. task \<in> set tasks) (task_ids_for_turn s2 ref)"
proof -
  have "store_ok valid sha s" unfolding assms(1) by (rule durable.run_inv [OF empty_store_ok])
  then have ok1: "store_ok valid sha s1" using assms(2) by (rule admit_ok)
  have grows: "store_grows s1 s2" unfolding assms(5) using ok1 by (rule durable.run_below)
  from assms(2) have "\<exists>c i g. turn_of_ref ref = Inr (c, i, g) \<and>
      \<lparr>nw_conversation = c, nw_index = i, nw_sha = g, nw_task = task\<rparr> \<in> set (so_turns s1)
      \<and> task \<in> tw_task ` set (so_tasks s1)"
  proof (cases rule: admit_cases)
    case (new t ref' sa sb)
    from new(23) assms(3,4) have "\<exists>c i g. turn_of_ref ref = Inr (c, i, g) \<and>
      \<lparr>nw_conversation = c, nw_index = i, nw_sha = g, nw_task = task\<rparr> \<in> set (so_turns sb)"
      by (auto simp: insert_turn_association_def py_bind_Inr_iff)
    moreover have "task \<in> tw_task ` set (so_tasks s1)"
      using new insert_artifact_frame [OF new(22)] insert_turn_frame [OF new(23)] by auto
    ultimately show ?thesis using new(25) by simp
  qed simp
  then obtain c i g where ref: "turn_of_ref ref = Inr (c, i, g)"
    and turn: "\<lparr>nw_conversation = c, nw_index = i, nw_sha = g, nw_task = task\<rparr> \<in> set (so_turns s1)"
    and task: "task \<in> tw_task ` set (so_tasks s1)" by blast
  let ?n = "\<lparr>nw_conversation = c, nw_index = i, nw_sha = g, nw_task = task\<rparr>"
  from grows turn have "?n \<in> set (so_turns s2)" by (auto simp: store_grows_def dest: set_mono_prefix)
  moreover from grows task obtain u where "u \<in> set (so_tasks s2)" "tw_task u = task"
    by (auto simp: store_grows_def tasks_grow_def same_task_def)
  ultimately have "(?n, u) \<in> set (joined_turns s2)"
    unfolding joined_turns_def by (simp, intro bexI [of _ ?n] image_eqI [of _ _ u]) simp_all
  then show ?thesis using ref by (force simp: task_ids_for_turn_def returns_def)
qed

theorem turn_finds_its_task_witness:
  "returns (\<lambda>tasks. ''t1'' \<in> set tasks)
     (task_ids_for_turn (run_ops (store_step demo_valid demo_digest) [Reopen] (demo_run demo_script)) (PDict demo_turn))"
proof -
  let ?a = "admit demo_valid demo_digest ''r1'' (demo_digest ''fix it'') demo_admitted 1 (Some ''fix it'') empty_store"
  have "returns (\<lambda>(out, s1). out = (''t1'', True)) ?a" by code_simp
  then obtain s1 where s1: "?a = Inr ((''t1'', True), s1)" by (auto elim!: returnsE)
  have e: "empty_store = run_ops (store_step demo_valid demo_digest) [] empty_store" by simp
  have o: "origin_turn_ref (PDict (envelope_dict demo_admitted)) = Inr (PDict demo_turn)" by code_simp
  have run: "run_ops (store_step demo_valid demo_digest) [Reopen] (demo_run demo_script)
      = run_ops (store_step demo_valid demo_digest) [Finalize demo_verdict demo_closed 2 (Some ''done''), Reopen] s1"
    using s1 by (simp add: demo_script_def after_op_def)
  show ?thesis by (rule turn_finds_its_task [OF e s1 o _ run]) simp
qed

section \<open>A boundary of the store\<close>

text \<open>
  The plain append path does not treat \<open>task.admitted\<close> specially: it accepts a second one for
  a task that was already admitted, so the admitted events of a task are not unique.
\<close>

definition demo_readmitted :: envelope where
  "demo_readmitted = demo_admitted\<lparr>ev_id := ''e9'', ev_sequence := 2\<rparr>"

lemma second_admitted_event_accepted:
  "returns (\<lambda>s. length (filter (\<lambda>r. er_task r = Some ''t1'' \<and> er_kind r = ''task.admitted'') (so_events s)) = 2)
     (append_event demo_valid demo_digest demo_readmitted 2 None
        (demo_run [Admit ''r1'' (demo_digest ''fix it'') demo_admitted 1 (Some ''fix it'')]))"
  by code_simp

end
