(* ===== verification/Patch_Text.thy ===== *)
theory Patch_Text
  imports Complex_Main Py_Value
begin

text \<open>
  The text side of \<open>tools/patch.py\<close>: replacing one block of a file, exactly or up to the
  whitespace of its lines, and telling which lines of a file two edits touch.  The string
  methods and the parts of \<open>difflib.SequenceMatcher\<close> the source calls are written out; the
  ratio of two indentations is a rational number.
\<close>

section \<open>String methods\<close>

fun split_first :: "string \<Rightarrow> string \<Rightarrow> (string \<times> string) option" where
  \<comment> \<open>the text before and after the first occurrence\<close>
  "split_first sub [] = (if sub = [] then Some ([], []) else None)"
| "split_first sub (c # cs) =
     (if take (length sub) (c # cs) = sub then Some ([], drop (length sub) (c # cs))
      else map_option (\<lambda>(a, b). (c # a, b)) (split_first sub cs))"

lemma split_first_Some:
  "split_first sub s = Some (a, b) \<Longrightarrow> s = a @ sub @ b"
proof (induction s arbitrary: a)
  case Nil
  then show ?case by (simp split: if_splits)
next
  case (Cons c cs)
  show ?case
  proof (cases "take (length sub) (c # cs) = sub")
    case True
    with Cons.prems have "a = []" "b = drop (length sub) (c # cs)" by auto
    with True show ?thesis by (metis append_Nil append_take_drop_id)
  next
    case False
    with Cons.prems obtain a' where "split_first sub cs = Some (a', b)" "a = c # a'" by auto
    with Cons.IH show ?thesis by simp
  qed
qed

function count_sub :: "string \<Rightarrow> string \<Rightarrow> nat" where
  \<comment> \<open>\<open>text.count(sub)\<close>: occurrences from left to right that do not overlap\<close>
  "count_sub sub s =
     (if sub = [] then Suc (length s)
      else case split_first sub s of None \<Rightarrow> 0 | Some (a, b) \<Rightarrow> Suc (count_sub sub b))"
  by pat_completeness auto
termination
  by (relation "measure (\<lambda>(sub, s). length s)") (auto dest: split_first_Some)

declare count_sub.simps [simp del]

definition replace_first :: "string \<Rightarrow> string \<Rightarrow> string \<Rightarrow> string" where
  \<comment> \<open>\<open>text.replace(find, replace, 1)\<close>\<close>
  "replace_first old new s =
     (case split_first old s of None \<Rightarrow> s | Some (a, b) \<Rightarrow> a @ new @ b)"

definition line_break :: "char \<Rightarrow> bool" where
  \<comment> \<open>the boundaries of \<open>str.splitlines\<close> below 256\<close>
  "line_break c \<longleftrightarrow> code c \<in> {10, 11, 12, 13, 28, 29, 30, 133}"

fun lines_keep :: "string \<Rightarrow> string list" where
  \<comment> \<open>\<open>splitlines(keepends=True)\<close>\<close>
  "lines_keep [] = []"
| "lines_keep [c] = [[c]]"
| "lines_keep (c # d # cs) =
     (if c = CHR 0x0D \<and> d = CHR 0x0A then [c, d] # lines_keep cs
      else if line_break c then [c] # lines_keep (d # cs)
      else case lines_keep (d # cs) of [] \<Rightarrow> [[c]] | l # ls \<Rightarrow> (c # l) # ls)"

definition chomp :: "string \<Rightarrow> string" where
  \<comment> \<open>a line without its terminator\<close>
  "chomp l =
     (if l = [] then []
      else if length l \<ge> 2 \<and> drop (length l - 2) l = [CHR 0x0D, CHR 0x0A] then take (length l - 2) l
      else if line_break (last l) then butlast l else l)"

definition split_lines :: "string \<Rightarrow> string list" where
  \<comment> \<open>\<open>splitlines()\<close>\<close>
  "split_lines s = map chomp (lines_keep s)"

fun split_nl :: "string \<Rightarrow> string list" where
  \<comment> \<open>\<open>split("\n")\<close>\<close>
  "split_nl [] = [[]]"
| "split_nl (c # cs) =
     (if c = CHR 0x0A then [] # split_nl cs
      else case split_nl cs of [] \<Rightarrow> [[c]] | l # ls \<Rightarrow> (c # l) # ls)"

definition nonblank :: "string \<Rightarrow> bool" where
  "nonblank l \<longleftrightarrow> py_strip l \<noteq> []"

definition indent_char :: "char \<Rightarrow> bool" where
  "indent_char c \<longleftrightarrow> c = CHR 0x20 \<or> c = CHR 0x09"

definition indent_of :: "string \<Rightarrow> string" where
  "indent_of l = takeWhile indent_char l"

definition rstrip_crlf :: "string \<Rightarrow> string" where
  "rstrip_crlf l = rev (dropWhile (\<lambda>c. c = CHR 0x0D \<or> c = CHR 0x0A) (rev l))"

section \<open>Line numbers of \<open>read_file\<close>\<close>

definition number_prefix :: "string \<Rightarrow> string option" where
  \<comment> \<open>the line without its \<open>^\d+: ?\<close> prefix, when it has one\<close>
  "number_prefix l =
     (let ds = takeWhile (\<lambda>c. 48 \<le> code c \<and> code c \<le> 57) l; r = drop (length ds) l
      in if ds = [] \<or> r = [] \<or> hd r \<noteq> CHR '':'' then None
         else Some (if tl r \<noteq> [] \<and> hd (tl r) = CHR 0x20 then tl (tl r) else tl r))"

definition without_read_file_numbers :: "string \<Rightarrow> string option" where
  "without_read_file_numbers s =
     (let ls = split_nl s in
      if filter nonblank ls = [] \<or> (\<exists>l \<in> set (filter nonblank ls). number_prefix l = None) then None
      else Some (join [CHR 0x0A] (map (\<lambda>l. if nonblank l then the (number_prefix l) else l) ls)))"

section \<open>Replacing a block up to whitespace\<close>

definition round_even :: "rat \<Rightarrow> int" where
  \<comment> \<open>\<open>round(x)\<close>: to the nearest integer, ties to the even one\<close>
  "round_even x =
     (let f = floor x; d = x - of_int f
      in if d < 1 / 2 then f else if d > 1 / 2 then f + 1 else if even f then f else f + 1)"

definition trim_blank :: "string list \<Rightarrow> string list" where
  "trim_blank ls = rev (dropWhile (\<lambda>l. \<not> nonblank l) (rev (dropWhile (\<lambda>l. \<not> nonblank l) ls)))"

definition block_starts :: "string list \<Rightarrow> string list \<Rightarrow> nat list" where
  "block_starts key lines =
     (if length key > length lines then []
      else filter (\<lambda>i. map py_strip (take (length key) (drop i lines)) = key)
             [0..<Suc (length lines - length key)])"

definition extra_depth :: "string \<Rightarrow> string \<Rightarrow> int" where
  "extra_depth l base = int (length (indent_of l)) - int (length base)"

definition seen_ratios :: "string list \<Rightarrow> string list \<Rightarrow> string \<Rightarrow> string \<Rightarrow> rat list" where
  "seen_ratios wanted block model_indent file_indent =
     remdups (map (\<lambda>(w, l). of_int (extra_depth l file_indent) / of_int (extra_depth w model_indent))
       (filter (\<lambda>(w, l). nonblank w \<and> length (indent_of w) > length model_indent) (zip wanted block)))"

definition tab_unit_of :: "string list \<Rightarrow> string list \<Rightarrow> string \<Rightarrow> nat option" where
  "tab_unit_of wanted block model_indent =
     (let is = map indent_of block;
          uses_tabs = (\<forall>i \<in> set is. set i \<subseteq> {CHR 0x09}) \<and> (\<exists>i \<in> set is. CHR 0x09 \<in> set i);
          depths = map (\<lambda>w. length (indent_of w) - length model_indent)
            (filter (\<lambda>w. nonblank w \<and> set (indent_of w) \<subseteq> {CHR 0x20}
                       \<and> length (indent_of w) > length model_indent) wanted)
      in if uses_tabs \<and> depths \<noteq> [] then Some (Min (set depths)) else None)"

definition reindent :: "string \<Rightarrow> string \<Rightarrow> nat option \<Rightarrow> bool \<Rightarrow> rat \<Rightarrow> string \<Rightarrow> string" where
  "reindent model_indent file_indent tab_unit spaces_only ratio l =
     (if take (length model_indent) l \<noteq> model_indent then l
      else
        let extra = drop (length model_indent) (indent_of l);
            body = dropWhile indent_char l;
            plain = set extra \<subseteq> {CHR 0x20}
        in case (if nonblank l \<and> plain then tab_unit else None) of
             Some u \<Rightarrow>
               file_indent @ replicate (nat (round_even (of_nat (length extra) / of_nat u))) (CHR 0x09) @ body
           | None \<Rightarrow>
               if \<not> nonblank l then l
               else if spaces_only \<and> plain then
                 file_indent @ replicate (nat (round_even (of_nat (length extra) * ratio))) (CHR 0x20)
                   @ dropWhile (\<lambda>c. c = CHR 0x20) l
               else file_indent @ drop (length model_indent) l)"

definition reindent_lines :: "string list \<Rightarrow> string list \<Rightarrow> string list \<Rightarrow> string list" where
  \<comment> \<open>the replacement lines on the indentation of the matched block\<close>
  "reindent_lines wanted block new =
     (let model_indent = indent_of (hd wanted); file_indent = indent_of (hd block);
          spaces_only = CHR 0x09 \<notin> set (model_indent @ file_indent @ concat (map indent_of (wanted @ block)));
          seen = (if spaces_only then seen_ratios wanted block model_indent file_indent else []);
          ratio = (case seen of [r] \<Rightarrow> if r > 0 then r else 1 | _ \<Rightarrow> 1)
      in map (reindent model_indent file_indent (tab_unit_of wanted block model_indent) spaces_only ratio) new)"

definition with_endings :: "string list \<Rightarrow> string list \<Rightarrow> string" where
  \<comment> \<open>the new block with the line endings of the old one\<close>
  "with_endings body block =
     (let endings = map (\<lambda>l. drop (length (rstrip_crlf l)) l) block
      in if length body = length endings then concat (map (\<lambda>(l, e). l @ e) (zip body endings))
         else
           let sep = (case filter (\<lambda>e. e \<noteq> []) endings of [] \<Rightarrow> [CHR 0x0A] | e # es \<Rightarrow> e)
           in join sep body @ (if body \<noteq> [] then last endings else []))"

definition tolerant_replace :: "string \<Rightarrow> string \<Rightarrow> string \<Rightarrow> string option \<times> nat" where
  "tolerant_replace original old new =
     (let wanted = trim_blank (split_lines old) in
      if wanted = [] then (None, 0)
      else
        let key = map py_strip wanted; lines = lines_keep original; starts = block_starts key lines
        in case starts of
             [start] \<Rightarrow>
               (let block = take (length key) (drop start lines)
                in (Some (concat (take start lines)
                      @ with_endings (reindent_lines wanted block (split_lines new)) block
                      @ concat (drop (start + length key) lines)), 1))
           | _ \<Rightarrow> (None, length starts))"

section \<open>One find and replace\<close>

datatype match_kind = EXACT | TOLERANT | NUMBERED | NUMBERED_TOLERANT

fun match_kind_value :: "match_kind \<Rightarrow> string" where
  "match_kind_value EXACT = ''exact''"
| "match_kind_value TOLERANT = ''whitespace_tolerant''"
| "match_kind_value NUMBERED = ''line_numbers_stripped''"
| "match_kind_value NUMBERED_TOLERANT = ''line_numbers_stripped_whitespace_tolerant''"

definition meant :: "string \<Rightarrow> string \<Rightarrow> string \<Rightarrow> bool \<times> string \<times> string" where
  \<comment> \<open>what the model meant by an echoed \<open>read_file\<close> display\<close>
  "meant s old new =
     (case (if count_sub old s = 0 \<and> without_read_file_numbers s = None
            then without_read_file_numbers old else None) of
        None \<Rightarrow> (False, old, new)
      | Some f \<Rightarrow>
          (True, f, (case without_read_file_numbers new of
                       None \<Rightarrow> new | Some r \<Rightarrow> if r = [] then new else r)))"

definition replace_once :: "string \<Rightarrow> string \<Rightarrow> string \<Rightarrow> (string \<times> match_kind) py" where
  "replace_once s old new =
     (let (numbered, f, r) = meant s old new; n = count_sub f s in
      py_check (n > 1) ToolError (
      py_bind (if n = 1 then Inr (replace_first f r s, True)
               else case tolerant_replace s f r of
                      (tolerant, blocks) \<Rightarrow>
                        py_check (blocks > 1) ToolError (
                        case tolerant of None \<Rightarrow> Inl ToolError | Some u \<Rightarrow> Inr (u, False)))
        (\<lambda>(updated, exact).
           py_check (updated = s) ToolError (
             Inr (updated, if numbered then (if exact then NUMBERED else NUMBERED_TOLERANT)
                           else (if exact then EXACT else TOLERANT))))))"

section \<open>Which lines an edit touches (\<open>difflib\<close>)\<close>

fun common_len :: "string list \<Rightarrow> string list \<Rightarrow> nat" where
  "common_len (x # xs) (y # ys) = (if x = y then Suc (common_len xs ys) else 0)"
| "common_len _ _ = 0"

definition run_at :: "string list \<Rightarrow> string list \<Rightarrow> nat \<Rightarrow> nat \<Rightarrow> nat \<times> nat \<Rightarrow> nat" where
  "run_at a b ahi bhi ij = (case ij of (i, j) \<Rightarrow> common_len (take (ahi - i) (drop i a)) (take (bhi - j) (drop j b)))"

definition longest_match ::
  "string list \<Rightarrow> string list \<Rightarrow> nat \<Rightarrow> nat \<Rightarrow> nat \<Rightarrow> nat \<Rightarrow> nat \<times> nat \<times> nat" where
  \<comment> \<open>\<open>find_longest_match\<close>: the longest common block, the first one in \<open>a\<close>, then in \<open>b\<close>\<close>
  "longest_match a b alo ahi blo bhi =
     foldl (\<lambda>(i, j, k) ij. let n = run_at a b ahi bhi ij in if n > k then (fst ij, snd ij, n) else (i, j, k))
       (alo, blo, 0) (List.product [alo..<ahi] [blo..<bhi])"

lemma foldl_preserves:
  "P s \<Longrightarrow> (\<And>t x. x \<in> set xs \<Longrightarrow> P t \<Longrightarrow> P (f t x)) \<Longrightarrow> P (foldl f s xs)"
  by (induction xs arbitrary: s) auto

lemma common_len_le: "common_len xs ys \<le> length xs" "common_len xs ys \<le> length ys"
  by (induction xs ys rule: common_len.induct) auto

lemma common_len_take: "take (common_len xs ys) xs = take (common_len xs ys) ys"
  by (induction xs ys rule: common_len.induct) auto

lemma longest_match_inv:
  assumes "longest_match a b alo ahi blo bhi = (i, j, k)"
  shows "k = 0 \<or> alo \<le> i \<and> i + k \<le> ahi \<and> blo \<le> j \<and> j + k \<le> bhi
    \<and> take k (drop i a) = take k (drop j b)"
proof -
  let ?P = "\<lambda>(i, j, k). k = 0 \<or> alo \<le> i \<and> i + k \<le> ahi \<and> blo \<le> j \<and> j + k \<le> bhi
    \<and> take k (drop i a) = take k (drop j b)"
  let ?f = "\<lambda>(i, j, k) ij. let n = run_at a b ahi bhi ij in if n > k then (fst ij, snd ij, n) else (i, j, k)"
  have run: "?P (fst ij, snd ij, run_at a b ahi bhi ij)" if "ij \<in> set (List.product [alo..<ahi] [blo..<bhi])" for ij
  proof -
    obtain x y where ij: "ij = (x, y)" by (cases ij)
    with that have b: "alo \<le> x" "x < ahi" "blo \<le> y" "y < bhi" by auto
    let ?xs = "take (ahi - x) (drop x a)" let ?ys = "take (bhi - y) (drop y b)"
    from common_len_le [of ?xs ?ys] have le: "common_len ?xs ?ys \<le> ahi - x" "common_len ?xs ?ys \<le> bhi - y" by auto
    with common_len_take [of ?xs ?ys]
    have "take (common_len ?xs ?ys) (drop x a) = take (common_len ?xs ?ys) (drop y b)"
      by (simp add: min_def)
    moreover from le b have "x + common_len ?xs ?ys \<le> ahi" "y + common_len ?xs ?ys \<le> bhi" by linarith+
    ultimately show ?thesis using b(1,3) ij by (simp add: run_at_def)
  qed
  have step: "?P (?f t ij)" if "ij \<in> set (List.product [alo..<ahi] [blo..<bhi])" "?P t" for t ij
    using run [OF that(1)] that(2) by (cases t) (auto simp: Let_def)
  have "?P (foldl ?f (alo, blo, 0) (List.product [alo..<ahi] [blo..<bhi]))"
    by (rule foldl_preserves [where P = ?P]) (simp, rule step)
  with assms show ?thesis by (simp add: longest_match_def)
qed

function matching_blocks ::
  "string list \<Rightarrow> string list \<Rightarrow> nat \<Rightarrow> nat \<Rightarrow> nat \<Rightarrow> nat \<Rightarrow> (nat \<times> nat \<times> nat) list" where
  "matching_blocks a b alo ahi blo bhi =
     (case longest_match a b alo ahi blo bhi of
        (i, j, k) \<Rightarrow>
          if k = 0 then []
          else matching_blocks a b alo i blo j @ (i, j, k) # matching_blocks a b (i + k) ahi (j + k) bhi)"
  by pat_completeness auto
termination
  by (relation "measure (\<lambda>(a, b, alo, ahi, blo, bhi). ahi - alo)")
    (auto dest!: longest_match_inv [OF sym])

declare matching_blocks.simps [simp del]

fun changed_between :: "nat \<Rightarrow> nat \<Rightarrow> (nat \<times> nat \<times> nat) list \<Rightarrow> (nat \<times> nat) list" where
  \<comment> \<open>the ranges of \<open>get_opcodes\<close> that are not \<open>equal\<close>\<close>
  "changed_between i j [] = []"
| "changed_between i j ((ai, bj, k) # bs) =
     (if i < ai \<or> j < bj then (i, ai) # changed_between (ai + k) (bj + k) bs
      else changed_between (ai + k) (bj + k) bs)"

definition changed_lines :: "string \<Rightarrow> string \<Rightarrow> (nat \<times> nat) list" where
  "changed_lines before after =
     (let a = lines_keep before; b = lines_keep after
      in changed_between 0 0 (matching_blocks a b 0 (length a) 0 (length b) @ [(length a, length b, 0)]))"

definition ranges_overlap :: "nat \<times> nat \<Rightarrow> nat \<times> nat \<Rightarrow> bool" where
  "ranges_overlap a b =
     (case (a, b) of ((a1, a2), (b1, b2)) \<Rightarrow>
        if a1 = a2 \<and> b1 = b2 then a1 = b1
        else if a1 = a2 then b1 < a1 \<and> a1 < b2
        else if b1 = b2 then a1 < b1 \<and> b1 < a2
        else max a1 b1 < min a2 b2)"

definition changes_overlap :: "string \<Rightarrow> string \<Rightarrow> string \<Rightarrow> bool" where
  "changes_overlap original fst_edit snd_edit \<longleftrightarrow>
     (\<exists>a \<in> set (changed_lines original fst_edit). \<exists>b \<in> set (changed_lines original snd_edit). ranges_overlap a b)"

section \<open>An edit touches one block\<close>

lemma lines_keep_Nil_iff [simp]: "lines_keep s = [] \<longleftrightarrow> s = []"
  by (induction s rule: lines_keep.induct) (auto split: list.splits)

lemma concat_lines_keep [simp]: "concat (lines_keep s) = s"
proof (induction s rule: lines_keep.induct)
  case (3 c d cs)
  then show ?case
    by (cases "lines_keep (d # cs)"; cases "c = CHR 0x0D \<and> d = CHR 0x0A") auto
qed simp_all

lemma replace_first_unique:
  assumes "count_sub old s = 1"
  shows "\<exists>pre post. s = pre @ old @ post \<and> replace_first old new s = pre @ new @ post"
proof -
  have "split_first old s \<noteq> None"
  proof (cases "old = []")
    case True
    then show ?thesis by (cases s) auto
  next
    case False
    with assms show ?thesis by (subst (asm) count_sub.simps) (auto split: option.splits)
  qed
  then obtain a b where "split_first old s = Some (a, b)" by auto
  with split_first_Some [OF this] show ?thesis by (auto simp: replace_first_def)
qed

lemma tolerant_replace_Some:
  assumes "tolerant_replace s old new = (Some u, n)"
  shows "\<exists>pre block post mid. lines_keep s = pre @ block @ post \<and> u = concat pre @ mid @ concat post
    \<and> map py_strip block = map py_strip (trim_blank (split_lines old))
    \<and> block_starts (map py_strip (trim_blank (split_lines old))) (lines_keep s) = [length pre]"
proof -
  let ?wanted = "trim_blank (split_lines old)" let ?key = "map py_strip ?wanted" let ?ls = "lines_keep s"
  from assms obtain start where start: "block_starts ?key ?ls = [start]"
    by (auto simp: tolerant_replace_def Let_def split: if_splits list.splits)
  let ?block = "take (length ?key) (drop start ?ls)"
  from start have "start \<in> set (block_starts ?key ?ls)" by simp
  then have b: "map py_strip ?block = ?key" "start + length ?key \<le> length ?ls"
    by (auto simp: block_starts_def split: if_splits)
  have "?ls = take start ?ls @ ?block @ drop (start + length ?key) ?ls"
    by (metis append_take_drop_id drop_drop add.commute)
  moreover have "length (take start ?ls) = start" using b(2) by simp
  moreover have "u = concat (take start ?ls)
      @ with_endings (reindent_lines ?wanted ?block (split_lines new)) ?block
      @ concat (drop (start + length ?key) ?ls)"
    using assms start by (auto simp: tolerant_replace_def Let_def split: if_splits)
  ultimately show ?thesis using b(1) start by metis
qed

text \<open>What a successful replacement did to the text: one block was exchanged, the rest stands.\<close>

definition one_block :: "string \<Rightarrow> string \<Rightarrow> string \<Rightarrow> match_kind \<Rightarrow> string \<Rightarrow> bool" where
  "one_block s old new k u \<longleftrightarrow>
     (case meant s old new of (numbered, f, r) \<Rightarrow>
        numbered = (k \<in> {NUMBERED, NUMBERED_TOLERANT}) \<and>
        (if k \<in> {EXACT, NUMBERED}
         then count_sub f s = 1 \<and> (\<exists>pre post. s = pre @ f @ post \<and> u = pre @ r @ post)
         else count_sub f s = 0 \<and> (\<exists>pre block post mid. lines_keep s = pre @ block @ post
                \<and> u = concat pre @ mid @ concat post
                \<and> map py_strip block = map py_strip (trim_blank (split_lines f))
                \<and> block_starts (map py_strip (trim_blank (split_lines f))) (lines_keep s) = [length pre])))"

text \<open>A replacement touches one block.  Whenever a find and replace succeeds the text has
  changed and exactly one block of it was exchanged: the only occurrence of the text to find,
  or, after an exact match failed, the only run of whole lines that equals it up to the
  whitespace at the ends of lines; everything before and after the block is kept
  byte for byte.\<close>
theorem replacement_touches_one_block:
  assumes "replace_once s old new = Inr (u, k)"
  shows "u \<noteq> s \<and> one_block s old new k u"
proof -
  obtain numbered f r where m: "meant s old new = (numbered, f, r)" by (cases "meant s old new")
  show ?thesis
  proof (cases "count_sub f s = 1")
    case True
    with assms m have "u = replace_first f r s" "u \<noteq> s" "k = (if numbered then NUMBERED else EXACT)"
      by (auto simp: replace_once_def Let_def)
    with replace_first_unique [OF True, of r] m True show ?thesis by (auto simp: one_block_def)
  next
    case False
    with assms m have z: "count_sub f s = 0" by (auto simp: replace_once_def Let_def)
    obtain t n where t: "tolerant_replace s f r = (t, n)" by (cases "tolerant_replace s f r")
    with assms m False have "t = Some u" "u \<noteq> s" "k = (if numbered then NUMBERED_TOLERANT else TOLERANT)"
      by (auto simp: replace_once_def Let_def py_bind_Inr_iff split: option.splits)
    with tolerant_replace_Some [of s f r u n] t m z show ?thesis by (auto simp: one_block_def)
  qed
qed

definition demo_source :: string where
  "demo_source = ''f();'' @ [CHR 0x0A] @ ''    b = 1;'' @ [CHR 0x0A] @ ''      c;''"

theorem replacement_touches_one_block_witness:
  "\<exists>u. replace_once demo_source (''b = 1;'' @ [CHR 0x0A] @ ''    c;'') (''b = 2;'' @ [CHR 0x0A] @ ''    d;'')
      = Inr (u, TOLERANT)
    \<and> u = ''f();'' @ [CHR 0x0A] @ ''    b = 2;'' @ [CHR 0x0A] @ ''      d;'' \<and> u \<noteq> demo_source"
proof -
  let ?u = "''f();'' @ [CHR 0x0A] @ ''    b = 2;'' @ [CHR 0x0A] @ ''      d;''"
  have "replace_once demo_source (''b = 1;'' @ [CHR 0x0A] @ ''    c;'') (''b = 2;'' @ [CHR 0x0A] @ ''    d;'')
      = Inr (?u, TOLERANT)" by code_simp
  with replacement_touches_one_block [OF this] show ?thesis by blast
qed

end
