(* ===== verification/Repo_Files.thy ===== *)
theory Repo_Files
  imports Py_Value
begin

text \<open>
  The files the agent works on and the two guards in front of every write
  (\<open>resolve_in_repo\<close>, \<open>assert_writable\<close> and \<open>relpath\<close> of \<open>tools/tool_primitives.py\<close>).  A path
  is the list of its components below \<open>/\<close> (POSIX); a file is UTF-8 text or other bytes;
  symbolic links are followed the way \<open>Path.resolve\<close> follows them.  Permissions and full
  disks are not modelled.
\<close>

section \<open>Files, links and resolution\<close>

type_synonym path = "string list"

datatype file_node =
    Missing
  | Text_File string  \<comment> \<open>bytes that decode as UTF-8, by their text\<close>
  | Raw_File nat      \<comment> \<open>bytes that do not, by a name for them\<close>
  | Folder
  | Link path         \<comment> \<open>target from \<open>/\<close>; a relative one is read from the link's folder\<close>

type_synonym files = "path \<Rightarrow> file_node"

partial_function (option) real_walk :: "files \<Rightarrow> path \<Rightarrow> path \<Rightarrow> path option" where
  \<comment> \<open>\<open>os.path.realpath\<close>: the part already resolved and the components to go; a loop of links
    has no value\<close>
  "real_walk fs d rest =
     (case rest of
        [] \<Rightarrow> Some d
      | c # cs \<Rightarrow>
          if c = ''..'' then real_walk fs (butlast d) cs
          else (case fs (d @ [c]) of
                  Link t \<Rightarrow> real_walk fs [] (t @ cs)
                | _ \<Rightarrow> real_walk fs (d @ [c]) cs))"

definition resolve :: "files \<Rightarrow> path \<Rightarrow> path py" where
  \<comment> \<open>\<open>Path.resolve()\<close>: a loop of links raises\<close>
  "resolve fs p =
     (case real_walk fs [] p of None \<Rightarrow> Inl RuntimeError | Some q \<Rightarrow> Inr q)"

definition is_link :: "file_node \<Rightarrow> bool" where
  "is_link n = (case n of Link _ \<Rightarrow> True | _ \<Rightarrow> False)"

lemma is_link_simps [simp]:
  "\<not> is_link Missing" "\<not> is_link (Text_File s)" "\<not> is_link (Raw_File b)" "\<not> is_link Folder"
  "is_link (Link t)"
  by (simp_all add: is_link_def)

definition node_at :: "files \<Rightarrow> path \<Rightarrow> file_node" where
  \<comment> \<open>what opening the path finds\<close>
  "node_at fs p =
     (case real_walk fs [] p of None \<Rightarrow> Missing | Some q \<Rightarrow> if q = [] then Folder else fs q)"

definition entry_of :: "files \<Rightarrow> path \<Rightarrow> path option" where
  \<comment> \<open>the folder entry itself: the last component is not followed\<close>
  "entry_of fs p = map_option (\<lambda>d. d @ [last p]) (real_walk fs [] (butlast p))"

definition path_exists :: "files \<Rightarrow> path \<Rightarrow> bool" where
  "path_exists fs p \<longleftrightarrow> node_at fs p \<noteq> Missing"

definition is_symlink :: "files \<Rightarrow> path \<Rightarrow> bool" where
  "is_symlink fs p \<longleftrightarrow> (case entry_of fs p of None \<Rightarrow> False | Some q \<Rightarrow> is_link (fs q))"

definition is_file :: "files \<Rightarrow> path \<Rightarrow> bool" where
  "is_file fs p \<longleftrightarrow> (case node_at fs p of Text_File _ \<Rightarrow> True | Raw_File _ \<Rightarrow> True | _ \<Rightarrow> False)"

definition read_bytes :: "files \<Rightarrow> path \<Rightarrow> file_node py" where
  "read_bytes fs p = (if is_file fs p then Inr (node_at fs p) else Inl OSError)"

definition read_text :: "files \<Rightarrow> path \<Rightarrow> string py" where
  \<comment> \<open>\<open>read_bytes().decode("utf-8")\<close>\<close>
  "read_text fs p =
     py_bind (read_bytes fs p)
       (\<lambda>n. case n of Text_File s \<Rightarrow> Inr s | _ \<Rightarrow> Inl UnicodeDecodeError)"

definition is_dir :: "files \<Rightarrow> path \<Rightarrow> bool" where
  "is_dir fs p \<longleftrightarrow> node_at fs p = Folder"

definition write_text :: "files \<Rightarrow> path \<Rightarrow> string \<Rightarrow> files py" where
  \<comment> \<open>\<open>write_bytes\<close>: opens through links, creates the file, not its folder\<close>
  "write_text fs p s =
     (case real_walk fs [] p of
        None \<Rightarrow> Inl OSError
      | Some q \<Rightarrow>
          py_check (node_at fs p = Folder) OSError (
          py_check (node_at fs p = Missing \<and> \<not> (butlast q = [] \<or> fs (butlast q) = Folder)) OSError (
            Inr (fs(q := Text_File s)))))"

definition unlink :: "files \<Rightarrow> path \<Rightarrow> files py" where
  "unlink fs p =
     (case entry_of fs p of
        None \<Rightarrow> Inl OSError
      | Some q \<Rightarrow> py_check (fs q = Missing \<or> fs q = Folder) OSError (Inr (fs(q := Missing))))"

fun make_folders :: "files \<Rightarrow> path \<Rightarrow> path \<Rightarrow> files py" where
  \<comment> \<open>\<open>mkdir(parents=True, exist_ok=True)\<close>, from the top\<close>
  "make_folders fs d [] = Inr fs"
| "make_folders fs d (c # cs) =
     (case fs (d @ [c]) of
        Missing \<Rightarrow> make_folders (fs(d @ [c] := Folder)) (d @ [c]) cs
      | Folder \<Rightarrow> make_folders fs (d @ [c]) cs
      | Link t \<Rightarrow>
          (case real_walk fs [] (d @ [c]) of
             None \<Rightarrow> Inl OSError
           | Some q \<Rightarrow> if q = [] \<or> fs q = Folder then make_folders fs q cs else Inl OSError)
      | _ \<Rightarrow> Inl OSError)"

section \<open>Guards of a path\<close>

definition inside :: "path \<Rightarrow> path \<Rightarrow> bool" where
  \<comment> \<open>\<open>p == d or d in p.parents\<close>\<close>
  "inside d p \<longleftrightarrow> take (length d) p = d"

definition slashed :: "string \<Rightarrow> string" where
  "slashed s = map (\<lambda>c. if c = CHR 0x5C then CHR ''/'' else c) s"

definition windows_drive :: "string \<Rightarrow> bool" where
  \<comment> \<open>\<open>PureWindowsPath(s).drive\<close> is not empty: a drive letter or a share\<close>
  "windows_drive s \<longleftrightarrow> (length s \<ge> 2 \<and> s ! 1 = CHR '':'') \<or> take 2 (slashed s) = ''//''"

fun split_slash :: "string \<Rightarrow> string list" where
  "split_slash [] = [[]]"
| "split_slash (c # cs) =
     (if c = CHR ''/'' then [] # split_slash cs
      else case split_slash cs of [] \<Rightarrow> [[c]] | l # ls \<Rightarrow> (c # l) # ls)"

definition path_parts :: "string \<Rightarrow> path" where
  "path_parts s = filter (\<lambda>c. c \<noteq> [] \<and> c \<noteq> ''.'') (split_slash s)"

definition is_absolute :: "string \<Rightarrow> bool" where
  "is_absolute s \<longleftrightarrow> take 1 s = ''/''"

definition join_path :: "path \<Rightarrow> string \<Rightarrow> path" where
  \<comment> \<open>\<open>base / s\<close>\<close>
  "join_path base s = (if is_absolute s then path_parts s else base @ path_parts s)"

definition resolve_in_repo :: "files \<Rightarrow> path \<Rightarrow> string \<Rightarrow> path py" where
  "resolve_in_repo fs proj supplied =
     py_bind (resolve fs proj) (\<lambda>root_resolved.
       py_check (windows_drive supplied) SandboxError (
       py_check (CHR 0x00 \<in> set supplied) ValueError (
       py_bind (resolve fs (join_path root_resolved (slashed supplied))) (\<lambda>resolved.
         py_check (\<not> inside root_resolved resolved) SandboxError (Inr resolved)))))"

definition path_str :: "path \<Rightarrow> string" where
  "path_str p = CHR ''/'' # join ''/'' p"

definition relpath :: "files \<Rightarrow> path \<Rightarrow> path \<Rightarrow> string" where
  \<comment> \<open>both paths resolve where the source calls it\<close>
  "relpath fs proj p =
     (case (real_walk fs [] p, real_walk fs [] proj) of
        (Some q, Some r) \<Rightarrow>
          if inside r q then (if q = r then ''.'' else join ''/'' (drop (length r) q)) else path_str p
      | _ \<Rightarrow> path_str p)"

fun guards_hold :: "files \<Rightarrow> path \<Rightarrow> path \<Rightarrow> string list \<Rightarrow> unit py" where
  "guards_hold fs root_resolved resolved [] = Inr ()"
| "guards_hold fs root_resolved resolved (name # names) =
     (if name = [] then guards_hold fs root_resolved resolved names
      else py_bind (resolve fs (join_path root_resolved name)) (\<lambda>guard.
             py_check (inside guard resolved) ProtectedPathError
               (guards_hold fs root_resolved resolved names)))"

definition last_name :: "path \<Rightarrow> string" where
  "last_name p = (if p = [] then [] else last p)"

definition assert_writable :: "files \<Rightarrow> path \<Rightarrow> path \<Rightarrow> string list \<Rightarrow> path py" where
  "assert_writable fs proj target protected_names =
     py_bind (resolve fs target) (\<lambda>resolved.
     py_bind (resolve fs proj) (\<lambda>root_resolved.
       py_check (last_name resolved = ''.gitattributes'' \<or> last_name target = ''.gitattributes'')
         ProtectedPathError (
       py_bind (guards_hold fs root_resolved resolved protected_names) (\<lambda>_. Inr resolved))))"

section \<open>Resolution\<close>

lemma real_walk_simps [simp, code]:
  "real_walk fs d [] = Some d"
  "real_walk fs d (c # cs) =
     (if c = ''..'' then real_walk fs (butlast d) cs
      else (case fs (d @ [c]) of
              Link t \<Rightarrow> real_walk fs [] (t @ cs)
            | _ \<Rightarrow> real_walk fs (d @ [c]) cs))"
  by (subst real_walk.simps; simp)+

text \<open>A path is plain when no prefix of it is a link and it climbs nowhere: resolving it
  changes nothing.\<close>

definition plain :: "files \<Rightarrow> path \<Rightarrow> bool" where
  "plain fs p \<longleftrightarrow> ''..'' \<notin> set p \<and> (\<forall>n \<le> length p. n \<noteq> 0 \<longrightarrow> \<not> is_link (fs (take n p)))"

lemma plain_Nil [simp]: "plain fs []"
  by (simp add: plain_def)

lemma plain_snoc: "plain fs (p @ [c]) \<longleftrightarrow> plain fs p \<and> c \<noteq> ''..'' \<and> \<not> is_link (fs (p @ [c]))"
proof -
  have "(\<forall>n \<le> length (p @ [c]). n \<noteq> 0 \<longrightarrow> \<not> is_link (fs (take n (p @ [c]))))
      \<longleftrightarrow> (\<forall>n \<le> length p. n \<noteq> 0 \<longrightarrow> \<not> is_link (fs (take n p))) \<and> \<not> is_link (fs (p @ [c]))"
    by (auto simp: le_Suc_eq)
  then show ?thesis by (auto simp: plain_def)
qed

lemma plain_butlast: "plain fs p \<Longrightarrow> plain fs (butlast p)"
  by (cases p rule: rev_cases) (auto simp: plain_snoc)

lemma real_walk_plain_append: "plain fs (d @ p) \<Longrightarrow> real_walk fs d p = Some (d @ p)"
proof (induction p arbitrary: d)
  case (Cons c cs)
  then have pl: "plain fs ((d @ [c]) @ cs)" by simp
  then have "\<not> is_link (fs (take (Suc (length d)) ((d @ [c]) @ cs)))" "c \<noteq> ''..''"
    unfolding plain_def by (auto simp del: take_append)
  then have "\<not> is_link (fs (d @ [c]))" by simp
  with Cons.IH [OF pl] \<open>c \<noteq> ''..''\<close> show ?case
    by (auto simp: is_link_def split: file_node.splits)
qed simp

lemma real_walk_plain [simp]: "plain fs p \<Longrightarrow> real_walk fs [] p = Some p"
  using real_walk_plain_append [of fs "[]" p] by simp

lemma real_walk_is_plain:
  assumes "real_walk fs d p = Some q" "plain fs d"
  shows "plain fs q"
proof -
  have "plain fs d \<longrightarrow> plain fs q"
  proof (rule real_walk.raw_induct [where P = "\<lambda>fs d p q. plain fs d \<longrightarrow> plain fs q", OF _ assms(1)])
    fix walk fs d rest q
    assume IH: "\<And>fs d rest q. walk fs d rest = Some q \<Longrightarrow> plain fs d \<longrightarrow> plain fs q"
      and walk: "(case rest of
          [] \<Rightarrow> Some d
        | c # cs \<Rightarrow>
            if c = ''..'' then walk fs (butlast d) cs
            else (case fs (d @ [c]) of
                    Link t \<Rightarrow> walk fs [] (t @ cs)
                  | _ \<Rightarrow> walk fs (d @ [c]) cs)) = Some q"
    show "plain fs d \<longrightarrow> plain fs q"
    proof (cases rest)
      case (Cons c cs)
      with walk show ?thesis
        by (auto simp: plain_snoc plain_butlast split: if_splits file_node.splits dest!: IH)
    qed (use walk in simp)
  qed
  with assms(2) show ?thesis by simp
qed

lemma real_walk_append:
  assumes "real_walk fs e p = Some d"
  shows "real_walk fs e (p @ cs) = real_walk fs d cs"
proof (rule real_walk.raw_induct
    [where P = "\<lambda>fs e p d. real_walk fs e (p @ cs) = real_walk fs d cs", OF _ assms])
  fix walk fs e rest d
  assume IH: "\<And>fs e rest d. walk fs e rest = Some d \<Longrightarrow> real_walk fs e (rest @ cs) = real_walk fs d cs"
    and walk: "(case rest of
        [] \<Rightarrow> Some e
      | x # xs \<Rightarrow>
          if x = ''..'' then walk fs (butlast e) xs
          else (case fs (e @ [x]) of
                  Link t \<Rightarrow> walk fs [] (t @ xs)
                | _ \<Rightarrow> walk fs (e @ [x]) xs)) = Some d"
  show "real_walk fs e (rest @ cs) = real_walk fs d cs"
  proof (cases rest)
    case (Cons x xs)
    have assoc: "(t @ xs) @ cs = t @ xs @ cs" for t by simp
    from Cons walk show ?thesis
      by (auto split: if_splits file_node.splits dest!: IH)
  qed (use walk in simp)
qed

lemma resolve_plain [simp]: "plain fs p \<Longrightarrow> resolve fs p = Inr p"
  by (simp add: resolve_def)

lemma resolve_is_plain: "resolve fs p = Inr q \<Longrightarrow> plain fs q"
  by (auto simp: resolve_def intro: real_walk_is_plain split: option.splits)

text \<open>The agent creates no links, so it changes no resolution.\<close>

definition same_links :: "files \<Rightarrow> files \<Rightarrow> bool" where
  "same_links fs fs' = (\<forall>p. is_link (fs p) \<or> is_link (fs' p) \<longrightarrow> fs p = fs' p)"

lemma same_links_refl [simp]: "same_links fs fs"
  by (simp add: same_links_def)

lemma same_links_sym: "same_links fs fs' \<Longrightarrow> same_links fs' fs"
  unfolding same_links_def by metis

lemma same_links_trans: "same_links fs fs1 \<Longrightarrow> same_links fs1 fs2 \<Longrightarrow> same_links fs fs2"
proof -
  assume a: "same_links fs fs1" "same_links fs1 fs2"
  have "fs p = fs2 p" if "is_link (fs p) \<or> is_link (fs2 p)" for p
  proof -
    from a have "is_link (fs p) \<or> is_link (fs1 p) \<longrightarrow> fs p = fs1 p" "is_link (fs1 p) \<or> is_link (fs2 p) \<longrightarrow> fs1 p = fs2 p"
      unfolding same_links_def by blast+
    with that show ?thesis by (cases "fs p = fs1 p") auto
  qed
  then show "same_links fs fs2" unfolding same_links_def by blast
qed

lemma same_links_upd: "\<not> is_link (fs p) \<Longrightarrow> \<not> is_link n \<Longrightarrow> same_links fs (fs(p := n))"
  unfolding same_links_def by (metis fun_upd_apply)

lemma same_links_Some:
  assumes "real_walk fs d p = Some q" "same_links fs fs'"
  shows "real_walk fs' d p = Some q"
proof -
  have "same_links fs fs' \<longrightarrow> real_walk fs' d p = Some q"
  proof (rule real_walk.raw_induct
      [where P = "\<lambda>fs d p q. same_links fs fs' \<longrightarrow> real_walk fs' d p = Some q", OF _ assms(1)])
    fix walk fs d rest q
    assume IH: "\<And>fs d rest q. walk fs d rest = Some q \<Longrightarrow> same_links fs fs' \<longrightarrow> real_walk fs' d rest = Some q"
      and walk: "(case rest of
          [] \<Rightarrow> Some d
        | c # cs \<Rightarrow>
            if c = ''..'' then walk fs (butlast d) cs
            else (case fs (d @ [c]) of
                    Link t \<Rightarrow> walk fs [] (t @ cs)
                  | _ \<Rightarrow> walk fs (d @ [c]) cs)) = Some q"
    show "same_links fs fs' \<longrightarrow> real_walk fs' d rest = Some q"
    proof (cases rest)
      case (Cons c cs)
      have "is_link (fs (d @ [c])) \<or> is_link (fs' (d @ [c])) \<Longrightarrow> same_links fs fs' \<Longrightarrow> fs (d @ [c]) = fs' (d @ [c])"
        unfolding same_links_def by blast
      with walk Cons show ?thesis
        by (cases "fs (d @ [c])"; cases "fs' (d @ [c])") (auto split: if_splits dest!: IH)
    qed (use walk in simp)
  qed
  with assms(2) show ?thesis by simp
qed

lemma same_links_walk: "same_links fs fs' \<Longrightarrow> real_walk fs' d p = real_walk fs d p"
  using same_links_Some same_links_sym by (metis option.exhaust)

lemma same_links_plain: "same_links fs fs' \<Longrightarrow> plain fs' p = plain fs p"
proof -
  assume "same_links fs fs'"
  then have "is_link (fs' q) = is_link (fs q)" for q
    unfolding same_links_def by metis
  then show "plain fs' p = plain fs p" by (simp add: plain_def)
qed

end
