(* ===== verification/Patch_Store.thy ===== *)
theory Patch_Store
  imports Patch_Text Repo_Files Tool_Primitives
begin

text \<open>
  \<open>PatchStore\<close> of \<open>tools/patch.py\<close>, the mutation journal of \<open>agent/journal.py\<close> and the three
  tools that edit files: \<open>propose_patch\<close> and \<open>propose_file\<close> only fill the store,
  \<open>apply_patch\<close> writes what was proposed and journals it, \<open>revert\<close> undoes the journal.  Ids
  drawn from \<open>uuid4\<close>, the rendering of a unified diff and the text of exceptions are
  parameters (the context record).
\<close>

section \<open>Pending proposals\<close>

record pending_patch =
  pp_id :: string
  pp_path :: path
  pp_original :: "string option"  \<comment> \<open>None: a new file\<close>
  pp_updated :: string
  pp_diff :: string

record file_mutation =
  fm_path :: path
  fm_before :: "string option"
  fm_after :: string
  fm_tool :: string

record journal =
  jn_entries :: "file_mutation list"
  jn_irreversible :: "string list"

record patch_store =
  ps_pending :: "(string \<times> pending_patch) list"
  ps_superseded :: "(string \<times> string \<times> bool) list"  \<comment> \<open>replaced id, its replacement, edit carried\<close>
  ps_journal :: "journal option"

definition empty_patches :: "journal option \<Rightarrow> patch_store" where
  "empty_patches j = \<lparr>ps_pending = [], ps_superseded = [], ps_journal = j\<rparr>"

definition pending_for :: "path \<Rightarrow> patch_store \<Rightarrow> pending_patch option" where
  "pending_for p st = find (\<lambda>item. pp_path item = p) (map snd (ps_pending st))"

definition del_key :: "'k \<Rightarrow> ('k \<times> 'v) list \<Rightarrow> ('k \<times> 'v) list" where
  "del_key k d = filter (\<lambda>e. fst e \<noteq> k) d"

definition put :: "pending_patch \<Rightarrow> bool \<Rightarrow> patch_store \<Rightarrow> (string option \<times> patch_store) py" where
  "put patch includes_previous st =
     py_check (pp_id patch \<in> fst ` set (ps_pending st) \<or> pp_id patch \<in> fst ` set (ps_superseded st)) ToolError (
       case pending_for (pp_path patch) st of
         None \<Rightarrow> Inr (None, st\<lparr>ps_pending := ps_pending st @ [(pp_id patch, patch)]\<rparr>)
       | Some previous \<Rightarrow>
           Inr (Some (pp_id previous),
             st\<lparr>ps_pending := del_key (pp_id previous) (ps_pending st) @ [(pp_id patch, patch)],
                ps_superseded := ps_superseded st @ [(pp_id previous, pp_id patch, includes_previous)]\<rparr>))"

partial_function (option) follow :: "(string \<times> string \<times> bool) list \<Rightarrow> string \<Rightarrow> bool \<Rightarrow> (string \<times> bool) option" where
  \<comment> \<open>\<open>while replacement in self._superseded\<close>\<close>
  "follow chain replacement included =
     (case map_of chain replacement of
        None \<Rightarrow> Some (replacement, included)
      | Some (further, carried) \<Rightarrow> follow chain further (included \<and> carried))"

declare follow.simps [code]

datatype taken =
    Taken pending_patch patch_store
  | Unknown_Id
  | No_Longer_Pending string        \<comment> \<open>superseded by an id that was applied or dropped\<close>
  | Included_In string
  | Replaced_By string

definition take_patch :: "string \<Rightarrow> patch_store \<Rightarrow> taken option" where
  \<comment> \<open>every answer but \<open>Taken\<close> is a ToolError; no value: the loop does not end\<close>
  "take_patch patch_id st =
     (case map_of (ps_superseded st) patch_id of
        Some (first, inc) \<Rightarrow>
          map_option (\<lambda>(replacement, included).
            if replacement \<notin> fst ` set (ps_pending st) then No_Longer_Pending replacement
            else if included then Included_In replacement else Replaced_By replacement)
            (follow (ps_superseded st) first inc)
      | None \<Rightarrow>
          (case map_of (ps_pending st) patch_id of
             None \<Rightarrow> Some Unknown_Id
           | Some patch \<Rightarrow>
               Some (Taken patch (st\<lparr>ps_pending := del_key patch_id (ps_pending st)\<rparr>))))"

section \<open>The journal\<close>

definition record_write :: "path \<Rightarrow> string option \<Rightarrow> string \<Rightarrow> string \<Rightarrow> journal \<Rightarrow> journal" where
  "record_write p before after tool j =
     j\<lparr>jn_entries := jn_entries j @
         [\<lparr>fm_path = p, fm_before = before, fm_after = after, fm_tool = tool\<rparr>]\<rparr>"

definition record_irreversible :: "string \<Rightarrow> journal \<Rightarrow> journal" where
  "record_irreversible d j = j\<lparr>jn_irreversible := jn_irreversible j @ [d]\<rparr>"

fun first_seen :: "string list \<Rightarrow> string list \<Rightarrow> string list" where
  "first_seen seen [] = seen"
| "first_seen seen (n # ns) = first_seen (if n \<in> set seen then seen else seen @ [n]) ns"

definition touched :: "journal \<Rightarrow> string list" where
  "touched j = first_seen [] (map (path_str \<circ> fm_path) (jn_entries j))"

record revert_report =
  rr_reverted :: "string list"
  rr_skipped :: "string list"
  rr_irreversible :: "string list"

definition undo_entry :: "file_mutation \<Rightarrow> files \<Rightarrow> files py" where
  \<comment> \<open>the part of the loop that writes\<close>
  "undo_entry e fs =
     (case fm_before e of None \<Rightarrow> unlink fs (fm_path e) | Some s \<Rightarrow> write_text fs (fm_path e) s)"

fun revert_all :: "file_mutation list \<Rightarrow> files \<Rightarrow> revert_report \<Rightarrow> (files \<times> revert_report) py" where
  "revert_all [] fs rep = Inr (fs, rep)"
| "revert_all (e # es) fs rep =
     (case read_bytes fs (fm_path e) of
        Inl _ \<Rightarrow> revert_all es fs
          (rep\<lparr>rr_skipped := rr_skipped rep @ [path_str (fm_path e) @ '' (unreadable)'']\<rparr>)
      | Inr current \<Rightarrow>
          if current \<noteq> Text_File (fm_after e) then revert_all es fs
            (rep\<lparr>rr_skipped := rr_skipped rep @ [path_str (fm_path e) @ '' (changed by someone else since)'']\<rparr>)
          else py_bind (undo_entry e fs) (\<lambda>fs'. revert_all es fs'
            (rep\<lparr>rr_reverted := rr_reverted rep @ [path_str (fm_path e)]\<rparr>)))"

definition revert :: "journal \<Rightarrow> files \<Rightarrow> (revert_report \<times> journal \<times> files) py" where
  "revert j fs =
     py_bind (revert_all (rev (jn_entries j)) fs
                \<lparr>rr_reverted = [], rr_skipped = [], rr_irreversible = jn_irreversible j\<rparr>)
       (\<lambda>(fs', rep). Inr (rep, (if rr_skipped rep = [] then j\<lparr>jn_entries := []\<rparr> else j), fs'))"

section \<open>The tools\<close>

record patch_ctx =
  pc_root :: path
  pc_build_dir :: string
  pc_run_dir :: string
  pc_allow_patch :: bool
  pc_uuid :: "nat \<Rightarrow> string"  \<comment> \<open>the first eight hex digits of the n-th \<open>uuid4\<close>\<close>
  pc_diff :: "string list \<Rightarrow> string list \<Rightarrow> string \<Rightarrow> string \<Rightarrow> string"  \<comment> \<open>\<open>unified_diff\<close>, joined\<close>
  pc_message :: "py_exc \<Rightarrow> string"
  pc_class :: "py_exc \<Rightarrow> string"

record patch_world =
  pw_files :: files
  pw_store :: patch_store
  pw_drawn :: nat  \<comment> \<open>ids drawn so far\<close>

definition protected_names :: "patch_ctx \<Rightarrow> string list" where
  "protected_names c = [pc_build_dir c, pc_run_dir c, ''.local-agent'', ''.git'']"

definition new_patch_id :: "patch_ctx \<Rightarrow> patch_world \<Rightarrow> string" where
  "new_patch_id c w = CHR ''p'' # pc_uuid c (pw_drawn w)"

definition choose_update ::
  "string \<Rightarrow> pending_patch option \<Rightarrow> string \<Rightarrow> string \<Rightarrow> (string \<times> match_kind \<times> string option) py" where
  \<comment> \<open>an edit of the file on disk, or one stacked on the pending proposal\<close>
  "choose_update original pending old new =
     (case replace_once original old new of
        Inl e \<Rightarrow>
          (case pending of
             None \<Rightarrow> Inl e
           | Some p \<Rightarrow>
               py_bind (replace_once (pp_updated p) old new) (\<lambda>(u, m). Inr (u, m, Some (pp_id p))))
      | Inr (u, m) \<Rightarrow>
          (case pending of
             None \<Rightarrow> Inr (u, m, None)
           | Some p \<Rightarrow>
               if changes_overlap original u (pp_updated p) then Inr (u, m, None)
               else (case replace_once (pp_updated p) old new of
                       Inl _ \<Rightarrow> Inr (u, m, None)
                     | Inr (u', m') \<Rightarrow> Inr (u', m', Some (pp_id p)))))"

definition live_pending :: "path \<Rightarrow> string \<Rightarrow> patch_store \<Rightarrow> pending_patch option" where
  \<comment> \<open>a proposal for other bytes than the file's is stale\<close>
  "live_pending target original st =
     (case pending_for target st of
        None \<Rightarrow> None
      | Some p \<Rightarrow> if pp_original p \<noteq> Some original then None else Some p)"

definition maybe_str :: "string option \<Rightarrow> pyval" where
  "maybe_str x = (case x of None \<Rightarrow> PNone | Some s \<Rightarrow> PStr s)"

definition good_result :: "string \<Rightarrow> pydict \<Rightarrow> tool_result" where
  "good_result summary data = mk_tool_result True summary data [] None EX_OK None None"

definition match_note :: "match_kind \<Rightarrow> string" where
  "match_note m =
     (case m of
        EXACT \<Rightarrow> ''''
      | TOLERANT \<Rightarrow> ''; matched ignoring indentation/trailing spaces, check the diff''
      | _ \<Rightarrow> ''; matched after removing read_file line numbers from find, check the diff'')"

definition propose_patch ::
  "patch_ctx \<Rightarrow> string \<Rightarrow> string \<Rightarrow> string \<Rightarrow> string \<Rightarrow> patch_world \<Rightarrow> (tool_result \<times> patch_store) py" where
  "propose_patch c path old new rationale w =
     (let fs = pw_files w; st = pw_store w in
      py_bind (resolve_in_repo fs (pc_root c) path) (\<lambda>target.
      py_bind (assert_writable fs (pc_root c) target (protected_names c)) (\<lambda>_.
      py_check (\<not> is_file fs target) ToolError (
      py_bind (read_text fs target) (\<lambda>original.
      py_check (py_strip old = []) ToolError (
      py_bind (choose_update original (live_pending target original st) old new) (\<lambda>(updated, match, stacked_on).
      py_check (updated = original) ToolError (
        let rel = relpath fs (pc_root c) target;
            diff = pc_diff c (lines_keep original) (lines_keep updated) (''a/'' @ rel) (''b/'' @ rel);
            patch_id = new_patch_id c w
        in py_bind (put \<lparr>pp_id = patch_id, pp_path = target, pp_original = Some original,
                         pp_updated = updated, pp_diff = diff\<rparr> (stacked_on \<noteq> None) st)
             (\<lambda>(superseded, st').
                Inr (good_result
                       (''patch '' @ patch_id @ '' proposed for '' @ rel @ '' (nothing written yet''
                        @ match_note match @ '')''
                        @ (case (stacked_on, superseded) of
                             (Some s, _) \<Rightarrow> ''; includes '' @ s @ '', apply '' @ patch_id @ '' only''
                           | (None, Some s) \<Rightarrow> ''; replaces '' @ s @ '', whose edit is dropped''
                           | _ \<Rightarrow> ''''))
                       [(''patch_id'', PStr patch_id), (''path'', PStr rel), (''rationale'', PStr rationale),
                        (''diff'', PStr diff), (''match'', PStr (match_kind_value match)),
                        (''supersedes'', maybe_str superseded), (''includes'', maybe_str stacked_on)],
                     st'))))))))))"

definition propose_file ::
  "patch_ctx \<Rightarrow> string \<Rightarrow> string \<Rightarrow> string \<Rightarrow> patch_world \<Rightarrow> (tool_result \<times> patch_store) py" where
  "propose_file c path content rationale w =
     (let fs = pw_files w in
      py_bind (resolve_in_repo fs (pc_root c) path) (\<lambda>target.
      py_bind (assert_writable fs (pc_root c) target (protected_names c)) (\<lambda>_.
      py_check (path_exists fs target \<or> is_symlink fs target) ToolError (
      py_check (content = []) ToolError (
        let rel = relpath fs (pc_root c) target;
            diff = pc_diff c [] (lines_keep content) ''/dev/null'' (''b/'' @ rel);
            patch_id = new_patch_id c w
        in py_bind (put \<lparr>pp_id = patch_id, pp_path = target, pp_original = None,
                         pp_updated = content, pp_diff = diff\<rparr> False (pw_store w))
             (\<lambda>(superseded, st').
                Inr (good_result
                       (''new file '' @ patch_id @ '' proposed for '' @ rel @ '' (nothing written yet)''
                        @ (case superseded of
                             None \<Rightarrow> '''' | Some s \<Rightarrow> ''; replaces '' @ s @ '', whose content is dropped''))
                       [(''patch_id'', PStr patch_id), (''path'', PStr rel), (''rationale'', PStr rationale),
                        (''diff'', PStr diff), (''supersedes'', maybe_str superseded)],
                     st')))))))"

definition proposed :: "(tool_result \<times> patch_store) py \<Rightarrow> patch_world \<Rightarrow> tool_result py \<times> patch_world" where
  \<comment> \<open>each call has an id of its own, drawn or not\<close>
  "proposed r w =
     (case r of
        Inl e \<Rightarrow> (Inl e, w\<lparr>pw_drawn := Suc (pw_drawn w)\<rparr>)
      | Inr (res, st) \<Rightarrow> (Inr res, w\<lparr>pw_store := st, pw_drawn := Suc (pw_drawn w)\<rparr>))"

definition write_patch :: "patch_ctx \<Rightarrow> pending_patch \<Rightarrow> files \<Rightarrow> files py" where
  \<comment> \<open>the guards and the write of \<open>apply_patch\<close>, after the proposal was taken\<close>
  "write_patch c patch fs =
     py_bind (assert_writable fs (pc_root c) (pp_path patch) (protected_names c)) (\<lambda>_.
       case pp_original patch of
         None \<Rightarrow>
           py_check (path_exists fs (pp_path patch) \<or> is_symlink fs (pp_path patch)) ToolError (
           py_bind (make_folders fs [] (butlast (pp_path patch))) (\<lambda>fs1.
           py_bind (assert_writable fs1 (pc_root c) (pp_path patch) (protected_names c)) (\<lambda>_.
             write_text fs1 (pp_path patch) (pp_updated patch))))
       | Some original \<Rightarrow>
           py_bind (read_bytes fs (pp_path patch)) (\<lambda>current.
             py_check (current \<noteq> Text_File original) ToolError (
               write_text fs (pp_path patch) (pp_updated patch))))"

definition journal_write :: "pending_patch \<Rightarrow> patch_store \<Rightarrow> patch_store" where
  "journal_write patch st =
     st\<lparr>ps_journal := map_option
          (record_write (pp_path patch) (pp_original patch) (pp_updated patch) ''apply_patch'')
          (ps_journal st)\<rparr>"

definition apply_patch ::
  "patch_ctx \<Rightarrow> string \<Rightarrow> patch_world \<Rightarrow> (tool_result py \<times> patch_world) option" where
  \<comment> \<open>a proposal that was taken stays taken when the write is refused\<close>
  "apply_patch c patch_id w =
     (if \<not> pc_allow_patch c then Some (Inl BlockedError, w)
      else map_option (\<lambda>t. case t of
          Taken patch st \<Rightarrow>
            (case write_patch c patch (pw_files w) of
               Inl e \<Rightarrow> (Inl e, w\<lparr>pw_store := st\<rparr>)
             | Inr fs \<Rightarrow>
                 (let rel = relpath fs (pc_root c) (pp_path patch) in
                  (Inr (good_result (''applied patch '' @ patch_id @ '' to '' @ rel)
                          [(''path'', PStr rel), (''diff'', PStr (pp_diff patch))]),
                   w\<lparr>pw_files := fs, pw_store := journal_write patch st\<rparr>)))
        | _ \<Rightarrow> (Inl ToolError, w)) (take_patch patch_id (pw_store w)))"

subsection \<open>As handlers of the registry\<close>

definition string_args :: "string list \<Rightarrow> string list \<Rightarrow> pydict \<Rightarrow> bool" where
  \<comment> \<open>the schemas of the three tools: an object of strings, these keys required, no others
    but the optional ones\<close>
  "string_args required optional args \<longleftrightarrow>
     (\<forall>k \<in> set required. has_key args k) \<and>
     (\<forall>(k, v) \<in> set args. k \<in> set (required @ optional) \<and> (case v of PStr _ \<Rightarrow> True | _ \<Rightarrow> False))"

definition str_arg :: "pydict \<Rightarrow> string \<Rightarrow> string" where
  "str_arg args k = (case py_get args k of PStr s \<Rightarrow> s | _ \<Rightarrow> '''')"

definition raised :: "patch_ctx \<Rightarrow> py_exc \<Rightarrow> handler_outcome" where
  "raised c e =
     (case e of
        BlockedError \<Rightarrow> Raised_Blocked POLICY_DENIED (pc_message c e)
      | ProtectedPathError \<Rightarrow> Raised_ToolError PROTECTED_PATH (pc_message c e)
      | SandboxError \<Rightarrow> Raised_ToolError SANDBOX_VIOLATION (pc_message c e)
      | ToolError \<Rightarrow> Raised_ToolError BAD_ARGUMENTS (pc_message c e)
      | _ \<Rightarrow> Raised_Other (pc_class c e) (pc_message c e))"

definition edit_outcome :: "patch_ctx \<Rightarrow> tool_result py \<Rightarrow> handler_outcome" where
  "edit_outcome c r = (case r of Inl e \<Rightarrow> raised c e | Inr res \<Rightarrow> Returned res)"

datatype edit_call =
    Propose_Patch string string string string
  | Propose_File string string string
  | Apply_Patch string

definition edit_step :: "patch_ctx \<Rightarrow> edit_call \<Rightarrow> patch_world \<Rightarrow> (tool_result py \<times> patch_world) option" where
  "edit_step c e w =
     (case e of
        Propose_Patch p old new why \<Rightarrow> Some (proposed (propose_patch c p old new why w) w)
      | Propose_File p content why \<Rightarrow> Some (proposed (propose_file c p content why w) w)
      | Apply_Patch i \<Rightarrow> apply_patch c i w)"

definition edit_of :: "string \<Rightarrow> pydict \<Rightarrow> edit_call option" where
  \<comment> \<open>the arguments of a call that its schema accepts\<close>
  "edit_of name args =
     (if name = ''propose_patch'' then
        (if string_args [''path'', ''find'', ''replace''] [''rationale''] args
         then Some (Propose_Patch (str_arg args ''path'') (str_arg args ''find'') (str_arg args ''replace'')
                      (str_arg args ''rationale'')) else None)
      else if name = ''propose_file'' then
        (if string_args [''path'', ''content''] [''rationale''] args
         then Some (Propose_File (str_arg args ''path'') (str_arg args ''content'') (str_arg args ''rationale''))
         else None)
      else if string_args [''patch_id''] [] args then Some (Apply_Patch (str_arg args ''patch_id''))
      else None)"

definition edit_handler :: "patch_ctx \<Rightarrow> string \<Rightarrow> pydict \<Rightarrow> patch_world \<Rightarrow> handler_outcome \<times> patch_world" where
  \<comment> \<open>behind schema validation; that the inner step always returns is a lemma\<close>
  "edit_handler c name args w =
     (case edit_of name args of
        None \<Rightarrow> (raised c ToolError, w)
      | Some e \<Rightarrow>
          (case edit_step c e w of
             None \<Rightarrow> (Raised_Other '''' '''', w)
           | Some (r, w') \<Rightarrow> (edit_outcome c r, w')))"

definition edit_tools :: "patch_ctx \<Rightarrow> (string \<Rightarrow> pyval) \<Rightarrow> patch_world registry" where
  "edit_tools c schema =
     map (\<lambda>(n, r). \<lparr>tool_name = n, tool_parameters = schema n, tool_risk = r, tool_handler = edit_handler c n\<rparr>)
       [(''propose_patch'', READ), (''propose_file'', READ), (''apply_patch'', DANGEROUS)]"

end
