(* ===== verification/Patch_Invariants.thy ===== *)
theory Patch_Invariants
  imports Patch_Store
begin

text \<open>
  The invariant of the patch store (one pending proposal per file; superseded ids form a
  chain that only runs forward), the reference definition of the chain walk, and what one
  edit call does to the files: the ground for restoring them from the journal.
\<close>

section \<open>The chain of superseded ids\<close>

fun chase :: "(string \<times> string \<times> bool) list \<Rightarrow> string \<Rightarrow> bool \<Rightarrow> string \<times> bool" where
  \<comment> \<open>one pass over the chain in the order it grew\<close>
  "chase [] r inc = (r, inc)"
| "chase ((k, r', carried) # es) r inc =
     (if k = r then chase es r' (inc \<and> carried) else chase es r inc)"

fun forward :: "(string \<times> string \<times> bool) list \<Rightarrow> bool" where
  "forward [] \<longleftrightarrow> True"
| "forward (e # es) \<longleftrightarrow>
     fst e \<notin> fst ` set es \<and> (\<forall>e' \<in> set (e # es). fst (snd e') \<noteq> fst e) \<and> forward es"

lemma forward_snoc:
  "forward (es @ [(k, r, c)]) \<longleftrightarrow>
     forward es \<and> k \<notin> fst ` set es \<and> r \<notin> fst ` set es \<and> r \<noteq> k"
  by (induction es) auto

lemma forward_distinct: "forward es \<Longrightarrow> distinct (map fst es)"
  by (induction es) auto

lemma follow_chase:
  assumes "forward (pre @ es)" "r \<notin> fst ` set pre"
  shows "follow (pre @ es) r inc = Some (chase es r inc)"
  using assms
proof (induction es arbitrary: pre r inc)
  case Nil
  then show ?case by (subst follow.simps) (simp add: map_of_eq_None_iff [symmetric])
next
  case (Cons e es)
  obtain k r' c where e: "e = (k, r', c)" by (cases e)
  from Cons.prems(1) have fw: "forward ((pre @ [e]) @ es)" by simp
  show ?case
  proof (cases "k = r")
    case True
    have no: "map_of pre r = None" using Cons.prems(2) by (simp add: map_of_eq_None_iff)
    have "r' \<notin> fst ` set (pre @ [e])"
      using Cons.prems(1) e by (induction pre) auto
    from Cons.IH [OF fw this] no True e show ?thesis
      by (subst follow.simps) (simp add: map_add_def)
  next
    case False
    with Cons.prems(2) e have "r \<notin> fst ` set (pre @ [e])" by auto
    from Cons.IH [OF fw this] False e show ?thesis by simp
  qed
qed

lemma follow_is_chase: "forward es \<Longrightarrow> follow es r inc = Some (chase es r inc)"
  using follow_chase [of "[]" es r inc] by simp

section \<open>The store\<close>

definition patches_ok :: "patch_store \<Rightarrow> bool" where
  "patches_ok st \<longleftrightarrow>
     distinct (map fst (ps_pending st)) \<and>
     (\<forall>(k, p) \<in> set (ps_pending st). pp_id p = k) \<and>
     distinct (map (pp_path \<circ> snd) (ps_pending st)) \<and>
     fst ` set (ps_pending st) \<inter> fst ` set (ps_superseded st) = {} \<and>
     forward (ps_superseded st)"

lemma patches_ok_empty [simp]: "patches_ok (empty_patches j)"
  by (simp add: patches_ok_def empty_patches_def)

lemma del_key_set [simp]: "set (del_key k d) = {e \<in> set d. fst e \<noteq> k}"
  by (auto simp: del_key_def)

lemma del_key_map_distinct [intro]: "distinct (map f d) \<Longrightarrow> distinct (map f (del_key k d))"
  by (simp add: del_key_def distinct_map_filter)

lemma pending_for_Some:
  "pending_for p st = Some q \<Longrightarrow> pp_path q = p \<and> q \<in> snd ` set (ps_pending st)"
  by (auto simp: pending_for_def find_Some_iff image_set simp del: set_map intro!: nth_mem)

lemma pending_for_None: "pending_for p st = None \<longleftrightarrow> (\<forall>e \<in> set (ps_pending st). pp_path (snd e) \<noteq> p)"
  by (auto simp: pending_for_def find_None_iff)

lemma del_key_ok: "patches_ok st \<Longrightarrow> patches_ok (st\<lparr>ps_pending := del_key i (ps_pending st)\<rparr>)"
  by (auto simp: patches_ok_def del_key_map_distinct)

lemma add_pending_ok:
  assumes "patches_ok st" "i \<notin> fst ` set (ps_pending st)" "i \<notin> fst ` set (ps_superseded st)"
    "pending_for (pp_path p) st = None" "pp_id p = i"
  shows "patches_ok (st\<lparr>ps_pending := ps_pending st @ [(i, p)]\<rparr>)"
proof -
  from assms(4) have "pp_path p \<notin> (pp_path \<circ> snd) ` set (ps_pending st)"
    by (auto simp: pending_for_None)
  with assms show ?thesis unfolding patches_ok_def by (simp add: image_comp)
qed

lemma add_superseded_ok:
  assumes "patches_ok st" "k \<notin> fst ` set (ps_pending st)" "k \<notin> fst ` set (ps_superseded st)"
    "r \<notin> fst ` set (ps_superseded st)" "r \<noteq> k"
  shows "patches_ok (st\<lparr>ps_superseded := ps_superseded st @ [(k, r, inc)]\<rparr>)"
  using assms unfolding patches_ok_def by (simp add: forward_snoc)

lemma pending_unique:
  assumes "patches_ok st" "(k, p) \<in> set (ps_pending st)" "e \<in> set (ps_pending st)" "pp_path (snd e) = pp_path p"
  shows "e = (k, p)"
proof -
  have "inj_on (pp_path \<circ> snd) (set (ps_pending st))"
    using assms(1) by (simp add: patches_ok_def distinct_map)
  from inj_onD [OF this _ assms(3,2)] assms(4) show ?thesis by simp
qed

lemma put_ok:
  assumes "put patch inc st = Inr (sup_id, st')" "patches_ok st"
  shows "patches_ok st'"
proof -
  from assms(1) have fresh: "pp_id patch \<notin> fst ` set (ps_pending st)" "pp_id patch \<notin> fst ` set (ps_superseded st)"
    by (auto simp: put_def)
  show ?thesis
  proof (cases "pending_for (pp_path patch) st")
    case None
    with assms fresh show ?thesis by (auto simp: put_def intro!: add_pending_ok)
  next
    case (Some old)
    from pending_for_Some [OF this] obtain k where k: "(k, old) \<in> set (ps_pending st)" "pp_path old = pp_path patch"
      by force
    have "pp_id old = k" using assms(2) k(1) by (auto simp: patches_ok_def)
    let ?st1 = "st\<lparr>ps_pending := del_key k (ps_pending st)\<rparr>"
    let ?st2 = "?st1\<lparr>ps_superseded := ps_superseded st @ [(k, pp_id patch, inc)]\<rparr>"
    have kin: "k \<in> fst ` set (ps_pending st)" using k(1) by force
    with assms(2) have "k \<notin> fst ` set (ps_superseded st)" by (auto simp: patches_ok_def)
    moreover from kin fresh have ne: "pp_id patch \<noteq> k" by blast
    moreover have "k \<notin> fst ` {e \<in> set (ps_pending st). fst e \<noteq> k}" by auto
    ultimately have ok: "patches_ok ?st2"
      using add_superseded_ok [OF del_key_ok [OF assms(2)], of k k "pp_id patch" inc] fresh by simp
    have "pending_for (pp_path patch) ?st2 = None"
      using pending_unique [OF assms(2) k(1)] k(2) by (fastforce simp: pending_for_None)
    moreover have "pp_id patch \<notin> fst ` set (ps_pending ?st2)" using fresh(1) by auto
    moreover have "pp_id patch \<notin> fst ` set (ps_superseded ?st2)" using fresh(2) ne by auto
    ultimately have "patches_ok (?st2\<lparr>ps_pending := ps_pending ?st2 @ [(pp_id patch, patch)]\<rparr>)"
      using add_pending_ok [OF ok] by blast
    moreover have "(?st2\<lparr>ps_pending := ps_pending ?st2 @ [(pp_id patch, patch)]\<rparr>)
        = st\<lparr>ps_pending := del_key k (ps_pending st) @ [(pp_id patch, patch)],
             ps_superseded := ps_superseded st @ [(k, pp_id patch, inc)]\<rparr>"
      by (cases st) simp
    ultimately have "patches_ok (st\<lparr>ps_pending := del_key k (ps_pending st) @ [(pp_id patch, patch)],
        ps_superseded := ps_superseded st @ [(k, pp_id patch, inc)]\<rparr>)" by (simp only:)
    with \<open>pp_id old = k\<close> show ?thesis using assms(1) Some by (auto simp: put_def)
  qed
qed

lemma take_patch_cases:
  assumes "patches_ok st"
  obtains (Known) p where "take_patch i st = Some (Taken p (st\<lparr>ps_pending := del_key i (ps_pending st)\<rparr>))"
      "(i, p) \<in> set (ps_pending st)"
    | (Refused) t where "take_patch i st = Some t" "i \<notin> fst ` set (ps_pending st)"
      "\<forall>p st'. t \<noteq> Taken p st'"
proof (cases "map_of (ps_superseded st) i")
  case None
  note sup_none = this
  show ?thesis
  proof (cases "map_of (ps_pending st) i")
    case None
    with sup_none show ?thesis
      by (intro Refused [of Unknown_Id]) (simp_all add: take_patch_def map_of_eq_None_iff [symmetric])
  next
    case (Some p)
    with sup_none show ?thesis by (intro Known [of p]) (auto simp: take_patch_def dest: map_of_SomeD)
  qed
next
  case (Some e)
  obtain first inc where e: "e = (first, inc)" by (cases e)
  from Some have "i \<in> fst ` set (ps_superseded st)" by (force dest: map_of_SomeD)
  with assms have "i \<notin> fst ` set (ps_pending st)" by (auto simp: patches_ok_def)
  moreover have "follow (ps_superseded st) first inc = Some (chase (ps_superseded st) first inc)"
    using assms by (simp add: patches_ok_def follow_is_chase)
  ultimately show ?thesis using Some e
    by (intro Refused) (auto simp: take_patch_def split: prod.splits if_splits)
qed

lemma patches_ok_journal [simp]: "patches_ok (st\<lparr>ps_journal := j\<rparr>) = patches_ok st"
  by (simp add: patches_ok_def)

datatype patch_op = Put pending_patch bool | Take string

definition patch_step :: "patch_op \<Rightarrow> patch_store \<Rightarrow> patch_store py" where
  "patch_step x st =
     (case x of
        Put p inc \<Rightarrow> py_bind (put p inc st) (\<lambda>(_, st'). Inr st')
      | Take i \<Rightarrow> (case take_patch i st of Some (Taken p st') \<Rightarrow> Inr st' | _ \<Rightarrow> Inl ToolError))"

interpretation proposals: guarded_machine patch_step patches_ok
proof unfold_locales
  fix st st' x
  assume ok: "patches_ok st" and step: "patch_step x st = Inr st'"
  show "patches_ok st'"
  proof (cases x)
    case (Put p inc)
    with step ok show ?thesis by (auto simp: patch_step_def py_bind_Inr_iff intro: put_ok)
  next
    case (Take i)
    with ok step show ?thesis
      by (cases rule: take_patch_cases [OF ok, of i])
        (auto simp: patch_step_def del_key_ok split: taken.splits)
  qed
qed

section \<open>What one edit call does to the files\<close>

definition grown :: "files \<Rightarrow> files \<Rightarrow> bool" where
  \<comment> \<open>the same files but for new folders\<close>
  "grown fs fs' \<longleftrightarrow> (\<forall>p. fs' p = fs p \<or> fs p = Missing \<and> fs' p = Folder)"

lemma grown_refl [simp]: "grown fs fs"
  by (simp add: grown_def)

lemma grown_trans: "grown fs fs1 \<Longrightarrow> grown fs1 fs2 \<Longrightarrow> grown fs fs2"
  unfolding grown_def by metis

lemma grown_same_links: "grown fs fs' \<Longrightarrow> same_links fs fs'"
  unfolding grown_def same_links_def by (metis is_link_simps(1,4))

lemma grown_keeps: "grown fs fs' \<Longrightarrow> fs p \<noteq> Missing \<Longrightarrow> fs' p = fs p"
  unfolding grown_def by metis

lemma make_folders_grown: "make_folders fs d p = Inr fs' \<Longrightarrow> grown fs fs'"
proof (induction fs d p rule: make_folders.induct)
  case (2 fs d c cs)
  have "grown fs (fs(d @ [c] := Folder))" if "fs (d @ [c]) = Missing"
    using that by (simp add: grown_def)
  with 2 show ?case
    by (auto simp del: fun_upd_apply split: file_node.splits option.splits if_splits intro: grown_trans)
qed simp

lemma node_at_plain: "plain fs p \<Longrightarrow> node_at fs p = (if p = [] then Folder else fs p)"
  by (simp add: node_at_def)

lemma entry_of_plain: "plain fs p \<Longrightarrow> p \<noteq> [] \<Longrightarrow> entry_of fs p = Some p"
  by (simp add: entry_of_def plain_butlast)

text \<open>The write of a taken proposal: the only file that changes is the resolved target, which
  held what was shown; folders may be created on the way to a new file.\<close>

definition wrote :: "pending_patch \<Rightarrow> path \<Rightarrow> files \<Rightarrow> files \<Rightarrow> bool" where
  "wrote patch q fs fs' \<longleftrightarrow>
     resolve fs (pp_path patch) = Inr q \<and> q \<noteq> [] \<and>
     (case pp_original patch of None \<Rightarrow> fs q = Missing | Some s \<Rightarrow> fs q = Text_File s) \<and>
     (\<exists>fs1. grown fs fs1 \<and> fs1 q = fs q \<and> fs' = fs1(q := Text_File (pp_updated patch)))"

lemma write_text_Inr:
  "write_text fs p s = Inr fs' \<Longrightarrow>
     \<exists>q. real_walk fs [] p = Some q \<and> q \<noteq> [] \<and> fs q \<noteq> Folder \<and> fs' = fs(q := Text_File s)"
  by (auto simp: write_text_def node_at_def split: option.splits if_splits)

lemma write_patch_wrote:
  assumes "write_patch c patch fs = Inr fs'"
  shows "\<exists>q. wrote patch q fs fs' \<and> assert_writable fs (pc_root c) (pp_path patch) (protected_names c) = Inr q"
proof -
  from assms obtain q where q: "assert_writable fs (pc_root c) (pp_path patch) (protected_names c) = Inr q"
    by (auto simp: write_patch_def py_bind_Inr_iff)
  then have r: "real_walk fs [] (pp_path patch) = Some q"
    by (auto simp: assert_writable_def resolve_def py_bind_Inr_iff split: option.splits)
  show ?thesis
  proof (cases "pp_original patch")
    case None
    with assms q obtain fs1 where fs1: "make_folders fs [] (butlast (pp_path patch)) = Inr fs1"
        "write_text fs1 (pp_path patch) (pp_updated patch) = Inr fs'" "node_at fs (pp_path patch) = Missing"
      by (auto simp: write_patch_def py_bind_Inr_iff path_exists_def)
    from make_folders_grown [OF fs1(1)] have g: "grown fs fs1" .
    then have "real_walk fs1 [] (pp_path patch) = Some q"
      using r by (simp add: same_links_walk [OF grown_same_links])
    with write_text_Inr [OF fs1(2)] have w: "q \<noteq> []" "fs1 q \<noteq> Folder" "fs' = fs1(q := Text_File (pp_updated patch))"
      by auto
    with fs1(3) r have "fs q = Missing" by (simp add: node_at_def)
    moreover from this g w(2) have "fs1 q = fs q" unfolding grown_def by metis
    ultimately have "wrote patch q fs fs'"
      using None r g w by (auto simp: wrote_def resolve_def)
    with q show ?thesis by blast
  next
    case (Some s)
    with assms q have "read_bytes fs (pp_path patch) = Inr (Text_File s)"
        "write_text fs (pp_path patch) (pp_updated patch) = Inr fs'"
      by (auto simp: write_patch_def py_bind_Inr_iff)
    with write_text_Inr [OF this(2)] r Some
    have "wrote patch q fs fs'"
      by (auto simp: wrote_def resolve_def read_bytes_def node_at_def split: if_splits intro!: exI [of _ fs])
    with q show ?thesis by blast
  qed
qed

section \<open>A run of edit calls, and its journal undone\<close>

definition edit_after :: "patch_ctx \<Rightarrow> edit_call \<Rightarrow> patch_world \<Rightarrow> patch_world py" where
  \<comment> \<open>the world after the call, raised or not\<close>
  "edit_after c e w = (case edit_step c e w of None \<Rightarrow> Inl RuntimeError | Some (_, w') \<Rightarrow> Inr w')"

definition new_world :: "files \<Rightarrow> patch_world" where
  "new_world fs =
     \<lparr>pw_files = fs, pw_store = empty_patches (Some \<lparr>jn_entries = [], jn_irreversible = []\<rparr>), pw_drawn = 0\<rparr>"

definition journal_of :: "patch_world \<Rightarrow> journal" where
  "journal_of w =
     (case ps_journal (pw_store w) of None \<Rightarrow> \<lparr>jn_entries = [], jn_irreversible = []\<rparr> | Some j \<Rightarrow> j)"

definition undoes :: "files \<Rightarrow> file_mutation list \<Rightarrow> files \<Rightarrow> bool" where
  \<comment> \<open>undoing these entries, newest first, leads back: also when folders were added since\<close>
  "undoes fs0 es fs \<longleftrightarrow>
     (\<forall>fs2 rep. grown fs fs2 \<longrightarrow>
        (\<exists>fs3 rep'. revert_all (rev es) fs2 rep = Inr (fs3, rep') \<and> grown fs0 fs3
           \<and> rr_skipped rep' = rr_skipped rep))"

definition world_ok :: "files \<Rightarrow> patch_world \<Rightarrow> bool" where
  "world_ok fs0 w \<longleftrightarrow>
     patches_ok (pw_store w) \<and> ps_journal (pw_store w) \<noteq> None \<and>
     (\<forall>e \<in> set (ps_pending (pw_store w)). plain (pw_files w) (pp_path (snd e))) \<and>
     undoes fs0 (jn_entries (journal_of w)) (pw_files w)"

lemma undoes_Nil: "undoes fs [] fs"
  by (simp add: undoes_def)

lemma world_ok_new: "world_ok fs (new_world fs)"
  using patches_ok_empty by (simp add: world_ok_def new_world_def journal_of_def undoes_Nil empty_patches_def)

lemma undo_entry_plain:
  assumes "plain fs q" "q \<noteq> []" "fs q = Text_File u"
  shows "undo_entry \<lparr>fm_path = q, fm_before = b, fm_after = u, fm_tool = t\<rparr> fs
    = Inr (fs(q := (case b of None \<Rightarrow> Missing | Some s \<Rightarrow> Text_File s)))"
  using assms by (simp add: undo_entry_def unlink_def write_text_def entry_of_plain node_at_plain split: option.splits)

lemma undoes_write:
  assumes un: "undoes fs0 es fs" and pl: "plain fs q" and path: "pp_path patch = q"
    and wr: "wrote patch q fs fs'"
  shows "undoes fs0 (es @ [\<lparr>fm_path = q, fm_before = pp_original patch, fm_after = pp_updated patch, fm_tool = t\<rparr>]) fs'"
  unfolding undoes_def
proof (intro allI impI)
  fix fs2 rep
  assume g: "grown fs' fs2"
  from wr obtain fs1 where q: "q \<noteq> []" and g1: "grown fs fs1" "fs1 q = fs q"
      and fs': "fs' = fs1(q := Text_File (pp_updated patch))"
      and was: "fs q = (case pp_original patch of None \<Rightarrow> Missing | Some s \<Rightarrow> Text_File s)"
    by (auto simp: wrote_def split: option.splits)
  have at: "fs2 q = Text_File (pp_updated patch)" using grown_keeps [OF g, of q] fs' by simp
  have "\<not> is_link (fs1 q)" using g1(2) was by (auto split: option.splits)
  then have "same_links fs1 fs'" using fs' by (simp add: same_links_upd)
  then have "plain fs2 q"
    using pl grown_same_links [OF g1(1)] grown_same_links [OF g] by (simp add: same_links_plain)
  then have read: "read_bytes fs2 q = Inr (Text_File (pp_updated patch))" and pl2: "plain fs2 q"
    using at q by (simp_all add: read_bytes_def is_file_def node_at_plain)
  let ?fs3 = "fs2(q := (case pp_original patch of None \<Rightarrow> Missing | Some s \<Rightarrow> Text_File s))"
  have "grown fs ?fs3"
    unfolding grown_def
  proof
    fix p
    show "?fs3 p = fs p \<or> fs p = Missing \<and> ?fs3 p = Folder"
    proof (cases "p = q")
      case False
      have "fs2 p = fs' p \<or> fs' p = Missing \<and> fs2 p = Folder"
        "fs1 p = fs p \<or> fs p = Missing \<and> fs1 p = Folder"
        using g g1(1) unfolding grown_def by blast+
      with False fs' show ?thesis by auto
    qed (simp add: was)
  qed
  with un obtain fs4 rep' where
    "revert_all (rev es) ?fs3 (rep\<lparr>rr_reverted := rr_reverted rep @ [path_str q]\<rparr>) = Inr (fs4, rep')"
    "grown fs0 fs4" "rr_skipped rep' = rr_skipped (rep\<lparr>rr_reverted := rr_reverted rep @ [path_str q]\<rparr>)"
    unfolding undoes_def by blast
  then show "\<exists>fs3 rep'. revert_all (rev (es @ [\<lparr>fm_path = q, fm_before = pp_original patch,
        fm_after = pp_updated patch, fm_tool = t\<rparr>])) fs2 rep = Inr (fs3, rep') \<and> grown fs0 fs3
      \<and> rr_skipped rep' = rr_skipped rep"
    using read undo_entry_plain [OF pl2 q at] by simp
qed

lemma grown_plain: "grown fs fs' \<Longrightarrow> plain fs' p = plain fs p"
  by (simp add: grown_same_links same_links_plain)

lemma wrote_same_links:
  assumes "wrote patch q fs fs'"
  shows "same_links fs fs'"
proof -
  from assms obtain fs1 where g: "grown fs fs1" "fs1 q = fs q" and fs': "fs' = fs1(q := Text_File (pp_updated patch))"
    and n: "\<not> is_link (fs q)"
    by (auto simp: wrote_def split: option.splits)
  from g n fs' have "same_links fs1 fs'" by (simp add: same_links_upd)
  with grown_same_links [OF g(1)] show ?thesis by (rule same_links_trans)
qed

lemma put_pending:
  "put patch inc st = Inr (s, st') \<Longrightarrow>
     set (ps_pending st') \<subseteq> insert (pp_id patch, patch) (set (ps_pending st)) \<and> ps_journal st' = ps_journal st"
  by (auto simp: put_def split: option.splits)

lemma propose_puts:
  assumes "propose_patch c p old new why w = Inr (res, st')"
  shows "\<exists>patch inc s. put patch inc (pw_store w) = Inr (s, st') \<and> plain (pw_files w) (pp_path patch)"
proof -
  from assms obtain target where t: "resolve_in_repo (pw_files w) (pc_root c) p = Inr target"
    by (auto simp: propose_patch_def Let_def py_bind_Inr_iff)
  then have pl: "plain (pw_files w) target"
    by (auto simp: resolve_in_repo_def py_bind_Inr_iff dest: resolve_is_plain)
  from assms t obtain patch inc s where "put patch inc (pw_store w) = Inr (s, st')" "pp_path patch = target"
    by (auto simp: propose_patch_def Let_def py_bind_Inr_iff split: prod.splits)
  with pl show ?thesis by metis
qed

lemma propose_file_puts:
  assumes "propose_file c p content why w = Inr (res, st')"
  shows "\<exists>patch inc s. put patch inc (pw_store w) = Inr (s, st') \<and> plain (pw_files w) (pp_path patch)"
proof -
  from assms obtain target where t: "resolve_in_repo (pw_files w) (pc_root c) p = Inr target"
    by (auto simp: propose_file_def Let_def py_bind_Inr_iff)
  then have pl: "plain (pw_files w) target"
    by (auto simp: resolve_in_repo_def py_bind_Inr_iff dest: resolve_is_plain)
  from assms t obtain patch inc s where "put patch inc (pw_store w) = Inr (s, st')" "pp_path patch = target"
    by (auto simp: propose_file_def Let_def py_bind_Inr_iff split: prod.splits)
  with pl show ?thesis by metis
qed

lemma world_ok_put:
  assumes "world_ok fs0 w" "put patch inc (pw_store w) = Inr (s, st')" "plain (pw_files w) (pp_path patch)"
  shows "world_ok fs0 (w\<lparr>pw_store := st', pw_drawn := n\<rparr>)"
  using assms put_ok [OF assms(2)] put_pending [OF assms(2)]
  by (auto simp: world_ok_def journal_of_def)

lemma world_ok_drawn: "world_ok fs0 w \<Longrightarrow> world_ok fs0 (w\<lparr>pw_drawn := n\<rparr>)"
  by (simp add: world_ok_def journal_of_def)

lemma world_ok_proposed:
  assumes "world_ok fs0 w" and "\<And>res st'. r = Inr (res, st') \<Longrightarrow>
      \<exists>patch inc s. put patch inc (pw_store w) = Inr (s, st') \<and> plain (pw_files w) (pp_path patch)"
  shows "world_ok fs0 (snd (proposed r w))"
proof (cases r)
  case (Inr a)
  then obtain res st' where "r = Inr (res, st')" by (cases a) auto
  with assms show ?thesis by (auto simp: proposed_def intro: world_ok_put)
qed (simp add: proposed_def world_ok_drawn assms(1))

lemma world_ok_apply:
  assumes ok: "world_ok fs0 w" and ap: "apply_patch c i w = Some (r, w')"
  shows "world_ok fs0 w'"
proof (cases "pc_allow_patch c")
  case False
  with ap ok show ?thesis by (simp add: apply_patch_def)
next
  case True
  from ok have st: "patches_ok (pw_store w)" by (simp add: world_ok_def)
  show ?thesis
  proof (cases rule: take_patch_cases [OF st, of i, case_names Known Refused])
    case (Refused t)
    with ap ok True show ?thesis by (auto simp: apply_patch_def split: taken.splits)
  next
    case (Known p)
    let ?st = "(pw_store w)\<lparr>ps_pending := del_key i (ps_pending (pw_store w))\<rparr>"
    have ok1: "world_ok fs0 (w\<lparr>pw_store := ?st\<rparr>)"
      using ok del_key_ok [OF st, of i] by (simp add: world_ok_def journal_of_def)
    show ?thesis
    proof (cases "write_patch c p (pw_files w)")
      case (Inl e)
      with ap Known True ok1 show ?thesis by (auto simp: apply_patch_def)
    next
      case (Inr fs')
      from Known ok have pl: "plain (pw_files w) (pp_path p)" by (force simp: world_ok_def)
      from write_patch_wrote [OF Inr] pl have wr: "wrote p (pp_path p) (pw_files w) fs'"
        by (auto simp: wrote_def)
      from ok obtain j where j: "ps_journal (pw_store w) = Some j" by (auto simp: world_ok_def)
      from ok j have "undoes fs0 (jn_entries j) (pw_files w)" by (simp add: world_ok_def journal_of_def)
      note undoes_write [OF this pl refl wr, of "''apply_patch''"]
      moreover have "plain fs' x = plain (pw_files w) x" for x
        by (rule same_links_plain [OF wrote_same_links [OF wr]])
      moreover have "w' = w\<lparr>pw_files := fs', pw_store := journal_write p ?st\<rparr>"
        using ap Known True Inr by (simp add: apply_patch_def Let_def)
      ultimately show ?thesis using ok1 j
        by (simp add: world_ok_def journal_of_def journal_write_def record_write_def)
    qed
  qed
qed

interpretation edits: guarded_machine "edit_after c" "world_ok fs0" for c fs0
proof unfold_locales
  fix w w' e
  assume ok: "world_ok fs0 w" and step: "edit_after c e w = Inr w'"
  show "world_ok fs0 w'"
  proof (cases e)
    case (Propose_Patch p old new why)
    with step have "w' = snd (proposed (propose_patch c p old new why w) w)"
      by (auto simp: edit_after_def edit_step_def split: prod.splits)
    with world_ok_proposed [OF ok] propose_puts show ?thesis by metis
  next
    case (Propose_File p content why)
    with step have "w' = snd (proposed (propose_file c p content why w) w)"
      by (auto simp: edit_after_def edit_step_def split: prod.splits)
    with world_ok_proposed [OF ok] propose_file_puts show ?thesis by metis
  next
    case (Apply_Patch i)
    with step ok show ?thesis
      by (auto simp: edit_after_def edit_step_def split: option.splits intro: world_ok_apply)
  qed
qed

lemma apply_returns: "world_ok fs0 w \<Longrightarrow> apply_patch c i w \<noteq> None"
  by (rule take_patch_cases [of "pw_store w" i]) (auto simp: world_ok_def apply_patch_def)

lemma edit_step_returns: "world_ok fs0 w \<Longrightarrow> \<exists>r w'. edit_step c e w = Some (r, w')"
  using apply_returns by (cases e) (auto simp: edit_step_def split: prod.splits)

lemma world_ok_revert:
  assumes "world_ok fs0 w"
  shows "\<exists>rep fs'. revert (journal_of w) (pw_files w) = Inr (rep, (journal_of w)\<lparr>jn_entries := []\<rparr>, fs')
    \<and> grown fs0 fs' \<and> rr_skipped rep = []"
proof -
  let ?rep = "\<lparr>rr_reverted = [], rr_skipped = [], rr_irreversible = jn_irreversible (journal_of w)\<rparr>"
  from assms have "undoes fs0 (jn_entries (journal_of w)) (pw_files w)" by (simp add: world_ok_def)
  then obtain fs3 rep' where "revert_all (rev (jn_entries (journal_of w))) (pw_files w) ?rep = Inr (fs3, rep')"
      "grown fs0 fs3" "rr_skipped rep' = rr_skipped ?rep"
    using grown_refl unfolding undoes_def by blast
  then show ?thesis by (simp add: revert_def)
qed

end
