(* ===== verification/Patch_Properties.thy ===== *)
theory Patch_Properties
  imports Patch_Invariants Run_Invariants
begin

text \<open>
  The properties of editing: the patch store answers and keeps one proposal per file, only
  what was shown reaches the files, the journal restores them, and any batch of tool calls
  through the orchestrator can be undone.
\<close>

section \<open>Tools that keep an invariant of the world\<close>

locale keeping_tools =
  fixes c :: "'w orch" and keeps :: "'w \<Rightarrow> bool"
  assumes handler_keeps: "t \<in> set (o_registry c) \<Longrightarrow> keeps w \<Longrightarrow> keeps (snd (tool_handler t args w))"
begin

lemma execute_keeps:
  assumes "execute_base c sp call r = Inr (x, r')" "keeps (r_world r)"
  shows "keeps (r_world r')"
  using assms(1)
proof (cases rule: execute_base_cases)
  case (undecided rec)
  with assms(2) show ?thesis by (simp add: appended_def)
next
  case (ran t vd r1)
  from ran(2) have "r_world r' = snd (tool_handler t (call_arguments call) (r_world r))"
    by (rule run_handler_appends) (simp add: ran(4))
  moreover from ran(1) have "t \<in> set (o_registry c)"
    by (auto simp: cleared_call_def lookup_tool_def dest: registry_get_name split: sum.splits if_splits)
  ultimately show ?thesis using assms(2) by (simp add: handler_keeps)
qed

end

sublocale keeping_tools \<subseteq> kept_run: guarded_machine "work c sp" "\<lambda>r. keeps (r_world r)" for sp
  by unfold_locales (auto elim!: workE intro: execute_keeps)

context keeping_tools
begin

lemma batch_keeps: "execute_all c sp calls r = Inr r' \<Longrightarrow> keeps (r_world r) \<Longrightarrow> keeps (r_world r')"
  by (auto dest: execute_all_run_ops intro: kept_run.run_inv)

end

section \<open>The store of proposals\<close>

definition store_after :: "patch_op list \<Rightarrow> patch_store" where
  "store_after ops = run_ops patch_step ops (empty_patches None)"

lemma store_after_ok: "patches_ok (store_after ops)"
  unfolding store_after_def by (rule proposals.run_inv) simp

lemma chase_ends: "forward es \<Longrightarrow> r \<notin> fst ` set pre \<Longrightarrow> forward (pre @ es) \<Longrightarrow> fst (chase es r inc) \<notin> fst ` set (pre @ es)"
proof (induction es arbitrary: pre r inc)
  case (Cons e es)
  obtain k r' c where e: "e = (k, r', c)" by (cases e)
  have fw: "forward ((pre @ [e]) @ es)" using Cons.prems(3) by simp
  have "r' \<notin> fst ` set (pre @ [e])" using Cons.prems(3) e by (induction pre) auto
  then show ?case
    using Cons.IH [OF _ _ fw] Cons.prems e by (cases "k = r") auto
qed simp

text \<open>C16: Looking up a superseded patch always ends.  However proposals were stored, replaced and
  taken, and under whatever ids, the walk along replacements returns, and what it returns is
  the id a single pass over the chain in the order it grew ends on: one that nothing
  replaced.\<close>
theorem superseded_walk_ends:
  "follow (ps_superseded (store_after ops)) i inc = Some (chase (ps_superseded (store_after ops)) i inc)
   \<and> fst (chase (ps_superseded (store_after ops)) i inc) \<notin> fst ` set (ps_superseded (store_after ops))"
proof -
  have fw: "forward (ps_superseded (store_after ops))"
    using store_after_ok [of ops] by (simp add: patches_ok_def)
  have "fst (chase (ps_superseded (store_after ops)) i inc) \<notin> fst ` set ([] @ ps_superseded (store_after ops))"
    by (rule chase_ends [OF fw]) (simp_all only: append_Nil fw list.set image_empty empty_iff not_False_eq_True)
  with follow_is_chase [OF fw] show ?thesis by (intro conjI) (simp_all only: append_Nil not_False_eq_True)
qed

text \<open>One live proposal per file, one answer per id.  However proposals were stored and taken,
  no two pending proposals are for the same file, and asking for an id hands out the proposal
  pending under it, which is then gone, or refuses because nothing is pending under it.\<close>
theorem one_live_proposal_per_file:
  "distinct (map (pp_path \<circ> snd) (ps_pending (store_after ops))) \<and>
   (case take_patch i (store_after ops) of
      None \<Rightarrow> False
    | Some (Taken p st) \<Rightarrow>
        (i, p) \<in> set (ps_pending (store_after ops)) \<and> i \<notin> fst ` set (ps_pending st) \<and> pending_for (pp_path p) st = None
    | Some _ \<Rightarrow> i \<notin> fst ` set (ps_pending (store_after ops)))"
proof -
  have ok: "patches_ok (store_after ops)" by (rule store_after_ok)
  then have d: "distinct (map (pp_path \<circ> snd) (ps_pending (store_after ops)))" by (simp add: patches_ok_def)
  show ?thesis
  proof (cases rule: take_patch_cases [OF ok, of i, case_names Known Refused])
    case (Known p)
    have "pending_for (pp_path p) ((store_after ops)\<lparr>ps_pending := del_key i (ps_pending (store_after ops))\<rparr>) = None"
      using pending_unique [OF ok Known(2)] by (force simp: pending_for_None)
    with d Known show ?thesis by auto
  next
    case (Refused t)
    then show ?thesis using d by (auto split: taken.splits)
  qed
qed

section \<open>Writes\<close>

definition unprotected :: "patch_ctx \<Rightarrow> files \<Rightarrow> path \<Rightarrow> bool" where
  \<comment> \<open>not a Git attributes file, and outside the build, the run and the Git directory\<close>
  "unprotected c fs q \<longleftrightarrow> last_name q \<noteq> ''.gitattributes'' \<and>
     (\<forall>name \<in> set (protected_names c). \<forall>r g. name \<noteq> [] \<longrightarrow> resolve fs (pc_root c) = Inr r \<longrightarrow>
        resolve fs (join_path r name) = Inr g \<longrightarrow> \<not> inside g q)"

lemma guards_hold_Inr:
  "guards_hold fs r q names = Inr u \<Longrightarrow> name \<in> set names \<Longrightarrow> name \<noteq> [] \<Longrightarrow>
     resolve fs (join_path r name) = Inr g \<Longrightarrow> \<not> inside g q"
  by (induction names) (auto simp: py_bind_Inr_iff split: if_splits)

lemma writable_unprotected:
  "assert_writable fs (pc_root c) target (protected_names c) = Inr q \<Longrightarrow> unprotected c fs q"
  by (auto simp: assert_writable_def unprotected_def py_bind_Inr_iff dest: guards_hold_Inr)

text \<open>C13: Only what was shown reaches the files.  Whatever an edit call was and whatever others did
  to the files meanwhile: when the files differ after it, the call applied a proposal that was
  pending under that id, applying patches is enabled, the one file written now holds the
  proposed text and held (or lacked) exactly what the diff was computed from, it is not
  protected, and apart from folders made for a new file nothing else changed.  The proposal
  is then gone, so it is never written twice.\<close>
theorem only_shown_edits_reach_files:
  assumes "edit_step c e w = Some (r, w')" "pw_files w' \<noteq> pw_files w" "patches_ok (pw_store w)"
  shows "\<exists>i p q. e = Apply_Patch i \<and> pc_allow_patch c \<and> (i, p) \<in> set (ps_pending (pw_store w))
    \<and> i \<notin> fst ` set (ps_pending (pw_store w')) \<and> wrote p q (pw_files w) (pw_files w')
    \<and> unprotected c (pw_files w) q"
proof (cases e)
  case (Apply_Patch i)
  with assms have ap: "apply_patch c i w = Some (r, w')" by (simp add: edit_step_def)
  with assms(2) have on: "pc_allow_patch c" by (auto simp: apply_patch_def split: if_splits)
  show ?thesis
  proof (cases rule: take_patch_cases [OF assms(3), of i, case_names Known Refused])
    case (Known p)
    have gone: "i \<notin> fst ` set (del_key i (ps_pending (pw_store w)))" by auto
    from Known ap on assms(2) obtain fs' where wp: "write_patch c p (pw_files w) = Inr fs'" and "pw_files w' = fs'"
        "ps_pending (pw_store w') = del_key i (ps_pending (pw_store w))"
      by (auto simp: apply_patch_def journal_write_def Let_def split: sum.splits)
    with write_patch_wrote [OF wp] Known(2) on Apply_Patch gone show ?thesis
      by (metis writable_unprotected)
  next
    case (Refused t)
    with ap on assms(2) show ?thesis by (auto simp: apply_patch_def split: taken.splits)
  qed
qed (use assms in \<open>auto simp: edit_step_def proposed_def split: sum.splits\<close>)

section \<open>A small repository\<close>

definition demo_edit_ctx :: patch_ctx where
  "demo_edit_ctx = \<lparr>pc_root = [''r''], pc_build_dir = ''build'', pc_run_dir = ''runs'', pc_allow_patch = True,
     pc_uuid = (\<lambda>n. ''0000000'' @ nat_str n), pc_diff = (\<lambda>_ _ _ _. ''''),
     pc_message = (\<lambda>_. ''''), pc_class = (\<lambda>_. '''')\<rparr>"

definition demo_files :: files where
  "demo_files = (\<lambda>_. Missing)([''r''] := Folder, [''r'', ''a.c''] := Text_File ''x=1;'', [''out''] := Folder)"

definition demo_edits :: "edit_call list" where
  "demo_edits = [Propose_Patch ''a.c'' ''1'' ''2'' '''', Apply_Patch ''p00000000'',
     Propose_File ''d/b.c'' ''y'' '''', Apply_Patch ''p00000001'']"

definition demo_edited :: patch_world where
  "demo_edited = run_ops (edit_after demo_edit_ctx) demo_edits (new_world demo_files)"

theorem only_shown_edits_reach_files_witness:
  "\<exists>r w' i p q. edit_step demo_edit_ctx (Apply_Patch ''p00000000'')
        (run_ops (edit_after demo_edit_ctx) [Propose_Patch ''a.c'' ''1'' ''2'' ''''] (new_world demo_files)) = Some (r, w')
      \<and> pw_files w' [''r'', ''a.c''] = Text_File ''x=2;'' \<and> Apply_Patch ''p00000000'' = Apply_Patch i
      \<and> wrote p q (pw_files (new_world demo_files)) (pw_files w')"
proof -
  let ?w = "run_ops (edit_after demo_edit_ctx) [Propose_Patch ''a.c'' ''1'' ''2'' ''''] (new_world demo_files)"
  have files: "pw_files ?w = demo_files"
    by (simp add: after_op_def edit_after_def edit_step_def proposed_def new_world_def split: sum.splits)
  have "case edit_step demo_edit_ctx (Apply_Patch ''p00000000'') ?w of None \<Rightarrow> False
      | Some (r, w') \<Rightarrow> pw_files w' [''r'', ''a.c''] = Text_File ''x=2;''" by code_simp
  then obtain r w' where step: "edit_step demo_edit_ctx (Apply_Patch ''p00000000'') ?w = Some (r, w')"
      and new: "pw_files w' [''r'', ''a.c''] = Text_File ''x=2;''"
    by (auto split: option.splits)
  have "demo_files [''r'', ''a.c''] \<noteq> Text_File ''x=2;''" by (simp add: demo_files_def)
  with new files have "pw_files w' \<noteq> pw_files ?w" by metis
  moreover have "world_ok demo_files ?w" by (rule edits.run_inv [OF world_ok_new])
  then have "patches_ok (pw_store ?w)" by (simp only: world_ok_def)
  ultimately obtain i p q where "Apply_Patch ''p00000000'' = Apply_Patch i" "wrote p q (pw_files ?w) (pw_files w')"
    using only_shown_edits_reach_files [OF step] by blast
  moreover have "pw_files (new_world demo_files) = demo_files" by (simp add: new_world_def)
  ultimately show ?thesis using step new files by metis
qed

section \<open>Undoing a run\<close>

text \<open>C14: The journal restores the files.  Take any files and any script of edit calls, in any
  order, with any arguments, some of them refused: reverting afterwards does not raise, skips
  nothing, empties the journal, and every path holds what it held before the script; all that
  may remain are folders made for new files.\<close>
theorem journal_restores_files:
  "case revert (journal_of (run_ops (edit_after c) es (new_world fs))) (pw_files (run_ops (edit_after c) es (new_world fs)))
   of Inl _ \<Rightarrow> False
    | Inr (rep, j, fs') \<Rightarrow> rr_skipped rep = [] \<and> jn_entries j = [] \<and> grown fs fs'"
  using world_ok_revert [OF edits.run_inv [OF world_ok_new, of fs c es]] by auto

lemma undo_entry_frame:
  assumes "undo_entry e fs = Inr fs'" "read_bytes fs (fm_path e) = Inr (Text_File (fm_after e))"
    and "\<not> is_link (fs q)" "fs q \<noteq> Text_File (fm_after e)" "''..'' \<notin> set q"
  shows "fs' q = fs q"
proof -
  from assms(2) obtain t where t: "real_walk fs [] (fm_path e) = Some t" "t \<noteq> []" "fs t = Text_File (fm_after e)"
    by (auto simp: read_bytes_def node_at_def split: if_splits option.splits)
  show ?thesis
  proof (cases "fm_before e")
    case (Some s)
    with assms(1) write_text_Inr [of fs "fm_path e" s fs'] t assms(4) show ?thesis
      by (auto simp: undo_entry_def)
  next
    case None
    with assms(1) obtain d where d: "real_walk fs [] (butlast (fm_path e)) = Some d"
        "fs' = fs(d @ [last (fm_path e)] := Missing)"
      by (auto simp: undo_entry_def unlink_def entry_of_def split: option.splits)
    from t have ne: "fm_path e \<noteq> []" by (cases "fm_path e") auto
    show ?thesis
    proof (cases "q = d @ [last (fm_path e)]")
      case True
      from real_walk_append [OF d(1), of "[last (fm_path e)]"] ne
      have "real_walk fs [] (fm_path e) = real_walk fs d [last (fm_path e)]" by simp
      also have "\<dots> = Some q"
        using True assms(3,5) by (cases "fs q") auto
      finally show ?thesis using t assms(4) by simp
    qed (simp add: d)
  qed
qed

lemma revert_all_frame:
  assumes "revert_all es fs rep = Inr (fs', rep')" "\<not> is_link (fs q)" "''..'' \<notin> set q"
    and "\<forall>e \<in> set es. fs q \<noteq> Text_File (fm_after e)"
  shows "fs' q = fs q"
  using assms
proof (induction es fs rep rule: revert_all.induct)
  case (2 e es fs rep)
  show ?case
  proof (cases "read_bytes fs (fm_path e)")
    case (Inl x)
    with 2 show ?thesis by simp
  next
    case (Inr current)
    show ?thesis
    proof (cases "current = Text_File (fm_after e)")
      case False
      with 2 Inr show ?thesis by simp
    next
      case True
      with 2(4) Inr obtain fs1 where u: "undo_entry e fs = Inr fs1"
          "revert_all es fs1 (rep\<lparr>rr_reverted := rr_reverted rep @ [path_str (fm_path e)]\<rparr>) = Inr (fs', rep')"
        by (auto simp: py_bind_Inr_iff)
      have same: "fs1 q = fs q"
        by (rule undo_entry_frame [OF u(1)]) (use Inr True 2(5-7) in auto)
      have "fs' q = fs1 q"
        by (rule 2(3) [OF Inr _ u(2)]) (use True same 2(5-7) in auto)
      with same show ?thesis by simp
    qed
  qed
qed simp

text \<open>Nobody else's work is undone.  Whatever others did to the files since: a path that holds
  anything but the very text some journalled write put into a file is left as it is by a
  revert that returns, and the journal is emptied only when no entry was skipped.\<close>
theorem revert_spares_foreign_changes:
  assumes "revert j fs = Inr (rep, j', fs')"
    and "\<not> is_link (fs q)" "''..'' \<notin> set q" "\<forall>e \<in> set (jn_entries j). fs q \<noteq> Text_File (fm_after e)"
  shows "fs' q = fs q \<and> (jn_entries j' = [] \<longleftrightarrow> rr_skipped rep = [] \<or> jn_entries j = [])"
  using assms revert_all_frame [of "rev (jn_entries j)" fs _ fs' _ q]
  by (auto simp: revert_def py_bind_Inr_iff split: if_splits)

theorem revert_spares_foreign_changes_witness:
  "\<exists>rep j' fs'. revert (journal_of demo_edited) ((pw_files demo_edited)([''r'', ''a.c''] := Text_File ''mine'')) = Inr (rep, j', fs')
     \<and> fs' [''r'', ''a.c''] = Text_File ''mine'' \<and> jn_entries j' \<noteq> []"
proof -
  let ?fs = "(pw_files demo_edited)([''r'', ''a.c''] := Text_File ''mine'')"
  have "returns (\<lambda>(rep, j', fs'). rr_skipped rep \<noteq> []) (revert (journal_of demo_edited) ?fs)" by code_simp
  then obtain rep j' fs' where rv: "revert (journal_of demo_edited) ?fs = Inr (rep, j', fs')" and sk: "rr_skipped rep \<noteq> []"
    by (auto elim!: returnsE)
  have es: "map fm_after (jn_entries (journal_of demo_edited)) = [''x=2;'', ''y'']" by code_simp
  then have "\<forall>e \<in> set (jn_entries (journal_of demo_edited)). ?fs [''r'', ''a.c''] \<noteq> Text_File (fm_after e)"
    by (auto simp: map_eq_Cons_conv)
  from revert_spares_foreign_changes [OF rv _ _ this] sk rv es show ?thesis by auto
qed

section \<open>Editing through the orchestrator\<close>

definition reader_tool :: "string \<times> pyval \<times> (pydict \<Rightarrow> patch_world \<Rightarrow> handler_outcome) \<Rightarrow> patch_world tool" where
  \<comment> \<open>a tool that only looks\<close>
  "reader_tool x = (case x of (n, params, f) \<Rightarrow>
     \<lparr>tool_name = n, tool_parameters = params, tool_risk = READ, tool_handler = (\<lambda>args w. (f args w, w))\<rparr>)"

definition edit_orch ::
  "policy \<Rightarrow> string list \<Rightarrow> (patch_world tool \<Rightarrow> pydict \<Rightarrow> decision \<Rightarrow> bool) \<Rightarrow> (patch_world \<Rightarrow> rat)
   \<Rightarrow> patch_ctx \<Rightarrow> (string \<Rightarrow> pyval) \<Rightarrow> (string \<times> pyval \<times> (pydict \<Rightarrow> patch_world \<Rightarrow> handler_outcome)) list
   \<Rightarrow> patch_world orch" where
  "edit_orch pol skills approve clock ctx schema readers =
     \<lparr>o_policy = pol, o_registry = edit_tools ctx schema @ map reader_tool readers,
      o_skill_names = skills, o_approval = approve, o_clock = clock\<rparr>"

lemma edit_handler_ok: "world_ok fs0 w \<Longrightarrow> world_ok fs0 (snd (edit_handler c n args w))"
proof -
  assume ok: "world_ok fs0 w"
  show ?thesis
  proof (cases "edit_of n args")
    case None
    with ok show ?thesis by (simp add: edit_handler_def)
  next
    case (Some e)
    from edit_step_returns [OF ok] obtain r w' where st: "edit_step c e w = Some (r, w')" by blast
    then have "edit_after c e w = Inr w'" by (simp add: edit_after_def)
    from edits.step_inv [OF ok this] st Some show ?thesis by (simp add: edit_handler_def)
  qed
qed

interpretation edit_run: keeping_tools "edit_orch pol skills approve clock ctx schema readers" "world_ok fs0"
  for pol skills approve clock ctx schema readers fs0
proof unfold_locales
  fix t w args
  assume "t \<in> set (o_registry (edit_orch pol skills approve clock ctx schema readers))" "world_ok fs0 w"
  then show "world_ok fs0 (snd (tool_handler t args w))"
    by (auto simp: edit_orch_def edit_tools_def reader_tool_def edit_handler_ok)
qed

text \<open>C15: A run's edits can be undone whatever the model called.  Let the orchestrator, with the
  editing tools and any tools that only look, any policy and any approvals, run any batch of
  calls with any arguments from a fresh journal: reverting the journal afterwards skips
  nothing and gives back the files as they were, but for folders made for new files.\<close>
theorem batch_of_edits_can_be_undone:
  assumes "execute_all (edit_orch pol skills approve clock ctx schema readers) sp calls r = Inr r'"
    and "r_world r = new_world fs"
  shows "\<exists>rep j fs'. revert (journal_of (r_world r')) (pw_files (r_world r')) = Inr (rep, j, fs')
    \<and> rr_skipped rep = [] \<and> jn_entries j = [] \<and> grown fs fs'"
proof -
  have "world_ok fs (r_world r)" using assms(2) world_ok_new by simp
  from world_ok_revert [OF edit_run.batch_keeps [OF assms(1) this]] show ?thesis by auto
qed

definition demo_edit_orch :: "patch_world orch" where
  "demo_edit_orch = edit_orch (default_policy\<lparr>allow_patch := True\<rparr>) [] (\<lambda>_ _ _. True) (\<lambda>_. 0) demo_edit_ctx
     (\<lambda>_. PDict []) []"

definition demo_edit_calls :: "tool_call list" where
  "demo_edit_calls = map (\<lambda>(n, a). \<lparr>call_id = ''1'', call_name = \<lparr>cn_text = n, cn_validation_error = None\<rparr>,
       call_arguments = a\<rparr>)
     [(''propose_patch'', [(''path'', PStr ''a.c''), (''find'', PStr ''1''), (''replace'', PStr ''2'')]),
      (''apply_patch'', [(''patch_id'', PStr ''p00000000'')])]"

theorem batch_of_edits_can_be_undone_witness:
  "\<exists>r' rep j fs'. execute_all demo_edit_orch False demo_edit_calls
        \<lparr>r_state = new_state, r_world = new_world demo_files, r_events = []\<rparr> = Inr r'
     \<and> pw_files (r_world r') [''r'', ''a.c''] = Text_File ''x=2;''
     \<and> revert (journal_of (r_world r')) (pw_files (r_world r')) = Inr (rep, j, fs')
     \<and> fs' [''r'', ''a.c''] = Text_File ''x=1;''"
proof -
  let ?r = "\<lparr>r_state = new_state, r_world = new_world demo_files, r_events = []\<rparr>"
  have "returns (\<lambda>r'. pw_files (r_world r') [''r'', ''a.c''] = Text_File ''x=2;'')
      (execute_all demo_edit_orch False demo_edit_calls ?r)" by code_simp
  then obtain r' where ex: "execute_all demo_edit_orch False demo_edit_calls ?r = Inr r'"
      and new: "pw_files (r_world r') [''r'', ''a.c''] = Text_File ''x=2;''" by (rule returnsE)
  from batch_of_edits_can_be_undone [OF ex [unfolded demo_edit_orch_def], of demo_files]
  obtain rep j fs' where "revert (journal_of (r_world r')) (pw_files (r_world r')) = Inr (rep, j, fs')"
      and "grown demo_files fs'" by auto
  moreover from grown_keeps [OF this(2), of "[''r'', ''a.c'']"] have "fs' [''r'', ''a.c''] = Text_File ''x=1;''"
    by (simp add: demo_files_def)
  ultimately show ?thesis using ex new by blast
qed

section \<open>A folder swapped for a link\<close>

definition folders_exist :: "files \<Rightarrow> path \<Rightarrow> bool" where
  \<comment> \<open>every folder on the way, through the links there are\<close>
  "folders_exist fs d \<longleftrightarrow> ''..'' \<notin> set d \<and> (\<forall>n \<le> length d. is_dir fs (take n d))"

lemma make_folders_id:
  assumes "plain fs d" and "''..'' \<notin> set cs"
    and "\<forall>n \<le> length cs. \<exists>q. real_walk fs d (take n cs) = Some q \<and> (q = [] \<or> fs q = Folder)"
  shows "make_folders fs d cs = Inr fs"
  using assms
proof (induction cs arbitrary: d)
  case (Cons c cs)
  have walk: "real_walk fs d [c] = real_walk fs [] (d @ [c])"
    using real_walk_append [OF real_walk_plain [OF Cons.prems(1)], of "[c]"] by simp
  have "1 \<le> length (c # cs)" by simp
  with Cons.prems(3) obtain q where "real_walk fs d (take 1 (c # cs)) = Some q" and dir: "q = [] \<or> fs q = Folder"
    by blast
  then have q: "real_walk fs d [c] = Some q" by simp
  with walk have q0: "real_walk fs [] (d @ [c]) = Some q" by simp
  then have plain: "plain fs q" by (rule real_walk_is_plain) simp
  have "\<exists>r. real_walk fs q (take n cs) = Some r \<and> (r = [] \<or> fs r = Folder)" if "n \<le> length cs" for n
  proof -
    from that have "Suc n \<le> length (c # cs)" by simp
    with Cons.prems(3) obtain r where r: "real_walk fs d (take (Suc n) (c # cs)) = Some r" "r = [] \<or> fs r = Folder"
      by blast
    have "take (Suc n) (c # cs) = [c] @ take n cs" by simp
    with r(1) real_walk_append [OF q, of "take n cs"] have "real_walk fs q (take n cs) = Some r" by metis
    with r(2) show ?thesis by blast
  qed
  with Cons.IH [OF plain] Cons.prems(2) have rest: "make_folders fs q cs = Inr fs" by simp
  from Cons.prems(2) have "c \<noteq> ''..''" by auto
  with q dir rest q0 show ?case by (cases "fs (d @ [c])") auto
qed simp

lemma folders_exist_make: "folders_exist fs d \<Longrightarrow> make_folders fs [] d = Inr fs"
  by (rule make_folders_id)
    (auto simp: folders_exist_def is_dir_def node_at_def split: option.splits if_splits)

lemma guards_hold_outside:
  "(\<And>g. g \<in> set names \<Longrightarrow> g \<noteq> [] \<Longrightarrow> \<exists>q. resolve fs (join_path base g) = Inr q \<and> \<not> inside q p) \<Longrightarrow>
   guards_hold fs base p names = Inr ()"
proof (induction names)
  case (Cons g gs)
  then have "guards_hold fs base p gs = Inr ()" by simp
  with Cons.prems [of g] show ?case by (cases "g = []") auto
qed simp

text \<open>C17: the write follows a folder that was swapped for a link. A new file was proposed at a path
  inside the root; before it is applied, some folder of that path became a link, and the path's
  folder now resolves to an existing one outside. If the resolved place is free and under no
  protected folder, the second check of \<open>apply_patch\<close> does not refuse it: the call succeeds and the
  file is written outside the repository root.\<close>

theorem apply_follows_a_swapped_folder:
  assumes allowed: "pc_allow_patch c"
    and taken: "take_patch i (pw_store w) = Some (Taken patch st)" "pp_original patch = None"
    and inside_root: "resolve (pw_files w) (pc_root c) = Inr base" "pp_path patch = d @ [name]"
      "inside base (d @ [name])"
    and swapped: "folders_exist (pw_files w) d" "resolve (pw_files w) d = Inr out"
      "\<not> inside base (out @ [name])"
    and free: "pw_files w (out @ [name]) = Missing" "name \<noteq> ''..''" "name \<noteq> ''.gitattributes''"
    and unguarded: "\<And>g. g \<in> set (protected_names c) \<Longrightarrow> g \<noteq> [] \<Longrightarrow>
      \<exists>q. resolve (pw_files w) (join_path base g) = Inr q \<and> \<not> inside q (out @ [name])"
  shows "\<exists>res w'. apply_patch c i w = Some (Inr res, w')
    \<and> pw_files w' = (pw_files w)(out @ [name] := Text_File (pp_updated patch))
    \<and> inside base (pp_path patch) \<and> \<not> inside base (out @ [name])"
proof -
  let ?fs = "pw_files w"
  from swapped(2) have out: "real_walk ?fs [] d = Some out" by (simp add: resolve_def split: option.splits)
  have walk: "real_walk ?fs [] (d @ [name]) = Some (out @ [name])"
    using real_walk_append [OF out, of "[name]"] free by simp
  have dir: "out = [] \<or> ?fs out = Folder"
    using swapped(1) out by (auto simp: folders_exist_def is_dir_def node_at_def split: if_splits)
  have "assert_writable ?fs (pc_root c) (d @ [name]) (protected_names c) = Inr (out @ [name])"
    using walk inside_root(1) free(3) guards_hold_outside [OF unguarded]
    by (simp add: assert_writable_def resolve_def last_name_def)
  moreover have "\<not> path_exists ?fs (d @ [name])" "\<not> is_symlink ?fs (d @ [name])"
    using walk out free(1) by (simp_all add: path_exists_def node_at_def is_symlink_def entry_of_def)
  moreover have "write_text ?fs (d @ [name]) (pp_updated patch)
      = Inr (?fs(out @ [name] := Text_File (pp_updated patch)))"
    using walk free(1) dir by (simp add: write_text_def node_at_def)
  ultimately have "write_patch c patch ?fs = Inr (?fs(out @ [name] := Text_File (pp_updated patch)))"
    using taken(2) inside_root(2) folders_exist_make [OF swapped(1)] by (simp add: write_patch_def)
  with allowed taken inside_root swapped(3) show ?thesis by (simp add: apply_patch_def Let_def)
qed

definition swapped_world :: patch_world where
  \<comment> \<open>a new file is proposed in the folder \<open>d\<close>; then \<open>d\<close> becomes a link to \<open>/out\<close>\<close>
  "swapped_world =
     (run_ops (edit_after demo_edit_ctx) [Propose_File ''d/b.c'' ''y'' ''''] (new_world demo_files))
       \<lparr>pw_files := demo_files([''r'', ''d''] := Link [''out''])\<rparr>"

theorem apply_follows_a_swapped_folder_witness:
  "\<exists>res w'. apply_patch demo_edit_ctx ''p00000000'' swapped_world = Some (Inr res, w')
    \<and> pw_files w' [''out'', ''b.c''] = Text_File ''y'' \<and> \<not> inside [''r''] [''out'', ''b.c'']"
proof -
  let ?fs = "pw_files swapped_world"
  have "case take_patch ''p00000000'' (pw_store swapped_world) of
      Some (Taken patch st) \<Rightarrow> pp_original patch = None \<and> pp_path patch = [''r'', ''d'', ''b.c''] \<and> pp_updated patch = ''y''
    | _ \<Rightarrow> False" by code_simp
  then obtain patch st where t: "take_patch ''p00000000'' (pw_store swapped_world) = Some (Taken patch st)"
      "pp_original patch = None" "pp_path patch = [''r'', ''d''] @ [''b.c'']" "pp_updated patch = ''y''"
    by (auto split: option.splits taken.splits)
  have fs: "?fs = demo_files([''r'', ''d''] := Link [''out''])" by (simp add: swapped_world_def)
  have r: "resolve ?fs (pc_root demo_edit_ctx) = Inr [''r'']" "resolve ?fs [''r'', ''d''] = Inr [''out'']"
      "?fs ([''out''] @ [''b.c'']) = Missing"
    by (simp_all add: fs resolve_def demo_edit_ctx_def demo_files_def)
  have e: "folders_exist ?fs [''r'', ''d'']"
    by (auto simp: fs folders_exist_def is_dir_def node_at_def demo_files_def le_Suc_eq)
  have g: "\<exists>q. resolve ?fs (join_path [''r''] g) = Inr q \<and> \<not> inside q ([''out''] @ [''b.c''])"
    if "g \<in> set (protected_names demo_edit_ctx)" for g
    using that by (auto simp: fs protected_names_def demo_edit_ctx_def join_path_def is_absolute_def path_parts_def
        resolve_def demo_files_def inside_def)
  have "\<exists>res w'. apply_patch demo_edit_ctx ''p00000000'' swapped_world = Some (Inr res, w')
    \<and> pw_files w' = ?fs([''out''] @ [''b.c''] := Text_File (pp_updated patch))
    \<and> inside [''r''] (pp_path patch) \<and> \<not> inside [''r''] ([''out''] @ [''b.c''])"
    by (rule apply_follows_a_swapped_folder [OF _ t(1,2) r(1) t(3) _ e r(2) _ r(3) _ _ g])
      (simp_all add: demo_edit_ctx_def inside_def)
  then obtain res w' where "apply_patch demo_edit_ctx ''p00000000'' swapped_world = Some (Inr res, w')"
    "pw_files w' = ?fs([''out''] @ [''b.c''] := Text_File (pp_updated patch))" by blast
  with t(4) show ?thesis by (auto simp: inside_def)
qed

end
