(* ===== verification/Candidate_Facts.thy ===== *)
theory Candidate_Facts
  imports Json_Codec
begin

text \<open>
  \<open>session/candidate_facts.py\<close>: the candidate block of a retained task result, its strict
  reader, its projection from the controller's typed metrics and the receipt a successful
  candidate action must carry.
\<close>

section \<open>Identifiers\<close>

definition hex_digit_of :: "char \<Rightarrow> nat" where
  "hex_digit_of c = (case hex_value c of None \<Rightarrow> 0 | Some d \<Rightarrow> d)"

fun hex_digits :: "nat \<Rightarrow> nat \<Rightarrow> string" where
  \<comment> \<open>\<open>n\<close> hex digits, leading zeros kept\<close>
  "hex_digits 0 v = []"
| "hex_digits (Suc n) v = hex_digits n (v div 16) @ [hex_char (v mod 16)]"

definition uuid_number :: "string \<Rightarrow> nat" where
  \<comment> \<open>\<open>int(hex, 16)\<close> of the digits \<open>UUID(s)\<close> keeps\<close>
  "uuid_number s =
     (let h = py_strip (remove_char (CHR ''-'') (strip_chars ''{}'' (remove_sub ''uuid:'' (remove_sub ''urn:'' s))));
          u = (if take 1 h = ''+'' then drop 1 h else h);
          ds = filter is_hex (if take 2 u = ''0x'' \<or> take 2 u = ''0X'' then drop 2 u else u)
      in foldl (\<lambda>n c. 16 * n + hex_digit_of c) 0 ds)"

definition uuid_text :: "string \<Rightarrow> string py" where
  \<comment> \<open>\<open>str(UUID(s))\<close>\<close>
  "uuid_text s =
     py_check (\<not> uuid_ok s) ValueError (
       let h = hex_digits 32 (uuid_number s)
       in Inr (take 8 h @ ''-'' @ take 4 (drop 8 h) @ ''-'' @ take 4 (drop 12 h) @ ''-''
               @ take 4 (drop 16 h) @ ''-'' @ drop 20 h))"

definition canonical_uuid :: "pyval \<Rightarrow> string py" where
  "canonical_uuid v =
     (case v of
        PStr s \<Rightarrow> py_bind (uuid_text s) (\<lambda>c. py_check (c \<noteq> s) ValueError (Inr c))
      | _ \<Rightarrow> Inl ValueError)"

definition git_oid :: "string \<Rightarrow> bool" where
  "git_oid s \<longleftrightarrow> (length s = 40 \<or> length s = 64) \<and> list_all is_lower_hex s"

definition oid_of :: "pyval \<Rightarrow> string option" where
  "oid_of v = (case v of PStr s \<Rightarrow> if git_oid s then Some s else None | _ \<Rightarrow> None)"

section \<open>The facts\<close>

definition ROLES :: "string list" where
  "ROLES = [''prepared'', ''reviewed'', ''applied'', ''apply_refused'', ''undone'', ''committed'', ''discarded'']"

definition OWNED_ACTION_ROLES :: "(string \<times> string) list" where
  "OWNED_ACTION_ROLES =
     [(''diff-candidate'', ''reviewed''), (''apply-candidate'', ''applied''),
      (''undo-candidate'', ''undone''), (''commit-candidate'', ''committed'')]"

definition candidate_keys :: "string list" where
  "candidate_keys =
     [''role'', ''candidate_task_id'', ''retained'', ''paths'', ''patch_sha256'', ''base_commit'', ''commit'']"

definition MAX_PATHS :: nat where "MAX_PATHS = 512"

record candidate_facts =
  cf_role :: string
  cf_task :: string
  cf_retained :: bool
  cf_paths :: "string list"
  cf_patch :: "string option"
  cf_base :: "string option"
  cf_commit :: "string option"

definition str_or_none :: "string option \<Rightarrow> pyval" where
  "str_or_none s = (case s of None \<Rightarrow> PNone | Some t \<Rightarrow> PStr t)"

definition candidate_payload :: "candidate_facts \<Rightarrow> pydict" where
  "candidate_payload f =
     [(''role'', PStr (cf_role f)), (''candidate_task_id'', PStr (cf_task f)), (''retained'', PBool (cf_retained f)),
      (''paths'', PList (map PStr (cf_paths f))), (''patch_sha256'', str_or_none (cf_patch f)),
      (''base_commit'', str_or_none (cf_base f)), (''commit'', str_or_none (cf_commit f))]"

definition opt_text :: "(string \<Rightarrow> bool) \<Rightarrow> pyval \<Rightarrow> string option py" where
  \<comment> \<open>null, or a text of the pattern\<close>
  "opt_text ok v =
     (case v of PNone \<Rightarrow> Inr None | PStr s \<Rightarrow> if ok s then Inr (Some s) else Inl ValueError | _ \<Rightarrow> Inl ValueError)"

definition path_texts :: "pyval \<Rightarrow> string list py" where
  "path_texts v =
     (case v of
        PList xs \<Rightarrow>
          py_check (length xs > MAX_PATHS) ValueError (
          py_check (\<exists>x \<in> set xs. case x of PStr s \<Rightarrow> s = [] \<or> length s > 4096 | _ \<Rightarrow> True) ValueError (
            Inr (map py_str xs)))
      | _ \<Rightarrow> Inl ValueError)"

definition role_of :: "pyval \<Rightarrow> string py" where
  \<comment> \<open>\<open>role not in ROLES\<close>: an unhashable role is a TypeError\<close>
  "role_of v =
     (case v of PStr s \<Rightarrow> if s \<in> set ROLES then Inr s else Inl ValueError
      | PList _ \<Rightarrow> Inl TypeError | PDict _ \<Rightarrow> Inl TypeError | _ \<Rightarrow> Inl ValueError)"

definition validate_candidate :: "pyval \<Rightarrow> candidate_facts option py" where
  "validate_candidate v =
     (case v of
        PNone \<Rightarrow> Inr None
      | PDict d \<Rightarrow>
          py_check (fst ` set d \<noteq> set candidate_keys) ValueError (
          py_bind (role_of (py_get d ''role'')) (\<lambda>role.
          case py_get d ''retained'' of
            PBool retained \<Rightarrow>
              py_check (role \<noteq> ''prepared'' \<and> retained) ValueError (
              py_bind (path_texts (py_get d ''paths'')) (\<lambda>paths.
              py_bind (opt_text sha256_hex (py_get d ''patch_sha256'')) (\<lambda>patch.
              py_bind (opt_text git_oid (py_get d ''base_commit'')) (\<lambda>cbase.
              py_bind (opt_text git_oid (py_get d ''commit'')) (\<lambda>commit.
              py_check ((role = ''committed'') \<noteq> (commit \<noteq> None)) ValueError (
              py_check (retained \<and> (paths = [] \<or> patch = None)) ValueError (
              py_check (role = ''reviewed'' \<and> (paths = [] \<or> patch = None)) ValueError (
              py_bind (canonical_uuid (py_get d ''candidate_task_id'')) (\<lambda>task.
                Inr (Some \<lparr>cf_role = role, cf_task = task, cf_retained = retained, cf_paths = paths,
                           cf_patch = patch, cf_base = cbase, cf_commit = commit\<rparr>))))))))))
          | _ \<Rightarrow> Inl ValueError))
      | _ \<Rightarrow> Inl ValueError)"

section \<open>Projection from the metrics\<close>

text \<open>A projected block is validated as the payload it will be retained as; its values may be
  of any type until then, so the projection builds the payload.\<close>

definition raw_payload :: "pyval \<Rightarrow> pyval \<Rightarrow> bool \<Rightarrow> pyval list \<Rightarrow> pyval \<Rightarrow> pyval \<Rightarrow> pyval \<Rightarrow> pydict" where
  "raw_payload role task retained paths patch cbase commit =
     [(''role'', role), (''candidate_task_id'', task), (''retained'', PBool retained),
      (''paths'', PList paths), (''patch_sha256'', patch), (''base_commit'', cbase), (''commit'', commit)]"

definition checked_payload :: "pydict \<Rightarrow> pydict option py" where
  "checked_payload d = py_bind (validate_candidate (PDict d)) (\<lambda>_. Inr (Some d))"

fun tuple_of :: "pyval \<Rightarrow> pyval list py" where
  \<comment> \<open>\<open>tuple(value or ())\<close>: lists, texts and objects iterate, a true number does not\<close>
  "tuple_of (PList xs) = Inr xs"
| "tuple_of (PStr s) = Inr (map (\<lambda>c. PStr [c]) s)"
| "tuple_of (PDict d) = Inr (map (PStr \<circ> fst) d)"
| "tuple_of v = (if truthy v then Inl TypeError else Inr [])"

definition candidate_actions :: "(string \<times> string \<times> string option) list" where
  \<comment> \<open>metrics key, role on success, role otherwise (of an import)\<close>
  "candidate_actions =
     [(''candidate_diff'', ''reviewed'', None), (''candidate_import'', ''applied'', Some ''apply_refused''),
      (''candidate_undo'', ''undone'', None), (''candidate_commit'', ''committed'', None),
      (''candidate_discard'', ''discarded'', None)]"

definition action_role :: "string \<Rightarrow> string \<Rightarrow> string option \<Rightarrow> bool \<Rightarrow> pydict \<Rightarrow> string option" where
  "action_role key ok_role bad_role succeeded action =
     (if key = ''candidate_import''
      then if truthy (py_get action ''applied'') \<and> truthy (py_get action ''import_verified'') then Some ok_role else bad_role
      else if succeeded then Some ok_role else None)"

fun project_action :: "(string \<times> string \<times> string option) list \<Rightarrow> bool \<Rightarrow> pydict \<Rightarrow> pydict option py" where
  "project_action [] succeeded metrics = Inr None"
| "project_action ((key, ok_role, bad_role) # others) succeeded metrics =
     (case py_get metrics key of
        PDict action \<Rightarrow>
          if \<not> truthy (py_get action ''candidate_task_id'') then project_action others succeeded metrics
          else (case action_role key ok_role bad_role succeeded action of
                  None \<Rightarrow> Inr None
                | Some role \<Rightarrow>
                    py_bind (tuple_of (py_get action ''paths'')) (\<lambda>paths.
                      checked_payload (raw_payload (PStr role) (PStr (py_str (py_get action ''candidate_task_id'')))
                        False paths (py_get action ''patch_sha256'') PNone
                        (if role = ''committed'' then str_or_none (oid_of (py_get action ''commit'')) else PNone))))
      | _ \<Rightarrow> project_action others succeeded metrics)"

definition project_candidate :: "string \<Rightarrow> bool \<Rightarrow> pydict \<Rightarrow> pydict option py" where
  "project_candidate task_id succeeded metrics =
     (case py_get metrics ''candidate'' of
        PDict prepared \<Rightarrow>
          (let retained = (py_get prepared ''retained'' = PBool True) in
           py_bind (uuid_text task_id) (\<lambda>task.
           py_bind (if retained then tuple_of (py_get prepared ''paths'') else Inr []) (\<lambda>paths.
             checked_payload (raw_payload (PStr ''prepared'') (PStr task) retained paths
               (if retained then py_get prepared ''patch_sha256'' else PNone)
               (str_or_none (oid_of (py_get prepared ''base_commit''))) PNone))))
      | _ \<Rightarrow> project_action candidate_actions succeeded metrics)"

definition require_action_owner :: "string \<Rightarrow> string \<Rightarrow> bool \<Rightarrow> pydict \<Rightarrow> pydict option py" where
  "require_action_owner action task_id succeeded metrics =
     (case map_of OWNED_ACTION_ROLES action of
        None \<Rightarrow> Inr None
      | Some expected \<Rightarrow>
          if \<not> succeeded then Inr None
          else py_bind (project_candidate task_id succeeded metrics) (\<lambda>candidate.
            case candidate of
              None \<Rightarrow> Inl ValueError
            | Some d \<Rightarrow>
                py_check (py_get d ''role'' \<noteq> PStr expected \<or> \<not> truthy (py_get d ''paths'')
                    \<or> (expected \<in> {''reviewed'', ''applied''} \<and> py_get d ''patch_sha256'' = PNone)) ValueError
                  (Inr candidate)))"

section \<open>Retained schemas\<close>

definition RESULT_FIELDS_V1 :: "string list" where
  "RESULT_FIELDS_V1 =
     [''schema'', ''task_id'', ''outcome'', ''terminal_state'', ''verdict'', ''verification_ran'',
      ''verified_at_completion'', ''evidence_ids'', ''answer'']"

definition RESULT_SCHEMA :: string where "RESULT_SCHEMA = ''lca.task-result/3''"

definition result_fields_for :: "pyval \<Rightarrow> string list py" where
  "result_fields_for schema =
     (if schema = PStr RESULT_SCHEMA then Inr (RESULT_FIELDS_V1 @ [''candidate'', ''check_failure''])
      else if schema = PStr ''lca.task-result/2'' then Inr (RESULT_FIELDS_V1 @ [''candidate''])
      else if schema = PStr ''lca.task-result/1'' then Inr RESULT_FIELDS_V1
      else Inl ValueError)"

section \<open>What the reader guarantees\<close>

definition candidate_ok :: "candidate_facts \<Rightarrow> bool" where
  "candidate_ok f \<longleftrightarrow>
     cf_role f \<in> set ROLES \<and> uuid_text (cf_task f) = Inr (cf_task f)
     \<and> (cf_retained f \<longrightarrow> cf_role f = ''prepared'')
     \<and> (cf_role f = ''committed'' \<longleftrightarrow> cf_commit f \<noteq> None)
     \<and> (cf_retained f \<or> cf_role f = ''reviewed'' \<longrightarrow> cf_paths f \<noteq> [] \<and> cf_patch f \<noteq> None)"

lemma role_of_Inr: "role_of v = Inr r \<longleftrightarrow> v = PStr r \<and> r \<in> set ROLES"
  by (auto simp: role_of_def split: pyval.splits if_splits)

lemma canonical_uuid_Inr: "canonical_uuid v = Inr s \<Longrightarrow> v = PStr s \<and> uuid_text s = Inr s"
  by (auto simp: canonical_uuid_def py_bind_Inr_iff split: pyval.splits)

lemma validate_candidate_Some: "validate_candidate v = Inr (Some f) \<Longrightarrow> candidate_ok f"
proof -
  assume v: "validate_candidate v = Inr (Some f)"
  then obtain d where d: "v = PDict d" by (cases v) (auto simp: validate_candidate_def)
  with v obtain b where b: "py_get d ''retained'' = PBool b"
    by (cases "py_get d ''retained''") (auto simp: validate_candidate_def py_bind_Inr_iff)
  from v obtain role paths patch cbase commit task
    where f: "\<lparr>cf_role = role, cf_task = task, cf_retained = b, cf_paths = paths,
                 cf_patch = patch, cf_base = cbase, cf_commit = commit\<rparr> = f"
      and r: "role_of (py_get d ''role'') = Inr role"
      and t: "canonical_uuid (py_get d ''candidate_task_id'') = Inr task"
      and c: "\<not> (role \<noteq> ''prepared'' \<and> b)" "(role = ''committed'') = (commit \<noteq> None)"
        "\<not> (b \<and> (paths = [] \<or> patch = None))" "\<not> (role = ''reviewed'' \<and> (paths = [] \<or> patch = None))"
    unfolding d b validate_candidate_def pyval.case py_bind_Inr_iff py_check_Inr_iff sum.inject option.inject
    by (elim exE conjE) (rule that; (assumption | simp))
  from r t have "role \<in> set ROLES" "uuid_text task = Inr task"
    by (simp_all add: role_of_Inr canonical_uuid_Inr)
  with c show "candidate_ok f" unfolding f [symmetric] candidate_ok_def by (cases b) auto
qed

text \<open>The reader does not see the order of keys: what was valid when it was projected is valid
  when it is read back from its JSON text.\<close>

lemma map_of_sorted:
  assumes "distinct (map fst d)"
  shows "map_of (sort_key fst d) = map_of d"
proof -
  have "distinct (map fst (sort_key fst d))"
    using assms by (simp add: distinct_map)
  with assms show ?thesis by (intro map_of_inject_set [THEN iffD2]) auto
qed

lemma py_get_canon:
  assumes "distinct (map fst d)"
  shows "py_get (sort_key fst (map (\<lambda>kv. (fst kv, canon (snd kv))) d)) k = canon (py_get d k)"
proof -
  have d: "distinct (map fst (map (\<lambda>kv. (fst kv, canon (snd kv))) d))"
    using assms by (simp add: comp_def)
  have "map_of (map (\<lambda>kv. (fst kv, canon (snd kv))) d) k = map_option canon (map_of d k)"
    by (induction d) auto
  then show ?thesis by (simp add: py_get_def map_of_sorted [OF d] split: option.splits)
qed

lemma readers_canon [simp]:
  "role_of (canon v) = role_of v" "opt_text ok (canon v) = opt_text ok v"
  "canonical_uuid (canon v) = canonical_uuid v"
  by (cases v; simp add: role_of_def opt_text_def canonical_uuid_def)+

lemma path_texts_canon [simp]: "path_texts (canon v) = path_texts v"
proof (cases v)
  case (PList xs)
  have s: "(case canon x of PStr s \<Rightarrow> s = [] \<or> 4096 < length s | _ \<Rightarrow> True)
      = (case x of PStr s \<Rightarrow> s = [] \<or> 4096 < length s | _ \<Rightarrow> True)" for x
    by (cases x) simp_all
  have "py_str (canon x) = py_str x" if "\<not> (case x of PStr s \<Rightarrow> s = [] \<or> 4096 < length s | _ \<Rightarrow> True)" for x
    using that by (cases x) simp_all
  with PList s show ?thesis
    by (auto simp: path_texts_def py_check_def)
qed (simp_all add: path_texts_def)

lemma validate_candidate_canon:
  assumes "keys_distinct v"
  shows "validate_candidate (canon v) = validate_candidate v"
proof (cases v)
  case (PDict d)
  with assms have dist: "distinct (map fst d)" by simp
  let ?d = "sort_key fst (map (\<lambda>kv. (fst kv, canon (snd kv))) d)"
  have keys: "fst ` set ?d = fst ` set d" by (force simp: image_iff)
  note gets = py_get_canon [OF dist]
  show ?thesis
    unfolding PDict canon.simps validate_candidate_def pyval.case keys gets readers_canon path_texts_canon
    by (cases "py_get d ''retained''") simp_all
qed (simp_all add: validate_candidate_def)

end
