(* ===== verification/Terminal_Completion.thy ===== *)
theory Terminal_Completion
  imports Results Candidate_Facts
begin

text \<open>
  \<open>session/terminal_completion.py\<close>: the checks that the retained result, the verdict event and
  the closed event of a task describe the same terminal fact before they are committed
  together.  Retained bytes are a list of bytes below 256, decoded as UTF-8.
\<close>

section \<open>Retained bytes\<close>

fun utf8_decode :: "string \<Rightarrow> string py" where
  \<comment> \<open>\<open>bytes.decode("utf-8")\<close>; a character above 255 is outside the model and refused with
    the invalid sequences\<close>
  "utf8_decode [] = Inr []"
| "utf8_decode (a # s) =
     (if code a < 128 then py_bind (utf8_decode s) (\<lambda>t. Inr (a # t))
      else if code a = 194 \<or> code a = 195 then
        (case s of
           [] \<Rightarrow> Inl UnicodeDecodeError
         | b # r \<Rightarrow>
             if 128 \<le> code b \<and> code b < 192
             then py_bind (utf8_decode r) (\<lambda>t. Inr (char_of ((code a - 192) * 64 + (code b - 128)) # t))
             else Inl UnicodeDecodeError)
      else Inl UnicodeDecodeError)"

definition load_bytes :: "string \<Rightarrow> pyval py" where
  "load_bytes s = py_bind (utf8_decode s) json_loads"

definition as_value_error :: "'a py \<Rightarrow> 'a py" where
  \<comment> \<open>\<open>except ... as exc: raise ValueError(...) from exc\<close>\<close>
  "as_value_error m = (case m of Inl _ \<Rightarrow> Inl ValueError | Inr a \<Rightarrow> Inr a)"

definition the_mapping :: "pyval \<Rightarrow> pydict py" where
  "the_mapping v = (case v of PDict d \<Rightarrow> Inr d | _ \<Rightarrow> Inl ValueError)"

definition RESULT_MEDIA_TYPE :: string where
  "RESULT_MEDIA_TYPE = ''application/vnd.lca.task-result+json''"

definition ALLOWED_CLEANUP :: "string list" where
  "ALLOWED_CLEANUP = [''confirmed'', ''not_needed'', ''attempted'', ''unknown'']"

definition is_bool :: "pyval \<Rightarrow> bool" where
  "is_bool v = (case v of PBool _ \<Rightarrow> True | _ \<Rightarrow> False)"

definition the_bool :: "pyval \<Rightarrow> bool" where
  "the_bool v = (case v of PBool b \<Rightarrow> b | _ \<Rightarrow> False)"

definition nonempty_texts :: "pyval \<Rightarrow> string list py" where
  "nonempty_texts v =
     (case v of
        PList xs \<Rightarrow>
          py_check (\<exists>x \<in> set xs. case x of PStr s \<Rightarrow> s = [] | _ \<Rightarrow> True) ValueError (Inr (map py_str xs))
      | _ \<Rightarrow> Inl ValueError)"

definition the_text :: "pyval \<Rightarrow> string py" where
  "the_text v = (case v of PStr s \<Rightarrow> Inr s | _ \<Rightarrow> Inl ValueError)"

definition typed_result :: "string \<Rightarrow> pydict \<Rightarrow> string \<Rightarrow> string list \<Rightarrow> task_result py" where
  \<comment> \<open>the projection of the retained object and what it must repeat\<close>
  "typed_result task_id d answer evidence =
     py_bind (as_value_error (mk_task_result task_id (py_get d ''outcome'') answer
                (the_bool (py_get d ''verified_at_completion'')) evidence []
                (Some (the_bool (py_get d ''verification_ran''))) None)) (\<lambda>typed.
     py_check (py_get d ''terminal_state'' \<noteq> PStr (terminal_state_value (pj_state (result_projection typed)))) ValueError (
     py_check (py_get d ''verdict'' \<noteq> PStr (task_verdict_value (pj_verdict (result_projection typed)))) ValueError (
       Inr typed)))"

definition retained_result :: "string \<Rightarrow> string option \<Rightarrow> (task_result \<times> pydict) py" where
  "retained_result task_id result_bytes =
     (case result_bytes of
        None \<Rightarrow> Inl ValueError
      | Some bytes \<Rightarrow>
          py_check (bytes = []) ValueError (
          py_bind (as_value_error (load_bytes bytes)) (\<lambda>raw.
          py_bind (the_mapping raw) (\<lambda>d.
          py_bind (result_fields_for (py_get d ''schema'')) (\<lambda>required.
          py_check (fst ` set d \<noteq> set required) ValueError (
          py_bind (validate_candidate (py_get d ''candidate'')) (\<lambda>_.
          py_check (py_get d ''task_id'' \<noteq> PStr task_id) ValueError (
          py_bind (the_text (py_get d ''answer'')) (\<lambda>answer.
          py_bind (nonempty_texts (py_get d ''evidence_ids'')) (\<lambda>evidence.
          py_check (\<not> is_bool (py_get d ''verification_ran'') \<or> \<not> is_bool (py_get d ''verified_at_completion'')) ValueError (
          py_bind (typed_result task_id d answer evidence) (\<lambda>typed. Inr (typed, d)))))))))))))"

section \<open>The terminal bundle\<close>

definition result_ref_keys :: "string list" where
  "result_ref_keys = [''artifact_id'', ''sha256'', ''media_type'', ''size_bytes'', ''availability'']"

definition validate_result_ref :: "(string \<Rightarrow> string) \<Rightarrow> pyval \<Rightarrow> string \<Rightarrow> pydict py" where
  "validate_result_ref sha ref bytes =
     py_bind (the_mapping ref) (\<lambda>v.
     py_check (fst ` set v \<noteq> set result_ref_keys) ValueError (
     py_check (py_get v ''media_type'' \<noteq> PStr RESULT_MEDIA_TYPE \<or> py_get v ''availability'' \<noteq> PStr ''retained'') ValueError (
     py_check (py_get v ''sha256'' \<noteq> PStr (sha bytes)) ValueError (
     py_check (\<not> py_eq (py_get v ''size_bytes'') (PInt (int (length bytes)))) ValueError (
     py_bind (the_text (py_get v ''artifact_id'')) (\<lambda>i.
     py_check (i = []) ValueError (Inr v)))))))"

definition cleanup_of :: "pyval \<Rightarrow> string py" where
  \<comment> \<open>membership of a frozenset: an unhashable value is a TypeError\<close>
  "cleanup_of v =
     (case v of PStr s \<Rightarrow> if s \<in> set ALLOWED_CLEANUP then Inr s else Inl ValueError
      | PList _ \<Rightarrow> Inl TypeError | PDict _ \<Rightarrow> Inl TypeError | _ \<Rightarrow> Inl ValueError)"

definition rendered_texts :: "pyval \<Rightarrow> string list py" where
  "rendered_texts v =
     (case v of
        PList xs \<Rightarrow>
          py_check (xs = [] \<or> (\<exists>x \<in> set xs. case x of PStr s \<Rightarrow> False | _ \<Rightarrow> True)) ValueError (Inr (map py_str xs))
      | _ \<Rightarrow> Inl ValueError)"

definition check_lines :: "task_result \<Rightarrow> pyval \<Rightarrow> unit py" where
  \<comment> \<open>the rendered lines open with the verdict and repeat the verification facts\<close>
  "check_lines typed v =
     (let verdict = pj_verdict (result_projection typed) in
      py_bind (rendered_texts v) (\<lambda>lines.
      py_check (\<not> prefix (task_verdict_value verdict @ '':'') (hd lines)) ValueError (
      py_check (verification_lines lines \<noteq> []
          \<and> verification_lines lines \<noteq> [verification_line (rs_verified typed) (rs_ran typed) verdict]) ValueError (
        Inr ()))))"

definition validate_terminal_completion ::
  "(string \<Rightarrow> string) \<Rightarrow> string \<Rightarrow> pydict \<Rightarrow> pydict \<Rightarrow> string option \<Rightarrow> unit py" where
  "validate_terminal_completion sha task_id verdict_payload closing result_bytes =
     py_bind (retained_result task_id result_bytes) (\<lambda>(typed, retained).
       let bytes = the result_bytes; status = terminal_state_value (pj_state (result_projection typed)) in
       py_check (fst ` set verdict_payload \<noteq> {''completion''}) ValueError (
       py_bind (the_mapping (py_get verdict_payload ''completion'')) (\<lambda>completion.
       py_bind (the_mapping (py_get completion ''verdict_block'')) (\<lambda>block.
       py_check (py_get completion ''task_id'' \<noteq> PStr task_id) ValueError (
       py_check (py_get completion ''status'' \<noteq> PStr status \<or> py_get closing ''status'' \<noteq> PStr status) ValueError (
       py_check (py_get block ''verdict'' \<noteq> PStr (task_verdict_value (pj_verdict (result_projection typed)))) ValueError (
       py_check (\<not> py_eq (py_get block ''evidence_ids'') (py_get retained ''evidence_ids'')) ValueError (
       py_bind (validate_result_ref sha (py_get completion ''result_ref'') bytes) (\<lambda>r1.
       py_bind (validate_result_ref sha (py_get closing ''result_ref'') bytes) (\<lambda>r2.
       py_check (\<not> py_eq (PDict r1) (PDict r2)) ValueError (
       py_bind (cleanup_of (py_get closing ''cleanup'')) (\<lambda>cleanup.
       py_check (status = ''completed'' \<and> cleanup \<notin> {''not_needed'', ''confirmed''}) ValueError (
         check_lines typed (py_get block ''rendered_lines''))))))))))))))"

section \<open>Reading back what was written\<close>

lemma as_value_error_Inr [simp]: "as_value_error m = Inr a \<longleftrightarrow> m = Inr a"
  by (cases m) (auto simp: as_value_error_def)

lemma utf8_ascii: "list_all (\<lambda>c. code c < 128) s \<Longrightarrow> utf8_decode s = Inr s"
  by (induction s) auto

lemma hex_char_ascii: "d < 16 \<Longrightarrow> code (hex_char d) < 128"
proof -
  assume "d < 16"
  then have "d \<in> set [0..<16]" by simp
  moreover have "\<forall>d \<in> set [0..<16]. code (hex_char d) < 128" by code_simp
  ultimately show ?thesis by blast
qed

lemma json_char_ascii: "list_all (\<lambda>x. code x < 128) (json_char c)"
proof -
  have "code c < 256" by simp
  then have "code c div 16 < 16" "code c mod 16 < 16" by linarith+
  then have "code (hex_char (code c div 16)) < 128" "code (hex_char (code c mod 16)) < 128"
    by (simp_all only: hex_char_ascii)
  then show ?thesis by (simp add: json_char_def Let_def) (simp add: code_def)
qed

lemma json_str_ascii: "list_all (\<lambda>x. code x < 128) (json_str s)"
  using json_char_ascii by (simp add: json_str_def list_all_iff) (simp add: code_def)

lemma nat_str_ascii: "list_all (\<lambda>x. code x < 128) (nat_str n)"
  using nat_str_digits [of n] by (auto simp: list_all_iff is_digit_def)

lemma join_ascii: "list_all P sep \<Longrightarrow> list_all (list_all P) xs \<Longrightarrow> list_all P (join sep xs)"
  by (induction sep xs rule: join.induct) auto

lemma json_compact_ascii: "list_all (\<lambda>x. code x < 128) (json_compact v)"
proof (induction v rule: json_compact.induct)
  case (3 i)
  have "code (CHR ''-'') < 128" by (simp add: code_def)
  with nat_str_ascii show ?case by (simp add: int_str_def)
next
  case (4 s)
  show ?case by (simp add: json_str_ascii)
next
  case (5 xs)
  have "list_all (\<lambda>x. code x < 128) (join '','' (map json_compact xs))"
    using 5 by (intro join_ascii) (simp_all add: list_all_iff, simp add: code_def)
  then show ?case by (simp add: code_def)
next
  case (6 d)
  have texts: "list_all (\<lambda>x. code x < 128) (snd kv)" if "kv \<in> (\<lambda>kv. (fst kv, json_compact (snd kv))) ` set d" for kv
    using 6 that by force
  have "list_all (\<lambda>x. code x < 128) (json_str (fst kv) @ '':'' @ snd kv)"
    if "kv \<in> (\<lambda>kv. (fst kv, json_compact (snd kv))) ` set d" for kv
    using texts [OF that] json_str_ascii [of "fst kv"] by (simp add: code_def)
  then have "list_all (\<lambda>x. code x < 128) (join '','' (map (\<lambda>kv. json_str (fst kv) @ '':'' @ snd kv)
      (sort_key fst (map (\<lambda>kv. (fst kv, json_compact (snd kv))) d))))"
    by (intro join_ascii) (simp_all add: list_all_iff, simp add: code_def)
  then show ?case by (simp add: code_def)
qed (simp_all add: code_def)

lemma load_bytes_compact: "keys_distinct v \<Longrightarrow> load_bytes (json_compact v) = Inr (canon v)"
  by (simp add: load_bytes_def utf8_ascii [OF json_compact_ascii] json_round_trip)

end
