(* ===== verification/Session_Service.thy ===== *)
theory Session_Service
  imports Terminal_Completion Session_Properties
begin

text \<open>
  \<open>DurableSessionService\<close> of \<open>session/session_event_service.py\<close>: a bounded queue of write
  commands, one writer that numbers, validates, commits and only then publishes, and bounded
  subscriptions with an explicit gap.  The writer takes two kinds of atomic step (the commit
  of one command, the publication of one event), so a subscription may be opened between
  them.  \<open>uuid4\<close>, \<open>uuid5\<close> and the clock are parameters.
\<close>

section \<open>Subscriptions\<close>

record subscription =
  sb_queue :: "envelope list"
  sb_capacity :: int
  sb_gap :: bool
  sb_live_after :: int

definition new_subscription :: "int \<Rightarrow> int \<Rightarrow> subscription py" where
  "new_subscription capacity live_after =
     py_check (capacity < 1) ValueError (
     py_check (live_after < 0) ValueError (
       Inr \<lparr>sb_queue = [], sb_capacity = capacity, sb_gap = False, sb_live_after = live_after\<rparr>))"

definition offer :: "envelope \<Rightarrow> subscription \<Rightarrow> subscription" where
  "offer e sub =
     (if ev_sequence e \<le> sb_live_after sub then sub
      else if sb_gap sub then sub
      else if int (length (sb_queue sub)) \<ge> sb_capacity sub then sub\<lparr>sb_gap := True\<rparr>
      else sub\<lparr>sb_queue := sb_queue sub @ [e]\<rparr>)"

definition drain :: "int \<Rightarrow> subscription \<Rightarrow> (envelope list \<times> subscription) py" where
  "drain limit sub =
     py_check (limit < 1) ValueError (
     py_check (sb_gap sub) SubscriptionGap (
       Inr (take (nat limit) (sb_queue sub), sub\<lparr>sb_queue := drop (nat limit) (sb_queue sub)\<rparr>)))"

record replay_subscription =
  rp_stream :: string
  rp_after :: int
  rp_through :: int

section \<open>Commands and the service\<close>

datatype write_command =
    Write_Admit string string string pydict "string option"  \<comment> \<open>request, payload digest, task, payload, bytes\<close>
  | Write_Append string pydict "string option" "string option"
  | Write_Finalize string pydict pydict "string option"

record write_receipt =
  wr_task :: "string option"
  wr_committed :: bool
  wr_error :: "py_exc option"
  wr_created :: "bool option"

record service_env =
  sx_valid :: "pyval \<Rightarrow> bool"
  sx_sha :: "string \<Rightarrow> string"
  sx_uuid5 :: "string \<Rightarrow> string \<Rightarrow> string"
  sx_uuid4 :: "nat \<Rightarrow> string"
  sx_now :: "nat \<Rightarrow> string"

record service =
  sv_store :: store
  sv_stream :: string
  sv_producer :: string
  sv_session :: "string option"
  sv_capacity :: int
  sv_commands :: "(nat \<times> write_command) list"     \<comment> \<open>receipt number and command\<close>
  sv_receipts :: "write_receipt list"
  sv_writing :: "(nat \<times> envelope list) option"    \<comment> \<open>committed, still to be published\<close>
  sv_subs :: "subscription list"
  sv_closed :: bool
  sv_drawn :: nat

definition mk_service :: "store \<Rightarrow> string \<Rightarrow> string \<Rightarrow> string option \<Rightarrow> int \<Rightarrow> service py" where
  "mk_service s stream producer session capacity =
     py_check (\<not> uuid_ok stream \<or> bad_uuid session \<or> \<not> uuid_ok producer) ValueError (
       Inr \<lparr>sv_store = s, sv_stream = stream, sv_producer = producer, sv_session = session,
            sv_capacity = capacity, sv_commands = [], sv_receipts = [], sv_writing = None, sv_subs = [],
            sv_closed = False, sv_drawn = 0\<rparr>)"

definition subscribe :: "int \<Rightarrow> service \<Rightarrow> service py" where
  "subscribe capacity sv =
     py_bind (new_subscription capacity 0) (\<lambda>sub.
     py_check (sv_closed sv) ServiceClosed (Inr (sv\<lparr>sv_subs := sv_subs sv @ [sub]\<rparr>)))"

definition replay_through :: "service \<Rightarrow> int" where
  "replay_through sv = next_sequence (sv_store sv) (sv_stream sv) - 1"

definition subscribe_from :: "int \<Rightarrow> int \<Rightarrow> service \<Rightarrow> (replay_subscription \<times> service) py" where
  "subscribe_from after capacity sv =
     py_check (after < 0) ValueError (
     py_check (sv_closed sv) ServiceClosed (
     py_check (after > replay_through sv) ValueError (
     py_bind (new_subscription capacity (replay_through sv)) (\<lambda>sub.
       Inr (\<lparr>rp_stream = sv_stream sv, rp_after = after, rp_through = replay_through sv\<rparr>,
            sv\<lparr>sv_subs := sv_subs sv @ [sub]\<rparr>)))))"

definition svc_replay :: "service_env \<Rightarrow> service \<Rightarrow> int \<Rightarrow> int \<Rightarrow> pyval list py" where
  "svc_replay x sv after limit = replay (sx_valid x) (sv_store sv) (sv_stream sv) after limit"

fun up_to :: "int \<Rightarrow> pyval list \<Rightarrow> pyval list py" where
  \<comment> \<open>the events up to the boundary\<close>
  "up_to n [] = Inr []"
| "up_to n (v # vs) =
     py_bind (py_item v ''sequence'') (\<lambda>q. py_bind (py_int q) (\<lambda>i.
       py_bind (up_to n vs) (\<lambda>ws. Inr (if i \<le> n then v # ws else ws))))"

definition replay_subscription_page ::
  "service_env \<Rightarrow> service \<Rightarrow> replay_subscription \<Rightarrow> int option \<Rightarrow> int \<Rightarrow> pyval list py" where
  "replay_subscription_page x sv h after limit =
     py_check (rp_stream h \<noteq> sv_stream sv) ValueError (
       let cursor = (case after of None \<Rightarrow> rp_after h | Some c \<Rightarrow> c) in
       py_check (cursor < rp_after h) ValueError (
       py_check (cursor > rp_through h) ValueError (
         if cursor = rp_through h then Inr []
         else py_bind (svc_replay x sv cursor limit) (up_to (rp_through h)))))"

section \<open>Enqueuing\<close>

definition enqueue_write :: "write_command \<Rightarrow> string option \<Rightarrow> service \<Rightarrow> (nat \<times> service) py" where
  "enqueue_write cmd task sv =
     py_check (sv_closed sv) ServiceClosed (
     py_check (sv_capacity sv > 0 \<and> int (length (sv_commands sv)) \<ge> sv_capacity sv) RuntimeError (
       Inr (length (sv_receipts sv),
         sv\<lparr>sv_commands := sv_commands sv @ [(length (sv_receipts sv), cmd)],
            sv_receipts := sv_receipts sv @ [\<lparr>wr_task = task, wr_committed = False, wr_error = None, wr_created = None\<rparr>]\<rparr>)))"

definition submit_task ::
  "service_env \<Rightarrow> string \<Rightarrow> string \<Rightarrow> pydict \<Rightarrow> string option \<Rightarrow> service \<Rightarrow> (nat \<times> service) py" where
  "submit_task x request payload_sha payload bytes sv =
     (let task = sx_uuid5 x (sv_stream sv) request
      in enqueue_write (Write_Admit request payload_sha task payload bytes) (Some task) sv)"

definition svc_append ::
  "string \<Rightarrow> pydict \<Rightarrow> string option \<Rightarrow> string option \<Rightarrow> service \<Rightarrow> (nat \<times> service) py" where
  "svc_append kind payload task bytes sv =
     py_check (kind \<in> set terminal_event_kinds) ValueError (
       enqueue_write (Write_Append kind payload task bytes) task sv)"

definition svc_finalize ::
  "service_env \<Rightarrow> string \<Rightarrow> pydict \<Rightarrow> pydict \<Rightarrow> string option \<Rightarrow> service \<Rightarrow> (nat \<times> service) py" where
  "svc_finalize x task verdict_payload closed_payload bytes sv =
     py_check (\<not> uuid_ok task) ValueError (
     py_bind (validate_terminal_completion (sx_sha x) task verdict_payload closed_payload bytes) (\<lambda>_.
       enqueue_write (Write_Finalize task verdict_payload closed_payload bytes) (Some task) sv))"

definition svc_request_cancel ::
  "service_env \<Rightarrow> string \<Rightarrow> int \<Rightarrow> string \<Rightarrow> string \<Rightarrow> service \<Rightarrow> (nat \<times> service) py" where
  "svc_request_cancel x task epoch src reason_code sv =
     py_check (\<not> uuid_ok task) ValueError (
       svc_append ''task.cancel_requested''
         [(''request_id'', PStr (sx_uuid4 x (sv_drawn sv))), (''source'', PStr src),
          (''reason_code'', PStr reason_code), (''execution_epoch'', PInt epoch)]
         (Some task) None (sv\<lparr>sv_drawn := Suc (sv_drawn sv)\<rparr>))"

definition close_service :: "service \<Rightarrow> service" where
  \<comment> \<open>no command is accepted after it; those in the queue are still written\<close>
  "close_service sv = sv\<lparr>sv_closed := True\<rparr>"

section \<open>The writer\<close>

definition service_event ::
  "service_env \<Rightarrow> service \<Rightarrow> nat \<Rightarrow> int \<Rightarrow> string \<Rightarrow> string option \<Rightarrow> pydict \<Rightarrow> envelope py" where
  \<comment> \<open>\<open>build_event\<close> with the service's stream, producer and session and the n-th id and time\<close>
  "service_event x sv n sequence kind task payload =
     build_event (sx_valid x) (sx_uuid4 x n) (sx_now x n) (sv_stream sv) sequence (sv_producer sv) kind payload
       (sv_session sv) task None None"

definition perform_write ::
  "service_env \<Rightarrow> service \<Rightarrow> write_command \<Rightarrow> (store \<times> envelope list \<times> bool option) py" where
  \<comment> \<open>the next store, the events to publish, and whether an admission created its task\<close>
  "perform_write x sv cmd =
     (let s = sv_store sv; n = sv_drawn sv; sequence = next_sequence s (sv_stream sv) in
      case cmd of
        Write_Admit request payload_sha task payload bytes \<Rightarrow>
          py_bind (service_event x sv n sequence ''task.admitted'' (Some task) payload) (\<lambda>e.
          py_bind (admit (sx_valid x) (sx_sha x) request payload_sha e sequence bytes s) (\<lambda>((_, created), s').
            Inr (s', (if created then [e] else []), Some created)))
      | Write_Append kind payload task bytes \<Rightarrow>
          py_bind (service_event x sv n sequence kind task payload) (\<lambda>e.
          py_bind (append_event (sx_valid x) (sx_sha x) e sequence bytes s) (\<lambda>s'. Inr (s', [e], None)))
      | Write_Finalize task vp cp bytes \<Rightarrow>
          py_bind (service_event x sv n sequence ''task.verdict'' (Some task) vp) (\<lambda>v.
          py_bind (service_event x sv (Suc n) (sequence + 1) ''task.closed'' (Some task) cp) (\<lambda>c.
          py_bind (finalize_task (sx_valid x) (sx_sha x) v c sequence bytes s) (\<lambda>s'. Inr (s', [v, c], None)))))"

definition set_receipt :: "nat \<Rightarrow> (write_receipt \<Rightarrow> write_receipt) \<Rightarrow> service \<Rightarrow> service" where
  "set_receipt i f sv = sv\<lparr>sv_receipts := (sv_receipts sv)[i := f (sv_receipts sv ! i)]\<rparr>"

definition commit_next :: "service_env \<Rightarrow> service \<Rightarrow> service" where
  \<comment> \<open>the writer takes the next command; a failure belongs to its receipt alone\<close>
  "commit_next x sv =
     (case (sv_writing sv, sv_commands sv) of
        (None, (i, cmd) # rest) \<Rightarrow>
          (let sv1 = sv\<lparr>sv_commands := rest, sv_drawn := sv_drawn sv + 2\<rparr> in
           case perform_write x sv cmd of
             Inl e \<Rightarrow> (set_receipt i (\<lambda>r. r\<lparr>wr_error := Some e\<rparr>) sv1)\<lparr>sv_writing := Some (i, [])\<rparr>
           | Inr (s', events, created) \<Rightarrow>
               (set_receipt i (\<lambda>r. r\<lparr>wr_created := created\<rparr>) sv1)\<lparr>sv_store := s', sv_writing := Some (i, events)\<rparr>)
      | _ \<Rightarrow> sv)"

definition publish_next :: "service \<Rightarrow> service" where
  \<comment> \<open>one committed event to every subscriber; after the last one the receipt is set\<close>
  "publish_next sv =
     (case sv_writing sv of
        None \<Rightarrow> sv
      | Some (i, []) \<Rightarrow> (set_receipt i (\<lambda>r. r\<lparr>wr_committed := True\<rparr>) sv)\<lparr>sv_writing := None\<rparr>
      | Some (i, e # es) \<Rightarrow> sv\<lparr>sv_subs := map (offer e) (sv_subs sv), sv_writing := Some (i, es)\<rparr>)"

definition svc_drain :: "nat \<Rightarrow> int \<Rightarrow> service \<Rightarrow> (envelope list \<times> service) py" where
  "svc_drain i limit sv =
     py_bind (drain limit (sv_subs sv ! i)) (\<lambda>(out, sub). Inr (out, sv\<lparr>sv_subs := (sv_subs sv)[i := sub]\<rparr>))"

section \<open>The service as a machine\<close>

datatype service_op =
    Subscribe int
  | Subscribe_From int int
  | Submit string string pydict "string option"
  | Append_Event string pydict "string option" "string option"
  | Finalize_Task string pydict pydict "string option"
  | Request_Cancel string int string string
  | Commit_Next
  | Publish_Next
  | Drain nat int
  | Close_Service

text \<open>The state of a script: the service and what each subscriber has drained so far.\<close>

type_synonym served = "service \<times> (nat \<Rightarrow> envelope list)"

definition service_step :: "service_env \<Rightarrow> service_op \<Rightarrow> served \<Rightarrow> served py" where
  "service_step x op s =
     (case s of (sv, got) \<Rightarrow>
        (case op of
           Subscribe capacity \<Rightarrow> py_bind (subscribe capacity sv) (\<lambda>sv'. Inr (sv', got))
         | Subscribe_From after capacity \<Rightarrow> py_bind (subscribe_from after capacity sv) (\<lambda>(h, sv'). Inr (sv', got))
         | Submit request h payload bytes \<Rightarrow> py_bind (submit_task x request h payload bytes sv) (\<lambda>(i, sv'). Inr (sv', got))
         | Append_Event kind payload task bytes \<Rightarrow> py_bind (svc_append kind payload task bytes sv) (\<lambda>(i, sv'). Inr (sv', got))
         | Finalize_Task task vp cp bytes \<Rightarrow> py_bind (svc_finalize x task vp cp bytes sv) (\<lambda>(i, sv'). Inr (sv', got))
         | Request_Cancel task epoch src why \<Rightarrow> py_bind (svc_request_cancel x task epoch src why sv) (\<lambda>(i, sv'). Inr (sv', got))
         | Commit_Next \<Rightarrow> Inr (commit_next x sv, got)
         | Publish_Next \<Rightarrow> Inr (publish_next sv, got)
         | Drain i limit \<Rightarrow>
             (if i < length (sv_subs sv)
              then py_bind (svc_drain i limit sv) (\<lambda>(out, sv'). Inr (sv', got(i := got i @ out)))
              else Inl ValueError)
         | Close_Service \<Rightarrow> Inr (close_service sv, got)))"

section \<open>What a commit does to the log\<close>

lemma service_event_Inr:
  "service_event x sv n q kind task payload = Inr e \<Longrightarrow>
     ev_stream e = sv_stream sv \<and> ev_sequence e = q \<and> ev_task e = task \<and> ev_kind e = kind \<and> ev_payload e = payload"
  by (auto simp: service_event_def build_event_def Let_def py_bind_Inr_iff)

lemma same_events_rows: "so_events s' = so_events s \<Longrightarrow> stream_rows s' st = stream_rows s st"
  by (simp add: stream_rows_def)

lemma append_event_rows:
  assumes "append_event valid sha e n bytes s = Inr s'"
  shows "stream_rows s' (ev_stream e) = stream_rows s (ev_stream e) @ [event_row_of e]"
  using assms
proof (cases rule: append_event_cases)
  case (1 s1 s2)
  from 1(4) have "so_events s1 = so_events s" by (auto dest: insert_artifact_frame)
  from same_events_rows [OF this] 1(6,7) show ?thesis by auto
qed

lemma admit_rows:
  assumes "admit valid sha request h e n bytes s = Inr ((task, fresh), s')"
  shows "stream_rows s' (ev_stream e) = stream_rows s (ev_stream e) @ (if fresh then [event_row_of e] else [])"
  using assms
proof (cases rule: admit_cases)
  case (new t ref s2 s3)
  from insert_artifact_frame [OF new(22)] insert_turn_frame [OF new(23)]
  have "so_events s3 = so_events s" by (simp add: add_task_def)
  from same_events_rows [OF this] new(2,25) show ?thesis by simp
qed simp

lemma finalize_rows:
  assumes "finalize_task valid sha v c n bytes s = Inr s'"
  shows "ev_stream c = ev_stream v \<and>
    stream_rows s' (ev_stream v) = stream_rows s (ev_stream v) @ [event_row_of v, event_row_of c]"
  using assms
proof (cases rule: finalize_cases)
  case (1 task ref status row s1)
  from insert_artifact_frame [OF 1(8)] have "so_events s1 = so_events s" by simp
  from same_events_rows [OF this] 1(11) check_bundle_Inr [OF 1(3)] show ?thesis by simp
qed

lemma perform_write_log:
  assumes "perform_write x sv cmd = Inr (s', events, created)"
  shows "(s' = sv_store sv \<or> (\<exists>op. store_step (sx_valid x) (sx_sha x) op (sv_store sv) = Inr s'))
    \<and> stream_rows s' (sv_stream sv) = stream_rows (sv_store sv) (sv_stream sv) @ map event_row_of events"
proof (cases cmd)
  case (Write_Admit request h task payload bytes)
  with assms obtain e t fresh where e: "service_event x sv (sv_drawn sv) (next_sequence (sv_store sv) (sv_stream sv))
        ''task.admitted'' (Some task) payload = Inr e"
      and a: "admit (sx_valid x) (sx_sha x) request h e (next_sequence (sv_store sv) (sv_stream sv)) bytes (sv_store sv)
        = Inr ((t, fresh), s')" and ev: "events = (if fresh then [e] else [])"
    by (auto simp: perform_write_def Let_def py_bind_Inr_iff split: if_splits)
  from a have "store_step (sx_valid x) (sx_sha x)
      (Admit request h e (next_sequence (sv_store sv) (sv_stream sv)) bytes) (sv_store sv) = Inr s'" by simp
  moreover have "stream_rows s' (sv_stream sv) = stream_rows (sv_store sv) (sv_stream sv) @ map event_row_of events"
    using admit_rows [OF a] service_event_Inr [OF e] ev by simp
  ultimately show ?thesis by blast
next
  case (Write_Append kind payload task bytes)
  with assms obtain e where e: "service_event x sv (sv_drawn sv) (next_sequence (sv_store sv) (sv_stream sv))
        kind task payload = Inr e"
      and a: "append_event (sx_valid x) (sx_sha x) e (next_sequence (sv_store sv) (sv_stream sv)) bytes (sv_store sv) = Inr s'"
      and ev: "events = [e]"
    by (auto simp: perform_write_def Let_def py_bind_Inr_iff)
  from a have "store_step (sx_valid x) (sx_sha x)
      (Append e (next_sequence (sv_store sv) (sv_stream sv)) bytes) (sv_store sv) = Inr s'" by simp
  moreover have "stream_rows s' (sv_stream sv) = stream_rows (sv_store sv) (sv_stream sv) @ map event_row_of events"
    using append_event_rows [OF a] service_event_Inr [OF e] ev by simp
  ultimately show ?thesis by blast
next
  case (Write_Finalize task vp cp bytes)
  let ?q = "next_sequence (sv_store sv) (sv_stream sv)"
  from assms Write_Finalize obtain v c where v: "service_event x sv (sv_drawn sv) ?q ''task.verdict'' (Some task) vp = Inr v"
      and a: "finalize_task (sx_valid x) (sx_sha x) v c ?q bytes (sv_store sv) = Inr s'" and ev: "events = [v, c]"
    by (auto simp: perform_write_def Let_def py_bind_Inr_iff)
  from a have "store_step (sx_valid x) (sx_sha x) (Finalize v c ?q bytes) (sv_store sv) = Inr s'" by simp
  moreover have "stream_rows s' (sv_stream sv) = stream_rows (sv_store sv) (sv_stream sv) @ map event_row_of events"
    using finalize_rows [OF a] service_event_Inr [OF v] ev by simp
  ultimately show ?thesis by blast
qed

section \<open>The invariant of the service\<close>

definition log_rows :: "service \<Rightarrow> event_row list" where
  "log_rows sv = stream_rows (sv_store sv) (sv_stream sv)"

definition unpublished :: "service \<Rightarrow> envelope list" where
  "unpublished sv = (case sv_writing sv of None \<Rightarrow> [] | Some (i, es) \<Rightarrow> es)"

definition published_rows :: "service \<Rightarrow> event_row list" where
  "published_rows sv = take (length (log_rows sv) - length (unpublished sv)) (log_rows sv)"

definition writer_ok :: "service_env \<Rightarrow> service \<Rightarrow> bool" where
  \<comment> \<open>what is committed and not yet published is the end of the log\<close>
  "writer_ok x sv \<longleftrightarrow> store_ok (sx_valid x) (sx_sha x) (sv_store sv)
     \<and> (\<exists>p. log_rows sv = p @ map event_row_of (unpublished sv))"

lemma published_rows_eq: "log_rows sv = p @ map event_row_of (unpublished sv) \<Longrightarrow> published_rows sv = p"
  by (simp add: published_rows_def)

definition receives_from :: "nat \<Rightarrow> nat \<Rightarrow> served \<Rightarrow> bool" where
  \<comment> \<open>subscriber \<open>i\<close> has drained and queued exactly the published events after number \<open>n\<close>, or an
    initial part of them when it has a gap\<close>
  "receives_from i n s \<longleftrightarrow>
     (case s of (sv, got) \<Rightarrow>
        i < length (sv_subs sv) \<and> n \<le> length (log_rows sv) \<and>
        (let sub = sv_subs sv ! i; seen = map event_row_of (got i @ sb_queue sub) in
         sb_live_after sub = int n \<and>
         (if sb_gap sub then prefix seen (drop n (published_rows sv)) else seen = drop n (published_rows sv))))"

text \<open>Operations that keep the log and the writer, and what each does to one subscriber.\<close>

definition same_log :: "service \<Rightarrow> service \<Rightarrow> bool" where
  "same_log sv sv' \<longleftrightarrow> sv_store sv' = sv_store sv \<and> sv_stream sv' = sv_stream sv \<and> sv_writing sv' = sv_writing sv"

lemma same_log_rows:
  "same_log sv sv' \<Longrightarrow> log_rows sv' = log_rows sv \<and> published_rows sv' = published_rows sv \<and> unpublished sv' = unpublished sv"
  by (simp add: same_log_def log_rows_def published_rows_def unpublished_def)

lemma same_log_writer: "same_log sv sv' \<Longrightarrow> writer_ok x sv' = writer_ok x sv"
  by (simp add: writer_ok_def same_log_rows) (simp add: same_log_def)

lemma enqueue_frame:
  "enqueue_write cmd task sv = Inr (i, sv') \<Longrightarrow> same_log sv sv' \<and> sv_subs sv' = sv_subs sv"
  by (auto simp: enqueue_write_def same_log_def)

lemma receives_frame:
  "same_log sv sv' \<Longrightarrow> sv_subs sv' = sv_subs sv \<Longrightarrow> receives_from i n (sv', got) = receives_from i n (sv, got)"
  by (simp add: receives_from_def same_log_rows)

lemma receives_new_sub:
  "same_log sv sv' \<Longrightarrow> sv_subs sv' = sv_subs sv @ [sub] \<Longrightarrow> receives_from i n (sv, got) \<Longrightarrow> receives_from i n (sv', got)"
  by (simp add: receives_from_def same_log_rows nth_append Let_def)

lemma commit_next_log:
  assumes ok: "writer_ok x sv"
  shows "writer_ok x (commit_next x sv) \<and> published_rows (commit_next x sv) = published_rows sv
    \<and> sv_subs (commit_next x sv) = sv_subs sv \<and> length (log_rows sv) \<le> length (log_rows (commit_next x sv))"
proof (cases "sv_writing sv")
  case (Some w)
  with ok show ?thesis by (simp add: commit_next_def)
next
  case None
  then have un: "unpublished sv = []" by (simp add: unpublished_def)
  show ?thesis
  proof (cases "sv_commands sv")
    case Nil
    with None ok show ?thesis by (simp add: commit_next_def)
  next
    case (Cons c rest)
    obtain i cmd where c: "c = (i, cmd)" by (cases c)
    show ?thesis
    proof (cases "perform_write x sv cmd")
      case (Inl e)
      with None Cons c ok un show ?thesis
        by (simp add: commit_next_def Let_def set_receipt_def writer_ok_def log_rows_def published_rows_def unpublished_def)
    next
      case (Inr r)
      obtain s' events created where r: "r = (s', events, created)" by (cases r)
      note log = perform_write_log [OF Inr [unfolded r]]
      have "store_ok (sx_valid x) (sx_sha x) s'"
        using log ok by (auto simp: writer_ok_def intro: store_step_ok)
      moreover have "log_rows (commit_next x sv) = log_rows sv @ map event_row_of (unpublished (commit_next x sv))"
        using log None Cons c Inr r
        by (simp add: commit_next_def Let_def set_receipt_def log_rows_def unpublished_def)
      moreover from published_rows_eq [OF this] published_rows_eq [of sv "log_rows sv"] un
      have "published_rows (commit_next x sv) = published_rows sv" by simp
      moreover have "sv_store (commit_next x sv) = s'" "sv_subs (commit_next x sv) = sv_subs sv"
        using None Cons c Inr r by (simp_all add: commit_next_def Let_def set_receipt_def)
      ultimately show ?thesis by (auto simp: writer_ok_def)
    qed
  qed
qed

lemma publish_next_log:
  assumes ok: "writer_ok x sv"
  shows "writer_ok x (publish_next sv) \<and> log_rows (publish_next sv) = log_rows sv"
proof (cases "sv_writing sv")
  case (Some w)
  obtain i es where w: "w = (i, es)" by (cases w)
  show ?thesis
  proof (cases es)
    case Nil
    with Some w ok show ?thesis
      by (simp add: publish_next_def set_receipt_def writer_ok_def log_rows_def published_rows_def unpublished_def)
  next
    case (Cons e rest)
    from ok obtain p where p: "log_rows sv = p @ map event_row_of (unpublished sv)" by (auto simp: writer_ok_def)
    have "log_rows (publish_next sv) = (p @ [event_row_of e]) @ map event_row_of (unpublished (publish_next sv))"
      using p Some w Cons by (simp add: publish_next_def log_rows_def unpublished_def)
    moreover have "log_rows (publish_next sv) = log_rows sv" "sv_store (publish_next sv) = sv_store sv"
      using Some w Cons by (simp_all add: publish_next_def log_rows_def)
    ultimately show ?thesis using ok by (auto simp: writer_ok_def)
  qed
qed (use ok in \<open>simp add: publish_next_def\<close>)

lemma publish_receives:
  assumes ok: "writer_ok x sv" and rc: "receives_from i n (sv, got)"
  shows "receives_from i n (publish_next sv, got)"
proof (cases "\<exists>j e es. sv_writing sv = Some (j, e # es)")
  case False
  then consider "sv_writing sv = None" | j where "sv_writing sv = Some (j, [])"
    by (metis list.exhaust option.exhaust surj_pair)
  then show ?thesis
  proof cases
    case 1
    with rc show ?thesis by (simp add: publish_next_def)
  next
    case 2
    have "log_rows (publish_next sv) = log_rows sv" "published_rows (publish_next sv) = published_rows sv"
      "sv_subs (publish_next sv) = sv_subs sv"
      using 2 by (simp_all add: publish_next_def set_receipt_def log_rows_def published_rows_def unpublished_def)
    with rc show ?thesis by (simp add: receives_from_def Let_def)
  qed
next
  case True
  then obtain j e es where w: "sv_writing sv = Some (j, e # es)" by blast
  let ?p = "published_rows sv"
  from ok w have p: "log_rows sv = ?p @ event_row_of e # map event_row_of es"
    using published_rows_eq by (fastforce simp: writer_ok_def unpublished_def)
  have log: "log_rows (publish_next sv) = log_rows sv"
    using publish_next_log [OF ok] by simp
  have "log_rows (publish_next sv) = (?p @ [event_row_of e]) @ map event_row_of (unpublished (publish_next sv))"
    unfolding log using p w by (simp add: publish_next_def unpublished_def)
  from published_rows_eq [OF this] have pub: "published_rows (publish_next sv) = ?p @ [event_row_of e]" .
  have "contiguous (log_rows sv)"
    using ok by (simp add: writer_ok_def store_ok_def events_ok_def log_rows_def)
  then have "map er_sequence (log_rows sv) ! length ?p = map int [1..<Suc (length (log_rows sv))] ! length ?p"
    by (simp only: contiguous_def)
  then have seq: "ev_sequence e = int (Suc (length ?p))"
    using p by (simp add: nth_append del: upt_Suc)
  let ?sub = "sv_subs sv ! i"
  have sub: "sv_subs (publish_next sv) ! i = offer e ?sub" "length (sv_subs (publish_next sv)) = length (sv_subs sv)"
    using rc w by (simp_all add: publish_next_def receives_from_def)
  show ?thesis
  proof (cases "int (Suc (length ?p)) \<le> int n")
    case True
    then have "drop n (?p @ [event_row_of e]) = drop n ?p" by simp
    with True rc sub show ?thesis by (simp add: receives_from_def log pub offer_def seq Let_def split: if_splits)
  next
    case False
    then have "drop n (?p @ [event_row_of e]) = drop n ?p @ [event_row_of e]" by simp
    with False rc sub show ?thesis
      by (simp add: receives_from_def log pub offer_def seq Let_def split: if_splits)
  qed
qed

lemma drain_receives:
  assumes "svc_drain k limit sv = Inr (out, sv')" "k < length (sv_subs sv)" "receives_from i n (sv, got)"
  shows "same_log sv sv' \<and> receives_from i n (sv', got(k := got k @ out))"
proof -
  from assms(1) have d: "\<not> sb_gap (sv_subs sv ! k)" "out = take (nat limit) (sb_queue (sv_subs sv ! k))"
      "sv' = sv\<lparr>sv_subs := (sv_subs sv)[k := (sv_subs sv ! k)\<lparr>sb_queue := drop (nat limit) (sb_queue (sv_subs sv ! k))\<rparr>]\<rparr>"
    by (auto simp: svc_drain_def drain_def py_bind_Inr_iff)
  have same: "same_log sv sv'" by (simp add: same_log_def d)
  show ?thesis
  proof (cases "i = k")
    case True
    have "map event_row_of (take m q) @ map event_row_of (drop m q) = map event_row_of q" for m q
      by (metis append_take_drop_id map_append)
    with True assms(2,3) d(1) same show ?thesis
      by (simp add: receives_from_def same_log_rows Let_def d(2,3))
  next
    case False
    with assms(2,3) same show ?thesis by (simp add: receives_from_def same_log_rows Let_def d(3))
  qed
qed

lemma subscribe_frame:
  "subscribe capacity sv = Inr sv' \<Longrightarrow> \<exists>sub. same_log sv sv' \<and> sv_subs sv' = sv_subs sv @ [sub]"
  "subscribe_from after capacity sv = Inr (h, sv') \<Longrightarrow> \<exists>sub. same_log sv sv' \<and> sv_subs sv' = sv_subs sv @ [sub]"
  by (auto simp: subscribe_def subscribe_from_def same_log_def py_bind_Inr_iff)

lemma enqueue_ops_frame:
  "submit_task x request h payload bytes sv = Inr (i, sv') \<Longrightarrow> same_log sv sv' \<and> sv_subs sv' = sv_subs sv"
  "svc_append kind payload task bytes sv = Inr (i, sv') \<Longrightarrow> same_log sv sv' \<and> sv_subs sv' = sv_subs sv"
  "svc_finalize x tid vp cp bytes sv = Inr (i, sv') \<Longrightarrow> same_log sv sv' \<and> sv_subs sv' = sv_subs sv"
  by (auto simp: submit_task_def svc_append_def svc_finalize_def Let_def py_bind_Inr_iff dest: enqueue_frame)

lemma cancel_frame:
  assumes "svc_request_cancel x task epoch src why sv = Inr (i, sv')"
  shows "same_log sv sv' \<and> sv_subs sv' = sv_subs sv"
  using assms enqueue_ops_frame(2) [of _ _ _ _ "sv\<lparr>sv_drawn := Suc (sv_drawn sv)\<rparr>"]
  by (auto simp: svc_request_cancel_def same_log_def)

definition served_ok :: "service_env \<Rightarrow> served \<Rightarrow> bool" where
  "served_ok x s \<longleftrightarrow> writer_ok x (fst s)"

lemma service_step_cases:
  assumes "service_step x op (sv, got) = Inr (sv', got')"
  obtains (same) "same_log sv sv'" "sv_subs sv' = sv_subs sv" "got' = got"
  | (subscribed) sub where "same_log sv sv'" "sv_subs sv' = sv_subs sv @ [sub]" "got' = got"
  | (drained) i limit out where "svc_drain i limit sv = Inr (out, sv')" "i < length (sv_subs sv)" "got' = got(i := got i @ out)"
  | (committed) "sv' = commit_next x sv" "got' = got"
  | (published) "sv' = publish_next sv" "got' = got"
proof (cases op)
  case (Subscribe c)
  with assms subscribe_frame(1) show ?thesis by (fastforce simp: service_step_def py_bind_Inr_iff intro: subscribed)
next
  case (Subscribe_From a c)
  with assms subscribe_frame(2) show ?thesis by (fastforce simp: service_step_def py_bind_Inr_iff intro: subscribed)
next
  case (Close_Service)
  with assms show ?thesis by (auto simp: service_step_def close_service_def same_log_def intro: same)
qed (use assms in \<open>auto simp: service_step_def py_bind_Inr_iff split: if_splits
  intro: same drained committed published dest: enqueue_ops_frame cancel_frame\<close>)

interpretation service_run: guarded_machine "service_step x" "served_ok x" for x
proof unfold_locales
  fix s s' op
  assume ok: "served_ok x s" and step: "service_step x op s = Inr s'"
  obtain sv got sv' got' where s: "s = (sv, got)" "s' = (sv', got')" by (cases s, cases s')
  from step [unfolded s] ok show "served_ok x s'"
  proof (cases rule: service_step_cases)
    case (drained i limit out)
    then have "same_log sv sv'" by (auto simp: svc_drain_def same_log_def py_bind_Inr_iff)
    with ok s show ?thesis by (simp add: served_ok_def same_log_writer)
  qed (use ok s in \<open>simp_all add: served_ok_def same_log_writer commit_next_log publish_next_log\<close>)
qed

interpretation handed_over: guarded_machine "service_step x" "\<lambda>s. served_ok x s \<and> receives_from i n s" for x i n
proof unfold_locales
  fix s s' op
  assume a: "served_ok x s \<and> receives_from i n s" and step: "service_step x op s = Inr s'"
  obtain sv got sv' got' where s: "s = (sv, got)" "s' = (sv', got')" by (cases s, cases s')
  from a s have ok: "writer_ok x sv" and rc: "receives_from i n (sv, got)" by (auto simp: served_ok_def)
  from step [unfolded s] have "receives_from i n s'"
  proof (cases rule: service_step_cases)
    case same
    with rc s receives_frame [OF same(1,2)] show ?thesis by simp
  next
    case (subscribed sub)
    with rc s receives_new_sub [OF subscribed(1,2)] show ?thesis by simp
  next
    case (drained k limit out)
    with drain_receives [OF drained(1,2) rc] s show ?thesis by simp
  next
    case committed
    with commit_next_log [OF ok] rc s show ?thesis by (simp add: receives_from_def Let_def)
  next
    case published
    with publish_receives [OF ok rc] s show ?thesis by simp
  qed
  with service_run.step_inv [OF _ step] a show "served_ok x s' \<and> receives_from i n s'" by blast
qed

end
