(* ===== verification/Service_Properties.thy ===== *)
theory Service_Properties
  imports Session_Service
begin

text \<open>
  The contract of the session service towards a subscriber: replay up to the handoff and the
  live queue after it together are the log, each event once.
\<close>

definition new_served :: "service_env \<Rightarrow> string \<Rightarrow> string \<Rightarrow> string option \<Rightarrow> int \<Rightarrow> served" where
  \<comment> \<open>a service just started on a new store\<close>
  "new_served x stream producer session capacity =
     (\<lparr>sv_store = empty_store, sv_stream = stream, sv_producer = producer, sv_session = session,
       sv_capacity = capacity, sv_commands = [], sv_receipts = [], sv_writing = None, sv_subs = [],
       sv_closed = False, sv_drawn = 0\<rparr>, \<lambda>_. [])"

lemma new_served_ok: "served_ok x (new_served x stream producer session capacity)"
  using empty_store_ok [of "sx_valid x" "sx_sha x"]
  by (simp add: new_served_def served_ok_def writer_ok_def unpublished_def)

lemma subscribed_receives:
  assumes ok: "writer_ok x sv" and sub: "subscribe_from after capacity sv = Inr (h, sv')"
    and got: "got (length (sv_subs sv)) = []"
  shows "receives_from (length (sv_subs sv)) (length (log_rows sv)) (sv', got)"
proof -
  from ok have "next_sequence (sv_store sv) (sv_stream sv) = int (Suc (length (log_rows sv)))"
    by (simp add: writer_ok_def store_ok_def events_ok_def log_rows_def)
  then have t: "replay_through sv = int (length (log_rows sv))" by (simp add: replay_through_def)
  from sub obtain s where "new_subscription capacity (replay_through sv) = Inr s" "sv' = sv\<lparr>sv_subs := sv_subs sv @ [s]\<rparr>"
    by (auto simp: subscribe_from_def py_bind_Inr_iff)
  with t got show ?thesis
    by (auto simp: receives_from_def new_subscription_def log_rows_def published_rows_def unpublished_def)
qed

lemma got_beyond:
  "(\<forall>k \<ge> length (sv_subs (fst s)). snd s k = []) \<Longrightarrow> service_step x op s = Inr s' \<Longrightarrow>
     (\<forall>k \<ge> length (sv_subs (fst s')). snd s' k = [])"
proof -
  assume a: "\<forall>k \<ge> length (sv_subs (fst s)). snd s k = []" and step: "service_step x op s = Inr s'"
  obtain sv got sv' got' where s: "s = (sv, got)" "s' = (sv', got')" by (cases s, cases s')
  from step [unfolded s] show ?thesis
  proof (cases rule: service_step_cases)
    case (drained i limit out)
    then have "length (sv_subs sv') = length (sv_subs sv)" by (auto simp: svc_drain_def py_bind_Inr_iff)
    with a s drained show ?thesis by auto
  next
    case committed
    have "sv_subs (commit_next x sv) = sv_subs sv"
      by (auto simp: commit_next_def set_receipt_def Let_def split: option.splits list.splits sum.splits)
    with a s committed show ?thesis by simp
  next
    case published
    have "length (sv_subs (publish_next sv)) = length (sv_subs sv)"
      by (auto simp: publish_next_def set_receipt_def split: option.splits list.splits)
    with a s published show ?thesis by simp
  qed (use a s in auto)
qed

interpretation fresh_subs: guarded_machine "service_step x" "\<lambda>s. \<forall>k \<ge> length (sv_subs (fst s)). snd s k = []" for x
  by unfold_locales (rule got_beyond)

lemma up_to_all:
  "(\<forall>v \<in> set vs. \<exists>i. py_item v ''sequence'' = Inr (PInt i)) \<Longrightarrow>
     up_to n vs = Inr (filter (\<lambda>v. \<exists>i \<le> n. py_item v ''sequence'' = Inr (PInt i)) vs)"
  by (induction vs) (auto simp: py_int_def)

lemma canon_sequence: "py_item (canon (PDict (envelope_dict e))) ''sequence'' = Inr (PInt (ev_sequence e))"
proof -
  have d: "distinct (map fst (envelope_dict e))" by (simp add: envelope_dict_def)
  have "map_of (map (\<lambda>kv. (fst kv, canon (snd kv))) (envelope_dict e)) ''sequence'' = Some (PInt (ev_sequence e))"
    by (simp add: envelope_dict_def)
  moreover have "distinct (map fst (map (\<lambda>kv. (fst kv, canon (snd kv))) (envelope_dict e)))"
    using d by (simp add: comp_def)
  ultimately show ?thesis by (simp add: py_item_def map_of_sorted del: sort_key_simps)
qed

lemma filter_numbered:
  "map f es = map int [a..<b] \<Longrightarrow> filter (\<lambda>e. f e \<le> int n) es = take (Suc n - a) es"
proof (induction es arbitrary: a)
  case (Cons e es)
  then have lt: "a < b" by (cases "a < b") auto
  with Cons.prems have "f e = int a" "map f es = map int [Suc a..<b]"
    by (simp_all add: upt_conv_Cons)
  with Cons.IH [of "Suc a"] show ?case
    by (cases "a \<le> n") (auto simp: Suc_diff_le filter_empty_conv)
qed simp

lemma page_of_handoff:
  assumes ok: "writer_ok x sv" and valid: "validator_ok (sx_valid x)" and h: "rp_stream h = sv_stream sv"
    and n: "rp_through h = int n" and c: "0 \<le> rp_after h" "rp_after h \<le> cursor" "cursor \<le> rp_through h"
    and l: "1 \<le> limit" "limit \<le> 10000"
  shows "\<exists>es. replay_subscription_page x sv h (Some cursor) limit = Inr (map (\<lambda>e. canon (PDict (envelope_dict e))) es)
    \<and> map event_row_of es = take (min (nat limit) (n - nat cursor)) (drop (nat cursor) (log_rows sv))"
proof (cases "cursor = rp_through h")
  case True
  with h n c show ?thesis by (intro exI [of _ "[]"]) (simp add: replay_subscription_page_def)
next
  case False
  have ev: "events_ok (sx_valid x) (sv_store sv)" using ok by (simp add: writer_ok_def store_ok_def)
  from c have "0 \<le> cursor" by simp
  from replay_ok [OF ev valid this l, of "sv_stream sv"] obtain es where
    r: "replay (sx_valid x) (sv_store sv) (sv_stream sv) cursor limit = Inr (map (\<lambda>e. canon (PDict (envelope_dict e))) es)"
    and rows: "map event_row_of es = take (nat limit) (drop (nat cursor) (log_rows sv))"
    by (auto simp: log_rows_def)
  have "contiguous (log_rows sv)" using ev by (simp add: events_ok_def log_rows_def)
  from contiguous_slice [OF this, of "nat limit" "nat cursor"]
  have "map er_sequence (map event_row_of es) = map int [Suc (nat cursor)..<Suc (min (nat cursor + nat limit) (length (log_rows sv)))]"
    by (simp only: rows)
  then have "map ev_sequence es = map int [Suc (nat cursor)..<Suc (min (nat cursor + nat limit) (length (log_rows sv)))]"
    by (simp add: comp_def del: upt_Suc)
  from filter_numbered [OF this, of n]
  have f: "filter (\<lambda>e. ev_sequence e \<le> int n) es = take (n - nat cursor) es" by simp
  have "up_to (int n) (map (\<lambda>e. canon (PDict (envelope_dict e))) es)
      = Inr (map (\<lambda>e. canon (PDict (envelope_dict e))) (take (n - nat cursor) es))"
    by (subst up_to_all) (auto simp: canon_sequence filter_map comp_def f simp del: canon.simps)
  moreover have "map event_row_of (take (n - nat cursor) es)
      = take (min (nat limit) (n - nat cursor)) (drop (nat cursor) (log_rows sv))"
    by (simp add: take_map [symmetric] rows min.commute)
  ultimately show ?thesis
    using False h n c r by (intro exI [of _ "take (n - nat cursor) es"])
      (simp add: replay_subscription_page_def svc_replay_def del: canon.simps)
qed

lemma step_stream: "sv_stream (fst s) = st \<Longrightarrow> service_step x op s = Inr s' \<Longrightarrow> sv_stream (fst s') = st"
proof -
  assume st: "sv_stream (fst s) = st" and step: "service_step x op s = Inr s'"
  obtain sv got sv' got' where s: "s = (sv, got)" "s' = (sv', got')" by (cases s, cases s')
  from step [unfolded s] st s show ?thesis
  proof (cases rule: service_step_cases)
    case (drained i limit out)
    then have "sv_stream sv' = sv_stream sv" by (auto simp: svc_drain_def py_bind_Inr_iff)
    with st s show ?thesis by simp
  next
    case committed
    have "sv_stream (commit_next x sv) = sv_stream sv"
      by (auto simp: commit_next_def set_receipt_def Let_def split: option.splits list.splits sum.splits)
    with st s committed show ?thesis by simp
  next
    case published
    have "sv_stream (publish_next sv) = sv_stream sv"
      by (auto simp: publish_next_def set_receipt_def split: option.splits list.splits)
    with st s published show ?thesis by simp
  qed (use st s in \<open>simp_all add: same_log_def\<close>)
qed

interpretation fixed_stream: guarded_machine "service_step x" "\<lambda>s. sv_stream (fst s) = st" for x st
  by unfold_locales (rule step_stream)

definition handoff_complete :: "service_env \<Rightarrow> replay_subscription \<Rightarrow> nat \<Rightarrow> int \<Rightarrow> int \<Rightarrow> served \<Rightarrow> bool" where
  \<comment> \<open>a page of the replay from \<open>cursor\<close>, and everything subscriber \<open>i\<close> drained or has queued\<close>
  "handoff_complete x h i cursor limit s \<longleftrightarrow>
     (case s of (sv, got) \<Rightarrow>
        let n = nat (rp_through h); seen = map event_row_of (got i @ sb_queue (sv_subs sv ! i)) in
        (\<exists>es. replay_subscription_page x sv h (Some cursor) limit = Inr (map (\<lambda>e. canon (PDict (envelope_dict e))) es)
           \<and> map event_row_of es = take (min (nat limit) (n - nat cursor)) (drop (nat cursor) (log_rows sv)))
        \<and> (if sb_gap (sv_subs sv ! i) then prefix seen (drop n (published_rows sv)) else seen = drop n (published_rows sv))
        \<and> prefix (published_rows sv) (log_rows sv))"

text \<open>C18: A subscriber misses nothing and sees nothing twice.  Take any script of service calls,
  commits and publications, a subscription from a cursor at any moment of it (also between a
  commit and its publication), and any script after it.  The pages of the replay are the log
  from the cursor up to the handoff; what the subscriber drained together with what waits in
  its queue is exactly the published log after the handoff, in order, unless its queue
  overflowed: then it is an initial part of it and the next drain says so.\<close>
theorem handoff_delivers_each_event_once:
  assumes "validator_ok (sx_valid x)"
    and "(sv, got) = run_ops (service_step x) ops (new_served x stream producer session capacity)"
    and "subscribe_from after cap sv = Inr (h, sv1)"
    and "after \<le> cursor" "cursor \<le> rp_through h" "1 \<le> limit" "limit \<le> 10000"
  shows "handoff_complete x h (length (sv_subs sv)) cursor limit (run_ops (service_step x) later (sv1, got))"
proof -
  have ok: "served_ok x (sv, got)" unfolding assms(2) by (rule service_run.run_inv [OF new_served_ok])
  then have w: "writer_ok x sv" by (simp add: served_ok_def)
  have "\<forall>k \<ge> length (sv_subs (fst (sv, got))). snd (sv, got) k = []"
    unfolding assms(2) by (rule fresh_subs.run_inv) (simp add: new_served_def)
  then have "got (length (sv_subs sv)) = []" by simp
  from subscribed_receives [of x sv after cap h sv1 got, OF w assms(3) this]
  have rc: "receives_from (length (sv_subs sv)) (length (log_rows sv)) (sv1, got)" .
  from subscribe_frame(2) [OF assms(3)] have same: "same_log sv sv1" by blast
  then have "served_ok x (sv1, got)" using w by (simp add: served_ok_def same_log_writer)
  with rc have inv: "served_ok x (run_ops (service_step x) later (sv1, got))
      \<and> receives_from (length (sv_subs sv)) (length (log_rows sv)) (run_ops (service_step x) later (sv1, got))"
    by (intro handed_over.run_inv) simp
  have st: "sv_stream (fst (run_ops (service_step x) later (sv1, got))) = sv_stream sv"
    using same by (intro fixed_stream.run_inv) (simp add: same_log_def)
  obtain sv2 got2 where s2: "run_ops (service_step x) later (sv1, got) = (sv2, got2)"
    by (cases "run_ops (service_step x) later (sv1, got)")
  from w have "next_sequence (sv_store sv) (sv_stream sv) = int (Suc (length (log_rows sv)))"
    by (simp add: writer_ok_def store_ok_def events_ok_def log_rows_def)
  then have h: "rp_through h = int (length (log_rows sv))" "rp_stream h = sv_stream sv" "rp_after h = after" "0 \<le> after"
    using assms(3) by (auto simp: subscribe_from_def replay_through_def py_bind_Inr_iff)
  from inv s2 have w2: "writer_ok x sv2" and rc2: "receives_from (length (sv_subs sv)) (length (log_rows sv)) (sv2, got2)"
    by (auto simp: served_ok_def)
  have "prefix (published_rows sv2) (log_rows sv2)" by (simp add: published_rows_def take_is_prefix)
  moreover have "\<exists>es. replay_subscription_page x sv2 h (Some cursor) limit = Inr (map (\<lambda>e. canon (PDict (envelope_dict e))) es)
      \<and> map event_row_of es = take (min (nat limit) (length (log_rows sv) - nat cursor)) (drop (nat cursor) (log_rows sv2))"
    using st s2 h assms by (intro page_of_handoff [OF w2]) auto
  ultimately show ?thesis
    using rc2 h(1) by (simp add: handoff_complete_def s2 receives_from_def Let_def del: canon.simps)
qed

definition demo_env :: service_env where
  "demo_env = \<lparr>sx_valid = demo_valid, sx_sha = demo_digest, sx_uuid5 = (\<lambda>_ _. ''00000000000000000000000000000001''),
     sx_uuid4 = nat_str, sx_now = (\<lambda>_. ''t'')\<rparr>"

definition demo_note :: service_op where
  "demo_note = Append_Event ''session.note'' [] None None"

definition demo_served :: served where
  "demo_served = run_ops (service_step demo_env) []
     (new_served demo_env ''00000000000000000000000000000002'' ''00000000000000000000000000000003'' None 8)"

definition demo_later :: "service_op list" where
  "demo_later = [demo_note, Commit_Next, Publish_Next, Drain 0 5]"

theorem handoff_delivers_each_event_once_witness:
  "\<exists>sv got h sv1 sv2 got2. demo_served = (sv, got) \<and> subscribe_from 0 4 sv = Inr (h, sv1)
     \<and> run_ops (service_step demo_env) demo_later (sv1, got) = (sv2, got2)
     \<and> map ev_sequence (got2 0) = [1] \<and> handoff_complete demo_env h 0 0 10 (sv2, got2)"
proof -
  obtain sv got where s: "demo_served = (sv, got)" by (cases demo_served)
  have "returns (\<lambda>(h, sv1). rp_through h = 0 \<and> sv_subs (fst demo_served) = []
      \<and> map ev_sequence (snd (run_ops (service_step demo_env) demo_later (sv1, snd demo_served)) 0) = [1])
      (subscribe_from 0 4 (fst demo_served))" by code_simp
  then obtain h sv1 where sub: "subscribe_from 0 4 sv = Inr (h, sv1)" and t: "rp_through h = 0" "sv_subs sv = []"
      and d: "map ev_sequence (snd (run_ops (service_step demo_env) demo_later (sv1, got)) 0) = [1]"
    by (auto simp: s elim!: returnsE)
  obtain sv2 got2 where s2: "run_ops (service_step demo_env) demo_later (sv1, got) = (sv2, got2)"
    by (cases "run_ops (service_step demo_env) demo_later (sv1, got)")
  have v: "validator_ok (sx_valid demo_env)" by (simp add: demo_env_def demo_validator)
  from handoff_delivers_each_event_once [OF v s [symmetric, unfolded demo_served_def] sub, of 0 10 demo_later] t s2
  have "handoff_complete demo_env h 0 0 10 (sv2, got2)" by simp
  moreover from d s2 have "map ev_sequence (got2 0) = [1]" by simp
  ultimately show ?thesis using s sub s2
    by (intro exI [of _ sv] exI [of _ got] exI [of _ h] exI [of _ sv1] exI [of _ sv2] exI [of _ got2]) simp
qed

end
