(* ===== verification/Terminal_Truth.thy ===== *)
theory Terminal_Truth
  imports Service_Properties
begin

text \<open>
  \<open>session/terminal_truth.py\<close>: the cleanup fact of a task is projected from the committed tool
  events of its execution epoch, read from the store page by page, and from the retained
  failure records of the calls that did not end normally.  The log is the one of the moment
  the projection starts.
\<close>

declare json_compact.simps(6) [simp del] and canon.simps(2) [simp del] and keys_distinct.simps(2) [simp del]

section \<open>Reading the log\<close>

record scan =
  sc_open :: "(string \<times> string) list"          \<comment> \<open>open calls: id and tool\<close>
  sc_calls :: "(string \<times> pydict option) list"   \<comment> \<open>process-spawning calls and their finish\<close>

definition put_key :: "'k \<Rightarrow> 'v \<Rightarrow> ('k \<times> 'v) list \<Rightarrow> ('k \<times> 'v) list" where
  \<comment> \<open>\<open>d[k] = v\<close>\<close>
  "put_key k v d = (if k \<in> fst ` set d then map (\<lambda>e. if fst e = k then (k, v) else e) d else d @ [(k, v)])"

definition pop_key :: "'k \<Rightarrow> ('k \<times> 'v) list \<Rightarrow> ('k \<times> 'v) list" where
  "pop_key k d = filter (\<lambda>e. fst e \<noteq> k) d"

definition payload_of :: "pydict \<Rightarrow> pydict py" where
  \<comment> \<open>\<open>event.get("payload") or {}\<close>\<close>
  "payload_of d = (let p = py_get d ''payload'' in if truthy p then py_obj p else Inr [])"

definition epoch_of :: "pydict \<Rightarrow> int py" where
  "epoch_of p = (if has_key p ''execution_epoch'' then py_int (py_get p ''execution_epoch'') else Inr (-1))"

definition note_tool :: "string set \<Rightarrow> pyval \<Rightarrow> pydict \<Rightarrow> scan \<Rightarrow> scan py" where
  \<comment> \<open>the effect of a tool event of the task and epoch\<close>
  "note_tool tools kind p sc =
     (if kind = PStr ''tool.started'' then
        py_bind (py_item (PDict p) ''call_id'') (\<lambda>c.
        py_bind (py_item (PDict p) ''tool_name'') (\<lambda>t.
          Inr (sc\<lparr>sc_open := put_key (py_str c) (py_str t) (sc_open sc),
                  sc_calls := (if py_str t \<in> tools then put_key (py_str c) None (sc_calls sc) else sc_calls sc)\<rparr>)))
      else if kind = PStr ''tool.finished'' then
        py_bind (py_item (PDict p) ''call_id'') (\<lambda>c.
          Inr (sc\<lparr>sc_open := pop_key (py_str c) (sc_open sc),
                  sc_calls := (if py_str c \<in> fst ` set (sc_calls sc) then put_key (py_str c) (Some p) (sc_calls sc)
                               else sc_calls sc)\<rparr>))
      else Inr sc)"

definition note_event :: "string \<Rightarrow> int \<Rightarrow> string set \<Rightarrow> pyval \<Rightarrow> scan \<Rightarrow> scan py" where
  "note_event task epoch tools v sc =
     py_bind (py_obj v) (\<lambda>d.
       if py_get d ''task_id'' \<noteq> PStr task then Inr sc
       else py_bind (payload_of d) (\<lambda>p. py_bind (epoch_of p) (\<lambda>n.
              if n \<noteq> epoch then Inr sc else note_tool tools (py_get d ''kind'') p sc)))"

fun note_batch :: "string \<Rightarrow> int \<Rightarrow> string set \<Rightarrow> pyval list \<Rightarrow> int \<times> scan \<Rightarrow> (int \<times> scan) py" where
  "note_batch task epoch tools [] st = Inr st"
| "note_batch task epoch tools (v # vs) st =
     py_bind (py_item v ''sequence'') (\<lambda>q. py_bind (py_int q) (\<lambda>i.
     py_bind (note_event task epoch tools v (snd st)) (\<lambda>sc. note_batch task epoch tools vs (i, sc))))"

definition PAGE :: nat where "PAGE = 1000"

partial_function (option) scan_log ::
  "(int \<Rightarrow> pyval list py) \<Rightarrow> (pyval list \<Rightarrow> int \<times> scan \<Rightarrow> (int \<times> scan) py) \<Rightarrow> int \<times> scan \<Rightarrow> scan py option" where
  \<comment> \<open>the \<open>while True\<close> loop over the pages\<close>
  "scan_log page note st =
     (case page (fst st) of
        Inl e \<Rightarrow> Some (Inl e)
      | Inr batch \<Rightarrow>
          if batch = [] then Some (Inr (snd st))
          else (case note batch st of
                  Inl e \<Rightarrow> Some (Inl e)
                | Inr st' \<Rightarrow> if length batch < PAGE then Some (Inr (snd st')) else scan_log page note st'))"

declare scan_log.simps [code]

section \<open>The cleanup fact\<close>

definition OK_EXECUTION_REASON_CODES :: "string list" where
  "OK_EXECUTION_REASON_CODES = [''completed'', ''stale_evidence'', ''missing_evidence'', ''scope_changed'']"

definition TOOL_FAILURE_SCHEMAS :: "string list" where
  "TOOL_FAILURE_SCHEMAS = [''lca.tool-failure/2'', ''lca.tool-failure/3'']"

definition ended_normally :: "pydict \<Rightarrow> bool py" where
  "ended_normally f =
     (if py_get f ''execution'' = PStr ''ok'' then member_of OK_EXECUTION_REASON_CODES (py_get f ''reason_code'')
      else Inr False)"

definition failure_record :: "service_env \<Rightarrow> service \<Rightarrow> pydict \<Rightarrow> pydict option py" where
  "failure_record x sv f =
     (case py_get f ''result_ref'' of
        PDict ref \<Rightarrow>
          if py_get f ''execution'' = PStr ''ok'' then Inr None
          else py_bind (artifact_bytes (sx_sha x) (sv_store sv) ref) (\<lambda>bytes.
               py_bind (load_bytes bytes) (\<lambda>v.
                 case v of
                   PDict d \<Rightarrow> py_bind (member_of TOOL_FAILURE_SCHEMAS (py_get d ''schema'')) (\<lambda>known.
                                Inr (if known then Some d else None))
                 | _ \<Rightarrow> Inr None))
      | _ \<Rightarrow> Inr None)"

definition record_says :: "string \<Rightarrow> bool \<Rightarrow> pydict option \<Rightarrow> bool" where
  "record_says key b r = (case r of None \<Rightarrow> False | Some d \<Rightarrow> py_get d key = PBool b)"

definition started_no_process :: "service_env \<Rightarrow> service \<Rightarrow> pydict \<Rightarrow> bool py" where
  "started_no_process x sv f =
     py_bind (failure_record x sv f) (\<lambda>r. Inr (record_says ''process_started'' False r))"

definition stop_confirmed :: "service_env \<Rightarrow> service \<Rightarrow> pydict \<Rightarrow> bool py" where
  "stop_confirmed x sv f =
     (if py_get f ''reason_code'' \<noteq> PStr ''cancelled'' then Inr False
      else py_bind (failure_record x sv f) (\<lambda>r. Inr (record_says ''process_cleanup_confirmed'' True r)))"

fun all_py :: "('a \<Rightarrow> bool py) \<Rightarrow> 'a list \<Rightarrow> bool py" where
  \<comment> \<open>\<open>all(...)\<close> stops at the first false item\<close>
  "all_py p [] = Inr True"
| "all_py p (x # xs) = py_bind (p x) (\<lambda>b. if b then all_py p xs else Inr False)"

fun any_py :: "('a \<Rightarrow> bool py) \<Rightarrow> 'a list \<Rightarrow> bool py" where
  "any_py p [] = Inr False"
| "any_py p (x # xs) = py_bind (p x) (\<lambda>b. if b then Inr True else any_py p xs)"

fun keep_py :: "('a \<Rightarrow> bool py) \<Rightarrow> 'a list \<Rightarrow> 'a list py" where
  "keep_py p [] = Inr []"
| "keep_py p (x # xs) = py_bind (p x) (\<lambda>b. py_bind (keep_py p xs) (\<lambda>ys. Inr (if b then x # ys else ys)))"

definition or_py :: "bool py \<Rightarrow> bool py \<Rightarrow> bool py" where
  "or_py a b = py_bind a (\<lambda>t. if t then Inr True else b)"

definition cleanup_fact :: "service_env \<Rightarrow> service \<Rightarrow> (string \<times> pydict option) list \<Rightarrow> string py" where
  "cleanup_fact x sv calls =
     py_bind (keep_py (\<lambda>(c, f). case f of None \<Rightarrow> Inr True
                        | Some p \<Rightarrow> py_bind (started_no_process x sv p) (\<lambda>b. Inr (\<not> b))) calls) (\<lambda>left.
       if \<exists>e \<in> set left. snd e = None then Inr ''unknown''
       else if left = [] then Inr ''not_needed''
       else
         let finishes = map (the \<circ> snd) left in
         py_bind (all_py ended_normally finishes) (\<lambda>normal.
         if normal then Inr ''not_needed''
         else py_bind (all_py (\<lambda>f. or_py (ended_normally f) (stop_confirmed x sv f)) finishes) (\<lambda>stopped.
         if stopped then Inr ''confirmed''
         else py_bind (any_py (\<lambda>f. member_of [''tool_timeout'', ''cancelled''] (py_get f ''reason_code'')) finishes) (\<lambda>cut.
           Inr (if cut then ''attempted'' else ''unknown'')))))"

definition truth_start :: "service \<Rightarrow> string \<Rightarrow> int py" where
  \<comment> \<open>the cursor just before the admission\<close>
  "truth_start sv task =
     py_bind (task_record (sv_store sv) task) (\<lambda>r.
       case r of
         None \<Rightarrow> Inl ValueError
       | Some d \<Rightarrow> py_bind (py_item (PDict d) ''admitted_sequence'') (\<lambda>q. py_bind (py_int q) (\<lambda>i. Inr (i - 1))))"

definition no_calls :: scan where
  "no_calls = \<lparr>sc_open = [], sc_calls = []\<rparr>"

definition truth_of_scan :: "service_env \<Rightarrow> service \<Rightarrow> scan \<Rightarrow> (string \<times> string list) py" where
  \<comment> \<open>cleanup and the open call ids\<close>
  "truth_of_scan x sv sc = py_bind (cleanup_fact x sv (sc_calls sc)) (\<lambda>c. Inr (c, sort (map fst (sc_open sc))))"

definition derive_terminal_truth ::
  "service_env \<Rightarrow> service \<Rightarrow> string \<Rightarrow> int \<Rightarrow> string set \<Rightarrow> (string \<times> string list) py option" where
  \<comment> \<open>no value: the paging does not end\<close>
  "derive_terminal_truth x sv task epoch tools =
     (case truth_start sv task of
        Inl e \<Rightarrow> Some (Inl e)
      | Inr start \<Rightarrow>
          map_option (\<lambda>r. py_bind r (truth_of_scan x sv))
            (scan_log (\<lambda>after. svc_replay x sv after (int PAGE)) (note_batch task epoch tools) (start, no_calls)))"

section \<open>Paging is one pass over the log\<close>

lemma note_batch_append:
  "note_batch task epoch tools (vs @ ws) st =
     py_bind (note_batch task epoch tools vs st) (note_batch task epoch tools ws)"
  by (induction vs arbitrary: st) (auto simp: py_bind_def split: sum.splits)

definition event_values :: "envelope list \<Rightarrow> pyval list" where
  "event_values es = map (\<lambda>e. canon (PDict (envelope_dict e))) es"

lemma note_batch_cursor:
  "note_batch task epoch tools (event_values es) (c, sc) = Inr (c', sc') \<Longrightarrow> es \<noteq> [] \<Longrightarrow> c' = ev_sequence (last es)"
proof (induction es arbitrary: c sc)
  case (Cons e es)
  then obtain sc1 where "note_batch task epoch tools (event_values es) (ev_sequence e, sc1) = Inr (c', sc')"
    by (auto simp: event_values_def canon_sequence py_int_def py_bind_Inr_iff)
  with Cons.IH [OF this] show ?case by (cases "es = []") (simp_all add: event_values_def)
qed simp

definition all_valid :: "(pyval \<Rightarrow> bool) \<Rightarrow> envelope list \<Rightarrow> bool" where
  "all_valid valid es \<longleftrightarrow> (\<forall>e \<in> set es. valid (PDict (envelope_dict e)))"

lemma all_valid_append [simp]: "all_valid valid (es @ fs) \<longleftrightarrow> all_valid valid es \<and> all_valid valid fs"
  by (auto simp: all_valid_def)

lemma decoded_rows:
  assumes ok: "events_ok valid s"
  shows "\<exists>es. map event_row_of es = drop n (stream_rows s stream) \<and> all_valid valid es"
proof -
  have "set (drop n (stream_rows s stream)) \<subseteq> set (so_events s)"
    using set_drop_subset by (fastforce simp: stream_rows_def)
  with ok have "\<forall>r \<in> set (drop n (stream_rows s stream)). \<exists>e. r = event_row_of e \<and> valid (PDict (envelope_dict e))"
    by (auto simp: events_ok_def)
  from rows_envelopes [OF this] show ?thesis by (metis all_valid_def)
qed

lemma load_rows:
  assumes "events_ok valid s" "validator_ok valid" "0 \<le> c" "all_valid valid es"
    and "map event_row_of es = drop (nat c) (stream_rows s stream)"
  shows "load_events valid (map er_json (events_after s stream c)) = Inr (event_values es)"
proof -
  have "load_events valid (map encoded es) = Inr (map (\<lambda>e. canon (PDict (envelope_dict e))) es)"
    using assms by (intro load_encoded) (auto simp: validator_ok_def all_valid_def)
  then show ?thesis
    by (simp add: events_after_drop [OF assms(1,3)] assms(5) [symmetric] comp_def event_values_def)
qed

lemma scan_one_pass:
  assumes ok: "events_ok valid s" and valid: "validator_ok valid"
  shows "0 \<le> c \<Longrightarrow> \<exists>es. map event_row_of es = drop (nat c) (stream_rows s stream) \<and> all_valid valid es
    \<and> scan_log (\<lambda>a. replay valid s stream a (int PAGE)) (note_batch task epoch tools) (c, sc)
      = Some (py_bind (note_batch task epoch tools (event_values es) (c, sc)) (\<lambda>st. Inr (snd st)))"
proof (induction "length (stream_rows s stream) - nat c" arbitrary: c sc rule: less_induct)
  case less
  let ?rs = "stream_rows s stream" and ?note = "note_batch task epoch tools"
  have lim: "1 \<le> int PAGE" "int PAGE \<le> 10000" by (simp_all add: PAGE_def)
  from replay_ok [OF ok valid less.prems lim, of stream] obtain es1 where
    r: "replay valid s stream c (int PAGE) = Inr (event_values es1)"
    and rows: "map event_row_of es1 = take PAGE (drop (nat c) ?rs)" and v1: "all_valid valid es1"
    unfolding event_values_def all_valid_def by auto
  from decoded_rows [OF ok, of "PAGE + nat c" stream] obtain es2 where
    es2: "map event_row_of es2 = drop PAGE (drop (nat c) ?rs)" and v2: "all_valid valid es2" by auto
  have all: "map event_row_of (es1 @ es2) = drop (nat c) ?rs"
    by (simp only: map_append rows es2 append_take_drop_id)
  show ?case
  proof (cases "es1 = []")
    case True
    with rows have "drop (nat c) ?rs = []" by (auto simp: PAGE_def)
    with True r show ?thesis
      by (intro exI [of _ "[]"]) (simp add: scan_log.simps [of _ _ "(c, sc)"] event_values_def all_valid_def)
  next
    case False
    show ?thesis
    proof (cases "?note (event_values es1) (c, sc)")
      case (Inl e)
      with False r show ?thesis
        by (intro exI [of _ "es1 @ es2"])
          (simp add: all [simplified] v1 v2 scan_log.simps [of _ _ "(c, sc)"] event_values_def note_batch_append)
    next
      case (Inr st)
      obtain c' sc' where st: "st = (c', sc')" by (cases st)
      have len: "length es1 = min PAGE (length ?rs - nat c)"
        using arg_cong [OF rows, of length] by simp
      show ?thesis
      proof (cases "length es1 < PAGE")
        case True
        with len have "es2 = []" using es2 by auto
        with True False r Inr all v1 show ?thesis
          by (intro exI [of _ es1]) (simp add: scan_log.simps [of _ _ "(c, sc)"] event_values_def all_valid_def)
      next
        case full: False
        have "contiguous ?rs" using ok by (simp add: events_ok_def)
        from contiguous_slice [OF this, of PAGE "nat c"]
        have "map ev_sequence es1 = map int [Suc (nat c)..<Suc (min (nat c + PAGE) (length ?rs))]"
          by (simp add: rows [symmetric] comp_def del: upt_Suc)
        moreover have "min (nat c + PAGE) (length ?rs) = nat c + PAGE"
          using full len by (auto simp: PAGE_def min_def split: if_splits)
        ultimately have "map ev_sequence es1 = map int [Suc (nat c)..<Suc (nat c + PAGE)]" by (simp only:)
        then have "last (map ev_sequence es1) = int (nat c + PAGE)" using lim by simp
        with False have c': "c' = int (nat c + PAGE)"
          using note_batch_cursor [OF Inr [unfolded st] False] by (simp add: last_map)
        then have "length ?rs - nat c' < length ?rs - nat c" using full len by (auto simp: PAGE_def)
        from less.hyps [OF this, of sc'] c' obtain es3 where
          e3: "map event_row_of es3 = drop (nat c') ?rs" "all_valid valid es3"
          "scan_log (\<lambda>a. replay valid s stream a (int PAGE)) ?note (c', sc')
            = Some (py_bind (?note (event_values es3) (c', sc')) (\<lambda>st. Inr (snd st)))" by auto
        have "drop (nat c') ?rs = drop PAGE (drop (nat c) ?rs)" by (simp add: c' nat_add_distrib less.prems add.commute)
        then have "map event_row_of (es1 @ es3) = drop (nat c) ?rs"
          by (simp only: map_append rows e3(1) append_take_drop_id)
        with e3(2,3) v1 full False r Inr st show ?thesis
          by (intro exI [of _ "es1 @ es3"])
            (simp add: scan_log.simps [of _ _ "(c, sc)"] event_values_def note_batch_append)
      qed
    qed
  qed
qed

section \<open>What the projection claims of the log\<close>

datatype tool_note = Started string string | Finished string pydict | Other_Event

definition text_item :: "pydict \<Rightarrow> string \<Rightarrow> string" where
  "text_item p k = (case py_item (PDict p) k of Inr v \<Rightarrow> py_str v | Inl _ \<Rightarrow> [])"

definition tool_note_of :: "string \<Rightarrow> int \<Rightarrow> pyval \<Rightarrow> tool_note" where
  \<comment> \<open>what an event says of the tools of a task and epoch\<close>
  "tool_note_of task epoch v =
     (case py_obj v of
        Inl _ \<Rightarrow> Other_Event
      | Inr d \<Rightarrow>
          (case payload_of d of
             Inl _ \<Rightarrow> Other_Event
           | Inr p \<Rightarrow>
               if py_get d ''task_id'' \<noteq> PStr task \<or> epoch_of p \<noteq> Inr epoch then Other_Event
               else if py_get d ''kind'' = PStr ''tool.started'' then Started (text_item p ''call_id'') (text_item p ''tool_name'')
               else if py_get d ''kind'' = PStr ''tool.finished'' then Finished (text_item p ''call_id'') p
               else Other_Event))"

fun apply_note :: "string set \<Rightarrow> tool_note \<Rightarrow> scan \<Rightarrow> scan" where
  "apply_note tools (Started c t) sc =
     sc\<lparr>sc_open := put_key c t (sc_open sc),
        sc_calls := (if t \<in> tools then put_key c None (sc_calls sc) else sc_calls sc)\<rparr>"
| "apply_note tools (Finished c p) sc =
     sc\<lparr>sc_open := pop_key c (sc_open sc),
        sc_calls := (if c \<in> fst ` set (sc_calls sc) then put_key c (Some p) (sc_calls sc) else sc_calls sc)\<rparr>"
| "apply_note tools Other_Event sc = sc"

lemma note_event_apply:
  assumes "note_event task epoch tools v sc = Inr sc'"
  shows "sc' = apply_note tools (tool_note_of task epoch v) sc"
proof -
  from assms obtain d where d: "py_obj v = Inr d" by (cases "py_obj v") (simp_all add: note_event_def)
  show ?thesis
  proof (cases "py_get d ''task_id'' = PStr task")
    case False
    with assms d show ?thesis by (simp add: note_event_def tool_note_of_def split: sum.split)
  next
    case True
    with assms d obtain p n where p: "payload_of d = Inr p" "epoch_of p = Inr n"
      and r: "(if n \<noteq> epoch then Inr sc else note_tool tools (py_get d ''kind'') p sc) = Inr sc'"
      by (auto simp: note_event_def py_bind_Inr_iff)
    show ?thesis
    proof (cases "n = epoch")
      case False
      with r p d show ?thesis by (simp add: tool_note_of_def)
    next
      case epoch: True
      with r have "note_tool tools (py_get d ''kind'') p sc = Inr sc'" by simp
      then show ?thesis
        unfolding tool_note_of_def using d p epoch True
        by (cases "py_item (PDict p) ''call_id''"; cases "py_item (PDict p) ''tool_name''")
          (simp_all add: note_tool_def text_item_def split: if_split_asm)
    qed
  qed
qed

lemma note_batch_apply:
  "note_batch task epoch tools vs (c, sc) = Inr st \<Longrightarrow>
     snd st = fold (apply_note tools) (map (tool_note_of task epoch) vs) sc"
proof (induction vs arbitrary: c sc)
  case (Cons v vs)
  then obtain sc1 i where "note_event task epoch tools v sc = Inr sc1" "note_batch task epoch tools vs (i, sc1) = Inr st"
    by (auto simp: py_bind_Inr_iff)
  with Cons.IH note_event_apply show ?case by fastforce
qed auto

lemma put_key_set: "set (put_key k v d) = {e \<in> set d. fst e \<noteq> k} \<union> {(k, v)}"
proof (cases "k \<in> fst ` set d")
  case True
  then obtain w where "(k, w) \<in> set d" by auto
  then have "(k, v) \<in> (\<lambda>e. if fst e = k then (k, v) else e) ` set d"
    by (intro image_eqI [of _ _ "(k, w)"]) simp_all
  then have "(k, v) \<in> set (put_key k v d)" using True by (simp add: put_key_def)
  moreover have "set (put_key k v d) - {(k, v)} = {e \<in> set d. fst e \<noteq> k} - {(k, v)}"
    using True by (auto simp: put_key_def split: if_splits)
  ultimately show ?thesis by auto
qed (auto simp: put_key_def)

lemma put_key_distinct:
  assumes "distinct (map fst d)"
  shows "distinct (map fst (put_key k v d))"
proof (cases "k \<in> fst ` set d")
  case True
  have "fst (if fst e = k then (k, v) else e) = fst e" for e :: "'a \<times> 'b" by (cases "fst e = k") simp_all
  then have "map fst (put_key k v d) = map fst d" by (simp only: put_key_def True if_True map_map comp_def)
  with assms show ?thesis by simp
next
  case False
  with assms show ?thesis by (simp add: put_key_def)
qed

lemma pop_key_set: "set (pop_key k d) = {e \<in> set d. fst e \<noteq> k}"
  by (auto simp: pop_key_def)

definition never_finished :: "tool_note list \<Rightarrow> string \<Rightarrow> bool" where
  "never_finished ns c \<longleftrightarrow> (\<exists>us t ws. ns = us @ Started c t # ws \<and> (\<forall>p. Finished c p \<notin> set ws))"

definition settles_starts :: "string set \<Rightarrow> tool_note list \<Rightarrow> (string \<times> pydict option) list \<Rightarrow> bool" where
  \<comment> \<open>every start of a spawning tool has an entry, whose finish, if any, came after the start\<close>
  "settles_starts tools ns calls \<longleftrightarrow>
     (\<forall>us c t ws. ns = us @ Started c t # ws \<and> t \<in> tools \<longrightarrow>
        c \<in> fst ` set calls \<and> (\<forall>p. (c, Some p) \<in> set calls \<longrightarrow> Finished c p \<in> set ws))"

definition scan_ok :: "string set \<Rightarrow> tool_note list \<Rightarrow> scan \<Rightarrow> bool" where
  "scan_ok tools ns sc \<longleftrightarrow>
     (\<forall>c. c \<in> fst ` set (sc_open sc) \<longleftrightarrow> never_finished ns c)
     \<and> distinct (map fst (sc_open sc)) \<and> settles_starts tools ns (sc_calls sc)"

lemma snoc_eq_split:
  "ns @ [n] = us @ Started c t # ws \<longleftrightarrow>
     (n = Started c t \<and> us = ns \<and> ws = []) \<or> (\<exists>ws'. ws = ws' @ [n] \<and> ns = us @ Started c t # ws')"
  by (cases ws rule: rev_cases) auto

lemma never_finished_snoc:
  "never_finished (ns @ [n]) c \<longleftrightarrow> (\<exists>t. n = Started c t) \<or> (never_finished ns c \<and> (\<forall>p. n \<noteq> Finished c p))"
proof
  assume "never_finished (ns @ [n]) c"
  then obtain us t ws where "ns @ [n] = us @ Started c t # ws" and ws: "\<forall>p. Finished c p \<notin> set ws"
    by (auto simp only: never_finished_def)
  then consider "n = Started c t" | ws' where "ws = ws' @ [n]" "ns = us @ Started c t # ws'"
    by (auto simp only: snoc_eq_split)
  then show "(\<exists>t. n = Started c t) \<or> (never_finished ns c \<and> (\<forall>p. n \<noteq> Finished c p))"
  proof cases
    case 2
    with ws have "never_finished ns c" unfolding never_finished_def by (intro exI [of _ us] exI [of _ t] exI [of _ ws']) simp
    with 2 ws show ?thesis by auto
  qed simp
next
  assume "(\<exists>t. n = Started c t) \<or> (never_finished ns c \<and> (\<forall>p. n \<noteq> Finished c p))"
  then show "never_finished (ns @ [n]) c"
  proof (elim disjE conjE exE)
    fix t assume "n = Started c t"
    then show ?thesis unfolding never_finished_def by (intro exI [of _ ns] exI [of _ t] exI [of _ "[]"]) simp
  next
    assume "never_finished ns c" and n: "\<forall>p. n \<noteq> Finished c p"
    then obtain us t ws where "ns = us @ Started c t # ws" "\<forall>p. Finished c p \<notin> set ws"
      by (auto simp only: never_finished_def)
    with n show ?thesis
      unfolding never_finished_def by (intro exI [of _ us] exI [of _ t] exI [of _ "ws @ [n]"]) auto
  qed
qed

lemma settles_starts_snoc:
  assumes "settles_starts tools ns calls" and "fst ` set calls \<subseteq> fst ` set calls'"
    and "\<And>c t. n = Started c t \<Longrightarrow> t \<in> tools \<Longrightarrow> c \<in> fst ` set calls' \<and> (\<forall>p. (c, Some p) \<notin> set calls')"
    and "\<And>c p. (c, Some p) \<in> set calls' \<Longrightarrow> (c, Some p) \<in> set calls \<or> n = Finished c p"
  shows "settles_starts tools (ns @ [n]) calls'"
  unfolding settles_starts_def
proof (intro allI impI)
  fix us c t ws
  assume "ns @ [n] = us @ Started c t # ws \<and> t \<in> tools"
  then consider "n = Started c t" "t \<in> tools" | ws' where "ws = ws' @ [n]" "ns = us @ Started c t # ws'" "t \<in> tools"
    by (auto simp only: snoc_eq_split)
  then show "c \<in> fst ` set calls' \<and> (\<forall>p. (c, Some p) \<in> set calls' \<longrightarrow> Finished c p \<in> set ws)"
  proof cases
    case 1
    with assms(3) show ?thesis by blast
  next
    case 2
    with assms(1) have "c \<in> fst ` set calls" "\<forall>p. (c, Some p) \<in> set calls \<longrightarrow> Finished c p \<in> set ws'"
      by (auto simp only: settles_starts_def)
    then have "Finished c p \<in> set ws" if "(c, Some p) \<in> set calls'" for p
      using assms(4) [OF that] 2(1) by auto
    with subsetD [OF assms(2) \<open>c \<in> fst ` set calls\<close>] show ?thesis by blast
  qed
qed

lemma put_key_fst: "fst ` set (put_key k v d) = insert k (fst ` set d)"
proof -
  have "fst ` {e \<in> set d. fst e \<noteq> k} = fst ` set d - {k}" by force
  then show ?thesis by (auto simp add: put_key_set image_Un)
qed

lemma pop_key_fst: "fst ` set (pop_key k d) = fst ` set d - {k}"
  unfolding pop_key_set by force

lemma started_settles:
  assumes "settles_starts tools ns calls"
  shows "settles_starts tools (ns @ [Started c t]) (if t \<in> tools then put_key c None calls else calls)"
  by (rule settles_starts_snoc [OF assms]) (auto simp: put_key_fst put_key_set split: if_split_asm)

lemma finished_settles:
  assumes "settles_starts tools ns calls"
  shows "settles_starts tools (ns @ [Finished c p]) (if c \<in> fst ` set calls then put_key c (Some p) calls else calls)"
proof (rule settles_starts_snoc [OF assms])
  show "fst ` set calls \<subseteq> fst ` set (if c \<in> fst ` set calls then put_key c (Some p) calls else calls)"
    using put_key_fst [of c "Some p" calls] by (simp only: split: if_split) blast
qed (auto simp: put_key_set simp del: image_iff split: if_split_asm)

lemma apply_note_ok:
  assumes "scan_ok tools ns sc"
  shows "scan_ok tools (ns @ [n]) (apply_note tools n sc)"
proof (cases n)
  case (Started c t)
  with assms show ?thesis
    by (simp add: scan_ok_def never_finished_snoc put_key_distinct put_key_fst started_settles eq_commute)
next
  case (Finished c p)
  have "distinct (map fst (pop_key c (sc_open sc)))"
    using assms by (simp add: scan_ok_def pop_key_def distinct_map_filter)
  with assms Finished show ?thesis
    by (simp add: scan_ok_def never_finished_snoc pop_key_fst finished_settles) blast
next
  case Other_Event
  have "settles_starts tools (ns @ [Other_Event]) (sc_calls sc)"
    using assms by (intro settles_starts_snoc [of tools ns "sc_calls sc"]) (simp_all add: scan_ok_def)
  with assms Other_Event show ?thesis by (simp add: scan_ok_def never_finished_snoc)
qed

lemma fold_notes_ok: "scan_ok tools ms sc \<Longrightarrow> scan_ok tools (ms @ ns) (fold (apply_note tools) ns sc)"
proof (induction ns arbitrary: ms sc)
  case (Cons n ns)
  from Cons.IH [OF apply_note_ok [OF Cons.prems, of n]] show ?case by simp
qed simp

lemma no_calls_ok: "scan_ok tools [] no_calls"
  by (simp add: scan_ok_def no_calls_def never_finished_def settles_starts_def)

definition call_settled :: "service_env \<Rightarrow> service \<Rightarrow> pydict \<Rightarrow> bool" where
  \<comment> \<open>a finish after which no process of the call can be left\<close>
  "call_settled x sv p \<longleftrightarrow> started_no_process x sv p = Inr True \<or> ended_normally p = Inr True \<or> stop_confirmed x sv p = Inr True"

lemma keep_py_drops: "keep_py f xs = Inr ys \<Longrightarrow> a \<in> set xs \<Longrightarrow> a \<in> set ys \<or> f a = Inr False"
  by (induction xs arbitrary: ys) (auto simp: py_bind_Inr_iff)

lemma all_py_all: "all_py f xs = Inr True \<Longrightarrow> a \<in> set xs \<Longrightarrow> f a = Inr True"
  by (induction xs) (auto simp: py_bind_Inr_iff split: if_splits)

lemma cleanup_fact_settled:
  assumes "cleanup_fact x sv calls = Inr w" "w = ''not_needed'' \<or> w = ''confirmed''" "(c, f) \<in> set calls"
  shows "\<exists>p. f = Some p \<and> call_settled x sv p"
proof -
  let ?keep = "\<lambda>(c, f). case f of None \<Rightarrow> Inr True | Some p \<Rightarrow> py_bind (started_no_process x sv p) (\<lambda>b. Inr (\<not> b))"
  from assms(1) obtain left where left: "keep_py ?keep calls = Inr left"
    unfolding cleanup_fact_def by (auto simp: py_bind_Inr_iff)
  let ?fs = "map (the \<circ> snd) left"
  from assms(1,2) left have all_some: "\<forall>e \<in> set left. snd e \<noteq> None"
    by (auto simp: cleanup_fact_def split: if_splits)
  have fs: "left = [] \<or> all_py ended_normally ?fs = Inr True
      \<or> all_py (\<lambda>f. or_py (ended_normally f) (stop_confirmed x sv f)) ?fs = Inr True"
    using assms(1,2) left all_some
    by (auto simp: cleanup_fact_def py_bind_Inr_iff Let_def split: if_splits)
  from keep_py_drops [OF left assms(3)] show ?thesis
  proof
    assume "(c, f) \<in> set left"
    with all_some obtain p where p: "f = Some p" "p \<in> set ?fs" by force
    have "left \<noteq> []" using p(2) by auto
    with fs have "ended_normally p = Inr True \<or> or_py (ended_normally p) (stop_confirmed x sv p) = Inr True"
      using all_py_all [OF _ p(2)] by blast
    then show ?thesis using p by (auto simp: call_settled_def or_py_def py_bind_Inr_iff split: if_splits)
  next
    assume "?keep (c, f) = Inr False"
    then show ?thesis by (auto simp: call_settled_def py_bind_Inr_iff split: option.splits)
  qed
qed

section \<open>The properties\<close>

lemma contiguous_positive: "contiguous rs \<Longrightarrow> r \<in> set rs \<Longrightarrow> 1 \<le> er_sequence r"
proof -
  assume "contiguous rs" "r \<in> set rs"
  then have "er_sequence r \<in> set (map int [1..<Suc (length rs)])" unfolding contiguous_def by (metis image_eqI set_map)
  then show ?thesis by auto
qed

lemma task_record_admitted:
  "task_record s task = Inr (Some d) \<Longrightarrow>
     \<exists>row. task_row_of s task = Some row \<and> map_of d ''admitted_sequence'' = Some (PInt (tw_admitted row))"
  by (auto simp: task_record_def py_bind_Inr_iff split: option.splits)

lemma truth_start_bound:
  assumes ok: "store_ok valid sha (sv_store sv)" and start: "truth_start sv task = Inr start"
  shows "0 \<le> start"
proof -
  from start obtain r where r: "task_record (sv_store sv) task = Inr r"
    and rest: "(case r of None \<Rightarrow> Inl ValueError
      | Some d \<Rightarrow> py_bind (py_item (PDict d) ''admitted_sequence'') (\<lambda>q. py_bind (py_int q) (\<lambda>i. Inr (i - 1)))) = Inr start"
    by (auto simp only: truth_start_def py_bind_Inr_iff)
  from rest obtain d where d: "r = Some d" by (cases r) simp_all
  from task_record_admitted [OF r [unfolded d]] obtain row where row: "task_row_of (sv_store sv) task = Some row"
    and q: "map_of d ''admitted_sequence'' = Some (PInt (tw_admitted row))" by blast
  from rest d q have s: "start = tw_admitted row - 1" by (simp add: py_item_def py_int_def)
  from row have "row \<in> set (so_tasks (sv_store sv))" by (auto simp: task_row_of_def find_Some_iff)
  with ok have "admitted_row (sv_store sv) row" by (simp add: store_ok_def admissions_ok_def)
  then obtain r where "r \<in> set (so_events (sv_store sv))" "er_stream r = tw_stream row" "er_sequence r = tw_admitted row"
    by (auto simp: admitted_row_def)
  moreover have "contiguous (stream_rows (sv_store sv) (tw_stream row))"
    using ok by (simp add: store_ok_def events_ok_def)
  ultimately have "1 \<le> tw_admitted row" using contiguous_positive by (fastforce simp: stream_rows_def)
  with s show ?thesis by simp
qed

definition task_events :: "service_env \<Rightarrow> service \<Rightarrow> string \<Rightarrow> (int \<times> pyval list) py" where
  \<comment> \<open>every event from the admission of the task on, as one list\<close>
  "task_events x sv task =
     py_bind (truth_start sv task) (\<lambda>start.
     py_bind (load_events (sx_valid x) (map er_json (events_after (sv_store sv) (sv_stream sv) start))) (\<lambda>vs.
       Inr (start, vs)))"

definition one_pass :: "service_env \<Rightarrow> service \<Rightarrow> string \<Rightarrow> int \<Rightarrow> string set \<Rightarrow> (string \<times> string list) py" where
  "one_pass x sv task epoch tools =
     py_bind (task_events x sv task) (\<lambda>(start, vs).
     py_bind (note_batch task epoch tools vs (start, no_calls)) (\<lambda>st. truth_of_scan x sv (snd st)))"

lemma derive_one_pass:
  assumes ok: "store_ok (sx_valid x) (sx_sha x) (sv_store sv)" and valid: "validator_ok (sx_valid x)"
  shows "derive_terminal_truth x sv task epoch tools = Some (one_pass x sv task epoch tools)"
proof (cases "truth_start sv task")
  case (Inl e)
  then show ?thesis by (simp add: derive_terminal_truth_def one_pass_def task_events_def)
next
  case (Inr start)
  have ev: "events_ok (sx_valid x) (sv_store sv)" using ok by (simp add: store_ok_def)
  note pos = truth_start_bound [OF ok Inr]
  from scan_one_pass [OF ev valid pos, of "sv_stream sv" task epoch tools no_calls] obtain es where
    es: "map event_row_of es = drop (nat start) (stream_rows (sv_store sv) (sv_stream sv))" "all_valid (sx_valid x) es"
    and scan: "scan_log (\<lambda>a. replay (sx_valid x) (sv_store sv) (sv_stream sv) a (int PAGE)) (note_batch task epoch tools) (start, no_calls)
      = Some (py_bind (note_batch task epoch tools (event_values es) (start, no_calls)) (\<lambda>st. Inr (snd st)))" by blast
  note load = load_rows [OF ev valid pos es(2,1)]
  show ?thesis
    by (cases "note_batch task epoch tools (event_values es) (start, no_calls)")
      (simp_all add: derive_terminal_truth_def one_pass_def task_events_def Inr load scan svc_replay_def)
qed

lemma served_store_ok:
  assumes "(sv, got) = run_ops (service_step x) ops (new_served x stream producer session capacity)"
  shows "store_ok (sx_valid x) (sx_sha x) (sv_store sv)"
proof -
  have "served_ok x (sv, got)" unfolding assms by (rule service_run.run_inv [OF new_served_ok])
  then show ?thesis by (simp add: served_ok_def writer_ok_def)
qed

lemma truth_scanned:
  assumes "one_pass x sv task epoch tools = Inr (cleanup, ids)"
  shows "\<exists>start vs sc. task_events x sv task = Inr (start, vs) \<and> scan_ok tools (map (tool_note_of task epoch) vs) sc
    \<and> cleanup_fact x sv (sc_calls sc) = Inr cleanup \<and> ids = sort (map fst (sc_open sc))"
proof -
  from assms obtain start vs st where vs: "task_events x sv task = Inr (start, vs)"
    and st: "note_batch task epoch tools vs (start, no_calls) = Inr st"
    and t: "cleanup_fact x sv (sc_calls (snd st)) = Inr cleanup" "ids = sort (map fst (sc_open (snd st)))"
    by (auto simp: one_pass_def truth_of_scan_def py_bind_Inr_iff)
  have "scan_ok tools (map (tool_note_of task epoch) vs) (snd st)"
    using fold_notes_ok [OF no_calls_ok] note_batch_apply [OF st] by simp
  with vs t show ?thesis by blast
qed

text \<open>C19: Reading the log page by page is one pass over the whole of it.  On the store of any
  service script, with any number of events, the projection of a task's terminal facts returns,
  and its value (the errors included) is the one of a single pass over every event from the
  task's admission on: no event is skipped or counted twice at a page boundary.\<close>
theorem paging_is_one_pass:
  assumes "validator_ok (sx_valid x)"
    and "(sv, got) = run_ops (service_step x) ops (new_served x stream producer session capacity)"
  shows "derive_terminal_truth x sv task epoch tools = Some (one_pass x sv task epoch tools)"
  by (rule derive_one_pass [OF served_store_ok [OF assms(2)] assms(1)])

text \<open>C20: A task is only reported clean when nothing it started can still run.  When the
  projection says that no cleanup is needed or that it is confirmed, every start of a
  process-spawning tool in the task's epoch is followed in the log by a finish of that call
  which ended normally, is on record as having started no process, or is a Stop whose record
  confirms that the processes are gone.\<close>
theorem clean_means_every_process_is_settled:
  assumes "validator_ok (sx_valid x)"
    and "(sv, got) = run_ops (service_step x) ops (new_served x stream producer session capacity)"
    and "derive_terminal_truth x sv task epoch tools = Some (Inr (cleanup, ids))"
    and "cleanup = ''not_needed'' \<or> cleanup = ''confirmed''"
  shows "\<exists>start vs. task_events x sv task = Inr (start, vs)
    \<and> (\<forall>us c t ws. map (tool_note_of task epoch) vs = us @ Started c t # ws \<and> t \<in> tools \<longrightarrow>
         (\<exists>p. Finished c p \<in> set ws \<and> call_settled x sv p))"
proof -
  have "one_pass x sv task epoch tools = Inr (cleanup, ids)"
    using derive_one_pass [OF served_store_ok [OF assms(2)] assms(1)] assms(3) by simp
  from truth_scanned [OF this] obtain start vs sc where vs: "task_events x sv task = Inr (start, vs)"
    and ok: "scan_ok tools (map (tool_note_of task epoch) vs) sc" and fact: "cleanup_fact x sv (sc_calls sc) = Inr cleanup"
    by blast
  have "\<exists>p. Finished c p \<in> set ws \<and> call_settled x sv p"
    if "map (tool_note_of task epoch) vs = us @ Started c t # ws \<and> t \<in> tools" for us c t ws
  proof -
    from ok that have "c \<in> fst ` set (sc_calls sc)" and f: "\<forall>p. (c, Some p) \<in> set (sc_calls sc) \<longrightarrow> Finished c p \<in> set ws"
      by (auto simp only: scan_ok_def settles_starts_def)
    then obtain f where f': "(c, f) \<in> set (sc_calls sc)" by auto
    from cleanup_fact_settled [OF fact assms(4) f'] f f' show ?thesis by blast
  qed
  with vs show ?thesis by blast
qed

text \<open>The open calls are the unfinished ones.  When the projection returns, its list of open
  calls has, once each and in order, exactly the calls of the task's epoch that the log starts
  and does not finish afterwards.\<close>
theorem open_calls_are_the_unfinished:
  assumes "validator_ok (sx_valid x)"
    and "(sv, got) = run_ops (service_step x) ops (new_served x stream producer session capacity)"
    and "derive_terminal_truth x sv task epoch tools = Some (Inr (cleanup, ids))"
  shows "\<exists>start vs. task_events x sv task = Inr (start, vs) \<and> sorted ids \<and> distinct ids
    \<and> set ids = {c. never_finished (map (tool_note_of task epoch) vs) c}"
proof -
  have "one_pass x sv task epoch tools = Inr (cleanup, ids)"
    using derive_one_pass [OF served_store_ok [OF assms(2)] assms(1)] assms(3) by simp
  from truth_scanned [OF this] show ?thesis by (fastforce simp: scan_ok_def)
qed

definition demo_task_id :: string where "demo_task_id = ''00000000000000000000000000000001''"

definition demo_activity :: "service_op list" where
  "demo_activity =
     [Submit ''r'' (demo_digest ''x'')
        [(''execution_epoch'', PInt 0), (''request_ref'', PDict (demo_ref ''a'' ''x'')), (''origin'', PDict [(''kind'', PStr ''conversation''), (''turn_ref'', PDict demo_turn)])]
        (Some ''x''), Commit_Next, Publish_Next, Publish_Next,
      Append_Event ''tool.started''
        [(''call_id'', PStr ''c''), (''tool_name'', PStr ''run''), (''execution_epoch'', PInt 0)] (Some demo_task_id) None,
      Commit_Next, Publish_Next, Publish_Next,
      Append_Event ''tool.finished''
        [(''call_id'', PStr ''c''), (''execution'', PStr ''ok''), (''reason_code'', PStr ''completed''), (''execution_epoch'', PInt 0)]
        (Some demo_task_id) None, Commit_Next]"

definition demo_row :: "string \<Rightarrow> int \<Rightarrow> string \<Rightarrow> pydict \<Rightarrow> envelope" where
  "demo_row i n kind payload = \<lparr>ev_id = i, ev_stream = ''00000000000000000000000000000002'', ev_sequence = n,
     ev_producer = ''00000000000000000000000000000003'', ev_session = None, ev_task = Some demo_task_id, ev_utc = ''t'',
     ev_kind = kind, ev_payload = payload\<rparr>"

definition demo_log :: "envelope list" where
  "demo_log =
     [demo_row ''0'' 1 ''task.admitted''
        [(''execution_epoch'', PInt 0), (''request_ref'', PDict (demo_ref ''a'' ''x'')),
         (''origin'', PDict [(''kind'', PStr ''conversation''), (''turn_ref'', PDict demo_turn)])],
      demo_row ''2'' 2 ''tool.started'' [(''call_id'', PStr ''c''), (''tool_name'', PStr ''run''), (''execution_epoch'', PInt 0)],
      demo_row ''4'' 3 ''tool.finished''
        [(''call_id'', PStr ''c''), (''execution'', PStr ''ok''), (''reason_code'', PStr ''completed''), (''execution_epoch'', PInt 0)]]"

definition demo_active :: served where
  "demo_active = run_ops (service_step demo_env) demo_activity
     (new_served demo_env ''00000000000000000000000000000002'' ''00000000000000000000000000000003'' None 8)"

lemma demo_active_facts:
  "stream_rows (sv_store (fst demo_active)) (sv_stream (fst demo_active)) = map event_row_of demo_log
   \<and> truth_start (fst demo_active) demo_task_id = Inr 0"
proof -
  have "case demo_active of (sv, got) \<Rightarrow> stream_rows (sv_store sv) (sv_stream sv) = map event_row_of demo_log
      \<and> truth_start sv demo_task_id = Inr 0"
    by code_simp
  then show ?thesis by (simp add: case_prod_unfold)
qed

lemma demo_events: "task_events demo_env (fst demo_active) demo_task_id = Inr (0, event_values demo_log)"
proof -
  obtain sv got where s: "demo_active = (sv, got)" by (cases demo_active)
  have "store_ok (sx_valid demo_env) (sx_sha demo_env) (sv_store sv)"
    by (rule served_store_ok [OF s [symmetric, unfolded demo_active_def]])
  then have ok: "events_ok (sx_valid demo_env) (sv_store sv)" by (simp add: store_ok_def)
  have valid: "validator_ok (sx_valid demo_env)" by (simp add: demo_env_def demo_validator)
  have "all_valid (sx_valid demo_env) demo_log" by code_simp
  from load_rows [OF ok valid _ this, of 0 "sv_stream sv"] demo_active_facts
  show ?thesis by (simp add: task_events_def s)
qed

lemma demo_truth: "one_pass demo_env (fst demo_active) demo_task_id 0 {''run''} = Inr (''not_needed'', [])"
proof -
  let ?f = "[(''call_id'', PStr ''c''), (''execution'', PStr ''ok''), (''execution_epoch'', PInt 0), (''reason_code'', PStr ''completed'')]"
  have "note_batch demo_task_id 0 {''run''} (event_values demo_log) (0, no_calls)
      = Inr (3, \<lparr>sc_open = [], sc_calls = [(''c'', Some ?f)]\<rparr>)" by code_simp
  moreover have "started_no_process demo_env sv ?f = Inr False" for sv
    by (simp add: started_no_process_def failure_record_def record_says_def py_get_def)
  moreover have "ended_normally ?f = Inr True" by code_simp
  ultimately show ?thesis
    by (simp add: one_pass_def demo_events truth_of_scan_def cleanup_fact_def Let_def)
qed

lemma demo_notes:
  "map (tool_note_of demo_task_id 0) (event_values demo_log) = [Other_Event, Started ''c'' ''run'',
     Finished ''c'' [(''call_id'', PStr ''c''), (''execution'', PStr ''ok''), (''execution_epoch'', PInt 0),
       (''reason_code'', PStr ''completed'')]]"
  by code_simp

lemma demo_derived:
  assumes "demo_active = (sv, got)"
  shows "derive_terminal_truth demo_env sv demo_task_id 0 {''run''} = Some (Inr (''not_needed'', []))"
    and "one_pass demo_env sv demo_task_id 0 {''run''} = Inr (''not_needed'', [])"
    and "task_events demo_env sv demo_task_id = Inr (0, event_values demo_log)"
proof -
  have sv: "fst demo_active = sv" by (simp add: assms)
  show one: "one_pass demo_env sv demo_task_id 0 {''run''} = Inr (''not_needed'', [])"
    by (rule demo_truth [unfolded sv])
  have "validator_ok (sx_valid demo_env)" by (simp add: demo_env_def demo_validator)
  from derive_one_pass [OF served_store_ok [OF assms [symmetric, unfolded demo_active_def]] this]
  show "derive_terminal_truth demo_env sv demo_task_id 0 {''run''} = Some (Inr (''not_needed'', []))" by (simp only: one)
  show "task_events demo_env sv demo_task_id = Inr (0, event_values demo_log)"
    by (rule demo_events [unfolded sv])
qed

theorem paging_is_one_pass_witness:
  "\<exists>sv got. demo_active = (sv, got)
     \<and> derive_terminal_truth demo_env sv demo_task_id 0 {''run''} = Some (one_pass demo_env sv demo_task_id 0 {''run''})
     \<and> one_pass demo_env sv demo_task_id 0 {''run''} = Inr (''not_needed'', [])"
proof -
  obtain sv got where s: "demo_active = (sv, got)" by (cases demo_active)
  have v: "validator_ok (sx_valid demo_env)" by (simp add: demo_env_def demo_validator)
  from paging_is_one_pass [OF v s [symmetric, unfolded demo_active_def], of demo_task_id 0 "{''run''}"]
    demo_derived(2) [OF s] s
  show ?thesis by blast
qed

theorem clean_means_every_process_is_settled_witness:
  "\<exists>sv got ws p. demo_active = (sv, got)
     \<and> derive_terminal_truth demo_env sv demo_task_id 0 {''run''} = Some (Inr (''not_needed'', []))
     \<and> map (tool_note_of demo_task_id 0) (event_values demo_log) = Other_Event # Started ''c'' ''run'' # ws
     \<and> Finished ''c'' p \<in> set ws \<and> call_settled demo_env sv p"
proof -
  obtain sv got where s: "demo_active = (sv, got)" by (cases demo_active)
  have v: "validator_ok (sx_valid demo_env)" by (simp add: demo_env_def demo_validator)
  from demo_notes obtain ws where ws:
    "map (tool_note_of demo_task_id 0) (event_values demo_log) = [Other_Event] @ Started ''c'' ''run'' # ws" by simp
  have "''not_needed'' = ''not_needed'' \<or> ''not_needed'' = ''confirmed''" by simp
  from clean_means_every_process_is_settled [OF v s [symmetric, unfolded demo_active_def] demo_derived(1) [OF s] this]
  obtain start vs where e: "task_events demo_env sv demo_task_id = Inr (start, vs)"
    and b: "\<And>us c t ws. map (tool_note_of demo_task_id 0) vs = us @ Started c t # ws \<and> t \<in> {''run''} \<Longrightarrow>
      \<exists>p. Finished c p \<in> set ws \<and> call_settled demo_env sv p" by blast
  from e demo_derived(3) [OF s] have "vs = event_values demo_log" by simp
  with b ws obtain p where "Finished ''c'' p \<in> set ws" "call_settled demo_env sv p" by blast
  with s demo_derived(1) [OF s] ws show ?thesis by auto
qed

theorem open_calls_are_the_unfinished_witness:
  "\<exists>sv got. demo_active = (sv, got) \<and> derive_terminal_truth demo_env sv demo_task_id 0 {''run''} = Some (Inr (''not_needed'', []))
     \<and> {} = {c. never_finished (map (tool_note_of demo_task_id 0) (event_values demo_log)) c}"
proof -
  obtain sv got where s: "demo_active = (sv, got)" by (cases demo_active)
  have v: "validator_ok (sx_valid demo_env)" by (simp add: demo_env_def demo_validator)
  from open_calls_are_the_unfinished [OF v s [symmetric, unfolded demo_active_def] demo_derived(1) [OF s]]
  obtain start vs where e: "task_events demo_env sv demo_task_id = Inr (start, vs)"
    and n: "set [] = {c. never_finished (map (tool_note_of demo_task_id 0) vs) c}" by blast
  from e demo_derived(3) [OF s] have "vs = event_values demo_log" by simp
  with n s demo_derived(1) [OF s] show ?thesis by (simp only: list.set) blast
qed

end
