(* ===== verification/Check_Failure.thy ===== *)
theory Check_Failure
  imports Candidate_Facts Repo_Files
begin

text \<open>
  \<open>session/check_failure.py\<close>: the bounded facts of a failed build or test check, projected from
  a worker's structured reports, retained with the task result, read back strictly and
  rendered in a fixed layout.  Texts here have code points below 256, so the ellipsis that
  marks a cut text is a parameter: a printable character that is no space and no separator.
\<close>

section \<open>Bounded texts\<close>

fun split_words :: "string \<Rightarrow> string \<Rightarrow> string list" where
  \<comment> \<open>\<open>text.split()\<close>: the rest of the text and the word under construction\<close>
  "split_words [] w = (if w = [] then [] else [w])"
| "split_words (c # cs) w =
     (if is_ws c then (if w = [] then split_words cs [] else w # split_words cs [])
      else split_words cs (w @ [c]))"

definition spaced :: "string \<Rightarrow> string" where
  "spaced s = join '' '' (split_words s [])"

definition bounded :: "char \<Rightarrow> string \<Rightarrow> nat \<Rightarrow> string" where
  "bounded el s limit = (let t = spaced s in if length t \<le> limit then t else take (limit - 1) t @ [el])"

definition printable :: "string \<Rightarrow> bool" where
  "printable s \<longleftrightarrow> list_all py_printable s"

definition MAX_TESTS :: nat where "MAX_TESTS = 10"
definition MAX_NAME_CHARS :: nat where "MAX_NAME_CHARS = 200"
definition MAX_TEXT_CHARS :: nat where "MAX_TEXT_CHARS = 300"
definition MAX_LOCATION_CHARS :: nat where "MAX_LOCATION_CHARS = 160"
definition MAX_ARGV :: nat where "MAX_ARGV = 32"
definition MAX_ARG_CHARS :: nat where "MAX_ARG_CHARS = 200"

lemmas failure_limits = MAX_TESTS_def MAX_NAME_CHARS_def MAX_TEXT_CHARS_def MAX_LOCATION_CHARS_def
  MAX_ARGV_def MAX_ARG_CHARS_def

definition failure_kinds :: "string list" where
  "failure_kinds = [''compile'', ''link'', ''configure'', ''assertion'', ''crash'', ''timeout'', ''failed'']"

definition step_of_tool :: "(string \<times> string) list" where
  "step_of_tool = [(''build_target'', ''build''), (''run_test'', ''tests'')]"

definition failure_keys :: "string list" where
  "failure_keys = [''step'', ''kind'', ''tests'', ''test_count'', ''first'', ''command'']"

record first_failure =
  ff_location :: "string option"
  ff_text :: string

record check_failure =
  ck_step :: string
  ck_kind :: "string option"
  ck_tests :: "string list"
  ck_count :: int
  ck_first :: "first_failure option"
  ck_command :: "string list"

definition failure_payload :: "check_failure \<Rightarrow> pydict" where
  "failure_payload f =
     [(''step'', PStr (ck_step f)), (''kind'', str_or_none (ck_kind f)), (''tests'', PList (map PStr (ck_tests f))),
      (''test_count'', PInt (ck_count f)),
      (''first'', (case ck_first f of None \<Rightarrow> PNone
         | Some g \<Rightarrow> PDict [(''location'', str_or_none (ff_location g)), (''text'', PStr (ff_text g))])),
      (''command'', PList (map PStr (ck_command f)))]"

definition substantive :: "check_failure \<Rightarrow> bool" where
  "substantive f = (if ck_step f = ''tests'' then ck_count f > 0 else ck_kind f \<noteq> None \<or> ck_first f \<noteq> None)"

section \<open>Projection from the worker's reports\<close>

definition shown_location :: "files \<Rightarrow> path \<Rightarrow> string \<Rightarrow> string option py" where
  \<comment> \<open>the resolved path below the resolved root; a link loop raises through the handler\<close>
  "shown_location fs root_dir file =
     py_bind (resolve fs root_dir) (\<lambda>r.
     py_bind (resolve fs (join_path root_dir file)) (\<lambda>p.
       Inr (if \<not> inside r p then None else Some (if p = r then ''.'' else join ''/'' (drop (length r) p)))))"

definition location_of :: "char \<Rightarrow> files \<Rightarrow> path \<Rightarrow> pyval \<Rightarrow> pyval \<Rightarrow> string option py" where
  "location_of el fs root_dir file line =
     (case (file, line) of
        (PStr s, PInt n) \<Rightarrow>
          if s = [] \<or> \<not> printable s \<or> n < 1 then Inr None
          else py_bind (shown_location fs root_dir s) (\<lambda>shown.
            case shown of
              None \<Rightarrow> Inr None
            | Some t \<Rightarrow>
                if t = [] \<or> t = ''.'' then Inr None
                else Inr (Some ((if length t > MAX_LOCATION_CHARS then el # drop (length t - (MAX_LOCATION_CHARS - 1)) t else t)
                                @ '':'' @ int_str n)))
      | _ \<Rightarrow> Inr None)"

definition entry_text :: "string \<Rightarrow> pydict \<Rightarrow> string option" where
  "entry_text step d =
     (case (if step = ''build'' then py_get d ''message'' else py_get d ''text'') of
        PStr s \<Rightarrow> Some s
      | _ \<Rightarrow> (case py_get d ''text'' of PStr s \<Rightarrow> Some s | _ \<Rightarrow> None))"

fun first_of_groups :: "char \<Rightarrow> files \<Rightarrow> path \<Rightarrow> string \<Rightarrow> pyval list \<Rightarrow> first_failure option py" where
  "first_of_groups el fs root_dir step [] = Inr None"
| "first_of_groups el fs root_dir step (g # gs) =
     (case g of
        PList (PDict d # _) \<Rightarrow>
          (case entry_text step d of
             None \<Rightarrow> first_of_groups el fs root_dir step gs
           | Some t \<Rightarrow>
               if py_strip t = [] then first_of_groups el fs root_dir step gs
               else py_bind (location_of el fs root_dir (py_get d ''file'') (py_get d ''line'')) (\<lambda>loc.
                      Inr (Some \<lparr>ff_location = loc, ff_text = bounded el t MAX_TEXT_CHARS\<rparr>)))
      | _ \<Rightarrow> first_of_groups el fs root_dir step gs)"

definition first_groups :: "string \<Rightarrow> pydict \<Rightarrow> pyval list" where
  "first_groups step d =
     map (py_get d) (if step = ''tests'' then [''assertions'', ''crash_markers''] else [''errors'', ''link_errors'', ''cmake_errors''])"

definition failed_count :: "string \<Rightarrow> pydict \<Rightarrow> nat \<Rightarrow> int" where
  "failed_count step d named =
     (if step \<noteq> ''tests'' then 0
      else case py_get d ''totals'' of
             PDict t \<Rightarrow> (case py_get t ''failed'' of PInt n \<Rightarrow> if n \<ge> int named then n else int named | _ \<Rightarrow> int named)
           | _ \<Rightarrow> int named)"

record call_record =
  cr_name :: string
  cr_execution :: string
  cr_domain :: string
  cr_evidence :: pyval

definition failing_call :: "call_record \<Rightarrow> bool" where
  "failing_call r \<longleftrightarrow> cr_name r \<in> fst ` set step_of_tool \<and> cr_execution r = ''ok'' \<and> cr_domain r = ''fail''"

definition list_items :: "pyval \<Rightarrow> pyval list" where
  "list_items v = (case v of PList xs \<Rightarrow> xs | _ \<Rightarrow> [])"

definition failed_names :: "char \<Rightarrow> string \<Rightarrow> pydict \<Rightarrow> string list" where
  "failed_names el step d =
     (if step \<noteq> ''tests'' then []
      else concat (map (\<lambda>e. case e of PDict t \<Rightarrow> (case py_get t ''name'' of PStr s \<Rightarrow> [bounded el s MAX_NAME_CHARS] | _ \<Rightarrow> [])
                                     | _ \<Rightarrow> []) (list_items (py_get d ''failed''))))"

definition kind_in :: "pyval \<Rightarrow> string option py" where
  \<comment> \<open>\<open>kind if kind in _KINDS else None\<close>\<close>
  "kind_in v = py_bind (member_of failure_kinds v) (\<lambda>b. Inr (if b then Some (py_str v) else None))"

definition project_report :: "char \<Rightarrow> files \<Rightarrow> path \<Rightarrow> string \<Rightarrow> pydict \<Rightarrow> check_failure py" where
  "project_report el fs root_dir step d =
     (let names = failed_names el step d in
      py_bind (kind_in (py_get d ''failure_kind'')) (\<lambda>kind.
      py_bind (first_of_groups el fs root_dir step (first_groups step d)) (\<lambda>f.
        Inr \<lparr>ck_step = step, ck_kind = kind, ck_tests = take MAX_TESTS names, ck_count = failed_count step d (length names),
             ck_first = f,
             ck_command = map (\<lambda>a. bounded el (py_str a) MAX_ARG_CHARS) (take MAX_ARGV (list_items (py_get d ''command'')))\<rparr>)))"

definition check_failure_facts :: "char \<Rightarrow> files \<Rightarrow> path \<Rightarrow> call_record list \<Rightarrow> pydict option py" where
  "check_failure_facts el fs root_dir history =
     (case find failing_call (rev history) of
        None \<Rightarrow> Inr None
      | Some r \<Rightarrow>
          (case (cr_evidence r, map_of step_of_tool (cr_name r)) of
             (PDict d, Some step) \<Rightarrow>
               py_bind (project_report el fs root_dir step d) (\<lambda>f.
                 Inr (if substantive f then Some (failure_payload f) else None))
           | _ \<Rightarrow> Inr None))"

section \<open>Reading back and rendering\<close>

definition canonical_text :: "char \<Rightarrow> nat \<Rightarrow> bool \<Rightarrow> string \<Rightarrow> bool" where
  \<comment> \<open>\<open>_canonical\<close> of a text\<close>
  "canonical_text el limit allow_empty s \<longleftrightarrow>
     (allow_empty \<or> s \<noteq> []) \<and> length s \<le> limit \<and> printable s \<and> s = bounded el s limit"

definition canonical_item :: "char \<Rightarrow> nat \<Rightarrow> bool \<Rightarrow> pyval \<Rightarrow> bool" where
  "canonical_item el limit allow_empty v = (case v of PStr s \<Rightarrow> canonical_text el limit allow_empty s | _ \<Rightarrow> False)"

definition superscripts :: "nat list" where
  \<comment> \<open>digits of \<open>str.isdigit\<close> that \<open>int\<close> refuses\<close>
  "superscripts = [178, 179, 185]"

definition line_number_ok :: "string \<Rightarrow> bool py" where
  \<comment> \<open>\<open>line.isdigit() and int(line) >= 1\<close>\<close>
  "line_number_ok s =
     (if s = [] \<or> \<not> list_all (\<lambda>c. is_digit c \<or> code c \<in> set superscripts) s then Inr False
      else if \<not> list_all is_digit s then Inl ValueError
      else Inr (decimal_value s \<ge> 1))"

definition split_last_colon :: "string \<Rightarrow> string \<times> bool \<times> string" where
  \<comment> \<open>\<open>rpartition(":")\<close>: before, whether there is one, after\<close>
  "split_last_colon s =
     (let after = rev (takeWhile (\<lambda>c. c \<noteq> CHR '':'') (rev s))
      in if CHR '':'' \<in> set s then (take (length s - length after - 1) s, True, after) else ([], False, s))"

definition location_path_ok :: "char \<Rightarrow> string \<Rightarrow> bool" where
  "location_path_ok el p \<longleftrightarrow>
     take 1 p \<noteq> ''/'' \<and> take 1 p \<noteq> [CHR 0x5C] \<and> CHR '':'' \<notin> set p \<and> CHR 0x5C \<notin> set p
     \<and> ''..'' \<notin> set (split_slash (dropWhile (\<lambda>c. c = el) p))"

definition valid_location :: "char \<Rightarrow> pyval \<Rightarrow> bool py" where
  "valid_location el v =
     (case v of
        PStr s \<Rightarrow>
          if \<not> printable s then Inr False
          else (case split_last_colon s of
                  (p, sep, line) \<Rightarrow>
                    if \<not> sep then Inr False
                    else py_bind (line_number_ok line) (\<lambda>num.
                      Inr (num \<and> p \<noteq> [] \<and> length p \<le> MAX_LOCATION_CHARS \<and> location_path_ok el p)))
      | _ \<Rightarrow> Inr False)"

definition lists_ok :: "char \<Rightarrow> pydict \<Rightarrow> bool" where
  "lists_ok el d \<longleftrightarrow>
     (case (py_get d ''tests'', py_get d ''test_count'', py_get d ''command'') of
        (PList ts, PInt n, PList cs) \<Rightarrow>
          length ts \<le> MAX_TESTS \<and> list_all (canonical_item el MAX_NAME_CHARS False) ts \<and> n \<ge> int (length ts)
          \<and> length cs \<le> MAX_ARGV \<and> list_all (canonical_item el MAX_ARG_CHARS True) cs
      | _ \<Rightarrow> False)"

datatype first_read = Absent_First | Malformed_First | Read_First first_failure

definition read_first :: "char \<Rightarrow> pyval \<Rightarrow> first_read py" where
  "read_first el v =
     (case v of
        PNone \<Rightarrow> Inr Absent_First
      | PDict g \<Rightarrow>
          if fst ` set g \<noteq> {''location'', ''text''} then Inr Malformed_First
          else
            py_bind (if py_get g ''location'' = PNone then Inr True else valid_location el (py_get g ''location'')) (\<lambda>loc.
              Inr (if canonical_item el MAX_TEXT_CHARS False (py_get g ''text'') \<and> loc
                   then Read_First \<lparr>ff_location = (case py_get g ''location'' of PStr l \<Rightarrow> Some l | _ \<Rightarrow> None),
                                    ff_text = py_str (py_get g ''text'')\<rparr>
                   else Malformed_First))
      | _ \<Rightarrow> Inr Malformed_First)"

definition shape_ok :: "char \<Rightarrow> pydict \<Rightarrow> bool py" where
  \<comment> \<open>membership of an unhashable step or kind is a TypeError\<close>
  "shape_ok el d =
     py_bind (member_of [''build'', ''tests''] (py_get d ''step'')) (\<lambda>s.
       if \<not> s then Inr False
       else py_bind (if py_get d ''kind'' = PNone then Inr True else member_of failure_kinds (py_get d ''kind'')) (\<lambda>k.
         Inr (k \<and> lists_ok el d)))"

definition facts_of :: "pydict \<Rightarrow> first_read \<Rightarrow> check_failure" where
  "facts_of d f =
     \<lparr>ck_step = py_str (py_get d ''step''), ck_kind = (case py_get d ''kind'' of PStr k \<Rightarrow> Some k | _ \<Rightarrow> None),
      ck_tests = map py_str (list_items (py_get d ''tests'')),
      ck_count = (case py_get d ''test_count'' of PInt n \<Rightarrow> n | _ \<Rightarrow> 0),
      ck_first = (case f of Read_First g \<Rightarrow> Some g | _ \<Rightarrow> None),
      ck_command = map py_str (list_items (py_get d ''command''))\<rparr>"

definition read_check_failure :: "char \<Rightarrow> pyval \<Rightarrow> check_failure option py" where
  "read_check_failure el v =
     (case v of
        PDict d \<Rightarrow>
          if fst ` set d \<noteq> set failure_keys then Inr None
          else py_bind (shape_ok el d) (\<lambda>shape.
               py_bind (read_first el (py_get d ''first'')) (\<lambda>f.
                 if \<not> shape \<or> f = Malformed_First then Inr None
                 else Inr (if substantive (facts_of d f) then Some (facts_of d f) else None)))
      | _ \<Rightarrow> Inr None)"

definition project_check_failure :: "char \<Rightarrow> pydict \<Rightarrow> pydict option py" where
  "project_check_failure el metrics =
     py_bind (read_check_failure el (py_get metrics ''check_failure'')) (\<lambda>f. Inr (map_option failure_payload f))"

definition kind_note :: "check_failure \<Rightarrow> string" where
  "kind_note f = (case ck_kind f of None \<Rightarrow> [] | Some k \<Rightarrow> if k = [] \<or> k = ''failed'' then [] else '' ('' @ k @ '')'')"

definition render_check_failure :: "check_failure \<Rightarrow> string list" where
  "render_check_failure f =
     (if ck_step f = ''tests'' then
        [''Tests failed'' @ kind_note f @ '': '' @ int_str (ck_count f) @ '' test(s).'']
        @ (if ck_tests f = [] then []
           else [''Failing tests: '' @ join '', '' (ck_tests f)
                 @ (let more = ck_count f - int (length (ck_tests f)) in
                    if more > 0 then '' and '' @ int_str more @ '' more'' else [])])
      else [''The build failed'' @ kind_note f @ ''.''])
     @ (case ck_first f of None \<Rightarrow> []
        | Some g \<Rightarrow>
            [(if ck_step f = ''tests'' then ''First failure'' else ''First error'') @ '':''
               @ (case ff_location g of None \<Rightarrow> [] | Some l \<Rightarrow> if l = [] then [] else '' '' @ l),
             ''  '' @ ff_text g])
     @ (if ck_command f = [] then [] else [''Command: '' @ json_dumps (PList (map PStr (ck_command f)))])"

section \<open>Cut texts are canonical\<close>

definition ellipsis_ok :: "char \<Rightarrow> bool" where
  \<comment> \<open>what the source relies on of the ellipsis character\<close>
  "ellipsis_ok el \<longleftrightarrow> py_printable el \<and> \<not> is_ws el"

definition words_ok :: "string list \<Rightarrow> bool" where
  "words_ok ws \<longleftrightarrow> (\<forall>w \<in> set ws. w \<noteq> [] \<and> (\<forall>c \<in> set w. \<not> is_ws c))"

lemma words_ok_simps [simp]:
  "words_ok []" "words_ok (w # ws) \<longleftrightarrow> w \<noteq> [] \<and> (\<forall>c \<in> set w. \<not> is_ws c) \<and> words_ok ws"
  by (auto simp: words_ok_def)

lemma is_ws_space: "is_ws (CHR '' '')" "\<not> is_ws c \<Longrightarrow> c \<noteq> CHR '' ''"
  by (auto simp: is_ws_def code_def)

lemma split_words_ok: "\<forall>c \<in> set w. \<not> is_ws c \<Longrightarrow> words_ok (split_words s w)"
  by (induction s arbitrary: w) simp_all

lemma split_words_word: "\<forall>c \<in> set v. \<not> is_ws c \<Longrightarrow> split_words (v @ s) w = split_words s (w @ v)"
  by (induction v arbitrary: w) auto

lemma split_join: "words_ok ws \<Longrightarrow> split_words (join '' '' ws) [] = ws"
proof (induction "'' ''" ws rule: join.induct)
  case (2 s)
  then show ?case using split_words_word [of s "[]" "[]"] by (simp add: words_ok_def)
next
  case (3 s t ss)
  then show ?case using split_words_word [of s "'' '' @ join '' '' (t # ss)" "[]"]
    by (simp add: words_ok_def is_ws_space)
qed simp

lemma take_join:
  assumes "words_ok ws" "\<not> is_ws el"
  shows "\<exists>vs. words_ok vs \<and> vs \<noteq> [] \<and> take k (join '' '' ws) @ [el] = join '' '' vs"
  using assms(1)
proof (induction "'' ''" ws arbitrary: k rule: join.induct)
  case 1
  then show ?case using assms(2) by (intro exI [of _ "[[el]]"]) (simp add: words_ok_def)
next
  case (2 s)
  then show ?case using assms(2)
    by (intro exI [of _ "[take k s @ [el]]"]) (auto simp: words_ok_def dest: in_set_takeD)
next
  case (3 s t ss)
  show ?case
  proof (cases "k \<le> length s")
    case True
    then show ?thesis using 3(2) assms(2)
      by (intro exI [of _ "[take k s @ [el]]"]) (auto simp: words_ok_def dest: in_set_takeD)
  next
    case False
    then obtain m where k: "k = length s + 1 + m" by (metis Suc_eq_plus1 add.commute less_eq_Suc_le linorder_not_le nat_le_iff_add)
    from 3(1) [of m] 3(2) obtain vs where vs: "words_ok vs" "vs \<noteq> []" "take m (join '' '' (t # ss)) @ [el] = join '' '' vs"
      by (auto simp: words_ok_def)
    then obtain v vs' where "vs = v # vs'" by (cases vs) auto
    with vs k 3(2) show ?thesis by (intro exI [of _ "s # vs"]) (auto simp: words_ok_def)
  qed
qed

lemma spaced_join: "words_ok ws \<Longrightarrow> spaced (join '' '' ws) = join '' '' ws"
  by (simp add: spaced_def split_join)

lemma bounded_props:
  assumes "ellipsis_ok el" "1 \<le> limit"
  shows "length (bounded el s limit) \<le> limit" "bounded el (bounded el s limit) limit = bounded el s limit"
proof -
  have ws: "words_ok (split_words s [])" by (simp add: split_words_ok)
  have short: "length (bounded el s limit) \<le> limit" using assms(2) by (simp add: bounded_def Let_def)
  then show "length (bounded el s limit) \<le> limit" .
  have "\<exists>vs. words_ok vs \<and> bounded el s limit = join '' '' vs"
    using take_join [OF ws, of el "limit - 1"] ws assms(1) by (auto simp: bounded_def spaced_def Let_def ellipsis_ok_def)
  then have "spaced (bounded el s limit) = bounded el s limit" using spaced_join by fastforce
  with short show "bounded el (bounded el s limit) limit = bounded el s limit" by (simp add: bounded_def [of el "bounded el s limit"])
qed

lemma spaced_empty: "spaced s = [] \<Longrightarrow> py_strip s = []"
proof -
  assume s: "spaced s = []"
  have ws: "words_ok (split_words s [])" by (simp add: split_words_ok)
  have "split_words s [] = []"
  proof (cases "split_words s []")
    case (Cons w ws')
    with s ws show ?thesis by (cases ws') (simp_all add: spaced_def)
  qed simp
  moreover have "split_words s w = [] \<Longrightarrow> w = [] \<and> (\<forall>c \<in> set s. is_ws c)" for w
    by (induction s arbitrary: w) (force split: if_splits)+
  ultimately have "\<forall>c \<in> set s. is_ws c" by blast
  then show ?thesis by (auto simp: py_strip_def dropWhile_eq_Nil_conv dest: set_dropWhileD)
qed

lemma bounded_nonempty: "py_strip s \<noteq> [] \<Longrightarrow> bounded el s limit \<noteq> []"
  using spaced_empty by (auto simp: bounded_def Let_def)

section \<open>What is recorded can be read\<close>

definition plain_place :: "char \<Rightarrow> string \<Rightarrow> bool" where
  \<comment> \<open>a relative path without a colon, a backslash or a parent step, also behind a leading ellipsis\<close>
  "plain_place el p \<longleftrightarrow> take 1 p \<noteq> ''/'' \<and> CHR '':'' \<notin> set p \<and> CHR 0x5C \<notin> set p
     \<and> ''..'' \<notin> set (split_slash (dropWhile (\<lambda>c. c = el) p))"

definition readable :: "char \<Rightarrow> check_failure \<Rightarrow> bool" where
  \<comment> \<open>every text is printable, every test has a name, and the path before the line number is a plain one\<close>
  "readable el f \<longleftrightarrow>
     (\<forall>t \<in> set (ck_tests f). t \<noteq> [] \<and> printable t) \<and> (\<forall>a \<in> set (ck_command f). printable a)
     \<and> (\<forall>g. ck_first f = Some g \<longrightarrow> printable (ff_text g)
          \<and> (\<forall>l. ff_location g = Some l \<longrightarrow> printable l \<and> plain_place el (fst (split_last_colon l))))"

definition numbered_place :: "string \<Rightarrow> bool" where
  \<comment> \<open>a bounded path and a line number\<close>
  "numbered_place l \<longleftrightarrow>
     (\<exists>t n. l = t @ '':'' @ int_str n \<and> 1 \<le> n \<and> t \<noteq> [] \<and> length t \<le> MAX_LOCATION_CHARS)"

lemma split_numbered: "1 \<le> n \<Longrightarrow> split_last_colon (t @ '':'' @ int_str n) = (t, True, int_str n)"
proof -
  assume "1 \<le> n"
  then have n: "int_str n = nat_str (nat n)" by (simp add: int_str_def)
  have "takeWhile (\<lambda>c. c \<noteq> CHR '':'') (rev (t @ '':'' @ nat_str (nat n))) = rev (nat_str (nat n))"
    using nat_str_no_colon [of "nat n"] by (auto simp: takeWhile_append)
  then show ?thesis by (simp add: split_last_colon_def n)
qed

lemma line_number_of: "1 \<le> n \<Longrightarrow> line_number_ok (int_str n) = Inr True"
  using nat_str_digits [of "nat n"]
  by (auto simp: line_number_ok_def int_str_def list_all_iff decimal_nat_str)

lemma plain_place_ok: "location_path_ok el p \<longleftrightarrow> plain_place el p"
  by (cases p) (auto simp: location_path_ok_def plain_place_def)

lemma valid_numbered:
  assumes "numbered_place l"
  shows "valid_location el (PStr l) = Inr (printable l \<and> plain_place el (fst (split_last_colon l)))"
proof -
  from assms obtain t n where l: "l = t @ '':'' @ int_str n" and n: "1 \<le> n" "t \<noteq> []" "length t \<le> MAX_LOCATION_CHARS"
    by (auto simp: numbered_place_def)
  show ?thesis
    unfolding l by (simp add: valid_location_def split_numbered [OF n(1), simplified] line_number_of [OF n(1)] plain_place_ok n(2,3))
qed

definition produced :: "char \<Rightarrow> check_failure \<Rightarrow> bool" where
  \<comment> \<open>what the projection makes of any report\<close>
  "produced el f \<longleftrightarrow>
     ck_step f \<in> {''build'', ''tests''} \<and> (\<forall>k. ck_kind f = Some k \<longrightarrow> k \<in> set failure_kinds)
     \<and> length (ck_tests f) \<le> MAX_TESTS \<and> int (length (ck_tests f)) \<le> ck_count f \<and> length (ck_command f) \<le> MAX_ARGV
     \<and> (\<forall>t \<in> set (ck_tests f). length t \<le> MAX_NAME_CHARS \<and> bounded el t MAX_NAME_CHARS = t)
     \<and> (\<forall>a \<in> set (ck_command f). length a \<le> MAX_ARG_CHARS \<and> bounded el a MAX_ARG_CHARS = a)
     \<and> (\<forall>g. ck_first f = Some g \<longrightarrow> ff_text g \<noteq> [] \<and> length (ff_text g) \<le> MAX_TEXT_CHARS
          \<and> bounded el (ff_text g) MAX_TEXT_CHARS = ff_text g
          \<and> (\<forall>l. ff_location g = Some l \<longrightarrow> numbered_place l))"

lemma kind_in_Inr: "kind_in v = Inr (Some k) \<Longrightarrow> k \<in> set failure_kinds"
  by (cases v) (auto simp: kind_in_def member_of_def py_str_def split: if_splits)

lemma location_of_Some:
  assumes l: "location_of el fs root_dir v w = Inr (Some l)"
  shows "\<exists>t n. 1 \<le> n \<and> t \<noteq> [] \<and>
    l = (if length t > MAX_LOCATION_CHARS then el # drop (length t - (MAX_LOCATION_CHARS - 1)) t else t) @ '':'' @ int_str n"
proof -
  from l obtain s n where v: "v = PStr s" and w: "w = PInt n" by (cases v; cases w) (simp_all add: location_of_def)
  note l = l [unfolded location_of_def v w prod.case pyval.case]
  have g: "\<not> (s = [] \<or> \<not> printable s \<or> n < 1)" using l by (auto split: if_split_asm)
  note l = l [unfolded if_not_P [OF g] py_bind_Inr_iff]
  from l obtain shown where sh: "(case shown of None \<Rightarrow> Inr None
    | Some t \<Rightarrow> if t = [] \<or> t = ''.'' then Inr None
        else Inr (Some ((if length t > MAX_LOCATION_CHARS then el # drop (length t - (MAX_LOCATION_CHARS - 1)) t else t)
          @ '':'' @ int_str n))) = (Inr (Some l) :: string option py)" by blast
  show ?thesis
  proof (cases shown)
    case None
    with sh show ?thesis by simp
  next
    case (Some t)
    note sh = sh [unfolded Some option.case]
    have t: "\<not> (t = [] \<or> t = ''.'')"
    proof
      assume "t = [] \<or> t = ''.''"
      from sh [unfolded if_P [OF this]] show False by simp
    qed
    note sh = sh [unfolded if_not_P [OF t] sum.inject option.inject]
    have "1 \<le> n" "t \<noteq> []" using g t by simp_all
    with sh [symmetric] show ?thesis by blast
  qed
qed

lemma location_numbered:
  assumes "location_of el fs root_dir v w = Inr (Some l)"
  shows "numbered_place l"
proof -
  from location_of_Some [OF assms] obtain t n where n: "1 \<le> n" "t \<noteq> []"
    and l: "l = (if length t > MAX_LOCATION_CHARS then el # drop (length t - (MAX_LOCATION_CHARS - 1)) t else t) @ '':'' @ int_str n"
    by blast
  let ?p = "if length t > MAX_LOCATION_CHARS then el # drop (length t - (MAX_LOCATION_CHARS - 1)) t else t"
  have "?p \<noteq> [] \<and> length ?p \<le> MAX_LOCATION_CHARS" using n(2) by (simp add: MAX_LOCATION_CHARS_def)
  with n(1) l show ?thesis unfolding numbered_place_def by blast
qed

lemma first_of_groups_Some:
  "first_of_groups el fs root_dir step gs = Inr (Some g) \<Longrightarrow>
     (\<exists>t. py_strip t \<noteq> [] \<and> ff_text g = bounded el t MAX_TEXT_CHARS)
     \<and> (\<forall>l. ff_location g = Some l \<longrightarrow> numbered_place l)"
proof (induction gs)
  case (Cons x gs)
  then show ?case
    by (auto simp: py_bind_Inr_iff location_numbered split: pyval.splits list.splits option.splits if_splits)
qed simp

lemma failed_names_bounded:
  "t \<in> set (failed_names el step d) \<Longrightarrow> \<exists>s. t = bounded el s MAX_NAME_CHARS"
  by (auto simp: failed_names_def split: if_splits pyval.splits)

lemma failed_count_ge: "int (length (failed_names el step d)) \<le> failed_count step d (length (failed_names el step d))"
  by (auto simp: failed_count_def failed_names_def split: pyval.splits)

lemma project_report_produced:
  assumes "ellipsis_ok el" "project_report el fs root_dir step d = Inr f" "step \<in> {''build'', ''tests''}"
  shows "produced el f"
proof -
  let ?names = "failed_names el step d"
  from assms(2) obtain kind first where k: "kind_in (py_get d ''failure_kind'') = Inr kind"
    and g: "first_of_groups el fs root_dir step (first_groups step d) = Inr first"
    and f: "f = \<lparr>ck_step = step, ck_kind = kind, ck_tests = take MAX_TESTS ?names, ck_count = failed_count step d (length ?names),
      ck_first = first, ck_command = map (\<lambda>a. bounded el (py_str a) MAX_ARG_CHARS) (take MAX_ARGV (list_items (py_get d ''command'')))\<rparr>"
    by (auto simp: project_report_def Let_def py_bind_Inr_iff)
  have "\<forall>t \<in> set (take MAX_TESTS ?names). length t \<le> MAX_NAME_CHARS \<and> bounded el t MAX_NAME_CHARS = t"
    using failed_names_bounded bounded_props [OF assms(1), of MAX_NAME_CHARS]
    by (fastforce dest: in_set_takeD simp: MAX_NAME_CHARS_def)
  moreover have "\<forall>g. first = Some g \<longrightarrow> ff_text g \<noteq> [] \<and> length (ff_text g) \<le> MAX_TEXT_CHARS
      \<and> bounded el (ff_text g) MAX_TEXT_CHARS = ff_text g \<and> (\<forall>l. ff_location g = Some l \<longrightarrow> numbered_place l)"
  proof (intro allI impI)
    fix h assume "first = Some h"
    with g have "first_of_groups el fs root_dir step (first_groups step d) = Inr (Some h)" by simp
    from first_of_groups_Some [OF this] obtain t where t: "py_strip t \<noteq> []" "ff_text h = bounded el t MAX_TEXT_CHARS"
      and l: "\<forall>l. ff_location h = Some l \<longrightarrow> numbered_place l" by blast
    show "ff_text h \<noteq> [] \<and> length (ff_text h) \<le> MAX_TEXT_CHARS
        \<and> bounded el (ff_text h) MAX_TEXT_CHARS = ff_text h \<and> (\<forall>l. ff_location h = Some l \<longrightarrow> numbered_place l)"
      unfolding t(2) using l bounded_props [OF assms(1), of MAX_TEXT_CHARS t] bounded_nonempty [OF t(1)]
      by (simp add: MAX_TEXT_CHARS_def)
  qed
  moreover have "int (length (take MAX_TESTS ?names)) \<le> failed_count step d (length ?names)"
    using failed_count_ge [of el step d] by simp
  ultimately show ?thesis
    using assms(3) k kind_in_Inr bounded_props [OF assms(1), of MAX_ARG_CHARS]
    by (auto simp: produced_def f MAX_ARG_CHARS_def)
qed

lemma py_str_text [simp]: "py_str (PStr s) = s"
  by (simp add: py_str_def)

lemma map_py_str [simp]: "map (py_str \<circ> PStr) ts = ts"
  by (induction ts) simp_all

lemma payload_get [simp]:
  "py_get (failure_payload f) ''step'' = PStr (ck_step f)"
  "py_get (failure_payload f) ''kind'' = str_or_none (ck_kind f)"
  "py_get (failure_payload f) ''tests'' = PList (map PStr (ck_tests f))"
  "py_get (failure_payload f) ''test_count'' = PInt (ck_count f)"
  "py_get (failure_payload f) ''command'' = PList (map PStr (ck_command f))"
  "py_get (failure_payload f) ''first'' = (case ck_first f of None \<Rightarrow> PNone
     | Some g \<Rightarrow> PDict [(''location'', str_or_none (ff_location g)), (''text'', PStr (ff_text g))])"
  by (simp_all add: failure_payload_def py_get_def)

lemma canonical_items:
  "list_all (canonical_item el n e) (map PStr ts) \<longleftrightarrow> list_all (canonical_text el n e) ts"
  by (induction ts) (simp_all add: canonical_item_def)

lemma lists_ok_produced:
  assumes "produced el f"
  shows "lists_ok el (failure_payload f) \<longleftrightarrow>
    (\<forall>t \<in> set (ck_tests f). t \<noteq> [] \<and> printable t) \<and> (\<forall>a \<in> set (ck_command f). printable a)"
proof -
  have "list_all (canonical_text el MAX_NAME_CHARS False) (ck_tests f) \<longleftrightarrow> (\<forall>t \<in> set (ck_tests f). t \<noteq> [] \<and> printable t)"
    "list_all (canonical_text el MAX_ARG_CHARS True) (ck_command f) \<longleftrightarrow> (\<forall>a \<in> set (ck_command f). printable a)"
    using assms by (auto simp: list_all_iff canonical_text_def produced_def)
  with assms show ?thesis by (simp add: lists_ok_def canonical_items produced_def)
qed

lemma read_first_produced:
  assumes "produced el f"
  shows "read_first el (py_get (failure_payload f) ''first'') = Inr (case ck_first f of None \<Rightarrow> Absent_First
    | Some g \<Rightarrow> if printable (ff_text g) \<and> (\<forall>l. ff_location g = Some l \<longrightarrow> printable l \<and> plain_place el (fst (split_last_colon l)))
        then Read_First g else Malformed_First)"
proof (cases "ck_first f")
  case (Some g)
  with assms have said: "canonical_text el MAX_TEXT_CHARS False (ff_text g) \<longleftrightarrow> printable (ff_text g)"
    and place: "\<forall>l. ff_location g = Some l \<longrightarrow> numbered_place l"
    by (auto simp: canonical_text_def produced_def)
  have "py_get [(''location'', l), (''text'', t)] ''location'' = l"
    "py_get [(''location'', l), (''text'', t)] ''text'' = t" for l t by (simp_all add: py_get_def)
  with Some said place show ?thesis
    by (cases "ff_location g") (auto simp: read_first_def str_or_none_def canonical_item_def valid_numbered)
qed (simp add: read_first_def)

lemma facts_of_produced:
  "facts_of (failure_payload f) (case ck_first f of None \<Rightarrow> Absent_First | Some g \<Rightarrow> Read_First g) = f"
  by (cases f; cases "ck_kind f"; cases "ck_first f") (simp_all add: facts_of_def str_or_none_def list_items_def)

lemma read_produced:
  assumes f: "produced el f"
  shows "read_check_failure el (PDict (failure_payload f)) = Inr (if readable el f \<and> substantive f then Some f else None)"
proof -
  have keys: "fst ` set (failure_payload f) = set failure_keys"
    by (auto simp: failure_payload_def failure_keys_def)
  have shape: "shape_ok el (failure_payload f) = Inr (lists_ok el (failure_payload f))"
    using f by (cases "ck_kind f") (auto simp: shape_ok_def member_of_def produced_def str_or_none_def)
  show ?thesis
  proof (cases "ck_first f")
    case None
    with facts_of_produced [of f] show ?thesis
      by (simp add: read_check_failure_def keys shape read_first_produced [OF f] lists_ok_produced [OF f] readable_def
          del: payload_get)
  next
    case (Some g)
    with facts_of_produced [of f] show ?thesis
      by (simp add: read_check_failure_def keys shape read_first_produced [OF f] lists_ok_produced [OF f] readable_def
          del: payload_get)
  qed
qed

text \<open>The reader does not see the order of keys.\<close>

lemma keys_canon: "fst ` set (sort_key fst (map (\<lambda>kv. (fst kv, canon (snd kv))) d)) = fst ` set d"
  by (force simp: image_iff)

lemma readers_see_canon:
  "member_of xs (canon v) = member_of xs v" "canonical_item el n e (canon v) = canonical_item el n e v"
  "valid_location el (canon v) = valid_location el v" "(canon v = PNone) = (v = PNone)"
  by (cases v; simp add: member_of_def canonical_item_def valid_location_def)+

lemma canon_items: "list_all (canonical_item el n e) (map canon xs) = list_all (canonical_item el n e) xs"
  by (induction xs) (simp_all add: readers_see_canon)

lemma lists_ok_canon:
  assumes "distinct (map fst d)"
  shows "lists_ok el (sort_key fst (map (\<lambda>kv. (fst kv, canon (snd kv))) d)) = lists_ok el d"
  unfolding lists_ok_def py_get_canon [OF assms]
  by (cases "py_get d ''tests''"; cases "py_get d ''test_count''"; cases "py_get d ''command''")
    (simp_all add: canon_items)

lemma read_first_canon:
  assumes "keys_distinct v"
  shows "read_first el (canon v) = read_first el v"
proof (cases v)
  case (PDict g)
  with assms have dist: "distinct (map fst g)" by (simp add: keys_distinct.simps)
  have loc: "(case canon w of PStr l \<Rightarrow> Some l | _ \<Rightarrow> None) = (case w of PStr l \<Rightarrow> Some l | _ \<Rightarrow> None)" for w by (cases w) simp_all
  have same: "canonical_item el n False w \<Longrightarrow> py_str (canon w) = py_str w" for n w
    by (cases w) (simp_all add: canonical_item_def)
  show ?thesis
    unfolding PDict canon.simps read_first_def pyval.case keys_canon py_get_canon [OF dist] readers_see_canon loc
    by (cases "canonical_item el MAX_TEXT_CHARS False (py_get g ''text'')") (simp_all add: same [of MAX_TEXT_CHARS] cong: if_cong)
qed (simp_all add: read_first_def)

lemma facts_of_canon:
  assumes "distinct (map fst d)" "shape_ok el d = Inr True"
  shows "facts_of (sort_key fst (map (\<lambda>kv. (fst kv, canon (snd kv))) d)) f = facts_of d f"
proof -
  from assms(2) have s: "member_of [''build'', ''tests''] (py_get d ''step'') = Inr True" and l: "lists_ok el d"
    by (auto simp: shape_ok_def py_bind_Inr_iff split: if_splits)
  from s have step: "py_str (canon (py_get d ''step'')) = py_str (py_get d ''step'')"
    by (cases "py_get d ''step''") (simp_all add: member_of_def)
  have strs: "list_all (canonical_item el n e) xs \<Longrightarrow> map py_str (map canon xs) = map py_str xs" for n e xs
    by (induction xs) (auto simp: canonical_item_def split: pyval.splits)
  from l strs have "map py_str (list_items (canon (py_get d ''tests''))) = map py_str (list_items (py_get d ''tests''))"
    "map py_str (list_items (canon (py_get d ''command''))) = map py_str (list_items (py_get d ''command''))"
    by (auto simp: lists_ok_def list_items_def simp del: map_map split: pyval.splits)
  moreover have "(case canon v of PStr k \<Rightarrow> Some k | _ \<Rightarrow> None) = (case v of PStr k \<Rightarrow> Some k | _ \<Rightarrow> None)"
    "(case canon v of PInt n \<Rightarrow> n | _ \<Rightarrow> 0) = (case v of PInt n \<Rightarrow> n | _ \<Rightarrow> 0)" for v by (cases v; simp)+
  ultimately show ?thesis using step by (simp only: facts_of_def py_get_canon [OF assms(1)])
qed

lemma read_check_failure_canon:
  assumes "keys_distinct v"
  shows "read_check_failure el (canon v) = read_check_failure el v"
proof (cases v)
  case (PDict d)
  with assms have dist: "distinct (map fst d)" and first: "keys_distinct (py_get d ''first'')"
    by (auto simp: keys_distinct.simps py_get_def split: option.splits dest!: map_of_SomeD)
  let ?d = "sort_key fst (map (\<lambda>kv. (fst kv, canon (snd kv))) d)"
  have shape: "shape_ok el ?d = shape_ok el d"
    by (simp only: shape_ok_def lists_ok_canon [OF dist] py_get_canon [OF dist] readers_see_canon)
  have "read_first el (py_get ?d ''first'') = read_first el (py_get d ''first'')"
    by (simp only: py_get_canon [OF dist] read_first_canon [OF first])
  with shape facts_of_canon [OF dist] show ?thesis
    unfolding PDict canon.simps read_check_failure_def pyval.case keys_canon
    by (cases "shape_ok el d"; cases "read_first el (py_get d ''first'')") auto
qed (simp_all add: read_check_failure_def)

lemma failure_payload_keys: "keys_distinct (PDict (failure_payload f))"
  by (cases "ck_first f"; cases "ck_kind f")
    (auto simp: failure_payload_def str_or_none_def keys_distinct.simps split: option.splits)

section \<open>Rendered lines are printable\<close>

lemma printable_append [simp]: "printable (s @ t) \<longleftrightarrow> printable s \<and> printable t"
  by (simp add: printable_def)

lemma printable_simps [simp]: "printable []" "printable (c # s) \<longleftrightarrow> py_printable c \<and> printable s"
  by (simp_all add: printable_def)

lemma hex_char_printable: "d < 16 \<Longrightarrow> py_printable (hex_char d)"
proof -
  assume "d < 16"
  then have "d \<in> set [0..<16]" by simp
  moreover have "\<forall>d \<in> set [0..<16]. py_printable (hex_char d)" by code_simp
  ultimately show ?thesis by blast
qed

lemma ascii_printable: "32 \<le> code c \<Longrightarrow> code c \<le> 126 \<Longrightarrow> py_printable c"
  by (simp add: py_printable_def Let_def)

lemma json_char_printable: "printable (json_char c)"
proof -
  have "code c < 256" by simp
  then have "code c div 16 < 16" "code c mod 16 < 16" by linarith+
  then have "py_printable (hex_char (code c div 16))" "py_printable (hex_char (code c mod 16))"
    by (simp_all only: hex_char_printable)
  moreover have "list_all py_printable [CHR ''u'', CHR ''0'', CHR ''n'', CHR ''r'', CHR ''t'', CHR ''f'', CHR ''b'', CHR 0x5C, CHR 0x22]"
    by code_simp
  ultimately show ?thesis by (simp add: json_char_def Let_def ascii_printable)
qed

lemma json_str_printable: "printable (json_str s)"
proof -
  have "printable (concat (map json_char s))"
    by (induction s) (simp_all add: json_char_printable)
  moreover have "py_printable (CHR 0x22)" by code_simp
  ultimately show ?thesis by (simp add: json_str_def)
qed

lemma join_printable: "printable sep \<Longrightarrow> (\<forall>x \<in> set xs. printable x) \<Longrightarrow> printable (join sep xs)"
  by (induction sep xs rule: join.induct) auto

lemma nat_str_printable: "printable (nat_str n)"
proof -
  have "py_printable c" if "c \<in> set (nat_str n)" for c
    using nat_str_digits [of n] that by (intro ascii_printable) (auto simp: is_digit_def)
  then show ?thesis by (simp add: printable_def list_all_iff)
qed

lemma int_str_printable: "printable (int_str i)"
proof -
  have "py_printable (CHR ''-'')" by code_simp
  then show ?thesis by (simp add: int_str_def nat_str_printable)
qed

lemma command_printable: "printable (json_dumps (PList (map PStr xs)))"
proof -
  have "printable (join '', '' (map (json_dumps \<circ> PStr) xs))"
    by (rule join_printable) (code_simp, simp add: json_str_printable)
  moreover have "py_printable (CHR ''['')" "py_printable (CHR '']'')" by code_simp+
  ultimately show ?thesis by simp
qed

definition plain_facts :: "check_failure \<Rightarrow> bool" where
  "plain_facts f \<longleftrightarrow>
     (\<forall>k. ck_kind f = Some k \<longrightarrow> printable k) \<and> (\<forall>t \<in> set (ck_tests f). printable t)
     \<and> (\<forall>g. ck_first f = Some g \<longrightarrow> printable (ff_text g) \<and> (\<forall>l. ff_location g = Some l \<longrightarrow> printable l))"

lemma kinds_printable: "k \<in> set failure_kinds \<Longrightarrow> printable k"
proof -
  assume "k \<in> set failure_kinds"
  moreover have "list_all printable failure_kinds" by code_simp
  ultimately show ?thesis by (simp add: list_all_iff)
qed

lemma canonical_items_printable:
  "list_all (canonical_item el n e) ts \<Longrightarrow> \<forall>t \<in> set (map py_str ts). printable t"
  by (induction ts) (auto simp: canonical_item_def canonical_text_def simp del: printable_simps split: pyval.splits)

lemma read_first_plain:
  assumes "read_first el v = Inr (Read_First g)"
  shows "printable (ff_text g) \<and> (\<forall>l. ff_location g = Some l \<longrightarrow> printable l)"
proof -
  from assms obtain d where d: "v = PDict d" by (cases v) (auto simp: read_first_def)
  with assms have t: "canonical_item el MAX_TEXT_CHARS False (py_get d ''text'')"
    and l: "py_get d ''location'' = PNone \<or> valid_location el (py_get d ''location'') = Inr True"
    and g: "g = \<lparr>ff_location = (case py_get d ''location'' of PStr l \<Rightarrow> Some l | _ \<Rightarrow> None), ff_text = py_str (py_get d ''text'')\<rparr>"
    by (auto simp: read_first_def py_bind_Inr_iff split: if_split_asm)
  have "printable (py_str (py_get d ''text''))"
    using canonical_items_printable [of el MAX_TEXT_CHARS False "[py_get d ''text'']"] t by simp
  moreover have "printable s" if "py_get d ''location'' = PStr s" for s
    using l that by (auto simp: valid_location_def simp del: printable_simps split: if_split_asm)
  ultimately show ?thesis by (auto simp: g split: pyval.splits)
qed

lemma read_check_failure_plain:
  assumes "read_check_failure el v = Inr (Some f)"
  shows "plain_facts f"
proof -
  from assms obtain d where d: "v = PDict d" by (cases v) (auto simp: read_check_failure_def)
  with assms obtain r where shape: "shape_ok el d = Inr True" and r: "read_first el (py_get d ''first'') = Inr r"
    and f: "f = facts_of d r"
    by (auto simp: read_check_failure_def py_bind_Inr_iff split: if_splits)
  from shape have k: "py_get d ''kind'' = PNone \<or> member_of failure_kinds (py_get d ''kind'') = Inr True"
    and l: "lists_ok el d"
    by (auto simp: shape_ok_def py_bind_Inr_iff split: if_splits)
  have "printable k" if "ck_kind f = Some k" for k
    using k that by (auto simp: f facts_of_def member_of_def intro: kinds_printable split: pyval.splits)
  moreover have "\<forall>t \<in> set (ck_tests f). printable t"
    using l canonical_items_printable
    by (fastforce simp: f facts_of_def lists_ok_def list_items_def simp del: set_map split: pyval.splits)
  moreover have "printable (ff_text g) \<and> (\<forall>l. ff_location g = Some l \<longrightarrow> printable l)" if "ck_first f = Some g" for g
    using r that read_first_plain by (cases r) (auto simp: f facts_of_def)
  ultimately show ?thesis by (auto simp: plain_facts_def)
qed

lemma literals_printable:
  "printable ''Tests failed''" "printable '': ''" "printable '' test(s).''" "printable ''Failing tests: ''"
  "printable '' and ''" "printable '' more''" "printable ''The build failed''" "printable ''.''" "printable ''First failure''"
  "printable ''First error''" "printable '':''" "printable '' ''" "printable ''  ''" "printable ''Command: ''"
  "printable '' (''" "printable '')''" "printable '', ''"
  by code_simp+

lemma render_plain:
  assumes "plain_facts f"
  shows "\<forall>l \<in> set (render_check_failure f). printable l"
proof -
  have kind: "printable (kind_note f)"
    using assms literals_printable(15,16)
    by (auto simp: kind_note_def plain_facts_def simp del: printable_simps(2) append.simps split: option.splits)
  have tests: "printable (join '', '' (ck_tests f))"
    using assms by (intro join_printable literals_printable) (simp add: plain_facts_def)
  note plain = printable_append printable_simps(1) literals_printable kind tests int_str_printable command_printable
  have first: "\<forall>l \<in> set (case ck_first f of None \<Rightarrow> [] | Some g \<Rightarrow>
      [(if ck_step f = ''tests'' then ''First failure'' else ''First error'') @ '':''
         @ (case ff_location g of None \<Rightarrow> [] | Some l \<Rightarrow> if l = [] then [] else '' '' @ l), ''  '' @ ff_text g]). printable l"
  proof (cases "ck_first f")
    case (Some g)
    with assms have "printable (ff_text g)" "\<forall>l. ff_location g = Some l \<longrightarrow> printable l" by (auto simp only: plain_facts_def)
    with Some show ?thesis
      by (cases "ff_location g") (simp_all add: plain del: printable_simps(2) append.simps)
  qed simp
  show ?thesis
    unfolding render_check_failure_def set_append ball_Un Let_def
    by (intro conjI first) (simp_all add: plain del: printable_simps(2) append.simps json_dumps.simps)
qed

lemma render_length: "length (render_check_failure f) \<le> 5"
  by (auto simp: render_check_failure_def Let_def split: option.split)

lemma failure_payload_inj: "failure_payload f = failure_payload g \<Longrightarrow> f = g"
proof -
  have strs: "map PStr xs = map PStr ys \<longleftrightarrow> xs = ys" for xs ys by (simp add: inj_map_eq_map inj_def)
  have opt: "str_or_none a = str_or_none b \<longleftrightarrow> a = b" for a b by (cases a; cases b) (simp_all add: str_or_none_def)
  show "failure_payload f = failure_payload g \<Longrightarrow> f = g"
    by (cases f; cases g; cases "ck_first f"; cases "ck_first g") (auto simp: failure_payload_def strs opt)
qed

lemma check_failure_facts_produced:
  assumes "ellipsis_ok el" "check_failure_facts el fs root_dir history = Inr (Some (failure_payload f))"
  shows "produced el f \<and> substantive f"
proof -
  from assms(2) obtain r where r: "find failing_call (rev history) = Some r"
    by (auto simp: check_failure_facts_def split: option.splits)
  with assms(2) obtain rep step g where g: "project_report el fs root_dir step rep = Inr g"
    and d: "failure_payload f = failure_payload g" "substantive g" and step: "map_of step_of_tool (cr_name r) = Some step"
    by (auto simp: check_failure_facts_def py_bind_Inr_iff split: pyval.splits option.splits if_splits)
  from step have "step \<in> {''build'', ''tests''}" by (auto simp: step_of_tool_def split: if_splits)
  from project_report_produced [OF assms(1) g this] d failure_payload_inj show ?thesis by blast
qed

section \<open>The properties\<close>

text \<open>C21: the recorded facts of a failed check are the ones read later, or there are none. Whatever the
  reports of a worker say, the facts projected from them pass the reader unchanged (directly, as the
  block of a task result, and after a round through JSON with its keys sorted) exactly when every test
  has a name, every text is printable, and the place of the first failure is a relative path without a
  colon, a backslash or a parent step. In every other case the reader answers that there are no facts;
  it never raises on them.\<close>
theorem failure_facts_are_read_back:
  assumes "ellipsis_ok el"
    and "check_failure_facts el fs root_dir history = Inr (Some (failure_payload f))"
  shows "read_check_failure el (PDict (failure_payload f)) = Inr (if readable el f then Some f else None)
    \<and> project_check_failure el [(''check_failure'', PDict (failure_payload f))]
        = Inr (if readable el f then Some (failure_payload f) else None)
    \<and> json_loads (json_compact (PDict (failure_payload f))) = Inr (canon (PDict (failure_payload f)))
    \<and> read_check_failure el (canon (PDict (failure_payload f))) = Inr (if readable el f then Some f else None)"
proof -
  from check_failure_facts_produced [OF assms] have "produced el f" "substantive f" by simp_all
  with read_produced [of el f]
  have read: "read_check_failure el (PDict (failure_payload f)) = Inr (if readable el f then Some f else None)" by simp
  then have "project_check_failure el [(''check_failure'', PDict (failure_payload f))]
      = Inr (if readable el f then Some (failure_payload f) else None)"
    by (simp add: project_check_failure_def py_get_def)
  moreover have "read_check_failure el (canon (PDict (failure_payload f))) = Inr (if readable el f then Some f else None)"
    using read read_check_failure_canon [OF failure_payload_keys] by simp
  ultimately show ?thesis using read json_round_trip [OF failure_payload_keys, of f] by blast
qed

definition demo_ellipsis :: char where "demo_ellipsis = CHR 0xB7"

definition demo_reports :: "pyval \<Rightarrow> call_record list" where
  "demo_reports said =
     [\<lparr>cr_name = ''run_test'', cr_execution = ''ok'', cr_domain = ''fail'',
       cr_evidence = PDict [(''failure_kind'', PStr ''assertion''), (''failed'', PList [PDict [(''name'', PStr ''t1'')]]),
         (''assertions'', PList [PDict [(''file'', PStr ''a.cpp''), (''line'', PInt 3), (''text'', said)]]),
         (''command'', PList [PStr ''ctest''])]\<rparr>]"

definition demo_facts :: "string \<Rightarrow> check_failure" where
  "demo_facts said = \<lparr>ck_step = ''tests'', ck_kind = Some ''assertion'', ck_tests = [''t1''], ck_count = 1,
     ck_first = Some \<lparr>ff_location = Some ''a.cpp:3'', ff_text = said\<rparr>, ck_command = [''ctest'']\<rparr>"

definition demo_tree :: files where
  "demo_tree p = (if p = [''r''] then Folder else Missing)"

text \<open>Two printable reports that are lost: an error in a file with a colon in its name, and a failed
  test without a name.\<close>

definition colon_report :: "call_record list" where
  "colon_report =
     [\<lparr>cr_name = ''build_target'', cr_execution = ''ok'', cr_domain = ''fail'',
       cr_evidence = PDict [(''failure_kind'', PStr ''compile''),
         (''errors'', PList [PDict [(''file'', PStr ''a:b.cpp''), (''line'', PInt 3), (''message'', PStr ''x'')]])]\<rparr>]"

definition colon_facts :: check_failure where
  "colon_facts = \<lparr>ck_step = ''build'', ck_kind = Some ''compile'', ck_tests = [], ck_count = 0,
     ck_first = Some \<lparr>ff_location = Some ''a:b.cpp:3'', ff_text = ''x''\<rparr>, ck_command = []\<rparr>"

definition nameless_report :: "call_record list" where
  "nameless_report =
     [\<lparr>cr_name = ''run_test'', cr_execution = ''ok'', cr_domain = ''fail'',
       cr_evidence = PDict [(''failed'', PList [PDict [(''name'', PStr [])]])]\<rparr>]"

definition nameless_facts :: check_failure where
  "nameless_facts = \<lparr>ck_step = ''tests'', ck_kind = None, ck_tests = [[]], ck_count = 1,
     ck_first = None, ck_command = []\<rparr>"

lemma printable_reports_can_be_lost:
  "check_failure_facts demo_ellipsis demo_tree [''r''] colon_report = Inr (Some (failure_payload colon_facts))
   \<and> project_check_failure demo_ellipsis [(''check_failure'', PDict (failure_payload colon_facts))] = Inr None
   \<and> check_failure_facts demo_ellipsis demo_tree [''r''] nameless_report = Inr (Some (failure_payload nameless_facts))
   \<and> project_check_failure demo_ellipsis [(''check_failure'', PDict (failure_payload nameless_facts))] = Inr None"
  by (intro conjI) code_simp+

theorem failure_facts_are_read_back_witness:
  "read_check_failure demo_ellipsis (canon (PDict (failure_payload (demo_facts ''x is y'')))) = Inr (Some (demo_facts ''x is y''))
     \<and> read_check_failure demo_ellipsis (canon (PDict (failure_payload colon_facts))) = Inr None"
proof -
  have el: "ellipsis_ok demo_ellipsis" by code_simp
  have "(\<forall>t \<in> set (ck_tests (demo_facts ''x is y'')). t \<noteq> [] \<and> printable t)
      \<and> (\<forall>a \<in> set (ck_command (demo_facts ''x is y'')). printable a) \<and> printable ''x is y''
      \<and> printable ''a.cpp:3'' \<and> plain_place demo_ellipsis (fst (split_last_colon ''a.cpp:3''))
      \<and> \<not> plain_place demo_ellipsis (fst (split_last_colon ''a:b.cpp:3''))" by code_simp
  then have r: "readable demo_ellipsis (demo_facts ''x is y'')" "\<not> readable demo_ellipsis colon_facts"
    by (auto simp: readable_def demo_facts_def colon_facts_def)
  have p: "check_failure_facts demo_ellipsis demo_tree [''r''] (demo_reports (PStr ''x  is y''))
      = Inr (Some (failure_payload (demo_facts ''x is y'')))" by code_simp
  from printable_reports_can_be_lost
  have q: "check_failure_facts demo_ellipsis demo_tree [''r''] colon_report = Inr (Some (failure_payload colon_facts))"
    by blast
  from failure_facts_are_read_back [OF el p] failure_facts_are_read_back [OF el q] r show ?thesis by simp
qed

text \<open>Retained facts cannot reshape a diagnosis.  Whatever value stands in a retained
  result, when the reader accepts it the rendered diagnosis has one to five lines, and every
  character of them is printable: no line break, tab or terminal escape gets through.\<close>
theorem diagnosis_layout_is_fixed:
  assumes "read_check_failure el v = Inr (Some f)"
  shows "1 \<le> length (render_check_failure f) \<and> length (render_check_failure f) \<le> 5
    \<and> (\<forall>l \<in> set (render_check_failure f). printable l)"
  using render_plain [OF read_check_failure_plain [OF assms]] render_length [of f]
  by (simp add: render_check_failure_def Suc_le_eq)

theorem diagnosis_layout_is_fixed_witness:
  "length (render_check_failure (demo_facts ''x is y'')) = 5
     \<and> list_all printable (render_check_failure (demo_facts ''x is y''))"
proof -
  have "read_check_failure demo_ellipsis (PDict (failure_payload (demo_facts ''x is y''))) = Inr (Some (demo_facts ''x is y''))"
    by code_simp
  from diagnosis_layout_is_fixed [OF this] show ?thesis
    by (simp add: list_all_iff) (simp add: render_check_failure_def demo_facts_def)
qed

text \<open>A malformed block can raise where the reader promises to answer that there is none.
  A step that is a list is a TypeError, and a line number written with a superscript digit a
  ValueError; a step of an unknown name is no block, as promised.\<close>
lemma malformed_facts_can_raise:
  "read_check_failure el (PDict [(''step'', PList []), (''kind'', PNone), (''tests'', PList []), (''test_count'', PInt 1),
     (''first'', PNone), (''command'', PList [])]) = Inl TypeError
   \<and> read_check_failure el (PDict [(''step'', PStr ''tests''), (''kind'', PNone), (''tests'', PList []), (''test_count'', PInt 1),
       (''first'', PDict [(''location'', PStr [CHR ''a'', CHR '':'', CHR 0xB2]), (''text'', PStr ''x'')]), (''command'', PList [])])
     = Inl ValueError
   \<and> read_check_failure el (PDict [(''step'', PStr ''lint''), (''kind'', PNone), (''tests'', PList []), (''test_count'', PInt 1),
       (''first'', PNone), (''command'', PList [])]) = Inr None"
proof -
  have "valid_location el (PStr [CHR ''a'', CHR '':'', CHR 0xB2]) = Inl ValueError"
    by (simp add: valid_location_def split_last_colon_def line_number_ok_def printable_def superscripts_def is_digit_def
        py_printable_def code_def)
  then show ?thesis
    by (simp add: read_check_failure_def failure_keys_def shape_ok_def member_of_def py_get_def read_first_def lists_ok_def insert_commute)
qed

text \<open>One terminal escape in a report loses the whole diagnosis.  The projection shortens and
  re-spaces a text but keeps a control character such as the escape of a coloured compiler
  message; the facts it records are then refused by the reader as malformed.\<close>
lemma escape_in_a_report_loses_the_facts:
  "check_failure_facts demo_ellipsis demo_tree [''r''] (demo_reports (PStr [CHR 0x1B, CHR ''x'']))
     = Inr (Some (failure_payload (demo_facts [CHR 0x1B, CHR ''x''])))
   \<and> project_check_failure demo_ellipsis [(''check_failure'', PDict (failure_payload (demo_facts [CHR 0x1B, CHR ''x''])))] = Inr None"
  by code_simp

end
