(* ===== verification/Task_Executor.thy ===== *)
theory Task_Executor
  imports Terminal_Truth Check_Failure Cancel_Invariants
begin

text \<open>
  \<open>session/cancellable_task_executor.py\<close> with the shared parts of \<open>DurableTaskExecutor\<close>: how a
  finished, failed or stopped execution becomes one durable terminal.  The retained bytes, the
  verdict event and the closed event are built from one task result and the cleanup fact of
  the log.  A write that the executor waits for is followed by the writer's work on everything
  queued; time limits are not modelled.  Tracebacks are a parameter.
\<close>

declare json_compact.simps(6) [simp del] and canon.simps(2) [simp del] and keys_distinct.simps(2) [simp del]

section \<open>The retained result\<close>

definition opt_object :: "pydict option \<Rightarrow> pyval" where
  "opt_object d = (case d of None \<Rightarrow> PNone | Some x \<Rightarrow> PDict x)"

definition retained_values :: "task_result \<Rightarrow> pydict option \<Rightarrow> pydict option \<Rightarrow> pydict" where
  "retained_values r candidate failure =
     [(''schema'', PStr RESULT_SCHEMA), (''task_id'', PStr (rs_task_id r)),
      (''outcome'', PStr (task_outcome_value (rs_outcome r))),
      (''terminal_state'', PStr (terminal_state_value (pj_state (result_projection r)))),
      (''verdict'', PStr (task_verdict_value (pj_verdict (result_projection r)))),
      (''verification_ran'', PBool (rs_ran r)), (''verified_at_completion'', PBool (rs_verified r)),
      (''evidence_ids'', PList (map PStr (rs_evidence r))),
      (''answer'', PStr (take MAX_MESSAGE_CHARS (rs_answer r))),
      (''candidate'', opt_object candidate), (''check_failure'', opt_object failure)]"

definition retained_bytes :: "char \<Rightarrow> task_result \<Rightarrow> string py" where
  "retained_bytes el r =
     py_bind (project_candidate (rs_task_id r) (task_succeeded (rs_outcome r)) (rs_metrics r)) (\<lambda>candidate.
     py_bind (project_check_failure el (rs_metrics r)) (\<lambda>failure.
       Inr (json_compact (PDict (retained_values r candidate failure)))))"

definition result_ref :: "(string \<Rightarrow> string) \<Rightarrow> string \<Rightarrow> string \<Rightarrow> pydict" where
  "result_ref sha fresh bytes =
     [(''artifact_id'', PStr fresh), (''sha256'', PStr (sha bytes)), (''media_type'', PStr RESULT_MEDIA_TYPE),
      (''size_bytes'', PInt (int (length bytes))), (''availability'', PStr ''retained'')]"

definition result_artifact :: "char \<Rightarrow> (string \<Rightarrow> string) \<Rightarrow> string \<Rightarrow> task_result \<Rightarrow> (pydict \<times> string) py" where
  "result_artifact el sha fresh r = py_bind (retained_bytes el r) (\<lambda>b. Inr (result_ref sha fresh b, b))"

definition RECONCILED_CLEANUP :: "string list" where
  "RECONCILED_CLEANUP = [''not_needed'', ''confirmed'']"

definition cleanup_note :: "string \<Rightarrow> string" where
  "cleanup_note cleanup =
     ''A build or test process this task started may still be running (cleanup '' @ cleanup
     @ ''), so its result is not trusted as complete.''"

definition with_reconciled_cleanup :: "task_result \<Rightarrow> string \<Rightarrow> task_result py" where
  "with_reconciled_cleanup r cleanup =
     (if pj_state (result_projection r) \<noteq> T_COMPLETED \<or> cleanup \<in> set RECONCILED_CLEANUP then Inr r
      else mk_task_result (rs_task_id r) (PStr (task_outcome_value O_NO_VERDICT))
             (py_strip (cleanup_note cleanup @ nl @ nl @ rs_answer r)) False (rs_evidence r) (rs_metrics r)
             (Some (rs_ran r)) (Some ''cleanup_unknown''))"

section \<open>The terminal bundle\<close>

definition verdict_payload :: "string \<Rightarrow> task_result \<Rightarrow> verdict_block \<Rightarrow> pydict \<Rightarrow> bool \<Rightarrow> pydict" where
  "verdict_payload task r block ref worker =
     [(''completion'', PDict
        [(''task_id'', PStr task), (''status'', PStr (terminal_state_value (pj_state (result_projection r)))),
         (''verdict_block'', PDict (block_payload block)),
         (''worker_artifact_ref'', if worker then PDict ref else PNone), (''result_ref'', PDict ref)])]"

definition closed_payload :: "task_result \<Rightarrow> pydict \<Rightarrow> string \<Rightarrow> pydict" where
  "closed_payload r ref cleanup =
     [(''status'', PStr (terminal_state_value (pj_state (result_projection r)))),
      (''result_ref'', PDict ref), (''cleanup'', PStr cleanup)]"

lemma retained_get [simp]:
  "py_get (retained_values r c f) ''schema'' = PStr RESULT_SCHEMA"
  "py_get (retained_values r c f) ''task_id'' = PStr (rs_task_id r)"
  "py_get (retained_values r c f) ''outcome'' = PStr (task_outcome_value (rs_outcome r))"
  "py_get (retained_values r c f) ''terminal_state'' = PStr (terminal_state_value (pj_state (result_projection r)))"
  "py_get (retained_values r c f) ''verdict'' = PStr (task_verdict_value (pj_verdict (result_projection r)))"
  "py_get (retained_values r c f) ''verification_ran'' = PBool (rs_ran r)"
  "py_get (retained_values r c f) ''verified_at_completion'' = PBool (rs_verified r)"
  "py_get (retained_values r c f) ''evidence_ids'' = PList (map PStr (rs_evidence r))"
  "py_get (retained_values r c f) ''answer'' = PStr (take MAX_MESSAGE_CHARS (rs_answer r))"
  "py_get (retained_values r c f) ''candidate'' = opt_object c"
  "py_get (retained_values r c f) ''check_failure'' = opt_object f"
  by (simp_all add: retained_values_def py_get_def)

lemma retained_keys:
  "distinct (map fst (retained_values r c f))"
  "fst ` set (retained_values r c f) = set (RESULT_FIELDS_V1 @ [''candidate'', ''check_failure''])"
  by (auto simp: retained_values_def RESULT_FIELDS_V1_def)

text \<open>Projected blocks are JSON objects with distinct keys that pass their own reader.\<close>

definition projected_ok :: "pydict option \<Rightarrow> bool" where
  "projected_ok c \<longleftrightarrow> keys_distinct (opt_object c) \<and> returns (\<lambda>_. True) (validate_candidate (opt_object c))"

lemma opt_text_keys: "opt_text ok v = Inr t \<Longrightarrow> keys_distinct v"
  by (cases v) (auto simp: opt_text_def split: if_splits)

lemma path_texts_keys: "path_texts (PList ps) = Inr t \<Longrightarrow> keys_distinct (PList ps)"
  by (auto simp: path_texts_def py_check_def split: if_splits pyval.splits) (metis keys_distinct.simps(6) pyval.exhaust)

lemma raw_get:
  "py_get (raw_payload role task b paths patch cbase commit) ''role'' = role"
  "py_get (raw_payload role task b paths patch cbase commit) ''candidate_task_id'' = task"
  "py_get (raw_payload role task b paths patch cbase commit) ''retained'' = PBool b"
  "py_get (raw_payload role task b paths patch cbase commit) ''paths'' = PList paths"
  "py_get (raw_payload role task b paths patch cbase commit) ''patch_sha256'' = patch"
  "py_get (raw_payload role task b paths patch cbase commit) ''base_commit'' = cbase"
  "py_get (raw_payload role task b paths patch cbase commit) ''commit'' = commit"
  by (simp_all add: raw_payload_def py_get_def)

lemma checked_raw_ok:
  assumes "checked_payload (raw_payload role task b paths patch cbase commit) = Inr c"
  shows "projected_ok c"
proof -
  let ?d = "raw_payload role task b paths patch cbase commit"
  from assms obtain v where v: "validate_candidate (PDict ?d) = Inr v" and c: "c = Some ?d"
    by (auto simp: checked_payload_def py_bind_Inr_iff)
  from v obtain r1 t1 p1 x1 y1 z1 where "role_of role = Inr r1" "canonical_uuid task = Inr t1"
      "path_texts (PList paths) = Inr p1" "opt_text sha256_hex patch = Inr x1" "opt_text git_oid cbase = Inr y1"
      "opt_text git_oid commit = Inr z1"
    unfolding validate_candidate_def pyval.case raw_get py_bind_Inr_iff py_check_Inr_iff
    by (elim exE conjE) (rule that; assumption)
  then have "keys_distinct role" "keys_distinct task" "keys_distinct (PList paths)" "keys_distinct patch"
      "keys_distinct cbase" "keys_distinct commit"
    by (auto simp: role_of_Inr dest: canonical_uuid_Inr path_texts_keys opt_text_keys)
  then have "keys_distinct (PDict ?d)"
    by (auto simp: raw_payload_def keys_distinct.simps(2))
  with v c show ?thesis by (simp add: projected_ok_def opt_object_def returns_def)
qed

lemma no_projection_ok: "projected_ok None"
  by (simp add: projected_ok_def opt_object_def returns_def validate_candidate_def)

lemma project_action_ok: "project_action acts ok ms = Inr c \<Longrightarrow> projected_ok c"
  by (induction acts ok ms rule: project_action.induct)
    (auto simp: no_projection_ok py_bind_Inr_iff split: pyval.splits if_splits option.splits dest: checked_raw_ok)

lemma project_candidate_ok: "project_candidate task ok ms = Inr c \<Longrightarrow> projected_ok c"
  by (auto simp: project_candidate_def Let_def py_bind_Inr_iff split: pyval.splits if_split_asm
      dest: checked_raw_ok project_action_ok)

lemma project_failure_ok: "project_check_failure el ms = Inr f \<Longrightarrow> keys_distinct (opt_object f)"
  by (auto simp: project_check_failure_def py_bind_Inr_iff opt_object_def failure_payload_keys split: option.splits)

lemma retained_distinct:
  assumes "keys_distinct (opt_object c)" "keys_distinct (opt_object f)"
  shows "keys_distinct (PDict (retained_values r c f))"
  using assms retained_keys(1) [of r c f]
  by (auto simp: keys_distinct.simps(2)) (auto simp: retained_values_def keys_distinct.simps)

lemma as_value_error_pure [simp]: "as_value_error (Inr a) = Inr a"
  by (simp add: as_value_error_def)

lemma read_typed:
  assumes ok: "result_ok r" and d: "distinct (map fst d)"
    and get: "py_get d ''outcome'' = PStr (task_outcome_value (rs_outcome r))"
      "py_get d ''terminal_state'' = PStr (terminal_state_value (pj_state (result_projection r)))"
      "py_get d ''verdict'' = PStr (task_verdict_value (pj_verdict (result_projection r)))"
      "py_get d ''verification_ran'' = PBool (rs_ran r)" "py_get d ''verified_at_completion'' = PBool (rs_verified r)"
  shows "typed_result task d answer ev = Inr \<lparr>rs_task_id = task, rs_outcome = rs_outcome r, rs_answer = answer,
      rs_verified = rs_verified r, rs_evidence = ev, rs_metrics = [], rs_ran = rs_ran r, rs_reason = None\<rparr>"
proof -
  from ok have "rs_verified r \<longleftrightarrow> task_succeeded (rs_outcome r)" "rs_verified r \<longrightarrow> rs_ran r" by (simp_all add: result_ok_def)
  from mk_task_result_Inr [OF this] get show ?thesis
    by (simp add: typed_result_def the_bool_def result_projection_def)
qed

lemma retained_result_reads:
  assumes ok: "result_ok r" and c: "projected_ok c" and f: "keys_distinct (opt_object f)"
    and ev: "\<forall>i \<in> set (rs_evidence r). i \<noteq> []"
  shows "retained_result (rs_task_id r) (Some (json_compact (PDict (retained_values r c f))))
    = Inr (\<lparr>rs_task_id = rs_task_id r, rs_outcome = rs_outcome r, rs_answer = take MAX_MESSAGE_CHARS (rs_answer r),
        rs_verified = rs_verified r, rs_evidence = rs_evidence r, rs_metrics = [], rs_ran = rs_ran r, rs_reason = None\<rparr>,
      sort_key fst (map (\<lambda>kv. (fst kv, canon (snd kv))) (retained_values r c f)))"
proof -
  let ?v = "retained_values r c f" and ?d = "sort_key fst (map (\<lambda>kv. (fst kv, canon (snd kv))) (retained_values r c f))"
  have kd: "keys_distinct (PDict ?v)" using c f by (intro retained_distinct) (simp_all add: projected_ok_def)
  have load: "load_bytes (json_compact (PDict ?v)) = Inr (PDict ?d)"
    using load_bytes_compact [OF kd] by (simp add: canon.simps(2))
  have "json_compact (PDict ?v) \<noteq> []" by (simp add: json_compact.simps(6))
  moreover have keys: "fst ` set ?d = set (RESULT_FIELDS_V1 @ [''candidate'', ''check_failure''])"
    using retained_keys(2) [of r c f] by (simp only: keys_canon)
  note get = py_get_canon [OF retained_keys(1) [of r c f]]
  have dist: "distinct (map fst ?d)"
    using canon_keys [OF kd] by (simp add: canon.simps(2) keys_distinct.simps(2) del: sort_key_simps)
  have schema: "result_fields_for (py_get ?d ''schema'') = Inr (RESULT_FIELDS_V1 @ [''candidate'', ''check_failure''])"
    by (simp add: get result_fields_for_def RESULT_SCHEMA_def)
  obtain w where cand: "validate_candidate (py_get ?d ''candidate'') = Inr w"
    using c validate_candidate_canon [of "opt_object c"] by (auto simp: get projected_ok_def elim: returnsE)
  have evid: "nonempty_texts (py_get ?d ''evidence_ids'') = Inr (rs_evidence r)"
    using ev by (auto simp: get nonempty_texts_def comp_def py_check_def)
  have typed: "typed_result (rs_task_id r) ?d (take MAX_MESSAGE_CHARS (rs_answer r)) (rs_evidence r)
      = Inr \<lparr>rs_task_id = rs_task_id r, rs_outcome = rs_outcome r, rs_answer = take MAX_MESSAGE_CHARS (rs_answer r),
        rs_verified = rs_verified r, rs_evidence = rs_evidence r, rs_metrics = [], rs_ran = rs_ran r, rs_reason = None\<rparr>"
    by (rule read_typed [OF ok dist]) (simp_all add: get)
  have flags: "is_bool (py_get ?d ''verification_ran'')" "is_bool (py_get ?d ''verified_at_completion'')"
    "py_get ?d ''task_id'' = PStr (rs_task_id r)" "the_text (py_get ?d ''answer'') = Inr (take MAX_MESSAGE_CHARS (rs_answer r))"
    by (simp_all add: get is_bool_def the_text_def)
  show ?thesis
    unfolding retained_result_def option.case
    using calculation keys by (simp add: load the_mapping_def schema cand evid typed flags)
qed

lemma result_ref_accepted: "fresh \<noteq> [] \<Longrightarrow> validate_result_ref sha (PDict (result_ref sha fresh bytes)) bytes = Inr (result_ref sha fresh bytes)"
proof -
  have "fst ` set (result_ref sha fresh bytes) = set result_ref_keys" by (auto simp: result_ref_def result_ref_keys_def)
  then show "fresh \<noteq> [] \<Longrightarrow> validate_result_ref sha (PDict (result_ref sha fresh bytes)) bytes = Inr (result_ref sha fresh bytes)"
    by (simp add: validate_result_ref_def the_mapping_def) (simp add: result_ref_def py_get_def the_text_def py_eq_def)
qed

lemma verification_line_same:
  "check_lines \<lparr>rs_task_id = i, rs_outcome = rs_outcome r, rs_answer = a, rs_verified = rs_verified r, rs_evidence = ev,
      rs_metrics = ms, rs_ran = rs_ran r, rs_reason = rc\<rparr> (PList (map PStr ls)) = Inr ()"
  if "ls \<noteq> []" "prefix (task_verdict_value (pj_verdict (result_projection r)) @ '':'') (hd ls)"
    "verification_lines ls = [verification_line (rs_verified r) (rs_ran r) (pj_verdict (result_projection r))]"
proof -
  have "rendered_texts (PList (map PStr ls)) = Inr ls"
    using that(1) by (auto simp: rendered_texts_def py_check_def comp_def)
  with that show ?thesis by (simp add: check_lines_def Let_def result_projection_def)
qed

lemma block_get:
  "py_get (block_payload b) ''verdict'' = PStr (task_verdict_value (vb_verdict b))"
  "py_get (block_payload b) ''evidence_ids'' = PList (map PStr (vb_evidence b))"
  "py_get (block_payload b) ''rendered_lines'' = PList (map PStr (vb_lines b))"
  by (simp_all add: block_payload_def py_get_def)

lemma verdict_get:
  "py_get (verdict_payload task r block ref worker) ''completion'' = PDict
     [(''task_id'', PStr task), (''status'', PStr (terminal_state_value (pj_state (result_projection r)))),
      (''verdict_block'', PDict (block_payload block)),
      (''worker_artifact_ref'', if worker then PDict ref else PNone), (''result_ref'', PDict ref)]"
  "fst ` set (verdict_payload task r block ref worker) = {''completion''}"
  by (simp_all add: verdict_payload_def py_get_def)

lemma closed_get:
  "py_get (closed_payload r ref cleanup) ''status'' = PStr (terminal_state_value (pj_state (result_projection r)))"
  "py_get (closed_payload r ref cleanup) ''result_ref'' = PDict ref"
  "py_get (closed_payload r ref cleanup) ''cleanup'' = PStr cleanup"
  by (simp_all add: closed_payload_def py_get_def)

lemma block_evidence_nonempty: "block_ok b \<Longrightarrow> \<forall>i \<in> set (vb_evidence b). i \<noteq> []"
  by (simp add: block_ok_def)

lemma completed_value: "terminal_state_value t = ''completed'' \<longleftrightarrow> t = T_COMPLETED"
  by (cases t) simp_all

lemma bundle_accepted:
  assumes ok: "result_ok r" and art: "result_artifact el sha fresh r = Inr (ref, bytes)" and fresh: "fresh \<noteq> []"
    and blk: "verdict_block_from_task_result r scope = Inr block"
    and cleanup: "cleanup \<in> set ALLOWED_CLEANUP"
      "pj_state (result_projection r) = T_COMPLETED \<Longrightarrow> cleanup \<in> set RECONCILED_CLEANUP"
  shows "validate_terminal_completion sha (rs_task_id r) (verdict_payload (rs_task_id r) r block ref worker)
    (closed_payload r ref cleanup) (Some bytes) = Inr ()"
proof -
  from art obtain c f where c: "project_candidate (rs_task_id r) (task_succeeded (rs_outcome r)) (rs_metrics r) = Inr c"
    and f: "project_check_failure el (rs_metrics r) = Inr f"
    and bytes: "bytes = json_compact (PDict (retained_values r c f))" and ref: "ref = result_ref sha fresh bytes"
    by (auto simp: result_artifact_def retained_bytes_def py_bind_Inr_iff)
  note facts = block_facts [OF ok blk]
  then have evne: "\<forall>i \<in> set (rs_evidence r). i \<noteq> []" using block_evidence_nonempty [of block] by simp
  note read = retained_result_reads [OF ok project_candidate_ok [OF c] project_failure_ok [OF f] evne]
  have ev: "py_eq (PList (map PStr (rs_evidence r)))
      (py_get (sort_key fst (map (\<lambda>kv. (fst kv, canon (snd kv))) (retained_values r c f))) ''evidence_ids'')"
    by (simp add: py_get_canon [OF retained_keys(1)] py_eq_def comp_def)
  have lines: "vb_lines block \<noteq> []" using facts by (simp add: block_ok_def)
  have chk: "check_lines \<lparr>rs_task_id = rs_task_id r, rs_outcome = rs_outcome r, rs_answer = take MAX_MESSAGE_CHARS (rs_answer r),
        rs_verified = rs_verified r, rs_evidence = rs_evidence r, rs_metrics = [], rs_ran = rs_ran r, rs_reason = None\<rparr>
      (PList (map PStr (vb_lines block))) = Inr ()"
    using facts lines by (intro verification_line_same) auto
  have clean: "cleanup_of (PStr cleanup) = Inr cleanup" using cleanup(1) by (simp add: cleanup_of_def)
  have rec: "\<not> (pj_state (project_outcome (rs_outcome r)) = T_COMPLETED \<and> cleanup \<notin> {''not_needed'', ''confirmed''})"
    using cleanup(2) by (auto simp: RECONCILED_CLEANUP_def result_projection_def)
  have getc: "py_get [(''task_id'', a), (''status'', b), (''verdict_block'', v), (''worker_artifact_ref'', w), (''result_ref'', q)] ''task_id'' = a"
    "py_get [(''task_id'', a), (''status'', b), (''verdict_block'', v), (''worker_artifact_ref'', w), (''result_ref'', q)] ''status'' = b"
    "py_get [(''task_id'', a), (''status'', b), (''verdict_block'', v), (''worker_artifact_ref'', w), (''result_ref'', q)] ''verdict_block'' = v"
    "py_get [(''task_id'', a), (''status'', b), (''verdict_block'', v), (''worker_artifact_ref'', w), (''result_ref'', q)] ''result_ref'' = q"
    for a b v w q by (simp_all add: py_get_def)
  have vd: "vb_verdict block = pj_verdict (project_outcome (rs_outcome r))" "vb_evidence block = rs_evidence r"
    using facts by (simp_all add: result_projection_def)
  have refok: "validate_result_ref sha (PDict ref) bytes = Inr ref"
    unfolding ref by (rule result_ref_accepted [OF fresh])
  note rd = read [folded bytes]
  show ?thesis
    unfolding validate_terminal_completion_def rd py_bind_simps prod.case option.sel Let_def
      verdict_get closed_get the_mapping_def pyval.case getc block_get
    using refok chk clean rec ev vd by (simp add: result_projection_def completed_value py_eq_def)
qed

section \<open>The executor\<close>

record exec_env =
  xe_service :: service_env
  xe_tools :: "string set"           \<comment> \<open>process-spawning tools\<close>
  xe_ellipsis :: char
  xe_trace :: "py_exc \<Rightarrow> string"     \<comment> \<open>the last 7000 characters of a traceback\<close>
  xe_cancel_endpoint :: "(string \<Rightarrow> int \<Rightarrow> unit py) option"
    \<comment> \<open>\<open>controller.cancel_endpoint_execution\<close>, where the controller has it\<close>

datatype exec_phase = Ph_Admitted | Ph_Running | Ph_Returned task_result | Ph_Ended

record executor =
  ex_service :: service
  ex_cancel :: cancel_runtime
  ex_registered :: "string list"
  ex_phase :: exec_phase
  ex_result :: "task_result option"
  ex_error :: "py_exc option"

record exec_task =
  xt_task :: string
  xt_epoch :: int
  xt_owns :: bool                    \<comment> \<open>this submission registered the task\<close>
  xt_receipt :: nat                  \<comment> \<open>the receipt of the admission\<close>

text \<open>A part of the thread's work: no value when a loop does not end; otherwise the next state and
  the exception that leaves it, if any.\<close>

type_synonym body = "(executor \<times> unit py) option"

definition body_then :: "body \<Rightarrow> (executor \<Rightarrow> body) \<Rightarrow> body" where
  "body_then b f =
     (case b of None \<Rightarrow> None | Some (ex, Inl e) \<Rightarrow> Some (ex, Inl e) | Some (ex, Inr _) \<Rightarrow> f ex)"

definition finish_publishing :: "service \<Rightarrow> service" where
  "finish_publishing sv = (publish_next ^^ Suc (length (unpublished sv))) sv"

definition writer_turn :: "service_env \<Rightarrow> service \<Rightarrow> service" where
  "writer_turn x sv = finish_publishing (commit_next x sv)"

definition writer_runs :: "service_env \<Rightarrow> service \<Rightarrow> service" where
  \<comment> \<open>the writer thread up to an empty queue\<close>
  "writer_runs x sv =
     (let sv0 = finish_publishing sv in (writer_turn x ^^ length (sv_commands sv0)) sv0)"

definition awaited :: "service_env \<Rightarrow> nat \<Rightarrow> service \<Rightarrow> service \<times> unit py" where
  \<comment> \<open>\<open>receipt.wait(...)\<close>\<close>
  "awaited x i sv =
     (let sv' = writer_runs x sv
      in (sv', case wr_error (sv_receipts sv' ! i) of None \<Rightarrow> Inr () | Some e \<Rightarrow> Inl e))"

definition finalize_bundle ::
  "exec_env \<Rightarrow> task_result \<Rightarrow> string \<Rightarrow> string \<Rightarrow> (task_result \<times> pydict \<times> string \<times> verdict_block) py" where
  \<comment> \<open>the reconciled result, its artifact and its verdict block\<close>
  "finalize_bundle env r cleanup fresh =
     py_bind (with_reconciled_cleanup r cleanup) (\<lambda>r'.
     py_bind (result_artifact (xe_ellipsis env) (sx_sha (xe_service env)) fresh r') (\<lambda>(ref, bytes).
     py_bind (verdict_block_from_task_result r' UNBOUND_RESULT_SCOPE) (\<lambda>block. Inr (r', ref, bytes, block))))"

definition commit_bundle ::
  "exec_env \<Rightarrow> string \<Rightarrow> string \<Rightarrow> bool \<Rightarrow> task_result \<times> pydict \<times> string \<times> verdict_block \<Rightarrow> service \<Rightarrow> service \<times> unit py" where
  \<comment> \<open>the write and its wait; any failure is a \<open>DurableWriteFailed\<close>\<close>
  "commit_bundle env task cleanup worker bundle sv =
     (case bundle of (r, ref, bytes, block) \<Rightarrow>
        (case svc_finalize (xe_service env) task (verdict_payload task r block ref worker) (closed_payload r ref cleanup)
                (Some bytes) sv of
           Inl _ \<Rightarrow> (sv, Inl DurableWriteFailed)
         | Inr (i, sv1) \<Rightarrow>
             (case awaited (xe_service env) i sv1 of
                (sv2, Inl _) \<Rightarrow> (sv2, Inl DurableWriteFailed)
              | (sv2, Inr _) \<Rightarrow> (sv2, Inr ()))))"

definition finalize_with ::
  "exec_env \<Rightarrow> string \<Rightarrow> task_result \<Rightarrow> string \<Rightarrow> string list \<Rightarrow> bool \<Rightarrow> service \<Rightarrow> service \<times> unit py" where
  "finalize_with env task r cleanup open_ids worker sv =
     (if pj_state (result_projection r) = T_COMPLETED \<and> open_ids \<noteq> [] then (sv, Inl RuntimeError)
      else (case finalize_bundle env r cleanup (sx_uuid4 (xe_service env) (sv_drawn sv)) of
              Inl e \<Rightarrow> (sv, Inl e)
            | Inr bundle \<Rightarrow> commit_bundle env task cleanup worker bundle (sv\<lparr>sv_drawn := Suc (sv_drawn sv)\<rparr>)))"

definition finalize_result :: "exec_env \<Rightarrow> exec_task \<Rightarrow> task_result \<Rightarrow> bool \<Rightarrow> executor \<Rightarrow> body" where
  "finalize_result env t r worker ex =
     (case derive_terminal_truth (xe_service env) (ex_service ex) (xt_task t) (xt_epoch t) (xe_tools env) of
        None \<Rightarrow> None
      | Some (Inl e) \<Rightarrow> Some (ex, Inl e)
      | Some (Inr (cleanup, open_ids)) \<Rightarrow>
          (case finalize_with env (xt_task t) r cleanup open_ids worker (ex_service ex) of
             (sv, res) \<Rightarrow> Some (ex\<lparr>ex_service := sv\<rparr>, res)))"

definition no_verdict_result :: "string \<Rightarrow> string \<Rightarrow> bool option \<Rightarrow> string \<Rightarrow> task_result py" where
  "no_verdict_result task answer vran reason =
     mk_task_result task (PStr (task_outcome_value O_NO_VERDICT)) answer False [] [] vran (Some reason)"

definition finalize_fault :: "exec_env \<Rightarrow> exec_task \<Rightarrow> py_exc \<Rightarrow> executor \<Rightarrow> body" where
  "finalize_fault env t e ex =
     (case no_verdict_result (xt_task t) (''Controller fault. Retained traceback:'' @ nl @ xe_trace env e) None ''controller_fault'' of
        Inl e' \<Rightarrow> Some (ex, Inl e')
      | Inr r \<Rightarrow> finalize_result env t r True ex)"

definition stopped_answer :: "bool \<Rightarrow> string" where
  "stopped_answer confirmed =
     (if confirmed then ''Stopped. Every command it started has ended, confirmed by its process owner; the interrupted run is not a result.''
      else ''Stop requested; the execution epoch was revoked before its late result could commit. Cleanup has not been fully reconciled.'')"

definition finalize_stopped :: "exec_env \<Rightarrow> exec_task \<Rightarrow> executor \<Rightarrow> body" where
  \<comment> \<open>\<open>_finalize_cancel_unreconciled\<close>\<close>
  "finalize_stopped env t ex =
     (case derive_terminal_truth (xe_service env) (ex_service ex) (xt_task t) (xt_epoch t) (xe_tools env) of
        None \<Rightarrow> None
      | Some (Inl e) \<Rightarrow> Some (ex, Inl e)
      | Some (Inr (cleanup, open_ids)) \<Rightarrow>
          let confirmed = (cleanup = ''confirmed'' \<and> open_ids = []) in
          (case no_verdict_result (xt_task t) (stopped_answer confirmed) (Some False)
                  (if confirmed then ''cancelled'' else ''cancel_unreconciled'') of
             Inl e \<Rightarrow> Some (ex, Inl e)
           | Inr r \<Rightarrow>
               body_then (finalize_result env t r True ex) (\<lambda>ex1.
                 Some (ex1\<lparr>ex_result := Some r, ex_error := Some CancelUnreconciled\<rparr>, Inr ()))))"

definition release_registration :: "string \<Rightarrow> int \<Rightarrow> executor \<Rightarrow> executor \<times> unit py" where
  \<comment> \<open>\<open>_release_registration\<close>\<close>
  "release_registration task epoch ex =
     (if task \<notin> set (ex_registered ex) then (ex, Inr ())
      else (case unregister_task task epoch (ex_cancel ex) of
              Inl e \<Rightarrow> (ex, Inl e)
            | Inr rt \<Rightarrow> (ex\<lparr>ex_cancel := rt, ex_registered := filter (\<lambda>k. k \<noteq> task) (ex_registered ex)\<rparr>, Inr ())))"

definition release_owned :: "exec_task \<Rightarrow> executor \<Rightarrow> body" where
  "release_owned t ex = Some (if xt_owns t then release_registration (xt_task t) (xt_epoch t) ex else (ex, Inr ()))"

definition release_current :: "exec_task \<Rightarrow> executor \<Rightarrow> executor" where
  \<comment> \<open>the release at the end of a stopped execution, at whatever epoch is current\<close>
  "release_current t ex =
     (if \<not> xt_owns t then ex
      else (case current_epoch (xt_task t) (ex_cancel ex) of
              Inl _ \<Rightarrow> ex
            | Inr n \<Rightarrow> fst (release_registration (xt_task t) n ex)))"

section \<open>The fenced run\<close>

definition ended :: "executor \<Rightarrow> executor" where
  "ended ex = ex\<lparr>ex_phase := Ph_Ended\<rparr>"

definition after_error :: "exec_env \<Rightarrow> exec_task \<Rightarrow> py_exc \<Rightarrow> executor \<Rightarrow> executor option" where
  \<comment> \<open>the outer handlers of \<open>_run_fenced\<close>\<close>
  "after_error env t e ex =
     (if e = StaleExecutionEpoch then
        (case finalize_stopped env t ex of
           None \<Rightarrow> None
         | Some (ex1, res) \<Rightarrow>
             Some (ended (release_current t
               (if res = Inl DurableWriteFailed then ex1\<lparr>ex_error := Some DurableWriteFailed\<rparr> else ex1))))
      else Some (ended (let ex1 = ex\<lparr>ex_error := Some e\<rparr> in
                        if xt_owns t then fst (release_registration (xt_task t) (xt_epoch t) ex1) else ex1)))"

definition leave :: "exec_env \<Rightarrow> exec_task \<Rightarrow> body \<Rightarrow> executor option" where
  \<comment> \<open>the part ends the thread: normally, or through the handlers\<close>
  "leave env t b =
     (case b of None \<Rightarrow> None
      | Some (ex, Inl e) \<Rightarrow> after_error env t e ex
      | Some (ex, Inr _) \<Rightarrow> Some (ended ex))"

definition lift_cancel :: "(cancel_runtime \<Rightarrow> cancel_runtime py) \<Rightarrow> executor \<Rightarrow> body" where
  "lift_cancel f ex =
     Some (case f (ex_cancel ex) of Inl e \<Rightarrow> (ex, Inl e) | Inr rt \<Rightarrow> (ex\<lparr>ex_cancel := rt\<rparr>, Inr ()))"

definition require_authority :: "exec_task \<Rightarrow> executor \<Rightarrow> body" where
  "require_authority t ex = Some (ex, dispatch_authority (xt_task t) (xt_epoch t) (ex_cancel ex))"

definition append_awaited ::
  "exec_env \<Rightarrow> string \<Rightarrow> pydict \<Rightarrow> exec_task \<Rightarrow> executor \<Rightarrow> executor \<times> unit py" where
  "append_awaited env kind payload t ex =
     (case svc_append kind payload (Some (xt_task t)) None (ex_service ex) of
        Inl e \<Rightarrow> (ex, Inl e)
      | Inr (i, sv) \<Rightarrow> (case awaited (xe_service env) i sv of (sv', res) \<Rightarrow> (ex\<lparr>ex_service := sv'\<rparr>, res)))"

definition running_payload :: "int \<Rightarrow> pydict" where
  "running_payload epoch =
     [(''previous'', PStr ''admitted''), (''current'', PStr ''running''), (''reason_code'', PStr ''requested''),
      (''execution_epoch'', PInt epoch)]"

definition register_once :: "string \<Rightarrow> int \<Rightarrow> executor \<Rightarrow> (bool \<times> executor) py" where
  "register_once task epoch ex =
     (if task \<in> set (ex_registered ex) then Inr (False, ex)
      else py_bind (register_task task epoch ''queued'' (ex_cancel ex)) (\<lambda>(tok, rt).
             Inr (True, ex\<lparr>ex_cancel := rt, ex_registered := ex_registered ex @ [task]\<rparr>)))"

definition exec_submit ::
  "exec_env \<Rightarrow> string \<Rightarrow> string \<Rightarrow> pydict \<Rightarrow> string option \<Rightarrow> executor \<Rightarrow> executor \<times> exec_task py" where
  \<comment> \<open>\<open>submit\<close>: the admission is queued, the task registered and the thread started\<close>
  "exec_submit env request payload_sha payload bytes ex =
     (case py_bind (py_item (PDict payload) ''execution_epoch'') py_int of
        Inl e \<Rightarrow> (ex, Inl e)
      | Inr epoch \<Rightarrow>
          (case submit_task (xe_service env) request payload_sha payload bytes (ex_service ex) of
             Inl e \<Rightarrow> (ex, Inl e)
           | Inr (i, sv) \<Rightarrow>
               (let task = sx_uuid5 (xe_service env) (sv_stream (ex_service ex)) request;
                    ex1 = ex\<lparr>ex_service := sv\<rparr>
                in case register_once task epoch ex1 of
                     Inl e \<Rightarrow> (ex1, Inl e)
                   | Inr (owns, ex2) \<Rightarrow>
                       (ex2\<lparr>ex_phase := Ph_Admitted, ex_result := None, ex_error := None\<rparr>,
                        Inr \<lparr>xt_task = task, xt_epoch = epoch, xt_owns = owns, xt_receipt = i\<rparr>))))"

definition start_running :: "exec_env \<Rightarrow> exec_task \<Rightarrow> executor \<Rightarrow> body" where
  "start_running env t ex =
     body_then (require_authority t ex) (\<lambda>ex1.
     body_then (Some (append_awaited env ''task.state_changed'' (running_payload (xt_epoch t)) t ex1)) (\<lambda>ex2.
     body_then (lift_cancel (set_site (xt_task t) (xt_epoch t) ''waiting_inference'') ex2) (\<lambda>ex3.
       Some (ex3\<lparr>ex_phase := Ph_Running\<rparr>, Inr ()))))"

definition exec_begin :: "exec_env \<Rightarrow> exec_task \<Rightarrow> executor \<Rightarrow> executor option" where
  \<comment> \<open>the admission, and for a task it created the move to running\<close>
  "exec_begin env t ex =
     (case awaited (xe_service env) (xt_receipt t) (ex_service ex) of
        (sv, Inl e) \<Rightarrow> leave env t (Some (ex\<lparr>ex_service := sv\<rparr>, Inl e))
      | (sv, Inr _) \<Rightarrow>
          (let ex1 = ex\<lparr>ex_service := sv\<rparr> in
           if wr_created (sv_receipts sv ! xt_receipt t) = Some False then leave env t (release_owned t ex1)
           else (case start_running env t ex1 of
                   None \<Rightarrow> None
                 | Some (ex2, Inl e) \<Rightarrow> after_error env t e ex2
                 | Some (ex2, Inr _) \<Rightarrow> Some ex2)))"

definition close_with_fault :: "exec_env \<Rightarrow> exec_task \<Rightarrow> py_exc \<Rightarrow> executor \<Rightarrow> body" where
  \<comment> \<open>the handler of a controller exception and of a refused result\<close>
  "close_with_fault env t e ex =
     body_then (finalize_fault env t e ex) (\<lambda>ex1. release_owned t (ex1\<lparr>ex_error := Some e\<rparr>))"

definition runtime_errors :: "py_exc set" where
  \<comment> \<open>the classes below \<open>RuntimeError\<close>\<close>
  "runtime_errors =
     {RuntimeError, StaleExecutionEpoch, CancellationRuntimeError, EndpointUnavailable, EndpointQueueFull,
      EndpointLeaseConflict, SequenceConflict, AdmissionConflict, TaskStateConflict, ArtifactIntegrityError,
      TaskReadModelError, ServiceClosed, SubscriptionGap, ToolError, BlockedError, ProtectedPathError, SandboxError,
      DurableWriteFailed, CancelUnreconciled, DurableActivityError, WatchJobConflict, WatchDisabled, WatchOverlap,
      WatchLifecycleError, WatchRunConflict, DurableWatchError, DurableWatchAdmissionError, DurableWatchLifecycleError,
      ContextRefusal, WatchReadModelError}"

definition finish_result :: "exec_env \<Rightarrow> exec_task \<Rightarrow> task_result \<Rightarrow> executor \<Rightarrow> body" where
  \<comment> \<open>the returned result becomes the terminal, or the fault that refused it does\<close>
  "finish_result env t r ex =
     (case finalize_result env t r False ex of
        None \<Rightarrow> None
      | Some (ex1, Inl e) \<Rightarrow>
          if e \<in> runtime_errors \<and> e \<noteq> DurableWriteFailed then close_with_fault env t e ex1 else Some (ex1, Inl e)
      | Some (ex1, Inr _) \<Rightarrow> release_owned t (ex1\<lparr>ex_result := Some r\<rparr>))"

definition exec_finish :: "exec_env \<Rightarrow> exec_task \<Rightarrow> task_result \<Rightarrow> executor \<Rightarrow> executor option" where
  "exec_finish env t r ex =
     leave env t (
       body_then (require_authority t ex) (\<lambda>ex0.
       body_then (lift_cancel (set_site (xt_task t) (xt_epoch t) ''finalising'') ex0) (\<lambda>ex1.
       body_then (require_authority t ex1) (finish_result env t r))))"

definition exec_stop :: "exec_env \<Rightarrow> exec_task \<Rightarrow> string \<Rightarrow> string \<Rightarrow> executor \<Rightarrow> executor \<times> cancel_decision py" where
  \<comment> \<open>\<open>request_cancel\<close>: the authority is revoked before the intent is written, and the controller's endpoint
    is cancelled after it is durable\<close>
  "exec_stop env t src reason ex =
     (case request_cancel (sx_uuid4 (xe_service env) (sv_drawn (ex_service ex))) (xt_task t) (xt_epoch t) src reason None
             (ex_cancel ex) of
        Inl e \<Rightarrow> (ex, Inl e)
      | Inr (d, rt) \<Rightarrow>
          (let q = cd_request d;
               sv = (ex_service ex)\<lparr>sv_drawn := Suc (sv_drawn (ex_service ex))\<rparr>;
               ex1 = ex\<lparr>ex_cancel := rt, ex_service := sv\<rparr>
           in case append_awaited env ''task.cancel_requested''
                 [(''request_id'', PStr (cq_id q)), (''source'', PStr (cancel_source_value (cq_source q))),
                  (''reason_code'', PStr (cq_reason q)), (''execution_epoch'', PInt (cq_epoch q))] t ex1 of
                (ex2, Inr _) \<Rightarrow>
                  (ex2, py_bind (case xe_cancel_endpoint env of None \<Rightarrow> Inr () | Some f \<Rightarrow> f (xt_task t) (xt_epoch t))
                          (\<lambda>_. Inr d))
              | (ex2, Inl e) \<Rightarrow> (ex2, Inl e)))"

text \<open>One execution and what can happen around it: the controller runs and writes tool events, any
  thread appends events or submits other tasks, the user stops the task, the writer works.\<close>

datatype exec_op =
    X_Begin
  | X_Returned task_result
  | X_Raised py_exc
  | X_Finish
  | X_Stop string string
  | X_Event string pydict "string option" "string option"
  | X_Admit string string pydict "string option"
  | X_Writer

definition enqueued :: "(nat \<times> service) py \<Rightarrow> executor \<Rightarrow> executor" where
  "enqueued w ex = (case w of Inl _ \<Rightarrow> ex | Inr (_, sv) \<Rightarrow> ex\<lparr>ex_service := sv\<rparr>)"

fun exec_step :: "exec_env \<Rightarrow> exec_task \<Rightarrow> exec_op \<Rightarrow> executor \<Rightarrow> executor option" where
  "exec_step env t X_Begin ex = (if ex_phase ex = Ph_Admitted then exec_begin env t ex else Some ex)"
| "exec_step env t (X_Returned r) ex = Some (if ex_phase ex = Ph_Running then ex\<lparr>ex_phase := Ph_Returned r\<rparr> else ex)"
| "exec_step env t (X_Raised e) ex =
     (if ex_phase ex = Ph_Running then leave env t (close_with_fault env t e ex) else Some ex)"
| "exec_step env t X_Finish ex = (case ex_phase ex of Ph_Returned r \<Rightarrow> exec_finish env t r ex | _ \<Rightarrow> Some ex)"
| "exec_step env t (X_Stop src reason) ex = Some (fst (exec_stop env t src reason ex))"
| "exec_step env t (X_Event kind payload task bytes) ex = Some (enqueued (svc_append kind payload task bytes (ex_service ex)) ex)"
| "exec_step env t (X_Admit request h payload bytes) ex =
     Some (enqueued (submit_task (xe_service env) request h payload bytes (ex_service ex)) ex)"
| "exec_step env t X_Writer ex = Some (ex\<lparr>ex_service := writer_turn (xe_service env) (ex_service ex)\<rparr>)"

fun exec_run :: "exec_env \<Rightarrow> exec_task \<Rightarrow> exec_op list \<Rightarrow> executor \<Rightarrow> executor option" where
  "exec_run env t [] ex = Some ex"
| "exec_run env t (op # ops) ex = (case exec_step env t op ex of None \<Rightarrow> None | Some ex' \<Rightarrow> exec_run env t ops ex')"

section \<open>Recovery after a restart\<close>

definition restart_answer :: string where
  "restart_answer = ''Controller restarted before a durable terminal result; cleanup is unknown.''"

definition recovery_values :: "string \<Rightarrow> pydict" where
  "recovery_values task =
     [(''schema'', PStr RESULT_SCHEMA), (''task_id'', PStr task),
      (''outcome'', PStr (task_outcome_value O_NO_VERDICT)), (''terminal_state'', PStr ''unknown''),
      (''verdict'', PStr (task_verdict_value V_NO_VERDICT)), (''verification_ran'', PBool False),
      (''verified_at_completion'', PBool False), (''evidence_ids'', PList []), (''answer'', PStr restart_answer),
      (''candidate'', PNone), (''check_failure'', PNone)]"

definition recovery_block :: pydict where
  "recovery_block =
     [(''verdict'', PStr ''NO_VERDICT''), (''reason_code'', PStr ''controller_restarted''),
      (''scope'', PStr ''effects and cleanup after controller restart''), (''evidence_ids'', PList []),
      (''tree_sha256'', PNone),
      (''rendered_lines'', PList [PStr ''NO_VERDICT: controller restarted before a durable terminal result.'',
         PStr ''Cleanup unknown; task was not retried.''])]"

definition recovery_verdict :: "string \<Rightarrow> pydict \<Rightarrow> pydict" where
  "recovery_verdict task ref =
     [(''completion'', PDict
        [(''task_id'', PStr task), (''status'', PStr ''unknown''), (''verdict_block'', PDict recovery_block),
         (''worker_artifact_ref'', PNone), (''result_ref'', PDict ref)])]"

definition recovery_closed :: "pydict \<Rightarrow> pydict" where
  "recovery_closed ref = [(''status'', PStr ''unknown''), (''result_ref'', PDict ref), (''cleanup'', PStr ''unknown'')]"

definition recover_one :: "service_env \<Rightarrow> string \<Rightarrow> service \<Rightarrow> service \<times> unit py" where
  "recover_one x task sv =
     (let bytes = json_compact (PDict (recovery_values task));
          ref = result_ref (sx_sha x) (sx_uuid4 x (sv_drawn sv)) bytes;
          sv0 = sv\<lparr>sv_drawn := Suc (sv_drawn sv)\<rparr>
      in case svc_finalize x task (recovery_verdict task ref) (recovery_closed ref) (Some bytes) sv0 of
           Inl e \<Rightarrow> (sv0, Inl e)
         | Inr (i, sv1) \<Rightarrow> awaited x i sv1)"

fun recover_all :: "service_env \<Rightarrow> string list \<Rightarrow> service \<Rightarrow> service \<times> string list py" where
  "recover_all x [] sv = (sv, Inr [])"
| "recover_all x (task # tasks) sv =
     (case recover_one x task sv of
        (sv1, Inl e) \<Rightarrow> (sv1, Inl e)
      | (sv1, Inr _) \<Rightarrow>
          (case recover_all x tasks sv1 of
             (sv2, Inl e) \<Rightarrow> (sv2, Inl e)
           | (sv2, Inr ids) \<Rightarrow> (sv2, Inr (task # ids))))"

definition recover_unknown_tasks :: "service_env \<Rightarrow> service \<Rightarrow> service \<times> string list py" where
  "recover_unknown_tasks x sv =
     recover_all x (map tw_task (unterminated_tasks (sv_store sv) (sv_stream sv))) sv"

end
