(* ===== verification/Executor_Invariants.thy ===== *)
theory Executor_Invariants
  imports Task_Executor
begin

text \<open>
  The invariants of the durable executor.  The locale \<open>writer_invariant\<close> is the interface between
  the executor and the session service: a property of the service that its writer and its queue
  keep holds after every operation of the executor.  It is interpreted on the queue and log
  invariants, on the durable terminal of the task, and on the absence of a completed terminal.
\<close>

section \<open>The writer up to an empty queue\<close>

lemma receipt_error_kept: "(\<And>r. wr_error (f r) = wr_error r) \<Longrightarrow> map wr_error (xs[i := f (xs ! i)]) = map wr_error xs"
  by (metis list_update_id map_update)

lemma publish_next_frame [simp]:
  "sv_store (publish_next sv) = sv_store sv" "sv_commands (publish_next sv) = sv_commands sv"
  "sv_stream (publish_next sv) = sv_stream sv" "length (sv_receipts (publish_next sv)) = length (sv_receipts sv)"
  "map wr_error (sv_receipts (publish_next sv)) = map wr_error (sv_receipts sv)"
  by (auto simp: publish_next_def set_receipt_def receipt_error_kept split: option.splits list.splits)

lemma publish_all_done: "n \<ge> length (unpublished sv) \<Longrightarrow> sv_writing ((publish_next ^^ Suc n) sv) = None"
proof (induction n arbitrary: sv)
  case 0
  then show ?case by (auto simp: unpublished_def publish_next_def set_receipt_def split: option.splits list.splits)
next
  case (Suc n)
  have "length (unpublished (publish_next sv)) \<le> n"
    using Suc.prems by (auto simp: unpublished_def publish_next_def set_receipt_def split: option.splits list.splits)
  from Suc.IH [OF this] show ?case by (simp only: funpow_Suc_right comp_apply)
qed

lemma funpow_publish_frame [simp]:
  "sv_store ((publish_next ^^ n) sv) = sv_store sv" "sv_commands ((publish_next ^^ n) sv) = sv_commands sv"
  "sv_stream ((publish_next ^^ n) sv) = sv_stream sv"
  "length (sv_receipts ((publish_next ^^ n) sv)) = length (sv_receipts sv)"
  "map wr_error (sv_receipts ((publish_next ^^ n) sv)) = map wr_error (sv_receipts sv)"
  by (induction n) simp_all

lemma finish_publishing_frame [simp]:
  "sv_store (finish_publishing sv) = sv_store sv" "sv_commands (finish_publishing sv) = sv_commands sv"
  "sv_stream (finish_publishing sv) = sv_stream sv"
  "length (sv_receipts (finish_publishing sv)) = length (sv_receipts sv)"
  "map wr_error (sv_receipts (finish_publishing sv)) = map wr_error (sv_receipts sv)"
  "sv_writing (finish_publishing sv) = None"
  by (simp_all only: finish_publishing_def funpow_publish_frame publish_all_done order.refl)

definition errors_of :: "service \<Rightarrow> py_exc option list" where
  "errors_of sv = map wr_error (sv_receipts sv)"

definition queue_ok :: "service \<Rightarrow> bool" where
  \<comment> \<open>every queued command has a receipt of its own, without an error so far\<close>
  "queue_ok sv \<longleftrightarrow> distinct (map fst (sv_commands sv))
     \<and> (\<forall>i \<in> fst ` set (sv_commands sv). i < length (sv_receipts sv) \<and> errors_of sv ! i = None)"

lemma turn_cases:
  assumes "sv_writing sv = None" and "sv_commands sv = (i, cmd) # rest"
  obtains (refused) e where "perform_write x sv cmd = Inl e"
      "sv_store (writer_turn x sv) = sv_store sv" "errors_of (writer_turn x sv) = (errors_of sv)[i := Some e]"
      "sv_commands (writer_turn x sv) = rest" "sv_writing (writer_turn x sv) = None"
      "length (sv_receipts (writer_turn x sv)) = length (sv_receipts sv)"
  | (written) s' events created where "perform_write x sv cmd = Inr (s', events, created)"
      "sv_store (writer_turn x sv) = s'" "errors_of (writer_turn x sv) = errors_of sv"
      "sv_commands (writer_turn x sv) = rest" "sv_writing (writer_turn x sv) = None"
      "length (sv_receipts (writer_turn x sv)) = length (sv_receipts sv)"
proof (cases "perform_write x sv cmd")
  case (Inl e)
  with assms show ?thesis
    by (intro refused) (simp_all add: writer_turn_def errors_of_def commit_next_def Let_def set_receipt_def map_update)
next
  case (Inr r)
  obtain s' events created where r: "r = (s', events, created)" by (cases r)
  have "map wr_error ((sv_receipts sv)[i := (sv_receipts sv ! i)\<lparr>wr_created := created\<rparr>]) = map wr_error (sv_receipts sv)"
    by (simp add: receipt_error_kept)
  with assms Inr r show ?thesis
    by (intro written) (simp_all add: writer_turn_def errors_of_def commit_next_def Let_def set_receipt_def)
qed

lemma turn_idle: "sv_writing sv = None \<Longrightarrow> sv_commands sv = [] \<Longrightarrow> commit_next x sv = sv"
  by (simp add: commit_next_def)

definition performed :: "service_env \<Rightarrow> write_command \<Rightarrow> service \<Rightarrow> bool" where
  \<comment> \<open>the write was carried out at some point before\<close>
  "performed x cmd sv \<longleftrightarrow>
     (\<exists>sv0 s' events created. store_ok (sx_valid x) (sx_sha x) (sv_store sv0)
        \<and> perform_write x sv0 cmd = Inr (s', events, created) \<and> store_grows s' (sv_store sv))"

definition service_ok :: "service_env \<Rightarrow> service \<Rightarrow> bool" where
  "service_ok x sv \<longleftrightarrow> writer_ok x sv \<and> queue_ok sv"

lemma errors_publishing [simp]: "errors_of (finish_publishing sv) = errors_of sv"
  by (simp add: errors_of_def)

lemma finish_publishing_ok: "writer_ok x sv \<Longrightarrow> writer_ok x (finish_publishing sv)"
proof -
  have "writer_ok x ((publish_next ^^ n) sv)" if "writer_ok x sv" for n
    using that by (induction n) (auto dest: publish_next_log)
  then show "writer_ok x sv \<Longrightarrow> writer_ok x (finish_publishing sv)" by (simp only: finish_publishing_def)
qed

lemma turn_ok: "service_ok x sv \<Longrightarrow> sv_writing sv = None \<Longrightarrow> service_ok x (writer_turn x sv)"
proof -
  assume ok: "service_ok x sv" and none: "sv_writing sv = None"
  then have w: "writer_ok x (writer_turn x sv)"
    using commit_next_log finish_publishing_ok by (simp add: service_ok_def writer_turn_def)
  show ?thesis
  proof (cases "sv_commands sv")
    case Nil
    with ok none w show ?thesis by (simp add: service_ok_def writer_turn_def turn_idle queue_ok_def)
  next
    case (Cons c rest)
    obtain i cmd where c: "c = (i, cmd)" by (cases c)
    from none Cons [unfolded c] have "queue_ok (writer_turn x sv)"
    proof (cases rule: turn_cases [where x = x])
      case (refused e)
      from ok Cons c have "queue_ok sv" "i \<notin> fst ` set rest" by (auto simp: service_ok_def queue_ok_def)
      then have "errors_of (writer_turn x sv) ! j = None" if "j \<in> fst ` set rest" for j
        using that Cons c refused(3) by (cases "i = j") (auto simp: queue_ok_def)
      with \<open>queue_ok sv\<close> Cons c refused show ?thesis by (simp add: queue_ok_def)
    next
      case (written s' events created)
      with ok Cons c show ?thesis by (auto simp: service_ok_def queue_ok_def)
    qed
    with w show ?thesis by (simp add: service_ok_def)
  qed
qed

lemma turn_grows: "writer_ok x sv \<Longrightarrow> store_grows (sv_store sv) (sv_store (writer_turn x sv))"
proof -
  assume ok: "writer_ok x sv"
  show ?thesis
  proof (cases "sv_writing sv")
    case None
    show ?thesis
    proof (cases "sv_commands sv")
      case Nil
      with None show ?thesis by (simp add: writer_turn_def turn_idle)
    next
      case (Cons c rest)
      obtain i cmd where c: "c = (i, cmd)" by (cases c)
      from None Cons [unfolded c] show ?thesis
      proof (cases rule: turn_cases [where x = x])
        case (written s' events created)
        with perform_write_log [OF written(1)] ok show ?thesis
          by (auto simp: writer_ok_def intro: store_step_grows)
      qed simp
    qed
  qed (simp add: writer_turn_def commit_next_def)
qed

lemma turns_settle:
  assumes "service_ok x sv" "sv_writing sv = None" "length (sv_commands sv) = n"
  shows "sv_commands ((writer_turn x ^^ n) sv) = [] \<and> service_ok x ((writer_turn x ^^ n) sv)
    \<and> store_grows (sv_store sv) (sv_store ((writer_turn x ^^ n) sv))
    \<and> length (sv_receipts ((writer_turn x ^^ n) sv)) = length (sv_receipts sv)
    \<and> (\<forall>i. i \<notin> fst ` set (sv_commands sv) \<longrightarrow> errors_of ((writer_turn x ^^ n) sv) ! i = errors_of sv ! i)
    \<and> (\<forall>(i, cmd) \<in> set (sv_commands sv). errors_of ((writer_turn x ^^ n) sv) ! i = None \<longrightarrow>
         performed x cmd ((writer_turn x ^^ n) sv))"
  using assms
proof (induction n arbitrary: sv)
  case 0
  then show ?case by simp
next
  case (Suc n)
  then obtain i cmd rest where c: "sv_commands sv = (i, cmd) # rest" by (cases "sv_commands sv") auto
  let ?sv1 = "writer_turn x sv"
  let ?svn = "(writer_turn x ^^ n) ?sv1"
  have ok1: "service_ok x ?sv1" by (rule turn_ok [OF Suc.prems(1,2)])
  have facts: "sv_commands ?sv1 = rest" "sv_writing ?sv1 = None" "length (sv_receipts ?sv1) = length (sv_receipts sv)"
    using Suc.prems(2) c by (cases rule: turn_cases [where x = x], simp_all)+
  have grows1: "store_grows (sv_store sv) (sv_store ?sv1)"
    using turn_grows Suc.prems(1) by (simp add: service_ok_def)
  note IH = Suc.IH [OF ok1 facts(2)]
  have len: "length (sv_commands ?sv1) = n" using Suc.prems(3) c facts by simp
  have fresh: "i \<notin> fst ` set rest" and idx: "i < length (errors_of sv)"
    using Suc.prems(1) c by (auto simp: service_ok_def queue_ok_def errors_of_def)
  have others: "errors_of ?sv1 ! j = errors_of sv ! j" if "j \<noteq> i" for j
    using Suc.prems(2) c by (cases rule: turn_cases [where x = x]) (use that in simp_all)
  have own: "errors_of ?svn ! i = None \<longrightarrow> performed x cmd ?svn"
    using Suc.prems(2) c
  proof (cases rule: turn_cases [where x = x])
    case (refused e)
    with IH [OF len] fresh facts idx show ?thesis by auto
  next
    case (written s' events created)
    have "store_ok (sx_valid x) (sx_sha x) (sv_store sv)" using Suc.prems(1) by (simp add: service_ok_def writer_ok_def)
    with written IH [OF len] show ?thesis unfolding performed_def by blast
  qed
  show ?case
    unfolding funpow_Suc_right comp_apply c
    using IH [OF len] own others facts grows1 by (auto intro: store_grows_trans)
qed

lemma publishing_ok: "service_ok x sv \<Longrightarrow> service_ok x (finish_publishing sv)"
  by (simp add: service_ok_def finish_publishing_ok queue_ok_def)

lemma writer_runs_ok:
  assumes "service_ok x sv"
  shows "service_ok x (writer_runs x sv)" and "store_grows (sv_store sv) (sv_store (writer_runs x sv))"
    and "(i, cmd) \<in> set (sv_commands sv) \<Longrightarrow> errors_of (writer_runs x sv) ! i = None \<Longrightarrow> performed x cmd (writer_runs x sv)"
    and "length (sv_receipts (writer_runs x sv)) = length (sv_receipts sv)"
  using turns_settle [OF publishing_ok [OF assms] finish_publishing_frame(6) refl]
  by (simp_all only: writer_runs_def Let_def finish_publishing_frame, blast)

lemma enqueue_write_ok:
  assumes "enqueue_write cmd task sv = Inr (i, sv')" and "service_ok x sv"
  shows "service_ok x sv'" and "(i, cmd) \<in> set (sv_commands sv')" and "sv_store sv' = sv_store sv"
    and "i < length (sv_receipts sv')"
proof -
  from assms(1) have sv': "i = length (sv_receipts sv)" "sv' = sv\<lparr>sv_commands := sv_commands sv @ [(i, cmd)],
      sv_receipts := sv_receipts sv @ [\<lparr>wr_task = task, wr_committed = False, wr_error = None, wr_created = None\<rparr>]\<rparr>"
    by (auto simp: enqueue_write_def)
  show "(i, cmd) \<in> set (sv_commands sv')" "sv_store sv' = sv_store sv" "i < length (sv_receipts sv')" using sv' by simp_all
  have "queue_ok sv'"
    using assms(2) sv' by (auto simp: service_ok_def queue_ok_def errors_of_def nth_append)
  with same_log_writer [of sv sv' x] enqueue_frame [OF assms(1)] assms(2) show "service_ok x sv'" by (simp add: service_ok_def)
qed

lemma awaited_performed:
  assumes "service_ok x sv" "(i, cmd) \<in> set (sv_commands sv)" "awaited x i sv = (sv', Inr u)"
  shows "performed x cmd sv'"
proof -
  have "i < length (sv_receipts sv)" using assms(1,2) by (force simp: service_ok_def queue_ok_def)
  then have "errors_of (writer_runs x sv) ! i = None"
    using assms writer_runs_ok(4) [OF assms(1)] by (auto simp: awaited_def Let_def errors_of_def split: option.splits)
  with writer_runs_ok(3) [OF assms(1,2)] assms(3) show ?thesis by (simp add: awaited_def Let_def)
qed

section \<open>Invariants of the service under the executor\<close>

definition body_holds :: "(executor \<Rightarrow> bool) \<Rightarrow> body \<Rightarrow> bool" where
  "body_holds Q b \<longleftrightarrow> (\<forall>ex res. b = Some (ex, res) \<longrightarrow> Q ex)"

lemma body_holds_simps [simp]: "body_holds Q None" "body_holds Q (Some p) = Q (fst p)"
  by (auto simp: body_holds_def) (metis prod.collapse)

lemma body_holdsD: "body_holds Q b \<Longrightarrow> b = Some (ex, res) \<Longrightarrow> Q ex"
  by (auto simp: body_holds_def)

lemma body_thenI: "body_holds Q b \<Longrightarrow> (\<And>ex. Q ex \<Longrightarrow> body_holds Q (f ex)) \<Longrightarrow> body_holds Q (body_then b f)"
  by (auto simp: body_then_def split: option.splits sum.splits prod.splits)

locale writer_invariant =
  fixes env :: exec_env and t :: exec_task and inv :: "service \<Rightarrow> bool"
    and allowed :: "write_command \<Rightarrow> bool" and fits :: "task_result \<Rightarrow> bool"
  assumes commit: "inv sv \<Longrightarrow> inv (commit_next (xe_service env) sv)"
    and publish: "inv sv \<Longrightarrow> inv (publish_next sv)"
    and enqueue: "inv sv \<Longrightarrow> allowed cmd \<Longrightarrow> enqueue_write cmd k sv = Inr (i, sv') \<Longrightarrow> inv sv'"
    and draw: "inv sv \<Longrightarrow> inv (sv\<lparr>sv_drawn := n\<rparr>)"
    and admissions: "allowed (Write_Admit request h task1 payload bytes)"
    and appends: "kind \<notin> set terminal_event_kinds \<Longrightarrow> allowed (Write_Append kind payload k' bytes)"
    and terminals: "fits r \<Longrightarrow> with_reconciled_cleanup r cleanup = Inr r' \<Longrightarrow>
      allowed (Write_Finalize (xt_task t) vp (closed_payload r' ref cleanup) bytes)"
    and no_verdicts: "rs_outcome r = O_NO_VERDICT \<Longrightarrow> fits r"
begin

lemma finish: "inv sv \<Longrightarrow> inv (finish_publishing sv)"
proof -
  have "inv ((publish_next ^^ n) sv)" if "inv sv" for n
    using that by (induction n) (auto intro: publish)
  then show "inv sv \<Longrightarrow> inv (finish_publishing sv)" by (simp only: finish_publishing_def)
qed

lemma turn: "inv sv \<Longrightarrow> inv (writer_turn (xe_service env) sv)"
  by (simp add: writer_turn_def commit finish)

lemma runs: "inv sv \<Longrightarrow> inv (writer_runs (xe_service env) sv)"
proof -
  have "inv ((writer_turn (xe_service env) ^^ n) sv)" if "inv sv" for n sv
    using that by (induction n) (auto intro: turn)
  then show "inv sv \<Longrightarrow> inv (writer_runs (xe_service env) sv)" by (simp only: writer_runs_def Let_def finish)
qed

lemma waits: "inv sv \<Longrightarrow> inv (fst (awaited (xe_service env) i sv))"
  by (auto simp: awaited_def Let_def intro: runs)

lemma submits: "inv sv \<Longrightarrow> submit_task x request h payload bytes sv = Inr (i, sv') \<Longrightarrow> inv sv'"
  by (auto simp: submit_task_def Let_def intro: enqueue admissions)

lemma adds: "inv sv \<Longrightarrow> svc_append kind payload k bytes sv = Inr (i, sv') \<Longrightarrow> inv sv'"
  by (auto simp: svc_append_def intro: enqueue appends)

lemma closes: "inv sv \<Longrightarrow> allowed (Write_Finalize k vp cp bytes) \<Longrightarrow> svc_finalize x k vp cp bytes sv = Inr (i, sv') \<Longrightarrow> inv sv'"
  by (auto simp: svc_finalize_def py_bind_Inr_iff intro: enqueue)

end

definition kept ::
  "(service \<Rightarrow> bool) \<Rightarrow> (task_result \<Rightarrow> store \<Rightarrow> bool) \<Rightarrow> (cancel_runtime \<Rightarrow> bool) \<Rightarrow> executor \<Rightarrow> bool" where
  \<comment> \<open>the properties of the service and of the registry, and what the store says of the result that was handed out\<close>
  "kept P rec C ex \<longleftrightarrow> P (ex_service ex) \<and> C (ex_cancel ex) \<and> (\<forall>r. ex_result ex = Some r \<longrightarrow> rec r (sv_store (ex_service ex)))"

lemma kept_fields [simp]:
  "kept P rec C (ex\<lparr>ex_registered := ks\<rparr>) = kept P rec C ex"
  "kept P rec C (ex\<lparr>ex_phase := p\<rparr>) = kept P rec C ex" "kept P rec C (ex\<lparr>ex_error := e\<rparr>) = kept P rec C ex"
  "kept P rec C (ended ex) = kept P rec C ex"
  by (simp_all add: kept_def ended_def)

lemma kept_service: "kept P rec C ex \<Longrightarrow> P (ex_service ex)"
  by (simp add: kept_def)

lemma kept_cancel: "kept P rec C ex \<Longrightarrow> C rt \<Longrightarrow> kept P rec C (ex\<lparr>ex_cancel := rt\<rparr>)"
  by (simp add: kept_def)

lemma kept_registry: "kept P rec C ex \<Longrightarrow> C (ex_cancel ex)"
  by (simp add: kept_def)

lemma finalize_bundle_Inr:
  "finalize_bundle env r cleanup fresh = Inr (r', ref, bytes, block) \<longleftrightarrow>
     with_reconciled_cleanup r cleanup = Inr r' \<and>
     result_artifact (xe_ellipsis env) (sx_sha (xe_service env)) fresh r' = Inr (ref, bytes) \<and>
     verdict_block_from_task_result r' UNBOUND_RESULT_SCOPE = Inr block"
  by (auto simp: finalize_bundle_def py_bind_Inr_iff)

lemma finalize_with_cases:
  assumes "finalize_with env task r cleanup ids worker sv = (sv', res)"
  obtains (refused) e where "sv' = sv" "res = Inl e"
  | (rejected) n where "sv' = sv\<lparr>sv_drawn := n\<rparr>" "res = Inl DurableWriteFailed"
  | (written) r' ref bytes block i sv1 n out where
      "finalize_bundle env r cleanup (sx_uuid4 (xe_service env) (sv_drawn sv)) = Inr (r', ref, bytes, block)"
      "svc_finalize (xe_service env) task (verdict_payload task r' block ref worker) (closed_payload r' ref cleanup)
         (Some bytes) (sv\<lparr>sv_drawn := n\<rparr>) = Inr (i, sv1)"
      "awaited (xe_service env) i sv1 = (sv', out)" "res = Inr () \<Longrightarrow> out = Inr ()"
proof (cases "pj_state (result_projection r) = T_COMPLETED \<and> ids \<noteq> []")
  case False
  note F = assms [unfolded finalize_with_def if_not_P [OF False]]
  show ?thesis
  proof (cases "finalize_bundle env r cleanup (sx_uuid4 (xe_service env) (sv_drawn sv))")
    case (Inr b)
    obtain r' ref bytes block where b: "b = (r', ref, bytes, block)" by (cases b)
    let ?sv = "sv\<lparr>sv_drawn := Suc (sv_drawn sv)\<rparr>"
    let ?fin = "svc_finalize (xe_service env) task (verdict_payload task r' block ref worker) (closed_payload r' ref cleanup)
      (Some bytes) ?sv"
    show ?thesis
    proof (cases ?fin)
      case (Inl e)
      with F have "sv' = ?sv" "res = Inl DurableWriteFailed" by (simp_all add: Inr b commit_bundle_def)
      then show ?thesis by (rule rejected)
    next
      case fin: (Inr p)
      obtain i sv1 where p: "p = (i, sv1)" by (cases p)
      obtain sv2 out where w: "awaited (xe_service env) i sv1 = (sv2, out)" by fastforce
      from F have "sv' = sv2" and out: "res = Inr () \<Longrightarrow> out = Inr ()"
        by (cases out; simp add: Inr b commit_bundle_def fin p w)+
      with w have "awaited (xe_service env) i sv1 = (sv', out)" by simp
      from written [OF Inr [unfolded b] fin [unfolded p] this out] show ?thesis .
    qed
  qed (use F in \<open>auto intro: refused\<close>)
qed (use assms in \<open>auto simp: finalize_with_def intro: refused\<close>)

lemma no_verdict_fields:
  "no_verdict_result task answer vran reason = Inr r \<Longrightarrow>
     rs_outcome r = O_NO_VERDICT \<and> rs_task_id r = task \<and> result_ok r \<and> rs_verified r = False"
  using mk_task_result_ok [of task "PStr (task_outcome_value O_NO_VERDICT)" answer False "[]" "[]" vran "Some reason" r]
  by (cases "rs_outcome r") (simp_all add: no_verdict_result_def)

text \<open>Every operation of the service extends its store.\<close>

lemma writer_runs_grows: "service_ok x sv \<Longrightarrow> awaited x i sv = (sv', res) \<Longrightarrow> store_grows (sv_store sv) (sv_store sv')"
  by (auto simp: awaited_def Let_def writer_runs_ok)

lemma svc_append_ok:
  assumes "svc_append kind payload k bytes sv = Inr (i, sv')" "service_ok x sv"
  shows "service_ok x sv' \<and> sv_store sv' = sv_store sv"
  using assms(1) enqueue_write_ok [OF _ assms(2)] by (auto simp: svc_append_def)

lemma submit_ok:
  assumes "submit_task y request h payload bytes sv = Inr (i, sv')" "service_ok x sv"
  shows "service_ok x sv' \<and> sv_store sv' = sv_store sv"
  using assms(1) enqueue_write_ok [OF _ assms(2)] by (auto simp: submit_task_def Let_def)

lemma draw_ok: "service_ok x sv \<Longrightarrow> service_ok x (sv\<lparr>sv_drawn := n\<rparr>)"
  using same_log_writer [of sv "sv\<lparr>sv_drawn := n\<rparr>" x] by (simp add: service_ok_def same_log_def queue_ok_def errors_of_def del: nth_map)

lemma svc_finalize_ok:
  assumes "svc_finalize y task vp cp bytes sv = Inr (i, sv')" "service_ok x sv"
  shows "service_ok x sv'" "sv_store sv' = sv_store sv" "(i, Write_Finalize task vp cp bytes) \<in> set (sv_commands sv')"
  using assms(1) enqueue_write_ok [OF _ assms(2)] by (auto simp: svc_finalize_def py_bind_Inr_iff)

lemma finalize_with_grows:
  assumes "service_ok (xe_service env) sv" "finalize_with env task r cleanup ids worker sv = (sv', res)"
  shows "store_grows (sv_store sv) (sv_store sv')"
  using assms(2)
proof (cases rule: finalize_with_cases)
  case (written r' ref bytes block i sv1 n out)
  from svc_finalize_ok [OF written(2) draw_ok [OF assms(1)]] writer_runs_grows [OF _ written(3)] show ?thesis by simp
qed simp_all

locale result_invariant = writer_invariant +
  fixes rec :: "task_result \<Rightarrow> store \<Rightarrow> bool" and ca :: "cancel_runtime \<Rightarrow> bool"
  assumes sound: "inv sv \<Longrightarrow> service_ok (xe_service env) sv"
    and lasts: "rec r s \<Longrightarrow> store_grows s s' \<Longrightarrow> rec r s'"
    and settles: "inv sv \<Longrightarrow> fits r \<Longrightarrow> finalize_with env (xt_task t) r cleanup ids worker sv = (sv', Inr ()) \<Longrightarrow>
      rec r (sv_store sv')"
    and sites: "ca rt \<Longrightarrow> set_site (xt_task t) (xt_epoch t) site rt = Inr rt' \<Longrightarrow> ca rt'"
    and drops: "ca rt \<Longrightarrow> unregister_task (xt_task t) n rt = Inr rt' \<Longrightarrow> ca rt'"
    and stops: "ca rt \<Longrightarrow> request_cancel fresh (xt_task t) (xt_epoch t) src reason None rt = Inr (d, rt') \<Longrightarrow> ca rt'"

context writer_invariant
begin

lemma with_kept:
  assumes "inv sv" and "fits r" and "finalize_with env (xt_task t) r cleanup ids worker sv = (sv', res)"
  shows "inv sv'"
  using assms(3)
proof (cases rule: finalize_with_cases)
  case (written r' ref bytes block i sv1 n out)
  have "allowed (Write_Finalize (xt_task t) (verdict_payload (xt_task t) r' block ref worker) (closed_payload r' ref cleanup)
      (Some bytes))"
    using written(1) by (auto simp: finalize_bundle_Inr intro: terminals [OF assms(2)])
  from waits [OF closes [OF draw [OF assms(1)] this written(2)], of i] written(3) show ?thesis by simp
qed (use assms(1) in \<open>auto intro: draw\<close>)

end

context result_invariant
begin

lemma moved:
  assumes "kept inv rec ca ex" "inv sv" "store_grows (sv_store (ex_service ex)) (sv_store sv)"
  shows "kept inv rec ca (ex\<lparr>ex_service := sv\<rparr>)"
  using assms lasts by (auto simp: kept_def)

lemma result_kept:
  assumes "kept inv rec ca ex" "fits r" "finalize_result env t r worker ex = Some (ex', res)"
  shows "kept inv rec ca ex'" and "res = Inr u \<Longrightarrow> kept inv rec ca (ex'\<lparr>ex_result := Some r\<rparr>)"
proof -
  note I = kept_service [OF assms(1)]
  from assms(3) consider (err) e where "ex' = ex" "res = Inl e"
    | (fin) cleanup ids sv where "finalize_with env (xt_task t) r cleanup ids worker (ex_service ex) = (sv, res)"
        "ex' = ex\<lparr>ex_service := sv\<rparr>"
    by (fastforce simp: finalize_result_def split: option.splits sum.splits prod.splits)
  then have "kept inv rec ca ex' \<and> (res = Inr () \<longrightarrow> kept inv rec ca (ex'\<lparr>ex_result := Some r\<rparr>))"
  proof cases
    case (fin cleanup ids sv)
    have "kept inv rec ca ex'"
      unfolding fin(2) by (rule moved [OF assms(1) with_kept [OF I assms(2) fin(1)] finalize_with_grows [OF sound [OF I] fin(1)]])
    then show ?thesis using fin settles [OF I assms(2)] by (auto simp: kept_def)
  qed (use assms(1) in simp)
  then show "kept inv rec ca ex'" and "res = Inr u \<Longrightarrow> kept inv rec ca (ex'\<lparr>ex_result := Some r\<rparr>)" by simp_all
qed

lemma fault_kept:
  assumes "kept inv rec ca ex"
  shows "body_holds (kept inv rec ca) (finalize_fault env t e ex)"
proof (cases "no_verdict_result (xt_task t) (''Controller fault. Retained traceback:'' @ nl @ xe_trace env e) None ''controller_fault''")
  case (Inr r)
  have "fits r" using no_verdict_fields [OF Inr] by (simp add: no_verdicts)
  from result_kept(1) [OF assms this] Inr show ?thesis by (auto simp: finalize_fault_def body_holds_def)
qed (simp add: finalize_fault_def assms)

lemma stopped_kept:
  assumes "kept inv rec ca ex"
  shows "body_holds (kept inv rec ca) (finalize_stopped env t ex)"
proof -
  have *: "body_holds (kept inv rec ca) (body_then (finalize_result env t r True ex) (\<lambda>ex1.
      Some (ex1\<lparr>ex_result := Some r, ex_error := Some CancelUnreconciled\<rparr>, Inr ())))"
    if "no_verdict_result k answer vran reason = Inr r" for k answer vran reason r
    using result_kept [OF assms no_verdicts, of r True] no_verdict_fields [OF that]
    by (auto simp: body_then_def split: option.split sum.split)
  show ?thesis
    unfolding finalize_stopped_def Let_def
    using assms * by (auto split: option.split sum.split)
qed

lemma release_kept:
  assumes "kept inv rec ca ex"
  shows "kept inv rec ca (fst (release_registration (xt_task t) n ex))"
proof (cases "unregister_task (xt_task t) n (ex_cancel ex)")
  case (Inr rt)
  from kept_cancel [OF assms drops [OF kept_registry [OF assms] Inr]] Inr assms show ?thesis by (simp add: release_registration_def)
qed (simp add: release_registration_def assms)

lemma release_owned_kept: "kept inv rec ca ex \<Longrightarrow> body_holds (kept inv rec ca) (release_owned t ex)"
  by (simp add: release_owned_def release_kept)

lemma release_current_kept: "kept inv rec ca ex \<Longrightarrow> kept inv rec ca (release_current t ex)"
  by (auto simp: release_current_def release_kept split: sum.splits)

lemma error_kept:
  assumes "kept inv rec ca ex" "after_error env t e ex = Some ex'"
  shows "kept inv rec ca ex'"
  using assms(2) body_holdsD [OF stopped_kept [OF assms(1)]] assms(1)
  by (auto simp: release_kept release_current_kept after_error_def Let_def split: if_splits option.splits)

lemma leave_kept: "body_holds (kept inv rec ca) b \<Longrightarrow> leave env t b = Some ex' \<Longrightarrow> kept inv rec ca ex'"
  using error_kept by (auto simp: leave_def split: option.splits sum.splits)

lemma append_kept:
  assumes "kept inv rec ca ex"
  shows "kept inv rec ca (fst (append_awaited env kind payload t' ex))"
proof (cases "svc_append kind payload (Some (xt_task t')) None (ex_service ex)")
  case (Inr p)
  obtain i sv where p: "p = (i, sv)" by (cases p)
  obtain sv' res where w: "awaited (xe_service env) i sv = (sv', res)" by fastforce
  note I = kept_service [OF assms]
  from waits [OF adds [OF I Inr [unfolded p]], of i] svc_append_ok [OF Inr [unfolded p] sound [OF I]] writer_runs_grows [OF _ w]
  have "kept inv rec ca (ex\<lparr>ex_service := sv'\<rparr>)" by (intro moved [OF assms]) (simp_all add: w)
  then show ?thesis by (simp add: append_awaited_def Inr p w)
qed (simp add: append_awaited_def assms)

lemma lift_kept: "kept inv rec ca ex \<Longrightarrow> body_holds (kept inv rec ca) (lift_cancel (set_site (xt_task t) (xt_epoch t) site) ex)"
  by (auto simp: lift_cancel_def split: sum.splits intro: kept_cancel sites kept_registry)

lemma authority_kept: "kept inv rec ca ex \<Longrightarrow> body_holds (kept inv rec ca) (require_authority t' ex)"
  by (simp add: require_authority_def)

lemma fault_close_kept: "kept inv rec ca ex \<Longrightarrow> body_holds (kept inv rec ca) (close_with_fault env t e ex)"
  unfolding close_with_fault_def by (rule body_thenI [OF fault_kept]) (simp_all add: release_owned_kept)

lemma start_kept: "kept inv rec ca ex \<Longrightarrow> body_holds (kept inv rec ca) (start_running env t ex)"
  unfolding start_running_def by (intro body_thenI authority_kept lift_kept) (simp_all add: append_kept)

lemma finish_kept:
  assumes "kept inv rec ca ex" "fits r"
  shows "body_holds (kept inv rec ca) (finish_result env t r ex)"
  unfolding finish_result_def
  using result_kept [OF assms]
  by (auto split: option.split sum.split intro!: fault_close_kept release_owned_kept)

lemma stop_kept:
  assumes "kept inv rec ca ex"
  shows "kept inv rec ca (fst (exec_stop env t src reason ex))"
proof (cases "request_cancel (sx_uuid4 (xe_service env) (sv_drawn (ex_service ex))) (xt_task t) (xt_epoch t) src reason None
             (ex_cancel ex)")
  case (Inr p)
  obtain d rt where p: "p = (d, rt)" by (cases p)
  have "kept inv rec ca (ex\<lparr>ex_cancel := rt, ex_service := (ex_service ex)\<lparr>sv_drawn := n\<rparr>\<rparr>)" for n
    using assms stops [OF kept_registry [OF assms] Inr [unfolded p]] by (auto simp: kept_def intro: draw)
  from append_kept [OF this] show ?thesis
    unfolding exec_stop_def Let_def Inr p by (auto split: sum.split prod.split) (metis fst_conv)+
qed (simp add: exec_stop_def assms)

lemma begin_kept:
  assumes "kept inv rec ca ex" "exec_begin env t ex = Some ex'"
  shows "kept inv rec ca ex'"
proof -
  obtain sv res where w: "awaited (xe_service env) (xt_receipt t) (ex_service ex) = (sv, res)" by fastforce
  note I = kept_service [OF assms(1)]
  from waits [OF I, of "xt_receipt t"] w writer_runs_grows [OF sound [OF I] w]
  have h: "kept inv rec ca (ex\<lparr>ex_service := sv\<rparr>)" by (intro moved [OF assms(1)]) simp_all
  have "body_holds (kept inv rec ca) (Some (ex\<lparr>ex_service := sv\<rparr>, Inl e))" for e using h by simp
  from leave_kept [OF this] leave_kept [OF release_owned_kept [OF h]] body_holdsD [OF start_kept [OF h]] error_kept assms(2)
  show ?thesis
    unfolding exec_begin_def w prod.case Let_def by (auto split: sum.splits if_splits option.splits)
qed

lemma step_kept:
  assumes h: "kept inv rec ca ex"
    and fit: "\<And>r. ex_phase ex = Ph_Returned r \<Longrightarrow> op = X_Finish \<Longrightarrow> exec_finish env t r ex = Some ex' \<Longrightarrow> kept inv rec ca ex'"
    and step: "exec_step env t op ex = Some ex'"
  shows "kept inv rec ca ex'"
proof (cases op)
  case X_Begin
  with step h begin_kept [OF h] show ?thesis by (auto split: if_splits)
next
  case (X_Raised e)
  with step h leave_kept [OF fault_close_kept [OF h]] show ?thesis by (auto split: if_splits)
next
  case X_Finish
  with step fit h show ?thesis by (auto split: exec_phase.splits)
next
  case (X_Stop src reason)
  with step stop_kept [OF h] show ?thesis by auto
next
  case (X_Event kind payload k bytes)
  note I = kept_service [OF h]
  from step h X_Event show ?thesis
    by (auto simp: enqueued_def svc_append_ok [OF _ sound [OF I]] split: sum.splits intro!: moved [OF h] adds [OF I])
next
  case (X_Admit request hash payload bytes)
  note I = kept_service [OF h]
  from step h X_Admit show ?thesis
    by (auto simp: enqueued_def submit_ok [OF _ sound [OF I]] split: sum.splits intro!: moved [OF h] submits [OF I])
next
  case X_Writer
  with step h turn turn_grows sound kept_service show ?thesis
    by (auto simp: service_ok_def intro!: moved) blast+
qed (use step h in \<open>auto split: if_splits\<close>)

lemma finish_without_authority:
  assumes "kept inv rec ca ex" "dispatch_authority (xt_task t) (xt_epoch t) (ex_cancel ex) = Inl e"
    "exec_finish env t r ex = Some ex'"
  shows "kept inv rec ca ex'"
proof -
  have "body_holds (kept inv rec ca) (body_then (require_authority t ex) f)" for f
    using assms(1,2) by (simp add: require_authority_def body_then_def)
  from leave_kept [OF this] assms(3) show ?thesis by (simp add: exec_finish_def)
qed

lemma exec_finish_kept:
  assumes "kept inv rec ca ex" "fits r" "exec_finish env t r ex = Some ex'"
  shows "kept inv rec ca ex'"
proof -
  have "body_holds (kept inv rec ca) (body_then (require_authority t ex) (\<lambda>ex0.
       body_then (lift_cancel (set_site (xt_task t) (xt_epoch t) ''finalising'') ex0) (\<lambda>ex1.
       body_then (require_authority t ex1) (finish_result env t r))))"
    using assms(1) by (intro body_thenI authority_kept lift_kept finish_kept [OF _ assms(2)])
  from leave_kept [OF this] assms(3) show ?thesis by (simp add: exec_finish_def)
qed

end

section \<open>What a write leaves in the store\<close>

lemma check_bundle_status:
  "check_bundle v c n = Inr (task, ref, status) \<Longrightarrow> py_item (PDict (ev_payload c)) ''status'' = Inr status"
  by (auto simp: check_bundle_def py_bind_Inr_iff)

definition closed_as :: "string \<Rightarrow> string \<Rightarrow> store \<Rightarrow> bool" where
  \<comment> \<open>the task is durably terminal in this state\<close>
  "closed_as task state s \<longleftrightarrow> (\<exists>row \<in> set (so_tasks s). tw_task row = task \<and> tw_terminal row \<and> tw_state row = state)"

lemma closed_as_grows: "closed_as task state s \<Longrightarrow> store_grows s s' \<Longrightarrow> closed_as task state s'"
  unfolding closed_as_def store_grows_def tasks_grow_def same_task_def by metis

lemma closed_status: "py_item (PDict (closed_payload r ref cleanup)) ''status'' =
    Inr (PStr (terminal_state_value (pj_state (result_projection r))))"
  by (simp add: closed_payload_def py_item_def)

lemma write_closes:
  assumes "performed x (Write_Finalize task vp cp bytes) sv" and "py_item (PDict cp) ''status'' = Inr (PStr state)"
  shows "closed_as task state (sv_store sv)"
proof -
  from assms(1) obtain sv0 s' events created where
    "perform_write x sv0 (Write_Finalize task vp cp bytes) = Inr (s', events, created)"
    and grows: "store_grows s' (sv_store sv)" by (auto simp: performed_def)
  then obtain v c where v: "ev_task v = Some task" and c: "ev_payload c = cp"
    and f: "finalize_task (sx_valid x) (sx_sha x) v c (next_sequence (sv_store sv0) (sv_stream sv0)) bytes (sv_store sv0) = Inr s'"
    by (auto simp: perform_write_def Let_def py_bind_Inr_iff dest!: service_event_Inr)
  from f have "closed_as task state s'"
  proof (cases rule: finalize_cases)
    case (1 k kref status row s1)
    from check_bundle_Inr [OF 1(3)] v have k: "k = task" by simp
    from check_bundle_status [OF 1(3)] c assms(2) have "py_str status = state" by auto
    moreover have "row \<in> set (so_tasks s1)" "tw_task row = k"
      using task_row_of_Some [OF 1(4)] insert_artifact_frame [OF 1(8)] by auto
    ultimately show ?thesis
      unfolding closed_as_def 1(11) set_task_rows_quantified k [symmetric] by force
  qed
  with grows show ?thesis by (rule closed_as_grows [rotated])
qed

lemma performed_closes:
  "performed x (Write_Finalize task vp (closed_payload r ref cleanup) bytes) sv \<Longrightarrow>
     closed_as task (terminal_state_value (pj_state (result_projection r))) (sv_store sv)"
  by (rule write_closes [OF _ closed_status])

definition result_state :: "task_result \<Rightarrow> string" where
  "result_state r = terminal_state_value (pj_state (result_projection r))"

definition recorded :: "string \<Rightarrow> task_result \<Rightarrow> store \<Rightarrow> bool" where
  \<comment> \<open>the terminal of a result; a completed one may have been closed as unknown instead\<close>
  "recorded task r s \<longleftrightarrow>
     closed_as task (result_state r) s \<or> pj_state (result_projection r) = T_COMPLETED \<and> closed_as task ''unknown'' s"

lemma recorded_grows: "recorded task r s \<Longrightarrow> store_grows s s' \<Longrightarrow> recorded task r s'"
  unfolding recorded_def by (blast intro: closed_as_grows)

lemma reconciled_state:
  assumes "with_reconciled_cleanup r cleanup = Inr r'"
  shows "r' = r \<or> pj_state (result_projection r) = T_COMPLETED \<and> rs_outcome r' = O_NO_VERDICT"
proof (cases "pj_state (result_projection r) \<noteq> T_COMPLETED \<or> cleanup \<in> set RECONCILED_CLEANUP")
  case True
  with assms show ?thesis by (simp add: with_reconciled_cleanup_def)
next
  case False
  from mk_task_result_ok [OF assms [unfolded with_reconciled_cleanup_def if_not_P [OF False]]] False show ?thesis
    by (cases "rs_outcome r'") simp_all
qed

lemma finalize_with_records:
  assumes "service_ok (xe_service env) sv" "finalize_with env task r cleanup ids worker sv = (sv', Inr ())"
  shows "recorded task r (sv_store sv')"
  using assms(2)
proof (cases rule: finalize_with_cases)
  case (written r' ref bytes block i sv1 n out)
  from svc_finalize_ok [OF written(2) draw_ok [OF assms(1)]] awaited_performed [OF _ _ written(3) [unfolded written(4) [OF refl]]]
  have "performed (xe_service env) (Write_Finalize task (verdict_payload task r' block ref worker)
      (closed_payload r' ref cleanup) (Some bytes)) sv'" by simp
  from performed_closes [OF this] reconciled_state [of r cleanup r'] written(1) show ?thesis
    by (auto simp: recorded_def result_state_def finalize_bundle_Inr result_projection_def)
qed simp_all

lemma commit_service_ok:
  assumes "service_ok x sv"
  shows "service_ok x (commit_next x sv)"
proof (cases "sv_writing sv")
  case None
  have "errors_of (commit_next x sv) = errors_of (writer_turn x sv)" "sv_commands (commit_next x sv) = sv_commands (writer_turn x sv)"
    "length (sv_receipts (commit_next x sv)) = length (sv_receipts (writer_turn x sv))"
    by (simp_all add: writer_turn_def)
  with turn_ok [OF assms None] commit_next_log assms show ?thesis by (simp add: service_ok_def queue_ok_def)
qed (use assms in \<open>simp add: commit_next_def\<close>)

lemma publish_service_ok: "service_ok x sv \<Longrightarrow> service_ok x (publish_next sv)"
  using publish_next_log by (simp add: service_ok_def queue_ok_def errors_of_def del: nth_map)

interpretation recording: result_invariant env t "service_ok (xe_service env)" "\<lambda>_. True" "\<lambda>_. True" "recorded (xt_task t)"
    "\<lambda>_. True"
  for env t
  by unfold_locales (auto intro: commit_service_ok publish_service_ok enqueue_write_ok(1) draw_ok
      finalize_with_records recorded_grows)

section \<open>No terminal other than unknown\<close>

definition only_unknown :: "string \<Rightarrow> store \<Rightarrow> bool" where
  "only_unknown task s \<longleftrightarrow> (\<forall>row \<in> set (so_tasks s). tw_task row = task \<and> tw_terminal row \<longrightarrow> tw_state row = ''unknown'')"

fun closing_unknown :: "string \<Rightarrow> write_command \<Rightarrow> bool" where
  "closing_unknown task (Write_Finalize k vp cp bytes) =
     (k = task \<longrightarrow> (case py_item (PDict cp) ''status'' of Inl _ \<Rightarrow> True | Inr st \<Rightarrow> py_str st = ''unknown''))"
| "closing_unknown task _ = True"

lemma only_unknown_tasks: "so_tasks s' = so_tasks s \<Longrightarrow> only_unknown task s' = only_unknown task s"
  by (simp add: only_unknown_def)

lemma append_stays_unknown:
  assumes "append_event valid sha e n bytes s = Inr s'" "only_unknown task s" "tasks_ok s"
  shows "only_unknown task s'"
  using assms(1)
proof (cases rule: append_event_cases)
  case (1 s1 s2)
  from 1(4) have "so_tasks s1 = so_tasks s" by (auto dest: insert_artifact_frame)
  with 1(6) have same: "so_tasks s2 = so_tasks s" by simp
  from 1(7) show ?thesis
  proof
    assume "\<exists>row c. task_row_of s (task_text e) = Some row \<and> \<not> tw_terminal row
        \<and> c \<notin> set TERMINAL_TASK_STATES \<and> s' = set_task_rows (task_text e) (\<lambda>t. t\<lparr>tw_state := c\<rparr>) s2"
    then obtain row c where row: "task_row_of s (task_text e) = Some row" "\<not> tw_terminal row"
      and s': "s' = set_task_rows (task_text e) (\<lambda>t. t\<lparr>tw_state := c\<rparr>) s2" by blast
    from update_open_rows [OF assms(3) row] assms(2) same show ?thesis
      unfolding s' by (auto simp: only_unknown_def so_tasks_set)
  qed (use assms(2) same in \<open>simp add: only_unknown_def\<close>)
qed

lemma admit_stays_unknown:
  assumes "admit valid sha request h e n bytes s = Inr ((k, fresh), s')" "only_unknown task s"
  shows "only_unknown task s'"
  using assms(1)
proof (cases rule: admit_cases)
  case (new t ref s2 s3)
  from insert_artifact_frame [OF new(22)] insert_turn_frame [OF new(23)] have "so_tasks s3 = so_tasks s @ [t]"
    by (simp add: add_task_def)
  with new(16,25) assms(2) show ?thesis by (auto simp: only_unknown_def)
qed (use assms(2) in simp)

lemma finalize_stays_unknown:
  assumes "finalize_task valid sha v c n bytes s = Inr s'" "only_unknown task s"
    and "\<And>st. ev_task v = Some task \<Longrightarrow> py_item (PDict (ev_payload c)) ''status'' = Inr st \<Longrightarrow> py_str st = ''unknown''"
  shows "only_unknown task s'"
  using assms(1)
proof (cases rule: finalize_cases)
  case (1 k ref status row s1)
  have "so_tasks s1 = so_tasks s" using insert_artifact_frame [OF 1(8)] by simp
  then have "only_unknown task (add_event c (add_event v s1))" using assms(2) by (simp add: only_unknown_def)
  moreover have "k = task \<Longrightarrow> py_str status = ''unknown''"
    using check_bundle_Inr [OF 1(3)] check_bundle_status [OF 1(3)] assms(3) by auto
  ultimately show ?thesis unfolding 1(11) by (auto simp: only_unknown_def so_tasks_set)
qed

lemma write_stays_unknown:
  assumes "perform_write x sv cmd = Inr (s', events, created)" "closing_unknown task cmd" "only_unknown task (sv_store sv)"
    and "tasks_ok (sv_store sv)"
  shows "only_unknown task s'"
proof (cases cmd)
  case (Write_Admit request h k payload bytes)
  with assms show ?thesis
    by (auto simp: perform_write_def Let_def py_bind_Inr_iff intro: admit_stays_unknown)
next
  case (Write_Append kind payload k bytes)
  with assms show ?thesis
    by (auto simp: perform_write_def Let_def py_bind_Inr_iff intro: append_stays_unknown)
next
  case (Write_Finalize k vp cp bytes)
  with assms(1) obtain v c where v: "ev_task v = Some k" "ev_payload c = cp"
    and f: "finalize_task (sx_valid x) (sx_sha x) v c (next_sequence (sv_store sv) (sv_stream sv)) bytes (sv_store sv) = Inr s'"
    by (auto simp: perform_write_def Let_def py_bind_Inr_iff dest!: service_event_Inr)
  from assms(2) Write_Finalize v show ?thesis by (intro finalize_stays_unknown [OF f assms(3)]) auto
qed

definition stays_open :: "service_env \<Rightarrow> string \<Rightarrow> service \<Rightarrow> bool" where
  \<comment> \<open>the task is not closed, or as unknown, and so will the queue\<close>
  "stays_open x task sv \<longleftrightarrow> service_ok x sv \<and> only_unknown task (sv_store sv)
     \<and> (\<forall>c \<in> snd ` set (sv_commands sv). closing_unknown task c)"

lemma commit_stays_open:
  assumes "stays_open x task sv"
  shows "stays_open x task (commit_next x sv)"
proof -
  note ok = commit_service_ok [of x sv]
  show ?thesis
  proof (cases "sv_writing sv = None \<and> sv_commands sv \<noteq> []")
    case True
    then obtain i cmd rest where c: "sv_commands sv = (i, cmd) # rest" by (cases "sv_commands sv") auto
    show ?thesis
    proof (cases "perform_write x sv cmd")
      case (Inl e)
      with True c assms ok show ?thesis by (simp add: stays_open_def commit_next_def Let_def set_receipt_def)
    next
      case (Inr w)
      obtain s' events created where w: "w = (s', events, created)" by (cases w)
      from write_stays_unknown [OF Inr [unfolded w]] c assms have "only_unknown task s'"
        by (simp add: stays_open_def service_ok_def writer_ok_def store_ok_def)
      with Inr w True c assms ok show ?thesis by (simp add: stays_open_def commit_next_def Let_def set_receipt_def)
    qed
  next
    case False
    then have "commit_next x sv = sv" by (auto simp: commit_next_def split: option.splits list.splits)
    with assms show ?thesis by simp
  qed
qed

lemma enqueue_stays_open:
  "stays_open x task sv \<Longrightarrow> closing_unknown task cmd \<Longrightarrow> enqueue_write cmd k sv = Inr (i, sv') \<Longrightarrow> stays_open x task sv'"
  using enqueue_write_ok(1) [of cmd k sv i sv' x] by (auto simp: stays_open_def enqueue_write_def)

lemma stays_open_service: "stays_open x task sv \<Longrightarrow> service_ok x sv"
  by (simp add: stays_open_def)

definition no_verdict :: "task_result \<Rightarrow> bool" where
  "no_verdict r \<longleftrightarrow> rs_outcome r = O_NO_VERDICT"

lemma no_verdict_closes_unknown:
  "no_verdict r \<Longrightarrow> closing_unknown task (Write_Finalize task vp (closed_payload r ref cleanup) bytes)"
  by (simp add: closed_status no_verdict_def result_projection_def)

lemma no_verdict_kept: "no_verdict r \<Longrightarrow> with_reconciled_cleanup r cleanup = Inr r' \<Longrightarrow> no_verdict r'"
  by (simp add: no_verdict_def with_reconciled_cleanup_def result_projection_def)

lemma no_verdict_recorded: "no_verdict r \<Longrightarrow> recorded task r s \<longleftrightarrow> closed_as task ''unknown'' s"
  by (simp add: no_verdict_def recorded_def result_state_def result_projection_def)

definition revoked :: "exec_task \<Rightarrow> cancel_runtime \<Rightarrow> bool" where
  \<comment> \<open>the execution has lost its authority\<close>
  "revoked t rt \<longleftrightarrow> dispatch_authority (xt_task t) (xt_epoch t) rt \<noteq> Inr ()"

lemma revoked_moves:
  "revoked t rt \<Longrightarrow> set_site (xt_task t) (xt_epoch t) site rt = Inr rt' \<Longrightarrow> revoked t rt'"
  "revoked t rt \<Longrightarrow> unregister_task (xt_task t) n rt = Inr rt' \<Longrightarrow> revoked t rt'"
  "revoked t rt \<Longrightarrow> request_cancel fresh (xt_task t) (xt_epoch t) src reason None rt = Inr (d, rt') \<Longrightarrow> revoked t rt'"
  by (auto simp: revoked_def dispatch_authority_def set_site_def unregister_task_def request_cancel_def task_state_def
      py_bind_Inr_iff split: option.splits)

interpretation stopped_exec: result_invariant env t "stays_open (xe_service env) (xt_task t)" "closing_unknown (xt_task t)"
    no_verdict "\<lambda>r s. no_verdict r \<and> recorded (xt_task t) r s" "revoked t"
  for env t
proof unfold_locales
  show "stays_open (xe_service env) (xt_task t) sv \<Longrightarrow> stays_open (xe_service env) (xt_task t) (publish_next sv)" for sv
    using publish_service_ok by (simp add: stays_open_def)
  show "stays_open (xe_service env) (xt_task t) sv \<Longrightarrow> stays_open (xe_service env) (xt_task t) (sv\<lparr>sv_drawn := n\<rparr>)" for sv n
    using draw_ok by (simp add: stays_open_def)
  show "closing_unknown (xt_task t) (Write_Finalize (xt_task t) vp (closed_payload r' ref cleanup) bytes)"
    if "no_verdict r" "with_reconciled_cleanup r cleanup = Inr r'" for r cleanup r' vp ref bytes
    by (rule no_verdict_closes_unknown [OF no_verdict_kept [OF that]])
qed (auto intro: commit_stays_open enqueue_stays_open finalize_with_records [OF stays_open_service] recorded_grows
    stays_open_service no_verdict_closes_unknown no_verdict_kept revoked_moves simp: no_verdict_def [symmetric])

section \<open>Every step returns\<close>

lemma result_returns:
  assumes "service_ok (xe_service env) (ex_service ex)" "validator_ok (sx_valid (xe_service env))"
  shows "finalize_result env t r worker ex \<noteq> None"
  using assms derive_one_pass [OF _ assms(2), of "ex_service ex"]
  by (auto simp: service_ok_def writer_ok_def finalize_result_def split: sum.split prod.split)

lemma fault_returns:
  assumes "service_ok (xe_service env) (ex_service ex)" "validator_ok (sx_valid (xe_service env))"
  shows "finalize_fault env t e ex \<noteq> None"
  using result_returns [OF assms] by (auto simp: finalize_fault_def split: sum.split)

lemma then_returns:
  "b \<noteq> None \<Longrightarrow> body_holds Q b \<Longrightarrow> (\<And>ex. Q ex \<Longrightarrow> f ex \<noteq> None) \<Longrightarrow> body_then b f \<noteq> None"
  by (cases b) (auto simp: body_then_def body_holds_def split: sum.split prod.split)

lemma plain_returns:
  "release_owned t ex \<noteq> None" "require_authority t ex \<noteq> None" "lift_cancel f ex \<noteq> None"
  by (simp_all add: release_owned_def require_authority_def lift_cancel_def)

lemma stopped_returns:
  assumes "service_ok (xe_service env) (ex_service ex)" "validator_ok (sx_valid (xe_service env))"
  shows "finalize_stopped env t ex \<noteq> None"
proof -
  have "body_then (finalize_result env t r True ex) (\<lambda>ex1.
      Some (ex1\<lparr>ex_result := Some r, ex_error := Some CancelUnreconciled\<rparr>, Inr ())) \<noteq> None" for r
    by (rule then_returns [where Q = "\<lambda>_. True", OF result_returns [OF assms]]) (simp_all add: body_holds_def)
  moreover have "derive_terminal_truth (xe_service env) (ex_service ex) (xt_task t) (xt_epoch t) (xe_tools env) \<noteq> None"
    using derive_one_pass [OF _ assms(2), of "ex_service ex"] assms(1) by (simp add: service_ok_def writer_ok_def)
  ultimately show ?thesis
    unfolding finalize_stopped_def Let_def by (auto split: sum.split)
qed

lemma error_returns:
  assumes "service_ok (xe_service env) (ex_service ex)" "validator_ok (sx_valid (xe_service env))"
  shows "after_error env t e ex \<noteq> None"
proof -
  obtain ex1 res where "finalize_stopped env t ex = Some (ex1, res)" using stopped_returns [OF assms] by fast
  then show ?thesis by (simp add: after_error_def)
qed

definition sound :: "exec_env \<Rightarrow> exec_task \<Rightarrow> executor \<Rightarrow> bool" where
  \<comment> \<open>the queue and the log are sound, and a result that was handed out is in the store\<close>
  "sound env t = kept (service_ok (xe_service env)) (recorded (xt_task t)) (\<lambda>_. True)"

lemma sound_service: "sound env t ex \<Longrightarrow> service_ok (xe_service env) (ex_service ex)"
  by (simp add: sound_def kept_def)

lemmas sound_bodies = recording.result_kept(1) [folded sound_def] recording.fault_kept [folded sound_def]
  recording.fault_close_kept [folded sound_def] recording.start_kept [folded sound_def]
  recording.finish_kept [folded sound_def] recording.release_owned_kept [folded sound_def]
  recording.authority_kept [folded sound_def] recording.lift_kept [folded sound_def]

lemma leave_returns:
  assumes "b \<noteq> None" "body_holds (sound env t) b" "validator_ok (sx_valid (xe_service env))"
  shows "leave env t b \<noteq> None"
  using assms(1,2) error_returns [OF sound_service assms(3)]
  by (cases b) (auto simp: leave_def split: sum.split prod.split)

lemma fault_close_returns:
  assumes "sound env t ex" "validator_ok (sx_valid (xe_service env))"
  shows "close_with_fault env t e ex \<noteq> None"
  unfolding close_with_fault_def
  by (rule then_returns [OF fault_returns [OF sound_service [OF assms(1)] assms(2)] sound_bodies(2) [OF assms(1)]])
    (rule plain_returns)

lemma finish_returns:
  assumes "sound env t ex" "validator_ok (sx_valid (xe_service env))"
  shows "finish_result env t r ex \<noteq> None"
proof -
  obtain ex1 res where f: "finalize_result env t r False ex = Some (ex1, res)"
    using result_returns [OF sound_service [OF assms(1)] assms(2)] by fast
  from fault_close_returns [OF sound_bodies(1) [OF assms(1) TrueI f] assms(2)] plain_returns(1) show ?thesis
    by (cases res) (simp_all add: finish_result_def f)
qed

definition runs_to :: "(executor \<Rightarrow> bool) \<Rightarrow> body \<Rightarrow> bool" where
  "runs_to Q b \<longleftrightarrow> b \<noteq> None \<and> body_holds Q b"

lemma runs_then: "runs_to Q b \<Longrightarrow> (\<And>ex. Q ex \<Longrightarrow> runs_to Q (f ex)) \<Longrightarrow> runs_to Q (body_then b f)"
  using then_returns [of b Q f] body_thenI [of Q b f] by (simp add: runs_to_def)

lemma runs_authority: "sound env t ex \<Longrightarrow> runs_to (sound env t) (require_authority t ex)"
  and runs_site: "sound env t ex \<Longrightarrow> runs_to (sound env t) (lift_cancel (set_site (xt_task t) (xt_epoch t) site) ex)"
  and runs_finish: "sound env t ex \<Longrightarrow> validator_ok (sx_valid (xe_service env)) \<Longrightarrow>
    runs_to (sound env t) (finish_result env t r ex)"
  using plain_returns(2,3) sound_bodies(7,8) finish_returns sound_bodies(5) [OF _ TrueI] unfolding runs_to_def by blast+

lemma exec_finish_returns:
  assumes "sound env t ex" "validator_ok (sx_valid (xe_service env))"
  shows "exec_finish env t r ex \<noteq> None"
proof -
  have "runs_to (sound env t) (body_then (require_authority t ex) (\<lambda>ex0.
       body_then (lift_cancel (set_site (xt_task t) (xt_epoch t) ''finalising'') ex0) (\<lambda>ex1.
       body_then (require_authority t ex1) (finish_result env t r))))"
    using assms by (intro runs_then runs_authority runs_site runs_finish)
  then show ?thesis unfolding exec_finish_def runs_to_def using leave_returns [OF _ _ assms(2)] by blast
qed

lemma begin_returns:
  assumes "sound env t ex" "validator_ok (sx_valid (xe_service env))"
  shows "exec_begin env t ex \<noteq> None"
proof -
  obtain sv res where w: "awaited (xe_service env) (xt_receipt t) (ex_service ex) = (sv, res)" by fastforce
  note ok = sound_service [OF assms(1)]
  have h: "sound env t (ex\<lparr>ex_service := sv\<rparr>)"
    using recording.waits [OF ok, of "xt_receipt t"] w writer_runs_grows [OF ok w] assms(1)
    unfolding sound_def by (intro recording.moved) simp_all
  have s: "start_running env t (ex\<lparr>ex_service := sv\<rparr>) \<noteq> None"
    unfolding start_running_def
    by (simp add: body_then_def require_authority_def lift_cancel_def split: sum.split prod.split option.split)
  have l: "leave env t (Some (ex\<lparr>ex_service := sv\<rparr>, Inl e)) \<noteq> None" for e
    using h by (intro leave_returns [OF _ _ assms(2)]) simp_all
  have r: "leave env t (release_owned t (ex\<lparr>ex_service := sv\<rparr>)) \<noteq> None"
    by (rule leave_returns [OF plain_returns(1) sound_bodies(6) [OF h] assms(2)])
  have b: "body_holds (sound env t) (start_running env t (ex\<lparr>ex_service := sv\<rparr>))" by (rule sound_bodies(4) [OF h])
  from s obtain ex2 out where st: "start_running env t (ex\<lparr>ex_service := sv\<rparr>) = Some (ex2, out)" by fast
  from l r error_returns [OF sound_service [OF body_holdsD [OF b st]] assms(2)] show ?thesis
    by (cases res; cases out) (simp_all add: exec_begin_def w st Let_def)
qed

lemma step_returns:
  assumes "sound env t ex" "validator_ok (sx_valid (xe_service env))"
  obtains ex' where "exec_step env t op ex = Some ex'" "sound env t ex'"
proof -
  have "exec_step env t op ex \<noteq> None"
  proof (cases op)
    case (X_Raised e)
    with leave_returns [OF fault_close_returns [OF assms] sound_bodies(3) [OF assms(1)] assms(2)] show ?thesis by simp
  next
    case X_Finish
    with exec_finish_returns [OF assms] show ?thesis by (simp split: exec_phase.split)
  qed (use begin_returns [OF assms] in auto)
  then obtain ex' where ex': "exec_step env t op ex = Some ex'" by blast
  have "sound env t ex'"
    unfolding sound_def
    by (rule recording.step_kept [OF assms(1) [unfolded sound_def] _ ex'])
      (rule recording.exec_finish_kept [OF assms(1) [unfolded sound_def] TrueI])
  with ex' show ?thesis by (rule that)
qed

end
