(* ===== verification/Executor_Properties.thy ===== *)
theory Executor_Properties
  imports Executor_Invariants
begin

text \<open>
  What the durable executor guarantees, from the invariants and from those of the session
  service: a result is handed out only when its terminal is durable, an accepted Stop wins over
  any late result, a restart closes what was open, and the terminal bundle is one that the
  strict reader accepts.
\<close>

section \<open>The executor on any session\<close>

lemma service_step_queue:
  assumes ok: "service_ok x sv" and step: "service_step x op (sv, got) = Inr (sv', got')"
  shows "service_ok x sv'"
proof -
  have frame: "service_ok x sw" if "same_log sv sw" "sv_commands sw = sv_commands sv" "sv_receipts sw = sv_receipts sv" for sw
    using that same_log_writer [OF that(1), of x] ok by (simp add: service_ok_def queue_ok_def errors_of_def del: nth_map)
  show ?thesis
  proof (cases op)
    case (Submit request h payload bytes)
    with step submit_ok [OF _ ok] show ?thesis by (auto simp: service_step_def py_bind_Inr_iff)
  next
    case (Append_Event kind payload k bytes)
    with step svc_append_ok [OF _ ok] show ?thesis by (auto simp: service_step_def py_bind_Inr_iff)
  next
    case (Finalize_Task k vp cp bytes)
    with step svc_finalize_ok(1) [OF _ ok] show ?thesis by (auto simp: service_step_def py_bind_Inr_iff)
  next
    case (Request_Cancel k epoch src why)
    with step svc_append_ok [OF _ draw_ok [OF ok]] show ?thesis
      by (auto simp: service_step_def svc_request_cancel_def py_bind_Inr_iff)
  qed (use step ok in \<open>auto simp: service_step_def py_bind_Inr_iff subscribe_def subscribe_from_def svc_drain_def
      close_service_def same_log_def commit_service_ok publish_service_ok split: if_splits intro: frame\<close>)
qed

lemma new_service_ok: "service_ok x (fst (new_served x stream producer session capacity))"
  using new_served_ok [of x stream producer session capacity]
  by (simp add: service_ok_def served_ok_def queue_ok_def new_served_def mk_service_def)

interpretation queued_run: guarded_machine "service_step x" "\<lambda>s. service_ok x (fst s)" for x
  by unfold_locales (metis prod.collapse service_step_queue)

lemma script_service_ok:
  "(sv, got) = run_ops (service_step x) ops (new_served x stream producer session capacity) \<Longrightarrow> service_ok x sv"
  using queued_run.run_inv [OF new_service_ok] by (metis fst_conv)

lemma run_sound:
  assumes "sound env t ex" "validator_ok (sx_valid (xe_service env))"
  shows "\<exists>ex'. exec_run env t ops ex = Some ex' \<and> sound env t ex'"
  using assms
proof (induction ops arbitrary: ex)
  case (Cons op ops)
  from step_returns [OF Cons.prems] obtain ex' where "exec_step env t op ex = Some ex'" "sound env t ex'" by blast
  with Cons.IH [OF this(2) Cons.prems(2)] show ?case by simp
qed simp

text \<open>C23: A result is handed out only when it is on disk.  In every schedule of one execution - the
  controller returning or failing, its events, Stops, other submissions and the writer, in any
  order - each step returns, and when the task handle has a result then the store holds a durable
  terminal of that task: in the state of that result, or, for a completed result whose processes
  are not all accounted for, in the state unknown.\<close>
theorem result_is_durable:
  assumes "validator_ok (sx_valid (xe_service env))"
    and "(sv, got) = run_ops (service_step (xe_service env)) before (new_served (xe_service env) stream producer session capacity)"
    and "ex_service ex = sv" and "ex_result ex = None"
  shows "\<exists>ex'. exec_run env t ops ex = Some ex'
    \<and> (\<forall>r. ex_result ex' = Some r \<longrightarrow> recorded (xt_task t) r (sv_store (ex_service ex')))"
proof -
  have "sound env t ex" using script_service_ok [OF assms(2)] assms(3,4) by (simp add: sound_def kept_def)
  from run_sound [OF this assms(1)] show ?thesis by (fastforce simp: sound_def kept_def)
qed

text \<open>The state in which a stopped execution goes on.\<close>

definition stopped :: "exec_env \<Rightarrow> exec_task \<Rightarrow> executor \<Rightarrow> bool" where
  "stopped env t = kept (stays_open (xe_service env) (xt_task t)) (\<lambda>r s. no_verdict r \<and> recorded (xt_task t) r s) (revoked t)"

lemma cancel_revokes:
  assumes "registry_ok rt0" "request_cancel fresh (xt_task t) (xt_epoch t) src reason None rt0 = Inr (d, rt)"
  shows "revoked t rt"
proof -
  have "live_step (Cancel fresh (xt_task t) (xt_epoch t) src reason None) rt0 = Inr rt" using assms(2) by simp
  with assms(1) have ok: "registry_ok rt" by (rule live_step_ok)
  from cancelled_entry [OF assms] obtain s where s: "rt (xt_task t) = Some s" "tc_decision s = Some d"
    "tk_epoch (tc_token s) = xt_epoch t" by blast
  from registry_okD [OF ok s(1)] s(2,3) have "fence_epoch (tc_fence s) \<noteq> xt_epoch t"
    by (simp add: entry_ok_def decision_ok_def)
  with s(1) show ?thesis
    by (auto simp: revoked_def dispatch_authority_def task_state_def)
qed

lemma stop_leaves_stopped:
  assumes "registry_ok (ex_cancel ex)" "stays_open (xe_service env) (xt_task t) (ex_service ex)" "ex_result ex = None"
    and stop: "exec_stop env t src reason ex = (ex1, Inr d)"
  shows "stopped env t ex1"
proof -
  let ?x = "xe_service env"
  let ?ex0 = "\<lambda>rt. ex\<lparr>ex_cancel := rt, ex_service := (ex_service ex)\<lparr>sv_drawn := Suc (sv_drawn (ex_service ex))\<rparr>\<rparr>"
  from stop obtain rt payload where rt: "request_cancel (sx_uuid4 ?x (sv_drawn (ex_service ex))) (xt_task t) (xt_epoch t) src
      reason None (ex_cancel ex) = Inr (d, rt)"
    and ex1: "ex1 = fst (append_awaited env ''task.cancel_requested'' payload t (?ex0 rt))"
    unfolding exec_stop_def Let_def by (auto simp: py_bind_Inr_iff split: sum.splits prod.splits) (metis fst_conv)
  have "stopped env t (?ex0 rt)"
    using cancel_revokes [OF assms(1) rt] assms(3) stopped_exec.draw [OF assms(2)] by (simp add: stopped_def kept_def)
  then show ?thesis unfolding ex1 stopped_def by (rule stopped_exec.append_kept)
qed

lemma stopped_step:
  assumes "stopped env t ex" "exec_step env t op ex = Some ex'"
  shows "stopped env t ex'"
  unfolding stopped_def
proof (rule stopped_exec.step_kept [OF assms(1) [unfolded stopped_def] _ assms(2)])
  fix r
  assume fin: "exec_finish env t r ex = Some ex'"
  from assms(1) have "revoked t (ex_cancel ex)" by (simp add: stopped_def kept_def)
  then obtain e where "dispatch_authority (xt_task t) (xt_epoch t) (ex_cancel ex) = Inl e"
    by (cases "dispatch_authority (xt_task t) (xt_epoch t) (ex_cancel ex)") (auto simp: revoked_def)
  from stopped_exec.finish_without_authority [OF assms(1) [unfolded stopped_def] this fin]
  show "kept (stays_open (xe_service env) (xt_task t)) (\<lambda>r s. no_verdict r \<and> recorded (xt_task t) r s) (revoked t) ex'" .
qed

lemma stopped_sound: "stopped env t ex \<Longrightarrow> sound env t ex"
  by (auto simp: stopped_def sound_def kept_def stays_open_service)

lemma run_stopped:
  assumes "stopped env t ex" "validator_ok (sx_valid (xe_service env))"
  shows "\<exists>ex'. exec_run env t ops ex = Some ex' \<and> stopped env t ex'"
  using assms(1)
proof (induction ops arbitrary: ex)
  case (Cons op ops)
  from step_returns [OF stopped_sound [OF Cons.prems] assms(2)] obtain ex' where "exec_step env t op ex = Some ex'" by blast
  with Cons.IH [OF stopped_step [OF Cons.prems this]] show ?case by simp
qed simp

text \<open>C22: An accepted Stop wins.  From the moment the executor has revoked the epoch of an execution
  whose task is not closed, no schedule can give that task another terminal than unknown: a
  controller that returns a verified or failed result afterwards does not commit it.  Each step
  still returns, and the only result the handle can get is one without a verdict, which is then
  durable.\<close>
theorem stop_wins:
  assumes "validator_ok (sx_valid (xe_service env))" and "registry_ok (ex_cancel ex)"
    and "stays_open (xe_service env) (xt_task t) (ex_service ex)" and "ex_result ex = None"
    and "exec_stop env t src reason ex = (ex1, Inr d)"
  shows "\<exists>ex2. exec_run env t ops ex1 = Some ex2 \<and> only_unknown (xt_task t) (sv_store (ex_service ex2))
    \<and> (\<forall>r. ex_result ex2 = Some r \<longrightarrow> rs_outcome r = O_NO_VERDICT
          \<and> closed_as (xt_task t) ''unknown'' (sv_store (ex_service ex2)))"
proof -
  from run_stopped [OF stop_leaves_stopped [OF assms(2-5)] assms(1)] obtain ex2 where
    ex2: "exec_run env t ops ex1 = Some ex2" "stopped env t ex2" by blast
  then show ?thesis by (auto simp: stopped_def kept_def stays_open_def no_verdict_def no_verdict_recorded [unfolded no_verdict_def])
qed

text \<open>The handle and the store can disagree: a completed result whose processes are not accounted for
  is closed as unknown, and the handle still gets the completed result.\<close>

lemma handle_keeps_the_completed_result:
  assumes ok: "service_ok (xe_service env) (ex_service ex)" and compl: "pj_state (result_projection r) = T_COMPLETED"
    and truth: "derive_terminal_truth (xe_service env) (ex_service ex) (xt_task t) (xt_epoch t) (xe_tools env)
      = Some (Inr (cleanup, ids))" "cleanup \<notin> set RECONCILED_CLEANUP"
    and fin: "finalize_result env t r False ex = Some (ex', Inr ())"
  shows "closed_as (xt_task t) ''unknown'' (sv_store (ex_service ex'))
    \<and> finish_result env t r ex = release_owned t (ex'\<lparr>ex_result := Some r\<rparr>)"
proof -
  from fin truth(1) obtain sv where f: "finalize_with env (xt_task t) r cleanup ids False (ex_service ex) = (sv, Inr ())"
    and ex': "ex' = ex\<lparr>ex_service := sv\<rparr>" by (auto simp: finalize_result_def split: prod.splits)
  from f have "closed_as (xt_task t) ''unknown'' (sv_store sv)"
  proof (cases rule: finalize_with_cases)
    case (written r' ref bytes block i sv1 n out)
    from svc_finalize_ok [OF written(2) draw_ok [OF ok]] awaited_performed [OF _ _ written(3) [unfolded written(4) [OF refl]]]
    have p: "performed (xe_service env) (Write_Finalize (xt_task t) (verdict_payload (xt_task t) r' block ref False)
        (closed_payload r' ref cleanup) (Some bytes)) sv" by simp
    from written(1) have "with_reconciled_cleanup r cleanup = Inr r'" by (simp add: finalize_bundle_Inr)
    with compl truth(2) have "rs_outcome r' = O_NO_VERDICT"
      by (cases "rs_outcome r'") (auto simp: with_reconciled_cleanup_def dest!: mk_task_result_ok)
    with performed_closes [OF p] show ?thesis by (simp add: result_projection_def)
  qed simp_all
  with fin ex' show ?thesis by (simp add: finish_result_def)
qed

section \<open>Recovery closes what was open\<close>

lemma recover_one_closes:
  assumes ok: "service_ok x sv" and run: "recover_one x task sv = (sv', res)"
  shows "service_ok x sv' \<and> store_grows (sv_store sv) (sv_store sv')"
    and "res = Inr u \<Longrightarrow> closed_as task ''unknown'' (sv_store sv')"
proof -
  let ?sv0 = "sv\<lparr>sv_drawn := Suc (sv_drawn sv)\<rparr>"
  obtain bytes ref where r: "recover_one x task sv = (case svc_finalize x task (recovery_verdict task ref) (recovery_closed ref)
      (Some bytes) ?sv0 of Inl e \<Rightarrow> (?sv0, Inl e) | Inr (i, sv1) \<Rightarrow> awaited x i sv1)"
    by (simp only: recover_one_def Let_def)
  have st: "py_item (PDict (recovery_closed ref)) ''status'' = Inr (PStr ''unknown'')"
    by (simp add: recovery_closed_def py_item_def)
  have "service_ok x sv' \<and> store_grows (sv_store sv) (sv_store sv')
      \<and> (res = Inr () \<longrightarrow> closed_as task ''unknown'' (sv_store sv'))"
  proof (cases "svc_finalize x task (recovery_verdict task ref) (recovery_closed ref) (Some bytes) ?sv0")
    case (Inl e)
    with r run draw_ok [OF ok] show ?thesis by auto
  next
    case (Inr p)
    obtain i sv1 where p: "p = (i, sv1)" by (cases p)
    note fin = svc_finalize_ok [OF Inr [unfolded p] draw_ok [OF ok]]
    from r run Inr p have w: "awaited x i sv1 = (sv', res)" by simp
    then have "sv' = writer_runs x sv1" by (auto simp: awaited_def Let_def)
    then have "service_ok x sv'" by (simp add: writer_runs_ok(1) [OF fin(1)])
    moreover from writer_runs_grows [OF fin(1) w] fin(2) have "store_grows (sv_store sv) (sv_store sv')" by simp
    moreover have "closed_as task ''unknown'' (sv_store sv')" if "res = Inr ()"
      by (rule write_closes [OF awaited_performed [OF fin(1,3) w [unfolded that]] st])
    ultimately show ?thesis by blast
  qed
  then show "service_ok x sv' \<and> store_grows (sv_store sv) (sv_store sv')"
    and "res = Inr u \<Longrightarrow> closed_as task ''unknown'' (sv_store sv')" by simp_all
qed

lemma recover_all_closes:
  "service_ok x sv \<Longrightarrow> recover_all x tasks sv = (sv', Inr ids) \<Longrightarrow>
     ids = tasks \<and> store_grows (sv_store sv) (sv_store sv') \<and> (\<forall>k \<in> set tasks. closed_as k ''unknown'' (sv_store sv'))"
proof (induction tasks arbitrary: sv ids)
  case (Cons k tasks)
  from Cons.prems(2) obtain sv1 ids' where one: "recover_one x k sv = (sv1, Inr ())"
    and rest: "recover_all x tasks sv1 = (sv', Inr ids')" "ids = k # ids'"
    by (auto split: prod.splits sum.splits)
  note o = recover_one_closes [OF Cons.prems(1) one]
  from Cons.IH [OF conjunct1 [OF o(1)] rest(1)] o rest(2) show ?case
    by (auto intro: closed_as_grows store_grows_trans)
qed auto

definition recovery_result :: "string \<Rightarrow> task_result" where
  "recovery_result task = \<lparr>rs_task_id = task, rs_outcome = O_NO_VERDICT, rs_answer = restart_answer, rs_verified = False,
     rs_evidence = [], rs_metrics = [], rs_ran = False, rs_reason = None\<rparr>"

lemma recovery_values_eq: "recovery_values task = retained_values (recovery_result task) None None"
proof -
  have "take MAX_MESSAGE_CHARS restart_answer = restart_answer" by (simp add: MAX_MESSAGE_CHARS_def restart_answer_def)
  then show ?thesis
    by (simp add: recovery_values_def retained_values_def recovery_result_def result_projection_def opt_object_def)
qed

lemma recovery_accepted:
  assumes "fresh \<noteq> []" and bytes: "bytes = json_compact (PDict (recovery_values task))" and ref: "ref = result_ref sha fresh bytes"
  shows "validate_terminal_completion sha task (recovery_verdict task ref) (recovery_closed ref) (Some bytes) = Inr ()"
proof -
  let ?r = "recovery_result task"
  have ok: "result_ok ?r" by (simp add: recovery_result_def result_ok_def task_succeeded_def)
  have none: "keys_distinct (opt_object None)" by (simp add: opt_object_def)
  have noev: "\<forall>i \<in> set (rs_evidence ?r). i \<noteq> []" and id: "rs_task_id ?r = task" by (simp_all add: recovery_result_def)
  note rd = retained_result_reads [OF ok no_projection_ok none noev, folded recovery_values_eq, folded bytes, unfolded id]
  have ev: "py_get (sort_key fst (map (\<lambda>kv. (fst kv, canon (snd kv))) (recovery_values task))) ''evidence_ids'' = PList []"
    unfolding recovery_values_eq by (simp add: py_get_canon [OF retained_keys(1)] recovery_result_def)
  have refok: "validate_result_ref sha (PDict ref) bytes = Inr ref" unfolding ref by (rule result_ref_accepted [OF assms(1)])
  have clean: "cleanup_of (PStr ''unknown'') = Inr ''unknown''" by (simp add: cleanup_of_def ALLOWED_CLEANUP_def)
  have lines: "check_lines \<lparr>rs_task_id = task, rs_outcome = O_NO_VERDICT, rs_answer = a, rs_verified = False, rs_evidence = [],
        rs_metrics = [], rs_ran = False, rs_reason = None\<rparr> (py_get recovery_block ''rendered_lines'') = Inr ()" for a
    by code_simp
  have b: "py_get recovery_block ''verdict'' = PStr ''NO_VERDICT''" "py_get recovery_block ''evidence_ids'' = PList []"
    by (simp_all add: recovery_block_def py_get_def)
  have v: "fst ` set (recovery_verdict task ref) = {''completion''}"
    "py_get (recovery_verdict task ref) ''completion'' = PDict [(''task_id'', PStr task), (''status'', PStr ''unknown''),
      (''verdict_block'', PDict recovery_block), (''worker_artifact_ref'', PNone), (''result_ref'', PDict ref)]"
    by (simp_all add: recovery_verdict_def py_get_def)
  have c: "py_get (recovery_closed ref) ''status'' = PStr ''unknown''" "py_get (recovery_closed ref) ''result_ref'' = PDict ref"
    "py_get (recovery_closed ref) ''cleanup'' = PStr ''unknown''"
    "py_get [(''task_id'', PStr task), (''status'', PStr ''unknown''), (''verdict_block'', PDict recovery_block),
      (''worker_artifact_ref'', PNone), (''result_ref'', PDict ref)] k =
      (if k = ''task_id'' then PStr task else if k = ''status'' then PStr ''unknown'' else if k = ''verdict_block'' then
       PDict recovery_block else if k = ''result_ref'' then PDict ref else PNone)" for k
    by (simp_all add: recovery_closed_def py_get_def)
  show ?thesis
    unfolding validate_terminal_completion_def rd py_bind_simps prod.case option.sel Let_def
    using refok clean lines b
    by (simp add: v c ev the_mapping_def recovery_result_def result_projection_def py_eq_def)
qed

text \<open>C25: A restart leaves no admitted task without a durable answer.  When the recovery of a session
  returns, its list is exactly the tasks of the stream that had no terminal, in the order of
  their admission, each of them is now durably closed as unknown, and nothing that was in the
  store before is lost.\<close>
theorem restart_closes_open_tasks:
  assumes "(sv, got) = run_ops (service_step x) before (new_served x stream producer session capacity)"
    and "recover_unknown_tasks x sv = (sv', Inr ids)"
  shows "ids = map tw_task (unterminated_tasks (sv_store sv) (sv_stream sv))
    \<and> store_grows (sv_store sv) (sv_store sv') \<and> (\<forall>k \<in> set ids. closed_as k ''unknown'' (sv_store sv'))"
  using recover_all_closes [OF script_service_ok [OF assms(1)] assms(2) [unfolded recover_unknown_tasks_def]] by simp

section \<open>Examples\<close>

text \<open>A write into an idle service: what waiting for it returns is what the write returns.\<close>

lemma publishing_idle: "sv_writing sv = None \<Longrightarrow> finish_publishing sv = sv"
  by (simp add: finish_publishing_def unpublished_def publish_next_def)

lemma idle_write_succeeds:
  assumes "sv_writing sv = None" "sv_commands sv = []" "enqueue_write cmd k sv = Inr (i, sv1)"
    and "perform_write x sv1 cmd = Inr w"
  shows "snd (awaited x i sv1) = Inr ()"
proof -
  from assms(3) have i: "i = length (sv_receipts sv)" and sv1: "sv1 = sv\<lparr>sv_commands := sv_commands sv @ [(i, cmd)],
      sv_receipts := sv_receipts sv @ [\<lparr>wr_task = k, wr_committed = False, wr_error = None, wr_created = None\<rparr>]\<rparr>"
    by (auto simp: enqueue_write_def)
  then have w: "sv_writing sv1 = None" "sv_commands sv1 = [(i, cmd)]" "errors_of sv1 ! i = None"
    "i < length (sv_receipts sv1)"
    using assms(1,2) by (simp_all add: errors_of_def nth_append)
  then have runs: "writer_runs x sv1 = writer_turn x sv1" by (simp add: writer_runs_def publishing_idle)
  from w(1,2) have "errors_of (writer_turn x sv1) ! i = None \<and> i < length (sv_receipts (writer_turn x sv1))"
    by (cases rule: turn_cases [where x = x]) (use assms(4) w in simp_all)
  then show ?thesis by (auto simp: awaited_def Let_def runs errors_of_def)
qed

definition padded_uuid :: "nat \<Rightarrow> string" where
  "padded_uuid n = replicate (32 - length (nat_str n)) CHR ''0'' @ nat_str n"

definition demo_exec_env :: exec_env where
  "demo_exec_env = \<lparr>xe_service = demo_env\<lparr>sx_uuid4 := padded_uuid\<rparr>, xe_tools = {''run''}, xe_ellipsis = CHR ''.'',
     xe_trace = (\<lambda>_. ''trace''), xe_cancel_endpoint = None\<rparr>"

definition demo_exec_task :: exec_task where
  "demo_exec_task = \<lparr>xt_task = demo_task_id, xt_epoch = 0, xt_owns = True, xt_receipt = 0\<rparr>"

definition demo_pass :: task_result where
  "demo_pass = \<lparr>rs_task_id = demo_task_id, rs_outcome = O_PASS, rs_answer = ''done'', rs_verified = True,
     rs_evidence = [''e''], rs_metrics = [], rs_ran = True, rs_reason = None\<rparr>"

definition demo_owner :: cancel_runtime where
  "demo_owner = run_ops cancel_step [Live (Register demo_task_id 0 ''queued'')] (\<lambda>_. None)"

definition demo_executor :: "service \<Rightarrow> executor" where
  "demo_executor sv = \<lparr>ex_service = sv, ex_cancel = demo_owner, ex_registered = [demo_task_id],
     ex_phase = Ph_Returned demo_pass, ex_result = None, ex_error = None\<rparr>"

lemma demo_exec_valid: "validator_ok (sx_valid (xe_service demo_exec_env))"
  by (simp add: demo_exec_env_def demo_env_def demo_validator)

lemma demo_exec_registry: "registry_ok (ex_cancel (demo_executor sv))"
proof -
  have "registry_ok demo_owner" unfolding demo_owner_def by (rule registry.run_inv) (simp add: registry_ok_def)
  then show ?thesis by (simp add: demo_executor_def)
qed

definition demo_open :: served where
  "demo_open = run_ops (service_step demo_env) (take 4 demo_activity)
     (new_served demo_env ''00000000000000000000000000000002'' ''00000000000000000000000000000003'' None 8)"

definition demo_intent :: pydict where
  "demo_intent = [(''request_id'', PStr (padded_uuid 2)), (''source'', PStr ''user''), (''reason_code'', PStr ''requested''),
     (''execution_epoch'', PInt 0)]"

lemma demo_open_idle:
  "case demo_open of (sv, got) \<Rightarrow> sv_writing sv = None \<and> sv_commands sv = [] \<and> sv_drawn sv = 2
     \<and> only_unknown demo_task_id (sv_store sv)"
  by code_simp

lemma demo_request:
  "returns (\<lambda>(d, rt). cd_request d = \<lparr>cq_id = padded_uuid 2, cq_task = demo_task_id, cq_epoch = 0, cq_source = BY_USER,
       cq_reason = ''requested''\<rparr>)
     (request_cancel (padded_uuid 2) demo_task_id 0 ''user'' ''requested'' None demo_owner)"
  by code_simp

lemma demo_intent_written:
  "case demo_open of (sv, got) \<Rightarrow>
     returns (\<lambda>(i, sv1). returns (\<lambda>_. True) (perform_write (xe_service demo_exec_env) sv1
         (Write_Append ''task.cancel_requested'' demo_intent (Some demo_task_id) None)))
       (svc_append ''task.cancel_requested'' demo_intent (Some demo_task_id) None (sv\<lparr>sv_drawn := 3\<rparr>))"
  by code_simp

theorem result_is_durable_witness:
  "\<exists>ex. exec_run demo_exec_env demo_exec_task [X_Finish, X_Writer]
     (demo_executor (fst (new_served (xe_service demo_exec_env) ''00000000000000000000000000000002''
        ''00000000000000000000000000000003'' None 8))) = Some ex"
proof -
  let ?new = "new_served (xe_service demo_exec_env) ''00000000000000000000000000000002'' ''00000000000000000000000000000003'' None 8"
  have "(fst ?new, snd ?new) = run_ops (service_step (xe_service demo_exec_env)) [] ?new" by simp
  from result_is_durable [OF demo_exec_valid this, of "demo_executor (fst ?new)" demo_exec_task "[X_Finish, X_Writer]"]
  show ?thesis by (auto simp: demo_executor_def)
qed

lemma demo_exec_stop:
  assumes s: "demo_open = (sv, got)"
  shows "\<exists>ex1 d. exec_stop demo_exec_env demo_exec_task ''user'' ''requested'' (demo_executor sv) = (ex1, Inr d)"
proof -
  from demo_request obtain d rt where r: "request_cancel (padded_uuid 2) demo_task_id 0 ''user'' ''requested'' None demo_owner = Inr (d, rt)"
    and q: "cd_request d = \<lparr>cq_id = padded_uuid 2, cq_task = demo_task_id, cq_epoch = 0, cq_source = BY_USER,
       cq_reason = ''requested''\<rparr>" by (auto elim!: returnsE)
  from demo_intent_written obtain i sv1 w where a: "svc_append ''task.cancel_requested'' demo_intent (Some demo_task_id) None (sv\<lparr>sv_drawn := 3\<rparr>)
      = Inr (i, sv1)" and w: "perform_write (xe_service demo_exec_env) sv1
         (Write_Append ''task.cancel_requested'' demo_intent (Some demo_task_id) None) = Inr w"
    by (auto simp: s elim!: returnsE)
  have idle: "sv_writing sv = None" "sv_commands sv = []" and drawn: "sv_drawn sv = 2"
    using demo_open_idle by (simp_all add: s)
  have q1: "enqueue_write (Write_Append ''task.cancel_requested'' demo_intent (Some demo_task_id) None) (Some demo_task_id)
      (sv\<lparr>sv_drawn := 3\<rparr>) = Inr (i, sv1)" using a by (simp add: svc_append_def)
  from idle_write_succeeds [OF _ _ q1 w] idle obtain sv2 where aw: "awaited (xe_service demo_exec_env) i sv1 = (sv2, Inr ())"
    by (cases "awaited (xe_service demo_exec_env) i sv1") simp
  from r a q drawn aw show ?thesis
    by (auto simp: exec_stop_def demo_executor_def demo_exec_task_def append_awaited_def Let_def demo_intent_def
        demo_exec_env_def)
qed

theorem stop_wins_witness:
  "\<exists>sv got ex1 d ex2. demo_open = (sv, got)
     \<and> exec_stop demo_exec_env demo_exec_task ''user'' ''requested'' (demo_executor sv) = (ex1, Inr d)
     \<and> exec_run demo_exec_env demo_exec_task [X_Finish, X_Writer] ex1 = Some ex2
     \<and> only_unknown demo_task_id (sv_store (ex_service ex2))"
proof -
  obtain sv got where s: "demo_open = (sv, got)" by (cases demo_open)
  have "service_ok demo_env sv"
    by (rule script_service_ok [OF s [symmetric, unfolded demo_open_def]])
  with demo_open_idle have o: "stays_open (xe_service demo_exec_env) (xt_task demo_exec_task) (ex_service (demo_executor sv))"
    by (simp add: s stays_open_def demo_exec_env_def demo_exec_task_def demo_executor_def service_ok_def writer_ok_def)
  from demo_exec_stop [OF s] obtain ex1 d where
    stop: "exec_stop demo_exec_env demo_exec_task ''user'' ''requested'' (demo_executor sv) = (ex1, Inr d)" by blast
  have n: "ex_result (demo_executor sv) = None" by (simp add: demo_executor_def)
  from stop_wins [OF demo_exec_valid demo_exec_registry o n stop, of "[X_Finish, X_Writer]"] s stop show ?thesis
    by (auto simp: demo_exec_task_def)
qed
text \<open>The recovery of the example session, whose one task is open.\<close>

definition demo_bytes :: string where
  "demo_bytes = json_compact (PDict (recovery_values demo_task_id))"

definition demo_recovery :: write_command where
  "demo_recovery = Write_Finalize demo_task_id (recovery_verdict demo_task_id (result_ref demo_digest (nat_str 2) demo_bytes))
     (recovery_closed (result_ref demo_digest (nat_str 2) demo_bytes)) (Some demo_bytes)"

lemma demo_recovery_written:
  "case demo_open of (sv, got) \<Rightarrow>
     map tw_task (unterminated_tasks (sv_store sv) (sv_stream sv)) = [demo_task_id] \<and>
     returns (\<lambda>(i, sv1). returns (\<lambda>_. True) (perform_write demo_env sv1 demo_recovery))
       (enqueue_write demo_recovery (Some demo_task_id) (sv\<lparr>sv_drawn := 3\<rparr>))"
  by code_simp

theorem restart_closes_open_tasks_witness:
  "\<exists>sv got sv'. demo_open = (sv, got) \<and> recover_unknown_tasks demo_env sv = (sv', Inr [demo_task_id])
     \<and> closed_as demo_task_id ''unknown'' (sv_store sv')"
proof -
  obtain sv got where s: "demo_open = (sv, got)" by (cases demo_open)
  have idle: "sv_writing sv = None" "sv_commands sv = []" and drawn: "sv_drawn sv = 2"
    using demo_open_idle by (simp_all add: s)
  have tasks: "map tw_task (unterminated_tasks (sv_store sv) (sv_stream sv)) = [demo_task_id]"
    using demo_recovery_written by (simp add: s)
  from demo_recovery_written obtain i sv1 w where q: "enqueue_write demo_recovery (Some demo_task_id) (sv\<lparr>sv_drawn := 3\<rparr>) = Inr (i, sv1)"
    and w: "perform_write demo_env sv1 demo_recovery = Inr w" by (auto simp: s elim!: returnsE)
  from idle_write_succeeds [OF _ _ q w] idle obtain sv2 where aw: "awaited demo_env i sv1 = (sv2, Inr ())"
    by (cases "awaited demo_env i sv1") simp
  have u: "uuid_ok demo_task_id" by code_simp
  have ids: "nat_str 2 \<noteq> []" by code_simp
  have "svc_finalize demo_env demo_task_id (recovery_verdict demo_task_id (result_ref demo_digest (nat_str 2) demo_bytes))
     (recovery_closed (result_ref demo_digest (nat_str 2) demo_bytes)) (Some demo_bytes) (sv\<lparr>sv_drawn := 3\<rparr>) = Inr (i, sv1)"
    using recovery_accepted [OF ids demo_bytes_def refl, of demo_digest] u q
    by (simp add: svc_finalize_def demo_recovery_def demo_env_def)
  with aw drawn have "recover_one demo_env demo_task_id sv = (sv2, Inr ())"
    by (simp add: recover_one_def Let_def demo_bytes_def [symmetric]) (simp add: demo_env_def)
  then have r: "recover_unknown_tasks demo_env sv = (sv2, Inr [demo_task_id])"
    by (simp add: recover_unknown_tasks_def tasks)
  from restart_closes_open_tasks [OF s [symmetric, unfolded demo_open_def] r]
  have "closed_as demo_task_id ''unknown'' (sv_store sv2)" by simp
  with s r show ?thesis by blast
qed

section \<open>The terminal bundle is accepted\<close>

lemma derived_cleanup_allowed:
  assumes "derive_terminal_truth x sv task epoch tools = Some (Inr (cleanup, ids))"
  shows "cleanup \<in> set ALLOWED_CLEANUP"
proof -
  from assms obtain sc where "truth_of_scan x sv sc = Inr (cleanup, ids)"
    by (auto simp: derive_terminal_truth_def py_bind_Inr_iff split: sum.splits)
  then show ?thesis
    by (auto simp: truth_of_scan_def cleanup_fact_def py_bind_Inr_iff Let_def ALLOWED_CLEANUP_def split: if_splits)
qed

lemma reconciled_fields:
  assumes "with_reconciled_cleanup r cleanup = Inr r'" "result_ok r"
  shows "result_ok r' \<and> rs_task_id r' = rs_task_id r
    \<and> (pj_state (result_projection r') = T_COMPLETED \<longrightarrow> cleanup \<in> set RECONCILED_CLEANUP)"
proof (cases "pj_state (result_projection r) \<noteq> T_COMPLETED \<or> cleanup \<in> set RECONCILED_CLEANUP")
  case True
  with assms show ?thesis by (auto simp: with_reconciled_cleanup_def)
next
  case False
  note m = mk_task_result_ok [OF assms(1) [unfolded with_reconciled_cleanup_def if_not_P [OF False]]]
  then have "rs_outcome r' = O_NO_VERDICT" by (cases "rs_outcome r'") simp_all
  with m show ?thesis by (simp add: result_projection_def)
qed

text \<open>C24: The executor never builds a terminal that the completion contract refuses.  From any
  constructed task result and the cleanup fact that the log gives, the retained bytes, their
  reference, the verdict event and the closed event that the executor writes agree with each
  other in every field that the strict reader compares, and an unproved cleanup never goes with a
  completed status.\<close>
theorem terminal_bundle_is_accepted:
  assumes "result_ok r" and "fresh \<noteq> []"
    and "derive_terminal_truth (xe_service env) sv (rs_task_id r) epoch (xe_tools env) = Some (Inr (cleanup, ids))"
    and "finalize_bundle env r cleanup fresh = Inr (r', ref, bytes, block)"
  shows "validate_terminal_completion (sx_sha (xe_service env)) (rs_task_id r)
    (verdict_payload (rs_task_id r) r' block ref worker) (closed_payload r' ref cleanup) (Some bytes) = Inr ()"
proof -
  from assms(4) have w: "with_reconciled_cleanup r cleanup = Inr r'"
    and a: "result_artifact (xe_ellipsis env) (sx_sha (xe_service env)) fresh r' = Inr (ref, bytes)"
    and b: "verdict_block_from_task_result r' UNBOUND_RESULT_SCOPE = Inr block" by (simp_all add: finalize_bundle_Inr)
  note f = reconciled_fields [OF w assms(1)]
  from bundle_accepted [OF _ a assms(2) b derived_cleanup_allowed [OF assms(3)]] f show ?thesis by metis
qed

theorem terminal_bundle_is_accepted_witness:
  "\<exists>sv got ref bytes block. demo_active = (sv, got)
     \<and> validate_terminal_completion demo_digest demo_task_id (verdict_payload demo_task_id demo_pass block ref False)
         (closed_payload demo_pass ref ''not_needed'') (Some bytes) = Inr ()"
proof -
  let ?env = "demo_exec_env\<lparr>xe_service := demo_env\<rparr>"
  obtain sv got where s: "demo_active = (sv, got)" by (cases demo_active)
  have ok: "result_ok demo_pass" by (simp add: demo_pass_def result_ok_def task_succeeded_def)
  have id: "rs_task_id demo_pass = demo_task_id" by (simp add: demo_pass_def)
  have d: "derive_terminal_truth (xe_service ?env) sv (rs_task_id demo_pass) 0 (xe_tools ?env) = Some (Inr (''not_needed'', []))"
    using demo_derived(1) [OF s] by (simp add: id demo_exec_env_def)
  have "project_candidate demo_task_id True [] = Inr None" "project_check_failure CHR ''.'' [] = Inr None"
    by (simp_all add: project_candidate_def project_check_failure_def read_check_failure_def py_get_def
      candidate_actions_def)
  then obtain ref bytes where a: "result_artifact (xe_ellipsis ?env) (sx_sha demo_env) ''id'' demo_pass = Inr (ref, bytes)"
    by (simp add: result_artifact_def retained_bytes_def demo_pass_def demo_exec_env_def task_succeeded_def)
  have "returns (\<lambda>_. True) (verdict_block_from_task_result demo_pass UNBOUND_RESULT_SCOPE)" by code_simp
  then obtain block where "verdict_block_from_task_result demo_pass UNBOUND_RESULT_SCOPE = Inr block" by (auto elim!: returnsE)
  with a have b: "finalize_bundle ?env demo_pass ''not_needed'' ''id'' = Inr (demo_pass, ref, bytes, block)"
    by (simp add: finalize_bundle_Inr with_reconciled_cleanup_def RECONCILED_CLEANUP_def)
  from terminal_bundle_is_accepted [OF ok _ d b, of False] s show ?thesis by (auto simp: id demo_env_def)
qed

end
