(* ===== verification/Text_Bytes.thy ===== *)
theory Text_Bytes
  imports Terminal_Completion
begin

text \<open>
  Texts as stored bytes: UTF-8, the canonical bytes of a JSON value that several modules hash
  (\<open>json.dumps(value, sort_keys=True, separators=(",", ":"), ensure_ascii=False)\<close> encoded), and the
  proof that these bytes identify the value up to the order of its keys.
\<close>

definition nonempty_text :: "string \<Rightarrow> bool" where
  \<comment> \<open>\<open>value.strip()\<close> is not empty\<close>
  "nonempty_text s \<longleftrightarrow> py_strip s \<noteq> []"

definition utf8 :: "string \<Rightarrow> string" where
  \<comment> \<open>\<open>text.encode("utf-8")\<close>, a byte as a character\<close>
  "utf8 s = concat (map (\<lambda>c. if code c < 128 then [c]
                            else [char_of (192 + code c div 64), char_of (128 + code c mod 64)]) s)"

definition canonical_bytes :: "pyval \<Rightarrow> string" where
  "canonical_bytes v = utf8 (json_text raw_style v)"

lemma utf8_read: "utf8_decode (utf8 s) = Inr s"
proof (induction s)
  case (Cons c s)
  define hi lo where "hi = code c div 64" and "lo = code c mod 64"
  have b: "hi < 4" "lo < 64" using code_less [of c] by (simp_all add: hi_def lo_def less_mult_imp_div_less)
  then have codes: "code (char_of (192 + hi)) = 192 + hi" "code (char_of (128 + lo)) = 128 + lo"
    by (simp_all add: code_def of_char_of take_bit_eq_mod)
  have two: "2 \<le> hi" if "\<not> code c < 128" using that by (simp add: hi_def)
  have whole: "hi * 64 + lo = code c" by (simp add: hi_def lo_def)
  show ?case
    using Cons b codes two whole by (auto simp: utf8_def hi_def [symmetric] lo_def [symmetric])
qed (simp add: utf8_def)

lemma utf8_inj: "utf8 s = utf8 t \<Longrightarrow> s = t"
  by (metis utf8_read Inr_inject)

lemma canonical_bytes_inj:
  assumes "keys_distinct v" "keys_distinct w" "canonical_bytes v = canonical_bytes w"
  shows "styled True v = styled True w"
proof -
  from assms(3) have "json_text raw_style v = json_text raw_style w"
    by (auto simp: canonical_bytes_def dest: utf8_inj)
  with raw_writer.text_round_trip [OF assms(1)] raw_writer.text_round_trip [OF assms(2)] show ?thesis
    by (simp add: raw_style_def)
qed

lemma styled_lookup:
  assumes "distinct (map fst d)"
  shows "map_of (map (styled_pair b) (arranged b d)) k = map_option (styled b) (map_of d k)"
proof -
  have "map_of (map (styled_pair b) ds) k = map_option (styled b) (map_of ds k)" for ds
    by (induction ds) (auto simp: styled_pair_def)
  moreover have "map_of (arranged b d) = map_of d"
    using assms by (simp add: map_of_inject_set)
  ultimately show ?thesis by simp
qed

end
