(* ===== verification/Watch_Jobs.thy ===== *)
theory Watch_Jobs
  imports Text_Bytes
begin

text \<open>
  Fixed watch jobs (\<open>watch/jobs.py\<close>) and comparable attempts (\<open>watch/delta.py\<close>): the validated
  configuration of a job, the procedure text its revision hashes, the validated summary of one
  run and the delta between two runs.  SHA-256 is the parameter \<open>sha\<close>.  A validated job and a
  validated attempt are the values their constructors return.
\<close>

section \<open>Texts\<close>

definition unique_text :: "string list \<Rightarrow> string list py" where
  "unique_text vs =
     py_check (list_ex (\<lambda>v. \<not> nonempty_text v) vs) ValueError (
     py_check (\<not> distinct vs) ValueError (
     Inr (sort vs)))"

definition env_name :: "string \<Rightarrow> bool" where
  \<comment> \<open>the whole text matches \<open>[A-Za-z_][A-Za-z0-9_]*\<close>\<close>
  "env_name s =
     (let letter = (\<lambda>c. let n = code c in (65 \<le> n \<and> n \<le> 90) \<or> (97 \<le> n \<and> n \<le> 122) \<or> c = CHR ''_'') in
      case s of [] \<Rightarrow> False
      | c # cs \<Rightarrow> letter c \<and> list_all (\<lambda>d. letter d \<or> (48 \<le> code d \<and> code d \<le> 57)) cs)"

section \<open>Jobs\<close>

definition DELTA_SCHEMA_V1 :: string where
  "DELTA_SCHEMA_V1 = ''lca.watch.delta/1''"

datatype source_selection = LOCAL_REF | FIXED_ROOT

definition source_selection_value :: "source_selection \<Rightarrow> string" where
  [fact_simps]: "source_selection_value s = (case s of LOCAL_REF \<Rightarrow> ''local_ref'' | FIXED_ROOT \<Rightarrow> ''fixed_root'')"

datatype dirty_tree_policy = REFUSE | ALLOW_READONLY

definition dirty_tree_policy_value :: "dirty_tree_policy \<Rightarrow> string" where
  [fact_simps]: "dirty_tree_policy_value p = (case p of REFUSE \<Rightarrow> ''refuse'' | ALLOW_READONLY \<Rightarrow> ''allow_readonly'')"

definition source_selection_of :: "string \<Rightarrow> source_selection py" where
  \<comment> \<open>\<open>SourceSelection(text)\<close>\<close>
  "source_selection_of = enum_of source_selection_value [LOCAL_REF, FIXED_ROOT]"

definition dirty_tree_policy_of :: "string \<Rightarrow> dirty_tree_policy py" where
  \<comment> \<open>\<open>DirtyTreePolicy(text)\<close>\<close>
  "dirty_tree_policy_of = enum_of dirty_tree_policy_value [REFUSE, ALLOW_READONLY]"

text \<open>The fields, with the two enumerations as texts in the arguments of the constructor.\<close>

record ('s, 'd) watch_fields =
  fj_id :: string
  fj_name :: string
  fj_repository :: string
  fj_host :: string
  fj_selection :: 's
  fj_selector :: string
  fj_dirty :: 'd
  fj_profile :: string
  fj_environment :: "string list"
  fj_contract :: string
  fj_scope :: "string list"
  fj_timeout :: int
  fj_skill :: "string option"
  fj_endpoint :: "string option"
  fj_schema :: string

type_synonym job_args = "(string, string) watch_fields"
type_synonym fixed_watch_job = "(source_selection, dirty_tree_policy) watch_fields"

definition mk_watch_job :: "job_args \<Rightarrow> fixed_watch_job py" where
  "mk_watch_job a =
     py_check (\<not> uuid_ok (fj_id a)) ValueError (
     py_check (\<not> nonempty_text (fj_name a)) ValueError (
     py_check (list_ex (\<lambda>v. \<not> nonempty_text v)
                 [fj_repository a, fj_host a, fj_selector a, fj_profile a, fj_schema a]) ValueError (
     py_check (fj_timeout a < 1) ValueError (
     py_bind (source_selection_of (fj_selection a)) (\<lambda>sel.
     py_bind (dirty_tree_policy_of (fj_dirty a)) (\<lambda>dirty.
     py_bind (unique_text (fj_environment a)) (\<lambda>env.
     py_check (list_ex (\<lambda>v. \<not> env_name v) env) ValueError (
     py_bind (unique_text (fj_scope a)) (\<lambda>scope.
     py_check (\<not> sha256_hex (fj_contract a)) ValueError (
     py_check (case fj_skill a of None \<Rightarrow> False | Some h \<Rightarrow> \<not> sha256_hex h) ValueError (
     py_check (case fj_endpoint a of None \<Rightarrow> False | Some e \<Rightarrow> \<not> nonempty_text e) ValueError (
     Inr \<lparr>fj_id = fj_id a, fj_name = fj_name a, fj_repository = fj_repository a, fj_host = fj_host a,
          fj_selection = sel, fj_selector = fj_selector a, fj_dirty = dirty, fj_profile = fj_profile a,
          fj_environment = env, fj_contract = fj_contract a, fj_scope = scope, fj_timeout = fj_timeout a,
          fj_skill = fj_skill a, fj_endpoint = fj_endpoint a, fj_schema = fj_schema a\<rparr>))))))))))))"

definition text_or_none :: "string option \<Rightarrow> pyval" where
  "text_or_none x = (case x of None \<Rightarrow> PNone | Some s \<Rightarrow> PStr s)"

definition text_list :: "string list \<Rightarrow> pyval" where
  "text_list xs = PList (map PStr xs)"

definition revision_payload :: "fixed_watch_job \<Rightarrow> pydict" where
  "revision_payload j =
     [(''command_profile'', PStr (fj_profile j)), (''delta_schema_version'', PStr (fj_schema j)),
      (''dirty_tree_policy'', PStr (dirty_tree_policy_value (fj_dirty j))),
      (''endpoint_policy'', text_or_none (fj_endpoint j)),
      (''environment_allowlist'', text_list (fj_environment j)),
      (''repository_host'', PStr (fj_host j)), (''repository_id'', PStr (fj_repository j)),
      (''scope'', text_list (fj_scope j)), (''skill_contract_sha256'', text_or_none (fj_skill j)),
      (''source_selection'', PStr (source_selection_value (fj_selection j))),
      (''source_selector'', PStr (fj_selector j)), (''timeout_seconds'', PInt (fj_timeout j)),
      (''verification_contract_sha256'', PStr (fj_contract j))]"

definition revision_sha256 :: "(string \<Rightarrow> string) \<Rightarrow> fixed_watch_job \<Rightarrow> string" where
  "revision_sha256 sha j = sha (canonical_bytes (PDict (revision_payload j)))"

section \<open>Attempts\<close>

record watch_attempt =
  wa_run :: string
  wa_job :: string
  wa_revision :: string
  wa_contract :: string
  wa_schema :: string
  wa_head :: string
  wa_digest :: string
  wa_complete :: bool
  wa_observations :: "(string \<times> string) list"

definition checked_observations :: "(string \<times> string) list \<Rightarrow> (string \<times> string) list py" where
  \<comment> \<open>keys are unique at the end, so sorting the pairs sorts them by key\<close>
  "checked_observations obs =
     py_check (list_ex (\<lambda>kv. \<not> nonempty_text (fst kv)) obs) ValueError (
     py_check (\<not> distinct (map fst obs)) ValueError (
     Inr (sort_key fst obs)))"

definition mk_watch_attempt :: "watch_attempt \<Rightarrow> watch_attempt py" where
  "mk_watch_attempt a =
     py_check (\<not> uuid_ok (wa_run a) \<or> \<not> uuid_ok (wa_job a)) ValueError (
     py_check (list_ex (\<lambda>h. \<not> sha256_hex h) [wa_revision a, wa_contract a, wa_digest a]) ValueError (
     py_check (list_ex (\<lambda>v. \<not> nonempty_text v) [wa_schema a, wa_head a]) ValueError (
     py_bind (checked_observations (wa_observations a)) (\<lambda>obs.
     Inr (a\<lparr>wa_observations := obs\<rparr>)))))"

section \<open>Deltas\<close>

datatype comparison_status = COMPARABLE | INCOMPARABLE

record observation_change =
  oc_key :: string
  oc_before :: string
  oc_after :: string

record watch_delta =
  wd_status :: comparison_status
  wd_reasons :: "string list"
  wd_added :: "string list"
  wd_removed :: "string list"
  wd_changed :: "observation_change list"
  wd_unchanged :: int

definition mk_watch_delta :: "watch_delta \<Rightarrow> watch_delta py" where
  "mk_watch_delta d =
     py_check (wd_status d = INCOMPARABLE \<and> wd_reasons d = []) ValueError (
     py_check (wd_status d = INCOMPARABLE \<and>
                 (wd_added d \<noteq> [] \<or> wd_removed d \<noteq> [] \<or> wd_changed d \<noteq> [] \<or> wd_unchanged d \<noteq> 0)) ValueError (
     py_check (wd_status d = COMPARABLE \<and> wd_reasons d \<noteq> []) ValueError (
     py_check (wd_unchanged d < 0) ValueError (
     Inr d))))"

definition observed :: "watch_attempt \<Rightarrow> string \<Rightarrow> string option" where
  \<comment> \<open>\<open>dict(attempt.observations)\<close>\<close>
  "observed a = map_of (rev (wa_observations a))"

definition observed_keys :: "watch_attempt \<Rightarrow> string list" where
  \<comment> \<open>the keys of that dictionary, in order\<close>
  "observed_keys a = sort (remdups (map fst (wa_observations a)))"

definition incomparable_reasons :: "watch_attempt \<Rightarrow> watch_attempt \<Rightarrow> string list" where
  "incomparable_reasons p c =
     (if wa_run p = wa_run c then [''same_run''] else [])
     @ (if wa_job p \<noteq> wa_job c then [''job_id_changed''] else [])
     @ (if wa_revision p \<noteq> wa_revision c then [''job_revision_changed''] else [])
     @ (if wa_contract p \<noteq> wa_contract c then [''execution_contract_changed''] else [])
     @ (if wa_schema p \<noteq> wa_schema c then [''result_schema_changed''] else [])
     @ (if \<not> wa_complete p \<or> \<not> wa_complete c then [''attempt_incomplete''] else [])"

definition compare_attempts :: "watch_attempt \<Rightarrow> watch_attempt \<Rightarrow> watch_delta py" where
  "compare_attempts p c =
     (if incomparable_reasons p c \<noteq> [] then
        mk_watch_delta \<lparr>wd_status = INCOMPARABLE, wd_reasons = incomparable_reasons p c, wd_added = [],
          wd_removed = [], wd_changed = [], wd_unchanged = 0\<rparr>
      else
        let before = observed p; after = observed c;
            shared = filter (\<lambda>k. k \<in> set (observed_keys c)) (observed_keys p)
        in mk_watch_delta \<lparr>wd_status = COMPARABLE, wd_reasons = [],
             wd_added = filter (\<lambda>k. k \<notin> set (observed_keys p)) (observed_keys c),
             wd_removed = filter (\<lambda>k. k \<notin> set (observed_keys c)) (observed_keys p),
             wd_changed = map (\<lambda>k. \<lparr>oc_key = k, oc_before = the (before k), oc_after = the (after k)\<rparr>)
                            (filter (\<lambda>k. before k \<noteq> after k) shared),
             wd_unchanged = int (length (filter (\<lambda>k. before k = after k) shared))\<rparr>)"

section \<open>What the constructors accept\<close>

definition job_ok :: "fixed_watch_job \<Rightarrow> bool" where
  "job_ok j \<longleftrightarrow> uuid_ok (fj_id j) \<and> nonempty_text (fj_name j)
     \<and> list_all nonempty_text [fj_repository j, fj_host j, fj_selector j, fj_profile j, fj_schema j]
     \<and> 1 \<le> fj_timeout j
     \<and> sorted (fj_environment j) \<and> distinct (fj_environment j) \<and> list_all env_name (fj_environment j)
     \<and> sorted (fj_scope j) \<and> distinct (fj_scope j) \<and> list_all nonempty_text (fj_scope j)
     \<and> sha256_hex (fj_contract j) \<and> pred_option sha256_hex (fj_skill j) \<and> pred_option nonempty_text (fj_endpoint j)"

definition args_of :: "fixed_watch_job \<Rightarrow> job_args" where
  "args_of j = \<lparr>fj_id = fj_id j, fj_name = fj_name j, fj_repository = fj_repository j, fj_host = fj_host j,
     fj_selection = source_selection_value (fj_selection j), fj_selector = fj_selector j,
     fj_dirty = dirty_tree_policy_value (fj_dirty j), fj_profile = fj_profile j,
     fj_environment = fj_environment j, fj_contract = fj_contract j, fj_scope = fj_scope j,
     fj_timeout = fj_timeout j, fj_skill = fj_skill j, fj_endpoint = fj_endpoint j, fj_schema = fj_schema j\<rparr>"

lemma unique_text_Inr:
  "unique_text vs = Inr ws \<longleftrightarrow> ws = sort vs \<and> distinct vs \<and> list_all nonempty_text vs"
  by (auto simp: unique_text_def list_ex_iff list_all_iff)

lemma list_all_sort: "list_all P (sort xs) = list_all P xs"
  by (simp add: list_all_iff)

lemma list_ex_not: "list_ex (\<lambda>x. \<not> P x) xs \<longleftrightarrow> \<not> list_all P xs"
  by (simp add: list_all_iff list_ex_iff)

lemma env_name_nonempty: "env_name s \<Longrightarrow> nonempty_text s"
proof -
  assume e: "env_name s"
  then obtain c cs where s: "s = c # cs" by (auto simp: env_name_def Let_def split: list.splits)
  with e have "\<not> is_ws c" by (auto simp: env_name_def is_ws_def Let_def code_def)
  with s show "nonempty_text s"
    by (auto simp: nonempty_text_def py_strip_def dropWhile_eq_Nil_conv)
qed

lemma source_selection_value_of [simp]: "source_selection_of (source_selection_value s) = Inr s"
  by (cases s) (simp_all add: source_selection_of_def enum_of_def fact_simps)

lemma dirty_tree_policy_value_of [simp]: "dirty_tree_policy_of (dirty_tree_policy_value p) = Inr p"
  by (cases p) (simp_all add: dirty_tree_policy_of_def enum_of_def fact_simps)

lemma pred_option_check: "(case x of None \<Rightarrow> False | Some y \<Rightarrow> \<not> P y) \<longleftrightarrow> \<not> pred_option P x"
  by (cases x) simp_all

lemma mk_watch_job_ok: "mk_watch_job a = Inr j \<Longrightarrow> job_ok j"
  by (auto simp: mk_watch_job_def job_ok_def py_bind_Inr_iff unique_text_Inr list_ex_not list_all_sort
      pred_option_check)

lemma mk_watch_job_again: "job_ok j \<Longrightarrow> mk_watch_job (args_of j) = Inr j"
proof -
  assume ok: "job_ok j"
  have env: "unique_text (fj_environment j) = Inr (fj_environment j)"
    using ok by (auto simp: job_ok_def unique_text_Inr sorted_sort_id list_all_iff intro: env_name_nonempty)
  have scope: "unique_text (fj_scope j) = Inr (fj_scope j)"
    using ok by (auto simp: job_ok_def unique_text_Inr sorted_sort_id)
  from ok env scope show ?thesis
    by (simp add: mk_watch_job_def args_of_def job_ok_def list_ex_not pred_option_check)
qed

lemma checked_observations_Inr:
  "checked_observations obs = Inr out \<longleftrightarrow>
     out = sort_key fst obs \<and> distinct (map fst obs) \<and> list_all (\<lambda>kv. nonempty_text (fst kv)) obs"
  by (auto simp: checked_observations_def list_ex_iff list_all_iff)

definition attempt_ok :: "watch_attempt \<Rightarrow> bool" where
  "attempt_ok a \<longleftrightarrow> uuid_ok (wa_run a) \<and> uuid_ok (wa_job a)
     \<and> list_all sha256_hex [wa_revision a, wa_contract a, wa_digest a]
     \<and> list_all nonempty_text [wa_schema a, wa_head a]
     \<and> sorted (map fst (wa_observations a)) \<and> distinct (map fst (wa_observations a))
     \<and> list_all (\<lambda>kv. nonempty_text (fst kv)) (wa_observations a)"

lemma mk_watch_attempt_ok: "mk_watch_attempt a = Inr b \<Longrightarrow> attempt_ok b"
  by (auto simp: mk_watch_attempt_def attempt_ok_def py_bind_Inr_iff checked_observations_Inr list_ex_not
      distinct_map list_all_iff)

lemma mk_watch_attempt_again: "attempt_ok a \<Longrightarrow> mk_watch_attempt a = Inr a"
proof -
  assume ok: "attempt_ok a"
  then have "sort_key fst (wa_observations a) = wa_observations a"
    by (simp add: attempt_ok_def sort_key_id_if_sorted)
  with ok show ?thesis
    by (simp add: mk_watch_attempt_def attempt_ok_def list_ex_not checked_observations_def)
qed

section \<open>The revision text identifies the procedure\<close>

lemma styled_text_list [simp]: "styled b (text_list xs) = text_list xs"
  by (simp add: text_list_def)

lemma styled_text_or_none [simp]: "styled b (text_or_none x) = text_or_none x"
  by (cases x) (simp_all add: text_or_none_def)

lemma text_list_eq [simp]: "text_list xs = text_list ys \<longleftrightarrow> xs = ys"
  by (simp add: text_list_def inj_map_eq_map inj_def)

lemma text_or_none_eq [simp]: "text_or_none x = text_or_none y \<longleftrightarrow> x = y"
  by (cases x; cases y) (simp_all add: text_or_none_def)

lemma keys_distinct_texts [simp]: "keys_distinct (text_list xs)" "keys_distinct (text_or_none x)"
  by (auto simp: text_list_def text_or_none_def split: option.splits)

lemma revision_keys: "distinct (map fst (revision_payload j))" "keys_distinct (PDict (revision_payload j))"
  by (simp_all add: revision_payload_def)

lemma source_selection_value_eq: "source_selection_value s = source_selection_value t \<longleftrightarrow> s = t"
  by (cases s; cases t) (simp_all add: fact_simps)

lemma dirty_tree_policy_value_eq: "dirty_tree_policy_value s = dirty_tree_policy_value t \<longleftrightarrow> s = t"
  by (cases s; cases t) (simp_all add: fact_simps)

lemma revision_text_fields:
  assumes "canonical_bytes (PDict (revision_payload j)) = canonical_bytes (PDict (revision_payload k))"
  shows "k = j\<lparr>fj_id := fj_id k, fj_name := fj_name k\<rparr>"
proof -
  have "styled True (PDict (revision_payload j)) = styled True (PDict (revision_payload k))"
    by (intro canonical_bytes_inj revision_keys assms)
  then have "map_option (styled True) (map_of (revision_payload j) x)
      = map_option (styled True) (map_of (revision_payload k) x)" for x
    unfolding styled_dict pyval.inject
    using styled_lookup [OF revision_keys(1), of True j x] styled_lookup [OF revision_keys(1), of True k x] by simp
  note field = this [unfolded revision_payload_def]
  have "fj_profile j = fj_profile k" using field [of "''command_profile''"] by simp
  moreover have "fj_schema j = fj_schema k" using field [of "''delta_schema_version''"] by simp
  moreover have "fj_dirty j = fj_dirty k"
    using field [of "''dirty_tree_policy''"] by (simp add: dirty_tree_policy_value_eq)
  moreover have "fj_endpoint j = fj_endpoint k" using field [of "''endpoint_policy''"] by simp
  moreover have "fj_environment j = fj_environment k" using field [of "''environment_allowlist''"] by simp
  moreover have "fj_host j = fj_host k" using field [of "''repository_host''"] by simp
  moreover have "fj_repository j = fj_repository k" using field [of "''repository_id''"] by simp
  moreover have "fj_scope j = fj_scope k" using field [of "''scope''"] by simp
  moreover have "fj_skill j = fj_skill k" using field [of "''skill_contract_sha256''"] by simp
  moreover have "fj_selection j = fj_selection k"
    using field [of "''source_selection''"] by (simp add: source_selection_value_eq)
  moreover have "fj_selector j = fj_selector k" using field [of "''source_selector''"] by simp
  moreover have "fj_timeout j = fj_timeout k" using field [of "''timeout_seconds''"] by simp
  moreover have "fj_contract j = fj_contract k" using field [of "''verification_contract_sha256''"] by simp
  ultimately show ?thesis by (cases j; cases k) simp
qed

section \<open>Deltas account for every key\<close>

definition apply_delta :: "watch_delta \<Rightarrow> (string \<rightharpoonup> string) \<Rightarrow> (string \<rightharpoonup> string)" where
  \<comment> \<open>the earlier observations with the removed keys dropped and the changed ones updated\<close>
  "apply_delta d m =
     (m |` (- set (wd_removed d))) ++ map_of (map (\<lambda>c. (oc_key c, oc_after c)) (wd_changed d))"

lemma delta_returns:
  "\<exists>d. compare_attempts p c = Inr d \<and> (wd_status d = COMPARABLE \<longleftrightarrow> incomparable_reasons p c = [])"
  by (auto simp: compare_attempts_def mk_watch_delta_def Let_def)

lemma observed_ok: "attempt_ok a \<Longrightarrow> observed a = map_of (wa_observations a)"
  by (simp add: observed_def attempt_ok_def map_of_inject_set rev_map [symmetric])

lemma observed_keys_ok: "attempt_ok a \<Longrightarrow> observed_keys a = map fst (wa_observations a)"
  by (simp add: observed_keys_def attempt_ok_def distinct_remdups_id sorted_sort_id)

lemma filter_partition: "length (filter P xs) + length (filter (\<lambda>x. \<not> P x) xs) = length xs"
  by (induction xs) auto

lemma shared_length:
  assumes "distinct xs" "distinct ys"
  shows "length (filter (\<lambda>k. k \<in> set ys) xs) = length (filter (\<lambda>k. k \<in> set xs) ys)"
proof -
  have "length (filter (\<lambda>k. k \<in> set ys) xs) = card (set xs \<inter> set ys)" if d: "distinct xs" for xs ys :: "'a list"
  proof -
    have "set (filter (\<lambda>k. k \<in> set ys) xs) = set xs \<inter> set ys" by auto
    with distinct_card [OF distinct_filter [OF d]] show ?thesis by metis
  qed
  from this [OF assms(1)] this [OF assms(2)] show ?thesis by (simp add: inf_commute)
qed

lemma delta_counts:
  assumes p: "attempt_ok p" and c: "attempt_ok c" and d: "compare_attempts p c = Inr d" "wd_status d = COMPARABLE"
  shows "length (wa_observations c) = length (wd_added d) + length (wd_changed d) + nat (wd_unchanged d)"
    and "length (wa_observations p) = length (wd_removed d) + length (wd_changed d) + nat (wd_unchanged d)"
proof -
  let ?P = "observed_keys p" and ?C = "observed_keys c"
  let ?shared = "filter (\<lambda>k. k \<in> set ?C) ?P"
  have dist: "distinct ?P" "distinct ?C" by (simp_all add: observed_keys_def)
  have len: "length ?P = length (wa_observations p)" "length ?C = length (wa_observations c)"
    using p c by (simp_all add: observed_keys_ok)
  have parts: "length (wd_changed d) + nat (wd_unchanged d) = length ?shared"
    "wd_added d = filter (\<lambda>k. k \<notin> set ?P) ?C" "wd_removed d = filter (\<lambda>k. k \<notin> set ?C) ?P"
    using d filter_partition [of "\<lambda>k. observed p k = observed c k" ?shared]
    by (auto simp: compare_attempts_def mk_watch_delta_def Let_def split: if_splits)
  from parts shared_length [OF dist] filter_partition [of "\<lambda>k. k \<in> set ?P" ?C]
    filter_partition [of "\<lambda>k. k \<in> set ?C" ?P] len
  show "length (wa_observations c) = length (wd_added d) + length (wd_changed d) + nat (wd_unchanged d)"
    "length (wa_observations p) = length (wd_removed d) + length (wd_changed d) + nat (wd_unchanged d)"
    by simp_all
qed

lemma map_of_keyed: "map_of (map (\<lambda>k. (k, f k)) ks) k = (if k \<in> set ks then Some (f k) else None)"
  by (induction ks) auto

lemma observed_dom: "dom (observed a) = set (observed_keys a)"
  by (auto simp: observed_def observed_keys_def dom_map_of_conv_image_fst)

lemma delta_replays:
  assumes "compare_attempts p c = Inr d" "wd_status d = COMPARABLE" "k \<notin> set (wd_added d)"
  shows "apply_delta d (observed p) k = observed c k"
proof -
  let ?ks = "filter (\<lambda>k. observed p k \<noteq> observed c k) (filter (\<lambda>k. k \<in> set (observed_keys c)) (observed_keys p))"
  have d: "wd_added d = filter (\<lambda>k. k \<notin> set (observed_keys p)) (observed_keys c)"
    "wd_removed d = filter (\<lambda>k. k \<notin> set (observed_keys c)) (observed_keys p)"
    "map_of (map (\<lambda>c. (oc_key c, oc_after c)) (wd_changed d)) = map_of (map (\<lambda>k. (k, the (observed c k))) ?ks)"
    using assms(1,2) by (auto simp: compare_attempts_def mk_watch_delta_def Let_def comp_def split: if_splits)
  have key: "k' \<in> set (observed_keys a) \<longleftrightarrow> observed a k' \<noteq> None" for a k'
    using observed_dom [of a] by auto
  from assms(3) show ?thesis
    unfolding apply_delta_def d map_add_def map_of_keyed restrict_map_def
    by (auto simp: key split: option.splits)
qed

end
