(* ===== verification/Watch_Stores.thy ===== *)
theory Watch_Stores
  imports Watch_Jobs
begin

text \<open>
  The two durable stores of watch jobs: the current configuration with its append-only version
  history (\<open>watch/job_store.py\<close>) and the append-only ledger of attempts
  (\<open>watch/watch_run_store.py\<close>).  A SQLite file is a record of tables, a transaction either returns the
  next tables or raises and leaves them; each public call is a sequence of such transactions, so
  the record read by \<open>require\<close> reaches \<open>_replace\<close> as an argument that may be stale.
\<close>

section \<open>Rows as JSON text\<close>

definition job_payload :: "fixed_watch_job \<Rightarrow> pydict" where
  "job_payload j =
     [(''job_id'', PStr (fj_id j)), (''display_name'', PStr (fj_name j)), (''repository_id'', PStr (fj_repository j)),
      (''repository_host'', PStr (fj_host j)),
      (''source_selection'', PStr (source_selection_value (fj_selection j))),
      (''source_selector'', PStr (fj_selector j)),
      (''dirty_tree_policy'', PStr (dirty_tree_policy_value (fj_dirty j))),
      (''command_profile'', PStr (fj_profile j)), (''environment_allowlist'', text_list (fj_environment j)),
      (''verification_contract_sha256'', PStr (fj_contract j)), (''scope'', text_list (fj_scope j)),
      (''timeout_seconds'', PInt (fj_timeout j)), (''skill_contract_sha256'', text_or_none (fj_skill j)),
      (''endpoint_policy'', text_or_none (fj_endpoint j)), (''delta_schema_version'', PStr (fj_schema j))]"

definition encoded_job :: "fixed_watch_job \<Rightarrow> string" where
  "encoded_job j = json_text raw_style (PDict (job_payload j))"

definition str_at :: "pyval \<Rightarrow> string \<Rightarrow> string py" where
  \<comment> \<open>\<open>str(raw[key])\<close>\<close>
  "str_at raw k = py_bind (py_item raw k) (\<lambda>v. Inr (py_str v))"

definition py_iter :: "pyval \<Rightarrow> pyval list py" where
  \<comment> \<open>\<open>iter(v)\<close>\<close>
  "py_iter v =
     (case v of PList xs \<Rightarrow> Inr xs | PStr s \<Rightarrow> Inr (map (\<lambda>c. PStr [c]) s)
      | PDict d \<Rightarrow> Inr (map (\<lambda>kv. PStr (fst kv)) d) | _ \<Rightarrow> Inl TypeError)"

definition strs_at :: "pyval \<Rightarrow> string \<Rightarrow> string list py" where
  \<comment> \<open>\<open>tuple(str(value) for value in raw[key])\<close>\<close>
  "strs_at raw k = py_bind (py_item raw k) (\<lambda>v. py_bind (py_iter v) (\<lambda>xs. Inr (map py_str xs)))"

definition opt_str_at :: "pydict \<Rightarrow> string \<Rightarrow> string option" where
  \<comment> \<open>\<open>None if raw.get(key) is None else str(raw[key])\<close>\<close>
  "opt_str_at d k = (case py_get d k of PNone \<Rightarrow> None | v \<Rightarrow> Some (py_str v))"

definition decode_job :: "string \<Rightarrow> fixed_watch_job py" where
  "decode_job s =
     py_bind (json_loads s) (\<lambda>raw.
     case raw of
       PDict d \<Rightarrow>
         py_bind (str_at raw ''job_id'') (\<lambda>job.
         py_bind (str_at raw ''display_name'') (\<lambda>name.
         py_bind (str_at raw ''repository_id'') (\<lambda>repo.
         py_bind (str_at raw ''repository_host'') (\<lambda>host.
         py_bind (str_at raw ''source_selection'') (\<lambda>sel.
         py_bind (str_at raw ''source_selector'') (\<lambda>selector.
         py_bind (str_at raw ''dirty_tree_policy'') (\<lambda>dirty.
         py_bind (str_at raw ''command_profile'') (\<lambda>profile.
         py_bind (strs_at raw ''environment_allowlist'') (\<lambda>env.
         py_bind (str_at raw ''verification_contract_sha256'') (\<lambda>contract.
         py_bind (strs_at raw ''scope'') (\<lambda>scope.
         py_bind (py_item raw ''timeout_seconds'') (\<lambda>t.
         py_bind (py_int t) (\<lambda>timeout.
         py_bind (str_at raw ''delta_schema_version'') (\<lambda>schema.
         mk_watch_job
           \<lparr>fj_id = job, fj_name = name, fj_repository = repo, fj_host = host, fj_selection = sel,
            fj_selector = selector, fj_dirty = dirty, fj_profile = profile, fj_environment = env,
            fj_contract = contract, fj_scope = scope, fj_timeout = timeout,
            fj_skill = opt_str_at d ''skill_contract_sha256'', fj_endpoint = opt_str_at d ''endpoint_policy'',
            fj_schema = schema\<rparr>))))))))))))))
     | _ \<Rightarrow> Inl ValueError)"

definition attempt_payload :: "watch_attempt \<Rightarrow> pydict" where
  "attempt_payload a =
     [(''run_id'', PStr (wa_run a)), (''job_id'', PStr (wa_job a)), (''job_revision'', PStr (wa_revision a)),
      (''execution_contract_sha256'', PStr (wa_contract a)), (''result_schema'', PStr (wa_schema a)),
      (''source_head'', PStr (wa_head a)), (''source_digest'', PStr (wa_digest a)),
      (''complete'', PBool (wa_complete a)),
      (''observations'', PList (map (\<lambda>kv. PList [PStr (fst kv), PStr (snd kv)]) (wa_observations a)))]"

definition encoded_attempt :: "watch_attempt \<Rightarrow> string" where
  "encoded_attempt a = json_text raw_style (PDict (attempt_payload a))"

definition py_index :: "pyval \<Rightarrow> nat \<Rightarrow> pyval py" where
  \<comment> \<open>\<open>v[n]\<close> for a number; the keys of a JSON object are texts\<close>
  "py_index v n =
     (case v of
        PList xs \<Rightarrow> if n < length xs then Inr (xs ! n) else Inl IndexError
      | PStr s \<Rightarrow> if n < length s then Inr (PStr [s ! n]) else Inl IndexError
      | PDict d \<Rightarrow> Inl KeyError
      | _ \<Rightarrow> Inl TypeError)"

fun observation_pairs :: "pyval list \<Rightarrow> (string \<times> string) list py" where
  "observation_pairs [] = Inr []"
| "observation_pairs (v # vs) =
     py_bind (py_index v 0) (\<lambda>k.
     py_bind (py_index v 1) (\<lambda>w.
     py_bind (observation_pairs vs) (\<lambda>rest. Inr ((py_str k, py_str w) # rest))))"

definition decode_attempt :: "string \<Rightarrow> watch_attempt py" where
  "decode_attempt s =
     py_bind (json_loads s) (\<lambda>raw.
     case raw of
       PDict d \<Rightarrow>
         (case py_get d ''observations'' of
            PList items \<Rightarrow>
              py_bind (str_at raw ''run_id'') (\<lambda>run.
              py_bind (str_at raw ''job_id'') (\<lambda>job.
              py_bind (str_at raw ''job_revision'') (\<lambda>revision.
              py_bind (str_at raw ''execution_contract_sha256'') (\<lambda>contract.
              py_bind (str_at raw ''result_schema'') (\<lambda>schema.
              py_bind (str_at raw ''source_head'') (\<lambda>head.
              py_bind (str_at raw ''source_digest'') (\<lambda>digest.
              py_bind (py_item raw ''complete'') (\<lambda>complete.
              py_bind (observation_pairs items) (\<lambda>obs.
              py_check (\<not> is_bool complete) ValueError (
              mk_watch_attempt
                \<lparr>wa_run = run, wa_job = job, wa_revision = revision, wa_contract = contract, wa_schema = schema,
                 wa_head = head, wa_digest = digest, wa_complete = the_bool complete, wa_observations = obs\<rparr>))))))))))
          | _ \<Rightarrow> Inl ValueError)
     | _ \<Rightarrow> Inl ValueError)"

section \<open>Configuration and its versions\<close>

record watch_job_row =
  jr_id :: string
  jr_version :: int
  jr_revision :: string
  jr_enabled :: bool
  jr_schedule :: "string option"
  jr_payload :: string

record watch_job_store =
  js_jobs :: "watch_job_row list"
  js_versions :: "watch_job_row list"

definition empty_job_store :: watch_job_store where
  "empty_job_store = \<lparr>js_jobs = [], js_versions = []\<rparr>"

record stored_watch_job =
  sj_job :: fixed_watch_job
  sj_version :: int
  sj_enabled :: bool
  sj_schedule :: "string option"

definition normalise_schedule :: "string option \<Rightarrow> string option py" where
  "normalise_schedule x =
     (case x of None \<Rightarrow> Inr None
      | Some s \<Rightarrow> py_check (\<not> nonempty_text s) ValueError (Inr (Some (py_strip s))))"

definition job_record :: "watch_job_row \<Rightarrow> stored_watch_job py" where
  "job_record r =
     py_bind (decode_job (jr_payload r)) (\<lambda>j.
       Inr \<lparr>sj_job = j, sj_version = jr_version r, sj_enabled = jr_enabled r, sj_schedule = jr_schedule r\<rparr>)"

definition job_row :: "(string \<Rightarrow> string) \<Rightarrow> fixed_watch_job \<Rightarrow> int \<Rightarrow> bool \<Rightarrow> string option \<Rightarrow> watch_job_row" where
  \<comment> \<open>the values of the INSERT and UPDATE statements\<close>
  "job_row sha j v en sched =
     \<lparr>jr_id = fj_id j, jr_version = v, jr_revision = revision_sha256 sha j, jr_enabled = en,
      jr_schedule = sched, jr_payload = encoded_job j\<rparr>"

definition current_row :: "watch_job_store \<Rightarrow> string \<Rightarrow> watch_job_row option" where
  "current_row st i = find (\<lambda>r. jr_id r = i) (js_jobs st)"

definition version_row :: "watch_job_store \<Rightarrow> string \<Rightarrow> int \<Rightarrow> watch_job_row option" where
  "version_row st i v = find (\<lambda>r. jr_id r = i \<and> jr_version r = v) (js_versions st)"

definition job_create ::
  "(string \<Rightarrow> string) \<Rightarrow> fixed_watch_job \<Rightarrow> bool \<Rightarrow> string option \<Rightarrow> watch_job_store
     \<Rightarrow> (stored_watch_job \<times> bool \<times> watch_job_store) py" where
  "job_create sha j en sched st =
     py_bind (normalise_schedule sched) (\<lambda>sched.
     case current_row st (fj_id j) of
       Some r \<Rightarrow>
         py_bind (job_record r) (\<lambda>old.
         py_check (encoded_job (sj_job old) \<noteq> encoded_job j \<or> sj_enabled old \<noteq> en \<or> sj_schedule old \<noteq> sched)
           WatchJobConflict (Inr (old, False, st)))
     | None \<Rightarrow>
         py_check (version_row st (fj_id j) 1 \<noteq> None) IntegrityError (
         let r = job_row sha j 1 en sched in
         Inr (\<lparr>sj_job = j, sj_version = 1, sj_enabled = en, sj_schedule = sched\<rparr>, True,
              st\<lparr>js_jobs := js_jobs st @ [r], js_versions := js_versions st @ [r]\<rparr>)))"

definition job_get :: "watch_job_store \<Rightarrow> string \<Rightarrow> stored_watch_job option py" where
  "job_get st i =
     (case current_row st i of None \<Rightarrow> Inr None | Some r \<Rightarrow> py_bind (job_record r) (Inr \<circ> Some))"

definition job_require :: "watch_job_store \<Rightarrow> string \<Rightarrow> stored_watch_job py" where
  "job_require st i =
     py_bind (job_get st i) (\<lambda>r. case r of None \<Rightarrow> Inl WatchJobNotFound | Some x \<Rightarrow> Inr x)"

definition job_replace ::
  "(string \<Rightarrow> string) \<Rightarrow> stored_watch_job \<Rightarrow> fixed_watch_job \<Rightarrow> bool \<Rightarrow> string option \<Rightarrow> int
     \<Rightarrow> watch_job_store \<Rightarrow> (stored_watch_job \<times> watch_job_store) py" where
  "job_replace sha cur j en sched expected st =
     py_check (expected \<noteq> sj_version cur) WatchJobConflict (
     if encoded_job j = encoded_job (sj_job cur) \<and> en = sj_enabled cur \<and> sched = sj_schedule cur
     then Inr (cur, st)
     else
       let v = sj_version cur + 1; r = job_row sha j v en sched;
           hit = (\<lambda>x. jr_id x = fj_id j \<and> jr_version x = expected)
       in py_check (length (filter hit (js_jobs st)) \<noteq> 1) WatchJobConflict (
          py_check (version_row st (fj_id j) v \<noteq> None) IntegrityError (
          Inr (\<lparr>sj_job = j, sj_version = v, sj_enabled = en, sj_schedule = sched\<rparr>,
               st\<lparr>js_jobs := map (\<lambda>x. if hit x then r else x) (js_jobs st), js_versions := js_versions st @ [r]\<rparr>))))"

definition job_update ::
  "(string \<Rightarrow> string) \<Rightarrow> fixed_watch_job \<Rightarrow> int \<Rightarrow> watch_job_store \<Rightarrow> (stored_watch_job \<times> watch_job_store) py" where
  "job_update sha j expected st =
     py_bind (job_require st (fj_id j)) (\<lambda>cur. job_replace sha cur j (sj_enabled cur) (sj_schedule cur) expected st)"

definition job_set_enabled ::
  "(string \<Rightarrow> string) \<Rightarrow> string \<Rightarrow> bool \<Rightarrow> int \<Rightarrow> watch_job_store \<Rightarrow> (stored_watch_job \<times> watch_job_store) py" where
  "job_set_enabled sha i en expected st =
     py_bind (job_require st i) (\<lambda>cur. job_replace sha cur (sj_job cur) en (sj_schedule cur) expected st)"

definition job_set_schedule ::
  "(string \<Rightarrow> string) \<Rightarrow> string \<Rightarrow> string option \<Rightarrow> int \<Rightarrow> watch_job_store
     \<Rightarrow> (stored_watch_job \<times> watch_job_store) py" where
  "job_set_schedule sha i sched expected st =
     py_bind (job_require st i) (\<lambda>cur.
     py_bind (normalise_schedule sched) (\<lambda>s. job_replace sha cur (sj_job cur) (sj_enabled cur) s expected st))"

fun job_records :: "watch_job_row list \<Rightarrow> stored_watch_job list py" where
  "job_records [] = Inr []"
| "job_records (r # rs) = py_bind (job_record r) (\<lambda>x. py_bind (job_records rs) (\<lambda>xs. Inr (x # xs)))"

definition list_jobs :: "watch_job_store \<Rightarrow> bool \<Rightarrow> stored_watch_job list py" where
  "list_jobs st only =
     job_records (sort_key jr_id (if only then filter jr_enabled (js_jobs st) else js_jobs st))"

definition job_version :: "watch_job_store \<Rightarrow> string \<Rightarrow> int \<Rightarrow> stored_watch_job option py" where
  "job_version st i v =
     py_check (v < 1) ValueError (
     case version_row st i v of None \<Rightarrow> Inr None | Some r \<Rightarrow> py_bind (job_record r) (Inr \<circ> Some))"

section \<open>The ledger of attempts\<close>

record attempt_row =
  ar_sequence :: int
  ar_run :: string
  ar_job :: string
  ar_revision :: string
  ar_contract :: string
  ar_complete :: bool
  ar_payload :: string

type_synonym watch_run_store = "attempt_row list"

definition next_attempt :: "watch_run_store \<Rightarrow> int" where
  \<comment> \<open>AUTOINCREMENT: above every sequence ever given, and no row is deleted\<close>
  "next_attempt rs = foldr (\<lambda>r m. max (ar_sequence r) m) rs 0 + 1"

definition record_attempt :: "watch_attempt \<Rightarrow> watch_run_store \<Rightarrow> (int \<times> bool \<times> watch_run_store) py" where
  "record_attempt a rs =
     (case find (\<lambda>r. ar_run r = wa_run a) rs of
        Some r \<Rightarrow>
          py_check (ar_payload r \<noteq> encoded_attempt a) WatchRunConflict (Inr (ar_sequence r, False, rs))
      | None \<Rightarrow>
          Inr (next_attempt rs, True,
               rs @ [\<lparr>ar_sequence = next_attempt rs, ar_run = wa_run a, ar_job = wa_job a,
                      ar_revision = wa_revision a, ar_contract = wa_contract a, ar_complete = wa_complete a,
                      ar_payload = encoded_attempt a\<rparr>]))"

definition attempt_of_run :: "watch_run_store \<Rightarrow> string \<Rightarrow> watch_attempt option py" where
  "attempt_of_run rs run =
     (case find (\<lambda>r. ar_run r = run) rs of
        None \<Rightarrow> Inr None | Some r \<Rightarrow> py_bind (decode_attempt (ar_payload r)) (Inr \<circ> Some))"

definition newest_first :: "watch_run_store \<Rightarrow> attempt_row list" where
  \<comment> \<open>\<open>ORDER BY sequence DESC\<close>\<close>
  "newest_first rs = rev (sort_key ar_sequence rs)"

definition latest_attempt :: "watch_run_store \<Rightarrow> string \<Rightarrow> int option \<Rightarrow> watch_attempt option py" where
  "latest_attempt rs job before =
     py_check (case before of None \<Rightarrow> False | Some b \<Rightarrow> b < 1) ValueError (
     case newest_first (filter (\<lambda>r. ar_job r = job \<and> (case before of None \<Rightarrow> True | Some b \<Rightarrow> ar_sequence r < b)) rs) of
       [] \<Rightarrow> Inr None
     | r # _ \<Rightarrow> py_bind (decode_attempt (ar_payload r)) (Inr \<circ> Some))"

fun decoded_attempts :: "attempt_row list \<Rightarrow> watch_attempt list py" where
  "decoded_attempts [] = Inr []"
| "decoded_attempts (r # rs) =
     py_bind (decode_attempt (ar_payload r)) (\<lambda>a. py_bind (decoded_attempts rs) (\<lambda>as. Inr (a # as)))"

definition watch_history :: "watch_run_store \<Rightarrow> string \<Rightarrow> int \<Rightarrow> watch_attempt list py" where
  "watch_history rs job limit =
     py_check (limit < 1 \<or> 1000 < limit) ValueError (
     decoded_attempts (take (nat limit) (newest_first (filter (\<lambda>r. ar_job r = job) rs))))"

section \<open>Rows are read back\<close>

lemma raw_dict_read:
  assumes "distinct (map fst d)" "\<forall>kv \<in> set d. keys_distinct (snd kv)"
  shows "\<exists>e. json_loads (json_text raw_style (PDict d)) = Inr (PDict e)
    \<and> (\<forall>k. map_of e k = map_option (styled True) (map_of d k))"
proof -
  have "json_loads (json_text raw_style (PDict d)) = Inr (styled True (PDict d))"
    using assms raw_writer.text_round_trip [of "PDict d"] by (simp add: raw_style_def)
  then show ?thesis
    using styled_lookup [OF assms(1), of True] by (auto simp only: styled_dict)
qed

lemma py_iter_text_list [simp]: "py_iter (text_list xs) = Inr (map PStr xs)"
  by (simp add: py_iter_def text_list_def)

lemma py_str_texts [simp]: "map (py_str \<circ> PStr) xs = xs"
  by (simp add: py_str_def comp_def)

lemma decode_encoded_job: "job_ok j \<Longrightarrow> decode_job (encoded_job j) = Inr j"
proof -
  assume ok: "job_ok j"
  have "distinct (map fst (job_payload j))" "\<forall>kv \<in> set (job_payload j). keys_distinct (snd kv)"
    by (simp_all add: job_payload_def)
  from raw_dict_read [OF this] obtain e where e: "json_loads (encoded_job j) = Inr (PDict e)"
    and at: "\<And>k. map_of e k = map_option (styled True) (map_of (job_payload j) k)"
    by (auto simp: encoded_job_def)
  note field = at [unfolded job_payload_def]
  have opt: "opt_str_at e k = x" if "map_of e k = Some (text_or_none x)" for k x
    using that by (cases x) (simp_all add: opt_str_at_def py_get_def text_or_none_def py_str_def)
  show ?thesis
    using mk_watch_job_again [OF ok]
    by (simp add: decode_job_def e str_at_def strs_at_def py_item_def field opt py_str_def [of "PStr _"] py_int_def
        args_of_def)
qed

lemma observation_pairs_read:
  "observation_pairs (map (\<lambda>kv. PList [PStr (fst kv), PStr (snd kv)]) obs) = Inr obs"
  by (induction obs) (simp_all add: py_index_def py_str_def)

lemma decode_encoded_attempt: "attempt_ok a \<Longrightarrow> decode_attempt (encoded_attempt a) = Inr a"
proof -
  assume ok: "attempt_ok a"
  have "distinct (map fst (attempt_payload a))" "\<forall>kv \<in> set (attempt_payload a). keys_distinct (snd kv)"
    by (simp_all add: attempt_payload_def)
  from raw_dict_read [OF this] obtain e where e: "json_loads (encoded_attempt a) = Inr (PDict e)"
    and at: "\<And>k. map_of e k = map_option (styled True) (map_of (attempt_payload a) k)"
    by (auto simp: encoded_attempt_def)
  note field = at [unfolded attempt_payload_def]
  have obs: "py_get e ''observations'' = PList (map (\<lambda>kv. PList [PStr (fst kv), PStr (snd kv)]) (wa_observations a))"
    by (simp add: py_get_def field comp_def)
  show ?thesis
    using mk_watch_attempt_again [OF ok] observation_pairs_read [of "wa_observations a"]
    by (simp add: decode_attempt_def e obs str_at_def py_item_def field py_str_def is_bool_def the_bool_def)
      (cases a, simp)
qed

lemma encoded_job_inj: "job_ok j \<Longrightarrow> job_ok k \<Longrightarrow> encoded_job j = encoded_job k \<longleftrightarrow> j = k"
  by (metis decode_encoded_job Inr_inject)

lemma encoded_attempt_inj: "attempt_ok a \<Longrightarrow> attempt_ok b \<Longrightarrow> encoded_attempt a = encoded_attempt b \<longleftrightarrow> a = b"
  by (metis decode_encoded_attempt Inr_inject)

section \<open>Configuration under every script of writes\<close>

text \<open>
  A write is either a fresh configuration or a replacement by a caller that read \<open>cur\<close> before:
  \<open>update_job\<close>, \<open>set_enabled\<close> and \<open>set_schedule\<close> are a \<open>require\<close> followed by such a replacement,
  and another writer may have come in between.
\<close>

datatype job_op =
    CreateJob job_args bool "string option"
  | ReplaceJob stored_watch_job job_args bool "string option" int

fun job_step :: "(string \<Rightarrow> string) \<Rightarrow> job_op \<Rightarrow> watch_job_store \<Rightarrow> watch_job_store py" where
  "job_step sha (CreateJob a en sched) st =
     py_bind (mk_watch_job a) (\<lambda>j. py_bind (job_create sha j en sched st) (Inr \<circ> snd \<circ> snd))"
| "job_step sha (ReplaceJob cur a en sched expected) st =
     py_bind (mk_watch_job a) (\<lambda>j. py_bind (job_replace sha cur j en sched expected st) (Inr \<circ> snd))"

definition versions_of :: "watch_job_store \<Rightarrow> string \<Rightarrow> watch_job_row list" where
  "versions_of st i = filter (\<lambda>r. jr_id r = i) (js_versions st)"

definition good_row :: "(string \<Rightarrow> string) \<Rightarrow> watch_job_row \<Rightarrow> bool" where
  "good_row sha r \<longleftrightarrow> (\<exists>j. job_ok j \<and> r = job_row sha j (jr_version r) (jr_enabled r) (jr_schedule r))"

definition job_store_ok :: "(string \<Rightarrow> string) \<Rightarrow> watch_job_store \<Rightarrow> bool" where
  "job_store_ok sha st \<longleftrightarrow>
     distinct (map jr_id (js_jobs st)) \<and> (\<forall>r \<in> set (js_versions st). good_row sha r)
     \<and> (\<forall>i. map jr_version (versions_of st i) = map int [1..<Suc (length (versions_of st i))]
          \<and> current_row st i = (if versions_of st i = [] then None else Some (last (versions_of st i))))"

lemma job_row_sel [simp]:
  "jr_id (job_row sha j v en sched) = fj_id j" "jr_version (job_row sha j v en sched) = v"
  "jr_enabled (job_row sha j v en sched) = en" "jr_schedule (job_row sha j v en sched) = sched"
  "jr_payload (job_row sha j v en sched) = encoded_job j" "jr_revision (job_row sha j v en sched) = revision_sha256 sha j"
  by (simp_all add: job_row_def)

lemma good_job_row: "job_ok j \<Longrightarrow> good_row sha (job_row sha j v en sched)"
  by (auto simp: good_row_def)

lemma job_record_good:
  "good_row sha r \<Longrightarrow> \<exists>j. job_ok j \<and> fj_id j = jr_id r \<and> jr_revision r = revision_sha256 sha j
     \<and> job_record r = Inr \<lparr>sj_job = j, sj_version = jr_version r, sj_enabled = jr_enabled r, sj_schedule = jr_schedule r\<rparr>"
  unfolding good_row_def job_record_def by (metis job_row_sel decode_encoded_job py_bind_simps(2))

lemma empty_job_store_ok: "job_store_ok sha empty_job_store"
  by (simp add: job_store_ok_def empty_job_store_def versions_of_def current_row_def)

lemma versions_of_append:
  "versions_of (st\<lparr>js_jobs := js, js_versions := js_versions st @ [r]\<rparr>) i =
     versions_of st i @ (if jr_id r = i then [r] else [])"
  by (simp add: versions_of_def)

lemma find_append: "find P (xs @ ys) = (case find P xs of None \<Rightarrow> find P ys | Some x \<Rightarrow> Some x)"
  by (induction xs) auto

lemma create_ok:
  assumes st: "job_store_ok sha st" and j: "job_ok j" and c: "job_create sha j en sched st = Inr (r, new, st')"
  shows "job_store_ok sha st'"
proof (cases "current_row st (fj_id j)")
  case None
  from c None obtain sched' where st': "st' = st\<lparr>js_jobs := js_jobs st @ [job_row sha j 1 en sched'],
      js_versions := js_versions st @ [job_row sha j 1 en sched']\<rparr>"
    by (auto simp: job_create_def py_bind_Inr_iff Let_def)
  have vs: "versions_of st (fj_id j) = []"
    using st None by (auto simp: job_store_ok_def split: if_splits)
  have new_id: "fj_id j \<notin> jr_id ` set (js_jobs st)"
    using None by (auto simp: current_row_def find_None_iff)
  have cur: "current_row st' i = (case current_row st i of None \<Rightarrow> if fj_id j = i then Some (job_row sha j 1 en sched') else None
      | Some x \<Rightarrow> Some x)" for i
    by (simp add: current_row_def st' find_append split: option.splits)
  show ?thesis
    unfolding job_store_ok_def
  proof (intro conjI allI)
    show "distinct (map jr_id (js_jobs st'))" using st new_id by (auto simp: job_store_ok_def st')
    show "\<forall>r \<in> set (js_versions st'). good_row sha r" using st j by (auto simp: job_store_ok_def st' good_job_row)
    fix i
    show "map jr_version (versions_of st' i) = map int [1..<Suc (length (versions_of st' i))]"
      using st vs by (cases "fj_id j = i") (simp_all add: job_store_ok_def st' versions_of_append)
    show "current_row st' i = (if versions_of st' i = [] then None else Some (last (versions_of st' i)))"
    proof (cases "fj_id j = i")
      case True
      with vs None show ?thesis by (simp add: cur) (simp add: st' versions_of_append)
    next
      case False
      with st show ?thesis by (simp add: cur) (simp add: st' versions_of_append job_store_ok_def)
    qed
  qed
next
  case (Some x)
  with c st show ?thesis by (auto simp: job_create_def py_bind_Inr_iff)
qed

lemma find_updated:
  assumes "jr_id r = k" "\<And>x. hit x \<Longrightarrow> jr_id x = k"
  shows "find (\<lambda>x. jr_id x = i) (map (\<lambda>x. if hit x then r else x) xs) =
    map_option (\<lambda>x. if hit x then r else x) (find (\<lambda>x. jr_id x = i) xs)"
  using assms by (induction xs) auto

text \<open>What a replacement that writes has done.\<close>

lemma replace_cases:
  assumes "job_replace sha cur j en sched expected st = Inr (r, st')"
  obtains "r = cur" "st' = st" "encoded_job j = encoded_job (sj_job cur)" "en = sj_enabled cur" "sched = sj_schedule cur"
    | x where "expected = sj_version cur" "x \<in> set (js_jobs st)" "jr_id x = fj_id j" "jr_version x = expected"
      "r = \<lparr>sj_job = j, sj_version = expected + 1, sj_enabled = en, sj_schedule = sched\<rparr>"
      "st' = st\<lparr>js_jobs := map (\<lambda>y. if jr_id y = fj_id j \<and> jr_version y = expected
                                   then job_row sha j (expected + 1) en sched else y) (js_jobs st),
                js_versions := js_versions st @ [job_row sha j (expected + 1) en sched]\<rparr>"
proof (cases "encoded_job j = encoded_job (sj_job cur) \<and> en = sj_enabled cur \<and> sched = sj_schedule cur")
  case True
  with assms show thesis by (intro that(1)) (simp_all add: job_replace_def)
next
  case False
  have expected: "expected = sj_version cur" using assms by (simp add: job_replace_def)
  let ?hit = "\<lambda>y. jr_id y = fj_id j \<and> jr_version y = expected"
  from assms False have "length (filter ?hit (js_jobs st)) = 1"
    by (auto simp: job_replace_def Let_def)
  then have "filter ?hit (js_jobs st) \<noteq> []" by auto
  then obtain x where x: "x \<in> set (js_jobs st)" "?hit x" by (auto simp: filter_empty_conv)
  with assms False expected show thesis
    by (intro that(2) [of x]) (auto simp: job_replace_def Let_def)
qed

lemma current_mem:
  assumes "distinct (map jr_id (js_jobs st))" "x \<in> set (js_jobs st)"
  shows "current_row st (jr_id x) = Some x"
proof -
  have "\<exists>y. current_row st (jr_id x) = Some y"
    using assms(2) by (cases "current_row st (jr_id x)") (auto simp: current_row_def find_None_iff)
  then obtain y where y: "current_row st (jr_id x) = Some y" by blast
  then have "y \<in> set (js_jobs st)" "jr_id y = jr_id x" by (auto simp: current_row_def find_Some_iff)
  with assms have "y = x" by (auto simp: distinct_map dest: inj_onD)
  with y show ?thesis by simp
qed

lemma replace_ok:
  assumes st: "job_store_ok sha st" and j: "job_ok j"
    and c: "job_replace sha cur j en sched expected st = Inr (r, st')"
  shows "job_store_ok sha st'"
  using c
proof (cases rule: replace_cases)
  case 1
  with st show ?thesis by simp
next
  case (2 x)
  let ?hit = "\<lambda>y. jr_id y = fj_id j \<and> jr_version y = expected" and ?row = "job_row sha j (expected + 1) en sched"
  have dist: "distinct (map jr_id (js_jobs st))" using st by (simp add: job_store_ok_def)
  have cur_x: "current_row st (fj_id j) = Some x" using current_mem [OF dist 2(2)] 2(3) by simp
  have vs: "map jr_version (versions_of st i) = map int [1..<Suc (length (versions_of st i))]"
    "current_row st i = (if versions_of st i = [] then None else Some (last (versions_of st i)))" for i
    using st by (auto simp: job_store_ok_def)
  from vs(2) [of "fj_id j"] cur_x have ne: "versions_of st (fj_id j) \<noteq> []" and last: "last (versions_of st (fj_id j)) = x"
    by (auto split: if_splits)
  have "last (map jr_version (versions_of st (fj_id j))) = int (length (versions_of st (fj_id j)))"
    unfolding vs(1) using ne by (simp add: last_map Suc_le_eq)
  with ne last 2(4) have len: "expected = int (length (versions_of st (fj_id j)))" by (simp add: last_map)
  have cur: "current_row st' i = map_option (\<lambda>y. if ?hit y then ?row else y) (current_row st i)" for i
    unfolding current_row_def using find_updated [of ?row "fj_id j" ?hit i "js_jobs st"] by (simp add: 2(6))
  show ?thesis
    unfolding job_store_ok_def
  proof (intro conjI allI)
    show "distinct (map jr_id (js_jobs st'))"
    proof -
      have "map jr_id (js_jobs st') = map jr_id (js_jobs st)" by (simp add: 2(6))
      with dist show ?thesis by (simp only:)
    qed
    show "\<forall>r \<in> set (js_versions st'). good_row sha r" using st j by (auto simp: job_store_ok_def 2(6) good_job_row)
    fix i
    show "map jr_version (versions_of st' i) = map int [1..<Suc (length (versions_of st' i))]"
      using vs(1) [of i] len by (cases "fj_id j = i") (simp_all add: 2(6) versions_of_append)
    show "current_row st' i = (if versions_of st' i = [] then None else Some (last (versions_of st' i)))"
    proof (cases "fj_id j = i")
      case True
      with cur_x 2(3,4) show ?thesis by (simp add: cur) (simp add: 2(6) versions_of_append)
    next
      case False
      have "jr_id y = i" if "current_row st i = Some y" for y
        using that by (auto simp: current_row_def find_Some_iff)
      with False have "map_option (\<lambda>y. if ?hit y then ?row else y) (current_row st i) = current_row st i"
        by (cases "current_row st i") auto
      with False vs(2) [of i] show ?thesis by (simp add: cur) (simp add: 2(6) versions_of_append)
    qed
  qed
qed

lemma job_step_ok: "job_store_ok sha st \<Longrightarrow> job_step sha x st = Inr st' \<Longrightarrow> job_store_ok sha st'"
  by (cases x) (auto simp: py_bind_Inr_iff intro: create_ok replace_ok mk_watch_job_ok)

definition history_grows :: "watch_job_store \<Rightarrow> watch_job_store \<Rightarrow> bool" where
  "history_grows st st' \<longleftrightarrow> (\<exists>new. js_versions st' = js_versions st @ new)"

lemma job_step_grows: "job_step sha x st = Inr st' \<Longrightarrow> history_grows st st'"
proof (cases x)
  case (CreateJob a en sched)
  assume "job_step sha x st = Inr st'"
  with CreateJob show ?thesis
    by (auto simp: history_grows_def job_create_def py_bind_Inr_iff Let_def split: option.splits)
next
  case (ReplaceJob cur a en sched expected)
  assume "job_step sha x st = Inr st'"
  with ReplaceJob obtain j r where "job_replace sha cur j en sched expected st = Inr (r, st')"
    by (auto simp: py_bind_Inr_iff)
  then show ?thesis by (cases rule: replace_cases) (auto simp: history_grows_def)
qed

interpretation configuration: monotone_machine "job_step sha" "job_store_ok sha" history_grows for sha
proof unfold_locales
  show "history_grows s s" for s by (simp add: history_grows_def)
  show "history_grows s t \<Longrightarrow> history_grows t u \<Longrightarrow> history_grows s u" for s t u
    by (auto simp: history_grows_def)
qed (auto intro: job_step_ok job_step_grows)

section \<open>The ledger is the list of attempts in recording order\<close>

definition attempt_row_of :: "int \<Rightarrow> watch_attempt \<Rightarrow> attempt_row" where
  "attempt_row_of n a =
     \<lparr>ar_sequence = n, ar_run = wa_run a, ar_job = wa_job a, ar_revision = wa_revision a,
      ar_contract = wa_contract a, ar_complete = wa_complete a, ar_payload = encoded_attempt a\<rparr>"

definition ledger_of :: "watch_attempt list \<Rightarrow> watch_run_store" where
  "ledger_of as = map (\<lambda>n. attempt_row_of (int (Suc n)) (as ! n)) [0..<length as]"

definition ledger_ok :: "watch_attempt list \<Rightarrow> bool" where
  "ledger_ok as \<longleftrightarrow> list_all attempt_ok as \<and> distinct (map wa_run as)"

lemma attempt_row_of_sel [simp]:
  "ar_sequence (attempt_row_of n a) = n" "ar_run (attempt_row_of n a) = wa_run a"
  "ar_job (attempt_row_of n a) = wa_job a" "ar_payload (attempt_row_of n a) = encoded_attempt a"
  by (simp_all add: attempt_row_of_def)

lemma ledger_of_Nil [simp]: "ledger_of [] = []"
  by (simp add: ledger_of_def)

lemma ledger_of_snoc [simp]: "ledger_of (as @ [a]) = ledger_of as @ [attempt_row_of (int (Suc (length as))) a]"
  by (simp add: ledger_of_def nth_append)

lemma ledger_of_length [simp]: "length (ledger_of as) = length as"
  by (simp add: ledger_of_def)

lemma ledger_of_nth [simp]: "n < length as \<Longrightarrow> ledger_of as ! n = attempt_row_of (int (Suc n)) (as ! n)"
  by (simp add: ledger_of_def)

lemma next_attempt_ledger: "next_attempt (ledger_of as) = int (Suc (length as))"
proof -
  have fold: "foldr (\<lambda>r m. max (ar_sequence r) m) rs (max n m) = max (foldr (\<lambda>r m. max (ar_sequence r) m) rs n) m"
    for rs and n m :: int by (induction rs) auto
  have "foldr (\<lambda>r m. max (ar_sequence r) m) (ledger_of as) 0 = int (length as)"
  proof (induction as rule: rev_induct)
    case (snoc a as)
    then show ?case using fold [of "ledger_of as" 0 "int (Suc (length as))"] by (simp add: max.commute)
  qed simp
  then show ?thesis by (simp add: next_attempt_def)
qed

lemma ledger_sorted: "sorted (map ar_sequence (filter P (ledger_of as)))"
proof -
  have "map ar_sequence (ledger_of as) = map (\<lambda>n. int (Suc n)) [0..<length as]"
    by (simp add: ledger_of_def comp_def)
  then have "sorted (map ar_sequence (ledger_of as))"
    by (simp add: sorted_map_mono mono_on_def)
  then show ?thesis by (rule sorted_filter)
qed

lemma newest_first_ledger: "newest_first (filter P (ledger_of as)) = rev (filter P (ledger_of as))"
  using ledger_sorted [of P as] by (simp add: newest_first_def sort_key_id_if_sorted)

lemma decoded_ledger:
  "list_all attempt_ok as \<Longrightarrow>
     decoded_attempts (rev (filter (\<lambda>r. ar_job r = job) (ledger_of as))) = Inr (rev (filter (\<lambda>a. wa_job a = job) as))"
  by (induction as rule: rev_induct) (simp_all add: decode_encoded_attempt)

lemma decoded_take: "decoded_attempts rs = Inr as \<Longrightarrow> decoded_attempts (take n rs) = Inr (take n as)"
  by (induction rs arbitrary: as n) (auto simp: py_bind_Inr_iff take_Cons' split: if_splits)

lemma history_ledger:
  assumes "ledger_ok as" "1 \<le> limit" "limit \<le> 1000"
  shows "watch_history (ledger_of as) job limit = Inr (take (nat limit) (rev (filter (\<lambda>a. wa_job a = job) as)))"
  using assms decoded_take [OF decoded_ledger [of as job], where n = "nat limit"]
  by (simp add: watch_history_def ledger_ok_def newest_first_ledger)

lemma latest_ledger:
  assumes "ledger_ok as"
  shows "latest_attempt (ledger_of as) job None =
    Inr (let mine = filter (\<lambda>a. wa_job a = job) as in if mine = [] then None else Some (last mine))"
proof -
  have "case rev (filter (\<lambda>r. ar_job r = job) (ledger_of as)) of [] \<Rightarrow> filter (\<lambda>a. wa_job a = job) as = []
    | r # rs \<Rightarrow> \<exists>a. attempt_ok a \<and> ar_payload r = encoded_attempt a \<and> filter (\<lambda>a. wa_job a = job) as \<noteq> []
        \<and> a = last (filter (\<lambda>a. wa_job a = job) as)"
    using assms unfolding ledger_ok_def by (induction as rule: rev_induct) (auto split: list.splits)
  then show ?thesis
    by (auto simp: latest_attempt_def newest_first_ledger decode_encoded_attempt Let_def split: list.splits)
qed

lemma find_run_ledger:
  "find (\<lambda>r. ar_run r = run) (ledger_of as) = None \<longleftrightarrow> run \<notin> wa_run ` set as"
proof -
  have "ar_run ` set (ledger_of as) = wa_run ` set as" by (induction as rule: rev_induct) auto
  moreover have "find (\<lambda>r. ar_run r = run) (ledger_of as) = None \<longleftrightarrow> run \<notin> ar_run ` set (ledger_of as)"
    by (auto simp: find_None_iff)
  ultimately show ?thesis by simp
qed

lemma record_new:
  "wa_run a \<notin> wa_run ` set as \<Longrightarrow>
     record_attempt a (ledger_of as) = Inr (int (Suc (length as)), True, ledger_of (as @ [a]))"
  by (simp add: record_attempt_def find_run_ledger [THEN iffD2] next_attempt_ledger) (simp add: attempt_row_of_def)

lemma record_again:
  assumes ok: "ledger_ok as" and n: "n < length as" and run: "wa_run a = wa_run (as ! n)" and a: "attempt_ok a"
  shows "record_attempt a (ledger_of as) =
    (if a = as ! n then Inr (int (Suc n), False, ledger_of as) else Inl WatchRunConflict)"
proof -
  have first: "wa_run (as ! m) \<noteq> wa_run (as ! n)" if "m < n" for m
    using ok n that by (simp add: ledger_ok_def distinct_conv_nth)
  have "find (\<lambda>r. ar_run r = wa_run a) (ledger_of as) = Some (attempt_row_of (int (Suc n)) (as ! n))"
    unfolding find_Some_iff using n run first by (intro exI [of _ n]) auto
  moreover have "encoded_attempt (as ! n) \<noteq> encoded_attempt a \<longleftrightarrow> a \<noteq> as ! n"
    using ok n a encoded_attempt_inj by (auto simp: ledger_ok_def list_all_length)
  ultimately show ?thesis by (simp add: record_attempt_def)
qed

text \<open>Every script of recordings from an empty ledger keeps that form.\<close>

definition record_step :: "watch_attempt \<Rightarrow> watch_run_store \<Rightarrow> watch_run_store py" where
  \<comment> \<open>build the attempt, then record it\<close>
  "record_step x rs = py_bind (mk_watch_attempt x) (\<lambda>a. py_bind (record_attempt a rs) (Inr \<circ> snd \<circ> snd))"

definition is_ledger :: "watch_run_store \<Rightarrow> bool" where
  "is_ledger rs \<longleftrightarrow> (\<exists>as. ledger_ok as \<and> rs = ledger_of as)"

definition ledger_grows :: "watch_run_store \<Rightarrow> watch_run_store \<Rightarrow> bool" where
  "ledger_grows rs rs' \<longleftrightarrow> (\<exists>new. rs' = rs @ new)"

lemma record_step_cases:
  assumes "ledger_ok as" "attempt_ok a" "record_attempt a (ledger_of as) = Inr (n, created, rs')"
  shows "if created then wa_run a \<notin> wa_run ` set as \<and> rs' = ledger_of (as @ [a]) \<and> n = int (Suc (length as))
    else a \<in> set as \<and> rs' = ledger_of as"
proof (cases "wa_run a \<in> wa_run ` set as")
  case True
  then obtain m where "m < length as" "wa_run a = wa_run (as ! m)" by (auto simp: in_set_conv_nth)
  with record_again [OF assms(1) this assms(2)] assms(3) show ?thesis by (auto split: if_splits)
next
  case False
  from assms(3) False show ?thesis unfolding record_new [OF False] by auto
qed

interpretation ledger: monotone_machine record_step is_ledger ledger_grows
proof unfold_locales
  fix rs x rs' assume "is_ledger rs" and step: "record_step x rs = Inr rs'"
  then obtain as where as: "ledger_ok as" "rs = ledger_of as" by (auto simp: is_ledger_def)
  from step obtain a n created where a: "mk_watch_attempt x = Inr a" "record_attempt a rs = Inr (n, created, rs')"
    by (auto simp: record_step_def py_bind_Inr_iff)
  have ok: "attempt_ok a" using a(1) by (rule mk_watch_attempt_ok)
  note c = record_step_cases [OF as(1) ok a(2) [unfolded as(2)]]
  have new: "ledger_ok (as @ [a])" if "created" using c that as(1) ok by (auto simp: ledger_ok_def)
  show "is_ledger rs'"
  proof (cases created)
    case True
    with c new show ?thesis unfolding is_ledger_def by metis
  next
    case False
    with c as show ?thesis unfolding is_ledger_def by metis
  qed
  show "ledger_grows rs rs'"
    using c as(2) by (cases created) (auto simp: ledger_grows_def)
qed (auto simp: ledger_grows_def)

end
