(* ===== verification/Watch_Service.thy ===== *)
theory Watch_Service
  imports Watch_Stores
begin

text \<open>
  One fixed run (\<open>watch/fixed_watch_runner.py\<close>) and the service that owns configuration, runs and
  overlap (\<open>watch/service.py\<close>).  The source observer, the executor, the runner factory and the
  lifecycle hooks lie outside: each is a function that returns or raises, and the model lists the
  calls made to them in order.  The run identifier of \<open>uuid4\<close> is the argument \<open>fresh\<close>.  A call of
  \<open>run_job\<close> claims the job, runs the body and releases the claim; \<open>watch_step\<close> lets other calls come
  between the claim and the rest.
\<close>

section \<open>Calls to the outside\<close>

datatype watch_call =
    CallAdmit string | CallBuild | CallStart | CallObserve | CallExecute | CallCompleted | CallFailed py_exc

type_synonym 'a traced = "watch_call list \<times> 'a py"

definition quiet :: "'a py \<Rightarrow> 'a traced" where
  "quiet m = ([], m)"

definition outside :: "watch_call \<Rightarrow> 'a py \<Rightarrow> 'a traced" where
  "outside c m = ([c], m)"

definition tr_bind :: "'a traced \<Rightarrow> ('a \<Rightarrow> 'b traced) \<Rightarrow> 'b traced" where
  "tr_bind m f = (case snd m of Inl e \<Rightarrow> (fst m, Inl e) | Inr a \<Rightarrow> (fst m @ fst (f a), snd (f a)))"

section \<open>The runner\<close>

record source_observation =
  src_head :: string
  src_digest :: string

definition mk_source_observation :: "source_observation \<Rightarrow> source_observation py" where
  "mk_source_observation s =
     py_check (\<not> nonempty_text (src_head s)) ValueError (
     py_check (\<not> sha256_hex (src_digest s)) ValueError (Inr s))"

record watch_result =
  wx_schema :: string
  wx_complete :: bool
  wx_observations :: "(string \<times> string) list"

definition mk_watch_result :: "watch_result \<Rightarrow> watch_result py" where
  "mk_watch_result r =
     py_check (\<not> nonempty_text (wx_schema r)) ValueError (
     py_bind (checked_observations (wx_observations r)) (\<lambda>obs. Inr (r\<lparr>wx_observations := obs\<rparr>)))"

record watch_runner =
  rn_contract :: string
  rn_observe :: "fixed_watch_job \<Rightarrow> source_observation py"
  rn_execute :: "fixed_watch_job \<Rightarrow> source_observation \<Rightarrow> watch_result py"

definition mk_watch_runner :: "watch_runner \<Rightarrow> watch_runner py" where
  "mk_watch_runner r = py_check (\<not> sha256_hex (rn_contract r)) ValueError (Inr r)"

record fixed_watch_run =
  fr_sequence :: int
  fr_current :: watch_attempt
  fr_previous :: "watch_attempt option"
  fr_delta :: "watch_delta option"

definition fr_baseline :: "fixed_watch_run \<Rightarrow> bool" where
  "fr_baseline r \<longleftrightarrow> fr_previous r = None"

definition new_attempt ::
  "(string \<Rightarrow> string) \<Rightarrow> watch_runner \<Rightarrow> fixed_watch_job \<Rightarrow> string \<Rightarrow> source_observation \<Rightarrow> watch_result \<Rightarrow> watch_attempt py" where
  "new_attempt sha rn j run src res =
     mk_watch_attempt
       \<lparr>wa_run = run, wa_job = fj_id j, wa_revision = revision_sha256 sha j, wa_contract = rn_contract rn,
        wa_schema = wx_schema res, wa_head = src_head src, wa_digest = src_digest src,
        wa_complete = wx_complete res, wa_observations = wx_observations res\<rparr>"

definition store_attempt :: "watch_attempt \<Rightarrow> watch_run_store \<Rightarrow> (fixed_watch_run \<times> watch_run_store) py" where
  \<comment> \<open>the last part of \<open>run\<close>: previous attempt, append, comparison\<close>
  "store_attempt a rs =
     py_bind (latest_attempt rs (wa_job a) None) (\<lambda>previous.
     py_bind (record_attempt a rs) (\<lambda>(n, created, rs').
     py_check (\<not> created) RuntimeError (
     py_bind (case previous of None \<Rightarrow> Inr None | Some p \<Rightarrow> py_bind (compare_attempts p a) (Inr \<circ> Some)) (\<lambda>delta.
     Inr (\<lparr>fr_sequence = n, fr_current = a, fr_previous = previous, fr_delta = delta\<rparr>, rs')))))"

definition runner_run ::
  "(string \<Rightarrow> string) \<Rightarrow> watch_runner \<Rightarrow> string \<Rightarrow> fixed_watch_job \<Rightarrow> string option \<Rightarrow> watch_run_store
     \<Rightarrow> (fixed_watch_run \<times> watch_run_store) traced" where
  "runner_run sha rn fresh j run_id rs =
     tr_bind (quiet (uuid_text (case run_id of None \<Rightarrow> fresh | Some r \<Rightarrow> if r = [] then fresh else r))) (\<lambda>run.
     tr_bind (outside CallObserve (rn_observe rn j)) (\<lambda>src.
     tr_bind (outside CallExecute (rn_execute rn j src)) (\<lambda>res.
     tr_bind (quiet (new_attempt sha rn j run src res)) (\<lambda>a.
     quiet (store_attempt a rs)))))"

section \<open>The service\<close>

datatype watch_trigger = MANUAL | SCHEDULED

definition watch_trigger_value :: "watch_trigger \<Rightarrow> string" where
  [fact_simps]: "watch_trigger_value t = (case t of MANUAL \<Rightarrow> ''manual'' | SCHEDULED \<Rightarrow> ''scheduled'')"

definition watch_trigger_of :: "string \<Rightarrow> watch_trigger py" where
  \<comment> \<open>\<open>WatchTrigger(text)\<close>\<close>
  "watch_trigger_of = enum_of watch_trigger_value [MANUAL, SCHEDULED]"

record watch_service_run =
  sr_version :: int
  sr_trigger :: watch_trigger
  sr_run_id :: string
  sr_run :: fixed_watch_run

record watch_lifecycle =
  lc_admit :: "stored_watch_job \<Rightarrow> string \<Rightarrow> unit py"
  lc_start :: "stored_watch_job \<Rightarrow> string \<Rightarrow> unit py"
  lc_completed :: "stored_watch_job \<Rightarrow> watch_service_run \<Rightarrow> unit py"

text \<open>An exception of the hook \<open>failed\<close> only adds a note, so the hook needs no field.\<close>

record watch_config =
  wc_sha :: "string \<Rightarrow> string"
  wc_factory :: "stored_watch_job \<Rightarrow> string \<Rightarrow> watch_runner py"
  wc_lifecycle :: "watch_lifecycle option"

record watch_service =
  ws_jobs :: watch_job_store
  ws_runs :: watch_run_store
  ws_active :: "string set"

definition watch_claim :: "string \<Rightarrow> watch_service \<Rightarrow> watch_service py" where
  "watch_claim i svc =
     py_check (i \<in> ws_active svc) WatchOverlap (Inr (svc\<lparr>ws_active := insert i (ws_active svc)\<rparr>))"

definition watch_release :: "string \<Rightarrow> watch_service \<Rightarrow> watch_service py" where
  "watch_release i svc =
     py_check (i \<notin> ws_active svc) WatchLifecycleError (Inr (svc\<lparr>ws_active := ws_active svc - {i}\<rparr>))"

definition begin_run :: "string \<Rightarrow> string \<Rightarrow> watch_service \<Rightarrow> (stored_watch_job \<times> watch_trigger \<times> watch_service) py" where
  \<comment> \<open>\<open>run_job\<close> up to its claim\<close>
  "begin_run i trigger svc =
     py_bind (watch_trigger_of trigger) (\<lambda>t.
     py_bind (job_require (ws_jobs svc) i) (\<lambda>r.
     py_check (t = SCHEDULED \<and> \<not> sj_enabled r) WatchDisabled (
     py_check (t = SCHEDULED \<and> sj_schedule r = None) WatchDisabled (
     py_bind (watch_claim i svc) (\<lambda>svc'. Inr (r, t, svc'))))))"

definition guarded_run ::
  "watch_config \<Rightarrow> stored_watch_job \<Rightarrow> string \<Rightarrow> watch_run_store \<Rightarrow> (fixed_watch_run \<times> watch_run_store) traced" where
  \<comment> \<open>the inner \<open>try\<close> up to the run\<close>
  "guarded_run cfg r run rs =
     tr_bind (outside CallBuild (wc_factory cfg r run)) (\<lambda>rn.
     tr_bind (case wc_lifecycle cfg of None \<Rightarrow> quiet (Inr ()) | Some lc \<Rightarrow> outside CallStart (lc_start lc r run)) (\<lambda>_.
     runner_run (wc_sha cfg) rn run (sj_job r) (Some run) rs))"

definition failure_calls :: "watch_config \<Rightarrow> py_exc \<Rightarrow> watch_call list" where
  \<comment> \<open>\<open>if admitted and lifecycle is not None: lifecycle.failed(...)\<close>\<close>
  "failure_calls cfg e = (case wc_lifecycle cfg of None \<Rightarrow> [] | Some lc \<Rightarrow> [CallFailed e])"

definition run_body ::
  "watch_config \<Rightarrow> stored_watch_job \<Rightarrow> watch_trigger \<Rightarrow> string \<Rightarrow> watch_run_store
     \<Rightarrow> watch_call list \<times> watch_run_store \<times> watch_service_run py" where
  \<comment> \<open>\<open>run_job\<close> between claim and release: the calls, the ledger afterwards and what is returned or raised\<close>
  "run_body cfg r t run rs =
     (let (admit_calls, admitted) =
            (case wc_lifecycle cfg of None \<Rightarrow> quiet (Inr ()) | Some lc \<Rightarrow> outside (CallAdmit run) (lc_admit lc r run))
      in case admitted of
           Inl e \<Rightarrow> (admit_calls, rs, Inl e)
         | Inr _ \<Rightarrow>
             (case guarded_run cfg r run rs of
                (calls, Inl e) \<Rightarrow> (admit_calls @ calls @ failure_calls cfg e, rs, Inl e)
              | (calls, Inr (fixed, rs')) \<Rightarrow>
                  if wa_run (fr_current fixed) \<noteq> run
                  then (admit_calls @ calls @ failure_calls cfg WatchLifecycleError, rs', Inl WatchLifecycleError)
                  else
                    let done_run = \<lparr>sr_version = sj_version r, sr_trigger = t, sr_run_id = run, sr_run = fixed\<rparr>
                    in (case wc_lifecycle cfg of
                          None \<Rightarrow> (admit_calls @ calls, rs', Inr done_run)
                        | Some lc \<Rightarrow>
                            (admit_calls @ calls @ [CallCompleted], rs',
                             py_bind (lc_completed lc r done_run) (\<lambda>_. Inr done_run)))))"

definition end_run ::
  "watch_config \<Rightarrow> stored_watch_job \<Rightarrow> watch_trigger \<Rightarrow> string \<Rightarrow> string \<Rightarrow> watch_service
     \<Rightarrow> watch_call list \<times> watch_service \<times> watch_service_run py" where
  \<comment> \<open>the body and the \<open>finally\<close> that releases the claim\<close>
  "end_run cfg r t fresh i svc =
     (case run_body cfg r t fresh (ws_runs svc) of
        (calls, rs', out) \<Rightarrow>
          (case watch_release i (svc\<lparr>ws_runs := rs'\<rparr>) of
             Inl e \<Rightarrow> (calls, svc\<lparr>ws_runs := rs'\<rparr>, Inl e)
           | Inr svc' \<Rightarrow> (calls, svc', out)))"

definition run_job ::
  "watch_config \<Rightarrow> string \<Rightarrow> string \<Rightarrow> string \<Rightarrow> watch_service \<Rightarrow> watch_call list \<times> watch_service \<times> watch_service_run py" where
  "run_job cfg fresh i trigger svc =
     (case begin_run i trigger svc of
        Inl e \<Rightarrow> ([], svc, Inl e)
      | Inr (r, t, svc') \<Rightarrow> end_run cfg r t fresh i svc')"

definition service_history :: "string \<Rightarrow> int \<Rightarrow> watch_service \<Rightarrow> watch_attempt list py" where
  "service_history i limit svc =
     py_bind (job_require (ws_jobs svc) i) (\<lambda>_. watch_history (ws_runs svc) i limit)"

definition service_latest :: "string \<Rightarrow> watch_service \<Rightarrow> watch_attempt option py" where
  "service_latest i svc =
     py_bind (job_require (ws_jobs svc) i) (\<lambda>_. latest_attempt (ws_runs svc) i None)"

definition service_active :: "string \<Rightarrow> watch_service \<Rightarrow> bool" where
  "service_active i svc \<longleftrightarrow> i \<in> ws_active svc"

definition service_enable :: "(string \<Rightarrow> string) \<Rightarrow> string \<Rightarrow> bool \<Rightarrow> int \<Rightarrow> watch_service \<Rightarrow> (stored_watch_job \<times> watch_service) py" where
  \<comment> \<open>\<open>enable\<close> and \<open>disable\<close>\<close>
  "service_enable sha i en expected svc =
     py_bind (job_set_enabled sha i en expected (ws_jobs svc)) (\<lambda>(r, st). Inr (r, svc\<lparr>ws_jobs := st\<rparr>))"

end
