(* ===== verification/Watch_Properties.thy ===== *)
theory Watch_Properties
  imports Watch_Service
begin

text \<open>
  What the watch component promises: the history of a job's configuration is contiguous,
  append-only and made of valid jobs, stale writers lose, the revision names the procedure, a delta
  accounts for every observation, the ledger is the list of attempts, and a run calls outside code
  only between its admission and its one closing call.
\<close>

section \<open>Configuration\<close>

definition tells :: "watch_job_store \<Rightarrow> string \<Rightarrow> stored_watch_job list \<Rightarrow> bool" where
  \<comment> \<open>what the store answers about one job is this list of versions\<close>
  "tells st i h \<longleftrightarrow>
     job_get st i = Inr (if h = [] then None else Some (last h))
     \<and> map sj_version h = map int [1..<Suc (length h)]
     \<and> (\<forall>n. job_version st i (int n + 1) = Inr (if n < length h then Some (h ! n) else None))"

definition read_row :: "watch_job_row \<Rightarrow> stored_watch_job" where
  "read_row r = (case job_record r of Inl _ \<Rightarrow> undefined | Inr x \<Rightarrow> x)"

lemma read_row_good:
  assumes "good_row sha r"
  shows "job_record r = Inr (read_row r)" "sj_version (read_row r) = jr_version r"
    "job_ok (sj_job (read_row r))" "fj_id (sj_job (read_row r)) = jr_id r"
    "jr_revision r = revision_sha256 sha (sj_job (read_row r))"
  using job_record_good [OF assms] by (auto simp: read_row_def)

lemma find_version:
  assumes "map jr_version vs = map int [1..<Suc (length vs)]"
  shows "find (\<lambda>r. jr_version r = int n + 1) vs = (if n < length vs then Some (vs ! n) else None)"
proof -
  have at: "jr_version (vs ! m) = int m + 1" if "m < length vs" for m
    using arg_cong [OF assms, of "\<lambda>l. l ! m"] that by (simp del: upt_Suc add: nth_map)
  show ?thesis
  proof (cases "n < length vs")
    case True
    then show ?thesis by (auto simp: find_Some_iff at)
  next
    case False
    then show ?thesis by (auto simp: find_None_iff in_set_conv_nth at)
  qed
qed

lemma find_filter: "find P (filter Q xs) = find (\<lambda>x. Q x \<and> P x) xs"
  by (induction xs) auto

lemma store_tells: "job_store_ok sha st \<Longrightarrow> tells st i (map read_row (versions_of st i))"
proof -
  assume ok: "job_store_ok sha st"
  let ?vs = "versions_of st i"
  have good: "good_row sha r" if "r \<in> set ?vs" for r
    using ok that by (auto simp: job_store_ok_def versions_of_def)
  have nums: "map jr_version ?vs = map int [1..<Suc (length ?vs)]"
    and cur: "current_row st i = (if ?vs = [] then None else Some (last ?vs))"
    using ok by (auto simp: job_store_ok_def)
  have "map (sj_version \<circ> read_row) ?vs = map jr_version ?vs"
    using good read_row_good(2) by (intro map_cong) auto
  moreover have "job_get st i = Inr (if ?vs = [] then None else Some (read_row (last ?vs)))"
    using good [THEN read_row_good(1)] by (simp add: job_get_def cur)
  moreover have "job_version st i (int n + 1) = Inr (if n < length ?vs then Some (read_row (?vs ! n)) else None)" for n
  proof -
    have "version_row st i (int n + 1) = (if n < length ?vs then Some (?vs ! n) else None)"
      using find_version [OF nums, of n] by (simp add: version_row_def versions_of_def find_filter)
    then show ?thesis using good [THEN read_row_good(1)] by (simp add: job_version_def)
  qed
  ultimately show ?thesis by (simp add: tells_def nums last_map del: upt_Suc)
qed

lemma reachable_store_ok: "job_store_ok sha (run_ops (job_step sha) ops empty_job_store)"
  by (rule configuration.run_inv) (rule empty_job_store_ok)

text \<open>C29: Whatever was written to the store, reading a job back never raises, and what comes back is
  a value of the job type: the constructor accepts it unchanged and it carries the requested id.\<close>

theorem stored_jobs_are_valid:
  "\<exists>x. job_get (run_ops (job_step sha) ops empty_job_store) i = Inr x
     \<and> pred_option (\<lambda>r. mk_watch_job (args_of (sj_job r)) = Inr (sj_job r) \<and> fj_id (sj_job r) = i) x"
proof -
  let ?st = "run_ops (job_step sha) ops empty_job_store"
  let ?vs = "versions_of ?st i"
  have ok: "job_store_ok sha ?st" by (rule reachable_store_ok)
  have good: "good_row sha r \<and> jr_id r = i" if "r \<in> set ?vs" for r
    using ok that by (auto simp: job_store_ok_def versions_of_def)
  from store_tells [OF ok, of i] have "job_get ?st i = Inr (if ?vs = [] then None else Some (read_row (last ?vs)))"
    by (simp add: tells_def last_map)
  moreover have "mk_watch_job (args_of (sj_job (read_row r))) = Inr (sj_job (read_row r)) \<and> fj_id (sj_job (read_row r)) = i"
    if "r \<in> set ?vs" for r
    using good [OF that] read_row_good(3,4) [of sha r] by (simp add: mk_watch_job_again)
  ultimately show ?thesis using last_in_set [of ?vs] by (cases "?vs = []") auto
qed

text \<open>C28: After any script of writes by any number of writers, the versions of a job are numbered 1, 2, ...
  without a gap, the current configuration is the last of them, and every later script only adds versions
  behind them: no version is rewritten or lost.\<close>

theorem version_history_is_append_only:
  "\<exists>h new. tells (run_ops (job_step sha) ops empty_job_store) i h
     \<and> tells (run_ops (job_step sha) (ops @ later) empty_job_store) i (h @ new)"
proof -
  let ?st = "run_ops (job_step sha) ops empty_job_store"
  let ?after = "run_ops (job_step sha) (ops @ later) empty_job_store"
  have "history_grows ?st ?after"
    using configuration.run_below [OF reachable_store_ok] by (simp add: run_ops_append)
  then obtain new where "js_versions ?after = js_versions ?st @ new" by (auto simp: history_grows_def)
  then have "versions_of ?after i = versions_of ?st i @ filter (\<lambda>r. jr_id r = i) new"
    by (simp add: versions_of_def)
  with store_tells [OF reachable_store_ok, of sha ops i] store_tells [OF reachable_store_ok, of sha "ops @ later" i]
  show ?thesis by (metis map_append)
qed

section \<open>Concurrent writers\<close>

lemma current_version:
  assumes "job_store_ok sha st" "x \<in> set (js_jobs st)"
  shows "jr_version x = int (length (versions_of st (jr_id x)))" "versions_of st (jr_id x) \<noteq> []"
proof -
  let ?vs = "versions_of st (jr_id x)"
  have "current_row st (jr_id x) = Some x" using assms by (intro current_mem) (auto simp: job_store_ok_def)
  with assms have l: "?vs \<noteq> [] \<and> last ?vs = x" by (auto simp: job_store_ok_def split: if_splits)
  have "map jr_version ?vs = map int [1..<Suc (length ?vs)]" using assms by (simp add: job_store_ok_def)
  from arg_cong [OF this, of last] l show "jr_version x = int (length ?vs)" by (simp add: last_map Suc_le_eq)
  from l show "?vs \<noteq> []" by simp
qed

lemma history_length: "history_grows st st' \<Longrightarrow> length (versions_of st i) \<le> length (versions_of st' i)"
  by (auto simp: history_grows_def versions_of_def)

lemma stale_version_absent:
  assumes st: "job_store_ok sha st" and w: "job_replace sha cur j en sched expected st = Inr (r, st1)" "st1 \<noteq> st"
    and ok: "job_ok j" and after: "job_store_ok sha st2" "history_grows st1 st2"
    and x: "x \<in> set (js_jobs st2)" "jr_id x = fj_id j"
  shows "jr_version x \<noteq> expected"
  using w(1)
proof (cases rule: replace_cases)
  case 1
  with w(2) show ?thesis by simp
next
  case (2 y)
  have "jr_version y = int (length (versions_of st (fj_id j)))"
    using current_version [OF st 2(2)] 2(3) by simp
  moreover have "length (versions_of st1 (fj_id j)) = Suc (length (versions_of st (fj_id j)))"
    by (simp add: 2(6) versions_of_append)
  ultimately show ?thesis
    using current_version(1) [OF after(1) x(1)] history_length [OF after(2), of "fj_id j"] x(2) 2(4) by simp
qed

text \<open>C27: Two writers read the same version of a job.  Once one of them has written a change, the other's
  change is refused as a conflict, however many further writes came in between: no update is lost silently.\<close>

theorem stale_write_is_refused:
  assumes "st = run_ops (job_step sha) ops empty_job_store"
    and "job_ok j" "job_replace sha cur j en sched (sj_version cur) st = Inr (r, st1)" "st1 \<noteq> st"
    and "st2 = run_ops (job_step sha) later st1"
    and "fj_id k = fj_id j"
    and "encoded_job k \<noteq> encoded_job (sj_job cur) \<or> en' \<noteq> sj_enabled cur \<or> sched' \<noteq> sj_schedule cur"
  shows "job_replace sha cur k en' sched' (sj_version cur) st2 = Inl WatchJobConflict"
proof -
  have st: "job_store_ok sha st" by (simp add: assms(1) reachable_store_ok)
  have st1: "job_store_ok sha st1" using st assms(2,3) by (rule replace_ok)
  then have st2: "job_store_ok sha st2" "history_grows st1 st2"
    unfolding assms(5) by (rule configuration.run_inv, rule configuration.run_below)
  have "filter (\<lambda>x. jr_id x = fj_id k \<and> jr_version x = sj_version cur) (js_jobs st2) = []"
    using stale_version_absent [OF st assms(3,4,2) st2] assms(6) by (auto simp: filter_empty_conv)
  with assms(7) show ?thesis by (auto simp: job_replace_def Let_def)
qed

section \<open>Revisions and deltas\<close>

text \<open>The revision of a job names its procedure: as far as the hash does not collide on the two
  texts, two jobs have the same revision exactly when they differ at most in identifier and label.\<close>

theorem revision_names_the_procedure:
  assumes "inj_on sha {canonical_bytes (PDict (revision_payload j)), canonical_bytes (PDict (revision_payload k))}"
  shows "revision_sha256 sha j = revision_sha256 sha k \<longleftrightarrow> k = j\<lparr>fj_id := fj_id k, fj_name := fj_name k\<rparr>"
proof
  assume "revision_sha256 sha j = revision_sha256 sha k"
  then have "sha (canonical_bytes (PDict (revision_payload j))) = sha (canonical_bytes (PDict (revision_payload k)))"
    by (simp add: revision_sha256_def)
  then show "k = j\<lparr>fj_id := fj_id k, fj_name := fj_name k\<rparr>"
    by (rule revision_text_fields [OF inj_onD [OF assms]]) simp_all
next
  assume "k = j\<lparr>fj_id := fj_id k, fj_name := fj_name k\<rparr>"
  then have "revision_payload k = revision_payload (j\<lparr>fj_id := fj_id k, fj_name := fj_name k\<rparr>)" by simp
  then show "revision_sha256 sha j = revision_sha256 sha k"
    by (simp add: revision_sha256_def revision_payload_def)
qed

text \<open>The comparison of two recorded attempts never raises.  It is refused exactly when the two are
  the same run, belong to different contracts or one is incomplete; otherwise every observation of either
  run is counted once, and replaying removals and changes on the earlier observations gives the later ones
  up to the added keys.\<close>

theorem delta_accounts_for_every_observation:
  assumes "mk_watch_attempt a = Inr p" "mk_watch_attempt b = Inr c"
  shows "\<exists>d. compare_attempts p c = Inr d
    \<and> (wd_status d = INCOMPARABLE \<longleftrightarrow>
        wa_run p = wa_run c \<or> wa_job p \<noteq> wa_job c \<or> wa_revision p \<noteq> wa_revision c
        \<or> wa_contract p \<noteq> wa_contract c \<or> wa_schema p \<noteq> wa_schema c \<or> \<not> wa_complete p \<or> \<not> wa_complete c)
    \<and> (wd_status d = COMPARABLE \<longrightarrow>
        length (wa_observations c) = length (wd_added d) + length (wd_changed d) + nat (wd_unchanged d)
        \<and> length (wa_observations p) = length (wd_removed d) + length (wd_changed d) + nat (wd_unchanged d)
        \<and> (\<forall>k. k \<notin> set (wd_added d) \<longrightarrow> apply_delta d (observed p) k = observed c k))"
proof -
  obtain d where d: "compare_attempts p c = Inr d" "wd_status d = COMPARABLE \<longleftrightarrow> incomparable_reasons p c = []"
    using delta_returns by blast
  have "wd_status d = INCOMPARABLE \<longleftrightarrow> incomparable_reasons p c \<noteq> []"
    using d(2) by (cases "wd_status d") auto
  with d delta_counts [OF assms [THEN mk_watch_attempt_ok] d(1)] delta_replays [OF d(1)] show ?thesis
    by (intro exI [of _ d]) (auto simp: incomparable_reasons_def)
qed

section \<open>The ledger\<close>

lemma takeWhile_stops: "\<exists>x \<in> set xs. \<not> P x \<Longrightarrow> length (takeWhile P xs) < length xs"
  by (induction xs) auto

lemma record_known_or_new:
  assumes ok: "ledger_ok as" and a: "attempt_ok a"
  shows "record_attempt a (ledger_of as) =
      (if wa_run a \<notin> wa_run ` set as then Inr (int (Suc (length as)), True, ledger_of (as @ [a]))
       else let n = length (takeWhile (\<lambda>b. wa_run b \<noteq> wa_run a) as)
            in if as ! n = a then Inr (int (Suc n), False, ledger_of as) else Inl WatchRunConflict)"
proof (cases "wa_run a \<in> wa_run ` set as")
  case True
  let ?n = "length (takeWhile (\<lambda>b. wa_run b \<noteq> wa_run a) as)"
  from True have n: "?n < length as" by (intro takeWhile_stops) auto
  then have "wa_run a = wa_run (as ! ?n)"
    using nth_length_takeWhile [of "\<lambda>b. wa_run b \<noteq> wa_run a" as] by simp
  from record_again [OF ok n this a] True show ?thesis by (auto simp: Let_def)
next
  case False
  then show ?thesis by (simp only: record_new simp_thms if_True)
qed

text \<open>C30: The ledger of attempts implements a list.  Recording a new run appends it, recording the same
  attempt again returns its number and changes nothing, another attempt under a known run is refused; the
  latest attempt of a job and its history are read off the list.\<close>

theorem ledger_refines_attempt_list:
  assumes "ledger_ok as" "mk_watch_attempt x = Inr a"
  shows "record_attempt a (ledger_of as) =
      (if wa_run a \<notin> wa_run ` set as then Inr (int (Suc (length as)), True, ledger_of (as @ [a]))
       else let n = length (takeWhile (\<lambda>b. wa_run b \<noteq> wa_run a) as)
            in if as ! n = a then Inr (int (Suc n), False, ledger_of as) else Inl WatchRunConflict)
    \<and> latest_attempt (ledger_of as) job None =
      Inr (let mine = filter (\<lambda>b. wa_job b = job) as in if mine = [] then None else Some (last mine))
    \<and> watch_history (ledger_of as) job limit =
      (if 1 \<le> limit \<and> limit \<le> 1000 then Inr (take (nat limit) (rev (filter (\<lambda>b. wa_job b = job) as)))
       else Inl ValueError)"
  using history_ledger [OF assms(1), of limit job]
  by (intro conjI record_known_or_new latest_ledger assms(1) mk_watch_attempt_ok [OF assms(2)])
    (auto simp: watch_history_def py_check_def)

section \<open>Runs\<close>

lemma store_attempt_ledger:
  assumes as: "ledger_ok as" and a: "attempt_ok a" and s: "store_attempt a (ledger_of as) = Inr (fx, rs')"
  shows "wa_run a \<notin> wa_run ` set as \<and> rs' = ledger_of (as @ [a]) \<and> fr_current fx = a
    \<and> latest_attempt (ledger_of as) (wa_job a) None = Inr (fr_previous fx)
    \<and> rel_option (\<lambda>p d. compare_attempts p a = Inr d) (fr_previous fx) (fr_delta fx)"
proof -
  from s obtain previous n created delta where
    l: "latest_attempt (ledger_of as) (wa_job a) None = Inr previous"
    and r: "record_attempt a (ledger_of as) = Inr (n, created, rs')" and created
    and d: "(case previous of None \<Rightarrow> Inr None | Some p \<Rightarrow> py_bind (compare_attempts p a) (Inr \<circ> Some)) = Inr delta"
    and fx: "fx = \<lparr>fr_sequence = n, fr_current = a, fr_previous = previous, fr_delta = delta\<rparr>"
    by (auto simp: store_attempt_def py_bind_Inr_iff)
  from d have "rel_option (\<lambda>p d. compare_attempts p a = Inr d) previous delta"
    by (auto simp: py_bind_Inr_iff split: option.splits)
  with record_step_cases [OF as a r] \<open>created\<close> l fx show ?thesis by simp
qed

lemma runner_run_cases:
  assumes run: "uuid_text run = Inr run" "run \<noteq> []"
    and r: "runner_run sha rn fresh j (Some run) rs = (calls, out)"
  obtains e n where "out = Inl e" "n = 1 \<or> n = 2" "calls = take n [CallObserve, CallExecute]"
    | a fx rs' where "calls = [CallObserve, CallExecute]" "out = Inr (fx, rs')" "store_attempt a rs = Inr (fx, rs')"
      "attempt_ok a" "wa_run a = run" "wa_job a = fj_id j"
proof -
  have attempt: "attempt_ok a \<and> wa_run a = run \<and> wa_job a = fj_id j" if "new_attempt sha rn j run src res = Inr a" for src res a
  proof
    show "attempt_ok a" using that unfolding new_attempt_def by (rule mk_watch_attempt_ok)
    show "wa_run a = run \<and> wa_job a = fj_id j"
      using that by (auto simp: new_attempt_def mk_watch_attempt_def py_bind_Inr_iff)
  qed
  show thesis
  proof (cases "rn_observe rn j")
    case (Inl e)
    with run r show thesis by (intro that(1) [of e 1]) (auto simp: runner_run_def tr_bind_def quiet_def outside_def)
  next
    case obs: (Inr src)
    show thesis
    proof (cases "rn_execute rn j src")
      case (Inl e)
      with run r obs show thesis by (intro that(1) [of e 2]) (auto simp: runner_run_def tr_bind_def quiet_def outside_def)
    next
      case res: (Inr res)
      have calls: "calls = [CallObserve, CallExecute]"
        and out: "out = py_bind (new_attempt sha rn j run src res) (\<lambda>a. store_attempt a rs)"
        using run r obs res by (auto simp: runner_run_def tr_bind_def quiet_def outside_def py_bind_def split: sum.splits)
      show thesis
      proof (cases out)
        case (Inl e)
        with calls show thesis by (intro that(1) [of e 2]) auto
      next
        case (Inr p)
        from out [symmetric, unfolded Inr py_bind_Inr_iff]
        obtain a where "new_attempt sha rn j run src res = Inr a" "store_attempt a rs = Inr p" by blast
        with Inr calls attempt show thesis by (cases p) (auto intro: that(2))
      qed
    qed
  qed
qed

definition outside_calls :: "string \<Rightarrow> watch_call list" where
  \<comment> \<open>the calls of a run that stores an attempt, before its closing call\<close>
  "outside_calls run = [CallAdmit run, CallBuild, CallStart, CallObserve, CallExecute]"

lemma guarded_run_cases:
  assumes lc: "wc_lifecycle cfg = Some lc" and run: "uuid_text run = Inr run" "run \<noteq> []"
    and g: "guarded_run cfg r run rs = (calls, out)"
  obtains e n where "out = Inl e" "n \<in> {2, 3, 4, 5}" "CallAdmit run # calls = take n (outside_calls run)"
    | a fx rs' where "CallAdmit run # calls = outside_calls run" "out = Inr (fx, rs')"
      "store_attempt a rs = Inr (fx, rs')" "attempt_ok a" "wa_run a = run" "wa_job a = fj_id (sj_job r)"
proof (cases "wc_factory cfg r run")
  case (Inl e)
  with g lc show thesis
    by (intro that(1) [of e 2]) (auto simp: guarded_run_def tr_bind_def quiet_def outside_def outside_calls_def)
next
  case rn: (Inr rn)
  show thesis
  proof (cases "lc_start lc r run")
    case (Inl e)
    with g lc rn show thesis
      by (intro that(1) [of e 3]) (auto simp: guarded_run_def tr_bind_def quiet_def outside_def outside_calls_def)
  next
    case (Inr u)
    obtain more_calls where rr: "runner_run (wc_sha cfg) rn run (sj_job r) (Some run) rs = (more_calls, out)"
      and calls: "calls = [CallBuild, CallStart] @ more_calls"
      using g lc rn Inr by (auto simp: guarded_run_def tr_bind_def quiet_def outside_def prod_eq_iff split: sum.splits)
    show thesis
    proof (rule runner_run_cases [OF run rr])
      fix e n assume "out = Inl e" "n = 1 \<or> n = 2" "more_calls = take n [CallObserve, CallExecute]"
      then show thesis by (intro that(1) [of e "n + 3"]) (auto simp: calls outside_calls_def)
    next
      fix a fx rs'
      assume "more_calls = [CallObserve, CallExecute]" "out = Inr (fx, rs')" "store_attempt a rs = Inr (fx, rs')"
        "attempt_ok a" "wa_run a = run" "wa_job a = fj_id (sj_job r)"
      then show thesis by (intro that(2) [of fx rs' a]) (auto simp: calls outside_calls_def)
    qed
  qed
qed

lemma run_body_cases:
  assumes lc: "wc_lifecycle cfg = Some lc" and run: "uuid_text run = Inr run" "run \<noteq> []" and as: "ledger_ok as"
    and b: "run_body cfg r t run (ledger_of as) = (calls, rs', out)"
  obtains e where "calls = [CallAdmit run]" "rs' = ledger_of as" "out = Inl e"
    | e n where "n \<in> {2, 3, 4, 5}" "calls = take n (outside_calls run) @ [CallFailed e]" "rs' = ledger_of as" "out = Inl e"
    | a fx where "calls = outside_calls run @ [CallCompleted]" "rs' = ledger_of (as @ [a])" "wa_run a = run"
      "wa_job a = fj_id (sj_job r)" "attempt_ok a" "store_attempt a (ledger_of as) = Inr (fx, rs')"
      "pred_option (\<lambda>x. sr_run x = fx \<and> sr_version x = sj_version r) (case out of Inl e \<Rightarrow> None | Inr x \<Rightarrow> Some x)"
proof (cases "lc_admit lc r run")
  case (Inl e)
  with b lc show thesis by (intro that(1) [of e]) (auto simp: run_body_def outside_def)
next
  case adm: (Inr u)
  obtain gcalls gout where g: "guarded_run cfg r run (ledger_of as) = (gcalls, gout)" by (cases "guarded_run cfg r run (ledger_of as)")
  show thesis
  proof (rule guarded_run_cases [OF lc run g])
    fix e n assume "gout = Inl e" "n \<in> {2, 3, 4, 5::nat}" "CallAdmit run # gcalls = take n (outside_calls run)"
    with b g lc adm show thesis
      by (intro that(2) [of n e]) (auto simp: run_body_def outside_def failure_calls_def)
  next
    fix a fx rs'' assume calls: "CallAdmit run # gcalls = outside_calls run" and out: "gout = Inr (fx, rs'')"
      and s: "store_attempt a (ledger_of as) = Inr (fx, rs'')" and a: "attempt_ok a" "wa_run a = run" "wa_job a = fj_id (sj_job r)"
    have st: "rs'' = ledger_of (as @ [a])" "fr_current fx = a" using store_attempt_ledger [OF as a(1) s] by auto
    from b g lc adm out st a(2) have rs: "rs' = rs''" "calls = CallAdmit run # gcalls @ [CallCompleted]"
      and o: "out = py_bind (lc_completed lc r \<lparr>sr_version = sj_version r, sr_trigger = t, sr_run_id = run, sr_run = fx\<rparr>)
        (\<lambda>_. Inr \<lparr>sr_version = sj_version r, sr_trigger = t, sr_run_id = run, sr_run = fx\<rparr>)"
      by (auto simp: run_body_def outside_def Let_def)
    show thesis
    proof (rule that(3))
      show "calls = outside_calls run @ [CallCompleted]" using rs(2) calls by simp
      show "pred_option (\<lambda>x. sr_run x = fx \<and> sr_version x = sj_version r) (case out of Inl e \<Rightarrow> None | Inr x \<Rightarrow> Some x)"
        using o by (auto simp: py_bind_def split: sum.splits)
    qed (use rs st s a in simp_all)
  qed
qed

lemma begin_run_Inr:
  assumes "begin_run i trigger svc = Inr (r, t, svc')"
  shows "job_require (ws_jobs svc) i = Inr r" "i \<notin> ws_active svc" "svc' = svc\<lparr>ws_active := insert i (ws_active svc)\<rparr>"
  using assms by (auto simp: begin_run_def watch_claim_def py_bind_Inr_iff)

text \<open>C26: With a lifecycle attached, a run touches the outside only in the order admission, construction,
  start, observation, execution.  When it fails before its attempt is stored the ledger is unchanged and the
  last call reports the failure; when its attempt is stored the last call reports completion, and failure is
  not reported.  In every case the claim is given back and the configuration is as before.\<close>

theorem run_is_fenced:
  assumes "wc_lifecycle cfg = Some lc" "is_ledger (ws_runs svc)" "uuid_text fresh = Inr fresh" "fresh \<noteq> []"
    and "run_job cfg fresh i trigger svc = (calls, svc', out)"
  shows "ws_active svc' = ws_active svc \<and> ws_jobs svc' = ws_jobs svc
    \<and> ((calls = [] \<or> calls = [CallAdmit fresh]) \<and> ws_runs svc' = ws_runs svc \<and> (\<exists>e. out = Inl e)
       \<or> (\<exists>n e. n \<in> {2, 3, 4, 5} \<and> calls = take n (outside_calls fresh) @ [CallFailed e]
                \<and> ws_runs svc' = ws_runs svc \<and> out = Inl e)
       \<or> (\<exists>row. calls = outside_calls fresh @ [CallCompleted] \<and> ws_runs svc' = ws_runs svc @ [row] \<and> ar_run row = fresh))"
proof (cases "begin_run i trigger svc")
  case (Inl e)
  with assms(5) show ?thesis by (auto simp: run_job_def)
next
  case (Inr p)
  then obtain r t svc1 where p: "begin_run i trigger svc = Inr (r, t, svc1)" by (cases p) auto
  note claimed = begin_run_Inr [OF p]
  obtain as where as: "ledger_ok as" "ws_runs svc = ledger_of as" using assms(2) by (auto simp: is_ledger_def)
  obtain rs' out' where b: "run_body cfg r t fresh (ledger_of as) = (calls, rs', out')"
    and svc': "svc' = svc\<lparr>ws_runs := rs'\<rparr>" and out: "out = out'"
    using assms(5) p claimed as(2)
    by (cases "run_body cfg r t fresh (ledger_of as)") (auto simp: run_job_def end_run_def watch_release_def)
  show ?thesis
  proof (rule run_body_cases [OF assms(1,3,4) as(1) b])
    fix a fx assume "calls = outside_calls fresh @ [CallCompleted]" "rs' = ledger_of (as @ [a])" "wa_run a = fresh"
    then show ?thesis by (simp add: svc' as(2))
  qed (use as svc' out in auto)
qed

lemma require_good:
  assumes "job_store_ok sha st" "job_require st i = Inr r"
  shows "fj_id (sj_job r) = i"
proof -
  have "tells st i (map read_row (versions_of st i))" using assms(1) by (rule store_tells)
  with assms(2) have "versions_of st i \<noteq> []" "r = read_row (last (versions_of st i))"
    by (auto simp: tells_def job_require_def last_map split: if_splits)
  moreover from this have "last (versions_of st i) \<in> set (versions_of st i)" by simp
  ultimately show ?thesis
    using assms(1) read_row_good(4) by (auto simp: job_store_ok_def versions_of_def)
qed

text \<open>A run that returns was compared with the attempt that was the job's latest before it (a first run
  with none), by the comparison of attempts, and it is the job's latest attempt afterwards.\<close>

theorem run_is_compared_with_the_latest:
  assumes "wc_lifecycle cfg = Some lc" "is_ledger (ws_runs svc)" "job_store_ok sha (ws_jobs svc)"
    and "uuid_text fresh = Inr fresh" "fresh \<noteq> []"
    and "run_job cfg fresh i trigger svc = (calls, svc', Inr x)"
  shows "latest_attempt (ws_runs svc) i None = Inr (fr_previous (sr_run x))
    \<and> latest_attempt (ws_runs svc') i None = Inr (Some (fr_current (sr_run x)))
    \<and> rel_option (\<lambda>p d. compare_attempts p (fr_current (sr_run x)) = Inr d) (fr_previous (sr_run x)) (fr_delta (sr_run x))"
proof -
  obtain r t svc1 where p: "begin_run i trigger svc = Inr (r, t, svc1)"
    using assms(6) by (cases "begin_run i trigger svc") (auto simp: run_job_def)
  note claimed = begin_run_Inr [OF p]
  have job: "fj_id (sj_job r) = i" using assms(3) claimed(1) by (rule require_good)
  obtain as where as: "ledger_ok as" "ws_runs svc = ledger_of as" using assms(2) by (auto simp: is_ledger_def)
  obtain rs' where b: "run_body cfg r t fresh (ledger_of as) = (calls, rs', Inr x)" and svc': "svc' = svc\<lparr>ws_runs := rs'\<rparr>"
    using assms(6) p claimed as(2)
    by (cases "run_body cfg r t fresh (ledger_of as)") (auto simp: run_job_def end_run_def watch_release_def)
  show ?thesis
  proof (rule run_body_cases [OF assms(1,4,5) as(1) b])
    fix a fx assume rs': "rs' = ledger_of (as @ [a])" and a: "wa_job a = fj_id (sj_job r)" "attempt_ok a"
      and s: "store_attempt a (ledger_of as) = Inr (fx, rs')"
      and x: "pred_option (\<lambda>y. sr_run y = fx \<and> sr_version y = sj_version r) (case Inr x of Inl e \<Rightarrow> None | Inr y \<Rightarrow> Some y)"
    note st = store_attempt_ledger [OF as(1) a(2) s]
    have "ledger_ok (as @ [a])" using as(1) a(2) st by (auto simp: ledger_ok_def)
    from latest_ledger [OF this, of i] st x a job show ?thesis by (simp add: svc' as(2) rs' Let_def del: ledger_of_snoc)
  qed simp_all
qed

section \<open>Overlap\<close>

text \<open>Other calls may come between the claim of a run and its body: the runs in flight are those that
  have claimed and not yet ended.\<close>

datatype watch_op =
    Configure job_op
  | BeginRun string string
  | EndRun nat string

type_synonym flight = "string \<times> stored_watch_job \<times> watch_trigger"

fun watch_step :: "watch_config \<Rightarrow> watch_op \<Rightarrow> watch_service \<times> flight list \<Rightarrow> (watch_service \<times> flight list) py" where
  "watch_step cfg (Configure x) (svc, fs) =
     py_bind (job_step (wc_sha cfg) x (ws_jobs svc)) (\<lambda>st. Inr (svc\<lparr>ws_jobs := st\<rparr>, fs))"
| "watch_step cfg (BeginRun i trigger) (svc, fs) =
     py_bind (begin_run i trigger svc) (\<lambda>(r, t, svc'). Inr (svc', fs @ [(i, r, t)]))"
| "watch_step cfg (EndRun n fresh) (svc, fs) =
     (if n < length fs then
        (case fs ! n of (i, r, t) \<Rightarrow>
           Inr (fst (snd (end_run cfg r t fresh i svc)), take n fs @ drop (Suc n) fs))
      else Inl KeyError)"

definition flights_ok :: "watch_service \<times> flight list \<Rightarrow> bool" where
  "flights_ok s \<longleftrightarrow> ws_active (fst s) = fst ` set (snd s) \<and> distinct (map fst (snd s))"

lemma end_run_active:
  "i \<in> ws_active svc \<Longrightarrow> ws_active (fst (snd (end_run cfg r t fresh i svc))) = ws_active svc - {i}"
  by (auto simp: end_run_def watch_release_def split: prod.splits)

lemma without_one:
  assumes "distinct (map fst fs)" "n < length fs"
  shows "distinct (map fst (take n fs @ drop (Suc n) fs))"
    and "fst ` set (take n fs @ drop (Suc n) fs) = fst ` set fs - {fst (fs ! n)}"
proof -
  have split: "fs = take n fs @ fs ! n # drop (Suc n) fs" using assms(2) by (rule id_take_nth_drop)
  then have m: "map fst fs = map fst (take n fs) @ fst (fs ! n) # map fst (drop (Suc n) fs)" by (metis list.simps(9) map_append)
  then show "distinct (map fst (take n fs @ drop (Suc n) fs))" using assms(1) by simp
  have "set (map fst fs) = set (map fst (take n fs @ drop (Suc n) fs)) \<union> {fst (fs ! n)}" unfolding m by auto
  moreover have "fst (fs ! n) \<notin> set (map fst (take n fs @ drop (Suc n) fs))" using assms(1) m by auto
  ultimately show "fst ` set (take n fs @ drop (Suc n) fs) = fst ` set fs - {fst (fs ! n)}" by auto
qed

interpretation overlapping: guarded_machine "watch_step cfg" flights_ok for cfg
proof unfold_locales
  fix s x s' assume ok: "flights_ok s" and step: "watch_step cfg x s = Inr s'"
  obtain svc fs where s: "s = (svc, fs)" by (cases s)
  show "flights_ok s'"
  proof (cases x)
    case (Configure y)
    with step s obtain st where "s' = (svc\<lparr>ws_jobs := st\<rparr>, fs)" by (auto simp: py_bind_Inr_iff)
    with ok s show ?thesis by (simp add: flights_ok_def)
  next
    case (BeginRun i trigger)
    with step s obtain r t svc' where b: "begin_run i trigger svc = Inr (r, t, svc')" "s' = (svc', fs @ [(i, r, t)])"
      by (auto simp: py_bind_Inr_iff)
    with begin_run_Inr [OF b(1)] ok s show ?thesis by (auto simp: flights_ok_def)
  next
    case (EndRun n fresh)
    obtain i r t where f: "fs ! n = (i, r, t)" by (cases "fs ! n")
    from step s EndRun f have n: "n < length fs"
      and s': "s' = (fst (snd (end_run cfg r t fresh i svc)), take n fs @ drop (Suc n) fs)" by (auto split: if_splits)
    have "i \<in> ws_active svc" using ok s n f nth_mem [OF n] by (force simp: flights_ok_def)
    with without_one [of fs n] n ok s f show ?thesis by (simp add: s' flights_ok_def end_run_active)
  qed
qed

text \<open>However configuration, claims and ends of runs are interleaved, a job never has two runs in flight:
  the active set is exactly the jobs in flight, a further claim of such a job is an overlap, and the end of a
  run always finds its claim to release.\<close>

theorem one_run_per_job:
  "case run_ops (watch_step cfg) ops (\<lparr>ws_jobs = empty_job_store, ws_runs = [], ws_active = {}\<rparr>, []) of
     (svc, fs) \<Rightarrow>
       distinct (map fst fs)
       \<and> (watch_claim i svc = Inl WatchOverlap \<longleftrightarrow> i \<in> fst ` set fs)
       \<and> ((\<exists>svc'. watch_release i svc = Inr svc') \<longleftrightarrow> i \<in> fst ` set fs)"
proof -
  let ?s = "run_ops (watch_step cfg) ops (\<lparr>ws_jobs = empty_job_store, ws_runs = [], ws_active = {}\<rparr>, [])"
  obtain svc fs where s: "?s = (svc, fs)" by (cases ?s)
  have "flights_ok ?s" by (rule overlapping.run_inv) (simp add: flights_ok_def)
  then show ?thesis by (simp add: s flights_ok_def watch_claim_def watch_release_def py_check_def)
qed

section \<open>Witnesses\<close>

definition sample_job :: fixed_watch_job where
  "sample_job =
     \<lparr>fj_id = ''11111111-1111-1111-1111-111111111111'', fj_name = ''nightly'', fj_repository = ''repo'',
      fj_host = ''host'', fj_selection = LOCAL_REF, fj_selector = ''main'', fj_dirty = REFUSE, fj_profile = ''tests'',
      fj_environment = [''PATH''], fj_contract = replicate 64 (CHR ''a''), fj_scope = [''src''], fj_timeout = 60,
      fj_skill = None, fj_endpoint = None, fj_schema = DELTA_SCHEMA_V1\<rparr>"

lemma sample_job_ok: "job_ok sample_job"
  by code_simp simp

definition sample_store :: "(string \<Rightarrow> string) \<Rightarrow> watch_job_store" where
  "sample_store sha = run_ops (job_step sha) [CreateJob (args_of sample_job) False None] empty_job_store"

lemma sample_store_row:
  "sample_store sha = \<lparr>js_jobs = [job_row sha sample_job 1 False None], js_versions = [job_row sha sample_job 1 False None]\<rparr>"
  by (simp add: sample_store_def after_op_def mk_watch_job_again [OF sample_job_ok] job_create_def current_row_def
      version_row_def empty_job_store_def normalise_schedule_def Let_def)

definition sample_read :: stored_watch_job where
  "sample_read = \<lparr>sj_job = sample_job, sj_version = 1, sj_enabled = False, sj_schedule = None\<rparr>"

lemma sample_require: "job_require (sample_store sha) (fj_id sample_job) = Inr sample_read"
  by (simp add: job_require_def job_get_def current_row_def sample_store_row job_record_def sample_read_def
      decode_encoded_job [OF sample_job_ok])

lemma sample_replace:
  "job_replace sha sample_read sample_job True None 1 (sample_store sha) =
     Inr (\<lparr>sj_job = sample_job, sj_version = 2, sj_enabled = True, sj_schedule = None\<rparr>,
          \<lparr>js_jobs = [job_row sha sample_job 2 True None],
           js_versions = [job_row sha sample_job 1 False None, job_row sha sample_job 2 True None]\<rparr>)"
  by (simp add: job_replace_def sample_read_def sample_store_row version_row_def Let_def)

lemma stale_write_is_refused_witness:
  "job_replace (\<lambda>_. []) sample_read sample_job False (Some ''daily'') 1
     \<lparr>js_jobs = [job_row (\<lambda>_. []) sample_job 2 True None],
      js_versions = [job_row (\<lambda>_. []) sample_job 1 False None, job_row (\<lambda>_. []) sample_job 2 True None]\<rparr>
   = Inl WatchJobConflict"
proof -
  let ?sha = "\<lambda>_. []"
  have v: "sj_version sample_read = 1" by (simp add: sample_read_def)
  have w: "job_replace ?sha sample_read sample_job True None (sj_version sample_read) (sample_store ?sha) =
      Inr (\<lparr>sj_job = sample_job, sj_version = 2, sj_enabled = True, sj_schedule = None\<rparr>,
          \<lparr>js_jobs = [job_row ?sha sample_job 2 True None],
           js_versions = [job_row ?sha sample_job 1 False None, job_row ?sha sample_job 2 True None]\<rparr>)"
    unfolding v by (rule sample_replace)
  show ?thesis
    using stale_write_is_refused [OF sample_store_def sample_job_ok w, where later = "[]" and k = sample_job
        and en' = False and sched' = "Some ''daily''"]
    by (simp add: sample_store_row v) (simp add: sample_read_def)
qed

lemma revision_names_the_procedure_witness:
  "revision_sha256 id sample_job \<noteq> revision_sha256 id (sample_job\<lparr>fj_timeout := 61\<rparr>)"
  using revision_names_the_procedure [of id sample_job "sample_job\<lparr>fj_timeout := 61\<rparr>"] by (simp add: sample_job_def)

definition sample_attempt :: "string \<Rightarrow> (string \<times> string) list \<Rightarrow> watch_attempt" where
  "sample_attempt run obs =
     \<lparr>wa_run = run, wa_job = fj_id sample_job, wa_revision = replicate 64 (CHR ''b''),
      wa_contract = replicate 64 (CHR ''c''), wa_schema = ''schema'', wa_head = ''main'',
      wa_digest = replicate 64 (CHR ''d''), wa_complete = True, wa_observations = obs\<rparr>"

definition run_one :: string where "run_one = ''00000000-0000-0000-0000-000000000000''"
definition run_two :: string where "run_two = ''33333333-3333-3333-3333-333333333333''"

lemma sample_attempts:
  "mk_watch_attempt (sample_attempt run_one [(''a'', ''1''), (''b'', ''1'')]) = Inr (sample_attempt run_one [(''a'', ''1''), (''b'', ''1'')])"
  "mk_watch_attempt (sample_attempt run_two [(''b'', ''2''), (''c'', ''1'')]) = Inr (sample_attempt run_two [(''b'', ''2''), (''c'', ''1'')])"
  by code_simp+

lemma delta_accounts_for_every_observation_witness:
  "\<exists>d. compare_attempts (sample_attempt run_one [(''a'', ''1''), (''b'', ''1'')])
          (sample_attempt run_two [(''b'', ''2''), (''c'', ''1'')]) = Inr d
    \<and> length (wd_added d) + length (wd_changed d) + nat (wd_unchanged d) = 2
    \<and> length (wd_removed d) + length (wd_changed d) + nat (wd_unchanged d) = 2"
proof -
  have "wd_status d = COMPARABLE" if "wd_status d \<noteq> INCOMPARABLE" for d :: watch_delta
    using that by (cases "wd_status d") auto
  moreover have "run_one \<noteq> run_two" by code_simp
  ultimately show ?thesis
    using delta_accounts_for_every_observation [OF sample_attempts] by (auto simp: sample_attempt_def)
qed

lemma ledger_refines_attempt_list_witness:
  "record_attempt (sample_attempt run_one [(''a'', ''1''), (''b'', ''1'')]) (ledger_of []) =
     Inr (1, True, ledger_of [sample_attempt run_one [(''a'', ''1''), (''b'', ''1'')]])"
  using ledger_refines_attempt_list [of "[]", OF _ sample_attempts(1)] by (simp add: ledger_ok_def)

definition sample_runner :: watch_runner where
  "sample_runner =
     \<lparr>rn_contract = replicate 64 (CHR ''c''),
      rn_observe = (\<lambda>_. Inr \<lparr>src_head = ''main'', src_digest = replicate 64 (CHR ''d'')\<rparr>),
      rn_execute = (\<lambda>_ _. Inr \<lparr>wx_schema = ''schema'', wx_complete = True, wx_observations = [(''a'', ''1'')]\<rparr>)\<rparr>"

definition sample_lifecycle :: watch_lifecycle where
  "sample_lifecycle = \<lparr>lc_admit = (\<lambda>_ _. Inr ()), lc_start = (\<lambda>_ _. Inr ()), lc_completed = (\<lambda>_ _. Inr ())\<rparr>"

definition sample_config :: watch_config where
  "sample_config =
     \<lparr>wc_sha = (\<lambda>_. replicate 64 (CHR ''b'')), wc_factory = (\<lambda>_ _. Inr sample_runner), wc_lifecycle = Some sample_lifecycle\<rparr>"

definition sample_service :: watch_service where
  "sample_service = \<lparr>ws_jobs = sample_store (\<lambda>_. replicate 64 (CHR ''b'')), ws_runs = [], ws_active = {}\<rparr>"

definition sample_source :: source_observation where
  "sample_source = \<lparr>src_head = ''main'', src_digest = replicate 64 (CHR ''d'')\<rparr>"

definition sample_result :: watch_result where
  "sample_result = \<lparr>wx_schema = ''schema'', wx_complete = True, wx_observations = [(''a'', ''1'')]\<rparr>"

lemma sample_outside:
  "rn_observe sample_runner j = Inr sample_source" "rn_execute sample_runner j src = Inr sample_result"
  "lc_admit sample_lifecycle r run = Inr ()" "lc_start sample_lifecycle r run = Inr ()"
  "lc_completed sample_lifecycle r x = Inr ()" "wc_lifecycle sample_config = Some sample_lifecycle"
  "wc_factory sample_config r run = Inr sample_runner" "wc_sha sample_config = (\<lambda>_. replicate 64 (CHR ''b''))"
  "ws_runs sample_service = []" "ws_active sample_service = {}"
  "ws_jobs sample_service = sample_store (\<lambda>_. replicate 64 (CHR ''b''))"
  by (simp_all add: sample_runner_def sample_lifecycle_def sample_config_def sample_service_def sample_source_def
      sample_result_def)

definition first_attempt :: watch_attempt where
  "first_attempt = sample_attempt run_one [(''a'', ''1'')]"

lemma first_attempt_sel [simp]: "wa_run first_attempt = run_one" "wa_observations first_attempt = [(''a'', ''1'')]"
  by (simp_all add: first_attempt_def sample_attempt_def)

lemma first_attempt_made:
  "new_attempt (\<lambda>_. replicate 64 (CHR ''b'')) sample_runner sample_job run_one sample_source sample_result = Inr first_attempt"
proof -
  have "mk_watch_attempt first_attempt = Inr first_attempt" by code_simp
  then show ?thesis
    by (simp add: new_attempt_def sample_runner_def sample_source_def sample_result_def first_attempt_def
        sample_attempt_def revision_sha256_def)
qed

lemma run_one_ok: "uuid_text run_one = Inr run_one" "run_one \<noteq> []"
  by code_simp+

lemma first_attempt_stored:
  "store_attempt first_attempt [] =
     Inr (\<lparr>fr_sequence = 1, fr_current = first_attempt, fr_previous = None, fr_delta = None\<rparr>, ledger_of [first_attempt])"
  using record_new [of first_attempt "[]"] by (simp add: store_attempt_def latest_attempt_def newest_first_def)

lemma sample_run:
  "\<exists>svc' x. run_job sample_config run_one (fj_id sample_job) ''manual'' sample_service
     = (outside_calls run_one @ [CallCompleted], svc', Inr x)"
proof -
  have "watch_trigger_of ''manual'' = Inr MANUAL" by code_simp
  then have b: "begin_run (fj_id sample_job) ''manual'' sample_service
      = Inr (sample_read, MANUAL, sample_service\<lparr>ws_active := {fj_id sample_job}\<rparr>)"
    using sample_require by (simp add: begin_run_def watch_claim_def sample_outside)
  have "sj_job sample_read = sample_job" by (simp add: sample_read_def)
  then have "guarded_run sample_config sample_read run_one [] = ([CallBuild, CallStart, CallObserve, CallExecute],
      Inr (\<lparr>fr_sequence = 1, fr_current = first_attempt, fr_previous = None, fr_delta = None\<rparr>, ledger_of [first_attempt]))"
    by (simp add: guarded_run_def sample_outside runner_run_def tr_bind_def quiet_def outside_def run_one_ok
        first_attempt_made first_attempt_stored)
  then show ?thesis
    by (simp add: run_job_def b end_run_def run_body_def sample_outside outside_def watch_release_def outside_calls_def Let_def)
qed

lemma sample_service_ok: "is_ledger (ws_runs sample_service)" "job_store_ok sha (sample_store sha)"
  using reachable_store_ok [of sha "[CreateJob (args_of sample_job) False None]"]
  by (auto simp: sample_service_def is_ledger_def ledger_ok_def sample_store_def intro: exI [of _ "[]"])

lemma run_is_fenced_witness:
  "\<exists>svc' x row. run_job sample_config run_one (fj_id sample_job) ''manual'' sample_service
     = (outside_calls run_one @ [CallCompleted], svc', Inr x)
     \<and> ws_active svc' = {} \<and> ws_runs svc' = [row] \<and> ar_run row = run_one"
proof -
  obtain svc' x where r: "run_job sample_config run_one (fj_id sample_job) ''manual'' sample_service
     = (outside_calls run_one @ [CallCompleted], svc', Inr x)" using sample_run by blast
  from run_is_fenced [OF sample_outside(6) sample_service_ok(1) run_one_ok r]
  have "ws_active svc' = {} \<and> (\<exists>row. ws_runs svc' = [row] \<and> ar_run row = run_one)"
    by (auto simp: outside_calls_def sample_outside)
  with r show ?thesis by blast
qed

lemma run_is_compared_with_the_latest_witness:
  "\<exists>svc' x. run_job sample_config run_one (fj_id sample_job) ''manual'' sample_service
     = (outside_calls run_one @ [CallCompleted], svc', Inr x)
     \<and> latest_attempt (ws_runs svc') (fj_id sample_job) None = Inr (Some (fr_current (sr_run x)))"
proof -
  obtain svc' x where r: "run_job sample_config run_one (fj_id sample_job) ''manual'' sample_service
     = (outside_calls run_one @ [CallCompleted], svc', Inr x)" using sample_run by blast
  have "job_store_ok (\<lambda>_. replicate 64 (CHR ''b'')) (ws_jobs sample_service)"
    using sample_service_ok(2) by (simp add: sample_service_def)
  from run_is_compared_with_the_latest [OF sample_outside(6) sample_service_ok(1) this run_one_ok r] r
  show ?thesis by blast
qed

end
