(* ===== verification/Json_Pretty.thy ===== *)
theory Json_Pretty
  imports Json_Codec
begin

text \<open>
  The indented writer \<open>json.dumps(value, indent=2, ensure_ascii=False)\<close>: keys in insertion order,
  each element on a line of its own, and the proof that \<open>json.loads\<close> reads its text back.
\<close>

definition new_line :: "nat \<Rightarrow> string" where
  \<comment> \<open>a line break and the indentation of the level\<close>
  "new_line n = CHR 0x0A # replicate (2 * n) (CHR '' '')"

fun json_pretty :: "nat \<Rightarrow> pyval \<Rightarrow> string" where
  "json_pretty n (PList xs) =
     (if xs = [] then ''[]''
      else CHR ''['' # new_line (Suc n) @ join (CHR '','' # new_line (Suc n)) (map (json_pretty (Suc n)) xs)
             @ new_line n @ '']'')"
| "json_pretty n (PDict d) =
     (if d = [] then ''{}''
      else CHR ''{'' # new_line (Suc n)
             @ join (CHR '','' # new_line (Suc n))
                 (map (\<lambda>kv. quoted json_char_raw (fst kv) @ '': '' @ snd kv)
                   (map (\<lambda>kv. (fst kv, json_pretty (Suc n) (snd kv))) d))
             @ new_line n @ ''}'')"
| "json_pretty n (PStr s) = quoted json_char_raw s"
| "json_pretty n (PInt i) = int_str i"
| "json_pretty n (PBool b) = (if b then ''true'' else ''false'')"
| "json_pretty n PNone = ''null''"

definition pretty_pair :: "nat \<Rightarrow> string \<times> pyval \<Rightarrow> string" where
  "pretty_pair n kv = quoted json_char_raw (fst kv) @ '': '' @ json_pretty n (snd kv)"

lemma json_pretty_dict:
  "d \<noteq> [] \<Longrightarrow> json_pretty n (PDict d) =
     CHR ''{'' # new_line (Suc n) @ join (CHR '','' # new_line (Suc n)) (map (pretty_pair (Suc n)) d) @ new_line n @ ''}''"
  by (simp add: pretty_pair_def [abs_def] comp_def)

lemma new_line_ws: "skip_ws (new_line n @ s) = skip_ws s"
  by (induction n) (simp_all add: new_line_def skip_ws_def json_ws_def code_def)

lemma closes_new_line [simp]: "closes (new_line n @ s)"
  by (simp add: new_line_def closes_def json_ws_def code_def)

lemma pretty_starts: "starts_value (json_pretty n v)"
proof (cases v)
  case (PInt i)
  obtain c cs where "int_str i = c # cs" "c = CHR ''-'' \<or> is_digit c" by (rule int_str_hd)
  with PInt show ?thesis by (auto simp: starts_value_def json_ws_def is_digit_def code_def)
qed (auto simp: starts_value_def json_ws_def code_def quoted_def)

lemma pretty_pair_starts: "starts_value (pretty_pair n kv)"
  by (simp add: pretty_pair_def quoted_def starts_value_def json_ws_def code_def)

lemma raw_quoted: "parse_chars (concat (map json_char_raw t) @ CHR 0x22 # r) = Inr (t, r)"
  using raw_writer.quoted_text [of t r] by (simp add: raw_style_def)

lemma rest_starts:
  assumes "\<And>x. starts_value (g x)" "xs \<noteq> []"
  shows "skip_ws (new_line n @ join sep (map g xs) @ r) = join sep (map g xs) @ r"
proof -
  have "starts_value (join sep (map g xs) @ r)" using assms by (intro join_first) (auto simp: hd_map)
  then show ?thesis using starts_value_ws [of _ "[]"] by (simp add: new_line_ws)
qed

lemma pretty_items:
  assumes "\<And>v f r. v \<in> set vs \<Longrightarrow> length (json_pretty m v) \<le> f \<Longrightarrow> closes r \<Longrightarrow>
      parse_value f (json_pretty m v @ r) = Inr (v, r)"
    and "vs \<noteq> []" and "length (join (CHR '','' # new_line m) (map (json_pretty m) vs)) < f"
  shows "parse_items f (join (CHR '','' # new_line m) (map (json_pretty m) vs) @ new_line k @ CHR '']'' # r) = Inr (vs, r)"
  using assms
proof (induction vs arbitrary: f)
  case (Cons v vs)
  from Cons.prems(3) obtain g where f: "f = Suc g" by (cases f) auto
  show ?case
  proof (cases "vs = []")
    case True
    with Cons.prems(3) f have "length (json_pretty m v) \<le> g" by simp
    from Cons.prems(1) [OF _ this, of "new_line k @ CHR '']'' # r"] True f show ?thesis by (simp add: new_line_ws)
  next
    case False
    let ?rest = "join (CHR '','' # new_line m) (map (json_pretty m) vs)"
    have j: "join (CHR '','' # new_line m) (map (json_pretty m) (v # vs)) = json_pretty m v @ CHR '','' # new_line m @ ?rest"
      using False by (simp add: join_more)
    from Cons.prems(3) j f have le: "length (json_pretty m v) \<le> g" "length ?rest < g" by simp_all
    have rest: "parse_items g (?rest @ new_line k @ CHR '']'' # r) = Inr (vs, r)"
      using Cons.prems(1) le(2) False by (intro Cons.IH) auto
    have ws: "skip_ws (new_line m @ ?rest @ new_line k @ CHR '']'' # r) = ?rest @ new_line k @ CHR '']'' # r"
      by (rule rest_starts [OF pretty_starts False])
    from Cons.prems(1) [OF _ le(1), of "CHR '','' # new_line m @ ?rest @ new_line k @ CHR '']'' # r"] rest ws f
    show ?thesis by (simp only: j) simp
  qed
qed simp

lemma pretty_pairs_step:
  assumes "parse_value f (json_pretty m v @ s) = Inr (v', s)"
  shows "parse_pairs (Suc f) acc (pretty_pair m (k, v) @ s) =
    (case skip_ws s of
       [] \<Rightarrow> Inl ValueError
     | e # es \<Rightarrow>
         if e = CHR ''}'' then Inr (py_set acc k v', es)
         else if e = CHR '','' then parse_pairs f (py_set acc k v') (skip_ws es) else Inl ValueError)"
proof -
  have sp: "skip_ws (CHR '' '' # t) = skip_ws t" for t by (simp add: skip_ws_def json_ws_def code_def)
  from assms starts_value_ws [OF pretty_starts, of m v s] show ?thesis
    by (simp add: pretty_pair_def quoted_def raw_quoted sp)
qed

lemma pretty_pairs:
  assumes "\<And>kv f r. kv \<in> set d \<Longrightarrow> length (json_pretty m (snd kv)) \<le> f \<Longrightarrow> closes r \<Longrightarrow>
      parse_value f (json_pretty m (snd kv) @ r) = Inr (snd kv, r)"
    and "d \<noteq> []" and "length (join (CHR '','' # new_line m) (map (pretty_pair m) d)) < f"
    and "distinct (map fst (acc @ d))"
  shows "parse_pairs f acc (join (CHR '','' # new_line m) (map (pretty_pair m) d) @ new_line k @ CHR ''}'' # r)
    = Inr (acc @ d, r)"
  using assms
proof (induction d arbitrary: f acc)
  case (Cons kv d)
  obtain a v where kv: "kv = (a, v)" by (cases kv)
  from Cons.prems(3) obtain g where f: "f = Suc g" by (cases f) auto
  from Cons.prems(4) kv have set: "py_set acc a w = acc @ [(a, w)]" for w by (intro py_set_new) auto
  have le: "length (json_pretty m v) \<le> g"
    using Cons.prems(3) kv f by (cases d) (simp_all add: pretty_pair_def)
  note step = Cons.prems(1) [of kv g, OF _ _, simplified kv snd_conv, OF _ le]
  show ?case
  proof (cases "d = []")
    case True
    from step [of "new_line k @ CHR ''}'' # r"]
    have "parse_value g (json_pretty m v @ new_line k @ CHR ''}'' # r) = Inr (v, new_line k @ CHR ''}'' # r)"
      using kv by simp
    from pretty_pairs_step [OF this, of acc a] True f kv set show ?thesis by (simp add: new_line_ws)
  next
    case False
    let ?rest = "join (CHR '','' # new_line m) (map (pretty_pair m) d)"
    have j: "join (CHR '','' # new_line m) (map (pretty_pair m) (kv # d)) = pretty_pair m (a, v) @ CHR '','' # new_line m @ ?rest"
      using False kv by (simp add: join_more)
    from Cons.prems(3) j f have lr: "length ?rest < g" by simp
    have rest: "parse_pairs g (acc @ [(a, v)]) (?rest @ new_line k @ CHR ''}'' # r) = Inr ((acc @ [(a, v)]) @ d, r)"
      using Cons.prems(1,4) lr False kv by (intro Cons.IH) auto
    have ws: "skip_ws (new_line m @ ?rest @ new_line k @ CHR ''}'' # r) = ?rest @ new_line k @ CHR ''}'' # r"
      by (rule rest_starts [OF pretty_pair_starts False])
    have "parse_value g (json_pretty m v @ CHR '','' # new_line m @ ?rest @ new_line k @ CHR ''}'' # r)
        = Inr (v, CHR '','' # new_line m @ ?rest @ new_line k @ CHR ''}'' # r)"
      using step kv by simp
    from pretty_pairs_step [OF this, of acc a] rest ws f set
    have "parse_pairs f acc (pretty_pair m (a, v) @ CHR '','' # new_line m @ ?rest @ new_line k @ CHR ''}'' # r)
        = Inr (acc @ kv # d, r)"
      using kv by (simp del: parse_pairs.simps)
    then show ?thesis by (simp only: j append_assoc append_Cons)
  qed
qed simp

lemma pretty_read:
  "keys_distinct v \<Longrightarrow> length (json_pretty n v) \<le> f \<Longrightarrow> closes r \<Longrightarrow>
     parse_value f (json_pretty n v @ r) = Inr (v, r)"
proof (induction v arbitrary: n f r)
  case (PList vs)
  then obtain g where f: "f = Suc g" by (cases f; cases "vs = []") auto
  show ?case
  proof (cases "vs = []")
    case False
    let ?t = "join (CHR '','' # new_line (Suc n)) (map (json_pretty (Suc n)) vs) @ new_line n @ CHR '']'' # r"
    have "starts_value ?t" using False pretty_starts by (intro join_first) (auto simp: hd_map)
    then obtain d ds where t: "?t = d # ds" "d \<noteq> CHR '']''" "skip_ws ?t = ?t"
      by (cases ?t) (auto simp: starts_value_def skip_ws_Cons)
    have "parse_items g ?t = Inr (vs, r)"
      using PList f False by (intro pretty_items) auto
    with t f False show ?thesis by (auto simp: literal_def new_line_ws)
  qed (use f in \<open>simp add: literal_def\<close>)
next
  case (PDict d)
  then obtain g where f: "f = Suc g" by (cases f; cases "d = []") auto
  show ?case
  proof (cases "d = []")
    case False
    let ?t = "join (CHR '','' # new_line (Suc n)) (map (pretty_pair (Suc n)) d) @ new_line n @ CHR ''}'' # r"
    have "starts_value ?t" using False pretty_pair_starts by (intro join_first) (auto simp: hd_map)
    then obtain c cs where t: "?t = c # cs" "c \<noteq> CHR ''}''" "skip_ws ?t = ?t"
      by (cases ?t) (auto simp: starts_value_def skip_ws_Cons)
    have "parse_pairs g [] ?t = Inr ([] @ d, r)"
      using PDict f False json_pretty_dict [OF False, of n] by (intro pretty_pairs) (auto simp: snds.simps)
    with t f show ?thesis
      by (simp only: json_pretty_dict [OF False]) (auto simp: literal_def new_line_ws)
  qed (use f in \<open>simp add: literal_def\<close>)
next
  case (PInt i)
  obtain c cs where "int_str i = c # cs" by (rule int_str_hd)
  with PInt obtain g where "f = Suc g" by (cases f) auto
  with PInt.prems(3) parse_value_int [of r g i] show ?case by (simp del: parse_value.simps)
next
  case (PStr s)
  then show ?case by (cases f) (simp_all add: raw_quoted quoted_def)
next
  case (PBool b)
  then show ?case by (cases f; cases b) (simp_all add: literal_def)
next
  case PNone
  then show ?case by (cases f) (simp_all add: literal_def)
qed

lemma pretty_round_trip: "keys_distinct v \<Longrightarrow> json_loads (json_pretty 0 v @ nl) = Inr v"
proof -
  assume v: "keys_distinct v"
  have "closes nl" "skip_ws nl = []" by (simp_all add: closes_def skip_ws_def nl_def json_ws_def code_def of_char_of)
  with pretty_read [OF v, of 0 "length (json_pretty 0 v @ nl)" nl] starts_value_ws [OF pretty_starts, of 0 v nl]
  show ?thesis by (simp add: json_loads_def)
qed

end
