(* ===== verification/Conversation.thy ===== *)
theory Conversation
  imports Json_Pretty Text_Bytes
begin

text \<open>
  The stored conversation (\<open>session/conversation_store.py\<close>): its runtime segments and turns, the file
  it is written to, the reader with its checks, references to turns and the composition of the next
  request; then the window of messages the gateway sends and the turns it records
  (\<open>session/conversation_gateway.py\<close>).  Fields that the reader does not check keep the JSON value they
  were stored with.  Files are a map from the name of the conversation to the bytes of
  \<open>chat/<name>.json\<close>; replacing a file is one step.  The two clock readings of an append and the clock
  and random suffix of a new conversation are arguments.
\<close>

section \<open>State\<close>

definition DEFAULT_BUDGET_CHARS :: int where
  "DEFAULT_BUDGET_CHARS = 24000"

definition DEFAULT_DISK_CAP_BYTES :: nat where
  "DEFAULT_DISK_CAP_BYTES = 1048576"

record runtime_segment =
  sg_from :: pyval
  sg_profile :: pyval
  sg_model :: pyval
  sg_device :: pyval

record conv_turn =
  tn_role :: pyval
  tn_content :: pyval
  tn_at :: pyval
  tn_runtime :: pyval

record conv =
  cv_id :: string
  cv_created :: pyval
  cv_updated :: pyval
  cv_persona :: "string option"
  cv_runtime :: "runtime_segment list"
  cv_turns :: "conv_turn list"
  cv_budget :: int

definition new_segment :: "nat \<Rightarrow> string \<Rightarrow> string \<Rightarrow> string \<Rightarrow> runtime_segment" where
  "new_segment n profile model device =
     \<lparr>sg_from = PInt (int n), sg_profile = PStr profile, sg_model = PStr model, sg_device = PStr device\<rparr>"

definition new_session ::
  "string \<Rightarrow> string \<Rightarrow> string \<Rightarrow> int \<Rightarrow> string option \<Rightarrow> string \<Rightarrow> string \<Rightarrow> conv" where
  \<comment> \<open>\<open>hex\<close> is the suffix \<open>uuid4().hex[:4]\<close>\<close>
  "new_session profile model device budget persona now hex =
     \<lparr>cv_id = map (\<lambda>c. if c = CHR '':'' \<or> c = CHR ''.'' then CHR ''-'' else c) now @ ''-'' @ hex,
      cv_created = PStr now, cv_updated = PStr now, cv_persona = persona,
      cv_runtime = [new_segment 0 profile model device], cv_turns = [], cv_budget = budget\<rparr>"

definition ensure_runtime :: "string \<Rightarrow> string \<Rightarrow> string \<Rightarrow> string \<Rightarrow> conv \<Rightarrow> (nat \<times> conv) py" where
  "ensure_runtime profile model device now s =
     (if cv_runtime s = [] then Inl IndexError
      else let cur = last (cv_runtime s) in
        if py_eq (sg_profile cur) (PStr profile) \<and> py_eq (sg_model cur) (PStr model) \<and> py_eq (sg_device cur) (PStr device)
        then Inr (length (cv_runtime s) - 1, s)
        else Inr (length (cv_runtime s),
          s\<lparr>cv_runtime := cv_runtime s @ [new_segment (length (cv_turns s)) profile model device],
            cv_updated := PStr now\<rparr>))"

definition append_turn :: "string \<Rightarrow> string \<Rightarrow> int \<Rightarrow> string \<times> string \<Rightarrow> conv \<Rightarrow> conv py" where
  "append_turn role content idx stamps s =
     py_check (role \<notin> {''user'', ''assistant''}) ContextRefusal (
     py_check (idx \<noteq> int (length (cv_runtime s)) - 1) ContextRefusal (
     Inr (s\<lparr>cv_turns := cv_turns s @
               [\<lparr>tn_role = PStr role, tn_content = PStr content, tn_at = PStr (fst stamps), tn_runtime = PInt idx\<rparr>],
            cv_updated := PStr (snd stamps)\<rparr>)))"

section \<open>References\<close>

definition turn_dict :: "conv_turn \<Rightarrow> pydict" where
  \<comment> \<open>\<open>asdict(turn)\<close>\<close>
  "turn_dict t = [(''role'', tn_role t), (''content'', tn_content t), (''at_utc'', tn_at t), (''runtime'', tn_runtime t)]"

definition canonical_turn_bytes :: "conv_turn \<Rightarrow> string" where
  "canonical_turn_bytes t = canonical_bytes (PDict (turn_dict t))"

definition turn_ref :: "(string \<Rightarrow> string) \<Rightarrow> conv \<Rightarrow> pyval \<Rightarrow> pydict py" where
  "turn_ref sha s index =
     (case require_integer index None of
        Inl _ \<Rightarrow> Inl ContextRefusal
      | Inr i \<Rightarrow>
          py_check (\<not> (0 \<le> i \<and> i < int (length (cv_turns s)))) ContextRefusal (
          Inr [(''conversation_id'', PStr (cv_id s)), (''turn_index'', PInt i),
               (''turn_sha256'', PStr (sha (canonical_turn_bytes (cv_turns s ! nat i))))]))"

section \<open>Files\<close>

type_synonym conv_files = "string \<Rightarrow> string option"

definition conv_name_ok :: "string \<Rightarrow> bool" where
  \<comment> \<open>\<open>session_path\<close> returns\<close>
  "conv_name_ok i \<longleftrightarrow> i \<noteq> [] \<and>
     list_all (\<lambda>c. c \<in> set ''abcdefghijklmnopqrstuvwxyzABCDEFGHIJKLMNOPQRSTUVWXYZ0123456789-_.'') i"

definition segment_dict :: "runtime_segment \<Rightarrow> pydict" where
  "segment_dict g =
     [(''from_turn'', sg_from g), (''profile'', sg_profile g), (''model'', sg_model g), (''device'', sg_device g)]"

definition conv_dict :: "conv \<Rightarrow> pydict" where
  "conv_dict s =
     [(''schema_version'', PInt 1), (''conversation_id'', PStr (cv_id s)), (''created_utc'', cv_created s),
      (''updated_utc'', cv_updated s),
      (''persona_sha256'', case cv_persona s of None \<Rightarrow> PNone | Some h \<Rightarrow> PStr h),
      (''runtime'', PList (map (\<lambda>g. PDict (segment_dict g)) (cv_runtime s))),
      (''turns'', PList (map (\<lambda>t. PDict (turn_dict t)) (cv_turns s))),
      (''budget'', PDict [(''kind'', PStr ''characters''), (''limit'', PInt (cv_budget s))])]"

definition encoded_session :: "conv \<Rightarrow> string" where
  "encoded_session s = utf8 (json_pretty 0 (PDict (conv_dict s)) @ nl)"

fun append_turns :: "(string \<times> string) list \<Rightarrow> int \<Rightarrow> (string \<times> string) list \<Rightarrow> conv \<Rightarrow> conv py" where
  \<comment> \<open>one pair of clock readings for each turn\<close>
  "append_turns [] idx stamps s = Inr s"
| "append_turns ((role, content) # ts) idx stamps s =
     py_bind (append_turn role content idx (if stamps = [] then ([], []) else hd stamps) s) (append_turns ts idx (tl stamps))"

definition ensure_append_fits ::
  "conv \<Rightarrow> (string \<times> string) list \<Rightarrow> int \<Rightarrow> (string \<times> string) list \<Rightarrow> nat \<Rightarrow> unit py" where
  "ensure_append_fits s ts idx stamps cap =
     py_bind (append_turns ts idx stamps s) (\<lambda>p. py_check (cap < length (encoded_session p)) ContextRefusal (Inr ()))"

definition write_session :: "nat \<Rightarrow> conv \<Rightarrow> conv_files \<Rightarrow> conv_files py" where
  "write_session cap s fs =
     py_check (\<not> conv_name_ok (cv_id s)) ContextRefusal (
     py_check (cap < length (encoded_session s)) ContextRefusal (
     Inr (fs(cv_id s \<mapsto> encoded_session s))))"

definition create_session :: "nat \<Rightarrow> conv \<Rightarrow> conv_files \<Rightarrow> conv_files py" where
  "create_session cap s fs =
     py_check (\<not> conv_name_ok (cv_id s)) ContextRefusal (
     py_check (fs (cv_id s) \<noteq> None) ContextRefusal (write_session cap s fs))"

section \<open>Reading\<close>

definition py_number :: "pyval \<Rightarrow> int py" where
  \<comment> \<open>the operand of \<open><\<close> against an integer\<close>
  "py_number v = (case v of PInt i \<Rightarrow> Inr i | PBool b \<Rightarrow> Inr (of_bool b) | _ \<Rightarrow> Inl TypeError)"

definition exact_fields :: "string list \<Rightarrow> pyval \<Rightarrow> pydict py" where
  \<comment> \<open>\<open>Record(**item)\<close> for a record without defaults\<close>
  "exact_fields ks v =
     (case v of PDict d \<Rightarrow> py_check (fst ` set d \<noteq> set ks) TypeError (Inr d) | _ \<Rightarrow> Inl TypeError)"

definition read_segment :: "pyval \<Rightarrow> runtime_segment py" where
  "read_segment v =
     py_bind (exact_fields [''from_turn'', ''profile'', ''model'', ''device''] v) (\<lambda>d.
       Inr \<lparr>sg_from = py_get d ''from_turn'', sg_profile = py_get d ''profile'', sg_model = py_get d ''model'',
            sg_device = py_get d ''device''\<rparr>)"

definition read_turn :: "pyval \<Rightarrow> conv_turn py" where
  "read_turn v =
     py_bind (exact_fields [''role'', ''content'', ''at_utc'', ''runtime''] v) (\<lambda>d.
       Inr \<lparr>tn_role = py_get d ''role'', tn_content = py_get d ''content'', tn_at = py_get d ''at_utc'',
            tn_runtime = py_get d ''runtime''\<rparr>)"

fun read_all :: "(pyval \<Rightarrow> 'a py) \<Rightarrow> pyval list \<Rightarrow> 'a list py" where
  "read_all f [] = Inr []"
| "read_all f (v # vs) = py_bind (f v) (\<lambda>x. py_bind (read_all f vs) (\<lambda>xs. Inr (x # xs)))"

definition read_persona :: "pyval \<Rightarrow> string option py" where
  "read_persona v =
     (case v of PNone \<Rightarrow> Inr None | PStr s \<Rightarrow> py_check (\<not> sha256_hex s) ValueError (Inr (Some s)) | _ \<Rightarrow> Inl ValueError)"

definition read_fields :: "string \<Rightarrow> pyval \<Rightarrow> conv py" where
  \<comment> \<open>the body of the second \<open>try\<close>; the name is compared after it\<close>
  "read_fields name raw =
     py_bind (py_item raw ''budget'') (\<lambda>budget.
     py_bind (py_obj budget) (\<lambda>b.
     py_check (\<not> py_eq (py_get b ''kind'') (PStr ''characters'')) ValueError (
     py_bind (py_item raw ''persona_sha256'') (\<lambda>pv.
     py_bind (read_persona pv) (\<lambda>persona.
     py_bind (py_item raw ''conversation_id'') (\<lambda>cid.
     py_bind (py_item raw ''created_utc'') (\<lambda>created.
     py_bind (py_item raw ''updated_utc'') (\<lambda>updated.
     py_bind (py_item raw ''runtime'') (\<lambda>rv.
     py_bind (iterate rv) (\<lambda>ritems.
     py_bind (read_all read_segment ritems) (\<lambda>segments.
     py_bind (py_item raw ''turns'') (\<lambda>tv.
     py_bind (iterate tv) (\<lambda>titems.
     py_bind (read_all read_turn titems) (\<lambda>turns.
     py_bind (py_item budget ''limit'') (\<lambda>lim.
     py_bind (py_int lim) (\<lambda>limit.
     py_check (\<not> py_eq cid (PStr name)) ContextRefusal (
     Inr \<lparr>cv_id = name, cv_created = created, cv_updated = updated, cv_persona = persona, cv_runtime = segments,
          cv_turns = turns, cv_budget = limit\<rparr>)))))))))))))))))"

definition malformed :: "'a py \<Rightarrow> 'a py" where
  \<comment> \<open>\<open>except (KeyError, TypeError, ValueError)\<close>\<close>
  "malformed m = (case m of Inl e \<Rightarrow> Inl (if e \<in> {KeyError, TypeError, ValueError} then ContextRefusal else e) | Inr a \<Rightarrow> Inr a)"

fun check_segments :: "bool \<Rightarrow> int \<Rightarrow> nat \<Rightarrow> runtime_segment list \<Rightarrow> unit py" where
  \<comment> \<open>whether this is the first segment, the previous \<open>from_turn\<close> and the number of turns\<close>
  "check_segments first prev n [] = Inr ()"
| "check_segments first prev n (g # gs) =
     py_bind (py_number (sg_from g)) (\<lambda>k.
     py_check (k < prev \<or> int n < k) ContextRefusal (
     py_check (\<not> first \<and> k = prev) ContextRefusal (
     check_segments False k n gs)))"

fun check_turns :: "runtime_segment list \<Rightarrow> nat \<Rightarrow> nat \<Rightarrow> conv_turn list \<Rightarrow> unit py" where
  \<comment> \<open>the segments, the number of turns, the index of the next turn\<close>
  "check_turns gs n i [] = Inr ()"
| "check_turns gs n i (t # ts) =
     py_bind (member_of [''user'', ''assistant''] (tn_role t)) (\<lambda>known.
     py_check (\<not> known) ContextRefusal (
     py_bind (py_number (tn_runtime t)) (\<lambda>r.
     py_check (\<not> (0 \<le> r \<and> r < int (length gs))) ContextRefusal (
     py_bind (py_number (sg_from (gs ! nat r))) (\<lambda>from.
     py_bind (if nat r + 1 < length gs then py_number (sg_from (gs ! (nat r + 1))) else Inr (int n)) (\<lambda>next.
     py_check (\<not> (from \<le> int i \<and> int i < next)) ContextRefusal (
     check_turns gs n (Suc i) ts)))))))"

definition check_session :: "conv \<Rightarrow> unit py" where
  "check_session s =
     py_check (cv_runtime s = []) ContextRefusal (
     py_check (\<not> py_eq (sg_from (hd (cv_runtime s))) (PInt 0)) ContextRefusal (
     py_bind (check_segments True (- 1) (length (cv_turns s)) (cv_runtime s)) (\<lambda>_.
     check_turns (cv_runtime s) (length (cv_turns s)) 0 (cv_turns s))))"

definition read_session :: "conv_files \<Rightarrow> string \<Rightarrow> conv py" where
  "read_session fs name =
     py_check (\<not> conv_name_ok name) ContextRefusal (
     case fs name of
       None \<Rightarrow> Inl ContextRefusal
     | Some bytes \<Rightarrow>
         (case load_bytes bytes of
            Inl _ \<Rightarrow> Inl ContextRefusal
          | Inr raw \<Rightarrow>
              py_bind (py_obj raw) (\<lambda>d.
              py_check (\<not> py_eq (py_get d ''schema_version'') (PInt 1)) ContextRefusal (
              py_bind (malformed (read_fields name raw)) (\<lambda>s.
              py_bind (check_session s) (\<lambda>_. Inr s))))))"

section \<open>One owner at a time\<close>

record chat_store =
  ch_files :: conv_files
  ch_locked :: "string set"

definition open_conversation :: "string \<Rightarrow> chat_store \<Rightarrow> (conv \<times> chat_store) py" where
  \<comment> \<open>entering \<open>with conversation(...)\<close>: a refused read gives the lock back\<close>
  "open_conversation name st =
     py_check (\<not> conv_name_ok name) ContextRefusal (
     py_check (name \<in> ch_locked st) ContextRefusal (
     py_bind (read_session (ch_files st) name) (\<lambda>s.
       Inr (s, st\<lparr>ch_locked := insert name (ch_locked st)\<rparr>))))"

definition close_conversation :: "string \<Rightarrow> chat_store \<Rightarrow> chat_store" where
  "close_conversation name st = st\<lparr>ch_locked := ch_locked st - {name}\<rparr>"

section \<open>Requests\<close>

record chat_message =
  cm_role :: pyval
  cm_content :: pyval

definition py_len :: "pyval \<Rightarrow> int py" where
  "py_len v =
     (case v of PStr s \<Rightarrow> Inr (int (length s)) | PList xs \<Rightarrow> Inr (int (length xs)) | PDict d \<Rightarrow> Inr (int (length d))
      | _ \<Rightarrow> Inl TypeError)"

fun content_chars :: "chat_message list \<Rightarrow> int py" where
  \<comment> \<open>\<open>sum(len(m["content"]) for m in messages)\<close>\<close>
  "content_chars [] = Inr 0"
| "content_chars (m # ms) = py_bind (py_len (cm_content m)) (\<lambda>l. py_bind (content_chars ms) (\<lambda>n. Inr (l + n)))"

definition is_role :: "string \<Rightarrow> chat_message \<Rightarrow> bool" where
  "is_role r m \<longleftrightarrow> cm_role m = PStr r"

definition turn_message :: "conv_turn \<Rightarrow> chat_message" where
  "turn_message t = \<lparr>cm_role = tn_role t, cm_content = tn_content t\<rparr>"

definition user_message :: "string \<Rightarrow> chat_message" where
  "user_message said = \<lparr>cm_role = PStr ''user'', cm_content = PStr said\<rparr>"

record composed =
  cp_messages :: "chat_message list"
  cp_parts :: "(string \<times> int) list"
  cp_dropped :: nat
  cp_total :: int
  cp_budget :: int

fun trim_history :: "int \<Rightarrow> int \<Rightarrow> int \<Rightarrow> nat \<Rightarrow> chat_message list \<Rightarrow> (int \<times> nat \<times> chat_message list) py" where
  \<comment> \<open>fixed characters, budget, characters of the history, turns dropped, the history\<close>
  "trim_history fixed budget n k [] = Inr (n, k, [])"
| "trim_history fixed budget n k (m # ms) =
     (if fixed + n \<le> budget then Inr (n, k, m # ms)
      else
        py_check (\<not> is_role ''user'' m) ContextRefusal (
        py_bind (py_len (cm_content m)) (\<lambda>l.
        case ms of
          [] \<Rightarrow> Inr (n - l, Suc k, [])
        | a # rest \<Rightarrow>
            if is_role ''assistant'' a
            then py_bind (py_len (cm_content a)) (\<lambda>la. trim_history fixed budget (n - l - la) (k + 2) rest)
            else trim_history fixed budget (n - l) (Suc k) (a # rest))))"

definition compose :: "chat_message \<Rightarrow> chat_message option \<Rightarrow> conv \<Rightarrow> string \<Rightarrow> composed py" where
  "compose contract persona s said =
     py_bind (py_len (cm_content contract)) (\<lambda>lc.
     py_bind (case persona of None \<Rightarrow> Inr [] | Some p \<Rightarrow> py_bind (py_len (cm_content p)) (\<lambda>l. Inr [(''persona'', l)])) (\<lambda>pp.
     let fixed = contract # (case persona of None \<Rightarrow> [] | Some p \<Rightarrow> [p]);
         fixed_chars = lc + sum_list (map snd pp) + int (length said);
         history = map turn_message (cv_turns s)
     in py_check (cv_budget s < fixed_chars) ContextRefusal (
        py_bind (content_chars history) (\<lambda>n.
        py_bind (trim_history fixed_chars (cv_budget s) n 0 history) (\<lambda>(n', dropped, kept).
        py_check (kept \<noteq> [] \<and> \<not> is_role ''user'' (hd kept)) ContextRefusal (
        Inr \<lparr>cp_messages = fixed @ kept @ [user_message said],
             cp_parts = (''contract'', lc) # pp @ [(''history'', n'), (''current_turn'', int (length said))],
             cp_dropped = dropped, cp_total = fixed_chars + n', cp_budget = cv_budget s\<rparr>))))))"

section \<open>The gateway\<close>

record gateway_limits =
  gl_history :: int
  gl_bytes :: int
  gl_chars :: int

definition mk_gateway_limits :: "int \<Rightarrow> int \<Rightarrow> int \<Rightarrow> gateway_limits py" where
  \<comment> \<open>the guards of the constructor\<close>
  "mk_gateway_limits history bytes chars =
     py_check (history < 1 \<or> bytes < 1 \<or> chars < 1) ValueError (
     py_check (chars < history) ValueError (
     Inr \<lparr>gl_history = history, gl_bytes = bytes, gl_chars = chars\<rparr>))"

definition CHARS_PER_TOKEN_ESTIMATE :: int where
  "CHARS_PER_TOKEN_ESTIMATE = 4"

definition conversation_budgets :: "int \<Rightarrow> gateway_limits py" where
  "conversation_budgets tokens =
     py_check (tokens < 1) ValueError (
     let chars = min 24000 (tokens * CHARS_PER_TOKEN_ESTIMATE)
     in Inr \<lparr>gl_history = min 16000 chars, gl_bytes = chars * 4 + 1024, gl_chars = chars\<rparr>)"

fun history_pairs :: "conv_turn list \<Rightarrow> (pyval \<times> pyval) list" where
  \<comment> \<open>\<open>_history\<close>: what was said with its answer, if one follows\<close>
  "history_pairs [] = []"
| "history_pairs (t # ts) =
     (if tn_role t \<noteq> PStr ''user'' then history_pairs ts
      else (case ts of
              [] \<Rightarrow> [(tn_content t, PStr [])]
            | u # us \<Rightarrow>
                if tn_role u = PStr ''assistant'' then (tn_content t, tn_content u) # history_pairs us
                else (tn_content t, PStr []) # history_pairs (u # us)))"

definition historical_observation ::
  "(string \<Rightarrow> string) \<Rightarrow> conv \<Rightarrow> string option \<Rightarrow> (pydict \<times> string) option py option
     \<Rightarrow> string option py \<times> string list" where
  \<comment> \<open>the answer of the last result; without a task history it is the observation, with one the answer of
    \<open>task_history.latest\<close>, a reference with its text, is; the value returned and the events emitted\<close>
  "historical_observation sha s last_answer history =
     (case history of
        None \<Rightarrow> (Inr (map_option (take MAX_MESSAGE_CHARS) last_answer), [])
      | Some latest \<Rightarrow>
     (case py_bind latest (\<lambda>found. case found of
             None \<Rightarrow> Inr None
           | Some (ref, prompt) \<Rightarrow>
               py_bind (py_item (PDict ref) ''turn_index'') (\<lambda>raw.
               py_bind (py_int raw) (\<lambda>i.
               py_bind (turn_ref sha s (PInt i)) (\<lambda>expected.
               py_check (\<not> py_eq (PDict expected) (PDict ref)) ArtifactIntegrityError (
               Inr (Some prompt)))))) of
        Inr out \<Rightarrow> (Inr out, [])
      | Inl e \<Rightarrow>
          if e \<in> {ArtifactIntegrityError, ContextRefusal, KeyError, TypeError, ValueError}
          then (Inr None, [''conversation.task_history_unavailable'']) else (Inl e, [])))"

definition gateway_style :: json_style where
  \<comment> \<open>\<open>json.dumps(messages, ensure_ascii=False)\<close>\<close>
  "gateway_style = \<lparr>js_char = json_char_raw, js_gap = '' '', js_sorted = False\<rparr>"

definition message_value :: "chat_message \<Rightarrow> pyval" where
  "message_value m = PDict [(''role'', cm_role m), (''content'', cm_content m)]"

definition over_budget :: "gateway_limits \<Rightarrow> chat_message list \<Rightarrow> bool py" where
  "over_budget g ms =
     py_bind (content_chars ms) (\<lambda>n.
       Inr (gl_chars g < n \<or> gl_bytes g < int (length (utf8 (json_text gateway_style (PList (map message_value ms)))))))"

definition delete_at :: "nat \<Rightarrow> 'a list \<Rightarrow> 'a list" where
  \<comment> \<open>\<open>del xs[i]\<close>\<close>
  "delete_at i xs = take i xs @ drop (Suc i) xs"

definition inner_system :: "chat_message list \<Rightarrow> nat option" where
  \<comment> \<open>the first index of \<open>range(1, len(messages) - 1)\<close> with the role \<open>system\<close>\<close>
  "inner_system ms = find (\<lambda>i. is_role ''system'' (ms ! i)) [1..<length ms - 1]"

lemma inner_system_bound: "inner_system ms = Some i \<Longrightarrow> 1 \<le> i \<and> i < length ms - 1"
  by (auto simp: inner_system_def find_Some_iff)

function window :: "gateway_limits \<Rightarrow> chat_message list \<Rightarrow> chat_message list py" where
  \<comment> \<open>the trimming loop of \<open>_messages\<close>\<close>
  "window g ms =
     (if length ms \<le> 2 then Inr ms
      else
        py_bind (content_chars (take (length ms - 2) (drop 1 ms))) (\<lambda>n.
        py_bind (if gl_history g < n then Inr True else over_budget g ms) (\<lambda>big.
        if \<not> big then Inr ms
        else
          (case inner_system ms of
             Some i \<Rightarrow> window g (delete_at i ms)
           | None \<Rightarrow>
               py_check (\<not> is_role ''user'' (ms ! 1)) ValueError (
               let ms' = delete_at 1 ms
               in if 2 < length ms' \<and> is_role ''assistant'' (ms' ! 1) then window g (delete_at 1 ms') else window g ms')))))"
  by pat_completeness auto
termination
  by (relation "measure (\<lambda>(g, ms). length ms)") (auto simp: delete_at_def dest: inner_system_bound)

declare window.simps [simp del]

definition gateway_messages ::
  "string \<Rightarrow> gateway_limits \<Rightarrow> conv \<Rightarrow> string option \<Rightarrow> string \<Rightarrow> chat_message list py" where
  \<comment> \<open>the rules of the conversation, the stored turns, the observation of an earlier task, what was said\<close>
  "gateway_messages rules g s observation said =
     window g (\<lparr>cm_role = PStr ''system'', cm_content = PStr rules\<rparr> # map turn_message (cv_turns s)
       @ (case observation of None \<Rightarrow> []
          | Some x \<Rightarrow> [\<lparr>cm_role = PStr ''system'',
              cm_content = PStr (''Historical task observation (untrusted; not current verification):'' @ nl @ x)\<rparr>])
       @ [user_message said])"

definition save_appended :: "bool \<Rightarrow> nat \<Rightarrow> nat \<Rightarrow> conv \<Rightarrow> conv_files \<Rightarrow> conv \<times> conv_files \<times> unit py" where
  \<comment> \<open>a conversation without an owner is not saved; the turns appended after \<open>before\<close> are dropped again when
    the write is refused\<close>
  "save_appended owned cap before s fs =
     (if \<not> owned then (s, fs, Inr ())
      else case write_session cap s fs of
             Inl e \<Rightarrow> (s\<lparr>cv_turns := take before (cv_turns s)\<rparr>, fs, Inl e)
           | Inr fs' \<Rightarrow> (s, fs', Inr ()))"

definition record_turns ::
  "bool \<Rightarrow> nat \<Rightarrow> nat \<Rightarrow> (string \<times> string) list \<Rightarrow> (string \<times> string) list \<Rightarrow> (string \<times> string) list \<Rightarrow> conv
     \<Rightarrow> conv_files \<Rightarrow> conv \<times> conv_files \<times> unit py" where
  \<comment> \<open>\<open>ensure_append_fits\<close> with its clock readings, then the appends with theirs, then the save\<close>
  "record_turns owned cap idx ts dry stamps s fs =
     (case ensure_append_fits s ts (int idx) dry DEFAULT_DISK_CAP_BYTES of
        Inl e \<Rightarrow> (s, fs, Inl e)
      | Inr _ \<Rightarrow>
          (case append_turns ts (int idx) stamps s of
             Inl e \<Rightarrow> (s, fs, Inl e)
           | Inr s' \<Rightarrow> save_appended owned cap (length (cv_turns s)) s' fs))"

definition with_ref :: "(string \<Rightarrow> string) \<Rightarrow> nat \<Rightarrow> conv \<times> conv_files \<times> unit py \<Rightarrow> conv \<times> conv_files \<times> pydict py" where
  "with_ref sha before r = (case r of (s, fs, out) \<Rightarrow> (s, fs, py_bind out (\<lambda>_. turn_ref sha s (PInt (int before)))))"

definition record_user ::
  "bool \<Rightarrow> (string \<Rightarrow> string) \<Rightarrow> nat \<Rightarrow> nat \<Rightarrow> string \<Rightarrow> (string \<times> string) list \<Rightarrow> (string \<times> string) list \<Rightarrow> conv
     \<Rightarrow> conv_files \<Rightarrow> conv \<times> conv_files \<times> pydict py" where
  "record_user owned sha cap idx said dry stamps s fs =
     with_ref sha (length (cv_turns s)) (record_turns owned cap idx [(''user'', said)] dry stamps s fs)"

definition record_assistant ::
  "bool \<Rightarrow> nat \<Rightarrow> nat \<Rightarrow> string \<Rightarrow> (string \<times> string) list \<Rightarrow> (string \<times> string) list \<Rightarrow> conv \<Rightarrow> conv_files
     \<Rightarrow> conv \<times> conv_files \<times> unit py" where
  "record_assistant owned cap idx answer dry stamps s fs =
     record_turns owned cap idx [(''assistant'', take MAX_MESSAGE_CHARS answer)] dry stamps s fs"

definition record_exchange ::
  "bool \<Rightarrow> (string \<Rightarrow> string) \<Rightarrow> nat \<Rightarrow> nat \<Rightarrow> string \<Rightarrow> string \<Rightarrow> (string \<times> string) list \<Rightarrow> (string \<times> string) list
     \<Rightarrow> conv \<Rightarrow> conv_files \<Rightarrow> conv \<times> conv_files \<times> pydict py" where
  "record_exchange owned sha cap idx said answer dry stamps s fs =
     with_ref sha (length (cv_turns s))
       (record_turns owned cap idx [(''user'', said), (''assistant'', take MAX_MESSAGE_CHARS answer)] dry stamps s fs)"

end
