(* ===== verification/Conversation_Properties.thy ===== *)
theory Conversation_Properties
  imports Conversation
begin

text \<open>
  What the stored conversation promises: a written conversation is read back as it was, appending keeps
  it readable, a composed request fits its budget and keeps the newest turns, references to turns stay
  valid, and a refused write leaves file and memory as they were.  And where it fails: a runtime that
  changes twice without a turn in between leaves a file the reader refuses.
\<close>

section \<open>Readable conversations\<close>

definition segment_plain :: "runtime_segment \<Rightarrow> bool" where
  "segment_plain g \<longleftrightarrow> keys_distinct (sg_from g) \<and> keys_distinct (sg_profile g) \<and> keys_distinct (sg_model g)
     \<and> keys_distinct (sg_device g)"

definition turn_plain :: "conv_turn \<Rightarrow> bool" where
  "turn_plain t \<longleftrightarrow> keys_distinct (tn_role t) \<and> keys_distinct (tn_content t) \<and> keys_distinct (tn_at t)
     \<and> keys_distinct (tn_runtime t)"

definition conv_plain :: "conv \<Rightarrow> bool" where
  \<comment> \<open>values as JSON has them\<close>
  "conv_plain s \<longleftrightarrow> conv_name_ok (cv_id s) \<and> pred_option sha256_hex (cv_persona s)
     \<and> keys_distinct (cv_created s) \<and> keys_distinct (cv_updated s)
     \<and> list_all segment_plain (cv_runtime s) \<and> list_all turn_plain (cv_turns s)"

definition conv_ok :: "conv \<Rightarrow> bool" where
  \<comment> \<open>and the checks of the reader\<close>
  "conv_ok s \<longleftrightarrow> conv_plain s \<and> check_session s = Inr ()"

lemma read_segment_dict [simp]: "read_segment (PDict (segment_dict g)) = Inr g"
  by (simp add: read_segment_def exact_fields_def segment_dict_def py_get_def)

lemma read_turn_dict [simp]: "read_turn (PDict (turn_dict t)) = Inr t"
  by (simp add: read_turn_def exact_fields_def turn_dict_def py_get_def insert_commute)

lemma read_all_map: "(\<And>x. x \<in> set xs \<Longrightarrow> f (g x) = Inr x) \<Longrightarrow> read_all f (map g xs) = Inr xs"
  by (induction xs) auto

lemma conv_dict_distinct: "conv_plain s \<Longrightarrow> keys_distinct (PDict (conv_dict s))"
  by (auto simp: conv_plain_def conv_dict_def segment_dict_def turn_dict_def segment_plain_def turn_plain_def
      list_all_iff split: option.splits)

lemma read_fields_dict:
  assumes "conv_plain s"
  shows "read_fields (cv_id s) (PDict (conv_dict s)) = Inr s"
proof -
  have persona: "read_persona (case cv_persona s of None \<Rightarrow> PNone | Some h \<Rightarrow> PStr h) = Inr (cv_persona s)"
    using assms by (auto simp: conv_plain_def read_persona_def split: option.splits)
  have "read_all read_segment (map (\<lambda>g. PDict (segment_dict g)) (cv_runtime s)) = Inr (cv_runtime s)"
    "read_all read_turn (map (\<lambda>t. PDict (turn_dict t)) (cv_turns s)) = Inr (cv_turns s)"
    by (intro read_all_map; simp)+
  with persona show ?thesis
    by (simp add: read_fields_def py_item_def conv_dict_def py_obj_def py_get_def py_eq_def iterate_def py_int_def)
qed

lemma read_written:
  assumes "conv_plain s" "fs (cv_id s) = Some (encoded_session s)"
  shows "read_session fs (cv_id s) = py_bind (check_session s) (\<lambda>_. Inr s)"
proof -
  have "load_bytes (encoded_session s) = Inr (PDict (conv_dict s))"
    unfolding load_bytes_def encoded_session_def
    by (simp add: utf8_read pretty_round_trip [OF conv_dict_distinct [OF assms(1)]] del: json_pretty.simps)
  moreover have "py_eq (py_get (conv_dict s) ''schema_version'') (PInt 1)"
    by (simp add: conv_dict_def py_get_def py_eq_def)
  ultimately show ?thesis
    using assms by (simp add: read_session_def conv_plain_def py_obj_def malformed_def read_fields_dict [OF assms(1)])
qed

section \<open>Appending\<close>

lemma check_segments_later:
  "check_segments first prev n gs = Inr () \<Longrightarrow> n \<le> m \<Longrightarrow> check_segments first prev m gs = Inr ()"
  by (induction first prev n gs rule: check_segments.induct) (auto simp: py_bind_Inr_iff)

lemma check_turns_later:
  "check_turns gs n i ts = Inr () \<Longrightarrow> n \<le> m \<Longrightarrow> check_turns gs m i ts = Inr ()"
  by (induction gs n i ts rule: check_turns.induct) (auto simp: py_bind_Inr_iff split: if_splits)

lemma check_turns_append:
  "check_turns gs n i (ts @ us) = py_bind (check_turns gs n i ts) (\<lambda>_. check_turns gs n (i + length ts) us)"
  by (induction gs n i ts rule: check_turns.induct) (auto simp: py_bind_def py_check_def split: sum.splits if_splits)

lemma check_segments_last:
  "check_segments first prev n gs = Inr () \<Longrightarrow> gs \<noteq> [] \<Longrightarrow> \<exists>k. py_number (sg_from (last gs)) = Inr k \<and> k \<le> int n"
  by (induction first prev n gs rule: check_segments.induct) (auto simp: py_bind_Inr_iff)

lemma check_segments_snoc:
  "check_segments first prev n gs = Inr () \<Longrightarrow> gs \<noteq> [] \<Longrightarrow> py_number (sg_from (last gs)) = Inr k \<Longrightarrow>
     py_number (sg_from g) = Inr l \<Longrightarrow>
     check_segments first prev n (gs @ [g]) = (if k < l \<and> l \<le> int n then Inr () else Inl ContextRefusal)"
  by (induction first prev n gs rule: check_segments.induct) (auto simp: py_bind_Inr_iff py_check_def split: if_splits)

lemma check_turns_new_segment:
  "check_turns gs n i ts = Inr () \<Longrightarrow> sg_from g = PInt (int n) \<Longrightarrow> check_turns (gs @ [g]) n i ts = Inr ()"
proof (induction gs n i ts rule: check_turns.induct)
  case (2 gs n i t ts)
  from "2.prems"(1) obtain r where r: "py_number (tn_runtime t) = Inr r" "0 \<le> r" "r < int (length gs)"
    by (auto simp: py_bind_Inr_iff)
  then have k: "nat r < length gs" by simp
  have "py_number (PInt x) = Inr x" for x by (simp add: py_number_def)
  with 2 r k show ?case by (auto simp: py_bind_Inr_iff nth_append split: if_splits)
qed simp

lemma append_turn_ok:
  assumes "append_turn role content idx stamps s = Inr s'" "conv_ok s"
  shows "conv_ok s'"
proof -
  let ?t = "\<lparr>tn_role = PStr role, tn_content = PStr content, tn_at = PStr (fst stamps), tn_runtime = PInt idx\<rparr>"
  have role: "role \<in> {''user'', ''assistant''}" and idx: "idx = int (length (cv_runtime s)) - 1"
    and s': "s' = s\<lparr>cv_turns := cv_turns s @ [?t], cv_updated := PStr (snd stamps)\<rparr>"
    using assms(1) by (auto simp: append_turn_def)
  let ?n = "length (cv_turns s)" and ?gs = "cv_runtime s"
  from assms(2) have gs: "?gs \<noteq> []" "py_eq (sg_from (hd ?gs)) (PInt 0)" and segs: "check_segments True (- 1) ?n ?gs = Inr ()"
    and turns: "check_turns ?gs ?n 0 (cv_turns s) = Inr ()"
    by (auto simp: conv_ok_def check_session_def py_bind_Inr_iff)
  obtain k where k: "py_number (sg_from (last ?gs)) = Inr k" "k \<le> int ?n"
    using check_segments_last [OF segs gs(1)] by blast
  have "check_turns ?gs (Suc ?n) ?n [?t] = Inr ()"
    using role idx gs(1) k by (auto simp: py_number_def [of "PInt _"] member_of_def last_conv_nth nat_diff_distrib')
  moreover have "check_turns ?gs (Suc ?n) 0 (cv_turns s) = Inr ()" using turns by (rule check_turns_later) simp
  moreover have "check_segments True (- 1) (Suc ?n) ?gs = Inr ()" using segs by (rule check_segments_later) simp
  ultimately have "check_session s' = Inr ()"
    using gs by (simp add: check_session_def s' check_turns_append)
  with assms(2) show ?thesis by (simp add: conv_ok_def conv_plain_def s' turn_plain_def)
qed

lemma append_turn_plain: "append_turn role content idx stamps s = Inr s' \<Longrightarrow> conv_plain s \<Longrightarrow> conv_plain s'"
  by (auto simp: append_turn_def conv_plain_def turn_plain_def)

lemma append_turns_plain: "append_turns ts idx stamps s = Inr s' \<Longrightarrow> conv_plain s \<Longrightarrow> conv_plain s'"
  by (induction ts idx stamps s rule: append_turns.induct) (auto simp: py_bind_Inr_iff intro: append_turn_plain)

lemma append_turns_ok: "append_turns ts idx stamps s = Inr s' \<Longrightarrow> conv_ok s \<Longrightarrow> conv_ok s'"
  by (induction ts idx stamps s rule: append_turns.induct) (auto simp: py_bind_Inr_iff intro: append_turn_ok)

definition turned :: "conv \<Rightarrow> bool" where
  \<comment> \<open>a turn was stored since the runtime last changed\<close>
  "turned s \<longleftrightarrow> (\<exists>k. py_number (sg_from (last (cv_runtime s))) = Inr k \<and> k < int (length (cv_turns s)))"

lemma ensure_runtime_cases:
  assumes "ensure_runtime profile model device now s = Inr (i, s')"
  obtains "s' = s" | "s' = s\<lparr>cv_runtime := cv_runtime s @ [new_segment (length (cv_turns s)) profile model device],
      cv_updated := PStr now\<rparr>" "i = length (cv_runtime s)"
  using assms by (auto simp: ensure_runtime_def Let_def split: if_splits)

lemma ensure_runtime_ok:
  assumes "ensure_runtime profile model device now s = Inr (i, s')" "conv_ok s" "turned s"
  shows "conv_ok s'"
  using assms(1)
proof (cases rule: ensure_runtime_cases)
  case 1
  with assms(2) show ?thesis by simp
next
  case 2
  let ?g = "new_segment (length (cv_turns s)) profile model device"
  from assms(2) have gs: "cv_runtime s \<noteq> []" "py_eq (sg_from (hd (cv_runtime s))) (PInt 0)"
    and segs: "check_segments True (- 1) (length (cv_turns s)) (cv_runtime s) = Inr ()"
    and turns: "check_turns (cv_runtime s) (length (cv_turns s)) 0 (cv_turns s) = Inr ()"
    by (auto simp: conv_ok_def check_session_def py_bind_Inr_iff)
  have g: "sg_from ?g = PInt (int (length (cv_turns s)))" by (simp add: new_segment_def)
  obtain k where k: "py_number (sg_from (last (cv_runtime s))) = Inr k" "k < int (length (cv_turns s))"
    using assms(3) by (auto simp: turned_def)
  have "check_segments True (- 1) (length (cv_turns s)) (cv_runtime s @ [?g]) = Inr ()"
    using check_segments_snoc [OF segs gs(1) k(1), of ?g "int (length (cv_turns s))"] k(2) by (simp add: g py_number_def)
  then have "check_session s' = Inr ()"
    using gs check_turns_new_segment [OF turns g] by (simp add: check_session_def 2(1))
  with assms(2) show ?thesis
    by (simp add: conv_ok_def conv_plain_def 2(1) segment_plain_def new_segment_def)
qed

lemma new_session_ok:
  "conv_name_ok (cv_id (new_session profile model device budget persona now hex)) \<Longrightarrow> pred_option sha256_hex persona \<Longrightarrow>
     conv_ok (new_session profile model device budget persona now hex)"
  by (simp add: conv_ok_def conv_plain_def new_session_def new_segment_def check_session_def py_eq_def py_number_def
      segment_plain_def)

section \<open>Visits\<close>

text \<open>
  A visit opens a stored conversation, selects the runtime and appends what was said; a visit in which
  nothing is said writes nothing.
\<close>

datatype visit = Visit string string string string string "(string \<times> string) list" "(string \<times> string) list"

fun visit_step :: "nat \<Rightarrow> visit \<Rightarrow> conv_files \<Rightarrow> conv_files py" where
  "visit_step cap (Visit name profile model device now ts stamps) fs =
     py_bind (read_session fs name) (\<lambda>s.
     py_bind (ensure_runtime profile model device now s) (\<lambda>(i, s1).
     if ts = [] then Inr fs
     else py_bind (append_turns ts (int i) stamps s1) (\<lambda>s2. write_session cap s2 fs)))"

definition lively_files :: "conv_files \<Rightarrow> bool" where
  \<comment> \<open>every file is a written conversation with a turn since its runtime last changed\<close>
  "lively_files fs \<longleftrightarrow>
     (\<forall>name b. fs name = Some b \<longrightarrow> (\<exists>s. conv_ok s \<and> turned s \<and> cv_id s = name \<and> b = encoded_session s))"

lemma read_ok: "conv_ok s \<Longrightarrow> fs (cv_id s) = Some (encoded_session s) \<Longrightarrow> read_session fs (cv_id s) = Inr s"
  using read_written [of s fs] by (simp add: conv_ok_def)

lemma lively_read:
  assumes "lively_files fs" "read_session fs name = Inr s"
  shows "conv_ok s \<and> turned s \<and> cv_id s = name"
proof -
  obtain b where b: "fs name = Some b" using assms(2) by (auto simp: read_session_def split: option.splits)
  with assms(1) obtain t where t: "conv_ok t" "turned t" "cv_id t = name" "b = encoded_session t"
    by (auto simp: lively_files_def)
  with b read_ok [of t fs] assms(2) show ?thesis by simp
qed

lemma append_turn_fields:
  "append_turn role content idx stamps s = Inr s' \<Longrightarrow>
     cv_id s' = cv_id s \<and> cv_runtime s' = cv_runtime s \<and> cv_turns s' = cv_turns s
       @ [\<lparr>tn_role = PStr role, tn_content = PStr content, tn_at = PStr (fst stamps), tn_runtime = PInt idx\<rparr>]"
  by (auto simp: append_turn_def)

definition turns_as :: "(string \<times> string) list \<Rightarrow> int \<Rightarrow> (string \<times> string) list \<Rightarrow> conv_turn list \<Rightarrow> bool" where
  \<comment> \<open>the turns say these roles and contents, in this order, under this runtime segment and at these times\<close>
  "turns_as ts idx stamps us \<longleftrightarrow>
     map tn_role us = map (PStr \<circ> fst) ts \<and> map tn_content us = map (PStr \<circ> snd) ts
     \<and> map tn_runtime us = replicate (length ts) (PInt idx)
     \<and> (length ts \<le> length stamps \<longrightarrow> map tn_at us = map (PStr \<circ> fst) (take (length ts) stamps))"

lemma turns_as_length: "turns_as ts idx stamps us \<Longrightarrow> length us = length ts"
  unfolding turns_as_def by (metis length_map)

lemma append_turns_fields:
  "append_turns ts idx stamps s = Inr s' \<Longrightarrow>
     cv_id s' = cv_id s \<and> cv_runtime s' = cv_runtime s
     \<and> (\<exists>us. length us = length ts \<and> cv_turns s' = cv_turns s @ us \<and> turns_as ts idx stamps us)"
proof (induction ts idx stamps s rule: append_turns.induct)
  case (1 idx stamps s)
  then show ?case by (simp add: turns_as_def)
next
  case (2 role content ts idx stamps s)
  then obtain s1 where s1: "append_turn role content idx (if stamps = [] then ([], []) else hd stamps) s = Inr s1"
    "append_turns ts idx (tl stamps) s1 = Inr s'" by (auto simp: py_bind_Inr_iff)
  let ?t = "\<lparr>tn_role = PStr role, tn_content = PStr content,
    tn_at = PStr (fst (if stamps = [] then ([], []) else hd stamps)), tn_runtime = PInt idx\<rparr>"
  from "2.IH" [OF s1(2)] append_turn_fields [OF s1(1)] obtain us where
    ids: "cv_id s' = cv_id s" "cv_runtime s' = cv_runtime s"
    and us: "length us = length ts" "cv_turns s' = cv_turns s @ ?t # us" "turns_as ts idx (tl stamps) us" by auto
  from us(3) have "turns_as ((role, content) # ts) idx stamps (?t # us)"
    by (cases stamps) (auto simp: turns_as_def)
  with ids us(1,2) show ?case by (intro conjI exI [of _ "?t # us"]) simp_all
qed

lemma visit_keeps_turned:
  assumes "ensure_runtime profile model device now s = Inr (i, s1)" "append_turns ts idx stamps s1 = Inr s2" "ts \<noteq> []"
    "turned s"
  shows "turned s2"
proof -
  from append_turns_fields [OF assms(2)] assms(3)
  have len: "cv_runtime s2 = cv_runtime s1" "length (cv_turns s1) < length (cv_turns s2)" by auto
  from assms(1) show ?thesis
  proof (cases rule: ensure_runtime_cases)
    case 1
    with assms(4) len show ?thesis by (auto simp: turned_def)
  next
    case 2
    with len show ?thesis by (simp add: turned_def new_segment_def py_number_def)
  qed
qed

interpretation visits: guarded_machine "visit_step cap" lively_files for cap
proof unfold_locales
  fix fs x fs' assume fs: "lively_files fs" and step: "visit_step cap x fs = Inr fs'"
  obtain name profile model device now ts stamps where x: "x = Visit name profile model device now ts stamps" by (cases x)
  show "lively_files fs'"
  proof (cases "ts = []")
    case True
    with fs step x show ?thesis by (auto simp: py_bind_Inr_iff)
  next
    case False
    from step x False obtain s i s1 s2 where s: "read_session fs name = Inr s"
      and s1: "ensure_runtime profile model device now s = Inr (i, s1)"
      and s2: "append_turns ts (int i) stamps s1 = Inr s2" and w: "write_session cap s2 fs = Inr fs'"
      by (auto simp: py_bind_Inr_iff)
    note read = lively_read [OF fs s]
    have "conv_ok s2" using append_turns_ok [OF s2] ensure_runtime_ok [OF s1] read by blast
    moreover have "turned s2" using visit_keeps_turned [OF s1 s2 False] read by blast
    moreover have "fs' = fs(cv_id s2 \<mapsto> encoded_session s2)" using w by (auto simp: write_session_def)
    ultimately show ?thesis using fs by (auto simp: lively_files_def)
  qed
qed

text \<open>C31: Conversations in which something was said since their runtime last changed stay readable through
  every script of visits in any runtimes: whatever is written is read back exactly, and the next visit finds it.\<close>

theorem visited_conversations_stay_readable:
  assumes "lively_files fs"
  shows "case run_ops (visit_step cap) visits fs name of
      None \<Rightarrow> read_session (run_ops (visit_step cap) visits fs) name = Inl ContextRefusal
    | Some b \<Rightarrow> \<exists>s. read_session (run_ops (visit_step cap) visits fs) name = Inr s \<and> cv_id s = name
                     \<and> encoded_session s = b \<and> check_session s = Inr ()"
proof -
  let ?fs = "run_ops (visit_step cap) visits fs"
  have "lively_files ?fs" using assms by (rule visits.run_inv)
  show ?thesis
  proof (cases "?fs name")
    case None
    then show ?thesis by (simp add: read_session_def py_check_def)
  next
    case (Some b)
    with \<open>lively_files ?fs\<close> obtain s where s: "conv_ok s" "cv_id s = name" "b = encoded_session s"
      by (auto simp: lively_files_def)
    with Some read_ok [of s ?fs] have "read_session ?fs name = Inr s" by simp
    with s Some show ?thesis by (auto simp: conv_ok_def)
  qed
qed

section \<open>A runtime that changes before the first turn\<close>

lemma double_switch_refused:
  assumes s: "conv_ok s" "sg_from (last (cv_runtime s)) = PInt (int (length (cv_turns s)))"
    and r: "ensure_runtime profile model device now s = Inr (i, s1)" "s1 \<noteq> s"
    and a: "append_turns ts idx stamps s1 = Inr s2"
  shows "check_session s2 = Inl ContextRefusal \<and> conv_plain s2"
proof -
  let ?n = "length (cv_turns s)" and ?g = "new_segment (length (cv_turns s)) profile model device"
  from r have s1: "s1 = s\<lparr>cv_runtime := cv_runtime s @ [?g], cv_updated := PStr now\<rparr>"
    by (cases rule: ensure_runtime_cases) auto
  have plain: "conv_plain s1" using s(1) by (simp add: s1 conv_ok_def conv_plain_def segment_plain_def new_segment_def)
  from append_turns_fields [OF a] s1 have s2: "cv_runtime s2 = cv_runtime s @ [?g]" "length (cv_turns s2) = ?n + length ts"
    by auto
  from s(1) have gs: "cv_runtime s \<noteq> []" "py_eq (sg_from (hd (cv_runtime s))) (PInt 0)"
    and segs: "check_segments True (- 1) ?n (cv_runtime s) = Inr ()"
    by (auto simp: conv_ok_def check_session_def py_bind_Inr_iff)
  have "check_segments True (- 1) (?n + length ts) (cv_runtime s) = Inr ()"
    using segs by (rule check_segments_later) simp
  from check_segments_snoc [OF this gs(1), of "int ?n" ?g "int ?n"]
  have "check_segments True (- 1) (?n + length ts) (cv_runtime s @ [?g]) = Inl ContextRefusal"
    by (simp add: s(2) new_segment_def py_number_def)
  then have "check_session s2 = Inl ContextRefusal"
    using gs by (simp add: check_session_def s2)
  with append_turns_plain [OF a plain] show ?thesis by simp
qed

text \<open>C32: A conversation whose runtime was selected and then changed again before any turn was stored, such as
  one started with one profile and resumed with another, still takes turns and can be saved, but the file so
  written is refused by the reader.\<close>

theorem runtime_switch_without_a_turn_loses_the_conversation:
  assumes "conv_ok s" "sg_from (last (cv_runtime s)) = PInt (int (length (cv_turns s)))"
    and "ensure_runtime profile model device now s = Inr (i, s1)" "s1 \<noteq> s"
    and "append_turns ts (int i) stamps s1 = Inr s2" and "write_session cap s2 fs = Inr fs'"
  shows "read_session fs' (cv_id s) = Inl ContextRefusal"
proof -
  have id: "cv_id s2 = cv_id s"
    using append_turns_fields [OF assms(5)] assms(3) by (auto elim: ensure_runtime_cases)
  have fs': "fs' (cv_id s2) = Some (encoded_session s2)" using assms(6) by (auto simp: write_session_def)
  from read_written [of s2 fs'] double_switch_refused [OF assms(1-5)] fs' show ?thesis by (simp add: id)
qed

section \<open>Composed requests\<close>

lemma content_chars_append:
  "content_chars (xs @ ys) = py_bind (content_chars xs) (\<lambda>m. py_bind (content_chars ys) (\<lambda>n. Inr (m + n)))"
  by (induction xs) (auto simp: py_bind_def split: sum.splits)

lemma content_chars_Cons_Inr:
  "content_chars (m # ms) = Inr n \<longleftrightarrow> (\<exists>l k. py_len (cm_content m) = Inr l \<and> content_chars ms = Inr k \<and> n = l + k)"
  by (auto simp: py_bind_Inr_iff)

definition over :: "int \<Rightarrow> int \<Rightarrow> chat_message list \<Rightarrow> bool" where
  \<comment> \<open>the fixed part with this history exceeds the budget\<close>
  "over fixed budget ms \<longleftrightarrow> (\<exists>n. content_chars ms = Inr n \<and> budget < fixed + n)"

definition tight :: "int \<Rightarrow> int \<Rightarrow> nat \<Rightarrow> chat_message list \<Rightarrow> bool" where
  \<comment> \<open>every earlier start at a user turn would be too long\<close>
  "tight fixed budget d ms \<longleftrightarrow> (\<forall>j < d. is_role ''user'' (ms ! j) \<longrightarrow> over fixed budget (drop j ms))"

lemma tight_more:
  assumes "over fixed budget ms" "tight fixed budget d (drop e ms)"
    and "\<And>j. 0 < j \<Longrightarrow> j < e \<Longrightarrow> \<not> is_role ''user'' (ms ! j)" "e \<le> length ms"
  shows "tight fixed budget (e + d) ms"
  unfolding tight_def
proof (intro allI impI)
  fix j assume j: "j < e + d" "is_role ''user'' (ms ! j)"
  show "over fixed budget (drop j ms)"
  proof (cases "j < e")
    case True
    with j(2) assms(1,3) show ?thesis by (cases "j = 0") auto
  next
    case False
    then have i: "j - e < d" "drop e ms ! (j - e) = ms ! j" "drop (j - e) (drop e ms) = drop j ms"
      using j(1) assms(4) by simp_all
    with assms(2) j(2) show ?thesis unfolding tight_def by metis
  qed
qed

lemma trim_history_spec:
  assumes "trim_history fixed budget n k ms = Inr (n', k', kept)" "content_chars ms = Inr n"
  shows "\<exists>d. k' = k + d \<and> kept = drop d ms \<and> content_chars kept = Inr n' \<and> (kept = [] \<or> fixed + n' \<le> budget)
    \<and> tight fixed budget d ms"
  using assms
proof (induction fixed budget n k ms rule: trim_history.induct)
  case (1 fixed budget n k)
  then show ?case by (intro exI [of _ 0]) (auto simp: tight_def)
next
  case (2 fixed budget n k m ms)
  show ?case
  proof (cases "fixed + n \<le> budget")
    case True
    with 2 show ?thesis by (intro exI [of _ 0]) (auto simp: tight_def)
  next
    case False
    then have big: "over fixed budget (m # ms)" using "2.prems"(2) by (auto simp: over_def)
    from "2.prems"(2) obtain l r where l: "py_len (cm_content m) = Inr l" "content_chars ms = Inr r" "n = l + r"
      by (auto simp only: content_chars_Cons_Inr)
    show ?thesis
    proof (cases ms)
      case Nil
      with "2.prems" False l show ?thesis
        by (intro exI [of _ 1]) (use big in \<open>auto simp: tight_def py_bind_def\<close>)
    next
      case (Cons a rest)
      show ?thesis
      proof (cases "is_role ''assistant'' a")
        case True
        from l(2) Cons obtain la ra where la: "py_len (cm_content a) = Inr la" "content_chars rest = Inr ra" "r = la + ra"
          by (auto simp only: content_chars_Cons_Inr)
        from "2.prems"(1) False l la Cons True
        have step: "trim_history fixed budget (n - l - la) (k + 2) rest = Inr (n', k', kept)" by simp
        have "content_chars rest = Inr (n - l - la)" using l la by simp
        from "2.IH"(1) [OF False Cons True step this] obtain d where
          d: "k' = k + 2 + d" "kept = drop d rest" "content_chars kept = Inr n'" "kept = [] \<or> fixed + n' \<le> budget"
            "tight fixed budget d rest" by auto
        have "tight fixed budget (2 + d) (m # ms)"
          using big d(5) True Cons by (intro tight_more) (auto simp: less_Suc_eq is_role_def numeral_2_eq_2)
        with d Cons show ?thesis by (intro exI [of _ "2 + d"]) simp
      next
        case na: False
        from "2.prems"(1) [unfolded trim_history.simps(2) [of fixed budget n k m ms]] False l Cons na
        have step: "trim_history fixed budget (n - l) (Suc k) (a # rest) = Inr (n', k', kept)"
          by (simp del: trim_history.simps)
        have "content_chars (a # rest) = Inr (n - l)" using l Cons by simp
        from "2.IH"(2) [OF False Cons na step this] obtain d where
          d: "k' = Suc k + d" "kept = drop d (a # rest)" "content_chars kept = Inr n'" "kept = [] \<or> fixed + n' \<le> budget"
            "tight fixed budget d (a # rest)" by auto
        have "tight fixed budget (1 + d) (m # ms)"
          using big d(5) Cons by (intro tight_more) auto
        with d Cons show ?thesis by (intro exI [of _ "Suc d"]) simp
      qed
    qed
  qed
qed

text \<open>A composed request is the contract, the persona, the newest part of the history and the current turn;
  its characters are the total it reports and stay within the budget; the kept history starts with a user turn,
  and starting it at any earlier user turn would have exceeded the budget.\<close>

theorem composed_request_fits:
  assumes "compose contract persona s said = Inr c"
  shows "cp_messages c = (contract # (case persona of None \<Rightarrow> [] | Some p \<Rightarrow> [p]))
      @ drop (cp_dropped c) (map turn_message (cv_turns s)) @ [user_message said]
    \<and> content_chars (cp_messages c) = Inr (cp_total c) \<and> cp_total c \<le> cv_budget s
    \<and> (case drop (cp_dropped c) (map turn_message (cv_turns s)) of [] \<Rightarrow> True | m # _ \<Rightarrow> is_role ''user'' m)
    \<and> (\<exists>fixed. content_chars ((contract # (case persona of None \<Rightarrow> [] | Some p \<Rightarrow> [p])) @ [user_message said]) = Inr fixed
         \<and> tight fixed (cv_budget s) (cp_dropped c) (map turn_message (cv_turns s)))"
proof -
  let ?h = "map turn_message (cv_turns s)" and ?fixed = "contract # (case persona of None \<Rightarrow> [] | Some p \<Rightarrow> [p])"
  from assms obtain lc pp n n' dropped kept where
    lc: "py_len (cm_content contract) = Inr lc"
    and pp: "(case persona of None \<Rightarrow> Inr [] | Some p \<Rightarrow> py_bind (py_len (cm_content p)) (\<lambda>l. Inr [(''persona'', l)])) = Inr pp"
    and fit: "lc + sum_list (map snd pp) + int (length said) \<le> cv_budget s"
    and n: "content_chars ?h = Inr n"
    and t: "trim_history (lc + sum_list (map snd pp) + int (length said)) (cv_budget s) n 0 ?h = Inr (n', dropped, kept)"
    and user: "kept = [] \<or> is_role ''user'' (hd kept)"
    and c: "c = \<lparr>cp_messages = ?fixed @ kept @ [user_message said],
             cp_parts = (''contract'', lc) # pp @ [(''history'', n'), (''current_turn'', int (length said))],
             cp_dropped = dropped, cp_total = lc + sum_list (map snd pp) + int (length said) + n', cp_budget = cv_budget s\<rparr>"
    by (auto simp: compose_def py_bind_Inr_iff Let_def not_less)
  from trim_history_spec [OF t n] have d: "kept = drop dropped ?h" "content_chars kept = Inr n'"
    "kept = [] \<or> lc + sum_list (map snd pp) + int (length said) + n' \<le> cv_budget s"
    "tight (lc + sum_list (map snd pp) + int (length said)) (cv_budget s) dropped ?h"
    by auto
  have said: "content_chars [user_message said] = Inr (int (length said))"
    by (simp add: user_message_def py_len_def)
  have fixed: "content_chars ?fixed = Inr (lc + sum_list (map snd pp))"
    using lc pp by (cases persona) (auto simp: py_bind_Inr_iff)
  have "kept = [] \<Longrightarrow> n' = 0" using d(2) by auto
  with fit d(3) have within: "cp_total c \<le> cv_budget s" by (auto simp: c)
  have total: "content_chars (cp_messages c) = Inr (cp_total c)"
    by (simp only: c composed.simps content_chars_append fixed d(2) said py_bind_simps) simp
  have "content_chars (?fixed @ [user_message said]) = Inr (lc + sum_list (map snd pp) + int (length said))"
    by (simp only: content_chars_append fixed said py_bind_simps)
  with d(4) have tightness: "\<exists>fixed. content_chars (?fixed @ [user_message said]) = Inr fixed
      \<and> tight fixed (cv_budget s) (cp_dropped c) ?h"
    by (auto simp only: c composed.simps)
  have "case kept of [] \<Rightarrow> True | m # _ \<Rightarrow> is_role ''user'' m" using user by (cases kept) auto
  with within total tightness show ?thesis by (simp only: c composed.simps d(1) simp_thms)
qed

section \<open>The window of the gateway\<close>

lemma find_at_end: "\<forall>x \<in> set xs. \<not> P x \<Longrightarrow> P y \<Longrightarrow> find P (xs @ [y]) = Some y"
  by (induction xs) auto

lemma find_none: "\<forall>x \<in> set xs. \<not> P x \<Longrightarrow> find P xs = None"
  by (induction xs) auto

lemma inner_system_none: "\<forall>h \<in> set hist. \<not> is_role r h \<Longrightarrow>
     \<forall>i \<in> set [1..<Suc (length hist)]. \<not> is_role r ((a # hist @ rest) ! i)"
  by (auto simp: nth_append nth_Cons split: nat.splits)

lemma inner_system_turns: "\<forall>h \<in> set hist. \<not> is_role ''system'' h \<Longrightarrow> inner_system (a # hist @ [u]) = None"
  using find_none [OF inner_system_none, of hist "''system''" a "[u]"] by (simp add: inner_system_def)

lemma inner_system_observation:
  assumes "\<forall>h \<in> set hist. \<not> is_role ''system'' h" "is_role ''system'' x"
  shows "inner_system (a # hist @ [x, u]) = Some (Suc (length hist))"
proof -
  have "[1..<Suc (Suc (length hist))] = [1..<Suc (length hist)] @ [Suc (length hist)]" by simp
  with find_at_end [OF inner_system_none [OF assms(1), of a "[x, u]"], of "Suc (length hist)"] assms(2)
  show ?thesis by (simp add: inner_system_def nth_append del: upt_Suc)
qed

lemma window_unfold:
  "window g (a # mid @ [u]) =
     (if mid = [] then Inr (a # mid @ [u])
      else
        py_bind (content_chars mid) (\<lambda>n.
        py_bind (if gl_history g < n then Inr True else over_budget g (a # mid @ [u])) (\<lambda>big.
        if \<not> big then Inr (a # mid @ [u])
        else
          (case inner_system (a # mid @ [u]) of
             Some i \<Rightarrow> window g (delete_at i (a # mid @ [u]))
           | None \<Rightarrow>
               py_check (\<not> is_role ''user'' (hd mid)) ValueError (
               if 2 \<le> length mid \<and> is_role ''assistant'' (hd (tl mid)) then window g (a # tl (tl mid) @ [u])
               else window g (a # tl mid @ [u]))))))"
proof (cases mid)
  case Nil
  then show ?thesis by (simp add: window.simps [of g "[a, u]"])
next
  case (Cons m rest)
  have del: "delete_at (Suc 0) (x # y # zs) = x # zs" for x y :: chat_message and zs by (simp add: delete_at_def)
  show ?thesis
  proof (cases rest)
    case Nil
    with Cons show ?thesis by (simp add: window.simps [of g "[a, m, u]"] del Let_def cong: if_cong option.case_cong)
  next
    case (Cons m2 more)
    with \<open>mid = m # rest\<close> show ?thesis
      by (simp add: window.simps [of g "a # m # m2 # more @ [u]"] del Let_def cong: if_cong option.case_cong)
  qed
qed

definition in_window :: "gateway_limits \<Rightarrow> chat_message list \<Rightarrow> bool" where
  "in_window g ms \<longleftrightarrow> over_budget g ms = Inr False
     \<and> (\<exists>n. content_chars (butlast (tl ms)) = Inr n \<and> n \<le> gl_history g)"

lemma window_spec:
  assumes "window g (a # hist @ obs @ [u]) = Inr ms" "\<forall>h \<in> set hist. \<not> is_role ''system'' h"
    and "obs = [] \<or> (\<exists>x. obs = [x] \<and> is_role ''system'' x)"
  shows "\<exists>d obs'. ms = a # drop d hist @ obs' @ [u] \<and> (obs' = obs \<and> d = 0 \<or> obs' = [])
    \<and> (drop d hist @ obs' = [] \<or> in_window g ms)"
  using assms
proof (induction "length (hist @ obs)" arbitrary: hist obs rule: less_induct)
  case less
  show ?case
  proof (cases "hist @ obs = []")
    case True
    with less.prems(1) window_unfold [of g a "[]" u] show ?thesis by (intro exI [of _ 0] exI [of _ obs]) auto
  next
    case False
    from less.prems(1) have "window g (a # (hist @ obs) @ [u]) = Inr ms" by simp
    from this [unfolded window_unfold [of g a "hist @ obs" u]] False obtain n big where
      n: "content_chars (hist @ obs) = Inr n"
      and big: "(if gl_history g < n then Inr True else over_budget g (a # hist @ obs @ [u])) = Inr big"
      and rest: "(if \<not> big then Inr (a # hist @ obs @ [u])
        else (case inner_system (a # hist @ obs @ [u]) of
             Some i \<Rightarrow> window g (delete_at i (a # hist @ obs @ [u]))
           | None \<Rightarrow>
               py_check (\<not> is_role ''user'' (hd (hist @ obs))) ValueError (
               if 2 \<le> length (hist @ obs) \<and> is_role ''assistant'' (hd (tl (hist @ obs)))
               then window g (a # tl (tl (hist @ obs)) @ [u]) else window g (a # tl (hist @ obs) @ [u])))) = Inr ms"
      by (simp only: if_False py_bind_Inr_iff append_assoc) blast
    show ?thesis
    proof (cases big)
      case False
      with rest have ms: "ms = a # hist @ obs @ [u]" by simp
      have "butlast (tl ms) = hist @ obs" by (simp add: ms butlast_append)
      then have "in_window g ms" using n big False by (auto simp: in_window_def ms split: if_splits)
      with ms show ?thesis by (intro exI [of _ 0] exI [of _ obs]) simp
    next
      case True
      show ?thesis
      proof (cases "obs = []")
        case False
        then obtain x where x: "obs = [x]" "is_role ''system'' x" using less.prems(3) by auto
        have "delete_at (Suc (length hist)) (a # hist @ [x, u]) = a # hist @ [] @ [u]" by (simp add: delete_at_def)
        with rest True inner_system_observation [OF less.prems(2) x(2), of a u] x(1)
        have "window g (a # hist @ [] @ [u]) = Inr ms" by simp
        from less.hyps [OF _ this less.prems(2)] x(1) show ?thesis by auto
      next
        case obs: True
        with \<open>hist @ obs \<noteq> []\<close> have h: "hist \<noteq> []" by simp
        have none: "inner_system (a # hist @ [u]) = None" by (rule inner_system_turns [OF less.prems(2)])
        define e where "e = (if 2 \<le> length hist \<and> is_role ''assistant'' (hd (tl hist)) then 2 else 1 :: nat)"
        have "window g (a # drop e hist @ [] @ [u]) = Inr ms"
          using rest True obs none by (auto simp: e_def drop_Suc numeral_2_eq_2 split: if_splits)
        moreover have "length (drop e hist @ []) < length (hist @ obs)" using h by (simp add: e_def obs)
        moreover have "\<forall>m \<in> set (drop e hist). \<not> is_role ''system'' m" using less.prems(2) by (auto dest: in_set_dropD)
        ultimately have "\<exists>d obs'. ms = a # drop d (drop e hist) @ obs' @ [u] \<and> (obs' = [] \<and> d = 0 \<or> obs' = [])
            \<and> (drop d (drop e hist) @ obs' = [] \<or> in_window g ms)"
          by (intro less.hyps) simp_all
        then obtain d obs' where d: "ms = a # drop d (drop e hist) @ obs' @ [u]" "obs' = []"
          "drop d (drop e hist) @ obs' = [] \<or> in_window g ms" by blast
        then show ?thesis by (intro exI [of _ "d + e"] exI [of _ "[]"]) simp
      qed
    qed
  qed
qed

text \<open>The messages the gateway sends are its rules, a suffix of the stored turns, the observation of an
  earlier task unless it was dropped, and what was said.  The observation is dropped before any turn, and
  unless nothing between rules and input is left they are within the history, character and byte limits.\<close>

theorem gateway_window_is_bounded:
  assumes "gateway_messages rules g s observation said = Inr ms" "check_session s = Inr ()"
  shows "\<exists>d obs. ms = \<lparr>cm_role = PStr ''system'', cm_content = PStr rules\<rparr> # drop d (map turn_message (cv_turns s)) @ obs
        @ [user_message said]
    \<and> length obs \<le> 1 \<and> (if d = 0 then obs = [] \<or> observation \<noteq> None else obs = [])
    \<and> (drop d (map turn_message (cv_turns s)) @ obs = [] \<or> in_window g ms)"
proof -
  have known: "check_turns gs n i ts = Inr () \<Longrightarrow> t \<in> set ts \<Longrightarrow> \<not> is_role ''system'' (turn_message t)" for gs n i ts t
    by (induction gs n i ts rule: check_turns.induct)
      (auto simp: py_bind_Inr_iff member_of_def is_role_def turn_message_def)
  have roles: "\<forall>h \<in> set (map turn_message (cv_turns s)). \<not> is_role ''system'' h"
    using assms(2) known by (auto simp: check_session_def py_bind_Inr_iff)
  define obs where "obs = (case observation of None \<Rightarrow> []
    | Some x \<Rightarrow> [\<lparr>cm_role = PStr ''system'',
        cm_content = PStr (''Historical task observation (untrusted; not current verification):'' @ nl @ x)\<rparr>])"
  have "obs = [] \<or> (\<exists>x. obs = [x] \<and> is_role ''system'' x)"
    by (auto simp: obs_def is_role_def split: option.splits)
  from window_spec [OF assms(1) [unfolded gateway_messages_def, folded obs_def] roles this] obtain d obs' where
    d: "ms = \<lparr>cm_role = PStr ''system'', cm_content = PStr rules\<rparr> # drop d (map turn_message (cv_turns s)) @ obs'
        @ [user_message said]" "obs' = obs \<and> d = 0 \<or> obs' = []"
      "drop d (map turn_message (cv_turns s)) @ obs' = [] \<or> in_window g ms" by blast
  have "length obs \<le> 1" "obs = [] \<or> observation \<noteq> None" by (auto simp: obs_def split: option.splits)
  with d show ?thesis by (intro exI [of _ d] exI [of _ obs']) auto
qed

lemma conversation_budgets_accepted:
  "conversation_budgets tokens = Inr g \<Longrightarrow> mk_gateway_limits (gl_history g) (gl_bytes g) (gl_chars g) = Inr g"
  by (auto simp: conversation_budgets_def mk_gateway_limits_def CHARS_PER_TOKEN_ESTIMATE_def py_check_def Let_def
      split: if_splits)

lemma observation_cites_its_turn:
  assumes "historical_observation sha s last_answer (Some latest) = (Inr (Some prompt), evs)"
  obtains ref i expected where "latest = Inr (Some (ref, prompt))" "0 \<le> i" "i < int (length (cv_turns s))"
    "turn_ref sha s (PInt i) = Inr expected" "py_eq (PDict expected) (PDict ref)"
proof -
  from assms obtain ref raw i expected where r: "latest = Inr (Some (ref, prompt))" "py_int raw = Inr i"
    "turn_ref sha s (PInt i) = Inr expected" "py_eq (PDict expected) (PDict ref)"
    by (auto simp: historical_observation_def py_bind_Inr_iff split: sum.splits option.splits if_splits)
  moreover have "0 \<le> i \<and> i < int (length (cv_turns s))"
    using r(3) by (auto simp: turn_ref_def require_integer_def split: sum.splits if_splits)
  ultimately show thesis using that by blast
qed

lemma every_question_is_in_the_history:
  "map fst (history_pairs ts) = map tn_content (filter (\<lambda>t. tn_role t = PStr ''user'') ts)"
  by (induction ts rule: history_pairs.induct) (auto split: list.splits)

section \<open>Recording turns\<close>

lemma append_turns_suffix:
  "append_turns ts idx stamps s = Inr s' \<Longrightarrow> n \<le> length (cv_turns s) \<Longrightarrow> take n (cv_turns s') = take n (cv_turns s)"
  by (drule append_turns_fields) auto



section \<open>Witnesses\<close>

definition first_talk :: conv where
  "first_talk = new_session ''small'' ''model'' ''NPU'' 40 None ''2026-01-01T00:00:00Z'' ''ab12''"

definition hello_turn :: conv_turn where
  "hello_turn = \<lparr>tn_role = PStr ''user'', tn_content = PStr ''hello'', tn_at = PStr ''t1'', tn_runtime = PInt 0\<rparr>"

definition second_talk :: conv where
  "second_talk = first_talk\<lparr>cv_turns := [hello_turn], cv_updated := PStr ''t2''\<rparr>"

lemma first_talk_ok: "conv_ok first_talk"
  unfolding first_talk_def by (rule new_session_ok) (simp_all, code_simp)

lemma second_talk_made: "append_turns [(''user'', ''hello'')] 0 [(''t1'', ''t2'')] first_talk = Inr second_talk"
  by (simp add: append_turn_def second_talk_def hello_turn_def first_talk_def new_session_def)

lemma second_talk_ok: "conv_ok second_talk" "turned second_talk"
  using append_turns_ok [OF second_talk_made first_talk_ok]
  by (simp_all add: turned_def second_talk_def first_talk_def new_session_def new_segment_def py_number_def)

lemma visited_conversations_stay_readable_witness:
  "case run_ops (visit_step 5000) [Visit (cv_id second_talk) ''large'' ''model'' ''GPU'' ''t3'' [(''user'', ''again'')] []]
      [cv_id second_talk \<mapsto> encoded_session second_talk] (cv_id second_talk) of
    None \<Rightarrow> False
  | Some b \<Rightarrow> \<exists>s. encoded_session s = b \<and> check_session s = Inr ()"
proof -
  let ?fs = "[cv_id second_talk \<mapsto> encoded_session second_talk]"
  let ?v = "Visit (cv_id second_talk) ''large'' ''model'' ''GPU'' ''t3'' [(''user'', ''again'')] []"
  have lively: "lively_files ?fs" using second_talk_ok by (auto simp: lively_files_def)
  have "run_ops (visit_step 5000) [?v] ?fs (cv_id second_talk) \<noteq> None"
    by (auto simp: after_op_def py_bind_Inr_iff write_session_def split: sum.splits)
  with visited_conversations_stay_readable [OF lively, of 5000 "[?v]" "cv_id second_talk"]
  show ?thesis by (auto simp del: run_ops.simps visit_step.simps split: option.splits)
qed

definition switched_talk :: conv where
  "switched_talk = first_talk\<lparr>cv_runtime := cv_runtime first_talk @ [new_segment 0 ''large'' ''model'' ''GPU''], cv_updated := PStr ''t0''\<rparr>"

definition lost_talk :: conv where
  "lost_talk = switched_talk\<lparr>cv_turns := [hello_turn\<lparr>tn_runtime := PInt 1\<rparr>], cv_updated := PStr ''t2''\<rparr>"

lemma runtime_switch_without_a_turn_loses_the_conversation_witness:
  "read_session [cv_id first_talk \<mapsto> encoded_session lost_talk] (cv_id first_talk) = Inl ContextRefusal"
proof -
  have from_zero: "sg_from (last (cv_runtime first_talk)) = PInt (int (length (cv_turns first_talk)))"
    by (simp add: first_talk_def new_session_def new_segment_def)
  have switch: "ensure_runtime ''large'' ''model'' ''GPU'' ''t0'' first_talk = Inr (1, switched_talk)"
    by (simp add: ensure_runtime_def switched_talk_def first_talk_def new_session_def new_segment_def py_eq_def)
  have other: "switched_talk \<noteq> first_talk"
  proof
    assume "switched_talk = first_talk"
    then have "length (cv_runtime switched_talk) = length (cv_runtime first_talk)" by simp
    then show False by (simp add: switched_talk_def)
  qed
  have append: "append_turns [(''user'', ''hello'')] (int 1) [(''t1'', ''t2'')] switched_talk = Inr lost_talk"
    by (simp add: append_turn_def lost_talk_def hello_turn_def switched_talk_def first_talk_def new_session_def)
  have id: "cv_id lost_talk = cv_id first_talk" by (simp add: lost_talk_def switched_talk_def)
  have "write_session (length (encoded_session lost_talk)) lost_talk Map.empty = Inr [cv_id first_talk \<mapsto> encoded_session lost_talk]"
    using first_talk_ok by (simp add: write_session_def id conv_ok_def conv_plain_def)
  from runtime_switch_without_a_turn_loses_the_conversation [OF first_talk_ok from_zero switch other append this]
  show ?thesis .
qed

lemma composed_request_fits_witness:
  "\<exists>c. compose \<lparr>cm_role = PStr ''system'', cm_content = PStr ''obey''\<rparr> None second_talk ''now'' = Inr c
     \<and> content_chars (cp_messages c) = Inr (cp_total c) \<and> cp_total c \<le> 40"
proof -
  obtain c where c: "compose \<lparr>cm_role = PStr ''system'', cm_content = PStr ''obey''\<rparr> None second_talk ''now'' = Inr c"
    by (simp add: compose_def py_len_def second_talk_def first_talk_def new_session_def hello_turn_def turn_message_def
        is_role_def Let_def)
  have "cv_budget second_talk = 40" by (simp add: second_talk_def first_talk_def new_session_def)
  with composed_request_fits [OF c] c show ?thesis by auto
qed

lemma gateway_window_is_bounded_witness:
  "\<exists>ms. gateway_messages ''rules'' \<lparr>gl_history = 2, gl_bytes = 100, gl_chars = 100\<rparr> second_talk (Some ''old'') ''now'' = Inr ms
     \<and> length ms = 2"
proof -
  let ?sys = "\<lparr>cm_role = PStr ''system'', cm_content = PStr ''rules''\<rparr>"
  let ?obs = "\<lparr>cm_role = PStr ''system'',
    cm_content = PStr (''Historical task observation (untrusted; not current verification):'' @ nl @ ''old'')\<rparr>"
  let ?g = "\<lparr>gl_history = 2, gl_bytes = 100, gl_chars = 100\<rparr>"
  have turns: "map turn_message (cv_turns second_talk) = [user_message ''hello'']"
    by (simp add: second_talk_def hello_turn_def turn_message_def user_message_def)
  have one: "inner_system [?sys, user_message ''hello'', ?obs, user_message ''now''] = Some 2"
    using inner_system_observation [of "[user_message ''hello'']" ?obs ?sys "user_message ''now''"]
    by (simp add: is_role_def user_message_def)
  have none: "inner_system [?sys, user_message ''hello'', user_message ''now''] = None"
    using inner_system_turns [of "[user_message ''hello'']" ?sys "user_message ''now''"]
    by (simp add: is_role_def user_message_def)
  have "window ?g [?sys, user_message ''hello'', user_message ''now''] = Inr [?sys, user_message ''now'']"
    using window_unfold [of ?g ?sys "[user_message ''hello'']" "user_message ''now''"]
      window_unfold [of ?g ?sys "[]" "user_message ''now''"] none
    by (simp add: user_message_def py_len_def is_role_def)
  then have "window ?g [?sys, user_message ''hello'', ?obs, user_message ''now''] = Inr [?sys, user_message ''now'']"
    using window_unfold [of ?g ?sys "[user_message ''hello'', ?obs]" "user_message ''now''"] one
    by (simp add: user_message_def py_len_def nl_def delete_at_def)
  then have w: "gateway_messages ''rules'' ?g second_talk (Some ''old'') ''now'' = Inr [?sys, user_message ''now'']"
    by (simp add: gateway_messages_def turns)
  have "check_session second_talk = Inr ()" using second_talk_ok by (simp add: conv_ok_def)
  from gateway_window_is_bounded [OF w this] w show ?thesis by auto
qed





end
