(* ===== verification/Agent_Context.thy ===== *)
theory Agent_Context
  imports Json_Codec
begin

text \<open>
  The messages of a run and their compaction (\<open>agent/context.py\<close>), with the step of
  \<open>agent/orchestrator.py\<close> that compacts before a request and refuses one that is over budget.  A
  message is a dictionary.  The float \<open>hysteresis\<close> is a number of hundredths: the source uses
  0.55 and 1.0, for which the truncated float product is the truncated exact one.
\<close>

section \<open>State\<close>

record compaction =
  cn_at :: nat
  cn_before :: int
  cn_after :: int
  cn_collapsed :: nat

definition tokens_reclaimed :: "compaction \<Rightarrow> int" where
  "tokens_reclaimed e = cn_before e - cn_after e"

record agent_context =
  cx_budget :: int
  cx_keep :: int
  cx_hysteresis :: int
  cx_overhead :: int
  cx_margin :: int
  cx_messages :: "pydict list"
  cx_compactions :: "compaction list"

definition new_context :: "int \<Rightarrow> agent_context" where
  "new_context budget =
     \<lparr>cx_budget = budget, cx_keep = 6, cx_hysteresis = 55, cx_overhead = 0, cx_margin = 128,
      cx_messages = [], cx_compactions = []\<rparr>"

section \<open>Messages\<close>

definition tool_result_message :: "string \<Rightarrow> string \<Rightarrow> string \<Rightarrow> pydict" where
  "tool_result_message call name payload =
     [(''role'', PStr ''tool''), (''tool_call_id'', PStr call), (''name'', PStr name), (''content'', PStr payload)]"

definition build_skill_message :: "string \<Rightarrow> string \<Rightarrow> string list \<Rightarrow> pydict" where
  \<comment> \<open>the name, the body and the references of the skill\<close>
  "build_skill_message name body references =
     [(''role'', PStr ''system''),
      (''content'', PStr (''Active skill: '' @ name @ nl @ nl @ body @
         (if references = [] then []
          else nl @ nl @ ''Additional references available on request (ask for them by name ''
            @ ''and they will be provided): '' @ join '', '' references)))]"

definition is_tool :: "pydict \<Rightarrow> bool" where
  "is_tool m \<longleftrightarrow> py_get m ''role'' = PStr ''tool''"

definition content_text :: "pydict \<Rightarrow> string" where
  "content_text m =
     (let c = py_get m ''content'' in
      if \<not> truthy c then [] else case c of PList xs \<Rightarrow> json_text plain_style c | _ \<Rightarrow> py_str c)"

definition message_chars :: "pydict \<Rightarrow> nat py" where
  "message_chars m =
     (let calls = py_get m ''tool_calls'' in
      py_bind (if truthy calls then iterate calls else Inr []) (\<lambda>cs.
        Inr (length (content_text m) + sum_list (map (\<lambda>c. length (json_text plain_style c)) cs))))"

fun all_chars :: "pydict list \<Rightarrow> nat py" where
  "all_chars [] = Inr 0"
| "all_chars (m # ms) = py_bind (message_chars m) (\<lambda>n. py_bind (all_chars ms) (\<lambda>k. Inr (n + k)))"

definition approximate_tokens :: "pydict list \<Rightarrow> int py" where
  "approximate_tokens ms = py_bind (all_chars ms) (\<lambda>n. Inr (int (n div 4)))"

definition text_of :: "pyval \<Rightarrow> pyval py" where
  \<comment> \<open>\<open>json.loads(value)\<close>: only a text is read; a number with a fraction or an exponent, which the source reads
    as a float, counts as malformed here\<close>
  "text_of v = (case v of PStr s \<Rightarrow> json_loads s | _ \<Rightarrow> Inl TypeError)"

definition collapsed_payload :: "pyval \<Rightarrow> pyval \<Rightarrow> pyval \<Rightarrow> pydict" where
  "collapsed_payload ok summary artifacts =
     [(''ok'', ok), (''summary'', summary), (''artifacts'', artifacts), (''collapsed'', PBool True),
      (''note'', PStr ''Earlier result; payload dropped. Re-run the tool if needed.'')]"

definition collapse :: "pydict \<Rightarrow> pydict py" where
  "collapse m =
     (let c = py_get m ''content''; raw = (if truthy c then c else PStr []);
          unread = collapsed_payload PNone (PStr (take 200 (py_str raw))) (PList [])
      in py_bind (case text_of raw of
                    Inl e \<Rightarrow> if e = ValueError then Inr unread else Inl e
                  | Inr v \<Rightarrow> Inr (case v of
                      PDict d \<Rightarrow> collapsed_payload (py_get d ''ok'') (py_get_or d ''summary'' (PStr [])) (py_get_or d ''artifacts'' (PList []))
                    | _ \<Rightarrow> unread)) (\<lambda>payload.
         Inr (py_set m ''content'' (PStr (json_text plain_style (PDict payload))))))"

definition is_collapsed :: "pydict \<Rightarrow> bool" where
  \<comment> \<open>a content that is not the text of an object counts as not collapsed\<close>
  "is_collapsed m =
     (let c = py_get m ''content'' in
      case text_of (if truthy c then c else PStr ''{}'') of
        Inr (PDict d) \<Rightarrow> truthy (py_get d ''collapsed'')
      | _ \<Rightarrow> False)"

section \<open>The manager\<close>

definition cx_append :: "pydict \<Rightarrow> agent_context \<Rightarrow> agent_context" where
  "cx_append m cx = cx\<lparr>cx_messages := cx_messages cx @ [m]\<rparr>"

definition cx_extend :: "pydict list \<Rightarrow> agent_context \<Rightarrow> agent_context" where
  "cx_extend ms cx = cx\<lparr>cx_messages := cx_messages cx @ ms\<rparr>"

definition cx_tokens :: "agent_context \<Rightarrow> int py" where
  "cx_tokens cx = approximate_tokens (cx_messages cx)"

definition estimated_tokens :: "agent_context \<Rightarrow> int py" where
  "estimated_tokens cx = py_bind (cx_tokens cx) (\<lambda>t. Inr (t + cx_overhead cx))"

definition set_tool_schemas :: "pyval list \<Rightarrow> agent_context \<Rightarrow> agent_context" where
  "set_tool_schemas schemas cx =
     (if schemas = [] then cx
      else let estimate = max 1 (int (length (json_dumps (PList schemas)) div 4)) + cx_margin cx
           in cx\<lparr>cx_overhead := max (cx_overhead cx) estimate\<rparr>)"

definition observe_prompt_tokens :: "int \<Rightarrow> int \<Rightarrow> agent_context \<Rightarrow> agent_context" where
  "observe_prompt_tokens prompt message_tokens cx =
     (if prompt \<le> 0 then cx
      else cx\<lparr>cx_overhead := max (cx_overhead cx) (max 0 (prompt - message_tokens) + cx_margin cx)\<rparr>)"

definition stable_prefix_len :: "agent_context \<Rightarrow> int" where
  "stable_prefix_len cx =
     (if cx_compactions cx = [] then int (length (cx_messages cx))
      else int (length (cx_messages cx)) - int (cn_at (last (cx_compactions cx))))"

definition needs_compaction :: "agent_context \<Rightarrow> bool py" where
  "needs_compaction cx = py_bind (estimated_tokens cx) (\<lambda>t. Inr (cx_budget cx < t))"

definition truncated_percent :: "int \<Rightarrow> int \<Rightarrow> int" where
  \<comment> \<open>\<open>int(n * h)\<close> truncates towards zero\<close>
  "truncated_percent n h = (if 0 \<le> n * h then n * h div 100 else - (- (n * h) div 100))"

definition tool_indices :: "agent_context \<Rightarrow> nat list" where
  "tool_indices cx = filter (\<lambda>i. is_tool (cx_messages cx ! i)) [0..<length (cx_messages cx)]"

definition old_results :: "agent_context \<Rightarrow> nat list" where
  \<comment> \<open>\<open>tool_indices[:-keep]\<close>, or all of them for \<open>keep = 0\<close>\<close>
  "old_results cx =
     (let is = tool_indices cx; k = cx_keep cx in
      if k = 0 then is else if 0 < k then take (length is - nat k) is else take (nat (- k)) is)"

definition recent_results :: "agent_context \<Rightarrow> nat list" where
  "recent_results cx = filter (\<lambda>i. i \<notin> set (old_results cx)) (tool_indices cx)"

fun collapse_from :: "int \<Rightarrow> nat list \<Rightarrow> nat list \<Rightarrow> nat \<times> nat \<Rightarrow> agent_context \<Rightarrow> (nat \<times> nat \<times> agent_context) py" where
  \<comment> \<open>the loop: target, recent results, what is left to visit, (first index touched, number collapsed)\<close>
  "collapse_from target recent [] (first, n) cx = Inr (first, n, cx)"
| "collapse_from target recent (i # is) (first, n) cx =
     py_bind (if i \<in> set recent then py_bind (estimated_tokens cx) (\<lambda>t. Inr (t \<le> cx_budget cx)) else Inr False) (\<lambda>enough.
     if enough then Inr (first, n, cx)
     else if is_collapsed (cx_messages cx ! i) then collapse_from target recent is (first, n) cx
     else
       py_bind (collapse (cx_messages cx ! i)) (\<lambda>m.
       let cx' = cx\<lparr>cx_messages := (cx_messages cx)[i := m]\<rparr> in
       py_bind (cx_tokens cx') (\<lambda>t.
       if t \<le> target then Inr (min first i, Suc n, cx')
       else collapse_from target recent is (min first i, Suc n) cx')))"

definition compact_context :: "agent_context \<Rightarrow> (compaction option \<times> agent_context) py" where
  "compact_context cx =
     py_bind (estimated_tokens cx) (\<lambda>before.
     if before \<le> cx_budget cx then Inr (None, cx)
     else
       let target = max 0 (truncated_percent (cx_budget cx) (cx_hysteresis cx) - cx_overhead cx) in
       py_bind (collapse_from target (recent_results cx) (old_results cx @ recent_results cx) (length (cx_messages cx), 0) cx)
         (\<lambda>(first, n, cx').
         if n = 0 then Inr (None, cx')
         else
           py_bind (estimated_tokens cx') (\<lambda>after.
           let e = \<lparr>cn_at = first, cn_before = before, cn_after = after, cn_collapsed = n\<rparr>
           in Inr (Some e, cx'\<lparr>cx_compactions := cx_compactions cx' @ [e]\<rparr>))))"

definition context_stats :: "agent_context \<Rightarrow> pydict py" where
  "context_stats cx =
     py_bind (cx_tokens cx) (\<lambda>t. Inr
       [(''messages'', PInt (int (length (cx_messages cx)))), (''approx_tokens'', PInt t),
        (''request_overhead_tokens'', PInt (cx_overhead cx)), (''estimated_request_tokens'', PInt (t + cx_overhead cx)),
        (''budget_tokens'', PInt (cx_budget cx)), (''compactions'', PInt (int (length (cx_compactions cx)))),
        (''tokens_reclaimed'', PInt (sum_list (map tokens_reclaimed (cx_compactions cx)))),
        (''stable_prefix_messages'', PInt (stable_prefix_len cx))])"

definition trim :: "pydict list \<Rightarrow> int \<Rightarrow> int \<Rightarrow> pydict list py" where
  "trim ms budget keep =
     py_bind (compact_context ((new_context budget)\<lparr>cx_keep := keep, cx_messages := ms, cx_hysteresis := 100\<rparr>))
       (\<lambda>r. Inr (cx_messages (snd r)))"

section \<open>Before a request\<close>

datatype request_step =
    Send "pydict list"
  | ContextExhausted int

definition before_request :: "agent_context \<Rightarrow> (compaction option \<times> request_step \<times> agent_context) py" where
  \<comment> \<open>compact when over budget, then send the messages or halt with the estimate\<close>
  "before_request cx =
     py_bind (needs_compaction cx) (\<lambda>over.
     py_bind (if over then compact_context cx else Inr (None, cx)) (\<lambda>(e, cx').
     py_bind (estimated_tokens cx') (\<lambda>t.
     Inr (e, if cx_budget cx < t then ContextExhausted t else Send (cx_messages cx'), cx'))))"

end
