(* ===== verification/Context_Properties.thy ===== *)
theory Context_Properties
  imports Agent_Context Text_Bytes
begin

text \<open>
  What compaction keeps: a prompt that only grows at its end, except that tool results at or after a
  recorded index are replaced by their summaries; a request that fits, or every result collapsed; a
  record that says exactly what was touched.  And what it does not: it may make a request longer.
\<close>

section \<open>Collapsed messages\<close>

definition rewritten :: "pydict \<Rightarrow> pydict \<Rightarrow> bool" where
  \<comment> \<open>the same message, or a tool result that was collapsed\<close>
  "rewritten m m' \<longleftrightarrow> m' = m \<or> is_tool m \<and> \<not> is_collapsed m \<and> collapse m = Inr m'"

lemma keys_distinct_get: "keys_distinct (PDict d) \<Longrightarrow> keys_distinct (py_get d k)"
  by (auto simp: py_get_def split: option.splits dest!: map_of_SomeD)

lemma keys_distinct_get_or: "keys_distinct (PDict d) \<Longrightarrow> keys_distinct v \<Longrightarrow> keys_distinct (py_get_or d k v)"
  by (simp add: py_get_or_def keys_distinct_get del: keys_distinct.simps(2))

lemma py_get_set_other: "j \<noteq> k \<Longrightarrow> py_get (py_set d k v) j = py_get d j"
proof (cases "has_key d k")
  case True
  assume "j \<noteq> k"
  then have "map_of (map (\<lambda>kv. if fst kv = k then (k, v) else kv) d) j = map_of d j" by (induction d) auto
  with True show ?thesis by (simp add: py_get_def py_set_def)
next
  case False
  assume "j \<noteq> k"
  then have "map_of (d @ [(k, v)]) j = map_of d j" by (induction d) auto
  with False show ?thesis by (simp add: py_get_def py_set_def)
qed

lemma py_set_set: "py_set (py_set d k v) k w = py_set d k w"
proof (cases "has_key d k")
  case True
  have "map fst (map (\<lambda>kv. if fst kv = k then (k, v) else kv) d) = map fst d" by (induction d) auto
  with True have "has_key (map (\<lambda>kv. if fst kv = k then (k, v) else kv) d) k" unfolding has_key_def by (metis set_map)
  with True show ?thesis by (simp add: py_set_def comp_def if_distrib [of fst] if_distribR cong: if_cong)
next
  case False
  then have "map (\<lambda>kv. if fst kv = k then (k, w) else kv) d = d" by (intro map_idI) (auto simp: has_key_def)
  with False show ?thesis by (simp add: py_set_def) (simp add: has_key_def)
qed

lemma is_tool_content [simp]: "is_tool (py_set m ''content'' v) = is_tool m"
  by (simp add: is_tool_def py_get_set_other)

lemma collapsed_text_read:
  assumes "keys_distinct ok" "keys_distinct summary" "keys_distinct artifacts"
  shows "is_collapsed (py_set m ''content'' (PStr (json_text plain_style (PDict (collapsed_payload ok summary artifacts)))))"
proof -
  let ?d = "collapsed_payload ok summary artifacts"
  have distinct: "distinct (map fst ?d)" by (simp add: collapsed_payload_def)
  have "keys_distinct (PDict ?d)" using assms by (simp add: collapsed_payload_def)
  then have read: "json_loads (json_text plain_style (PDict ?d)) = Inr (styled False (PDict ?d))"
    using plain_writer.text_round_trip [of "PDict ?d"] by (simp add: plain_style_def)
  have "map_of (map (styled_pair False) (arranged False ?d)) ''collapsed'' = Some (PBool True)"
    unfolding styled_lookup [OF distinct] by (simp add: collapsed_payload_def)
  then have "py_get (map (styled_pair False) (arranged False ?d)) ''collapsed'' = PBool True" by (simp add: py_get_def)
  moreover have "json_text plain_style (PDict ?d) \<noteq> []" by (simp add: collapsed_payload_def)
  ultimately show ?thesis
    by (simp add: is_collapsed_def text_of_def read styled_dict Let_def del: json_text.simps styled.simps)
qed

lemma collapse_result:
  assumes "collapse m = Inr m'"
  obtains ok summary artifacts where "keys_distinct ok" "keys_distinct summary" "keys_distinct artifacts"
    "m' = py_set m ''content'' (PStr (json_text plain_style (PDict (collapsed_payload ok summary artifacts))))"
proof -
  define raw where "raw = (if truthy (py_get m ''content'') then py_get m ''content'' else PStr [])"
  define unread where "unread = collapsed_payload PNone (PStr (take 200 (py_str raw))) (PList [])"
  have "collapse m = py_bind (case text_of raw of
           Inl e \<Rightarrow> if e = ValueError then Inr unread else Inl e
         | Inr v \<Rightarrow> Inr (case v of
             PDict d \<Rightarrow> collapsed_payload (py_get d ''ok'') (py_get_or d ''summary'' (PStr [])) (py_get_or d ''artifacts'' (PList []))
           | _ \<Rightarrow> unread)) (\<lambda>payload. Inr (py_set m ''content'' (PStr (json_text plain_style (PDict payload)))))"
    unfolding collapse_def raw_def unread_def Let_def ..
  with assms obtain payload where
    p: "(case text_of raw of
           Inl e \<Rightarrow> if e = ValueError then Inr unread else Inl e
         | Inr v \<Rightarrow> Inr (case v of
             PDict d \<Rightarrow> collapsed_payload (py_get d ''ok'') (py_get_or d ''summary'' (PStr [])) (py_get_or d ''artifacts'' (PList []))
           | _ \<Rightarrow> unread)) = Inr payload"
    and m': "m' = py_set m ''content'' (PStr (json_text plain_style (PDict payload)))"
    by (auto simp only: py_bind_Inr_iff sum.inject)
  have plain: "\<exists>ok summary artifacts. keys_distinct ok \<and> keys_distinct summary \<and> keys_distinct artifacts
      \<and> unread = collapsed_payload ok summary artifacts"
    unfolding unread_def by (rule exI [of _ PNone], rule exI [of _ "PStr (take 200 (py_str raw))"], rule exI [of _ "PList []"]) simp
  have "\<exists>ok summary artifacts. keys_distinct ok \<and> keys_distinct summary \<and> keys_distinct artifacts
      \<and> payload = collapsed_payload ok summary artifacts"
  proof (cases "text_of raw")
    case (Inl e)
    with p plain show ?thesis by (auto split: if_splits)
  next
    case (Inr v)
    then have v: "keys_distinct v" by (auto simp: text_of_def split: pyval.splits dest: json_loads_distinct)
    show ?thesis
    proof (cases v)
      case (PDict d)
      with p Inr have "payload = collapsed_payload (py_get d ''ok'') (py_get_or d ''summary'' (PStr [])) (py_get_or d ''artifacts'' (PList []))"
        by simp
      moreover have "keys_distinct (py_get d ''ok'')" "keys_distinct (py_get_or d ''summary'' (PStr []))"
        "keys_distinct (py_get_or d ''artifacts'' (PList []))"
        using v PDict by (auto intro!: keys_distinct_get keys_distinct_get_or simp del: keys_distinct.simps(2))
      ultimately show ?thesis by blast
    qed (use p Inr plain in auto)
  qed
  then show thesis using that m' by blast
qed

lemma collapse_collapsed: "collapse m = Inr m' \<Longrightarrow> is_collapsed m'"
  by (elim collapse_result) (simp add: collapsed_text_read del: json_text.simps)

lemma collapse_tool: "collapse m = Inr m' \<Longrightarrow> is_tool m' = is_tool m"
  by (elim collapse_result) (simp del: json_text.simps)

lemma collapse_rewritten: "collapse m = Inr m' \<Longrightarrow> is_tool m \<Longrightarrow> \<not> is_collapsed m \<Longrightarrow> rewritten m m' \<and> is_collapsed m'"
  by (simp add: rewritten_def collapse_collapsed)

lemma rewritten_refl [simp]: "rewritten m m"
  by (simp add: rewritten_def)

lemma rewritten_tool: "rewritten m m' \<Longrightarrow> is_tool m' = is_tool m"
  by (auto simp: rewritten_def collapse_tool)

lemma rewritten_trans: "rewritten a b \<Longrightarrow> rewritten b c \<Longrightarrow> rewritten a c"
  by (auto simp: rewritten_def dest: collapse_collapsed)

lemma collapsed_chars: "collapse m = Inr m' \<Longrightarrow> message_chars m' = Inr n \<Longrightarrow> 4 \<le> n"
  by (elim collapse_result)
    (auto simp: message_chars_def content_text_def collapsed_payload_def py_str_def py_bind_Inr_iff Let_def
      plain_style_def arranged_def quoted_def)

section \<open>The loop\<close>

lemma all_chars_member: "all_chars ms = Inr n \<Longrightarrow> i < length ms \<Longrightarrow> \<exists>k. message_chars (ms ! i) = Inr k \<and> k \<le> n"
proof (induction ms arbitrary: n i)
  case (Cons m ms)
  then obtain a b where ab: "message_chars m = Inr a" "all_chars ms = Inr b" "n = a + b" by (auto simp: py_bind_Inr_iff)
  show ?case
  proof (cases i)
    case 0
    with ab show ?thesis by simp
  next
    case (Suc j)
    with Cons.IH [OF ab(2), of j] Cons.prems(2) ab show ?thesis by auto
  qed
qed simp

lemma collapsed_counts:
  assumes "collapse m = Inr m'" "i < length ms" "approximate_tokens (ms[i := m']) = Inr t"
  shows "0 < t"
proof -
  from assms(3) obtain n where n: "all_chars (ms[i := m']) = Inr n" "t = int (n div 4)"
    by (auto simp: approximate_tokens_def py_bind_Inr_iff)
  from all_chars_member [OF n(1), of i] assms(2) obtain k where "message_chars m' = Inr k" "k \<le> n" by auto
  with collapsed_chars [OF assms(1)] have "4 \<le> n" by fastforce
  then show ?thesis using n(2) by simp
qed

definition changed_at :: "pydict list \<Rightarrow> pydict list \<Rightarrow> nat set" where
  "changed_at ms ms' = {j. j < length ms \<and> ms' ! j \<noteq> ms ! j}"

lemma changed_finite [simp]: "finite (changed_at ms ms')"
  by (simp add: changed_at_def)

lemma changed_atI: "j < length ms \<Longrightarrow> ms' ! j \<noteq> ms ! j \<Longrightarrow> j \<in> changed_at ms ms'"
  by (simp add: changed_at_def)

lemma before_first_change:
  assumes "j < length ms" "j < Min (changed_at ms ms')"
  shows "ms' ! j = ms ! j"
proof (rule ccontr)
  assume "ms' ! j \<noteq> ms ! j"
  with assms(1) have "j \<in> changed_at ms ms'" by (rule changed_atI)
  then have "Min (changed_at ms ms') \<le> j" by (rule Min_le [OF changed_finite])
  with assms(2) show False by simp
qed

definition loop_result :: "int \<Rightarrow> nat list \<Rightarrow> nat \<times> nat \<times> agent_context \<Rightarrow> nat \<times> nat \<times> agent_context \<Rightarrow> bool" where
  \<comment> \<open>what the loop does to its first index, its count and the context\<close>
  "loop_result target is a b = (case (a, b) of ((first, n, cx), (first', n', cx')) \<Rightarrow>
     let ms = cx_messages cx; ms' = cx_messages cx' in
     cx' = cx\<lparr>cx_messages := ms'\<rparr> \<and> length ms' = length ms
     \<and> (\<forall>j < length ms. rewritten (ms ! j) (ms' ! j) \<and> (is_collapsed (ms ! j) \<longrightarrow> ms' ! j = ms ! j))
     \<and> first' = Min (insert first (changed_at ms ms')) \<and> n' = n + card (changed_at ms ms')
     \<and> ((\<forall>i \<in> set is. is_collapsed (ms' ! i))
        \<or> (\<exists>t. estimated_tokens cx' = Inr t \<and> t \<le> cx_budget cx)
        \<or> (\<exists>t. cx_tokens cx' = Inr t \<and> 0 < t \<and> t \<le> target \<and> n < n')))"

lemma changed_update:
  assumes "i < length ms" "\<not> is_collapsed (ms ! i)" "is_collapsed m" "length ms' = length ms" "ms' ! i = m"
  shows "changed_at ms ms' = insert i (changed_at (ms[i := m]) ms')" "i \<notin> changed_at (ms[i := m]) ms'"
  using assms by (auto simp: changed_at_def nth_list_update)

lemma changed_same [simp]: "changed_at ms ms = {}"
  by (simp add: changed_at_def)

lemma collapse_from_result:
  assumes "collapse_from target recent is (first, n) cx = Inr (first', n', cx')"
    and "\<forall>i \<in> set is. i < length (cx_messages cx) \<and> is_tool (cx_messages cx ! i)"
  shows "loop_result target is (first, n, cx) (first', n', cx')"
  using assms
proof (induction target recent "is" "(first, n)" cx arbitrary: first n first' n' cx' rule: collapse_from.induct)
  case (1 target recent first n cx)
  then show ?case by (simp add: loop_result_def)
next
  case (2 target recent i "is" first n cx)
  from "2.prems"(1) obtain enough where
    enough: "(if i \<in> set recent then py_bind (estimated_tokens cx) (\<lambda>t. Inr (t \<le> cx_budget cx)) else Inr False) = Inr enough"
    by (auto simp only: collapse_from.simps py_bind_Inr_iff)
  have i: "i < length (cx_messages cx)" "is_tool (cx_messages cx ! i)" using "2.prems"(2) by auto
  show ?case
  proof (cases enough)
    case True
    with enough "2.prems"(1) have "first' = first" "n' = n" "cx' = cx" by (simp_all add: Let_def)
    moreover have "\<exists>t. estimated_tokens cx = Inr t \<and> t \<le> cx_budget cx"
      using enough True by (auto simp: py_bind_Inr_iff split: if_splits)
    ultimately show ?thesis by (auto simp: loop_result_def)
  next
    case no: False
    show ?thesis
    proof (cases "is_collapsed (cx_messages cx ! i)")
      case True
      have "loop_result target is (first, n, cx) (first', n', cx')"
        by (rule "2.hyps"(1) [OF no True]) (use "2.prems" enough no True in auto)
      then show ?thesis using i True by (auto simp: loop_result_def Let_def)
    next
      case False
      from "2.prems"(1) enough no False obtain m where m: "collapse (cx_messages cx ! i) = Inr m"
        by (auto simp: py_bind_Inr_iff)
      define cx1 where "cx1 = cx\<lparr>cx_messages := (cx_messages cx)[i := m]\<rparr>"
      from "2.prems"(1) enough no False m obtain t where t: "cx_tokens cx1 = Inr t"
        by (auto simp: py_bind_Inr_iff cx1_def Let_def)
      note new = collapse_rewritten [OF m i(2) False]
      have pos: "0 < t" using collapsed_counts [OF m i(1), of t] t by (simp add: cx_tokens_def cx1_def)
      show ?thesis
      proof (cases "t \<le> target")
        case True
        with "2.prems"(1) enough no False m t have r: "first' = min first i" "n' = Suc n" "cx' = cx1"
          by (simp_all add: Let_def cx1_def)
        have "changed_at (cx_messages cx) (cx_messages cx1) = {i}"
          using changed_update(1) [of i "cx_messages cx" m "cx_messages cx1"] i False new by (simp add: cx1_def)
        then show ?thesis using i new False pos t True
          by (auto simp: loop_result_def Let_def r cx1_def nth_list_update min.commute)
      next
        case more: False
        have tool: "is_tool m" using rewritten_tool [of "cx_messages cx ! i" m] new i(2) by simp
        have IH: "loop_result target is (min first i, Suc n, cx1) (first', n', cx')"
          unfolding cx1_def
          by (rule "2.hyps"(2) [OF no False refl more])
            (use "2.prems" enough no False m t more tool in \<open>auto simp: cx1_def Let_def nth_list_update\<close>)
        then have l: "length (cx_messages cx') = length (cx_messages cx)" "cx_messages cx' ! i = m"
          using i new by (auto simp: loop_result_def Let_def cx1_def)
        note ch = changed_update [OF i(1) False conjunct2 [OF new] l]
        let ?C = "changed_at (cx_messages cx1) (cx_messages cx')"
        have C: "changed_at (cx_messages cx) (cx_messages cx') = insert i ?C" "i \<notin> ?C" using ch by (simp_all add: cx1_def)
        have "Min (insert (min first i) ?C) = Min (insert first (insert i ?C))"
          by (cases "?C = {}") (simp_all add: min.assoc)
        moreover have "\<forall>j < length (cx_messages cx). rewritten (cx_messages cx ! j) (cx_messages cx' ! j)
            \<and> (is_collapsed (cx_messages cx ! j) \<longrightarrow> cx_messages cx' ! j = cx_messages cx ! j)"
        proof (intro allI impI)
          fix j assume j: "j < length (cx_messages cx)"
          with IH have "rewritten (cx_messages cx1 ! j) (cx_messages cx' ! j)
              \<and> (is_collapsed (cx_messages cx1 ! j) \<longrightarrow> cx_messages cx' ! j = cx_messages cx1 ! j)"
            by (simp add: loop_result_def Let_def cx1_def)
          then show "rewritten (cx_messages cx ! j) (cx_messages cx' ! j)
              \<and> (is_collapsed (cx_messages cx ! j) \<longrightarrow> cx_messages cx' ! j = cx_messages cx ! j)"
            using new False l(2) j by (cases "j = i") (simp_all add: cx1_def)
        qed
        ultimately show ?thesis
          using IH i new l C by (auto simp: loop_result_def Let_def cx1_def)
      qed
    qed
  qed
qed

section \<open>One compaction\<close>

lemma visited_results: "set (old_results cx) \<union> set (recent_results cx) = set (tool_indices cx)"
  by (auto simp: old_results_def recent_results_def Let_def dest: in_set_takeD)

lemma changed_empty: "changed_at ms ms' = {} \<Longrightarrow> length ms' = length ms \<Longrightarrow> ms' = ms"
  by (auto simp: changed_at_def intro: nth_equalityI)

definition all_collapsed :: "agent_context \<Rightarrow> bool" where
  "all_collapsed cx \<longleftrightarrow> (\<forall>m \<in> set (cx_messages cx). is_tool m \<longrightarrow> is_collapsed m)"

definition sound_limits :: "agent_context \<Rightarrow> bool" where
  "sound_limits cx \<longleftrightarrow> 0 \<le> cx_budget cx \<and> 0 \<le> cx_hysteresis cx \<and> cx_hysteresis cx \<le> 100"

lemma hysteresis_below: "sound_limits cx \<Longrightarrow> truncated_percent (cx_budget cx) (cx_hysteresis cx) \<le> cx_budget cx"
proof -
  assume s: "sound_limits cx"
  then have "cx_budget cx * cx_hysteresis cx \<le> cx_budget cx * 100" by (intro mult_left_mono) (auto simp: sound_limits_def)
  then have "cx_budget cx * cx_hysteresis cx div 100 \<le> cx_budget cx * 100 div 100" by (rule zdiv_mono1) simp
  with s show ?thesis by (simp add: truncated_percent_def sound_limits_def)
qed

lemma compact_result:
  assumes "compact_context cx = Inr (e, cx')"
  obtains (fits) t where "e = None" "cx' = cx" "estimated_tokens cx = Inr t" "t \<le> cx_budget cx"
  | (stuck) "e = None" "cx' = cx" "all_collapsed cx"
  | (collapsed) before after ms' where "estimated_tokens cx = Inr before" "cx_budget cx < before"
      "e = Some \<lparr>cn_at = Min (changed_at (cx_messages cx) ms'), cn_before = before, cn_after = after,
             cn_collapsed = card (changed_at (cx_messages cx) ms')\<rparr>"
      "cx' = cx\<lparr>cx_messages := ms', cx_compactions := cx_compactions cx @ [the e]\<rparr>"
      "estimated_tokens cx' = Inr after" "length ms' = length (cx_messages cx)" "changed_at (cx_messages cx) ms' \<noteq> {}"
      "\<And>j. j < length ms' \<Longrightarrow> rewritten (cx_messages cx ! j) (ms' ! j)"
      "\<And>j. j < length ms' \<Longrightarrow> is_collapsed (cx_messages cx ! j) \<Longrightarrow> ms' ! j = cx_messages cx ! j"
      "sound_limits cx \<Longrightarrow> after \<le> cx_budget cx \<or> all_collapsed cx'"
proof -
  from assms obtain before where b: "estimated_tokens cx = Inr before" by (auto simp: compact_context_def py_bind_Inr_iff)
  show thesis
  proof (cases "before \<le> cx_budget cx")
    case True
    with assms b have "e = None" "cx' = cx" by (simp_all add: compact_context_def)
    with fits b True show thesis by blast
  next
    case over: False
    define target where "target = max 0 (truncated_percent (cx_budget cx) (cx_hysteresis cx) - cx_overhead cx)"
    from assms b over obtain first n cx1 where
      loop: "collapse_from target (recent_results cx) (old_results cx @ recent_results cx) (length (cx_messages cx), 0) cx
               = Inr (first, n, cx1)"
      and rest: "(if n = 0 then Inr (None, cx1)
         else py_bind (estimated_tokens cx1) (\<lambda>after.
           let e = \<lparr>cn_at = first, cn_before = before, cn_after = after, cn_collapsed = n\<rparr>
           in Inr (Some e, cx1\<lparr>cx_compactions := cx_compactions cx1 @ [e]\<rparr>))) = Inr (e, cx')"
      by (auto simp: compact_context_def Let_def target_def py_bind_Inr_iff)
    have tools: "set (old_results cx @ recent_results cx) = {i. i < length (cx_messages cx) \<and> is_tool (cx_messages cx ! i)}"
      using visited_results [of cx] by (auto simp: tool_indices_def)
    define ms' where "ms' = cx_messages cx1"
    let ?C = "changed_at (cx_messages cx) ms'"
    have "loop_result target (old_results cx @ recent_results cx) (length (cx_messages cx), 0, cx) (first, n, cx1)"
      by (rule collapse_from_result [OF loop]) (use tools in blast)
    then have l: "cx1 = cx\<lparr>cx_messages := ms'\<rparr>" "length ms' = length (cx_messages cx)"
      "\<And>j. j < length ms' \<Longrightarrow> rewritten (cx_messages cx ! j) (ms' ! j)"
      "\<And>j. j < length ms' \<Longrightarrow> is_collapsed (cx_messages cx ! j) \<Longrightarrow> ms' ! j = cx_messages cx ! j"
      "first = Min (insert (length (cx_messages cx)) ?C)" "n = card ?C"
      and stop: "(\<forall>i \<in> set (old_results cx @ recent_results cx). is_collapsed (ms' ! i))
        \<or> (\<exists>t. estimated_tokens cx1 = Inr t \<and> t \<le> cx_budget cx)
        \<or> (\<exists>t. cx_tokens cx1 = Inr t \<and> 0 < t \<and> t \<le> target \<and> 0 < n)"
      unfolding loop_result_def Let_def prod.case ms'_def by (simp, simp, simp, simp, simp, simp, blast)
    have every: "all_collapsed cx1" if "\<forall>i \<in> set (old_results cx @ recent_results cx). is_collapsed (ms' ! i)"
    proof -
      have "is_tool (ms' ! j) = is_tool (cx_messages cx ! j)" if "j < length ms'" for j
        using rewritten_tool [OF l(3) [OF that]] .
      then show ?thesis using that tools l(1,2) by (auto simp: all_collapsed_def in_set_conv_nth)
    qed
    show thesis
    proof (cases "n = 0")
      case True
      then have same: "?C = {}" using l(6) by simp
      then have "ms' = cx_messages cx" using l(2) changed_empty by blast
      then have cx1: "cx1 = cx" using l(1) by simp
      from rest True have e: "e = None" "cx' = cx" using cx1 by auto
      show thesis
      proof (cases "\<exists>i \<in> set (old_results cx @ recent_results cx). \<not> is_collapsed (ms' ! i)")
        case True
        with stop over b cx1 \<open>n = 0\<close> have False by auto
        then show thesis ..
      next
        case False
        then show thesis using stuck e every cx1 by blast
      qed
    next
      case False
      then have ne: "?C \<noteq> {}" using l(6) by auto
      from rest False obtain after where a: "estimated_tokens cx1 = Inr after" by (auto simp: py_bind_Inr_iff)
      have "Min (insert (length (cx_messages cx)) ?C) = Min ?C"
        using ne by (auto simp: Min_insert min_def Min_le_iff changed_at_def)
      then have e: "e = Some \<lparr>cn_at = Min ?C, cn_before = before, cn_after = after, cn_collapsed = card ?C\<rparr>"
        "cx' = cx1\<lparr>cx_compactions := cx_compactions cx1 @ [the e]\<rparr>"
        using rest False a l(5,6) by (auto simp: Let_def)
      then have cx': "cx' = cx\<lparr>cx_messages := ms', cx_compactions := cx_compactions cx @ [the e]\<rparr>" using l(1) by simp
      have est: "estimated_tokens cx' = Inr after"
        using a by (simp add: cx' l(1) estimated_tokens_def cx_tokens_def)
      have "after \<le> cx_budget cx \<or> all_collapsed cx'" if s: "sound_limits cx"
        using stop
      proof (elim disjE exE conjE)
        fix t assume t: "cx_tokens cx1 = Inr t" "0 < t" "t \<le> target" "0 < n"
        with hysteresis_below [OF s] a l(1) show ?thesis by (auto simp: target_def estimated_tokens_def)
      qed (use a every in \<open>auto simp: all_collapsed_def cx' l(1)\<close>)
      with collapsed [OF b _ e(1) cx' est l(2) ne l(3,4)] over show thesis by simp
    qed
  qed
qed

text \<open>What a compaction reports is what it did: the index is that of the first message it changed, the count
  the number of messages it changed, the tokens are the estimates before and after, and a request that was over
  budget is within it or has no result left to collapse.  The number of messages called a stable prefix counts
  from that first changed message to the end.\<close>

theorem compaction_record_is_exact:
  assumes "compact_context cx = Inr (Some e, cx')"
  shows "length (cx_messages cx') = length (cx_messages cx) \<and> cn_at e < length (cx_messages cx)
    \<and> take (cn_at e) (cx_messages cx') = take (cn_at e) (cx_messages cx)
    \<and> cx_messages cx' ! cn_at e \<noteq> cx_messages cx ! cn_at e \<and> is_tool (cx_messages cx ! cn_at e)
    \<and> cn_collapsed e = card {i. i < length (cx_messages cx) \<and> cx_messages cx' ! i \<noteq> cx_messages cx ! i}
    \<and> estimated_tokens cx = Inr (cn_before e) \<and> cx_budget cx < cn_before e \<and> estimated_tokens cx' = Inr (cn_after e)
    \<and> (sound_limits cx \<longrightarrow> cn_after e \<le> cx_budget cx \<or> all_collapsed cx')
    \<and> cx_compactions cx' = cx_compactions cx @ [e]
    \<and> stable_prefix_len cx' = int (length (drop (cn_at e) (cx_messages cx')))"
  using assms
proof (cases rule: compact_result)
  case (collapsed before after ms')
  let ?C = "changed_at (cx_messages cx) ms'"
  have e: "e = \<lparr>cn_at = Min ?C, cn_before = before, cn_after = after, cn_collapsed = card ?C\<rparr>"
    and cx': "cx' = cx\<lparr>cx_messages := ms', cx_compactions := cx_compactions cx @ [e]\<rparr>" using collapsed(3,4) by simp_all
  have m: "Min ?C \<in> ?C" using collapsed(7) by simp
  then have at: "Min ?C < length (cx_messages cx)" "ms' ! Min ?C \<noteq> cx_messages cx ! Min ?C" by (simp_all add: changed_at_def)
  have "take (Min ?C) ms' = take (Min ?C) (cx_messages cx)"
    using at(1) collapsed(6) by (intro nth_equalityI [where 'a = pydict]) (simp_all add: before_first_change)
  moreover have "is_tool (cx_messages cx ! Min ?C)"
    using collapsed(8) [of "Min ?C"] at collapsed(6) by (auto simp: rewritten_def)
  moreover have "cx_messages cx' = ms'" "cx_compactions cx' = cx_compactions cx @ [e]" by (simp_all add: cx')
  moreover have "cn_at e = Min ?C" "cn_before e = before" "cn_after e = after"
    "cn_collapsed e = card {i. i < length (cx_messages cx) \<and> ms' ! i \<noteq> cx_messages cx ! i}"
    by (simp_all add: e changed_at_def)
  moreover from this calculation at(1) collapsed(6) have "stable_prefix_len cx' = int (length (drop (cn_at e) ms'))"
    by (simp add: stable_prefix_len_def of_nat_diff)
  ultimately show ?thesis using at collapsed(1,2,5,6,10) by (simp only:) blast
qed auto

section \<open>Before a request\<close>

definition message_ok :: "pydict \<Rightarrow> bool" where
  \<comment> \<open>calls are a list if there are any, the content of a result is a text if there is one\<close>
  "message_ok m \<longleftrightarrow> (truthy (py_get m ''tool_calls'') \<longrightarrow> (\<exists>xs. py_get m ''tool_calls'' = PList xs))
     \<and> (is_tool m \<longrightarrow> truthy (py_get m ''content'') \<longrightarrow> (\<exists>t. py_get m ''content'' = PStr t))"

lemma message_chars_total: "message_ok m \<Longrightarrow> \<exists>n. message_chars m = Inr n"
  by (auto simp: message_ok_def message_chars_def Let_def iterate_def)

lemma all_chars_total: "\<forall>m \<in> set ms. message_ok m \<Longrightarrow> \<exists>n. all_chars ms = Inr n"
proof (induction ms)
  case (Cons m ms)
  then obtain a b where "message_chars m = Inr a" "all_chars ms = Inr b" using message_chars_total by fastforce
  then show ?case by simp
qed simp

lemma estimate_total:
  assumes "\<forall>m \<in> set (cx_messages cx). message_ok m"
  shows "\<exists>t. cx_tokens cx = Inr t \<and> estimated_tokens cx = Inr (t + cx_overhead cx)"
  using all_chars_total [OF assms] by (auto simp: cx_tokens_def estimated_tokens_def approximate_tokens_def)

definition only_value_error :: "'a py \<Rightarrow> bool" where
  "only_value_error m \<longleftrightarrow> (\<forall>e. m = Inl e \<longrightarrow> e = ValueError)"

lemma only_value_error_intros:
  "only_value_error (Inr a)"
  "only_value_error (Inl ValueError)"
  "only_value_error m \<Longrightarrow> (\<And>a. m = Inr a \<Longrightarrow> only_value_error (f a)) \<Longrightarrow> only_value_error (py_bind m f)"
  "(\<not> bad \<Longrightarrow> only_value_error r) \<Longrightarrow> only_value_error (py_check bad ValueError r)"
  "(c \<Longrightarrow> only_value_error r) \<Longrightarrow> (\<not> c \<Longrightarrow> only_value_error t) \<Longrightarrow> only_value_error (if c then r else t)"
  "(xs = [] \<Longrightarrow> only_value_error r) \<Longrightarrow> (\<And>y ys. xs = y # ys \<Longrightarrow> only_value_error (g y ys)) \<Longrightarrow>
     only_value_error (case xs of [] \<Rightarrow> r | y # ys \<Rightarrow> g y ys)"
  "(v = None \<Longrightarrow> only_value_error r) \<Longrightarrow> (\<And>y. v = Some y \<Longrightarrow> only_value_error (h y)) \<Longrightarrow>
     only_value_error (case v of None \<Rightarrow> r | Some y \<Rightarrow> h y)"
  "(\<And>y z. p = (y, z) \<Longrightarrow> only_value_error (k y z)) \<Longrightarrow> only_value_error (case p of (y, z) \<Rightarrow> k y z)"
  by (auto simp: only_value_error_def py_bind_def py_check_def split: sum.splits list.splits option.splits prod.splits)

lemma parse_chars_error: "only_value_error (parse_chars s)"
proof (induction s rule: parse_chars.induct)
  case (1 s)
  show ?case
    by (subst parse_chars.simps, unfold push_char_def, intro only_value_error_intros) (auto intro: 1)
qed

lemma parse_int_error: "only_value_error (parse_int s)"
  unfolding parse_int_def parse_nat_def Let_def by (intro only_value_error_intros)

lemma parse_errors:
  "only_value_error (parse_value f s)"
  "only_value_error (parse_items f s)"
  "only_value_error (parse_pairs f acc s)"
proof (induction f s and f s and f acc s rule: parse_value_parse_items_parse_pairs.induct)
  case (2 f s)
  show ?case unfolding parse_value.simps
    by (intro only_value_error_intros parse_chars_error parse_int_error) (auto intro: 2)
next
  case (4 f s)
  show ?case unfolding parse_items.simps by (intro only_value_error_intros) (auto intro: 4)
next
  case (6 f acc s)
  show ?case unfolding parse_pairs.simps by (intro only_value_error_intros parse_chars_error) (auto intro: 6)
qed (simp_all add: only_value_error_def)

lemma json_loads_error: "json_loads s = Inl e \<Longrightarrow> e = ValueError"
proof -
  have "only_value_error (json_loads s)"
    unfolding json_loads_def by (intro only_value_error_intros parse_errors(1))
  then show "json_loads s = Inl e \<Longrightarrow> e = ValueError" by (simp add: only_value_error_def)
qed

lemma collapse_total:
  assumes "message_ok m" "is_tool m"
  shows "\<exists>m'. collapse m = Inr m' \<and> message_ok m'"
proof -
  have "\<exists>s. (if truthy (py_get m ''content'') then py_get m ''content'' else PStr []) = PStr s"
    using assms by (auto simp: message_ok_def)
  then obtain s where s: "(if truthy (py_get m ''content'') then py_get m ''content'' else PStr []) = PStr s" ..
  have "\<exists>m'. collapse m = Inr m'"
    unfolding collapse_def Let_def s
    by (cases "json_loads s") (auto simp: text_of_def dest: json_loads_error)
  then obtain m' where m': "collapse m = Inr m'" ..
  have "message_ok m'"
    by (insert assms(1), rule collapse_result [OF m']) (auto simp: message_ok_def py_get_set_other simp del: json_text.simps)
  with m' show ?thesis by blast
qed

lemma collapse_from_total:
  assumes "\<forall>m \<in> set (cx_messages cx). message_ok m"
    and "\<forall>i \<in> set is. i < length (cx_messages cx) \<and> is_tool (cx_messages cx ! i)"
  shows "\<exists>first' n' cx'. collapse_from target recent is (first, n) cx = Inr (first', n', cx')
    \<and> (\<forall>m \<in> set (cx_messages cx'). message_ok m)"
  using assms
proof (induction "is" arbitrary: first n cx)
  case (Cons i "is")
  obtain t where t: "estimated_tokens cx = Inr (t + cx_overhead cx)" using estimate_total [OF Cons.prems(1)] by blast
  have i: "i < length (cx_messages cx)" "is_tool (cx_messages cx ! i)" "message_ok (cx_messages cx ! i)"
    using Cons.prems by (auto simp: nth_mem)
  obtain m where m: "collapse (cx_messages cx ! i) = Inr m" "message_ok m" using collapse_total i(2,3) by blast
  define cx1 where "cx1 = cx\<lparr>cx_messages := (cx_messages cx)[i := m]\<rparr>"
  have tool: "is_tool m" using collapse_tool [OF m(1)] i(2) by simp
  have ok1: "\<forall>m \<in> set (cx_messages cx1). message_ok m"
    using Cons.prems(1) m(2) by (auto simp: cx1_def dest!: set_update_subset_insert [THEN subsetD])
  have is1: "\<forall>i \<in> set is. i < length (cx_messages cx1) \<and> is_tool (cx_messages cx1 ! i)"
    using Cons.prems(2) tool by (auto simp: cx1_def nth_list_update)
  obtain u where u: "cx_tokens cx1 = Inr u" using estimate_total [OF ok1] by blast
  have "collapse_from target recent (i # is) (first, n) cx =
      (if i \<in> set recent \<and> t + cx_overhead cx \<le> cx_budget cx then Inr (first, n, cx)
       else if is_collapsed (cx_messages cx ! i) then collapse_from target recent is (first, n) cx
       else if u \<le> target then Inr (min first i, Suc n, cx1) else collapse_from target recent is (min first i, Suc n) cx1)"
    using t m u by (simp add: cx1_def Let_def)
  then show ?case
    using Cons.IH [OF Cons.prems(1)] Cons.IH [OF ok1 is1] Cons.prems ok1 by (auto split: if_splits)
qed auto

lemma compact_total:
  assumes "\<forall>m \<in> set (cx_messages cx). message_ok m"
  shows "\<exists>e cx'. compact_context cx = Inr (e, cx') \<and> (\<forall>m \<in> set (cx_messages cx'). message_ok m)"
proof -
  obtain before where b: "estimated_tokens cx = Inr before" using estimate_total [OF assms] by blast
  define target where "target = max 0 (truncated_percent (cx_budget cx) (cx_hysteresis cx) - cx_overhead cx)"
  have "\<forall>i \<in> set (old_results cx @ recent_results cx). i < length (cx_messages cx) \<and> is_tool (cx_messages cx ! i)"
    using visited_results [of cx] by (auto simp: tool_indices_def)
  from collapse_from_total [OF assms this, of target "recent_results cx" "length (cx_messages cx)" 0]
  obtain first n cx1 where c: "collapse_from target (recent_results cx) (old_results cx @ recent_results cx)
      (length (cx_messages cx), 0) cx = Inr (first, n, cx1)" and ok: "\<forall>m \<in> set (cx_messages cx1). message_ok m" by blast
  obtain after where "estimated_tokens cx1 = Inr after" using estimate_total [OF ok] by blast
  with b c ok assms show ?thesis by (auto simp: compact_context_def Let_def target_def)
qed

text \<open>C35: Before a request the context never raises for the messages of a run.  What is sent is within the budget;
  a run that halts because its context is exhausted has no tool result left that is not collapsed.\<close>

theorem request_fits_or_nothing_is_left:
  assumes "sound_limits cx" "\<forall>m \<in> set (cx_messages cx). message_ok m"
  shows "\<exists>e r cx' t. before_request cx = Inr (e, r, cx') \<and> estimated_tokens cx' = Inr t
    \<and> (\<forall>m \<in> set (cx_messages cx'). message_ok m)
    \<and> (case r of Send ms \<Rightarrow> ms = cx_messages cx' \<and> t \<le> cx_budget cx
        | ContextExhausted u \<Rightarrow> u = t \<and> cx_budget cx < t \<and> all_collapsed cx')"
proof -
  obtain t where t: "estimated_tokens cx = Inr t" using estimate_total [OF assms(2)] by blast
  show ?thesis
  proof (cases "cx_budget cx < t")
    case False
    with t assms(2) show ?thesis by (simp add: before_request_def needs_compaction_def)
  next
    case over: True
    obtain e cx' where c: "compact_context cx = Inr (e, cx')" and ok: "\<forall>m \<in> set (cx_messages cx'). message_ok m"
      using compact_total [OF assms(2)] by blast
    obtain u where u: "estimated_tokens cx' = Inr u" using estimate_total [OF ok] by blast
    have "u \<le> cx_budget cx \<or> all_collapsed cx'"
      using c by (cases rule: compact_result) (use t u over assms(1) in auto)
    with t over c u ok show ?thesis by (auto simp: before_request_def needs_compaction_def)
  qed
qed

section \<open>The prompt only grows\<close>

text \<open>
  A request that raises ends the run, so a script stops there; by the last property it does not for the
  messages of a run.
\<close>

datatype context_op =
    AddMessage pydict
  | AddMessages "pydict list"
  | OfferSchemas "pyval list"
  | SawTokens int int
  | BeforeRequest

fun context_step :: "context_op \<Rightarrow> agent_context \<Rightarrow> agent_context py" where
  "context_step (AddMessage m) cx = Inr (cx_append m cx)"
| "context_step (AddMessages ms) cx = Inr (cx_extend ms cx)"
| "context_step (OfferSchemas schemas) cx = Inr (set_tool_schemas schemas cx)"
| "context_step (SawTokens prompt sent) cx = Inr (observe_prompt_tokens prompt sent cx)"
| "context_step BeforeRequest cx = py_bind (before_request cx) (\<lambda>(e, r, cx'). Inr cx')"

definition prompt_grew :: "agent_context \<Rightarrow> agent_context \<Rightarrow> bool" where
  "prompt_grew cx cx' \<longleftrightarrow>
     (let ms = cx_messages cx; ms' = cx_messages cx' in
      length ms \<le> length ms'
      \<and> (\<exists>es. cx_compactions cx' = cx_compactions cx @ es
           \<and> (\<forall>i < length ms. rewritten (ms ! i) (ms' ! i)
                \<and> (is_collapsed (ms ! i) \<or> (\<forall>e \<in> set es. i < cn_at e) \<longrightarrow> ms' ! i = ms ! i))))"

lemma prompt_grew_refl: "prompt_grew cx cx"
  by (simp add: prompt_grew_def)

lemma prompt_grew_trans:
  assumes "prompt_grew a b" "prompt_grew b c"
  shows "prompt_grew a c"
proof -
  from assms obtain es fs where e: "cx_compactions b = cx_compactions a @ es" "cx_compactions c = cx_compactions b @ fs"
    and len: "length (cx_messages a) \<le> length (cx_messages b)" "length (cx_messages b) \<le> length (cx_messages c)"
    and ab: "\<And>i. i < length (cx_messages a) \<Longrightarrow> rewritten (cx_messages a ! i) (cx_messages b ! i)
        \<and> (is_collapsed (cx_messages a ! i) \<or> (\<forall>e \<in> set es. i < cn_at e) \<longrightarrow> cx_messages b ! i = cx_messages a ! i)"
    and bc: "\<And>i. i < length (cx_messages b) \<Longrightarrow> rewritten (cx_messages b ! i) (cx_messages c ! i)
        \<and> (is_collapsed (cx_messages b ! i) \<or> (\<forall>e \<in> set fs. i < cn_at e) \<longrightarrow> cx_messages c ! i = cx_messages b ! i)"
    by (auto simp: prompt_grew_def Let_def)
  have "rewritten (cx_messages a ! i) (cx_messages c ! i)
      \<and> (is_collapsed (cx_messages a ! i) \<or> (\<forall>e \<in> set (es @ fs). i < cn_at e) \<longrightarrow> cx_messages c ! i = cx_messages a ! i)"
    if i: "i < length (cx_messages a)" for i
    using ab [OF i] bc [of i] i len(1) by (auto intro: rewritten_trans)
  with e len show ?thesis by (auto simp: prompt_grew_def Let_def)
qed

lemma compact_grew: "compact_context cx = Inr (e, cx') \<Longrightarrow> prompt_grew cx cx'"
proof (erule compact_result)
  fix before after ms'
  let ?C = "changed_at (cx_messages cx) ms'"
  assume e: "e = Some \<lparr>cn_at = Min ?C, cn_before = before, cn_after = after, cn_collapsed = card ?C\<rparr>"
    and cx': "cx' = cx\<lparr>cx_messages := ms', cx_compactions := cx_compactions cx @ [the e]\<rparr>"
    and len: "length ms' = length (cx_messages cx)"
    and r: "\<And>j. j < length ms' \<Longrightarrow> rewritten (cx_messages cx ! j) (ms' ! j)"
      "\<And>j. j < length ms' \<Longrightarrow> is_collapsed (cx_messages cx ! j) \<Longrightarrow> ms' ! j = cx_messages cx ! j"
  have "ms' ! j = cx_messages cx ! j" if "j < length (cx_messages cx)" "j < Min ?C" for j
    using that by (rule before_first_change)
  with len r show "prompt_grew cx cx'"
    by (auto simp: prompt_grew_def Let_def cx' e intro!: exI [of _ "[the e]"])
qed (simp_all add: prompt_grew_refl)

interpretation prompt: monotone_machine context_step "\<lambda>_. True" prompt_grew
proof unfold_locales
  fix x cx cx' assume "context_step x cx = Inr cx'"
  then show "prompt_grew cx cx'"
    by (cases x) (auto simp: prompt_grew_def Let_def cx_append_def cx_extend_def set_tool_schemas_def
        observe_prompt_tokens_def before_request_def py_bind_Inr_iff nth_append
        dest!: compact_grew split: if_splits)
qed (auto intro: prompt_grew_refl prompt_grew_trans)

text \<open>C34: However appends, requests and compactions follow each other, no message is removed or moved; a message
  that changes is a tool result that was not collapsed, only its content changes, it is collapsed then and never
  changes again; and everything before the indices that the compactions report is sent again as it was.\<close>

theorem prompt_only_grows:
  "let ms = cx_messages cx; cx' = run_ops context_step xs cx; ms' = cx_messages cx' in
     length ms \<le> length ms'
     \<and> (\<exists>es. cx_compactions cx' = cx_compactions cx @ es
          \<and> (\<forall>i < length ms. ms' ! i = ms ! i
                 \<or> is_tool (ms ! i) \<and> \<not> is_collapsed (ms ! i) \<and> is_collapsed (ms' ! i)
                   \<and> collapse (ms ! i) = Inr (ms' ! i) \<and> (\<exists>e \<in> set es. cn_at e \<le> i)))"
proof -
  have "prompt_grew cx (run_ops context_step xs cx)" by (rule prompt.run_below) simp
  then obtain es where es: "length (cx_messages cx) \<le> length (cx_messages (run_ops context_step xs cx))"
    "cx_compactions (run_ops context_step xs cx) = cx_compactions cx @ es"
    "\<And>i. i < length (cx_messages cx) \<Longrightarrow> rewritten (cx_messages cx ! i) (cx_messages (run_ops context_step xs cx) ! i)
        \<and> (is_collapsed (cx_messages cx ! i) \<or> (\<forall>e \<in> set es. i < cn_at e) \<longrightarrow>
              cx_messages (run_ops context_step xs cx) ! i = cx_messages cx ! i)"
    by (auto simp: prompt_grew_def Let_def)
  show ?thesis
    unfolding Let_def
  proof (intro conjI exI allI impI)
    fix i assume i: "i < length (cx_messages cx)"
    from es(3) [OF i] show "cx_messages (run_ops context_step xs cx) ! i = cx_messages cx ! i \<or>
        is_tool (cx_messages cx ! i) \<and> \<not> is_collapsed (cx_messages cx ! i)
        \<and> is_collapsed (cx_messages (run_ops context_step xs cx) ! i)
        \<and> collapse (cx_messages cx ! i) = Inr (cx_messages (run_ops context_step xs cx) ! i)
        \<and> (\<exists>e \<in> set es. cn_at e \<le> i)"
      unfolding rewritten_def by (meson collapse_collapsed not_le)
  qed (use es in simp_all)
qed

section \<open>Compaction may lengthen a request\<close>

lemma json_text_length: "0 < length (json_text st v)"
  using json_text_starts [of st v] by (auto simp: starts_value_def)

lemma collapsed_length:
  assumes "collapse m = Inr m'"
  shows "129 \<le> length (content_text m')"
proof (rule collapse_result [OF assms])
  fix ok summary artifacts
  assume "m' = py_set m ''content'' (PStr (json_text plain_style (PDict (collapsed_payload ok summary artifacts))))"
  then show ?thesis
    using json_text_length [of plain_style ok] json_text_length [of plain_style summary]
      json_text_length [of plain_style artifacts]
    by (simp add: content_text_def collapsed_payload_def py_str_def Let_def plain_style_def arranged_def quoted_def
        json_char_def code_def del: length_greater_0_conv)
qed

definition lengthened :: "pydict \<Rightarrow> pydict \<Rightarrow> bool" where
  "lengthened m m' \<longleftrightarrow> m' = m \<or> collapse m = Inr m' \<and> length (content_text m) \<le> 125"

lemma lengthened_chars:
  assumes "lengthened m m'" "message_chars m = Inr n" "message_chars m' = Inr n'"
  shows "n \<le> n' \<and> (m' \<noteq> m \<longrightarrow> n + 4 \<le> n')"
proof (cases "m' = m")
  case False
  with assms(1) have c: "collapse m = Inr m'" "length (content_text m) \<le> 125" by (auto simp: lengthened_def)
  have "py_get m' ''tool_calls'' = py_get m ''tool_calls''"
    by (rule collapse_result [OF c(1)]) (simp add: py_get_set_other del: json_text.simps)
  with assms(2,3) collapsed_length [OF c(1)] c(2) show ?thesis
    by (auto simp: message_chars_def Let_def py_bind_Inr_iff)
qed (use assms in simp)

lemma all_chars_lengthened:
  "list_all2 lengthened ms ms' \<Longrightarrow> all_chars ms = Inr n \<Longrightarrow> all_chars ms' = Inr n' \<Longrightarrow>
     n \<le> n' \<and> (ms' \<noteq> ms \<longrightarrow> n + 4 \<le> n')"
proof (induction ms ms' arbitrary: n n' rule: list_all2_induct)
  case (Cons m ms m' ms')
  from Cons.prems obtain a b a' b' where "message_chars m = Inr a" "message_chars m' = Inr a'"
    "all_chars ms = Inr b" "all_chars ms' = Inr b'" "n = a + b" "n' = a' + b'"
    by (auto simp: py_bind_Inr_iff)
  with lengthened_chars [OF Cons.hyps(1)] Cons.IH show ?case by fastforce
qed simp

text \<open>C36: A compaction of results that are shorter than the text that replaces them lengthens the request it was
  to shorten: the tokens it reports as reclaimed are negative, and the run then halts for lack of context with
  every result collapsed.\<close>

theorem compaction_lengthens_short_results:
  assumes "compact_context cx = Inr (Some e, cx')" "sound_limits cx"
    and "\<forall>m \<in> set (cx_messages cx). is_tool m \<and> \<not> is_collapsed m \<longrightarrow> length (content_text m) \<le> 125"
  shows "tokens_reclaimed e < 0 \<and> cx_budget cx < cn_before e \<and> all_collapsed cx'
    \<and> before_request cx = Inr (Some e, ContextExhausted (cn_after e), cx')"
  using assms(1)
proof (cases rule: compact_result)
  case (collapsed before after ms')
  then have e: "cn_before e = before" "cn_after e = after" and msgs: "cx_messages cx' = ms'" by simp_all
  have "list_all2 lengthened (cx_messages cx) ms'"
  proof (rule list_all2_all_nthI)
    fix i assume i: "i < length (cx_messages cx)"
    with collapsed(6,8) have "rewritten (cx_messages cx ! i) (ms' ! i)" by simp
    with assms(3) nth_mem [OF i] show "lengthened (cx_messages cx ! i) (ms' ! i)"
      unfolding lengthened_def rewritten_def by blast
  qed (simp add: collapsed(6))
  moreover obtain n n' where n: "all_chars (cx_messages cx) = Inr n" "all_chars ms' = Inr n'"
    "before = int (n div 4) + cx_overhead cx" "after = int (n' div 4) + cx_overhead cx"
    using collapsed(1,4,5) by (auto simp: estimated_tokens_def cx_tokens_def approximate_tokens_def py_bind_Inr_iff)
  moreover have "ms' \<noteq> cx_messages cx" using collapsed(7) by auto
  ultimately have "n + 4 \<le> n'" using all_chars_lengthened by blast
  then have "n div 4 < n' div 4" by simp
  then have longer: "before < after" using n(3,4) by simp
  then have "all_collapsed cx'" using collapsed(2,10) assms(2) by auto
  moreover have "before_request cx = Inr (Some e, ContextExhausted after, cx')"
    using assms(1) collapsed(1,2,5) longer by (simp add: before_request_def needs_compaction_def)
  ultimately show ?thesis using longer collapsed(2) e by (simp add: tokens_reclaimed_def)
qed auto

section \<open>Witnesses\<close>

definition small_run :: agent_context where
  "small_run = (new_context 40)\<lparr>cx_messages :=
     [[(''role'', PStr ''user''), (''content'', PStr (replicate 170 (CHR ''x'')))], tool_result_message ''c1'' ''apply_patch'' ''{}'']\<rparr>"

lemma small_limits: "sound_limits small_run"
  by (simp add: sound_limits_def small_run_def new_context_def)

lemma small_messages: "\<forall>m \<in> set (cx_messages small_run). message_ok m"
  by (simp add: small_run_def message_ok_def tool_result_message_def py_get_def)

lemma small_compacts: "case compact_context small_run of Inr (Some e, cx') \<Rightarrow> True | _ \<Rightarrow> False"
  by code_simp

lemma small_compaction:
  obtains e cx' where "compact_context small_run = Inr (Some e, cx')"
  using small_compacts by (auto split: sum.splits option.splits prod.splits)

lemma compaction_record_is_exact_witness:
  "\<exists>e cx'. compact_context small_run = Inr (Some e, cx') \<and> cn_at e = 1 \<and> stable_prefix_len cx' = 1"
proof -
  obtain e cx' where c: "compact_context small_run = Inr (Some e, cx')" by (rule small_compaction)
  from compaction_record_is_exact [OF c] have at: "cn_at e < 2" "is_tool (cx_messages small_run ! cn_at e)"
    and p: "stable_prefix_len cx' = int (length (drop (cn_at e) (cx_messages cx')))" "length (cx_messages cx') = 2"
    by (auto simp: small_run_def)
  have "\<not> is_tool (cx_messages small_run ! 0)" by (simp add: small_run_def is_tool_def py_get_def)
  with at have "cn_at e = 1" by (cases "cn_at e") auto
  with c p show ?thesis by auto
qed

lemma request_fits_or_nothing_is_left_witness:
  "\<exists>e r cx'. before_request small_run = Inr (e, r, cx')"
  using request_fits_or_nothing_is_left [OF small_limits small_messages] by blast

lemma prompt_only_grows_witness:
  "cx_messages (run_ops context_step [BeforeRequest] small_run) ! 0 = cx_messages small_run ! 0"
proof -
  have "\<not> is_tool (cx_messages small_run ! 0)" "length (cx_messages small_run) = 2"
    by (simp_all add: small_run_def is_tool_def py_get_def)
  with prompt_only_grows [of small_run "[BeforeRequest]"] show ?thesis
    unfolding Let_def by (metis zero_less_numeral)
qed

lemma compaction_lengthens_short_results_witness:
  "\<exists>e cx'. compact_context small_run = Inr (Some e, cx') \<and> tokens_reclaimed e < 0"
proof -
  obtain e cx' where c: "compact_context small_run = Inr (Some e, cx')" by (rule small_compaction)
  have "\<forall>m \<in> set (cx_messages small_run). is_tool m \<and> \<not> is_collapsed m \<longrightarrow> length (content_text m) \<le> 125"
    by (simp add: small_run_def tool_result_message_def is_tool_def content_text_def py_get_def py_str_def)
  from compaction_lengthens_short_results [OF c small_limits this] c show ?thesis by blast
qed

end
