(* ===== verification/Watch_View.thy ===== *)
theory Watch_View
  imports Session_Service Watch_Jobs
begin

text \<open>
  The view of a watch that is rebuilt from the durable log (\<open>session/watch_read_model.py\<close>): the
  snapshot of a job, the step that applies one event to it, and the projection of a log.  Events are
  the JSON values that a replay returns.
\<close>

section \<open>Snapshots\<close>

record watch_run_summary =
  ru_sequence :: int
  ru_run :: string
  ru_task :: string
  ru_revision :: string
  ru_schedule :: string
  ru_contract :: string
  ru_status :: string
  ru_verdict :: string
  ru_comparison :: string
  ru_previous :: "string option"
  ru_compared :: "string option"
  ru_due :: "string option"
  ru_started :: string
  ru_finished :: string
  ru_next_due :: "string option"
  ru_counts :: "pydict option"
  ru_delta_ref :: "pydict option"

record watch_activity =
  ac_sequence :: int
  ac_utc :: string
  ac_kind :: string
  ac_summary :: string

record watch_snapshot =
  wn_job :: string
  wn_first :: int
  wn_last :: int
  wn_revision :: string
  wn_schedule :: string
  wn_state :: string
  wn_reason :: string
  wn_due :: "string option"
  wn_next_due :: "string option"
  wn_runs :: "watch_run_summary list"
  wn_activity :: "watch_activity list"

definition last_run :: "watch_snapshot \<Rightarrow> watch_run_summary option" where
  "last_run sn = (if wn_runs sn = [] then None else Some (last (wn_runs sn)))"

section \<open>Reading an event\<close>

definition str_item :: "pyval \<Rightarrow> string \<Rightarrow> string py" where
  \<comment> \<open>\<open>str(payload[key])\<close>\<close>
  "str_item v k = py_bind (py_item v k) (\<lambda>x. Inr (py_str x))"

definition opt_str_item :: "pyval \<Rightarrow> string \<Rightarrow> string option py" where
  \<comment> \<open>\<open>None if payload[key] is None else str(payload[key])\<close>\<close>
  "opt_str_item v k = py_bind (py_item v k) (\<lambda>x. Inr (if x = PNone then None else Some (py_str x)))"

definition opt_dict_item :: "pyval \<Rightarrow> string \<Rightarrow> pydict option py" where
  \<comment> \<open>\<open>None if payload[key] is None else dict(payload[key])\<close>; the schema admits nothing but an object there\<close>
  "opt_dict_item v k =
     py_bind (py_item v k) (\<lambda>x. case x of PNone \<Rightarrow> Inr None | PDict d \<Rightarrow> Inr (Some d) | _ \<Rightarrow> Inl TypeError)"

definition int_item :: "pyval \<Rightarrow> string \<Rightarrow> int py" where
  \<comment> \<open>\<open>int(event[key])\<close>\<close>
  "int_item v k = py_bind (py_item v k) py_int"

definition require_uuid :: "string \<Rightarrow> unit py" where
  "require_uuid s = py_check (\<not> uuid_ok s) ValueError (Inr ())"

definition require_sha :: "string \<Rightarrow> unit py" where
  "require_sha s = py_bind (require_sha256 (PStr s)) (\<lambda>_. Inr ())"

record state_fields =
  sf_job :: string
  sf_revision :: string
  sf_schedule :: string
  sf_state :: string
  sf_due :: "string option"
  sf_next_due :: "string option"

definition state_event :: "pyval \<Rightarrow> state_fields py" where
  "state_event e =
     py_bind (py_item e ''payload'') (\<lambda>p.
     py_bind (str_item p ''job_id'') (\<lambda>job.
     py_bind (str_item p ''job_revision'') (\<lambda>revision.
     py_bind (str_item p ''schedule_revision'') (\<lambda>schedule.
     py_bind (require_uuid job) (\<lambda>_.
     py_bind (require_sha revision) (\<lambda>_.
     py_bind (require_sha schedule) (\<lambda>_.
     py_bind (str_item p ''state'') (\<lambda>state.
     py_bind (opt_str_item p ''due_utc'') (\<lambda>due.
     py_bind (opt_str_item p ''next_due_utc'') (\<lambda>next_due.
     Inr \<lparr>sf_job = job, sf_revision = revision, sf_schedule = schedule, sf_state = state, sf_due = due,
          sf_next_due = next_due\<rparr>))))))))))"

section \<open>Applying an event\<close>

definition apply_state :: "int \<Rightarrow> string \<Rightarrow> string \<Rightarrow> pyval \<Rightarrow> pyval \<Rightarrow> watch_snapshot \<Rightarrow> watch_snapshot py" where
  "apply_state sequence kind utc payload e sn =
     py_bind (state_event e) (\<lambda>f.
     py_check (sf_job f \<noteq> wn_job sn) WatchReadModelError (
     py_bind (str_item payload ''reason_code'') (\<lambda>reason.
     Inr (sn\<lparr>wn_last := sequence, wn_revision := sf_revision f, wn_schedule := sf_schedule f, wn_state := sf_state f,
             wn_reason := reason, wn_due := sf_due f, wn_next_due := sf_next_due f,
             wn_activity := wn_activity sn @ [\<lparr>ac_sequence = sequence, ac_utc = utc, ac_kind = kind,
                ac_summary = ''watch '' @ sf_state f @ '': '' @ reason\<rparr>]\<rparr>))))"

definition check_history :: "watch_snapshot \<Rightarrow> string option \<Rightarrow> pyval \<Rightarrow> unit py" where
  \<comment> \<open>the previous attempt and the comparison against the last run of the snapshot\<close>
  "check_history sn previous payload =
     (case last_run sn of
        None \<Rightarrow>
          py_check (previous \<noteq> None) WatchReadModelError (
          py_bind (str_item payload ''comparison'') (\<lambda>c. py_check (c \<noteq> ''BASELINE'') WatchReadModelError (Inr ())))
      | Some prior \<Rightarrow>
          py_check (previous \<noteq> Some (ru_run prior)) WatchReadModelError (
          py_bind (str_item payload ''comparison'') (\<lambda>c. py_check (c = ''BASELINE'') WatchReadModelError (Inr ()))))"

definition opt_uuid :: "string option \<Rightarrow> unit py" where
  "opt_uuid s = (case s of None \<Rightarrow> Inr () | Some t \<Rightarrow> require_uuid t)"

definition run_summary :: "int \<Rightarrow> string \<Rightarrow> string \<Rightarrow> pyval \<Rightarrow> watch_snapshot \<Rightarrow> watch_run_summary py" where
  \<comment> \<open>the checks after the revisions, and the summary\<close>
  "run_summary sequence revision schedule payload sn =
     py_bind (str_item payload ''execution_contract_sha256'') (\<lambda>contract.
     py_bind (require_sha contract) (\<lambda>_.
     py_bind (str_item payload ''run_id'') (\<lambda>run.
     py_bind (str_item payload ''task_id'') (\<lambda>task.
     py_bind (require_uuid run) (\<lambda>_.
     py_bind (require_uuid task) (\<lambda>_.
     py_bind (opt_str_item payload ''previous_attempt_id'') (\<lambda>previous.
     py_bind (opt_str_item payload ''comparison_run_id'') (\<lambda>compared.
     py_bind (opt_uuid previous) (\<lambda>_.
     py_bind (opt_uuid compared) (\<lambda>_.
     py_bind (check_history sn previous payload) (\<lambda>_.
     py_bind (str_item payload ''status'') (\<lambda>status.
     py_bind (str_item payload ''verdict'') (\<lambda>verdict.
     py_bind (str_item payload ''comparison'') (\<lambda>comparison.
     py_bind (opt_str_item payload ''due_utc'') (\<lambda>due.
     py_bind (str_item payload ''started_utc'') (\<lambda>started.
     py_bind (str_item payload ''finished_utc'') (\<lambda>finished.
     py_bind (opt_str_item payload ''next_due_utc'') (\<lambda>next_due.
     py_bind (opt_dict_item payload ''counts'') (\<lambda>counts.
     py_bind (opt_dict_item payload ''delta_ref'') (\<lambda>delta.
     Inr \<lparr>ru_sequence = sequence, ru_run = run, ru_task = task, ru_revision = revision, ru_schedule = schedule,
          ru_contract = contract, ru_status = status, ru_verdict = verdict, ru_comparison = comparison,
          ru_previous = previous, ru_compared = compared, ru_due = due, ru_started = started, ru_finished = finished,
          ru_next_due = next_due, ru_counts = counts, ru_delta_ref = delta\<rparr>))))))))))))))))))))"

definition apply_run :: "int \<Rightarrow> string \<Rightarrow> string \<Rightarrow> pyval \<Rightarrow> watch_snapshot \<Rightarrow> watch_snapshot py" where
  "apply_run sequence kind utc payload sn =
     py_bind (str_item payload ''job_id'') (\<lambda>job.
     py_check (job \<noteq> wn_job sn) WatchReadModelError (
     py_bind (str_item payload ''job_revision'') (\<lambda>revision.
     py_bind (str_item payload ''schedule_revision'') (\<lambda>schedule.
     py_check (revision \<noteq> wn_revision sn) WatchReadModelError (
     py_check (schedule \<noteq> wn_schedule sn) WatchReadModelError (
     py_bind (run_summary sequence revision schedule payload sn) (\<lambda>r.
     Inr (sn\<lparr>wn_last := sequence, wn_runs := wn_runs sn @ [r], wn_next_due := ru_next_due r,
             wn_activity := wn_activity sn @ [\<lparr>ac_sequence = sequence, ac_utc = utc, ac_kind = kind,
                ac_summary = ''run '' @ ru_status r @ ''/'' @ ru_verdict r @ '' '' @ ru_comparison r\<rparr>]\<rparr>))))))))"

definition apply_watch_event :: "pyval \<Rightarrow> watch_snapshot \<Rightarrow> watch_snapshot py" where
  "apply_watch_event e sn =
     py_bind (int_item e ''sequence'') (\<lambda>sequence.
     py_check (sequence \<le> wn_last sn) WatchReadModelError (
     py_bind (str_item e ''kind'') (\<lambda>kind.
     py_bind (py_item e ''payload'') (\<lambda>payload.
     py_bind (str_item e ''occurred_utc'') (\<lambda>utc.
     if kind = ''watch.state_changed'' then apply_state sequence kind utc payload e sn
     else if kind = ''watch.run_recorded'' then apply_run sequence kind utc payload sn
     else Inl WatchReadModelError)))))"

section \<open>The projection\<close>

definition event_for :: "string \<Rightarrow> pyval \<Rightarrow> bool py" where
  \<comment> \<open>an event of a watch kind that names the job\<close>
  "event_for job e =
     py_bind (py_obj e) (\<lambda>d.
     py_bind (member_of [''watch.state_changed'', ''watch.run_recorded''] (py_get d ''kind'')) (\<lambda>watch.
     if \<not> watch then Inr False
     else py_bind (py_obj (py_get_or d ''payload'' (PDict []))) (\<lambda>p. Inr (py_str (py_get_or p ''job_id'' (PStr [])) = job))))"

fun relevant_events :: "string \<Rightarrow> pyval list \<Rightarrow> pyval list py" where
  "relevant_events job [] = Inr []"
| "relevant_events job (e # es) =
     py_bind (event_for job e) (\<lambda>keep. py_bind (relevant_events job es) (\<lambda>rs. Inr (if keep then e # rs else rs)))"

fun numbered :: "pyval list \<Rightarrow> (int \<times> pyval) list py" where
  \<comment> \<open>the sort keys\<close>
  "numbered [] = Inr []"
| "numbered (e # es) =
     py_bind (int_item e ''sequence'') (\<lambda>i. py_bind (numbered es) (\<lambda>ns. Inr ((i, e) # ns)))"

fun apply_all :: "pyval list \<Rightarrow> watch_snapshot \<Rightarrow> watch_snapshot py" where
  "apply_all [] sn = Inr sn"
| "apply_all (e # es) sn = py_bind (apply_watch_event e sn) (apply_all es)"

definition first_snapshot :: "string \<Rightarrow> pyval \<Rightarrow> watch_snapshot py" where
  \<comment> \<open>from the first event, which must be a state\<close>
  "first_snapshot job e =
     py_bind (py_obj e) (\<lambda>d.
     py_check (\<not> py_eq (py_get d ''kind'') (PStr ''watch.state_changed'')) WatchReadModelError (
     py_bind (state_event e) (\<lambda>f.
     py_check (sf_job f \<noteq> job) WatchReadModelError (
     py_bind (py_item e ''payload'') (\<lambda>payload.
     py_bind (int_item e ''sequence'') (\<lambda>sequence.
     py_bind (str_item payload ''reason_code'') (\<lambda>reason.
     py_bind (str_item e ''occurred_utc'') (\<lambda>utc.
     Inr \<lparr>wn_job = job, wn_first = sequence, wn_last = sequence, wn_revision = sf_revision f, wn_schedule = sf_schedule f,
          wn_state = sf_state f, wn_reason = reason, wn_due = sf_due f, wn_next_due = sf_next_due f, wn_runs = [],
          wn_activity = [\<lparr>ac_sequence = sequence, ac_utc = utc, ac_kind = ''watch.state_changed'',
             ac_summary = ''watch '' @ sf_state f @ '': '' @ reason\<rparr>]\<rparr>))))))))"

definition project_watch :: "pyval list \<Rightarrow> string \<Rightarrow> watch_snapshot py" where
  "project_watch events job =
     py_bind (require_uuid job) (\<lambda>_.
     py_bind (relevant_events job events) (\<lambda>relevant.
     py_check (relevant = []) WatchReadModelError (
     py_bind (numbered relevant) (\<lambda>ns.
     let ordered = map snd (sort_key fst ns) in
     py_bind (first_snapshot job (hd ordered)) (apply_all (tl ordered))))))"

fun first_sequences :: "pyval list \<Rightarrow> (string \<times> int) list \<Rightarrow> (string \<times> int) list py" where
  \<comment> \<open>\<open>first_by_job\<close>\<close>
  "first_sequences [] firsts = Inr firsts"
| "first_sequences (e # es) firsts =
     py_bind (py_obj e) (\<lambda>d.
     if \<not> py_eq (py_get d ''kind'') (PStr ''watch.state_changed'') then first_sequences es firsts
     else
       py_bind (py_obj (py_get_or d ''payload'' (PDict []))) (\<lambda>p.
       case py_get p ''job_id'' of
         PStr job \<Rightarrow>
           py_bind (require_uuid job) (\<lambda>_.
           py_bind (int_item e ''sequence'') (\<lambda>i.
           first_sequences es
             (case map_of firsts job of
                None \<Rightarrow> firsts @ [(job, i)]
              | Some k \<Rightarrow> map (\<lambda>x. if fst x = job then (job, min i k) else x) firsts)))
       | _ \<Rightarrow> Inl WatchReadModelError))"

fun project_each :: "pyval list \<Rightarrow> string list \<Rightarrow> watch_snapshot list py" where
  "project_each events [] = Inr []"
| "project_each events (job # jobs) =
     py_bind (project_watch events job) (\<lambda>sn. py_bind (project_each events jobs) (\<lambda>sns. Inr (sn # sns)))"

definition project_watches :: "pyval list \<Rightarrow> watch_snapshot list py" where
  "project_watches events =
     py_bind (first_sequences events []) (\<lambda>firsts. project_each events (map fst (sort_key snd firsts)))"

end
