(* ===== verification/Watch_Lifecycle.thy ===== *)
theory Watch_Lifecycle
  imports Watch_View Watch_Service Task_Executor
begin

text \<open>
  Fixed watch runs as durable tasks: the events that record the state and the runs of a watch
  (\<open>session/durable_watch.py\<close>), the admission of a run (\<open>session/watch_task_admission.py\<close>) and the
  lifecycle that the watch service calls (\<open>session/watch_task_lifecycle.py\<close>).  The verifier, the digest
  of the controller's configuration, the repository it is configured for and the clock are
  parameters; the waits are the writer of \<open>Task_Executor\<close> working off its queue.
\<close>

section \<open>Recording state and runs\<close>

definition watch_schedule_revision :: "(string \<Rightarrow> string) \<Rightarrow> stored_watch_job \<Rightarrow> string" where
  "watch_schedule_revision sha r =
     sha (canonical_bytes (PDict
       [(''version'', PInt (sj_version r)), (''enabled'', PBool (sj_enabled r)), (''schedule_spec'', opt_str (sj_schedule r))]))"

definition append_wait ::
  "service_env \<Rightarrow> string \<Rightarrow> pydict \<Rightarrow> string option \<Rightarrow> service \<Rightarrow> service \<times> unit py" where
  \<comment> \<open>\<open>service.append(...)\<close> and \<open>receipt.wait(...)\<close>\<close>
  "append_wait x kind payload task sv =
     (case svc_append kind payload task None sv of Inl e \<Rightarrow> (sv, Inl e) | Inr (i, sv1) \<Rightarrow> awaited x i sv1)"

definition state_payload ::
  "service_env \<Rightarrow> stored_watch_job \<Rightarrow> string \<Rightarrow> string \<Rightarrow> string option \<Rightarrow> string option \<Rightarrow> pydict" where
  "state_payload x r state reason due next_due =
     [(''job_id'', PStr (fj_id (sj_job r))), (''job_revision'', PStr (revision_sha256 (sx_sha x) (sj_job r))),
      (''schedule_revision'', PStr (watch_schedule_revision (sx_sha x) r)), (''state'', PStr state),
      (''reason_code'', PStr reason), (''due_utc'', opt_str due), (''next_due_utc'', opt_str next_due)]"

definition record_state ::
  "service_env \<Rightarrow> stored_watch_job \<Rightarrow> string option \<Rightarrow> string \<Rightarrow> string option \<Rightarrow> string option \<Rightarrow> service
     \<Rightarrow> service \<times> unit py" where
  "record_state x r state reason due next_due sv =
     (let resolved = (case state of
            Some s \<Rightarrow> if s = [] then (if sj_enabled r then ''enabled'' else ''disabled'') else s
          | None \<Rightarrow> if sj_enabled r then ''enabled'' else ''disabled'')
      in if resolved \<notin> {''enabled'', ''paused'', ''disabled'', ''skipped''} then (sv, Inl ValueError)
         else append_wait x ''watch.state_changed'' (state_payload x r resolved reason due next_due) None sv)"

definition view_error :: "py_exc \<Rightarrow> 'a py \<Rightarrow> 'a py" where
  \<comment> \<open>\<open>except WatchReadModelError\<close>, raised again as another error\<close>
  "view_error e m = (case m of Inl f \<Rightarrow> Inl (if f = WatchReadModelError then e else f) | Inr a \<Rightarrow> Inr a)"

definition current_view :: "service_env \<Rightarrow> string \<Rightarrow> service \<Rightarrow> watch_snapshot py" where
  \<comment> \<open>\<open>project_watch(service.replay(), job_id)\<close>: a replay without arguments is one page\<close>
  "current_view x job sv = py_bind (svc_replay x sv 0 1000) (\<lambda>events. project_watch events job)"

definition matching_view :: "service_env \<Rightarrow> py_exc \<Rightarrow> stored_watch_job \<Rightarrow> service \<Rightarrow> unit py" where
  \<comment> \<open>the view exists and has the revisions of the record\<close>
  "matching_view x e r sv =
     py_bind (view_error e (current_view x (fj_id (sj_job r)) sv)) (\<lambda>sn.
     py_check (wn_revision sn \<noteq> revision_sha256 (sx_sha x) (sj_job r)) e (
     py_check (wn_schedule sn \<noteq> watch_schedule_revision (sx_sha x) r) e (Inr ())))"

definition run_history :: "fixed_watch_run \<Rightarrow> (string \<times> pyval) py" where
  \<comment> \<open>the comparison and the previous attempt\<close>
  "run_history fixed =
     (case fr_previous fixed of
        None \<Rightarrow> Inr (''BASELINE'', PNone)
      | Some p \<Rightarrow>
          (case fr_delta fixed of
             None \<Rightarrow> Inl DurableWatchError
           | Some d \<Rightarrow> Inr (if wd_status d = COMPARABLE then ''COMPARABLE'' else ''INCOMPARABLE'', PStr (wa_run p))))"

definition run_fields ::
  "service_env \<Rightarrow> stored_watch_job \<Rightarrow> watch_service_run \<Rightarrow> task_result \<Rightarrow> string \<Rightarrow> string \<Rightarrow> string option
     \<Rightarrow> string option \<Rightarrow> string \<Rightarrow> pyval \<Rightarrow> pydict" where
  "run_fields x r done_run result started finished due next_due comparison previous =
     [(''job_id'', PStr (fj_id (sj_job r))), (''job_revision'', PStr (revision_sha256 (sx_sha x) (sj_job r))),
       (''schedule_revision'', PStr (watch_schedule_revision (sx_sha x) r)),
       (''execution_contract_sha256'', PStr (wa_contract (fr_current (sr_run done_run)))), (''run_id'', PStr (sr_run_id done_run)),
       (''task_id'', PStr (rs_task_id result)), (''due_utc'', opt_str due), (''started_utc'', PStr started),
       (''finished_utc'', PStr finished),
       (''status'', PStr (terminal_state_value (pj_state (result_projection result)))),
       (''verdict'', PStr (task_verdict_value (pj_verdict (result_projection result)))),
       (''previous_attempt_id'', previous), (''comparison_run_id'', previous), (''comparison'', PStr comparison),
       (''counts'', PNone), (''delta_ref'', PNone), (''next_due_utc'', opt_str next_due)]"

definition run_payload ::
  "service_env \<Rightarrow> stored_watch_job \<Rightarrow> watch_service_run \<Rightarrow> task_result \<Rightarrow> string \<Rightarrow> string \<Rightarrow> string option
     \<Rightarrow> string option \<Rightarrow> service \<Rightarrow> pydict py" where
  \<comment> \<open>\<open>record_run\<close> up to the append\<close>
  "run_payload x r done_run result started finished due next_due sv =
     (let current = fr_current (sr_run done_run); sha = sx_sha x in
      py_check (wa_job current \<noteq> fj_id (sj_job r)) DurableWatchError (
      py_check (wa_revision current \<noteq> revision_sha256 sha (sj_job r)) DurableWatchError (
      py_check (wa_run current \<noteq> sr_run_id done_run) DurableWatchError (
      py_check (rs_verified result \<and> \<not> wa_complete current) DurableWatchError (
      py_bind (matching_view x DurableWatchError r sv) (\<lambda>_.
      py_bind (run_history (sr_run done_run)) (\<lambda>(comparison, previous).
      Inr (run_fields x r done_run result started finished due next_due comparison previous))))))))"

definition record_run ::
  "service_env \<Rightarrow> stored_watch_job \<Rightarrow> watch_service_run \<Rightarrow> task_result \<Rightarrow> string \<Rightarrow> string \<Rightarrow> string option
     \<Rightarrow> string option \<Rightarrow> service \<Rightarrow> service \<times> unit py" where
  "record_run x r done_run result started finished due next_due sv =
     (case run_payload x r done_run result started finished due next_due sv of
        Inl e \<Rightarrow> (sv, Inl e)
      | Inr payload \<Rightarrow> append_wait x ''watch.run_recorded'' payload (Some (rs_task_id result)) sv)"

section \<open>Admission\<close>

record watch_env =
  we_service :: service_env
  we_ellipsis :: char
  we_repository :: string            \<comment> \<open>\<open>repository_id(controller.repo)\<close>\<close>
  we_contract :: string              \<comment> \<open>\<open>execution_contract_sha256(controller)\<close> when the lifecycle was made\<close>
  we_contract_now :: "nat \<Rightarrow> string py"  \<comment> \<open>the same, computed again for an admission\<close>
  we_deadline :: "nat \<Rightarrow> int \<Rightarrow> string"
  we_now :: "nat \<Rightarrow> string"
  we_name :: "py_exc \<Rightarrow> string"       \<comment> \<open>\<open>type(error).__name__\<close>\<close>
  we_verifier :: "stored_watch_job \<Rightarrow> watch_service_run \<Rightarrow> string \<Rightarrow> task_result py"

definition optional_skill :: "string option \<Rightarrow> string option py" where
  "optional_skill v =
     (case v of
        None \<Rightarrow> Inr None
      | Some s \<Rightarrow> py_check (py_strip s = []) ValueError (py_check (128 < length s) ValueError (Inr (Some s))))"

definition watch_request :: "watch_env \<Rightarrow> stored_watch_job \<Rightarrow> string \<Rightarrow> string \<Rightarrow> string option \<Rightarrow> string \<Rightarrow> pydict" where
  "watch_request w r run contract skill task =
     [(''job_id'', PStr (fj_id (sj_job r))), (''run_id'', PStr run),
      (''job_revision'', PStr (revision_sha256 (sx_sha (we_service w)) (sj_job r))),
      (''configuration_version'', PInt (sj_version r)),
      (''schedule_revision'', PStr (watch_schedule_revision (sx_sha (we_service w)) r)),
      (''repository_id'', PStr (we_repository w)), (''contract_sha256'', PStr contract), (''skill'', opt_str skill),
      (''task'', PStr task)]"

definition watch_admission_payload ::
  "watch_env \<Rightarrow> stored_watch_job \<Rightarrow> string \<Rightarrow> string \<Rightarrow> string option \<Rightarrow> string \<Rightarrow> string \<Rightarrow> string \<Rightarrow> pydict" where
  \<comment> \<open>the artifact of the request and the digest of its bytes\<close>
  "watch_admission_payload w r run contract skill artifact bytes deadline =
     [(''origin'', PDict [(''kind'', PStr ''watch''), (''job_id'', PStr (fj_id (sj_job r))), (''run_id'', PStr run)]),
      (''request_ref'', PDict
         [(''artifact_id'', PStr artifact), (''sha256'', PStr (sx_sha (we_service w) bytes)),
          (''media_type'', PStr ''application/vnd.lca.watch-task-request+json''),
          (''size_bytes'', PInt (int (length bytes))), (''availability'', PStr ''retained'')]),
      (''contract_sha256'', PStr contract), (''repository_id'', PStr (we_repository w)), (''skill'', opt_str skill),
      (''execution_epoch'', PInt 0), (''deadline_utc'', PStr deadline)]"

record watch_admission =
  wq_task :: string
  wq_request :: string
  wq_created :: bool

definition admit_watch ::
  "watch_env \<Rightarrow> stored_watch_job \<Rightarrow> string \<Rightarrow> string \<Rightarrow> string option \<Rightarrow> service \<Rightarrow> service \<times> watch_admission py" where
  \<comment> \<open>\<open>DurableWatchTaskAdmission.admit\<close>\<close>
  "admit_watch w r run_id task skill_arg sv =
     (let x = we_service w in
      case py_bind (uuid_text run_id) (\<lambda>run.
           py_check (py_strip task = []) ValueError (
           py_check (MAX_MESSAGE_CHARS < length task) ValueError (
           py_bind (optional_skill skill_arg) (\<lambda>skill.
           py_check (fj_repository (sj_job r) \<noteq> we_repository w) DurableWatchAdmissionError (
           py_bind (we_contract_now w (sv_drawn sv)) (\<lambda>contract. Inr (run, skill, contract))))))) of
        Inl e \<Rightarrow> (sv, Inl e)
      | Inr (run, skill, contract) \<Rightarrow>
          let request = ''watch:'' @ fj_id (sj_job r) @ '':'' @ run;
              bytes = canonical_bytes (PDict (watch_request w r run contract skill task));
              payload = watch_admission_payload w r run contract skill (sx_uuid5 x (sv_stream sv) (request @ '':request'')) bytes
                (we_deadline w (sv_drawn sv) (fj_timeout (sj_job r)))
          in (case submit_task x request (sx_sha x bytes) payload (Some bytes) sv of
                Inl e \<Rightarrow> (sv, Inl e)
              | Inr (i, sv1) \<Rightarrow>
                  (case awaited x i sv1 of
                     (sv2, Inl e) \<Rightarrow> (sv2, Inl e)
                   | (sv2, Inr _) \<Rightarrow>
                       (sv2, case (wr_task (sv_receipts sv2 ! i), wr_created (sv_receipts sv2 ! i)) of
                          (Some k, Some c) \<Rightarrow> Inr \<lparr>wq_task = k, wq_request = request, wq_created = c\<rparr>
                        | _ \<Rightarrow> Inl DurableWatchAdmissionError))))"

section \<open>The lifecycle\<close>

record run_state =
  rt_task :: string
  rt_started :: "string option"

record watch_tasks =
  wl_service :: service
  wl_runs :: "string \<rightharpoonup> run_state"

definition run_state_of :: "string \<Rightarrow> watch_tasks \<Rightarrow> run_state py" where
  "run_state_of run lw = (case wl_runs lw run of None \<Rightarrow> Inl DurableWatchLifecycleError | Some s \<Rightarrow> Inr s)"

definition finalize_watch :: "watch_env \<Rightarrow> task_result \<Rightarrow> string \<Rightarrow> service \<Rightarrow> service \<times> unit py" where
  \<comment> \<open>\<open>_finalize_result\<close>\<close>
  "finalize_watch w result scope sv =
     (let x = we_service w; status = terminal_state_value (pj_state (result_projection result)) in
      case py_bind (result_artifact (we_ellipsis w) (sx_sha x) (sx_uuid4 x (sv_drawn sv)) result) (\<lambda>(ref, bytes).
           py_bind (verdict_block_from_task_result result scope) (\<lambda>block. Inr (ref, bytes, block))) of
        Inl e \<Rightarrow> (sv, Inl e)
      | Inr (ref, bytes, block) \<Rightarrow>
          (case svc_finalize x (rs_task_id result) (verdict_payload (rs_task_id result) result block ref False)
                  (closed_payload result ref (if status = ''unknown'' then ''unknown'' else ''not_needed''))
                  (Some bytes) (sv\<lparr>sv_drawn := Suc (sv_drawn sv)\<rparr>) of
             Inl e \<Rightarrow> (sv\<lparr>sv_drawn := Suc (sv_drawn sv)\<rparr>, Inl e)
           | Inr (i, sv1) \<Rightarrow> awaited x i sv1))"

definition lw_admit :: "watch_env \<Rightarrow> stored_watch_job \<Rightarrow> string \<Rightarrow> watch_tasks \<Rightarrow> watch_tasks \<times> unit py" where
  "lw_admit w r run lw =
     (case matching_view (we_service w) DurableWatchLifecycleError r (wl_service lw) of
        Inl e \<Rightarrow> (lw, Inl e)
      | Inr _ \<Rightarrow>
          if wl_runs lw run \<noteq> None then (lw, Inl DurableWatchLifecycleError)
          else
            (case admit_watch w r run (''Run fixed watch procedure: '' @ fj_name (sj_job r)) None (wl_service lw) of
               (sv, Inl e) \<Rightarrow> (lw\<lparr>wl_service := sv\<rparr>, Inl e)
             | (sv, Inr a) \<Rightarrow>
                 if \<not> wq_created a then (lw\<lparr>wl_service := sv\<rparr>, Inl DurableWatchLifecycleError)
                 else (lw\<lparr>wl_service := sv, wl_runs := (wl_runs lw)(run \<mapsto> \<lparr>rt_task = wq_task a, rt_started = None\<rparr>)\<rparr>, Inr ())))"

definition lw_start :: "watch_env \<Rightarrow> stored_watch_job \<Rightarrow> string \<Rightarrow> watch_tasks \<Rightarrow> watch_tasks \<times> unit py" where
  "lw_start w r run lw =
     (case run_state_of run lw of
        Inl e \<Rightarrow> (lw, Inl e)
      | Inr s \<Rightarrow>
          (case append_wait (we_service w) ''task.state_changed'' (running_payload 0) (Some (rt_task s)) (wl_service lw) of
             (sv, Inl e) \<Rightarrow> (lw\<lparr>wl_service := sv\<rparr>, Inl e)
           | (sv, Inr _) \<Rightarrow>
               let lw1 = lw\<lparr>wl_service := sv\<rparr> in
               if rt_started s \<noteq> None then (lw1, Inl DurableWatchLifecycleError)
               else (lw1\<lparr>wl_runs := (wl_runs lw)(run \<mapsto> s\<lparr>rt_started := Some (we_now w (sv_drawn sv))\<rparr>)\<rparr>, Inr ())))"

definition forget_run :: "string \<Rightarrow> watch_tasks \<Rightarrow> watch_tasks" where
  "forget_run run lw = lw\<lparr>wl_runs := (wl_runs lw)(run := None)\<rparr>"

definition no_verdict_watch :: "string \<Rightarrow> string \<Rightarrow> bool \<Rightarrow> task_result py" where
  "no_verdict_watch task answer ran_checks =
     mk_task_result task (PStr (task_outcome_value O_NO_VERDICT)) answer False [] [] (Some ran_checks) None"

definition lw_failed :: "watch_env \<Rightarrow> string \<Rightarrow> py_exc \<Rightarrow> watch_tasks \<Rightarrow> watch_tasks \<times> unit py" where
  "lw_failed w run e lw =
     (case py_bind (run_state_of run lw) (\<lambda>s.
           no_verdict_watch (rt_task s) (''Fixed watch stopped before a durable run result: '' @ we_name w e @ ''.'') False) of
        Inl e' \<Rightarrow> (lw, Inl e')
      | Inr result \<Rightarrow>
          (case finalize_watch w result ''fixed-watch execution stopped before a durable run result'' (wl_service lw) of
             (sv, out) \<Rightarrow> (forget_run run (lw\<lparr>wl_service := sv\<rparr>), out)))"

definition verified_result ::
  "watch_env \<Rightarrow> stored_watch_job \<Rightarrow> watch_service_run \<Rightarrow> string \<Rightarrow> task_result py" where
  \<comment> \<open>the inner \<open>try\<close> of \<open>completed\<close>\<close>
  "verified_result w r done_run task =
     (let current = fr_current (sr_run done_run) in
      py_check (wa_contract current \<noteq> we_contract w) DurableWatchLifecycleError (
      py_bind (we_verifier w r done_run task) (\<lambda>result.
      py_check (rs_task_id result \<noteq> task) DurableWatchLifecycleError (
      py_check (rs_verified result \<and> \<not> wa_complete current) DurableWatchLifecycleError (Inr result)))))"

definition settled_result ::
  "watch_env \<Rightarrow> stored_watch_job \<Rightarrow> watch_service_run \<Rightarrow> string \<Rightarrow> (task_result \<times> py_exc option) py" where
  \<comment> \<open>the result, or no verdict with the error that took its place\<close>
  "settled_result w r done_run task =
     (case verified_result w r done_run task of
        Inr result \<Rightarrow> Inr (result, None)
      | Inl e \<Rightarrow>
          py_bind (no_verdict_watch task (''Fixed watch verification did not establish a verdict: '' @ we_name w e @ ''.'') True)
            (\<lambda>result. Inr (result, Some e)))"

definition lw_completed ::
  "watch_env \<Rightarrow> stored_watch_job \<Rightarrow> watch_service_run \<Rightarrow> watch_tasks \<Rightarrow> watch_tasks \<times> unit py" where
  "lw_completed w r done_run lw =
     (let run = sr_run_id done_run in
      case py_bind (run_state_of run lw) (\<lambda>s.
           case rt_started s of
             None \<Rightarrow> Inl DurableWatchLifecycleError
           | Some started \<Rightarrow>
               py_check (wa_run (fr_current (sr_run done_run)) \<noteq> run) DurableWatchLifecycleError (Inr (s, started))) of
        Inl e \<Rightarrow> (lw, Inl e)
      | Inr (s, started) \<Rightarrow>
          (case settled_result w r done_run (rt_task s) of
             Inl e \<Rightarrow> (forget_run run lw, Inl e)
           | Inr (result, failure) \<Rightarrow>
               (case finalize_watch w result ''deterministic fixed-watch procedure and verification'' (wl_service lw) of
                  (sv, Inl e) \<Rightarrow> (forget_run run (lw\<lparr>wl_service := sv\<rparr>), Inl e)
                | (sv, Inr _) \<Rightarrow>
                    (case record_run (we_service w) r done_run result started (we_now w (sv_drawn (wl_service lw))) None None sv of
                       (sv1, Inl e) \<Rightarrow> (forget_run run (lw\<lparr>wl_service := sv1\<rparr>), Inl e)
                     | (sv1, Inr _) \<Rightarrow>
                         (forget_run run (lw\<lparr>wl_service := sv1\<rparr>),
                          if failure = None then Inr () else Inl DurableWatchLifecycleError)))))"

section \<open>A run with this lifecycle\<close>

definition failed_run ::
  "watch_env \<Rightarrow> string \<Rightarrow> py_exc \<Rightarrow> watch_run_store \<Rightarrow> watch_tasks \<Rightarrow> watch_run_store \<times> watch_tasks \<times> watch_service_run py" where
  \<comment> \<open>an error of the hook itself is only noted on the error\<close>
  "failed_run w run e rs lw = (rs, fst (lw_failed w run e lw), Inl e)"

definition durable_body ::
  "watch_env \<Rightarrow> watch_config \<Rightarrow> stored_watch_job \<Rightarrow> watch_trigger \<Rightarrow> string \<Rightarrow> watch_run_store \<Rightarrow> watch_tasks
     \<Rightarrow> watch_run_store \<times> watch_tasks \<times> watch_service_run py" where
  \<comment> \<open>the body of \<open>run_job\<close> with the hooks of this lifecycle\<close>
  "durable_body w cfg r t run rs lw =
     (case lw_admit w r run lw of
        (lw1, Inl e) \<Rightarrow> (rs, lw1, Inl e)
      | (lw1, Inr _) \<Rightarrow>
          (case wc_factory cfg r run of
             Inl e \<Rightarrow> failed_run w run e rs lw1
           | Inr rn \<Rightarrow>
               (case lw_start w r run lw1 of
                  (lw2, Inl e) \<Rightarrow> failed_run w run e rs lw2
                | (lw2, Inr _) \<Rightarrow>
                    (case snd (runner_run (wc_sha cfg) rn run (sj_job r) (Some run) rs) of
                       Inl e \<Rightarrow> failed_run w run e rs lw2
                     | Inr (fixed, rs') \<Rightarrow>
                         if wa_run (fr_current fixed) \<noteq> run then failed_run w run WatchLifecycleError rs' lw2
                         else
                           let done_run = \<lparr>sr_version = sj_version r, sr_trigger = t, sr_run_id = run, sr_run = fixed\<rparr>
                           in (case lw_completed w r done_run lw2 of
                                 (lw3, out) \<Rightarrow> (rs', lw3, py_bind out (\<lambda>_. Inr done_run)))))))"

end
