(* ===== verification/Watch_View_Properties.thy ===== *)
theory Watch_View_Properties
  imports Watch_Lifecycle Executor_Properties Watch_Properties
begin

text \<open>
  The view of a watch: the runs of a snapshot are a chain, applying events one by one is projecting
  the log, and two ways in which the view is lost: the log outgrows the page that is read, and a run
  is recorded whose previous attempt is not the last recorded run.
\<close>

section \<open>The runs are a chain\<close>

definition chained :: "watch_snapshot \<Rightarrow> bool" where
  "chained sn \<longleftrightarrow>
     (\<forall>i < length (wn_runs sn).
        ru_previous (wn_runs sn ! i) = (if i = 0 then None else Some (ru_run (wn_runs sn ! (i - 1))))
        \<and> (ru_comparison (wn_runs sn ! i) = ''BASELINE'' \<longleftrightarrow> i = 0)
        \<and> ru_sequence (wn_runs sn ! i) \<le> wn_last sn
        \<and> (\<forall>j < i. ru_sequence (wn_runs sn ! j) < ru_sequence (wn_runs sn ! i)))
     \<and> wn_first sn \<le> wn_last sn"

lemma run_summary_fields:
  assumes "run_summary n revision schedule payload sn = Inr ru"
  shows "ru_sequence ru = n \<and> ru_previous ru = map_option ru_run (last_run sn)
    \<and> (ru_comparison ru = ''BASELINE'' \<longleftrightarrow> last_run sn = None)"
proof -
  from assms obtain previous comparison where "check_history sn previous payload = Inr ()"
    "str_item payload ''comparison'' = Inr comparison" "ru_previous ru = previous" "ru_comparison ru = comparison"
    "ru_sequence ru = n"
    by (auto simp: run_summary_def py_bind_Inr_iff)
  then show ?thesis by (auto simp: check_history_def split: option.splits)
qed

lemma apply_chained:
  assumes "apply_watch_event e sn = Inr sn'" "chained sn"
  shows "chained sn' \<and> wn_job sn' = wn_job sn \<and> wn_first sn' = wn_first sn \<and> wn_last sn < wn_last sn'"
proof -
  from assms(1) obtain n kind payload utc where n: "wn_last sn < n"
    and c: "apply_state n kind utc payload e sn = Inr sn' \<or> apply_run n kind utc payload sn = Inr sn'"
    by (auto simp: apply_watch_event_def py_bind_Inr_iff not_le split: if_splits)
  from c show ?thesis
  proof
    assume "apply_state n kind utc payload e sn = Inr sn'"
    with n assms(2) show ?thesis by (fastforce simp: apply_state_def py_bind_Inr_iff chained_def)
  next
    assume "apply_run n kind utc payload sn = Inr sn'"
    then obtain revision schedule ru where ru: "run_summary n revision schedule payload sn = Inr ru"
      and sn': "wn_runs sn' = wn_runs sn @ [ru]" "wn_last sn' = n" "wn_job sn' = wn_job sn" "wn_first sn' = wn_first sn"
      by (auto simp: apply_run_def py_bind_Inr_iff)
    from run_summary_fields [OF ru] have f: "ru_sequence ru = n"
      "ru_previous ru = (if wn_runs sn = [] then None else Some (ru_run (last (wn_runs sn))))"
      "ru_comparison ru = ''BASELINE'' \<longleftrightarrow> wn_runs sn = []"
      by (auto simp: last_run_def)
    have "ru_previous ((wn_runs sn @ [ru]) ! i) = (if i = 0 then None else Some (ru_run ((wn_runs sn @ [ru]) ! (i - 1))))
        \<and> (ru_comparison ((wn_runs sn @ [ru]) ! i) = ''BASELINE'' \<longleftrightarrow> i = 0)
        \<and> ru_sequence ((wn_runs sn @ [ru]) ! i) \<le> n
        \<and> (\<forall>j < i. ru_sequence ((wn_runs sn @ [ru]) ! j) < ru_sequence ((wn_runs sn @ [ru]) ! i))"
      if i: "i < Suc (length (wn_runs sn))" for i
    proof (cases "i = length (wn_runs sn)")
      case True
      with f n assms(2) show ?thesis
        by (auto simp: chained_def nth_append last_conv_nth intro: order_le_less_trans)
    next
      case False
      with i have "i < length (wn_runs sn)" by simp
      with n assms(2) show ?thesis by (auto simp: chained_def nth_append intro: order_trans [OF _ less_imp_le])
    qed
    with n assms(2) show ?thesis by (simp add: chained_def sn')
  qed
qed

lemma apply_all_chained:
  "apply_all es sn = Inr sn' \<Longrightarrow> chained sn \<Longrightarrow> chained sn' \<and> wn_job sn' = wn_job sn \<and> wn_first sn' = wn_first sn"
proof (induction es arbitrary: sn)
  case (Cons e es)
  from Cons.prems(1) obtain sn1 where s: "apply_watch_event e sn = Inr sn1" "apply_all es sn1 = Inr sn'"
    by (auto simp: py_bind_Inr_iff)
  from apply_chained [OF s(1) Cons.prems(2)] Cons.IH [OF s(2)] show ?case by simp
qed simp

lemma first_snapshot_chained: "first_snapshot job e = Inr sn \<Longrightarrow> chained sn \<and> wn_job sn = job"
  by (auto simp: first_snapshot_def py_bind_Inr_iff chained_def)

text \<open>C37: In every view that is rebuilt from a log the runs are a chain in the order of the log: each names the run
  before it as its previous attempt, exactly the first is a baseline, and no sequence number is used twice.\<close>

theorem view_history_is_a_chain:
  assumes "project_watch events job = Inr sn" "i < length (wn_runs sn)"
  shows "wn_job sn = job
    \<and> ru_previous (wn_runs sn ! i) = (if i = 0 then None else Some (ru_run (wn_runs sn ! (i - 1))))
    \<and> (ru_comparison (wn_runs sn ! i) = ''BASELINE'' \<longleftrightarrow> i = 0)
    \<and> (\<forall>j < i. ru_sequence (wn_runs sn ! j) < ru_sequence (wn_runs sn ! i))"
proof -
  from assms(1) obtain e es sn0 where "first_snapshot job e = Inr sn0" "apply_all es sn0 = Inr sn"
    by (auto simp: project_watch_def py_bind_Inr_iff Let_def)
  with first_snapshot_chained apply_all_chained have "chained sn \<and> wn_job sn = job" by metis
  with assms(2) show ?thesis by (simp add: chained_def)
qed

section \<open>Event by event\<close>

definition in_order :: "pyval list \<Rightarrow> bool" where
  "in_order es \<longleftrightarrow> (\<exists>ns. numbered es = Inr ns \<and> sorted_wrt (<) (map fst ns))"

lemma numbered_events: "numbered es = Inr ns \<Longrightarrow> map snd ns = es"
  by (induction es arbitrary: ns) (auto simp: py_bind_Inr_iff)

lemma relevant_in_order:
  "relevant_events job es = Inr rs \<Longrightarrow> numbered es = Inr ns \<Longrightarrow> sorted_wrt (<) (map fst ns) \<Longrightarrow>
     \<exists>ms. numbered rs = Inr ms \<and> sorted_wrt (<) (map fst ms) \<and> set ms \<subseteq> set ns"
proof (induction es arbitrary: rs ns)
  case (Cons e es)
  from Cons.prems(1,2) obtain keep rs1 i ns1 where k: "event_for job e = Inr keep" "relevant_events job es = Inr rs1"
    "rs = (if keep then e # rs1 else rs1)" "int_item e ''sequence'' = Inr i" "numbered es = Inr ns1" "ns = (i, e) # ns1"
    by (auto simp: py_bind_Inr_iff)
  with Cons.IH [OF k(2,5)] Cons.prems(3) obtain ms where "numbered rs1 = Inr ms" "sorted_wrt (<) (map fst ms)" "set ms \<subseteq> set ns1"
    by auto
  with k Cons.prems(3) show ?case by (auto split: if_splits)
qed simp

lemma project_in_order:
  assumes "in_order es"
  shows "project_watch es job =
    py_bind (require_uuid job) (\<lambda>_. py_bind (relevant_events job es) (\<lambda>rs.
      py_check (rs = []) WatchReadModelError (py_bind (first_snapshot job (hd rs)) (apply_all (tl rs)))))"
proof (cases "relevant_events job es")
  case (Inr rs)
  from assms obtain ns where "numbered es = Inr ns" "sorted_wrt (<) (map fst ns)" by (auto simp: in_order_def)
  from relevant_in_order [OF Inr this] obtain ms where ms: "numbered rs = Inr ms" "sorted_wrt (<) (map fst ms)" by blast
  then have "sort_key fst ms = ms" by (intro sort_key_id_if_sorted) (simp add: strict_sorted_iff)
  with ms(1) numbered_events [OF ms(1)] Inr show ?thesis by (simp add: project_watch_def Let_def)
qed (simp add: project_watch_def)

lemma relevant_append:
  "relevant_events job (es @ fs) =
     py_bind (relevant_events job es) (\<lambda>rs. py_bind (relevant_events job fs) (\<lambda>gs. Inr (rs @ gs)))"
  by (induction es) (auto simp: py_bind_def split: sum.splits)

lemma numbered_append:
  "numbered (es @ fs) = py_bind (numbered es) (\<lambda>ns. py_bind (numbered fs) (\<lambda>ms. Inr (ns @ ms)))"
  by (induction es) (auto simp: py_bind_def split: sum.splits)

lemma apply_all_append: "apply_all (es @ fs) sn = py_bind (apply_all es sn) (apply_all fs)"
  by (induction es arbitrary: sn) (auto simp: py_bind_def split: sum.splits)

lemma in_order_prefix: "in_order (es @ fs) \<Longrightarrow> in_order es"
  by (auto simp: in_order_def numbered_append py_bind_Inr_iff sorted_wrt_append)

lemma project_prefix:
  assumes "in_order (es @ fs)" "relevant_events job es = Inr rs" "rs \<noteq> []" "relevant_events job fs = Inr gs"
  shows "project_watch (es @ fs) job = py_bind (project_watch es job) (apply_all gs)"
  using assms
  by (cases rs) (simp_all add: project_in_order in_order_prefix relevant_append apply_all_append py_bind_def split: sum.splits)

text \<open>Projecting a log that has grown is applying what is new to the view there was: the view of a replay is
  the view of the events so far, brought up to date with the later events of the job one by one.\<close>

theorem view_is_kept_event_by_event:
  assumes "in_order (es @ fs)" "project_watch es job = Inr sn" "relevant_events job fs = Inr gs"
  shows "project_watch (es @ fs) job = apply_all gs sn"
proof -
  from assms(2) obtain rs where "relevant_events job es = Inr rs" "rs \<noteq> []"
    by (auto simp: project_watch_def py_bind_Inr_iff)
  from project_prefix [OF assms(1) this assms(3)] assms(2) show ?thesis by simp
qed

section \<open>The log that is read\<close>

lemma service_step_grows:
  assumes ok: "served_ok x s" and step: "service_step x op s = Inr s'"
  shows "sv_stream (fst s') = sv_stream (fst s) \<and> store_grows (sv_store (fst s)) (sv_store (fst s'))"
proof -
  obtain sv got sv' got' where s: "s = (sv, got)" "s' = (sv', got')" by (cases s, cases s')
  from step_stream [OF refl step] have st: "sv_stream (fst s') = sv_stream (fst s)" .
  from step [unfolded s] have "store_grows (sv_store sv) (sv_store sv')"
  proof (cases rule: service_step_cases)
    case (drained i limit out)
    then have "sv_store sv' = sv_store sv" by (auto simp: svc_drain_def py_bind_Inr_iff)
    then show ?thesis by simp
  next
    case committed
    with ok s turn_grows [of x sv] show ?thesis by (simp add: served_ok_def writer_turn_def)
  qed (simp_all add: same_log_def)
  with st s show ?thesis by simp
qed

interpretation growing_log: monotone_machine "service_step x" "served_ok x"
  "\<lambda>s s'. sv_stream (fst s') = sv_stream (fst s) \<and> store_grows (sv_store (fst s)) (sv_store (fst s'))" for x
  by unfold_locales (auto intro: service_run.step_inv store_grows_trans dest: service_step_grows)

lemma later_rows:
  assumes "served_ok x s" "s' = run_ops (service_step x) later s"
  shows "served_ok x s' \<and> sv_stream (fst s') = sv_stream (fst s) \<and> (\<exists>rest. log_rows (fst s') = log_rows (fst s) @ rest)"
proof -
  from growing_log.run_below [OF assms(1), of later] have g: "sv_stream (fst s') = sv_stream (fst s)"
    "store_grows (sv_store (fst s)) (sv_store (fst s'))" by (simp_all add: assms(2))
  then show ?thesis
    using service_run.run_inv [OF assms(1), of later]
    by (auto simp: assms(2) store_grows_def prefix_def log_rows_def stream_rows_def)
qed

lemma first_page:
  assumes "writer_ok x sv"
  shows "svc_replay x sv 0 1000 =
    py_bind (load_events (sx_valid x) (map er_json (take 1000 (log_rows sv)))) (\<lambda>vs. py_bind (validate_all (sx_valid x) vs) (\<lambda>_. Inr vs))"
proof -
  from assms have "events_ok (sx_valid x) (sv_store sv)" by (simp add: writer_ok_def store_ok_def)
  from events_after_drop [OF this, of 0] show ?thesis by (simp add: svc_replay_def replay_def log_rows_def)
qed

text \<open>C39: A watch whose view is not in order after the first thousand events of the session stays so.  The replay
  that the watch service reads is one page of a thousand events, so once the session log has that many, no
  recorded state or run changes any view, and a watch that was not recorded with its current
  revisions by then is refused at every later admission.\<close>

theorem watch_view_is_frozen_after_a_page:
  assumes "served_ok (we_service w) s" "1000 \<le> length (log_rows (fst s))"
    and "s' = run_ops (service_step (we_service w)) later s"
    and "matching_view (we_service w) DurableWatchLifecycleError r (fst s) = Inl e" "wl_service lw = fst s'"
  shows "current_view (we_service w) job (fst s') = current_view (we_service w) job (fst s)
    \<and> lw_admit w r run lw = (lw, Inl e)"
proof -
  from later_rows [OF assms(1,3)] assms(2) have "take 1000 (log_rows (fst s')) = take 1000 (log_rows (fst s))"
    and w: "writer_ok (we_service w) (fst s')" by (auto simp: served_ok_def)
  with first_page [OF w] first_page [of "we_service w" "fst s"] assms(1)
  have "svc_replay (we_service w) (fst s') 0 1000 = svc_replay (we_service w) (fst s) 0 1000"
    by (simp add: served_ok_def)
  then have v: "current_view (we_service w) j (fst s') = current_view (we_service w) j (fst s)" for j
    by (simp add: current_view_def)
  with assms(4,5) show ?thesis by (simp add: lw_admit_def matching_view_def)
qed

section \<open>A run that breaks the view\<close>

abbreviation event_value :: "envelope \<Rightarrow> pyval" where
  "event_value e \<equiv> canon (PDict (envelope_dict e))"

lemma canon_item:
  assumes "distinct (map fst d)"
  shows "py_item (canon (PDict d)) k = (case map_of d k of None \<Rightarrow> Inl KeyError | Some v \<Rightarrow> Inr (canon v))"
proof -
  have "distinct (map fst (map (\<lambda>kv. (fst kv, canon (snd kv))) d))" using assms by (simp add: comp_def)
  moreover have "map_of (map (\<lambda>kv. (fst kv, canon (snd kv))) d) k = map_option canon (map_of d k)"
    by (induction d) auto
  ultimately show ?thesis by (simp add: canon.simps py_item_def map_of_sorted del: sort_key_simps split: option.splits)
qed

lemma event_keys: "distinct (map fst (envelope_dict e))"
  by (simp add: envelope_dict_def)

lemma event_items:
  "py_item (event_value e) ''kind'' = Inr (PStr (ev_kind e))"
  "py_item (event_value e) ''payload'' = Inr (canon (PDict (ev_payload e)))"
  by (simp_all only: canon_item [OF event_keys]) (simp_all add: envelope_dict_def del: canon.simps(2))

lemma replayed_in_order:
  assumes "map ev_sequence es = map int [Suc 0..<Suc (length es)]"
  shows "in_order (map event_value es)"
proof -
  have "numbered (map event_value es) = Inr (map (\<lambda>e. (ev_sequence e, event_value e)) es)" for es
    by (induction es) (simp_all add: int_item_def canon_sequence py_int_def del: canon.simps)
  moreover have "sorted_wrt (<) (map ev_sequence es)"
    unfolding assms by (simp add: sorted_wrt_map del: upt_Suc)
  ultimately show ?thesis by (simp add: in_order_def comp_def)
qed

lemma page_extends:
  assumes w: "writer_ok x sv" "writer_ok x sv2" and valid: "validator_ok (sx_valid x)"
    and log: "log_rows sv2 = log_rows sv @ event_row_of e # rest" "length (log_rows sv) < 1000"
    and e: "sx_valid x (PDict (envelope_dict e))" and page: "svc_replay x sv 0 1000 = Inr es"
  shows "\<exists>later. svc_replay x sv2 0 1000 = Inr (es @ event_value e # later) \<and> in_order (es @ event_value e # later)"
proof -
  from w(2) have ok: "events_ok (sx_valid x) (sv_store sv2)" by (simp add: writer_ok_def store_ok_def)
  from replay_ok [OF this valid, of 0 1000 "sv_stream sv2"] obtain es2 where
    r: "svc_replay x sv2 0 1000 = Inr (map event_value es2)" and v: "\<forall>e \<in> set es2. sx_valid x (PDict (envelope_dict e))"
    and rows: "map event_row_of es2 = take 1000 (log_rows sv2)" by (auto simp: svc_replay_def log_rows_def)
  from rows log have "map event_row_of es2 = log_rows sv @ event_row_of e # take (999 - length (log_rows sv)) rest"
    by (simp add: take_Cons' Suc_diff_le)
  then obtain a e2 b where es2: "es2 = a @ e2 # b" "map event_row_of a = log_rows sv" "event_row_of e2 = event_row_of e"
    by (auto simp: map_eq_append_conv map_eq_Cons_conv)
  have keys: "keys_distinct (PDict (envelope_dict e))" if "sx_valid x (PDict (envelope_dict e))" for e
    using that valid unfolding validator_ok_def by blast
  have loads: "json_loads (encoded e) = Inr (event_value e)" if "sx_valid x (PDict (envelope_dict e))" for e
    unfolding encoded_def by (rule json_round_trip [OF keys [OF that]])
  from es2(3) have "encoded e2 = encoded e" by (metis event_row_of_sel(6))
  with loads [OF e] loads [of e2] v es2(1) have "event_value e2 = event_value e" by (metis Inr_inject in_set_conv_decomp)
  moreover have "es = map event_value a"
  proof -
    have "load_events (sx_valid x) (map encoded a) = Inr (map event_value a)"
      using v es2(1) keys by (intro load_encoded) auto
    moreover have "map er_json (log_rows sv) = map encoded a" by (simp add: es2(2) [symmetric] comp_def)
    ultimately show ?thesis
      using page log(2) by (auto simp: first_page [OF w(1)] py_bind_Inr_iff)
  qed
  moreover have "in_order (map event_value es2)"
  proof (rule replayed_in_order)
    from ok have "contiguous (log_rows sv2)" by (simp add: events_ok_def log_rows_def)
    from contiguous_slice [OF this, of 1000 0]
    have "map er_sequence (map event_row_of es2) = map int [Suc 0..<Suc (min 1000 (length (log_rows sv2)))]" by (simp add: rows)
    moreover have "length es2 = min 1000 (length (log_rows sv2))" using arg_cong [OF rows, of length] by simp
    ultimately show "map ev_sequence es2 = map int [Suc 0..<Suc (length es2)]" by (simp add: comp_def)
  qed
  ultimately show ?thesis using r es2(1) by (intro exI [of _ "map event_value b"]) simp
qed

lemma idle_append:
  assumes ok: "service_ok x sv" and idle: "sv_writing sv = None" "sv_commands sv = []"
    and wait: "append_wait x kind payload task sv = (sv', Inr ())"
  shows "\<exists>e. log_rows sv' = log_rows sv @ [event_row_of e] \<and> ev_kind e = kind \<and> ev_payload e = payload
    \<and> sx_valid x (PDict (envelope_dict e)) \<and> service_ok x sv'"
proof -
  from wait obtain i sv1 where a: "svc_append kind payload task None sv = Inr (i, sv1)" and w: "awaited x i sv1 = (sv', Inr ())"
    by (auto simp: append_wait_def split: sum.splits)
  then have i: "i = length (sv_receipts sv)" and sv1: "sv1 = sv\<lparr>sv_commands := [(i, Write_Append kind payload task None)],
      sv_receipts := sv_receipts sv @ [\<lparr>wr_task = task, wr_committed = False, wr_error = None, wr_created = None\<rparr>]\<rparr>"
    using idle by (auto simp: svc_append_def enqueue_write_def)
  from svc_append_ok [OF a ok] have ok1: "service_ok x sv1" by simp
  have idle1: "sv_writing sv1 = None" "sv_commands sv1 = [(i, Write_Append kind payload task None)]"
    "i < length (errors_of sv1)" "log_rows sv1 = log_rows sv" "sv_stream sv1 = sv_stream sv" "sv_store sv1 = sv_store sv"
    using idle by (simp_all add: sv1 i errors_of_def log_rows_def)
  have sv': "sv' = writer_turn x sv1" using w idle1 by (simp add: awaited_def Let_def writer_runs_def publishing_idle)
  from idle1(1,2) show ?thesis
  proof (cases rule: turn_cases [where x = x])
    case (refused e)
    with w sv' idle1(3) have False by (auto simp: awaited_def Let_def errors_of_def nth_map [symmetric] split: option.splits)
    then show ?thesis ..
  next
    case (written s' events created)
    from written(1) obtain e where e: "service_event x sv1 (sv_drawn sv1) (next_sequence (sv_store sv1) (sv_stream sv1)) kind task payload = Inr e"
      and app: "append_event (sx_valid x) (sx_sha x) e (next_sequence (sv_store sv1) (sv_stream sv1)) None (sv_store sv1) = Inr s'"
      by (auto simp: perform_write_def Let_def py_bind_Inr_iff)
    have "sv_stream sv' = sv_stream sv1" by (simp add: sv' writer_turn_def commit_next_def set_receipt_def Let_def split: option.splits list.splits sum.splits)
    moreover note append_event_rows [OF app] service_event_Inr [OF e] written(2)
    ultimately have "log_rows sv' = log_rows sv @ [event_row_of e]" by (simp add: log_rows_def sv' idle1)
    moreover have "sx_valid x (PDict (envelope_dict e))"
      using app by (auto simp: append_event_def validate_event_def py_bind_Inr_iff split: if_splits)
    moreover have "service_ok x sv'" unfolding sv' by (rule turn_ok [OF ok1 idle1(1)])
    ultimately show ?thesis using service_event_Inr [OF e] by blast
  qed
qed

lemma run_payload_fields:
  assumes "run_payload x r done_run result started finished due next_due sv = Inr payload"
  shows "distinct (map fst payload) \<and> map_of payload ''job_id'' = Some (PStr (fj_id (sj_job r)))
    \<and> map_of payload ''previous_attempt_id'' = Some (opt_str (map_option wa_run (fr_previous (sr_run done_run))))"
proof -
  from assms obtain c p where "run_history (sr_run done_run) = Inr (c, p)"
    and payload: "payload = run_fields x r done_run result started finished due next_due c p"
    by (auto simp: run_payload_def Let_def py_bind_Inr_iff)
  then have "p = opt_str (map_option wa_run (fr_previous (sr_run done_run)))"
    by (auto simp: run_history_def opt_str_def split: option.splits)
  then show ?thesis by (simp add: payload run_fields_def)
qed

lemma run_event_is_relevant:
  assumes "ev_kind e = ''watch.run_recorded''" "distinct (map fst (ev_payload e))" "map_of (ev_payload e) ''job_id'' = Some (PStr job)"
  shows "event_for job (event_value e) = Inr True"
proof -
  let ?d = "sort_key fst (map (\<lambda>kv. (fst kv, canon (snd kv))) (envelope_dict e))"
  let ?p = "sort_key fst (map (\<lambda>kv. (fst kv, canon (snd kv))) (ev_payload e))"
  have g: "py_get ?d ''kind'' = PStr ''watch.run_recorded''" "py_get ?d ''payload'' = PDict ?p"
    using assms(1) by (simp_all only: py_get_canon [OF event_keys]) (simp_all add: envelope_dict_def py_get_def)
  have k: "has_key ?d ''payload''" by (force simp: has_key_def envelope_dict_def)
  have j: "py_get ?p ''job_id'' = PStr job" by (simp add: py_get_canon [OF assms(2)]) (simp add: py_get_def assms(3))
  have "has_key ?p ''job_id''" using assms(3) by (force simp: has_key_def dest: map_of_SomeD)
  with g k j show ?thesis
    by (simp add: event_for_def canon.simps py_obj_def member_of_def py_get_or_def py_str_def del: sort_key_simps)
qed

lemma wrong_previous_is_refused:
  assumes "ev_kind e = ''watch.run_recorded''" "distinct (map fst (ev_payload e))"
    and "map_of (ev_payload e) ''previous_attempt_id'' = Some (opt_str previous)" "previous \<noteq> map_option ru_run (last_run sn)"
  shows "apply_watch_event (event_value e) sn \<noteq> Inr sn'"
proof
  assume "apply_watch_event (event_value e) sn = Inr sn'"
  then obtain n utc where "apply_run n ''watch.run_recorded'' utc (canon (PDict (ev_payload e))) sn = Inr sn'"
    by (auto simp: apply_watch_event_def py_bind_Inr_iff str_item_def event_items assms(1) py_str_def
        simp del: canon.simps split: if_splits)
  then obtain revision schedule ru where "run_summary n revision schedule (canon (PDict (ev_payload e))) sn = Inr ru"
    by (auto simp: apply_run_def py_bind_Inr_iff simp del: canon.simps)
  then obtain q where "opt_str_item (canon (PDict (ev_payload e))) ''previous_attempt_id'' = Inr q"
    "check_history sn q (canon (PDict (ev_payload e))) = Inr ()"
    by (auto simp: run_summary_def py_bind_Inr_iff simp del: canon.simps)
  moreover from this(1) have "q = previous"
    by (cases previous) (simp_all only: opt_str_item_def canon_item [OF assms(2)] assms(3) opt_str_def option.case
        py_bind_simps, simp_all add: py_str_def)
  ultimately show False using assms(4) by (auto simp: check_history_def split: option.splits)
qed

lemma broken_view:
  assumes view: "project_watch es job = Inr sn" and order: "in_order (es @ event_value e # later)"
    and e: "ev_kind e = ''watch.run_recorded''" "distinct (map fst (ev_payload e))"
      "map_of (ev_payload e) ''job_id'' = Some (PStr job)"
      "map_of (ev_payload e) ''previous_attempt_id'' = Some (opt_str previous)" "previous \<noteq> map_option ru_run (last_run sn)"
  shows "\<exists>err. project_watch (es @ event_value e # later) job = Inl err"
proof (cases "relevant_events job later")
  case (Inl err)
  then have "relevant_events job (event_value e # later) = Inl err"
    by (simp add: run_event_is_relevant [OF e(1-3)] del: canon.simps)
  moreover obtain rs where "relevant_events job es = Inr rs" "require_uuid job = Inr ()"
    using view by (auto simp: project_watch_def py_bind_Inr_iff)
  ultimately have "project_watch (es @ event_value e # later) job = Inl err"
    by (simp add: project_watch_def relevant_append del: relevant_events.simps canon.simps)
  then show ?thesis by blast
next
  case (Inr gs)
  then have "relevant_events job (event_value e # later) = Inr (event_value e # gs)"
    by (simp add: run_event_is_relevant [OF e(1-3)] del: canon.simps)
  moreover obtain rs where "relevant_events job es = Inr rs" "rs \<noteq> []"
    using view by (auto simp: project_watch_def py_bind_Inr_iff)
  ultimately have "project_watch (es @ event_value e # later) job = apply_all (event_value e # gs) sn"
    using project_prefix [OF order] view by (simp del: canon.simps)
  moreover obtain err where "apply_watch_event (event_value e) sn = Inl err"
    using wrong_previous_is_refused [OF e(1,2,4,5)] by (cases "apply_watch_event (event_value e) sn") auto
  ultimately show ?thesis by (simp del: canon.simps)
qed

lemma broken_after_record:
  assumes "service_ok (we_service w) sv" "validator_ok (sx_valid (we_service w))"
    and "sv_writing sv = None" "sv_commands sv = []" "length (log_rows sv) < 1000"
    and "current_view (we_service w) (fj_id (sj_job r)) sv = Inr sn"
    and "map_option wa_run (fr_previous (sr_run done_run)) \<noteq> map_option ru_run (last_run sn)"
    and "record_run (we_service w) r done_run result started finished due next_due sv = (sv1, Inr ())"
    and "wl_service lw = fst (run_ops (service_step (we_service w)) later (sv1, got))"
  shows "\<exists>e. lw_admit w r run lw = (lw, Inl e)"
proof -
  let ?x = "we_service w" and ?job = "fj_id (sj_job r)" and ?s = "run_ops (service_step (we_service w)) later (sv1, got)"
  from assms(8) obtain payload where p: "run_payload ?x r done_run result started finished due next_due sv = Inr payload"
    and a: "append_wait ?x ''watch.run_recorded'' payload (Some (rs_task_id result)) sv = (sv1, Inr ())"
    by (auto simp: record_run_def split: sum.splits)
  from idle_append [OF assms(1,3,4) a] obtain e where e: "log_rows sv1 = log_rows sv @ [event_row_of e]"
    "ev_kind e = ''watch.run_recorded''" "ev_payload e = payload" "sx_valid ?x (PDict (envelope_dict e))" "service_ok ?x sv1"
    by blast
  from later_rows [of ?x "(sv1, got)", OF _ refl] e(1,5) obtain rest where
    ok2: "writer_ok ?x (fst ?s)" and log2: "log_rows (fst ?s) = log_rows sv @ event_row_of e # rest"
    by (auto simp: served_ok_def service_ok_def)
  from assms(6) obtain es where es: "svc_replay ?x sv 0 1000 = Inr es" "project_watch es ?job = Inr sn"
    by (auto simp: current_view_def py_bind_Inr_iff)
  from page_extends [OF _ ok2 assms(2) log2 assms(5) e(4) es(1)] assms(1) obtain more_events where
    page: "svc_replay ?x (fst ?s) 0 1000 = Inr (es @ event_value e # more_events)" "in_order (es @ event_value e # more_events)"
    by (auto simp: service_ok_def simp del: canon.simps)
  from run_payload_fields [OF p] e(3) obtain err where "project_watch (es @ event_value e # more_events) ?job = Inl err"
    using broken_view [OF es(2) page(2) e(2) _ _ _ assms(7)] by (auto simp del: canon.simps)
  then have "current_view ?x ?job (fst ?s) = Inl err" by (simp add: current_view_def page(1) del: canon.simps)
  with assms(9) show ?thesis by (simp add: lw_admit_def matching_view_def view_error_def)
qed

lemma plain_append_accepted:
  assumes "uuid_ok (sv_stream sv)" "uuid_ok (sv_producer sv)" "\<not> bad_uuid (sv_session sv)" "\<not> bad_uuid task"
    and "1 \<le> next_sequence (sv_store sv) (sv_stream sv)"
    and "kind \<notin> {''task.verdict'', ''task.closed'', ''tool.finished'', ''task.state_changed''}" "\<not> has_key payload ''execution_epoch''"
    and "\<And>e. ev_kind e = kind \<Longrightarrow> ev_payload e = payload \<Longrightarrow> sx_valid x (PDict (envelope_dict e))"
    and "\<And>e. ev_id e = sx_uuid4 x (sv_drawn sv) \<Longrightarrow> ev_stream e = sv_stream sv \<Longrightarrow>
      ev_sequence e = next_sequence (sv_store sv) (sv_stream sv) \<Longrightarrow> \<not> event_clash e (sv_store sv)"
  shows "\<exists>q. perform_write x sv (Write_Append kind payload task None) = Inr q"
proof -
  obtain e where e: "service_event x sv (sv_drawn sv) (next_sequence (sv_store sv) (sv_stream sv)) kind task payload = Inr e"
    using assms by (auto simp: service_event_def build_event_def Let_def validate_event_def bad_uuid_def [of None])
  from e have f: "ev_id e = sx_uuid4 x (sv_drawn sv)" and g: "ev_payload e = payload" "ev_kind e = kind"
    "ev_stream e = sv_stream sv" "ev_sequence e = next_sequence (sv_store sv) (sv_stream sv)"
    by (auto simp: service_event_def build_event_def Let_def py_bind_Inr_iff)
  have "\<not> has_execution_epoch e" using assms(6,7) g by (auto simp: has_execution_epoch_def)
  then have "validate_epoch_scoped e (sv_store sv) = Inr None"
    by (simp add: validate_epoch_scoped_def split: option.splits)
  with e f g assms(6,8,9) show ?thesis
    by (simp add: perform_write_def Let_def append_event_def validate_event_def result_ref_of_def check_transition_def insert_event_def)
qed

definition ready_to_write :: "service_env \<Rightarrow> string option \<Rightarrow> service \<Rightarrow> bool" where
  \<comment> \<open>an open service with no write before this one; its identifiers and the task's are UUIDs and the next
    event identifier drawn is a new one\<close>
  "ready_to_write x task sv \<longleftrightarrow> service_ok x sv \<and> sv_writing sv = None \<and> sv_commands sv = [] \<and> \<not> sv_closed sv
     \<and> uuid_ok (sv_stream sv) \<and> uuid_ok (sv_producer sv) \<and> \<not> bad_uuid (sv_session sv) \<and> \<not> bad_uuid task
     \<and> sx_uuid4 x (sv_drawn sv) \<notin> er_id ` set (so_events (sv_store sv))"

lemma next_number_is_new:
  assumes "events_ok valid s"
  shows "1 \<le> next_sequence s stream \<and> (\<forall>r \<in> set (so_events s). er_stream r = stream \<longrightarrow> er_sequence r \<noteq> next_sequence s stream)"
proof -
  let ?n = "length (stream_rows s stream)"
  from assms have n: "next_sequence s stream = int (Suc ?n)" and c: "map er_sequence (stream_rows s stream) = map int [1..<Suc ?n]"
    by (auto simp: events_ok_def contiguous_def)
  have "er_sequence r \<noteq> int (Suc ?n)" if "r \<in> set (so_events s)" "er_stream r = stream" for r
  proof -
    from that have "er_sequence r \<in> set (map er_sequence (stream_rows s stream))" by (simp add: stream_rows_def)
    then show ?thesis unfolding c by auto
  qed
  with n show ?thesis by auto
qed

lemma ready_append:
  assumes ready: "ready_to_write x task sv"
    and kind: "kind \<notin> {''task.verdict'', ''task.closed'', ''tool.finished'', ''task.state_changed''}" "\<not> has_key payload ''execution_epoch''"
    and schema: "\<And>e. ev_kind e = kind \<Longrightarrow> ev_payload e = payload \<Longrightarrow> sx_valid x (PDict (envelope_dict e))"
  shows "\<exists>sv1. append_wait x kind payload task sv = (sv1, Inr ())"
proof -
  note r = ready [unfolded ready_to_write_def]
  from r kind obtain i sv1 where a: "svc_append kind payload task None sv = Inr (i, sv1)"
    and q: "enqueue_write (Write_Append kind payload task None) task sv = Inr (i, sv1)"
    by (auto simp: svc_append_def enqueue_write_def terminal_event_kinds_def)
  then have f: "sv_stream sv1 = sv_stream sv" "sv_producer sv1 = sv_producer sv" "sv_session sv1 = sv_session sv"
    "sv_store sv1 = sv_store sv" "sv_drawn sv1 = sv_drawn sv"
    by (auto simp: enqueue_write_def)
  from r have ok: "events_ok (sx_valid x) (sv_store sv)" by (simp add: service_ok_def writer_ok_def store_ok_def)
  have "\<exists>p. perform_write x sv1 (Write_Append kind payload task None) = Inr p"
  proof (rule plain_append_accepted)
    fix e :: envelope
    assume e: "ev_id e = sx_uuid4 x (sv_drawn sv1)" "ev_stream e = sv_stream sv1"
      "ev_sequence e = next_sequence (sv_store sv1) (sv_stream sv1)"
    then show "\<not> event_clash e (sv_store sv1)"
      using next_number_is_new [OF ok, of "sv_stream sv"] r unfolding f event_clash_def by force
  qed (use r kind schema f next_number_is_new [OF ok] in auto)
  then obtain p where p: "perform_write x sv1 (Write_Append kind payload task None) = Inr p" by blast
  from r idle_write_succeeds [OF _ _ q p] obtain sv2 where "awaited x i sv1 = (sv2, Inr ())"
    by (cases "awaited x i sv1") simp
  with a show ?thesis by (simp add: append_wait_def)
qed

definition recordable :: "service_env \<Rightarrow> stored_watch_job \<Rightarrow> watch_service_run \<Rightarrow> task_result \<Rightarrow> watch_snapshot \<Rightarrow> bool" where
  \<comment> \<open>a run of this job at its revision, complete when it is verified, compared when there is an earlier attempt,
    beside a view of the same revisions\<close>
  "recordable x r done_run result sn \<longleftrightarrow>
     wa_job (fr_current (sr_run done_run)) = fj_id (sj_job r)
     \<and> wa_revision (fr_current (sr_run done_run)) = revision_sha256 (sx_sha x) (sj_job r)
     \<and> wa_run (fr_current (sr_run done_run)) = sr_run_id done_run
     \<and> (rs_verified result \<longrightarrow> wa_complete (fr_current (sr_run done_run)))
     \<and> (fr_previous (sr_run done_run) \<noteq> None \<longrightarrow> fr_delta (sr_run done_run) \<noteq> None)
     \<and> wn_revision sn = revision_sha256 (sx_sha x) (sj_job r) \<and> wn_schedule sn = watch_schedule_revision (sx_sha x) r"

lemma recordable_payload:
  assumes "recordable x r done_run result sn" "current_view x (fj_id (sj_job r)) sv = Inr sn"
  obtains c p where "run_history (sr_run done_run) = Inr (c, p)"
    "run_payload x r done_run result started finished due next_due sv
       = Inr (run_fields x r done_run result started finished due next_due c p)"
proof -
  have "fr_previous (sr_run done_run) = None \<or> (\<exists>d. fr_delta (sr_run done_run) = Some d)"
    using assms(1) by (auto simp: recordable_def)
  then obtain c p where h: "run_history (sr_run done_run) = Inr (c, p)"
    by (cases "fr_previous (sr_run done_run)") (auto simp: run_history_def)
  with assms show thesis
    by (intro that [OF h])
      (auto simp: recordable_def run_payload_def Let_def matching_view_def view_error_def py_check_def)
qed

lemma run_fields_no_epoch: "\<not> has_key (run_fields x r done_run result started finished due next_due c p) ''execution_epoch''"
  by (simp add: run_fields_def has_key_def)

text \<open>C38: A run whose previous attempt is not the last run of the view is recorded all the same, and it ends the
  watch: on an idle service whose log still has fewer than a thousand events, the recorder accepts the run, the
  projection refuses its event, so from then on no view of the job can be rebuilt and every later admission of it
  is refused, whatever else is written.  The recorder does not compare the two histories: the previous
  attempt comes from the ledger of attempts, the view from the session log, and a run that was
  stored in the ledger but not recorded in the log is enough to part them.  The event schema is assumed to
  accept the event that the recorder builds.\<close>

theorem recorded_run_can_break_the_view:
  assumes ready: "ready_to_write (we_service w) (Some (rs_task_id result)) sv" "length (log_rows sv) < 1000"
    and view: "current_view (we_service w) (fj_id (sj_job r)) sv = Inr sn" "recordable (we_service w) r done_run result sn"
    and schema: "validator_ok (sx_valid (we_service w))"
      "\<And>e c p. ev_kind e = ''watch.run_recorded'' \<Longrightarrow> run_history (sr_run done_run) = Inr (c, p) \<Longrightarrow>
        ev_payload e = run_fields (we_service w) r done_run result started finished due next_due c p \<Longrightarrow>
        sx_valid (we_service w) (PDict (envelope_dict e))"
    and parted: "map_option wa_run (fr_previous (sr_run done_run)) \<noteq> map_option ru_run (last_run sn)"
  shows "\<exists>sv1. record_run (we_service w) r done_run result started finished due next_due sv = (sv1, Inr ())
    \<and> (\<forall>later got lw. wl_service lw = fst (run_ops (service_step (we_service w)) later (sv1, got)) \<longrightarrow>
         (\<exists>e. lw_admit w r run lw = (lw, Inl e)))"
proof -
  let ?x = "we_service w"
  from recordable_payload [OF view(2,1)] obtain c p where h: "run_history (sr_run done_run) = Inr (c, p)"
    and pay: "run_payload ?x r done_run result started finished due next_due sv
      = Inr (run_fields ?x r done_run result started finished due next_due c p)" (is "_ = Inr ?payload") .
  have "\<exists>sv1. append_wait ?x ''watch.run_recorded'' ?payload (Some (rs_task_id result)) sv = (sv1, Inr ())"
    using schema(2) h by (intro ready_append [OF ready(1)]) (simp_all add: run_fields_no_epoch)
  then obtain sv1 where "append_wait ?x ''watch.run_recorded'' ?payload (Some (rs_task_id result)) sv = (sv1, Inr ())"
    by blast
  with pay have rec: "record_run ?x r done_run result started finished due next_due sv = (sv1, Inr ())"
    by (simp add: record_run_def)
  moreover have "\<exists>e. lw_admit w r run lw = (lw, Inl e)"
    if "wl_service lw = fst (run_ops (service_step ?x) later (sv1, got))" for later got lw
    using ready broken_after_record [OF _ schema(1) _ _ _ view(1) parted rec that] by (simp add: ready_to_write_def)
  ultimately show ?thesis by blast
qed

section \<open>Examples\<close>

definition sample_sx :: service_env where
  "sample_sx = demo_env\<lparr>sx_sha := (\<lambda>_. replicate 64 (CHR ''b''))\<rparr>"

definition sample_watch_env :: watch_env where
  "sample_watch_env =
     \<lparr>we_service = sample_sx, we_ellipsis = CHR ''.'', we_repository = fj_repository sample_job,
      we_contract = replicate 64 (CHR ''c''), we_contract_now = (\<lambda>_. Inr (replicate 64 (CHR ''c''))),
      we_deadline = (\<lambda>_ _. ''later''), we_now = (\<lambda>_. ''now''), we_name = (\<lambda>_. ''Error''),
      we_verifier = (\<lambda>_ _ _. Inl RuntimeError)\<rparr>"

definition sample_stored :: stored_watch_job where
  "sample_stored = \<lparr>sj_job = sample_job, sj_version = 1, sj_enabled = True, sj_schedule = None\<rparr>"

definition sample_foreign_run :: watch_service_run where
  \<comment> \<open>its previous attempt is in the ledger, but no run of the job is in the log\<close>
  "sample_foreign_run =
     \<lparr>sr_version = 1, sr_trigger = MANUAL, sr_run_id = run_two,
      sr_run = \<lparr>fr_sequence = 2, fr_current = sample_attempt run_two [(''a'', ''2'')],
        fr_previous = Some (sample_attempt run_one [(''a'', ''1'')]),
        fr_delta = Some \<lparr>wd_status = COMPARABLE, wd_reasons = [], wd_added = [], wd_removed = [],
          wd_changed = [\<lparr>oc_key = ''a'', oc_before = ''1'', oc_after = ''2''\<rparr>], wd_unchanged = 0\<rparr>\<rparr>\<rparr>"

definition sample_verdict :: task_result where
  "sample_verdict = \<lparr>rs_task_id = demo_task_id, rs_outcome = O_NO_VERDICT, rs_answer = ''none'', rs_verified = False,
     rs_evidence = [], rs_metrics = [], rs_ran = True, rs_reason = None\<rparr>"

definition sample_stream :: string where
  "sample_stream = ''00000000000000000000000000000002''"

definition sample_log :: "envelope list \<Rightarrow> service" where
  \<comment> \<open>an idle service on a log of these events\<close>
  "sample_log es = (fst (new_served sample_sx sample_stream ''00000000000000000000000000000003'' None 8))
     \<lparr>sv_store := empty_store\<lparr>so_streams := [sample_stream \<mapsto> int (Suc (length es))], so_events := map event_row_of es\<rparr>\<rparr>"

definition sample_event :: "string \<Rightarrow> int \<Rightarrow> string \<Rightarrow> pydict \<Rightarrow> envelope" where
  "sample_event i n kind payload = \<lparr>ev_id = i, ev_stream = sample_stream, ev_sequence = n,
     ev_producer = ''00000000000000000000000000000003'', ev_session = None, ev_task = None, ev_utc = ''t'', ev_kind = kind,
     ev_payload = payload\<rparr>"

lemma sample_log_fields [simp]:
  "sv_writing (sample_log es) = None" "sv_commands (sample_log es) = []" "sv_stream (sample_log es) = sample_stream"
  by (simp_all add: sample_log_def new_served_def)

lemma sample_log_rows:
  assumes "\<forall>e \<in> set es. ev_stream e = sample_stream"
  shows "log_rows (sample_log es) = map event_row_of es"
  using assms by (simp add: log_rows_def stream_rows_def sample_log_def new_served_def)

lemma sample_log_ok:
  assumes st: "\<forall>e \<in> set es. ev_stream e = sample_stream" and n: "map ev_sequence es = map int [1..<Suc (length es)]"
    and i: "distinct (map ev_id es)"
    and v: "\<forall>e \<in> set es. keys_distinct (PDict (envelope_dict e)) \<and> ev_kind e \<notin> set terminal_event_kinds"
  shows "service_ok sample_sx (sample_log es)"
proof -
  let ?s = "sv_store (sample_log es)"
  have s: "so_events ?s = map event_row_of es" "so_tasks ?s = []" "so_artifacts ?s = []" "so_turns ?s = []"
    "so_streams ?s = [sample_stream \<mapsto> int (Suc (length es))]"
    by (simp_all add: sample_log_def empty_store_def)
  have "stream_rows ?s stream = (if stream = sample_stream then map event_row_of es else [])" for stream
    using st by (auto simp: stream_rows_def s filter_empty_conv)
  with n s have "contiguous (stream_rows ?s stream) \<and> next_sequence ?s stream = int (Suc (length (stream_rows ?s stream)))" for stream
    by (simp add: contiguous_def next_sequence_def comp_def del: upt_Suc)
  with i v have "events_ok demo_valid ?s"
    by (auto simp: events_ok_def s comp_def demo_valid_def simp del: keys_distinct.simps)
  then have "store_ok (sx_valid sample_sx) (sx_sha sample_sx) ?s"
    using v by (auto simp: store_ok_def tasks_ok_def closures_ok_def admissions_ok_def artifacts_ok_def turns_ok_def s
        sample_sx_def demo_env_def simp del: keys_distinct.simps)
  then show ?thesis
    by (simp add: service_ok_def writer_ok_def unpublished_def queue_ok_def)
qed

lemma sample_page:
  assumes "service_ok sample_sx (sample_log es)" "\<forall>e \<in> set es. ev_stream e = sample_stream" "length es \<le> 1000"
    and v: "\<forall>e \<in> set es. keys_distinct (PDict (envelope_dict e))"
  shows "svc_replay sample_sx (sample_log es) 0 1000 = Inr (map event_value es)"
proof -
  from v have "load_events (sx_valid sample_sx) (map encoded es) = Inr (map event_value es)" by (intro load_encoded) blast
  moreover have "validate_all (sx_valid sample_sx) (map event_value es) = Inr ()"
    using v canon_keys by (intro validate_all_ok) (auto simp: sample_sx_def demo_env_def demo_valid_def simp del: canon.simps keys_distinct.simps)
  ultimately show ?thesis
    using assms(1,3) by (simp add: first_page service_ok_def sample_log_rows [OF assms(2)] comp_def del: canon.simps)
qed

lemma watch_event_other:
  assumes "ev_kind e \<notin> {''watch.state_changed'', ''watch.run_recorded''}"
  shows "event_for job (event_value e) = Inr False"
proof -
  have "py_get (sort_key fst (map (\<lambda>kv. (fst kv, canon (snd kv))) (envelope_dict e))) ''kind'' = PStr (ev_kind e)"
    by (simp only: py_get_canon [OF event_keys]) (simp add: envelope_dict_def py_get_def)
  with assms show ?thesis by (simp add: event_for_def canon.simps py_obj_def member_of_def del: sort_key_simps)
qed

definition sample_notes :: "envelope list" where
  "sample_notes = map (\<lambda>i. sample_event (replicate i (CHR ''n'')) (int i) ''session.note'' []) [1..<1001]"

lemma sample_notes_fields:
  "\<forall>e \<in> set sample_notes. ev_stream e = sample_stream \<and> ev_kind e = ''session.note'' \<and> keys_distinct (PDict (envelope_dict e))"
  "map ev_sequence sample_notes = map int [1..<Suc (length sample_notes)]" "length sample_notes = 1000"
  "distinct (map ev_id sample_notes)"
proof -
  show "\<forall>e \<in> set sample_notes. ev_stream e = sample_stream \<and> ev_kind e = ''session.note'' \<and> keys_distinct (PDict (envelope_dict e))"
    by (auto simp: sample_notes_def sample_event_def envelope_dict_def opt_str_def keys_distinct.simps)
  show "map ev_sequence sample_notes = map int [1..<Suc (length sample_notes)]" "length sample_notes = 1000"
    by (simp_all add: sample_notes_def sample_event_def comp_def)
  have "inj (\<lambda>i. replicate i (CHR ''n''))" by (auto intro: injI dest: arg_cong [where f = length])
  then show "distinct (map ev_id sample_notes)"
    by (simp add: sample_notes_def sample_event_def comp_def distinct_map inj_on_def)
qed

definition sample_late :: "service_op list" where
  \<comment> \<open>the state of the watch is recorded\<close>
  "sample_late = [Append_Event ''watch.state_changed'' (state_payload sample_sx sample_stored ''enabled'' ''configured'' None None)
     None None, Commit_Next, Publish_Next, Publish_Next]"

definition sample_tasks :: "service \<Rightarrow> watch_tasks" where
  "sample_tasks sv = \<lparr>wl_service = sv, wl_runs = Map.empty\<rparr>"

lemma sample_uuid: "require_uuid (fj_id sample_job) = Inr ()"
  by code_simp

theorem watch_view_is_frozen_after_a_page_witness:
  "lw_admit sample_watch_env sample_stored run_one
      (sample_tasks (fst (run_ops (service_step sample_sx) sample_late (sample_log sample_notes, \<lambda>_. []))))
   = (sample_tasks (fst (run_ops (service_step sample_sx) sample_late (sample_log sample_notes, \<lambda>_. []))),
      Inl DurableWatchLifecycleError)"
proof -
  let ?s = "(sample_log sample_notes, \<lambda>_. []) :: served"
  have ok: "service_ok sample_sx (sample_log sample_notes)"
    using sample_notes_fields by (intro sample_log_ok) (auto simp: terminal_event_kinds_def)
  have "relevant_events job (map event_value es) = Inr []" if "\<forall>e \<in> set es. ev_kind e = ''session.note''" for job es
    using that by (induction es) (simp_all add: watch_event_other del: canon.simps)
  then have "matching_view sample_sx DurableWatchLifecycleError sample_stored (sample_log sample_notes) = Inl DurableWatchLifecycleError"
    using sample_page [OF ok] sample_notes_fields sample_uuid
    by (simp add: matching_view_def current_view_def view_error_def project_watch_def sample_stored_def del: canon.simps)
  then show ?thesis
    using watch_view_is_frozen_after_a_page [of sample_watch_env ?s _ sample_late sample_stored DurableWatchLifecycleError
        "sample_tasks (fst (run_ops (service_step sample_sx) sample_late ?s))" "[]" run_one] ok sample_notes_fields
    by (simp add: sample_watch_env_def served_ok_def service_ok_def sample_log_rows sample_tasks_def)
qed

definition sample_state :: envelope where
  "sample_state = sample_event ''e1'' 1 ''watch.state_changed''
     (state_payload sample_sx sample_stored ''enabled'' ''configured'' None None)"

lemma sample_state_view:
  "returns (\<lambda>sn. last_run sn = None \<and> wn_revision sn = replicate 64 (CHR ''b'') \<and> wn_schedule sn = replicate 64 (CHR ''b''))
     (project_watch [event_value sample_state] (fj_id sample_job))"
  by code_simp

lemma sample_state_log:
  "service_ok sample_sx (sample_log [sample_state]) \<and> log_rows (sample_log [sample_state]) = [event_row_of sample_state]
   \<and> (\<exists>sn. current_view sample_sx (fj_id sample_job) (sample_log [sample_state]) = Inr sn \<and> last_run sn = None
        \<and> wn_revision sn = replicate 64 (CHR ''b'') \<and> wn_schedule sn = replicate 64 (CHR ''b''))"
proof -
  have st: "ev_stream sample_state = sample_stream" "ev_sequence sample_state = 1" "ev_kind sample_state = ''watch.state_changed''"
    by (simp_all add: sample_state_def sample_event_def)
  have v: "keys_distinct (PDict (envelope_dict sample_state))"
    by (simp add: sample_state_def sample_event_def envelope_dict_def state_payload_def opt_str_def keys_distinct.simps)
  have ok: "service_ok sample_sx (sample_log [sample_state])"
    using st v by (intro sample_log_ok) (auto simp: terminal_event_kinds_def simp del: keys_distinct.simps)
  with sample_page [OF ok] st v sample_state_view show ?thesis
    by (auto simp: sample_log_rows current_view_def simp del: canon.simps elim!: returnsE)
qed

theorem recorded_run_can_break_the_view_witness:
  "\<exists>sv1 e. record_run sample_sx sample_stored sample_foreign_run sample_verdict ''t1'' ''t2'' None None (sample_log [sample_state])
     = (sv1, Inr ())
   \<and> lw_admit sample_watch_env sample_stored run_one (sample_tasks sv1) = (sample_tasks sv1, Inl e)"
proof -
  let ?sv = "sample_log [sample_state]"
  from sample_state_log obtain sn where
    sn: "current_view sample_sx (fj_id (sj_job sample_stored)) ?sv = Inr sn" "last_run sn = None"
      "wn_revision sn = replicate 64 (CHR ''b'')" "wn_schedule sn = replicate 64 (CHR ''b'')"
    by (auto simp: sample_stored_def)
  have env: "we_service sample_watch_env = sample_sx" by (simp add: sample_watch_env_def)
  have u: "uuid_ok sample_stream" "uuid_ok ''00000000000000000000000000000003''" "\<not> bad_uuid (Some demo_task_id)" "nat_str 0 \<noteq> ''e1''"
    by code_simp+
  have ready: "ready_to_write sample_sx (Some (rs_task_id sample_verdict)) ?sv"
    using sample_state_log u
    by (simp add: ready_to_write_def sample_verdict_def)
      (simp add: sample_log_def new_served_def sample_state_def sample_event_def sample_sx_def demo_env_def bad_uuid_def)
  have "revision_sha256 (sx_sha sample_sx) j = replicate 64 (CHR ''b'')" "watch_schedule_revision (sx_sha sample_sx) r = replicate 64 (CHR ''b'')"
    for j r by (simp_all add: revision_sha256_def watch_schedule_revision_def sample_sx_def)
  with sn have rec: "recordable sample_sx sample_stored sample_foreign_run sample_verdict sn"
    by (simp add: recordable_def sample_stored_def sample_foreign_run_def sample_attempt_def sample_verdict_def)
  have valid: "validator_ok (sx_valid sample_sx)" by (simp add: sample_sx_def demo_env_def demo_validator)
  have schema: "sx_valid sample_sx (PDict (envelope_dict e))"
    if "run_history (sr_run sample_foreign_run) = Inr (c, p)"
      "ev_payload e = run_fields sample_sx sample_stored sample_foreign_run sample_verdict ''t1'' ''t2'' None None c p" for e c p
  proof -
    from that(1) have "keys_distinct p" by (auto simp: run_history_def sample_foreign_run_def keys_distinct.simps)
    then have "keys_distinct (PDict (ev_payload e))" by (simp add: that(2) run_fields_def opt_str_def keys_distinct.simps)
    then show ?thesis
      by (cases "ev_task e"; cases "ev_session e") (simp_all add: sample_sx_def demo_env_def demo_valid_def envelope_dict_def opt_str_def keys_distinct.simps)
  qed
  have parted: "map_option wa_run (fr_previous (sr_run sample_foreign_run)) \<noteq> map_option ru_run (last_run sn)"
    by (simp add: sample_foreign_run_def sn(2))
  have short: "length (log_rows ?sv) < 1000" using sample_state_log by simp
  have tasks: "wl_service (sample_tasks sv1) = fst (run_ops (service_step sample_sx) [] (sv1, \<lambda>_. []))" for sv1
    by (simp add: sample_tasks_def)
  have "\<exists>sv1. record_run sample_sx sample_stored sample_foreign_run sample_verdict ''t1'' ''t2'' None None ?sv = (sv1, Inr ())
    \<and> (\<forall>later got lw. wl_service lw = fst (run_ops (service_step sample_sx) later (sv1, got)) \<longrightarrow>
         (\<exists>e. lw_admit sample_watch_env sample_stored run_one lw = (lw, Inl e)))"
    by (rule recorded_run_can_break_the_view [of sample_watch_env, unfolded env, OF ready short sn(1) rec valid _ parted])
      (rule schema)
  then obtain sv1 where "record_run sample_sx sample_stored sample_foreign_run sample_verdict ''t1'' ''t2'' None None ?sv = (sv1, Inr ())"
    and all: "\<forall>later got lw. wl_service lw = fst (run_ops (service_step sample_sx) later (sv1, got)) \<longrightarrow>
         (\<exists>e. lw_admit sample_watch_env sample_stored run_one lw = (lw, Inl e))" by blast
  with tasks [of sv1] show ?thesis by blast
qed

definition sample_first_run :: watch_service_run where
  "sample_first_run =
     \<lparr>sr_version = 1, sr_trigger = MANUAL, sr_run_id = run_one,
      sr_run = \<lparr>fr_sequence = 1, fr_current = sample_attempt run_one [(''a'', ''1'')], fr_previous = None, fr_delta = None\<rparr>\<rparr>"

definition sample_history :: "pyval list" where
  \<comment> \<open>the state of a watch, its baseline run and the run after it, not in the order of the log\<close>
  "sample_history = map event_value
     [sample_event ''e3'' 3 ''watch.run_recorded''
        (run_fields sample_sx sample_stored sample_foreign_run sample_verdict ''t1'' ''t2'' None None ''COMPARABLE'' (PStr run_one)),
      sample_state,
      sample_event ''e2'' 2 ''watch.run_recorded''
        (run_fields sample_sx sample_stored sample_first_run sample_verdict ''t1'' ''t2'' None None ''BASELINE'' PNone)]"

lemma sample_history_view:
  "returns (\<lambda>sn. map ru_run (wn_runs sn) = [run_one, run_two]) (project_watch sample_history (fj_id sample_job))"
  by code_simp

theorem view_history_is_a_chain_witness:
  "\<exists>sn. project_watch sample_history (fj_id sample_job) = Inr sn \<and> length (wn_runs sn) = 2
    \<and> ru_previous (wn_runs sn ! 1) = Some run_one \<and> ru_comparison (wn_runs sn ! 1) \<noteq> ''BASELINE''"
proof -
  from sample_history_view obtain sn where sn: "project_watch sample_history (fj_id sample_job) = Inr sn"
    "map ru_run (wn_runs sn) = [run_one, run_two]" by (auto elim!: returnsE)
  from arg_cong [OF sn(2), of length] have n: "length (wn_runs sn) = 2" by simp
  moreover from arg_cong [OF sn(2), of "\<lambda>xs. xs ! 0"] n have "ru_run (wn_runs sn ! 0) = run_one" by simp
  ultimately show ?thesis using view_history_is_a_chain [OF sn(1), of 1] sn(1) by auto
qed

end
