(* ===== verification/Watch_Lifecycle_Properties.thy ===== *)
theory Watch_Lifecycle_Properties
  imports Watch_View_Properties
begin

text \<open>
  Fixed watch runs as durable tasks: the run with the durable lifecycle is the run of the watch
  service with that lifecycle as its hooks, it gives its identity back on every outcome, and when it
  returns its task is closed with the result of the verifier.
\<close>

section \<open>The hooks\<close>

definition durable_hooks :: "watch_env \<Rightarrow> stored_watch_job \<Rightarrow> string \<Rightarrow> watch_tasks \<Rightarrow> watch_lifecycle" where
  \<comment> \<open>what the three hooks of one run return, each in the state the hooks before it left\<close>
  "durable_hooks w r run lw =
     (let lw1 = fst (lw_admit w r run lw); lw2 = fst (lw_start w r run lw1)
      in \<lparr>lc_admit = (\<lambda>_ _. snd (lw_admit w r run lw)), lc_start = (\<lambda>_ _. snd (lw_start w r run lw1)),
          lc_completed = (\<lambda>_ d. snd (lw_completed w r d lw2))\<rparr>)"

text \<open>The run with the durable lifecycle is the run of the watch service: with the three hooks of the
  lifecycle, \<open>run_job\<close> leaves the same ledger of attempts and returns or raises the same.\<close>

theorem durable_run_is_a_service_run:
  "snd (run_body (cfg\<lparr>wc_lifecycle := Some (durable_hooks w r run lw)\<rparr>) r t run rs) =
     (case durable_body w cfg r t run rs lw of (rs', lw', out) \<Rightarrow> (rs', out))"
proof -
  note defs = run_body_def durable_body_def durable_hooks_def guarded_run_def failed_run_def tr_bind_def quiet_def outside_def Let_def
  obtain lw1 ao where a: "lw_admit w r run lw = (lw1, ao)" by fastforce
  obtain lw2 so where s: "lw_start w r run lw1 = (lw2, so)" by fastforce
  let ?n = "\<lambda>rn. snd (runner_run (wc_sha cfg) rn run (sj_job r) (Some run) rs)"
  show ?thesis
  proof (cases ao)
    case (Inr u)
    show ?thesis
    proof (cases "wc_factory cfg r run")
      case rn: (Inr rn)
      show ?thesis
      proof (cases so)
        case so: (Inr v)
        show ?thesis by (cases "?n rn") (simp_all add: defs a s Inr rn so split: prod.split)
      qed (simp add: defs a s Inr rn)
    qed (simp add: defs a Inr)
  qed (simp add: defs a)
qed

section \<open>The identity of a run\<close>

lemma no_verdict_watch_Inr:
  "no_verdict_watch task answer b = Inr \<lparr>rs_task_id = task, rs_outcome = O_NO_VERDICT, rs_answer = answer, rs_verified = False,
     rs_evidence = [], rs_metrics = [], rs_ran = b, rs_reason = None\<rparr>"
  unfolding no_verdict_watch_def by (rule mk_task_result_Inr) (simp_all add: task_succeeded_def)

lemma failed_forgets: "wl_runs lw run = Some s \<Longrightarrow> wl_runs (fst (lw_failed w run e lw)) = (wl_runs lw)(run := None)"
  by (simp add: lw_failed_def run_state_of_def no_verdict_watch_Inr forget_run_def split: prod.split)

lemma admitted_runs:
  assumes "lw_admit w r run lw = (lw1, Inr ())"
  shows "\<exists>task. wl_runs lw run = None \<and> wl_runs lw1 = (wl_runs lw)(run \<mapsto> \<lparr>rt_task = task, rt_started = None\<rparr>)"
  using assms by (auto simp: lw_admit_def split: sum.splits prod.splits if_splits)

lemma refused_runs: "lw_admit w r run lw = (lw1, Inl e) \<Longrightarrow> wl_runs lw1 = wl_runs lw"
  by (auto simp: lw_admit_def split: sum.splits prod.splits if_splits)

lemma started_runs:
  assumes "lw_start w r run lw1 = (lw2, out)" "wl_runs lw1 run = Some \<lparr>rt_task = task, rt_started = None\<rparr>"
  shows "case out of Inl e \<Rightarrow> wl_runs lw2 = wl_runs lw1
    | Inr _ \<Rightarrow> (\<exists>started. wl_runs lw2 = (wl_runs lw1)(run \<mapsto> \<lparr>rt_task = task, rt_started = Some started\<rparr>))"
  using assms by (auto simp: lw_start_def run_state_of_def Let_def split: sum.splits prod.splits if_splits)

lemma completed_forgets:
  assumes "lw_completed w r d lw = (lw', out)" "\<exists>s. wl_runs lw (sr_run_id d) = Some s \<and> rt_started s \<noteq> None"
    and "wa_run (fr_current (sr_run d)) = sr_run_id d"
  shows "wl_runs lw' = (wl_runs lw)(sr_run_id d := None)"
  using assms by (auto simp: lw_completed_def run_state_of_def Let_def forget_run_def split: sum.splits prod.splits)

text \<open>C40: No identity of a run is left behind.  However a run ends - refused, stopped by an error before or after
  its start, completed with or without a verdict - the lifecycle knows exactly the runs it knew before.\<close>

theorem run_identity_is_released:
  "wl_runs (fst (snd (durable_body w cfg r t run rs lw))) = wl_runs lw"
proof -
  obtain lw1 ao where a: "lw_admit w r run lw = (lw1, ao)" by fastforce
  show ?thesis
  proof (cases ao)
    case (Inl e)
    with a refused_runs show ?thesis by (simp add: durable_body_def)
  next
    case (Inr u)
    with a admitted_runs obtain task where f: "wl_runs lw run = None"
      "wl_runs lw1 = (wl_runs lw)(run \<mapsto> \<lparr>rt_task = task, rt_started = None\<rparr>)" by (metis (full_types) old.unit.exhaust)
    have same: "(wl_runs lw)(run := None) = wl_runs lw" using f(1) by auto
    obtain lw2 so where s: "lw_start w r run lw1 = (lw2, so)" by fastforce
    from started_runs [OF s, of task] f(2) obtain st where
      "wl_runs lw2 = (wl_runs lw)(run \<mapsto> \<lparr>rt_task = task, rt_started = st\<rparr>)" "so = Inr () \<Longrightarrow> \<exists>x. st = Some x"
      by (cases so) auto
    with f a s Inr same show ?thesis
      by (auto simp: durable_body_def failed_run_def Let_def failed_forgets dest!: completed_forgets split: sum.split prod.split)
  qed
qed

section \<open>The task of a run\<close>

lemma awaited_ok:
  "awaited x i sv = (sv', out) \<Longrightarrow> service_ok x sv \<Longrightarrow> service_ok x sv' \<and> store_grows (sv_store sv) (sv_store sv')"
  by (auto simp: awaited_def Let_def writer_runs_ok)

lemma append_wait_ok:
  assumes "append_wait x kind payload task sv = (sv', out)" "service_ok x sv"
  shows "service_ok x sv' \<and> store_grows (sv_store sv) (sv_store sv')"
proof (cases "svc_append kind payload task None sv")
  case (Inr p)
  obtain i sv1 where p: "p = (i, sv1)" by (cases p)
  with assms(1) Inr have "awaited x i sv1 = (sv', out)" by (simp add: append_wait_def)
  with svc_append_ok [OF Inr [unfolded p] assms(2)] awaited_ok show ?thesis by metis
qed (use assms in \<open>simp add: append_wait_def\<close>)

lemma admit_watch_ok:
  assumes "admit_watch w r run task skill sv = (sv', out)" "service_ok (we_service w) sv"
  shows "service_ok (we_service w) sv'"
proof -
  have "service_ok (we_service w) sv2" if "submit_task y request h payload bytes sv = Inr (i, sv1)" "awaited (we_service w) i sv1 = (sv2, e)"
    for y request h payload bytes i sv1 sv2 e
    using submit_ok [OF that(1) assms(2)] awaited_ok [OF that(2)] by blast
  with assms show ?thesis by (auto simp: admit_watch_def Let_def split: sum.splits prod.splits)
qed

lemma lw_admit_ok:
  "lw_admit w r run lw = (lw', out) \<Longrightarrow> service_ok (we_service w) (wl_service lw) \<Longrightarrow> service_ok (we_service w) (wl_service lw')"
  by (auto simp: lw_admit_def split: sum.splits prod.splits if_splits dest: admit_watch_ok)

lemma lw_start_ok:
  "lw_start w r run lw = (lw', out) \<Longrightarrow> service_ok (we_service w) (wl_service lw) \<Longrightarrow> service_ok (we_service w) (wl_service lw')"
  by (auto simp: lw_start_def Let_def split: sum.splits prod.splits if_splits dest: append_wait_ok)

lemma finalize_watch_closes:
  assumes "finalize_watch w result scope sv = (sv', Inr ())" "service_ok (we_service w) sv"
  shows "closed_as (rs_task_id result) (result_state result) (sv_store sv') \<and> service_ok (we_service w) sv'"
proof -
  let ?x = "we_service w" and ?sv = "sv\<lparr>sv_drawn := Suc (sv_drawn sv)\<rparr>"
  from assms(1) obtain ref bytes block cleanup i sv1 where
    f: "svc_finalize ?x (rs_task_id result) (verdict_payload (rs_task_id result) result block ref False)
         (closed_payload result ref cleanup) (Some bytes) ?sv = Inr (i, sv1)" and a: "awaited ?x i sv1 = (sv', Inr ())"
    by (auto simp: finalize_watch_def Let_def split: sum.splits prod.splits)
  note ok = svc_finalize_ok [OF f draw_ok [OF assms(2)]]
  from performed_closes [OF awaited_performed [OF ok(1,3) a]] awaited_ok [OF a ok(1)] show ?thesis
    by (simp add: result_state_def)
qed

lemma verified_result_Inr:
  assumes "verified_result w r d task = Inr result"
  shows "we_verifier w r d task = Inr result \<and> rs_task_id result = task \<and> wa_contract (fr_current (sr_run d)) = we_contract w
    \<and> (rs_verified result \<longrightarrow> wa_complete (fr_current (sr_run d)))"
  using assms by (auto simp: verified_result_def Let_def py_bind_Inr_iff)

lemma completed_closes:
  assumes "lw_completed w r d lw = (lw', Inr ())" "service_ok (we_service w) (wl_service lw)"
    and "wl_runs lw (sr_run_id d) = Some s"
  shows "\<exists>result. verified_result w r d (rt_task s) = Inr result
    \<and> closed_as (rt_task s) (result_state result) (sv_store (wl_service lw'))"
proof -
  from assms(1,3) obtain result started sv sv1 where v: "settled_result w r d (rt_task s) = Inr (result, None)"
    and f: "finalize_watch w result ''deterministic fixed-watch procedure and verification'' (wl_service lw) = (sv, Inr ())"
    and rec: "record_run (we_service w) r d result started (we_now w (sv_drawn (wl_service lw))) None None sv = (sv1, Inr ())"
    and lw': "wl_service lw' = sv1"
    by (auto simp: lw_completed_def run_state_of_def forget_run_def Let_def split: sum.splits prod.splits option.splits if_splits)
  from v have r: "verified_result w r d (rt_task s) = Inr result"
    by (auto simp: settled_result_def py_bind_Inr_iff split: sum.splits)
  from finalize_watch_closes [OF f assms(2)] have c: "closed_as (rs_task_id result) (result_state result) (sv_store sv)"
    and ok: "service_ok (we_service w) sv" by simp_all
  from rec append_wait_ok [OF _ ok] have "store_grows (sv_store sv) (sv_store sv1)"
    by (auto simp: record_run_def split: sum.splits)
  with r verified_result_Inr [OF r] closed_as_grows [OF c] lw' show ?thesis by auto
qed

text \<open>A run that is returned has its task durably closed.  The task is the one it was admitted as; it is
  terminal in the state of the verifier's result for that very task, the attempt was made under the
  execution contract the lifecycle was built for, and a verified result rests on a complete attempt.\<close>

theorem returned_run_is_closed:
  assumes "service_ok (we_service w) (wl_service lw)" "durable_body w cfg r t run rs lw = (rs', lw', Inr d)"
  shows "\<exists>s result. wl_runs (fst (lw_admit w r run lw)) run = Some s \<and> we_verifier w r d (rt_task s) = Inr result
    \<and> rs_task_id result = rt_task s \<and> closed_as (rt_task s) (result_state result) (sv_store (wl_service lw'))
    \<and> wa_contract (fr_current (sr_run d)) = we_contract w
    \<and> (rs_verified result \<longrightarrow> wa_complete (fr_current (sr_run d)))"
proof -
  from assms(2) obtain lw1 lw2 where a: "lw_admit w r run lw = (lw1, Inr ())" and s: "lw_start w r run lw1 = (lw2, Inr ())"
    and c: "lw_completed w r d lw2 = (lw', Inr ())" and d: "sr_run_id d = run"
    by (auto simp: durable_body_def failed_run_def Let_def py_bind_Inr_iff split: sum.splits prod.splits if_splits)
  from admitted_runs [OF a] obtain task where k: "wl_runs lw1 run = Some \<lparr>rt_task = task, rt_started = None\<rparr>" by auto
  with started_runs [OF s] obtain started where k2: "wl_runs lw2 run = Some \<lparr>rt_task = task, rt_started = Some started\<rparr>" by auto
  from completed_closes [OF c lw_start_ok [OF s lw_admit_ok [OF a assms(1)]]] k2 d obtain result where
    "verified_result w r d task = Inr result" "closed_as task (result_state result) (sv_store (wl_service lw'))" by auto
  with verified_result_Inr [OF this(1)] a k show ?thesis by auto
qed

end
