(* ===== verification/Spec2Isabelle.thy ===== *)
theory Spec2Isabelle
  imports Answer_Properties Results Cancel_Invariants Endpoint_Invariants Session_Properties
    Patch_Properties Service_Properties Terminal_Truth Check_Failure Executor_Properties Watch_Properties
    Conversation_Properties Context_Properties Watch_Lifecycle_Properties
begin

text \<open>
  A verification development for the Local Code Agent (\<open>src/internal/local_agent\<close>), a coding
  agent that runs tools against a repository for a language model and reports what it proved.

  How the program works.  The orchestrator (\<open>agent/orchestrator.py\<close>) executes the tool calls a
  model asks for: it looks the tool up, asks the policy engine, stops identical calls, asks
  the operator for approval, runs the handler and files a record with the proof kind that
  \<open>verification.py\<close> gives to the call.  The run's answer is accepted or sent back by the same
  component and projected to an outcome.  The session layer makes the work durable: a task is
  admitted to the session store, its events are appended, its result is retained as an
  artifact, and it is finalized with one verdict and one closure.  All writes pass through the
  event service, whose single writer numbers, commits and publishes them; the durable executor
  runs a task between admission and terminal, reads from the log what may still be running and
  builds the terminal bundle.  Watch jobs are fixed procedures run again and again: their
  configuration is versioned, every run is an attempt in a ledger and is compared with the one
  before; in a session a run is also a durable task and the log holds the states and runs from which
  the view of the watch is rebuilt.  What is said is kept in a conversation file, from which the next request is composed.  Around it the cancellation registry fences executions by epoch,
  and the endpoint arbiter hands out the single lease of the inference endpoint.  The editing
  tools keep proposals of patches and a journal of the files they changed.

  Theories, bottom up.
  \<^item> \<open>Py_Prelude\<close>: exceptions and results (\<open>py_exc\<close>, \<open>py_bind\<close>, \<open>py_check\<close>), the text helpers of
    the standard library, and the interfaces \<open>guarded_machine\<close> and \<open>monotone_machine\<close>: a
    component whose operations either raise and change nothing or keep its invariant (and
    climb its order).  Every stateful component interprets them: \<open>proof_run\<close>, \<open>growing_run\<close>
    and \<open>bounded_run\<close> for runs, \<open>registry\<close> and \<open>fenced\<close> for cancellation, \<open>endpoint\<close> for the
    arbiter, \<open>durable\<close> for the store, \<open>service_run\<close>, \<open>handed_over\<close>, \<open>fresh_subs\<close>,
    \<open>fixed_stream\<close> and \<open>queued_run\<close> for the event service, \<open>configuration\<close>, \<open>ledger\<close> and
    \<open>overlapping\<close> for watch jobs, \<open>visits\<close> for conversations, \<open>prompt\<close>
    for the context of a run.
  \<^item> \<open>Py_Value\<close>, \<open>Json_Codec\<close>, \<open>Text_Bytes\<close>, \<open>Json_Pretty\<close>: untyped values, the boundary
    validators of \<open>session/value_validation.py\<close>, the JSON text of the stores with its reader, UTF-8,
    canonical bytes and indented JSON with their round trips.
  \<^item> \<open>Verification\<close> (\<open>verification.py\<close>), \<open>Tool_Primitives\<close> (\<open>tools/tool_primitives.py\<close>),
    \<open>Agent_Policy\<close> (\<open>agent/policy.py\<close>, \<open>agent/outcome.py\<close>), \<open>Agent_State\<close> (\<open>agent/state.py\<close>),
    \<open>Orchestrator\<close> and \<open>Answers\<close> (\<open>agent/orchestrator.py\<close>, \<open>agent/contracts.py\<close>): the agent.
    A run is the record \<open>run\<close>: agent state, observed events and the world the handlers act
    on; handlers, approval and clock are parameters.  \<open>Run_Invariants\<close> proves the invariant
    of runs, \<open>Run_Properties\<close> and \<open>Answer_Properties\<close> what follows for callers.
  \<^item> \<open>Agent_Context\<close>, \<open>Context_Properties\<close> (\<open>agent/context.py\<close> and the step of the orchestrator
    before a request): the messages of a run, their compaction and the token budget; the prompt
    only grows, a request fits or nothing is left to collapse.
  \<^item> \<open>Contracts\<close> (\<open>session/contracts.py\<close>), \<open>Proof_Binding\<close> (\<open>session/proof_binding.py\<close>),
    \<open>Results\<close> (\<open>session/results.py\<close>): outcomes, typed results, the binding of a proof to a tree
    and the rendered verdict block, with the proof that each says what the run established.
  \<^item> \<open>Cancel_Runtime\<close>, \<open>Cancel_Invariants\<close> (\<open>session/cancellation.py\<close>,
    \<open>session/cancellation_runtime.py\<close>): fences, tokens, plans and the registry; a revoked epoch
    never regains authority while its task stays registered, cleanup needs the proof its plan names.
  \<^item> \<open>Endpoint_Lease\<close>, \<open>Endpoint_Invariants\<close> (\<open>session/endpoint_lease.py\<close>): the arbiter; bounded
    queues, bounded waiting, quarantine.
  \<^item> \<open>Session_Store\<close>, \<open>Session_Invariants\<close>, \<open>Session_Properties\<close> (\<open>session/event_contract.py\<close>,
    \<open>session/session_store.py\<close>): the five tables as lists of row records, each transaction as a
    function that returns the next store or the exception; contiguous logs, final tasks,
    idempotent admission, artifacts read back.

  \<^item> \<open>Patch_Text\<close>, \<open>Repo_Files\<close>, \<open>Patch_Store\<close> (\<open>tools/patch.py\<close>, the path rules of
    \<open>tools/tool_primitives.py\<close>): block replacement, a tree of files, folders and links, proposals,
    journal and the three editing handlers.  \<open>Patch_Invariants\<close> proves that the journal restores
    the files; \<open>Patch_Properties\<close> puts the handlers under the orchestrator through the locale
    \<open>keeping_tools\<close>: tools that keep a property of the world, whose batches then keep it too.
  \<^item> \<open>Candidate_Facts\<close>, \<open>Check_Failure\<close>, \<open>Terminal_Completion\<close> (the files of those names under
    \<open>session/\<close>): the retained facts of a candidate change and of a failed check, and the strict
    reader of the terminal bundle.
  \<^item> \<open>Session_Service\<close>, \<open>Service_Properties\<close> (\<open>session/session_event_service.py\<close>): queue, writer,
    subscriptions and the handoff from replay to live events.
  \<^item> \<open>Terminal_Truth\<close> (\<open>session/terminal_truth.py\<close>): cleanup and open calls projected from the log.
  \<^item> \<open>Task_Executor\<close>, \<open>Executor_Invariants\<close>, \<open>Executor_Properties\<close>
    (\<open>session/cancellable_task_executor.py\<close> and the shared parts of the event service): the fenced
    run in phases, with Stops, events and the writer in any order between them.  The locales
    \<open>writer_invariant\<close> and \<open>result_invariant\<close> say what a property of the service must satisfy to
    survive the executor; \<open>recording\<close> (results are durable) and \<open>stopped_exec\<close> (a stopped task is
    only closed as unknown) interpret them.
  \<^item> \<open>Watch_Jobs\<close> (\<open>watch/jobs.py\<close>, \<open>watch/delta.py\<close>), \<open>Watch_Stores\<close> (\<open>watch/job_store.py\<close>,
    \<open>watch/watch_run_store.py\<close>), \<open>Watch_Service\<close> (\<open>watch/fixed_watch_runner.py\<close>,
    \<open>watch/service.py\<close>): configured jobs and the text their revision hashes, attempts and deltas,
    the configuration table with its versions, the ledger of attempts and one run under its
    claim.  The machines \<open>configuration\<close>, \<open>ledger\<close> and \<open>overlapping\<close> interpret the interfaces of
    the prelude, rows are read back by \<open>raw_writer\<close>; \<open>Watch_Properties\<close> holds what follows for
    callers.
  \<^item> \<open>Watch_View\<close> (\<open>session/watch_read_model.py\<close>), \<open>Watch_Lifecycle\<close> (\<open>session/durable_watch.py\<close>,
    \<open>session/watch_task_admission.py\<close>, \<open>session/watch_task_lifecycle.py\<close>): the view of a watch projected
    from the log, and one run as a durable task, whose hooks stand for the lifecycle parameter of
    \<open>Watch_Service\<close>.  \<open>Watch_View_Properties\<close> shows that the runs of a view are a chain and that a
    projection can be kept event by event, and two ways in which the view is lost (a page of
    replay, a ledger ahead of the log); the machine \<open>growing_log\<close> is the log under any script of the
    service.  \<open>Watch_Lifecycle_Properties\<close> puts the lifecycle under the run: same outcome as the watch
    service (\<open>durable_run_is_a_service_run\<close>), no identity left behind, and a returned run whose task
    is closed with the result of the verifier (\<open>returned_run_is_closed\<close>).
  \<^item> \<open>Conversation\<close>, \<open>Conversation_Properties\<close> (\<open>session/conversation_store.py\<close>, window and
    recording of \<open>session/conversation_gateway.py\<close>): the conversation file with its strict reader,
    references to turns, the composition of requests, the gateway's window of messages; files
    stay readable through visits, requests fit their budgets, recording is all or nothing.

  Conventions.  An exception is a value of \<open>py_exc\<close>; its message is not modelled.  A \<open>char\<close> is a
  code point below 256.  JSON numbers are integers, and a text with a float counts as malformed.  Each method that runs under a lock or in
  a transaction is one atomic step, and interleavings are scripts of steps (\<open>run_ops\<close>).
  SHA-256, the JSON schema validator, \<open>uuid4\<close>, the clock, git data, tool handlers and the
  operator's approval are parameters.  The assumptions on parameters that properties state are
  \<open>validator_ok\<close> (the schema validator accepts only objects with distinct keys and does not look
  at key order) and \<open>ellipsis_ok\<close> (the ellipsis, above the modelled code points, is a printable
  character of its own); \<open>recorded_run_can_break_the_view\<close> also assumes that the schema accepts the event of
  the run it is about.

  Bounds.  The JSON reader takes the length of its text as fuel, which \<open>text_read\<close> shows to
  be enough for every text the writer produces.  Two loops of the source have no bound of their
  own and are partial functions: the walk along superseded proposals and the paging of the log;
  \<open>superseded_walk_ends\<close> and \<open>paging_is_one_pass\<close> show that they return.  Waiting for a durable
  write is the writer working off its queue; its time limit is not modelled.  The trimming loop of
  the gateway ends because the list of messages gets shorter.  The other loops are structural
  recursions.

  Not modelled.  The terminal user interface, the process runners and their operating-system
  containment, git worktrees, the language-model client and its HTTP transport, configuration
  files, devtools, scripts and the native endpoint: input and output around the decisions
  above.  The task controller sequences such effects; the rest of the conversation gateway matches
  the wording of sentences.
\<close>

end
